(* ===== verification/Base_Prelude.thy ===== *)
theory Base_Prelude
  imports Main "HOL-Library.AList"
begin

text \<open>
  Prelude of the development: the parts of the JavaScript run time that every component
  of the repository uses, with the lemmas the components share.

  \<^item> Strings are \<open>string\<close>: a sequence of UTF-16 code units, restricted to the code units
    below 256. Within that range \<open>js_trim\<close> and \<open>js_lower\<close> are exact (the ECMAScript white
    space and the lower-case mapping of Latin-1).
  \<^item> A \<open>Map\<close> is an association list in insertion order (\<open>('k, 'v) jsmap\<close>): \<open>get\<close> is
    \<open>map_of\<close>, \<open>set\<close> is \<open>AList.update\<close> (it overwrites in place and appends a new key),
    \<open>delete\<close> is \<open>AList.delete\<close>.
  \<^item> \<open>Array.prototype.sort\<close> is the stable insertion sort \<open>js_sort\<close> over a comparator.
  \<^item> An optional property is an \<open>option\<close>; the spread \<open>...(x ? \<lbrace>x\<rbrace> : \<lbrace>\<rbrace>)\<close> of a string
    drops the empty string (\<open>keep_str\<close>).
  \<^item> A method that may throw returns \<open>state \<times> (error + result)\<close>: the state is returned on
    both sides, because code that throws may have mutated the state before.
\<close>

named_theorems store_simps "unfolding of the state-passing operations"
named_theorems map_laws "lookup laws of the insertion-ordered maps"

section \<open>Results\<close>

type_synonym ('s, 'e, 'a) outcome = "'s \<times> ('e + 'a)"

abbreviation (input) ok :: "'s \<Rightarrow> 'a \<Rightarrow> ('s, 'e, 'a) outcome" where
  "ok s a \<equiv> (s, Inr a)"

abbreviation (input) throw :: "'s \<Rightarrow> 'e \<Rightarrow> ('s, 'e, 'a) outcome" where
  "throw s e \<equiv> (s, Inl e)"

definition and_then ::
  "('s, 'e, 'a) outcome \<Rightarrow> ('s \<Rightarrow> 'a \<Rightarrow> ('s, 'e, 'b) outcome) \<Rightarrow> ('s, 'e, 'b) outcome" where
  "and_then m f = (case m of (s, Inl e) \<Rightarrow> (s, Inl e) | (s, Inr a) \<Rightarrow> f s a)"

lemma and_then_simps [simp]:
  "and_then (s, Inl e) f = (s, Inl e)"
  "and_then (s, Inr a) f = f s a"
  by (simp_all add: and_then_def)

lemma and_then_ok_iff:
  "and_then m f = (s', Inr b) \<longleftrightarrow> (\<exists>s a. m = (s, Inr a) \<and> f s a = (s', Inr b))"
  by (auto simp: and_then_def split: prod.splits sum.splits)

fun is_ok :: "('e + 'a) \<Rightarrow> bool" where
  "is_ok (Inl _) = False"
| "is_ok (Inr _) = True"

lemma is_ok_no_error: "is_ok r \<longleftrightarrow> (\<forall>e. r \<noteq> Inl e)"
  by (cases r) auto

text \<open>Sequencing of steps that may throw and keep no state.\<close>

definition then_do :: "('e + 'a) \<Rightarrow> ('a \<Rightarrow> 'e + 'b) \<Rightarrow> 'e + 'b" where
  "then_do m f = (case m of Inl e \<Rightarrow> Inl e | Inr a \<Rightarrow> f a)"

lemma then_do_simps [simp]: "then_do (Inl e) f = Inl e" "then_do (Inr a) f = f a"
  by (simp_all add: then_do_def)

lemma then_do_ok: "then_do m f = Inr b \<longleftrightarrow> (\<exists>a. m = Inr a \<and> f a = Inr b)"
  by (cases m) simp_all

section \<open>Insertion-ordered maps\<close>

type_synonym ('k, 'v) jsmap = "('k \<times> 'v) list"

abbreviation js_get :: "('k, 'v) jsmap \<Rightarrow> 'k \<Rightarrow> 'v option" where
  "js_get m k \<equiv> map_of m k"

abbreviation js_set :: "'k \<Rightarrow> 'v \<Rightarrow> ('k, 'v) jsmap \<Rightarrow> ('k, 'v) jsmap" where
  "js_set k v m \<equiv> AList.update k v m"

abbreviation js_delete :: "'k \<Rightarrow> ('k, 'v) jsmap \<Rightarrow> ('k, 'v) jsmap" where
  "js_delete k m \<equiv> AList.delete k m"

definition js_values :: "('k, 'v) jsmap \<Rightarrow> 'v list" where
  "js_values m = map snd m"

definition js_wf :: "('k, 'v) jsmap \<Rightarrow> bool" where
  "js_wf m \<longleftrightarrow> distinct (map fst m)"

lemma js_get_set [simp, map_laws]:
  "js_get (js_set k v m) k' = (if k' = k then Some v else js_get m k')"
  by (simp add: update_conv')

lemma js_get_delete [simp, map_laws]:
  "js_get (js_delete k m) k' = (if k' = k then None else js_get m k')"
  by (simp add: delete_conv')

lemma js_wf_empty [simp]: "js_wf []"
  by (simp add: js_wf_def)

lemma js_wf_set [simp]: "js_wf m \<Longrightarrow> js_wf (js_set k v m)"
  by (simp add: js_wf_def distinct_update)

lemma js_wf_delete [simp]: "js_wf m \<Longrightarrow> js_wf (js_delete k m)"
  by (simp add: js_wf_def distinct_delete)

lemma js_values_get: "js_wf m \<Longrightarrow> v \<in> set (js_values m) \<longleftrightarrow> (\<exists>k. js_get m k = Some v)"
  by (force simp: js_wf_def js_values_def)

text \<open>
  The contract of a \<open>Map\<close> that the stores rely on: what a lookup returns after a \<open>set\<close> or a
  \<open>delete\<close>, and that both keep the keys unique.
\<close>

locale keyed_map =
  fixes get :: "'m \<Rightarrow> 'k \<Rightarrow> 'v option"
    and put :: "'k \<Rightarrow> 'v \<Rightarrow> 'm \<Rightarrow> 'm"
    and del :: "'k \<Rightarrow> 'm \<Rightarrow> 'm"
    and ok_map :: "'m \<Rightarrow> bool"
  assumes get_put: "get (put k v m) k' = (if k' = k then Some v else get m k')"
    and get_del: "get (del k m) k' = (if k' = k then None else get m k')"
    and ok_put: "ok_map m \<Longrightarrow> ok_map (put k v m)"
    and ok_del: "ok_map m \<Longrightarrow> ok_map (del k m)"
begin

lemma get_put_same: "get (put k v m) k = Some v"
  by (simp add: get_put)

lemma get_put_other: "k' \<noteq> k \<Longrightarrow> get (put k v m) k' = get m k'"
  by (simp add: get_put)

lemma put_overrides: "get (put k v (put k w m)) = get (put k v m)"
  by (rule ext) (simp add: get_put)

lemma take_once: "get (del k m) k = None"
  by (simp add: get_del)

lemma frame_fold:
  "k \<notin> set ks \<Longrightarrow> get (fold (\<lambda>j m. put j (f j) m) ks m) k = get m k"
  by (induction ks arbitrary: m) (auto simp: get_put)

lemma ok_fold: "ok_map m \<Longrightarrow> ok_map (fold (\<lambda>j m. put j (f j) m) ks m)"
  by (induction ks arbitrary: m) (auto simp: ok_put)

end

interpretation jm: keyed_map map_of AList.update AList.delete js_wf
  by unfold_locales auto

section \<open>Strings\<close>

text \<open>ECMAScript white space and line terminators among the code units below 256.\<close>

definition js_space :: "char \<Rightarrow> bool" where
  "js_space c \<longleftrightarrow> of_char c \<in> {9, 10, 11, 12, 13, 32, 160 :: nat}"

definition js_trim_start :: "string \<Rightarrow> string" where
  "js_trim_start s = dropWhile js_space s"

definition js_trim_end :: "string \<Rightarrow> string" where
  "js_trim_end s = rev (dropWhile js_space (rev s))"

definition js_trim :: "string \<Rightarrow> string" where
  "js_trim s = js_trim_end (js_trim_start s)"

definition js_lower_char :: "char \<Rightarrow> char" where
  "js_lower_char c =
     (let n = of_char c :: nat in
      if 65 \<le> n \<and> n \<le> 90 \<or> 192 \<le> n \<and> n \<le> 222 \<and> n \<noteq> 215 then char_of (n + 32) else c)"

definition js_lower :: "string \<Rightarrow> string" where
  "js_lower s = map js_lower_char s"

text \<open>A string is falsy exactly when it is empty; an absent property is falsy.\<close>

fun truthy_str :: "string option \<Rightarrow> bool" where
  "truthy_str None = False"
| "truthy_str (Some s) = (s \<noteq> [])"

definition keep_str :: "string option \<Rightarrow> string option" where
  "keep_str x = (if truthy_str x then x else None)"

lemma truthy_keep_str [simp]: "truthy_str (keep_str x) = truthy_str x"
  by (simp add: keep_str_def)

lemma keep_str_idem [simp]: "keep_str (keep_str x) = keep_str x"
  by (simp add: keep_str_def)

lemma keep_str_None [simp]: "keep_str None = None"
  by (simp add: keep_str_def)

lemma truthy_keep_id: "truthy_str x \<Longrightarrow> keep_str x = x"
  by (simp add: keep_str_def)

definition nullish :: "'a option \<Rightarrow> 'a \<Rightarrow> 'a" where
  "nullish x d = (case x of None \<Rightarrow> d | Some v \<Rightarrow> v)"

lemma nullish_simps [simp]: "nullish None d = d" "nullish (Some v) d = v"
  by (simp_all add: nullish_def)

definition or_else :: "'a option \<Rightarrow> 'a option \<Rightarrow> 'a option" where
  "or_else x y = (case x of None \<Rightarrow> y | Some v \<Rightarrow> Some v)"

lemma or_else_simps [simp]: "or_else None y = y" "or_else (Some v) y = Some v"
  by (simp_all add: or_else_def)

text \<open>
  \<open>js_trim\<close> returns a string with no white space at either end, and is the identity on
  such a string.
\<close>

definition trimmed :: "string \<Rightarrow> bool" where
  "trimmed s \<longleftrightarrow> s = [] \<or> (\<not> js_space (hd s) \<and> \<not> js_space (last s))"

lemma dropWhile_last: "dropWhile P xs \<noteq> [] \<Longrightarrow> last (dropWhile P xs) = last xs"
  by (induction xs) (auto split: if_splits)

lemma trimmed_js_trim: "trimmed (js_trim s)"
proof (cases "js_trim s = []")
  case True
  then show ?thesis by (simp add: trimmed_def)
next
  case False
  let ?t = "dropWhile js_space s"
  let ?r = "dropWhile js_space (rev ?t)"
  have r: "?r \<noteq> []" using False by (simp add: js_trim_def js_trim_start_def js_trim_end_def)
  then have t: "?t \<noteq> []" by (cases "?t") auto
  have "\<not> js_space (hd ?t)" using t by (rule hd_dropWhile)
  moreover have "last ?r = hd ?t" using r t by (simp add: dropWhile_last last_rev)
  moreover have "\<not> js_space (hd ?r)" using r by (rule hd_dropWhile)
  ultimately show ?thesis using r
    by (simp add: trimmed_def js_trim_def js_trim_start_def js_trim_end_def hd_rev last_rev)
qed

lemma dropWhile_hd: "xs = [] \<or> \<not> P (hd xs) \<Longrightarrow> dropWhile P xs = xs"
  by (cases xs) auto

lemma js_trim_id: "trimmed s \<Longrightarrow> js_trim s = s"
  by (auto simp: trimmed_def js_trim_def js_trim_start_def js_trim_end_def dropWhile_hd hd_rev)

lemma js_trim_idem [simp]: "js_trim (js_trim s) = js_trim s"
  by (rule js_trim_id [OF trimmed_js_trim])

text \<open>A text between double quotes, as the error messages have it.\<close>

definition quoted :: "string \<Rightarrow> string" where
  "quoted s = CHR 0x22 # s @ [CHR 0x22]"

text \<open>\<open>String.prototype.split\<close> at one code unit.\<close>

fun js_split :: "'a \<Rightarrow> 'a list \<Rightarrow> 'a list list" where
  "js_split c [] = [[]]"
| "js_split c (x # xs) =
     (if x = c then [] # js_split c xs
      else (case js_split c xs of [] \<Rightarrow> [[x]] | y # ys \<Rightarrow> (x # y) # ys))"

fun js_join :: "'a list \<Rightarrow> 'a list list \<Rightarrow> 'a list" where
  "js_join sep [] = []"
| "js_join sep [x] = x"
| "js_join sep (x # y # ys) = x @ sep @ js_join sep (y # ys)"

lemma js_split_nonempty [simp]: "js_split c xs \<noteq> []"
  by (cases xs) (auto split: list.splits)

lemma js_split_no_sep: "s \<in> set (js_split c xs) \<Longrightarrow> c \<notin> set s"
  by (induction xs arbitrary: s) (auto split: if_splits list.splits)

lemma js_split_set: "s \<in> set (js_split c xs) \<Longrightarrow> set s \<subseteq> set xs"
proof (induction xs arbitrary: s)
  case (Cons x xs)
  obtain y ys where y: "js_split c xs = y # ys" by (cases "js_split c xs") auto
  have "set y \<subseteq> set xs" "\<forall>s\<in>set ys. set s \<subseteq> set xs" using Cons(1) y by auto
  then show ?case using Cons(2) y by (auto split: if_splits)
qed simp

lemma js_split_at: "js_split c (xs @ c # ys) = js_split c xs @ js_split c ys"
  by (induction xs) (auto split: list.splits)

lemma js_join_split: "js_join [c] (js_split c xs) = xs"
proof (induction xs)
  case (Cons x xs)
  obtain y ys where "js_split c xs = y # ys" by (cases "js_split c xs") auto
  with Cons show ?case by (cases ys) auto
qed simp

lemma js_split_plain: "c \<notin> set xs \<Longrightarrow> js_split c xs = [xs]"
  by (induction xs) auto

lemma js_split_append: "c \<notin> set xs \<Longrightarrow> js_split c (xs @ c # ys) = xs # js_split c ys"
  by (induction xs) auto

lemma js_split_join:
  "xss \<noteq> [] \<Longrightarrow> (\<And>s. s \<in> set xss \<Longrightarrow> c \<notin> set s) \<Longrightarrow> js_split c (js_join [c] xss) = xss"
proof (induction "[c]" xss rule: js_join.induct)
  case (3 x y ys)
  then show ?case by (simp add: js_split_append)
qed (auto simp: js_split_plain)

lemma js_join_inj:
  assumes "js_join [c] xss = js_join [c] yss" "xss \<noteq> []" "yss \<noteq> []"
    and "\<And>s. s \<in> set xss \<Longrightarrow> c \<notin> set s" "\<And>s. s \<in> set yss \<Longrightarrow> c \<notin> set s"
  shows "xss = yss"
  using assms js_split_join by metis

section \<open>Stable sort\<close>

fun js_insort :: "('a \<Rightarrow> 'a \<Rightarrow> int) \<Rightarrow> 'a \<Rightarrow> 'a list \<Rightarrow> 'a list" where
  "js_insort cmp x [] = [x]"
| "js_insort cmp x (y # ys) =
     (if cmp x y \<le> 0 then x # y # ys else y # js_insort cmp x ys)"

definition js_sort :: "('a \<Rightarrow> 'a \<Rightarrow> int) \<Rightarrow> 'a list \<Rightarrow> 'a list" where
  "js_sort cmp xs = foldr (js_insort cmp) xs []"

lemma set_js_insort [simp]: "set (js_insort cmp x ys) = insert x (set ys)"
  by (induction ys) auto

lemma length_js_insort [simp]: "length (js_insort cmp x ys) = Suc (length ys)"
  by (induction ys) auto

lemma distinct_js_insort: "distinct (js_insort cmp x ys) \<longleftrightarrow> x \<notin> set ys \<and> distinct ys"
  by (induction ys) auto

lemma js_sort_simps [simp]:
  "js_sort cmp [] = []"
  "js_sort cmp (x # xs) = js_insort cmp x (js_sort cmp xs)"
  by (simp_all add: js_sort_def)

lemma set_js_sort [simp]: "set (js_sort cmp xs) = set xs"
  by (induction xs) auto

lemma length_js_sort [simp]: "length (js_sort cmp xs) = length xs"
  by (induction xs) auto

lemma distinct_js_sort [simp]: "distinct (js_sort cmp xs) = distinct xs"
  by (induction xs) (auto simp: distinct_js_insort)

lemma distinct_map_js_insort:
  "distinct (map f (js_insort cmp x ys)) \<longleftrightarrow> f x \<notin> f ` set ys \<and> distinct (map f ys)"
  by (induction ys) auto

lemma distinct_map_js_sort [simp]: "distinct (map f (js_sort cmp xs)) = distinct (map f xs)"
  by (induction xs) (auto simp: distinct_map_js_insort)

text \<open>
  The contract of a comparator passed to \<open>sort\<close>. A client that sorts with a comparator of
  this kind gets a sorted permutation; the comparators of the code satisfy it, those that
  call \<open>localeCompare\<close> whenever the collation does.
\<close>

locale comparator =
  fixes cmp :: "'a \<Rightarrow> 'a \<Rightarrow> int"
  assumes cmp_total: "cmp x y \<le> 0 \<or> cmp y x \<le> 0"
    and cmp_trans: "cmp x y \<le> 0 \<Longrightarrow> cmp y z \<le> 0 \<Longrightarrow> cmp x z \<le> 0"
begin

lemma sorted_insort:
  "sorted_wrt (\<lambda>a b. cmp a b \<le> 0) ys \<Longrightarrow> sorted_wrt (\<lambda>a b. cmp a b \<le> 0) (js_insort cmp x ys)"
proof (induction ys)
  case (Cons y ys)
  then show ?case using cmp_total [of x y] cmp_trans by auto
qed simp

lemma sorted_sort: "sorted_wrt (\<lambda>a b. cmp a b \<le> 0) (js_sort cmp xs)"
  by (induction xs) (auto intro: sorted_insort)

end

text \<open>A sorted list without repetitions is determined by its elements when ties are equal.\<close>

lemma sorted_unique:
  assumes "\<And>a b. a \<in> set xs \<Longrightarrow> b \<in> set xs \<Longrightarrow> cmp a b \<le> (0::int) \<Longrightarrow> cmp b a \<le> 0 \<Longrightarrow> a = b"
    and "sorted_wrt (\<lambda>a b. cmp a b \<le> 0) xs" "sorted_wrt (\<lambda>a b. cmp a b \<le> 0) ys"
    and "distinct xs" "distinct ys" "set xs = set ys"
  shows "xs = ys"
  using assms
proof (induction xs arbitrary: ys)
  case (Cons x xs)
  obtain y ys' where ys: "ys = y # ys'" using Cons(7) by (cases ys) auto
  have "x = y"
  proof (rule ccontr)
    assume ne: "x \<noteq> y"
    then have "y \<in> set xs" "x \<in> set ys'" using Cons(7) ys by auto
    then show False using ne Cons(2) [of x y] Cons(3,4) ys by auto
  qed
  moreover have "set xs = set ys'"
    using Cons(5-7) ys \<open>x = y\<close> by (simp add: insert_ident)
  then have "xs = ys'"
    by (intro Cons(1)) (use Cons(2-6) ys in auto)
  ultimately show ?case using ys by simp
qed simp

text \<open>Strings by code units, the order of \<open><\<close>: a collation of the kind \<open>localeCompare\<close> is.\<close>

fun codeUnitCompare :: "string \<Rightarrow> string \<Rightarrow> int" where
  "codeUnitCompare [] [] = 0"
| "codeUnitCompare [] (y # ys) = -1"
| "codeUnitCompare (x # xs) [] = 1"
| "codeUnitCompare (x # xs) (y # ys) =
     (if (of_char x :: nat) < of_char y then -1
      else if (of_char y :: nat) < of_char x then 1
      else codeUnitCompare xs ys)"

lemma codeUnit_total: "codeUnitCompare xs ys \<le> 0 \<or> codeUnitCompare ys xs \<le> 0"
  by (induction xs ys rule: codeUnitCompare.induct) auto

lemma codeUnit_trans:
  "codeUnitCompare xs ys \<le> 0 \<Longrightarrow> codeUnitCompare ys zs \<le> 0 \<Longrightarrow> codeUnitCompare xs zs \<le> 0"
proof (induction xs ys arbitrary: zs rule: codeUnitCompare.induct)
  case (2 y ys)
  then show ?case by (cases zs) simp_all
next
  case (4 x xs y ys)
  show ?case
  proof (cases zs)
    case Nil
    then show ?thesis using 4(3) by simp
  next
    case (Cons z zs')
    consider "(of_char x :: nat) < of_char y" | "(of_char x :: nat) = of_char y"
      using 4(2) by (cases "(of_char x :: nat)" "(of_char y :: nat)" rule: linorder_cases) simp_all
    then show ?thesis
    proof cases
      case 1
      then show ?thesis using 4(3) Cons by (auto split: if_splits)
    next
      case 2
      then show ?thesis using 4 Cons by (auto split: if_splits)
    qed
  qed
qed simp_all

text \<open>A collation: a total order on strings, ties only between equal strings.\<close>

definition collation :: "(string \<Rightarrow> string \<Rightarrow> int) \<Rightarrow> bool" where
  "collation lc \<longleftrightarrow>
     (\<forall>x y. lc x y \<le> 0 \<or> lc y x \<le> 0) \<and>
     (\<forall>x y z. lc x y \<le> 0 \<longrightarrow> lc y z \<le> 0 \<longrightarrow> lc x z \<le> 0) \<and>
     (\<forall>x y. lc x y \<le> 0 \<longrightarrow> lc y x \<le> 0 \<longrightarrow> x = y)"

lemma codeUnit_antisym: "codeUnitCompare xs ys \<le> 0 \<Longrightarrow> codeUnitCompare ys xs \<le> 0 \<Longrightarrow> xs = ys"
  by (induction xs ys rule: codeUnitCompare.induct) (auto split: if_splits)

lemma codeUnit_collation: "collation codeUnitCompare"
  unfolding collation_def using codeUnit_total codeUnit_trans codeUnit_antisym by blast

interpretation code_units: comparator codeUnitCompare
  by unfold_locales (rule codeUnit_total, rule codeUnit_trans)

end
