(* ===== verification/Json_Text.thy ===== *)
theory Json_Text
  imports Base_Prelude
begin

text \<open>
  JSON values, \<open>JSON.stringify(value, null, 2)\<close> and \<open>JSON.parse\<close>, as the publication workflows
  use them for the manifest they store, and the UTF-8 bytes of a string. Numbers are integers:
  the manifests hold no other. An object is the list of its properties in their order; names
  that look like array indices, which JavaScript moves to the front, do not occur in them.
  The parser takes fuel, one unit for each value or list cell it enters; the length of the text
  is always enough for a printed value (\<open>json_roundtrip\<close>).
\<close>

section \<open>Values\<close>

datatype json =
  JNull | JBool bool | JNum int | JStr string | JArr "json list" | JObj "(string \<times> json) list"

type_synonym json_record = "(string \<times> json) list"

section \<open>Printing\<close>

definition digit_char :: "nat \<Rightarrow> char" where
  "digit_char n = char_of (48 + n)"

fun nat_digits :: "nat \<Rightarrow> string" where
  "nat_digits n = (if n < 10 then [digit_char n] else nat_digits (n div 10) @ [digit_char (n mod 10)])"

declare nat_digits.simps [simp del]

definition int_text :: "int \<Rightarrow> string" where
  "int_text i = (if i < 0 then CHR ''-'' # nat_digits (nat (- i)) else nat_digits (nat i))"

definition hex_char :: "nat \<Rightarrow> char" where
  "hex_char n = char_of (if n < 10 then 48 + n else 87 + n)"

definition escape_char :: "char \<Rightarrow> string" where
  "escape_char c =
     (let n = of_char c :: nat in
      if n = 34 then [CHR 0x5C, CHR 0x22]
      else if n = 92 then [CHR 0x5C, CHR 0x5C]
      else if n = 8 then [CHR 0x5C, CHR ''b'']
      else if n = 12 then [CHR 0x5C, CHR ''f'']
      else if n = 10 then [CHR 0x5C, CHR ''n'']
      else if n = 13 then [CHR 0x5C, CHR ''r'']
      else if n = 9 then [CHR 0x5C, CHR ''t'']
      else if n < 32 then
        [CHR 0x5C, CHR ''u'', CHR ''0'', CHR ''0'', hex_char (n div 16), hex_char (n mod 16)]
      else [c])"

definition string_text :: "string \<Rightarrow> string" where
  "string_text s = CHR 0x22 # concat (map escape_char s) @ [CHR 0x22]"

definition indent :: "nat \<Rightarrow> string" where
  "indent d = CHR 0x0A # replicate (2 * d) (CHR '' '')"

fun stringify :: "nat \<Rightarrow> json \<Rightarrow> string"
  and stringify_rest :: "nat \<Rightarrow> json list \<Rightarrow> string"
  and stringify_more :: "nat \<Rightarrow> (string \<times> json) list \<Rightarrow> string" where
  "stringify d JNull = ''null''"
| "stringify d (JBool b) = (if b then ''true'' else ''false'')"
| "stringify d (JNum i) = int_text i"
| "stringify d (JStr s) = string_text s"
| "stringify d (JArr []) = ''[]''"
| "stringify d (JArr (v # vs)) =
     ''['' @ indent (Suc d) @ stringify (Suc d) v @ stringify_rest d vs"
| "stringify d (JObj []) = ''{}''"
| "stringify d (JObj ((k, v) # kvs)) =
     ''{'' @ indent (Suc d) @ string_text k @ '': '' @ stringify (Suc d) v @ stringify_more d kvs"
| "stringify_rest d [] = indent d @ '']''"
| "stringify_rest d (v # vs) =
     '','' @ indent (Suc d) @ stringify (Suc d) v @ stringify_rest d vs"
| "stringify_more d [] = indent d @ ''}''"
| "stringify_more d ((k, v) # kvs) =
     '','' @ indent (Suc d) @ string_text k @ '': '' @ stringify (Suc d) v @ stringify_more d kvs"

definition json_stringify :: "json \<Rightarrow> string" where
  "json_stringify v = stringify 0 v"

section \<open>Parsing\<close>

definition json_space :: "char \<Rightarrow> bool" where
  "json_space c \<longleftrightarrow> of_char c \<in> {9, 10, 13, 32 :: nat}"

definition skip_space :: "string \<Rightarrow> string" where
  "skip_space s = dropWhile json_space s"

definition digit_value :: "char \<Rightarrow> nat option" where
  "digit_value c =
     (let n = of_char c :: nat in if 48 \<le> n \<and> n \<le> 57 then Some (n - 48) else None)"

definition hex_value :: "char \<Rightarrow> nat option" where
  "hex_value c =
     (let n = of_char c :: nat in
      if 48 \<le> n \<and> n \<le> 57 then Some (n - 48)
      else if 97 \<le> n \<and> n \<le> 102 then Some (n - 87)
      else if 65 \<le> n \<and> n \<le> 70 then Some (n - 55)
      else None)"

fun parse_digits :: "nat \<Rightarrow> string \<Rightarrow> nat \<times> string" where
  "parse_digits acc [] = (acc, [])"
| "parse_digits acc (c # s) =
     (case digit_value c of None \<Rightarrow> (acc, c # s) | Some k \<Rightarrow> parse_digits (10 * acc + k) s)"

text \<open>No leading zeros; a fraction or an exponent is not read.\<close>

fun parse_nat :: "string \<Rightarrow> (nat \<times> string) option" where
  "parse_nat [] = None"
| "parse_nat (c # s) =
     (case digit_value c of
        None \<Rightarrow> None
      | Some k \<Rightarrow> if k = 0 then Some (0, s) else Some (parse_digits k s))"

definition parse_int :: "string \<Rightarrow> (int \<times> string) option" where
  "parse_int s =
     (case s of
        c # r \<Rightarrow>
          if c = CHR ''-'' then map_option (\<lambda>(n, r'). (- int n, r')) (parse_nat r)
          else map_option (\<lambda>(n, r'). (int n, r')) (parse_nat s)
      | [] \<Rightarrow> None)"

definition unescape :: "char \<Rightarrow> char option" where
  "unescape c =
     (if c = CHR 0x22 \<or> c = CHR 0x5C \<or> c = CHR ''/'' then Some c
      else if c = CHR ''b'' then Some (CHR 0x08)
      else if c = CHR ''f'' then Some (CHR 0x0C)
      else if c = CHR ''n'' then Some (CHR 0x0A)
      else if c = CHR ''r'' then Some (CHR 0x0D)
      else if c = CHR ''t'' then Some (CHR 0x09)
      else None)"

text \<open>The characters after the opening quote.\<close>

fun parse_chars :: "string \<Rightarrow> (string \<times> string) option" where
  "parse_chars [] = None"
| "parse_chars (c # s) =
     (if c = CHR 0x22 then Some ([], s)
      else if c = CHR 0x5C then
        (case s of
           [] \<Rightarrow> None
         | e # r \<Rightarrow>
             if e = CHR ''u'' then
               (case r of
                  a # b # x # y # r' \<Rightarrow>
                    (case (hex_value a, hex_value b, hex_value x, hex_value y) of
                       (Some 0, Some 0, Some i, Some j) \<Rightarrow>
                         map_option (\<lambda>(t, q). (char_of (16 * i + j) # t, q)) (parse_chars r')
                     | _ \<Rightarrow> None)
                | _ \<Rightarrow> None)
             else
               (case unescape e of
                  None \<Rightarrow> None
                | Some u \<Rightarrow> map_option (\<lambda>(t, q). (u # t, q)) (parse_chars r)))
      else if of_char c < (32 :: nat) then None
      else map_option (\<lambda>(t, q). (c # t, q)) (parse_chars s))"

fun parse_value :: "nat \<Rightarrow> string \<Rightarrow> (json \<times> string) option"
  and parse_elements :: "nat \<Rightarrow> string \<Rightarrow> (json list \<times> string) option"
  and parse_members :: "nat \<Rightarrow> string \<Rightarrow> ((string \<times> json) list \<times> string) option" where
  "parse_value 0 s = None"
| "parse_value (Suc f) s =
     (let t = skip_space s in
      if take 4 t = ''null'' then Some (JNull, drop 4 t)
      else if take 4 t = ''true'' then Some (JBool True, drop 4 t)
      else if take 5 t = ''false'' then Some (JBool False, drop 5 t)
      else
        (case t of
           [] \<Rightarrow> None
         | c # r \<Rightarrow>
             if c = CHR 0x22 then map_option (\<lambda>(x, q). (JStr x, q)) (parse_chars r)
             else if c = CHR ''['' then
               (case skip_space r of
                  [] \<Rightarrow> None
                | c' # r' \<Rightarrow>
                    if c' = CHR '']'' then Some (JArr [], r')
                    else map_option (\<lambda>(vs, q). (JArr vs, q)) (parse_elements f r))
             else if c = CHR ''{'' then
               (case skip_space r of
                  [] \<Rightarrow> None
                | c' # r' \<Rightarrow>
                    if c' = CHR ''}'' then Some (JObj [], r')
                    else
                      map_option (\<lambda>(kvs, q). (JObj (fold (\<lambda>(k, v). js_set k v) kvs []), q))
                        (parse_members f r))
             else map_option (\<lambda>(i, q). (JNum i, q)) (parse_int t)))"
| "parse_elements 0 s = None"
| "parse_elements (Suc f) s =
     (case parse_value f s of
        None \<Rightarrow> None
      | Some (v, r) \<Rightarrow>
          (case skip_space r of
             [] \<Rightarrow> None
           | c # r' \<Rightarrow>
               if c = CHR '']'' then Some ([v], r')
               else if c = CHR '','' then
                 map_option (\<lambda>(vs, q). (v # vs, q)) (parse_elements f r')
               else None))"
| "parse_members 0 s = None"
| "parse_members (Suc f) s =
     (case skip_space s of
        [] \<Rightarrow> None
      | c # r \<Rightarrow>
          if c \<noteq> CHR 0x22 then None
          else
            (case parse_chars r of
               None \<Rightarrow> None
             | Some (k, r1) \<Rightarrow>
                 (case skip_space r1 of
                    [] \<Rightarrow> None
                  | c1 # r2 \<Rightarrow>
                      if c1 \<noteq> CHR '':'' then None
                      else
                        (case parse_value f r2 of
                           None \<Rightarrow> None
                         | Some (v, r3) \<Rightarrow>
                             (case skip_space r3 of
                                [] \<Rightarrow> None
                              | c3 # r4 \<Rightarrow>
                                  if c3 = CHR ''}'' then Some ([(k, v)], r4)
                                  else if c3 = CHR '','' then
                                    map_option (\<lambda>(kvs, q). ((k, v) # kvs, q)) (parse_members f r4)
                                  else None)))))"

definition json_parse :: "string \<Rightarrow> json option" where
  "json_parse s =
     (case parse_value (Suc (length s)) s of
        None \<Rightarrow> None
      | Some (v, r) \<Rightarrow> if skip_space r = [] then Some v else None)"

section \<open>UTF-8\<close>

definition utf8_char :: "char \<Rightarrow> nat list" where
  "utf8_char c =
     (let n = of_char c :: nat in if n < 128 then [n] else [192 + n div 64, 128 + n mod 64])"

definition utf8 :: "string \<Rightarrow> nat list" where
  "utf8 s = concat (map utf8_char s)"

section \<open>Parsing what was printed\<close>

fun json_ok :: "json \<Rightarrow> bool" where
  "json_ok (JArr vs) = (\<forall>v\<in>set vs. json_ok v)"
| "json_ok (JObj kvs) = (distinct (map fst kvs) \<and> (\<forall>(k, v)\<in>set kvs. json_ok v))"
| "json_ok _ = True"

definition ends_number :: "string \<Rightarrow> bool" where
  "ends_number r \<longleftrightarrow> (case r of [] \<Rightarrow> True | c # _ \<Rightarrow> digit_value c = None)"

lemma digit_value_char [simp]: "n < 10 \<Longrightarrow> digit_value (digit_char n) = Some n"
  by (simp add: digit_value_def digit_char_def)

lemma parse_digits_end: "ends_number r \<Longrightarrow> parse_digits acc r = (acc, r)"
  by (cases r) (auto simp: ends_number_def)

lemma parse_digits_append:
  "ends_number r \<Longrightarrow>
    parse_digits acc (nat_digits n @ r) = (acc * 10 ^ length (nat_digits n) + n, r)"
proof (induction n arbitrary: acc r rule: nat_digits.induct)
  case (1 n)
  have gen: "parse_digits acc (nat_digits m @ digit_char k # r) =
      (10 * (acc * 10 ^ length (nat_digits m) + m) + k, r)"
    if "m = n div 10" "\<not> n < 10" "k < 10" "ends_number r" for m k acc r
  proof -
    have "\<And>ds. parse_digits acc (ds @ digit_char k # r) =
        (case parse_digits acc ds of (a, []) \<Rightarrow> parse_digits a (digit_char k # r)
         | (a, q) \<Rightarrow> (a, q @ digit_char k # r))" for acc
    proof -
      fix ds acc show "parse_digits acc (ds @ digit_char k # r) =
        (case parse_digits acc ds of (a, []) \<Rightarrow> parse_digits a (digit_char k # r)
         | (a, q) \<Rightarrow> (a, q @ digit_char k # r))"
        by (induction acc ds rule: parse_digits.induct)
          (auto split: option.splits list.splits prod.splits)
    qed
    moreover have "parse_digits acc (nat_digits m) = (acc * 10 ^ length (nat_digits m) + m, [])"
      using 1(1) [of "[]" acc] that by (simp add: ends_number_def)
    ultimately show ?thesis using that by (simp add: parse_digits_end)
  qed
  show ?case
  proof (cases "n < 10")
    case True
    then show ?thesis using 1(2) by (subst (1 2) nat_digits.simps) (simp add: parse_digits_end)
  next
    case False
    then show ?thesis using 1(2) gen [of "n div 10" "n mod 10" r acc]
      by (subst (1 2) nat_digits.simps) (simp add: algebra_simps)
  qed
qed

lemma nat_digits_head: "\<exists>k ds. nat_digits n = digit_char k # ds \<and> k < 10 \<and> (k = 0 \<longrightarrow> n = 0 \<and> ds = [])"
proof (induction n rule: nat_digits.induct)
  case (1 n)
  show ?case
  proof (cases "n < 10")
    case True
    then show ?thesis by (subst nat_digits.simps) auto
  next
    case False
    then obtain k ds where "nat_digits (n div 10) = digit_char k # ds" "k < 10"
      "k = 0 \<longrightarrow> n div 10 = 0 \<and> ds = []" using 1 by auto
    moreover have "n div 10 \<noteq> 0" using False by simp
    ultimately show ?thesis using False by (subst nat_digits.simps) auto
  qed
qed

lemma parse_nat_digits: "ends_number r \<Longrightarrow> parse_nat (nat_digits n @ r) = Some (n, r)"
proof -
  assume r: "ends_number r"
  obtain k ds where d: "nat_digits n = digit_char k # ds" "k < 10" "k = 0 \<longrightarrow> n = 0 \<and> ds = []"
    using nat_digits_head by blast
  show ?thesis
  proof (cases "k = 0")
    case True
    then show ?thesis using d by simp
  next
    case False
    have "parse_digits 0 (nat_digits n @ r) = (n, r)" using parse_digits_append [OF r] by simp
    then show ?thesis using d False by simp
  qed
qed

lemma digit_not_minus: "k < 10 \<Longrightarrow> digit_char k \<noteq> CHR ''-''"
  using digit_value_char [of k] by (auto simp: digit_value_def)

lemma parse_int_text: "ends_number r \<Longrightarrow> parse_int (int_text i @ r) = Some (i, r)"
proof -
  assume r: "ends_number r"
  show ?thesis
  proof (cases "i < 0")
    case True
    then show ?thesis using parse_nat_digits [OF r] by (simp add: int_text_def parse_int_def)
  next
    case False
    obtain k ds where "nat_digits (nat i) = digit_char k # ds" "k < 10"
      using nat_digits_head by blast
    then show ?thesis using False parse_nat_digits [OF r, of "nat i"] digit_not_minus [of k]
      by (simp add: int_text_def parse_int_def)
  qed
qed

lemma hex_value_char: "n < 16 \<Longrightarrow> hex_value (hex_char n) = Some n"
  by (auto simp: hex_value_def hex_char_def)

lemma char_code: "c = d \<longleftrightarrow> (of_char c :: nat) = of_char d"
  by (metis char_of_char)

lemma parse_escaped:
  "parse_chars (escape_char c @ t) = map_option (\<lambda>(x, q). (c # x, q)) (parse_chars t)"
proof -
  define n where "n = (of_char c :: nat)"
  have c: "c = char_of n" by (simp add: n_def)
  have q: "c = CHR 0x22 \<longleftrightarrow> n = 34" "c = CHR 0x5C \<longleftrightarrow> n = 92"
    by (simp_all add: char_code n_def)
  show ?thesis
  proof (cases "n = 34 \<or> n = 92 \<or> n = 8 \<or> n = 12 \<or> n = 10 \<or> n = 13 \<or> n = 9")
    case True
    have lits: "char_of (34 :: nat) = CHR 0x22" "char_of (92 :: nat) = CHR 0x5C"
      "char_of (8 :: nat) = CHR 0x08" "char_of (12 :: nat) = CHR 0x0C"
      "char_of (10 :: nat) = CHR 0x0A" "char_of (13 :: nat) = CHR 0x0D"
      "char_of (9 :: nat) = CHR 0x09" by (simp_all add: char_code)
    show ?thesis
      using True by (elim disjE) (simp_all add: c lits escape_char_def unescape_def)
  next
    case False
    note special = this
    show ?thesis
    proof (cases "n < 32")
      case True
      have h: "hex_value (hex_char (n div 16)) = Some (n div 16)"
        "hex_value (hex_char (n mod 16)) = Some (n mod 16)"
        using True by (simp_all add: hex_value_char)
      have e: "escape_char c = [CHR 0x5C, CHR ''u'', CHR ''0'', CHR ''0'', hex_char (n div 16),
          hex_char (n mod 16)]"
        using special True by (simp add: escape_char_def n_def Let_def)
      have z: "hex_value (CHR ''0'') = Some 0" by (simp add: hex_value_def)
      show ?thesis unfolding e by (simp add: h z c)
    next
      case False
      have e: "escape_char c = [c]" using special False by (simp add: escape_char_def n_def)
      show ?thesis unfolding e using q special False by (simp add: n_def)
    qed
  qed
qed

lemma parse_escaped_string:
  "parse_chars (concat (map escape_char s) @ CHR 0x22 # r) = Some (s, r)"
  by (induction s) (simp_all add: parse_escaped)

lemma skip_space_indent [simp]: "skip_space (indent d @ t) = skip_space t"
proof -
  have "dropWhile json_space (replicate n (CHR '' '') @ t) = dropWhile json_space t" for n
    by (induction n) (simp_all add: json_space_def)
  then show ?thesis by (simp add: indent_def skip_space_def json_space_def)
qed

lemma parse_value_skip: "parse_value (Suc f) s = parse_value (Suc f) (skip_space s)"
proof -
  have "skip_space (skip_space s) = skip_space s" by (simp add: skip_space_def dropWhile_idem)
  then show ?thesis by (simp add: Let_def)
qed

lemma parse_value_indent: "parse_value (Suc f) (indent d @ t) = parse_value (Suc f) t"
  using parse_value_skip [of f "indent d @ t"] parse_value_skip [of f t] by simp

text \<open>A printed value starts with a character that is neither white space nor a closing bracket.\<close>

definition opens_value :: "char \<Rightarrow> bool" where
  "opens_value c \<longleftrightarrow> \<not> json_space c \<and> c \<noteq> CHR '']'' \<and> c \<noteq> CHR ''}''"

lemma digit_char_opens: "k < 10 \<Longrightarrow> opens_value (digit_char k)"
  by (auto simp: opens_value_def json_space_def digit_char_def char_code)

lemma int_text_head:
  "\<exists>c r. int_text i = c # r \<and> opens_value c \<and>
     c \<notin> {CHR ''n'', CHR ''t'', CHR ''f'', CHR 0x22, CHR ''['', CHR ''{''}"
proof (cases "i < 0")
  case True
  then show ?thesis by (simp add: int_text_def opens_value_def json_space_def)
next
  case False
  obtain k ds where "nat_digits (nat i) = digit_char k # ds" and k: "k < 10"
    using nat_digits_head by blast
  moreover have "digit_char k \<notin> {CHR ''n'', CHR ''t'', CHR ''f'', CHR 0x22, CHR ''['', CHR ''{''}"
    using k by (auto simp: digit_char_def char_code)
  ultimately show ?thesis using False digit_char_opens [OF k] by (simp add: int_text_def)
qed

lemma stringify_head: "\<exists>c r. stringify d v = c # r \<and> opens_value c"
proof -
  have *: "opens_value (CHR ''n'')" "opens_value (CHR ''t'')" "opens_value (CHR ''f'')"
    "opens_value (CHR 0x22)" "opens_value (CHR ''['')" "opens_value (CHR ''{'')"
    by (simp_all add: opens_value_def json_space_def)
  show ?thesis
  proof (cases v)
    case (JNum i)
    then show ?thesis using int_text_head [of i] by auto
  next
    case (JArr vs)
    then show ?thesis using * by (cases vs) auto
  next
    case (JObj kvs)
    then show ?thesis using * by (cases kvs) auto
  qed (use * in \<open>auto simp: string_text_def\<close>)
qed

lemma skip_space_value: "skip_space (stringify d v @ r) = stringify d v @ r"
  using stringify_head [of d v] by (auto simp: skip_space_def opens_value_def)

lemma ends_number_rest:
  "ends_number (stringify_rest d vs @ r)" "ends_number (stringify_more d kvs @ r)"
  by (cases vs; simp add: ends_number_def indent_def digit_value_def)
    (cases kvs; auto simp: ends_number_def indent_def digit_value_def)

lemma fold_set_distinct:
  "distinct (map fst (acc @ kvs)) \<Longrightarrow> fold (\<lambda>(k, v). js_set k v) kvs acc = acc @ kvs"
proof (induction kvs arbitrary: acc)
  case (Cons kv kvs)
  obtain k v where kv: "kv = (k, v)" by (cases kv)
  have "k \<notin> fst ` set acc" using Cons(2) kv by force
  then have "js_set k v acc = acc @ [(k, v)]" by (induction acc) auto
  then show ?case using Cons kv by simp
qed simp

lemma parse_bracket:
  assumes "opens_value c"
  shows "parse_value (Suc f) (CHR ''['' # indent d @ c # r) =
      map_option (\<lambda>(vs, q). (JArr vs, q)) (parse_elements f (indent d @ c # r))"
  using assms
  by (simp add: skip_space_def [of "CHR ''['' # _"] skip_space_def [of "c # r"] json_space_def
      opens_value_def)

lemma parse_brace:
  "parse_value (Suc f) (CHR ''{'' # indent d @ CHR 0x22 # r) =
      map_option (\<lambda>(kvs, q). (JObj (fold (\<lambda>(k, v). js_set k v) kvs []), q))
        (parse_members f (indent d @ CHR 0x22 # r))"
  by (simp add: skip_space_def [of "CHR ''{'' # _"] skip_space_def [of "CHR 0x22 # r"]
      json_space_def)

lemma parse_elements_last:
  "parse_value f s = Some (v, indent d @ CHR '']'' # r) \<Longrightarrow>
    parse_elements (Suc f) s = Some ([v], r)"
  by (simp add: skip_space_def [of "CHR '']'' # r"] json_space_def)

lemma parse_elements_more:
  "parse_value f s = Some (v, CHR '','' # r) \<Longrightarrow>
    parse_elements (Suc f) s = map_option (\<lambda>(vs, q). (v # vs, q)) (parse_elements f r)"
  by (simp add: skip_space_def json_space_def)

lemma parse_members_step:
  assumes "parse_value f t = Some (v, r3)"
  shows "parse_members (Suc f) (indent d @ string_text k @ CHR '':'' # t) =
    (case skip_space r3 of
       [] \<Rightarrow> None
     | c3 # r4 \<Rightarrow>
         if c3 = CHR ''}'' then Some ([(k, v)], r4)
         else if c3 = CHR '','' then map_option (\<lambda>(kvs, q). ((k, v) # kvs, q)) (parse_members f r4)
         else None)"
proof -
  have "skip_space (string_text k @ CHR '':'' # t) =
      CHR 0x22 # concat (map escape_char k) @ CHR 0x22 # CHR '':'' # t"
    by (simp add: string_text_def skip_space_def json_space_def)
  moreover have "skip_space (CHR '':'' # t) = CHR '':'' # t"
    by (simp add: skip_space_def json_space_def)
  ultimately show ?thesis using assms by (simp add: parse_escaped_string)
qed

lemma length_indent [simp]: "length (indent d) = Suc (2 * d)"
  by (simp add: indent_def)

lemma parse_value_blank: "parse_value g (CHR '' '' # t) = parse_value g (indent 0 @ t)"
proof (cases g)
  case (Suc f)
  have "skip_space (CHR '' '' # t) = skip_space t" by (simp add: skip_space_def json_space_def)
  then show ?thesis
    unfolding Suc parse_value_indent
    using parse_value_skip [of f "CHR '' '' # t"] parse_value_skip [of f t] by argo
qed simp

lemma parse_value_number:
  assumes "opens_value c" "c \<notin> {CHR ''n'', CHR ''t'', CHR ''f'', CHR 0x22, CHR ''['', CHR ''{''}"
  shows "parse_value (Suc f) (c # q) = map_option (\<lambda>(i, q). (JNum i, q)) (parse_int (c # q))"
proof -
  have "skip_space (c # q) = c # q" using assms(1) by (simp add: skip_space_def opens_value_def)
  then show ?thesis using assms(2) by (simp add: Let_def)
qed

definition reads_value :: "nat \<Rightarrow> json \<Rightarrow> bool" where
  "reads_value d v \<longleftrightarrow> (\<forall>f r. json_ok v \<longrightarrow> ends_number r \<longrightarrow> length (stringify d v) \<le> f \<longrightarrow>
     parse_value (Suc f) (stringify d v @ r) = Some (v, r))"

definition reads_rest :: "nat \<Rightarrow> json list \<Rightarrow> bool" where
  "reads_rest d vs \<longleftrightarrow> (\<forall>f s v r. (\<forall>w\<in>set vs. json_ok w) \<longrightarrow> length (stringify_rest d vs) \<le> f \<longrightarrow>
     parse_value f s = Some (v, stringify_rest d vs @ r) \<longrightarrow>
     parse_elements (Suc f) s = Some (v # vs, r))"

definition reads_more :: "nat \<Rightarrow> (string \<times> json) list \<Rightarrow> bool" where
  "reads_more d kvs \<longleftrightarrow> (\<forall>f t e k v r. (\<forall>(k, w)\<in>set kvs. json_ok w) \<longrightarrow>
     length (stringify_more d kvs) \<le> f \<longrightarrow>
     parse_value f t = Some (v, stringify_more d kvs @ r) \<longrightarrow>
     parse_members (Suc f) (indent e @ string_text k @ CHR '':'' # t) = Some ((k, v) # kvs, r))"

lemma reads_valueD:
  "reads_value d v \<Longrightarrow> json_ok v \<Longrightarrow> ends_number r \<Longrightarrow> length (stringify d v) < f \<Longrightarrow>
    parse_value f (indent e @ stringify d v @ r) = Some (v, r)"
  using parse_value_indent by (cases f) (auto simp: reads_value_def simp del: parse_value.simps)

lemma reads_restD:
  "reads_rest d vs \<Longrightarrow> \<forall>w\<in>set vs. json_ok w \<Longrightarrow> length (stringify_rest d vs) < f \<Longrightarrow>
    parse_value (f - 1) s = Some (v, stringify_rest d vs @ r) \<Longrightarrow>
    parse_elements f s = Some (v # vs, r)"
  by (cases f) (auto simp: reads_rest_def simp del: parse_value.simps parse_elements.simps)

lemma reads_moreD:
  "reads_more d kvs \<Longrightarrow> \<forall>(k, w)\<in>set kvs. json_ok w \<Longrightarrow> length (stringify_more d kvs) < f \<Longrightarrow>
    parse_value (f - 1) t = Some (v, stringify_more d kvs @ r) \<Longrightarrow>
    parse_members f (indent e @ string_text k @ CHR '':'' # t) = Some ((k, v) # kvs, r)"
  by (cases f) (auto simp: reads_more_def simp del: parse_value.simps parse_members.simps)

lemma reads_array:
  assumes v: "reads_value (Suc d) v" and vs: "reads_rest d vs"
  shows "reads_value d (JArr (v # vs))"
  unfolding reads_value_def
proof (intro allI impI)
  fix f r assume ok: "json_ok (JArr (v # vs))" and f: "length (stringify d (JArr (v # vs))) \<le> f"
  let ?t = "indent (Suc d) @ stringify (Suc d) v @ stringify_rest d vs @ r"
  obtain c q where c: "stringify (Suc d) v = c # q" "opens_value c" using stringify_head by blast
  have val: "parse_value (f - 1) ?t = Some (v, stringify_rest d vs @ r)"
    using reads_valueD [OF v, of "stringify_rest d vs @ r" "f - 1"] ok f ends_number_rest by simp
  have elems: "parse_elements f ?t = Some (v # vs, r)"
    using reads_restD [OF vs _ _ val] ok f by simp
  have "stringify d (JArr (v # vs)) @ r =
      CHR ''['' # indent (Suc d) @ c # q @ stringify_rest d vs @ r" using c by simp
  moreover have "?t = indent (Suc d) @ c # q @ stringify_rest d vs @ r" using c by simp
  ultimately show "parse_value (Suc f) (stringify d (JArr (v # vs)) @ r) = Some (JArr (v # vs), r)"
    using elems parse_bracket [OF c(2)] by (simp del: parse_value.simps)
qed

lemma reads_object:
  assumes v: "reads_value (Suc d) v" and kvs: "reads_more d kvs"
  shows "reads_value d (JObj ((k, v) # kvs))"
  unfolding reads_value_def
proof (intro allI impI)
  fix f r
  assume ok: "json_ok (JObj ((k, v) # kvs))"
    and f: "length (stringify d (JObj ((k, v) # kvs))) \<le> f"
  let ?v = "CHR '' '' # stringify (Suc d) v @ stringify_more d kvs @ r"
  let ?t = "indent (Suc d) @ string_text k @ CHR '':'' # ?v"
  have val: "parse_value (f - 1) ?v = Some (v, stringify_more d kvs @ r)"
    unfolding parse_value_blank
    using reads_valueD [OF v, of "stringify_more d kvs @ r" "f - 1" 0] ok f ends_number_rest
    by simp
  have mem: "parse_members f ?t = Some ((k, v) # kvs, r)"
    using reads_moreD [OF kvs _ _ val] ok f by simp
  have "stringify d (JObj ((k, v) # kvs)) @ r = CHR ''{'' # ?t" by simp
  moreover have "string_text k = CHR 0x22 # concat (map escape_char k) @ [CHR 0x22]"
    by (simp add: string_text_def)
  moreover have "fold (\<lambda>(k, v). js_set k v) ((k, v) # kvs) [] = (k, v) # kvs"
    using fold_set_distinct [of "[]" "(k, v) # kvs"] ok by simp
  ultimately show "parse_value (Suc f) (stringify d (JObj ((k, v) # kvs)) @ r) =
      Some (JObj ((k, v) # kvs), r)"
    using mem parse_brace [of f "Suc d" "concat (map escape_char k) @ CHR 0x22 # CHR '':'' # ?v"]
    by (simp del: parse_value.simps fold.simps)
qed

lemma reads_rest_cons:
  assumes v: "reads_value (Suc d) v" and vs: "reads_rest d vs"
  shows "reads_rest d (v # vs)"
  unfolding reads_rest_def
proof (intro allI impI)
  fix f s u r
  assume ok: "\<forall>w\<in>set (v # vs). json_ok w" and f: "length (stringify_rest d (v # vs)) \<le> f"
    and u: "parse_value f s = Some (u, stringify_rest d (v # vs) @ r)"
  let ?t = "indent (Suc d) @ stringify (Suc d) v @ stringify_rest d vs @ r"
  have val: "parse_value (f - 1) ?t = Some (v, stringify_rest d vs @ r)"
    using reads_valueD [OF v, of "stringify_rest d vs @ r" "f - 1"] ok f ends_number_rest by simp
  have "parse_elements f ?t = Some (v # vs, r)" using reads_restD [OF vs _ _ val] ok f by simp
  then show "parse_elements (Suc f) s = Some (u # v # vs, r)"
    using parse_elements_more [of f s u ?t] u by (simp del: parse_value.simps parse_elements.simps)
qed

lemma reads_more_cons:
  assumes v: "reads_value (Suc d) v" and kvs: "reads_more d kvs"
  shows "reads_more d ((k, v) # kvs)"
  unfolding reads_more_def
proof (intro allI impI)
  fix f t e k0 v0 r
  assume ok: "\<forall>(k, w)\<in>set ((k, v) # kvs). json_ok w"
    and f: "length (stringify_more d ((k, v) # kvs)) \<le> f"
    and u: "parse_value f t = Some (v0, stringify_more d ((k, v) # kvs) @ r)"
  let ?v = "CHR '' '' # stringify (Suc d) v @ stringify_more d kvs @ r"
  let ?t = "indent (Suc d) @ string_text k @ CHR '':'' # ?v"
  have val: "parse_value (f - 1) ?v = Some (v, stringify_more d kvs @ r)"
    unfolding parse_value_blank
    using reads_valueD [OF v, of "stringify_more d kvs @ r" "f - 1" 0] ok f ends_number_rest
    by simp
  have "parse_members f ?t = Some ((k, v) # kvs, r)"
    using reads_moreD [OF kvs _ _ val] ok f by simp
  then show "parse_members (Suc f) (indent e @ string_text k0 @ CHR '':'' # t) =
      Some ((k0, v0) # (k, v) # kvs, r)"
    using parse_members_step [OF u, of e k0]
    by (simp add: skip_space_def [of "CHR '','' # _"] json_space_def
        del: parse_value.simps parse_members.simps)
qed

lemma parse_printed: "reads_value d v" "reads_rest d vs" "reads_more d kvs"
proof (induction d v and d vs and d kvs rule: stringify_stringify_rest_stringify_more.induct)
  case (3 d i)
  show ?case
    unfolding reads_value_def
  proof (intro allI impI)
    fix f r assume r: "ends_number r"
    from int_text_head [of i] obtain c q where c: "int_text i = c # q" "opens_value c"
      "c \<notin> {CHR ''n'', CHR ''t'', CHR ''f'', CHR 0x22, CHR ''['', CHR ''{''}"
      by (elim exE conjE) (rule that)
    then show "parse_value (Suc f) (stringify d (JNum i) @ r) = Some (JNum i, r)"
      using parse_value_number [OF c(2,3), of f "q @ r"] parse_int_text [OF r, of i]
      by (simp del: parse_value.simps)
  qed
next
  case (4 d s)
  have "skip_space (string_text s @ r) = CHR 0x22 # concat (map escape_char s) @ CHR 0x22 # r" for r
    by (simp add: string_text_def skip_space_def json_space_def)
  then show ?case by (simp add: reads_value_def parse_escaped_string)
next
  case (6 d v vs)
  then show ?case by (rule reads_array)
next
  case (8 d k v kvs)
  then show ?case by (rule reads_object)
next
  case (9 d)
  show ?case
    by (auto simp: reads_rest_def intro: parse_elements_last
        simp del: parse_value.simps parse_elements.simps)
next
  case (10 d v vs)
  then show ?case by (rule reads_rest_cons)
next
  case (11 d)
  show ?case
    unfolding reads_more_def
  proof (intro allI impI)
    fix f t e k v r assume "parse_value f t = Some (v, stringify_more d [] @ r)"
    from parse_members_step [OF this, of e k]
    show "parse_members (Suc f) (indent e @ string_text k @ CHR '':'' # t) = Some ([(k, v)], r)"
      by (simp add: skip_space_def [of "CHR ''}'' # _"] json_space_def
          del: parse_value.simps parse_members.simps)
  qed
next
  case (12 d k v kvs)
  then show ?case by (rule reads_more_cons)
qed (auto simp: reads_value_def skip_space_def json_space_def)

text \<open>What \<open>JSON.stringify\<close> prints, \<open>JSON.parse\<close> reads back.\<close>

lemma json_roundtrip:
  assumes "json_ok v"
  shows "json_parse (json_stringify v) = Some v"
proof -
  have "ends_number []" by (simp add: ends_number_def)
  then have "parse_value (Suc (length (stringify 0 v))) (stringify 0 v @ []) = Some (v, [])"
    using assms parse_printed(1) [of 0 v] unfolding reads_value_def by blast
  then show ?thesis
    by (simp add: json_parse_def json_stringify_def skip_space_def del: parse_value.simps)
qed

end
