(* ===== verification/Dispatch_Store.thy ===== *)
theory Dispatch_Store
  imports Json_Text
begin

text \<open>
  The workflow-dispatch store of \<open>packages/registry/src/workflow-dispatch-store.ts\<close>: the
  outbox of workflow-start intents and the projection of workflow runs, as the class
  \<open>InMemoryWorkflowDispatchStore\<close> keeps them. Dates are milliseconds (\<open>int\<close>), version tokens
  are \<open>int\<close>, the identifier source is a sequence \<open>gen\<close> with the number of identifiers drawn so
  far in the state, and \<open>lc\<close> is \<open>String.prototype.localeCompare\<close>.
\<close>

section \<open>Data\<close>

datatype dispatch_state =
  disp_pending | disp_starting | disp_started | disp_duplicate
| disp_failed_retryable | disp_failed_terminal

datatype run_state =
  run_queued | run_running | run_waiting | run_cancelled | run_failed | run_completed

record dispatch_record =
  d_assetVersionId :: string
  d_createdAt :: int
  d_dispatchId :: string
  d_dispatchReason :: string
  d_dispatchState :: dispatch_state
  d_firstAttemptAt :: "int option"
  d_lastAttemptAt :: "int option"
  d_lastFailureClass :: "string option"
  d_retrySummary :: "json_record option"
  d_updatedAt :: int
  d_versionToken :: int
  d_workflowKey :: string
  d_workflowTemplateId :: string

record run_record =
  r_assetVersionId :: string
  r_cancellationCause :: "string option"
  r_completedAt :: "int option"
  r_createdAt :: int
  r_currentPhase :: "string option"
  r_lastOperatorAction :: "string option"
  r_retrySummary :: "json_record option"
  r_startedAt :: "int option"
  r_state :: run_state
  r_updatedAt :: int
  r_waitReason :: "string option"
  r_workflowDispatchId :: "string option"
  r_workflowId :: string
  r_workflowRunId :: string
  r_workflowTemplateId :: string

record claim_input =
  ci_claimedAt :: int
  ci_limit :: int

record started_input =
  si_currentPhase :: "string option"
  si_dispatchId :: string
  si_expectedVersionToken :: int
  si_startedAt :: int
  si_workflowId :: string

record duplicate_input =
  du_currentPhase :: "string option"
  du_dispatchId :: string
  du_expectedVersionToken :: int
  du_observedAt :: int
  du_workflowId :: string
  du_workflowRunState :: "run_state option"

record failed_input =
  fi_dispatchId :: string
  fi_expectedVersionToken :: int
  fi_failedAt :: int
  fi_failureClass :: string
  fi_retrySummary :: "json_record option"

datatype dispatch_error =
  WorkflowDispatchNotFoundError string
| WorkflowDispatchVersionConflictError string int
| WorkflowDispatchStateTransitionError string dispatch_state dispatch_state
| WorkflowRunMissingError string

record seed_dispatch =
  sd_assetVersionId :: string
  sd_createdAt :: "int option"
  sd_dispatchId :: string
  sd_dispatchReason :: string
  sd_dispatchState :: "dispatch_state option"
  sd_firstAttemptAt :: "int option"
  sd_lastAttemptAt :: "int option"
  sd_lastFailureClass :: "string option"
  sd_retrySummary :: "json_record option"
  sd_updatedAt :: "int option"
  sd_versionToken :: "int option"
  sd_workflowKey :: string
  sd_workflowTemplateId :: string

record dispatch_store =
  dispatches :: "(string, dispatch_record) jsmap"
  workflowRunsById :: "(string, run_record) jsmap"
  workflowRunsByWorkflowId :: "(string, string) jsmap"
  idsDrawn :: nat

section \<open>Copies\<close>

text \<open>The copies drop the empty strings, because their spreads test truthiness.\<close>

definition cloneDispatchRecord :: "dispatch_record \<Rightarrow> dispatch_record" where
  "cloneDispatchRecord d = d\<lparr>d_lastFailureClass := keep_str (d_lastFailureClass d)\<rparr>"

definition cloneWorkflowRunRecord :: "run_record \<Rightarrow> run_record" where
  "cloneWorkflowRunRecord r = r\<lparr>
     r_cancellationCause := keep_str (r_cancellationCause r),
     r_currentPhase := keep_str (r_currentPhase r),
     r_lastOperatorAction := keep_str (r_lastOperatorAction r),
     r_waitReason := keep_str (r_waitReason r),
     r_workflowDispatchId := keep_str (r_workflowDispatchId r)\<rparr>"

section \<open>Operations of the store\<close>

text \<open>2026-01-01T00:00:00.000Z, the default creation date of a seed.\<close>

definition defaultCreatedAt :: int where
  "defaultCreatedAt = 1767225600000"

definition seedDispatch :: "seed_dispatch \<Rightarrow> dispatch_record" where
  "seedDispatch s =
     (let createdAt = nullish (sd_createdAt s) defaultCreatedAt;
          updatedAt = nullish (sd_updatedAt s) createdAt in
      \<lparr>d_assetVersionId = sd_assetVersionId s,
       d_createdAt = createdAt,
       d_dispatchId = sd_dispatchId s,
       d_dispatchReason = sd_dispatchReason s,
       d_dispatchState = nullish (sd_dispatchState s) disp_pending,
       d_firstAttemptAt = sd_firstAttemptAt s,
       d_lastAttemptAt = sd_lastAttemptAt s,
       d_lastFailureClass = keep_str (sd_lastFailureClass s),
       d_retrySummary = sd_retrySummary s,
       d_updatedAt = updatedAt,
       d_versionToken = nullish (sd_versionToken s) 1,
       d_workflowKey = sd_workflowKey s,
       d_workflowTemplateId = sd_workflowTemplateId s\<rparr>)"

definition newDispatchStore :: "seed_dispatch list \<Rightarrow> dispatch_store" where
  "newDispatchStore seeds =
     \<lparr>dispatches = fold (\<lambda>s m. js_set (sd_dispatchId s) (seedDispatch s) m) seeds [],
      workflowRunsById = [], workflowRunsByWorkflowId = [], idsDrawn = 0\<rparr>"

definition dispatchOrder ::
  "(string \<Rightarrow> string \<Rightarrow> int) \<Rightarrow> dispatch_record \<Rightarrow> dispatch_record \<Rightarrow> int" where
  "dispatchOrder lc left right =
     (let createdDiff = d_createdAt left - d_createdAt right in
      if createdDiff \<noteq> 0 then createdDiff else lc (d_dispatchId left) (d_dispatchId right))"

definition claimable :: "dispatch_record \<Rightarrow> bool" where
  "claimable d \<longleftrightarrow>
     d_dispatchState d = disp_pending \<or> d_dispatchState d = disp_failed_retryable"

definition markClaimed :: "int \<Rightarrow> dispatch_record \<Rightarrow> dispatch_record" where
  "markClaimed claimedAt d = d\<lparr>
     d_dispatchState := disp_starting,
     d_updatedAt := claimedAt,
     d_lastAttemptAt := Some claimedAt,
     d_firstAttemptAt := or_else (d_firstAttemptAt d) (Some claimedAt),
     d_versionToken := d_versionToken d + 1\<rparr>"

fun claimLoop ::
  "claim_input \<Rightarrow> dispatch_record list \<Rightarrow> (string, dispatch_record) jsmap
     \<Rightarrow> dispatch_record list \<Rightarrow> (string, dispatch_record) jsmap \<times> dispatch_record list" where
  "claimLoop input [] m claimed = (m, claimed)"
| "claimLoop input (d # ds) m claimed =
     (if int (length claimed) \<ge> ci_limit input then (m, claimed)
      else if \<not> claimable d then claimLoop input ds m claimed
      else let d' = markClaimed (ci_claimedAt input) d in
           claimLoop input ds (js_set (d_dispatchId d) d' m) (claimed @ [cloneDispatchRecord d']))"

definition claimPendingDispatches ::
  "(string \<Rightarrow> string \<Rightarrow> int) \<Rightarrow> claim_input \<Rightarrow> dispatch_store
     \<Rightarrow> dispatch_store \<times> dispatch_record list" where
  "claimPendingDispatches lc input s =
     (let sortedDispatches = js_sort (dispatchOrder lc) (js_values (dispatches s));
          (m, claimed) = claimLoop input sortedDispatches (dispatches s) [] in
      (s\<lparr>dispatches := m\<rparr>, claimed))"

definition getDispatch :: "string \<Rightarrow> dispatch_store \<Rightarrow> dispatch_record option" where
  "getDispatch dispatchId s = map_option cloneDispatchRecord (js_get (dispatches s) dispatchId)"

definition listWorkflowRuns :: "string option \<Rightarrow> dispatch_store \<Rightarrow> run_record list" where
  "listWorkflowRuns assetVersionId s =
     map cloneWorkflowRunRecord
       (js_sort (\<lambda>l r. r_createdAt l - r_createdAt r)
         (filter (\<lambda>r. if truthy_str assetVersionId
                       then Some (r_assetVersionId r) = assetVersionId else True)
           (js_values (workflowRunsById s))))"

definition getMutableDispatch ::
  "string \<Rightarrow> int \<Rightarrow> dispatch_store \<Rightarrow> dispatch_error + dispatch_record" where
  "getMutableDispatch dispatchId expected s =
     (case js_get (dispatches s) dispatchId of
        None \<Rightarrow> Inl (WorkflowDispatchNotFoundError dispatchId)
      | Some d \<Rightarrow>
          if d_versionToken d \<noteq> expected
          then Inl (WorkflowDispatchVersionConflictError dispatchId expected)
          else Inr d)"

text \<open>
  \<open>upsertWorkflowRun\<close>. Its argument is a run record without an identifier: both callers
  leave \<open>workflowRunId\<close> out, so the identifier is always a fresh one.
\<close>

definition upsertWorkflowRun ::
  "(nat \<Rightarrow> string) \<Rightarrow> run_record \<Rightarrow> dispatch_store
     \<Rightarrow> (dispatch_store, dispatch_error, unit) outcome" where
  "upsertWorkflowRun gen record s =
     (let existingRunId = js_get (workflowRunsByWorkflowId s) (r_workflowId record);
          cleaned = cloneWorkflowRunRecord record in
      if truthy_str existingRunId then
        (case js_get (workflowRunsById s) (the existingRunId) of
           None \<Rightarrow> throw s (WorkflowRunMissingError (the existingRunId))
         | Some existingRun \<Rightarrow>
             ok (s\<lparr>workflowRunsById :=
                   js_set (the existingRunId)
                     (cleaned\<lparr>r_workflowRunId := r_workflowRunId existingRun,
                              r_workflowId := r_workflowId existingRun\<rparr>)
                     (workflowRunsById s)\<rparr>) ())
      else
        (let workflowRunId = gen (idsDrawn s) in
         ok (s\<lparr>workflowRunsById :=
                 js_set workflowRunId (cleaned\<lparr>r_workflowRunId := workflowRunId\<rparr>)
                   (workflowRunsById s),
               workflowRunsByWorkflowId :=
                 js_set (r_workflowId record) workflowRunId (workflowRunsByWorkflowId s),
               idsDrawn := Suc (idsDrawn s)\<rparr>) ()))"

text \<open>The run record that \<open>recordStarted\<close> upserts: a run that is already past \<open>queued\<close> keeps its
  state, phase, start and dispatch.\<close>

definition startedRun ::
  "started_input \<Rightarrow> dispatch_record \<Rightarrow> run_record option \<Rightarrow> run_record" where
  "startedRun input d existing =
     \<lparr>r_assetVersionId = d_assetVersionId d,
      r_cancellationCause = None,
      r_completedAt = None,
      r_createdAt = (case existing of Some r \<Rightarrow> r_createdAt r | None \<Rightarrow> si_startedAt input),
      r_currentPhase =
        (if (case existing of
               Some r \<Rightarrow> r_state r \<noteq> run_queued \<and> truthy_str (r_currentPhase r)
             | None \<Rightarrow> False)
         then r_currentPhase (the existing)
         else keep_str (si_currentPhase input)),
      r_lastOperatorAction = None,
      r_retrySummary = None,
      r_startedAt = or_else (Option.bind existing r_startedAt) (Some (si_startedAt input)),
      r_state =
        (case existing of
           Some r \<Rightarrow> (if r_state r \<noteq> run_queued then r_state r else run_queued)
         | None \<Rightarrow> run_queued),
      r_updatedAt = si_startedAt input,
      r_waitReason = None,
      r_workflowDispatchId =
        or_else (Option.bind existing r_workflowDispatchId) (Some (d_dispatchId d)),
      r_workflowId = si_workflowId input,
      r_workflowRunId = [],
      r_workflowTemplateId = d_workflowTemplateId d\<rparr>"

definition existingWorkflowRun :: "string \<Rightarrow> dispatch_store \<Rightarrow> run_record option" where
  "existingWorkflowRun workflowId s =
     (let existingWorkflowRunId = js_get (workflowRunsByWorkflowId s) workflowId in
      if truthy_str existingWorkflowRunId
      then js_get (workflowRunsById s) (the existingWorkflowRunId) else None)"

definition recordStarted ::
  "(nat \<Rightarrow> string) \<Rightarrow> started_input \<Rightarrow> dispatch_store
     \<Rightarrow> (dispatch_store, dispatch_error, unit) outcome" where
  "recordStarted gen input s =
     (case getMutableDispatch (si_dispatchId input) (si_expectedVersionToken input) s of
        Inl e \<Rightarrow> throw s e
      | Inr d \<Rightarrow>
          if d_dispatchState d \<noteq> disp_starting
          then throw s (WorkflowDispatchStateTransitionError
                          (d_dispatchId d) (d_dispatchState d) disp_started)
          else
            (let d' = d\<lparr>d_dispatchState := disp_started,
                         d_updatedAt := si_startedAt input,
                         d_lastAttemptAt := Some (si_startedAt input),
                         d_versionToken := d_versionToken d + 1\<rparr> in
             upsertWorkflowRun gen
               (startedRun input d' (existingWorkflowRun (si_workflowId input) s))
               (s\<lparr>dispatches := js_set (si_dispatchId input) d' (dispatches s)\<rparr>)))"

definition duplicateRun :: "duplicate_input \<Rightarrow> dispatch_record \<Rightarrow> run_record" where
  "duplicateRun input d =
     \<lparr>r_assetVersionId = d_assetVersionId d,
      r_cancellationCause = None,
      r_completedAt = None,
      r_createdAt = du_observedAt input,
      r_currentPhase = keep_str (du_currentPhase input),
      r_lastOperatorAction = None,
      r_retrySummary = None,
      r_startedAt = Some (du_observedAt input),
      r_state = nullish (du_workflowRunState input) run_running,
      r_updatedAt = du_observedAt input,
      r_waitReason = None,
      r_workflowDispatchId = Some (d_dispatchId d),
      r_workflowId = du_workflowId input,
      r_workflowRunId = [],
      r_workflowTemplateId = d_workflowTemplateId d\<rparr>"

definition recordDuplicate ::
  "(nat \<Rightarrow> string) \<Rightarrow> duplicate_input \<Rightarrow> dispatch_store
     \<Rightarrow> (dispatch_store, dispatch_error, unit) outcome" where
  "recordDuplicate gen input s =
     (case getMutableDispatch (du_dispatchId input) (du_expectedVersionToken input) s of
        Inl e \<Rightarrow> throw s e
      | Inr d \<Rightarrow>
          if d_dispatchState d \<noteq> disp_starting
          then throw s (WorkflowDispatchStateTransitionError
                          (d_dispatchId d) (d_dispatchState d) disp_duplicate)
          else
            (let d' = d\<lparr>d_dispatchState := disp_duplicate,
                         d_updatedAt := du_observedAt input,
                         d_lastAttemptAt := Some (du_observedAt input),
                         d_versionToken := d_versionToken d + 1\<rparr> in
             upsertWorkflowRun gen (duplicateRun input d')
               (s\<lparr>dispatches := js_set (du_dispatchId input) d' (dispatches s)\<rparr>)))"

definition recordFailure ::
  "dispatch_state \<Rightarrow> failed_input \<Rightarrow> dispatch_store
     \<Rightarrow> (dispatch_store, dispatch_error, unit) outcome" where
  "recordFailure targetState input s =
     (case getMutableDispatch (fi_dispatchId input) (fi_expectedVersionToken input) s of
        Inl e \<Rightarrow> throw s e
      | Inr d \<Rightarrow>
          if d_dispatchState d \<noteq> disp_starting
          then throw s (WorkflowDispatchStateTransitionError
                          (d_dispatchId d) (d_dispatchState d) targetState)
          else
            ok (s\<lparr>dispatches :=
                  js_set (fi_dispatchId input)
                    (d\<lparr>d_dispatchState := targetState,
                       d_lastAttemptAt := Some (fi_failedAt input),
                       d_lastFailureClass := Some (fi_failureClass input),
                       d_retrySummary := fi_retrySummary input,
                       d_updatedAt := fi_failedAt input,
                       d_versionToken := d_versionToken d + 1\<rparr>)
                    (dispatches s)\<rparr>) ())"

definition recordFailedRetryable ::
  "failed_input \<Rightarrow> dispatch_store \<Rightarrow> (dispatch_store, dispatch_error, unit) outcome" where
  "recordFailedRetryable input s = recordFailure disp_failed_retryable input s"

definition recordFailedTerminal ::
  "failed_input \<Rightarrow> dispatch_store \<Rightarrow> (dispatch_store, dispatch_error, unit) outcome" where
  "recordFailedTerminal input s = recordFailure disp_failed_terminal input s"

section \<open>Claiming against its specification\<close>

text \<open>
  The loop takes the first \<open>limit\<close> claimable records of the sorted list, marks each, and
  stops: it is \<open>take\<close> after \<open>filter\<close>.
\<close>

lemma claimLoop_take:
  "claimLoop input ds m acc =
     (let taken = take (nat (ci_limit input) - length acc) (filter claimable ds) in
      (fold (\<lambda>d m. js_set (d_dispatchId d) (markClaimed (ci_claimedAt input) d) m) taken m,
       acc @ map (\<lambda>d. cloneDispatchRecord (markClaimed (ci_claimedAt input) d)) taken))"
proof (induction ds arbitrary: m acc)
  case Nil
  show ?case by simp
next
  case (Cons d ds)
  show ?case
  proof (cases "int (length acc) \<ge> ci_limit input")
    case True
    then have "nat (ci_limit input) - length acc = 0" by simp
    with True show ?thesis by simp
  next
    case False
    then have "length acc < nat (ci_limit input)" by linarith
    then obtain n where n: "nat (ci_limit input) - length acc = Suc n"
      by (metis Suc_diff_Suc)
    then have "nat (ci_limit input) - length (acc @ [x]) = n" for x :: dispatch_record by simp
    with False n show ?thesis by (simp add: Cons.IH Let_def)
  qed
qed

definition claimTaken ::
  "(string \<Rightarrow> string \<Rightarrow> int) \<Rightarrow> claim_input \<Rightarrow> dispatch_store \<Rightarrow> dispatch_record list" where
  "claimTaken lc input s =
     take (nat (ci_limit input))
       (filter claimable (js_sort (dispatchOrder lc) (js_values (dispatches s))))"

lemma claim_eq:
  "claimPendingDispatches lc input s =
     (s\<lparr>dispatches :=
          fold (\<lambda>d m. js_set (d_dispatchId d) (markClaimed (ci_claimedAt input) d) m)
            (claimTaken lc input s) (dispatches s)\<rparr>,
      map (\<lambda>d. cloneDispatchRecord (markClaimed (ci_claimedAt input) d)) (claimTaken lc input s))"
  by (simp add: claimPendingDispatches_def claimLoop_take claimTaken_def Let_def)

lemma fold_set_other:
  "k \<notin> f ` set ds \<Longrightarrow> js_get (fold (\<lambda>d m. js_set (f d) (g d) m) ds m) k = js_get m k"
  by (induction ds arbitrary: m) auto

lemma fold_set_same:
  "distinct (map f ds) \<Longrightarrow> d \<in> set ds \<Longrightarrow>
     js_get (fold (\<lambda>d m. js_set (f d) (g d) m) ds m) (f d) = Some (g d)"
proof (induction ds arbitrary: m)
  case (Cons x xs)
  show ?case
  proof (cases "d = x")
    case True
    with Cons.prems have "f d \<notin> f ` set xs" by auto
    with True show ?thesis by (simp add: fold_set_other)
  next
    case False
    with Cons show ?thesis by simp
  qed
qed simp

lemma fold_set_wf: "js_wf m \<Longrightarrow> js_wf (fold (\<lambda>d m. js_set (f d) (g d) m) ds m)"
  by (induction ds arbitrary: m) auto

section \<open>Invariant\<close>

text \<open>
  The invariant of the store: unique keys, every dispatch stored under its own identifier,
  and the two run maps inverse to each other, so that a workflow identifier has one run.
\<close>

definition fresh_ids :: "(nat \<Rightarrow> string) \<Rightarrow> bool" where
  "fresh_ids gen \<longleftrightarrow> inj gen \<and> (\<forall>n. gen n \<noteq> [])"

definition runs_inv :: "(nat \<Rightarrow> string) \<Rightarrow> dispatch_store \<Rightarrow> bool" where
  "runs_inv gen s \<longleftrightarrow>
     (\<forall>w rid. js_get (workflowRunsByWorkflowId s) w = Some rid \<longrightarrow>
        (\<exists>r. js_get (workflowRunsById s) rid = Some r \<and> r_workflowId r = w)) \<and>
     (\<forall>rid r. js_get (workflowRunsById s) rid = Some r \<longrightarrow>
        js_get (workflowRunsByWorkflowId s) (r_workflowId r) = Some rid \<and>
        r_workflowRunId r = rid \<and> (\<exists>n < idsDrawn s. rid = gen n))"

definition dispatch_keys_inv :: "dispatch_store \<Rightarrow> bool" where
  "dispatch_keys_inv s \<longleftrightarrow>
     js_wf (dispatches s) \<and>
     (\<forall>k d. js_get (dispatches s) k = Some d \<longrightarrow> d_dispatchId d = k)"

definition dispatch_inv :: "(nat \<Rightarrow> string) \<Rightarrow> dispatch_store \<Rightarrow> bool" where
  "dispatch_inv gen s \<longleftrightarrow> dispatch_keys_inv s \<and> runs_inv gen s"

lemma clone_run_simps [simp]:
  "r_workflowId (cloneWorkflowRunRecord r) = r_workflowId r"
  "r_state (cloneWorkflowRunRecord r) = r_state r"
  "r_workflowTemplateId (cloneWorkflowRunRecord r) = r_workflowTemplateId r"
  by (simp_all add: cloneWorkflowRunRecord_def)

lemma upsert_dispatches [simp]:
  "dispatches (fst (upsertWorkflowRun gen r s)) = dispatches s"
  by (auto simp: upsertWorkflowRun_def Let_def split: option.splits)

lemma runs_inv_byWorkflow:
  "runs_inv gen s \<Longrightarrow> js_get (workflowRunsByWorkflowId s) w = Some rid \<Longrightarrow>
     \<exists>r. js_get (workflowRunsById s) rid = Some r \<and> r_workflowId r = w"
  by (simp add: runs_inv_def)

lemma runs_inv_byId:
  assumes "runs_inv gen s" "js_get (workflowRunsById s) rid = Some r"
  shows "js_get (workflowRunsByWorkflowId s) (r_workflowId r) = Some rid"
    and "r_workflowRunId r = rid" and "\<exists>n < idsDrawn s. rid = gen n"
  using assms by (simp_all add: runs_inv_def)

lemma upsert_ok:
  assumes "runs_inv gen s"
  shows "snd (upsertWorkflowRun gen r s) = Inr ()"
proof (cases "js_get (workflowRunsByWorkflowId s) (r_workflowId r)")
  case (Some rid)
  with runs_inv_byWorkflow [OF assms Some] show ?thesis
    by (auto simp: upsertWorkflowRun_def Let_def)
qed (simp add: upsertWorkflowRun_def Let_def)

lemma runs_inv_overwrite:
  assumes inv: "runs_inv gen s" and x: "js_get (workflowRunsById s) rid = Some x"
    and y: "r_workflowId y = r_workflowId x" "r_workflowRunId y = r_workflowRunId x"
  shows "runs_inv gen (s\<lparr>workflowRunsById := js_set rid y (workflowRunsById s)\<rparr>)"
  unfolding runs_inv_def
proof (rule conjI; intro allI impI)
  let ?s' = "s\<lparr>workflowRunsById := js_set rid y (workflowRunsById s)\<rparr>"
  fix w rid' assume "js_get (workflowRunsByWorkflowId ?s') w = Some rid'"
  then obtain r where "js_get (workflowRunsById s) rid' = Some r" "r_workflowId r = w"
    using runs_inv_byWorkflow [OF inv, of w rid'] by auto
  then show "\<exists>r. js_get (workflowRunsById ?s') rid' = Some r \<and> r_workflowId r = w"
    using x y by (cases "rid' = rid") auto
next
  let ?s' = "s\<lparr>workflowRunsById := js_set rid y (workflowRunsById s)\<rparr>"
  fix rid' r assume "js_get (workflowRunsById ?s') rid' = Some r"
  then obtain r0 where r0: "js_get (workflowRunsById s) rid' = Some r0"
      "r_workflowId r = r_workflowId r0" "r_workflowRunId r = r_workflowRunId r0"
    using x y by (cases "rid' = rid") auto
  show "js_get (workflowRunsByWorkflowId ?s') (r_workflowId r) = Some rid' \<and>
      r_workflowRunId r = rid' \<and> (\<exists>n < idsDrawn ?s'. rid' = gen n)"
    using r0 runs_inv_byId [OF inv r0(1)] by simp
qed

lemma upsert_runs_inv:
  assumes gen: "fresh_ids gen" and inv: "runs_inv gen s"
  shows "runs_inv gen (fst (upsertWorkflowRun gen r s))"
proof (cases "js_get (workflowRunsByWorkflowId s) (r_workflowId r)")
  case None
  have fresh: "js_get (workflowRunsById s) (gen (idsDrawn s)) = None"
  proof (rule ccontr)
    assume "js_get (workflowRunsById s) (gen (idsDrawn s)) \<noteq> None"
    then obtain x where "js_get (workflowRunsById s) (gen (idsDrawn s)) = Some x" by auto
    from runs_inv_byId(3) [OF inv this] gen show False by (auto simp: fresh_ids_def inj_eq)
  qed
  have used: "rid \<noteq> gen (idsDrawn s)" if "js_get (workflowRunsById s) rid = Some x" for rid x
    using that fresh by auto
  show ?thesis
    using None inv used
    by (auto simp: upsertWorkflowRun_def runs_inv_def Let_def less_Suc_eq) fastforce+
next
  case (Some rid)
  from runs_inv_byWorkflow [OF inv Some] obtain x
    where x: "js_get (workflowRunsById s) rid = Some x" "r_workflowId x = r_workflowId r" by auto
  from runs_inv_byId(3) [OF inv x(1)] obtain n where "rid = gen n" by auto
  with gen have "rid \<noteq> []" by (simp add: fresh_ids_def)
  with Some x runs_inv_overwrite [OF inv x(1)] show ?thesis
    by (simp add: upsertWorkflowRun_def Let_def)
qed

text \<open>What a successful record operation does, for the four of them at once.\<close>

lemma getMutable_Inr:
  "getMutableDispatch k tok s = Inr d \<longleftrightarrow>
     js_get (dispatches s) k = Some d \<and> d_versionToken d = tok"
  by (auto simp: getMutableDispatch_def split: option.splits)

text \<open>The transition table of the dispatch state machine.\<close>

inductive dispatch_transition :: "dispatch_state \<Rightarrow> dispatch_state \<Rightarrow> bool" where
  claim_pending: "dispatch_transition disp_pending disp_starting"
| claim_retry: "dispatch_transition disp_failed_retryable disp_starting"
| start: "dispatch_transition disp_starting disp_started"
| converge: "dispatch_transition disp_starting disp_duplicate"
| fail_retry: "dispatch_transition disp_starting disp_failed_retryable"
| fail_terminal: "dispatch_transition disp_starting disp_failed_terminal"

inductive_simps from_started [simp]: "dispatch_transition disp_started x"
inductive_simps from_duplicate [simp]: "dispatch_transition disp_duplicate x"
inductive_simps from_terminal [simp]: "dispatch_transition disp_failed_terminal x"
inductive_simps from_starting: "dispatch_transition disp_starting x"

definition outcome_of :: "dispatch_state \<Rightarrow> bool" where
  "outcome_of t \<longleftrightarrow> dispatch_transition disp_starting t"

text \<open>
  One record operation on dispatch \<open>k\<close> with token \<open>tok\<close> and target state \<open>t\<close>: the shape that
  \<open>recordStarted\<close>, \<open>recordDuplicate\<close> and \<open>recordFailure\<close> share.
\<close>

definition settles ::
  "string \<Rightarrow> int \<Rightarrow> dispatch_state \<Rightarrow> dispatch_store \<Rightarrow> dispatch_store \<Rightarrow> bool" where
  "settles k tok t s s' \<longleftrightarrow>
     (\<exists>d d'. js_get (dispatches s) k = Some d \<and> d_versionToken d = tok \<and>
        d_dispatchState d = disp_starting \<and>
        d_dispatchState d' = t \<and> d_versionToken d' = tok + 1 \<and> d_dispatchId d' = d_dispatchId d \<and>
        d_workflowKey d' = d_workflowKey d \<and> d_assetVersionId d' = d_assetVersionId d \<and>
        dispatches s' = js_set k d' (dispatches s))"

definition refuses ::
  "string \<Rightarrow> int \<Rightarrow> dispatch_state \<Rightarrow> dispatch_store \<Rightarrow> dispatch_error \<Rightarrow> bool" where
  "refuses k tok t s e \<longleftrightarrow>
     (case js_get (dispatches s) k of
        None \<Rightarrow> e = WorkflowDispatchNotFoundError k
      | Some d \<Rightarrow>
          if d_versionToken d \<noteq> tok then e = WorkflowDispatchVersionConflictError k tok
          else d_dispatchState d \<noteq> disp_starting \<and>
               e = WorkflowDispatchStateTransitionError (d_dispatchId d) (d_dispatchState d) t)"

definition records ::
  "string \<Rightarrow> int \<Rightarrow> dispatch_state \<Rightarrow> (dispatch_store \<Rightarrow> (dispatch_store, dispatch_error, unit) outcome)
     \<Rightarrow> (nat \<Rightarrow> string) \<Rightarrow> bool" where
  "records k tok t f gen \<longleftrightarrow> outcome_of t \<and> (\<forall>s. runs_inv gen s \<longrightarrow>
     (case f s of
        (s', Inl e) \<Rightarrow> s' = s \<and> refuses k tok t s e
      | (s', Inr _) \<Rightarrow> settles k tok t s s' \<and> (fresh_ids gen \<longrightarrow> runs_inv gen s')))"

lemma upsert_split:
  "runs_inv gen s \<Longrightarrow> P (upsertWorkflowRun gen r s) \<longleftrightarrow>
     P (fst (upsertWorkflowRun gen r s), Inr ())"
  using upsert_ok [of gen s r] by (cases "upsertWorkflowRun gen r s") auto

lemma runs_inv_dispatches [simp]: "runs_inv gen (s\<lparr>dispatches := m\<rparr>) = runs_inv gen s"
  by (simp add: runs_inv_def)

lemma recordsI:
  assumes "outcome_of t"
    and "\<And>s e. getMutableDispatch k tok s = Inl e \<Longrightarrow> f s = (s, Inl e)"
    and "\<And>s d. getMutableDispatch k tok s = Inr d \<Longrightarrow> d_dispatchState d \<noteq> disp_starting \<Longrightarrow>
           f s = (s, Inl (WorkflowDispatchStateTransitionError (d_dispatchId d) (d_dispatchState d) t))"
    and "\<And>s d. runs_inv gen s \<Longrightarrow> getMutableDispatch k tok s = Inr d \<Longrightarrow>
           d_dispatchState d = disp_starting \<Longrightarrow>
           \<exists>s'. f s = (s', Inr ()) \<and> settles k tok t s s' \<and> (fresh_ids gen \<longrightarrow> runs_inv gen s')"
  shows "records k tok t f gen"
  unfolding records_def
proof (intro conjI allI impI)
  fix s assume inv: "runs_inv gen s"
  show "case f s of (s', Inl e) \<Rightarrow> s' = s \<and> refuses k tok t s e
    | (s', Inr _) \<Rightarrow> settles k tok t s s' \<and> (fresh_ids gen \<longrightarrow> runs_inv gen s')"
  proof (cases "getMutableDispatch k tok s")
    case (Inl e)
    with assms(2) [OF Inl] show ?thesis
      by (auto simp: refuses_def getMutableDispatch_def split: option.splits if_splits)
  next
    case (Inr d)
    show ?thesis
    proof (cases "d_dispatchState d = disp_starting")
      case True
      with assms(4) [OF inv Inr] show ?thesis by auto
    next
      case False
      with assms(3) [OF Inr] Inr show ?thesis by (auto simp: refuses_def getMutable_Inr)
    qed
  qed
qed (rule assms(1))

lemma outcome_simps [simp]:
  "outcome_of disp_started" "outcome_of disp_duplicate"
  "outcome_of disp_failed_retryable" "outcome_of disp_failed_terminal"
  "\<not> outcome_of disp_pending" "\<not> outcome_of disp_starting"
  by (auto simp: outcome_of_def from_starting)

lemma settles_upsert:
  assumes "runs_inv gen s" "getMutableDispatch k tok s = Inr d" "d_dispatchState d = disp_starting"
    and "d_dispatchState d' = t" "d_versionToken d' = d_versionToken d + 1"
    and "d_dispatchId d' = d_dispatchId d"
    and "d_workflowKey d' = d_workflowKey d" "d_assetVersionId d' = d_assetVersionId d"
    and f: "f s = upsertWorkflowRun gen r (s\<lparr>dispatches := js_set k d' (dispatches s)\<rparr>)"
  shows "\<exists>s'. f s = (s', Inr ()) \<and> settles k tok t s s' \<and> (fresh_ids gen \<longrightarrow> runs_inv gen s')"
proof -
  let ?m = "s\<lparr>dispatches := js_set k d' (dispatches s)\<rparr>"
  let ?u = "upsertWorkflowRun gen r ?m"
  have inv: "runs_inv gen ?m" using assms(1) by simp
  have "f s = (fst ?u, Inr ())" using f upsert_ok [OF inv, of r] by (simp add: prod_eq_iff)
  moreover have "settles k tok t s (fst ?u)"
    using assms by (auto simp: settles_def getMutable_Inr)
  moreover have "fresh_ids gen \<longrightarrow> runs_inv gen (fst ?u)" using upsert_runs_inv inv by blast
  ultimately show ?thesis by blast
qed

lemma records_started:
  "records (si_dispatchId i) (si_expectedVersionToken i) disp_started (recordStarted gen i) gen"
proof (rule recordsI)
  fix s d
  assume "runs_inv gen s"
    and "getMutableDispatch (si_dispatchId i) (si_expectedVersionToken i) s = Inr d"
    and "d_dispatchState d = disp_starting"
  then show "\<exists>s'. recordStarted gen i s = (s', Inr ()) \<and>
      settles (si_dispatchId i) (si_expectedVersionToken i) disp_started s s' \<and>
      (fresh_ids gen \<longrightarrow> runs_inv gen s')"
    by - (rule settles_upsert [where d' = "d\<lparr>d_dispatchState := disp_started,
           d_updatedAt := si_startedAt i, d_lastAttemptAt := Some (si_startedAt i),
           d_versionToken := d_versionToken d + 1\<rparr>"],
          assumption, assumption, assumption,
          simp_all add: recordStarted_def Let_def)
qed (simp_all add: recordStarted_def Let_def)

lemma records_duplicate:
  "records (du_dispatchId i) (du_expectedVersionToken i) disp_duplicate (recordDuplicate gen i) gen"
proof (rule recordsI)
  fix s d
  assume "runs_inv gen s"
    and "getMutableDispatch (du_dispatchId i) (du_expectedVersionToken i) s = Inr d"
    and "d_dispatchState d = disp_starting"
  then show "\<exists>s'. recordDuplicate gen i s = (s', Inr ()) \<and>
      settles (du_dispatchId i) (du_expectedVersionToken i) disp_duplicate s s' \<and>
      (fresh_ids gen \<longrightarrow> runs_inv gen s')"
    by - (rule settles_upsert [where d' = "d\<lparr>d_dispatchState := disp_duplicate,
           d_updatedAt := du_observedAt i, d_lastAttemptAt := Some (du_observedAt i),
           d_versionToken := d_versionToken d + 1\<rparr>"],
          assumption, assumption, assumption,
          simp_all add: recordDuplicate_def Let_def)
qed (simp_all add: recordDuplicate_def Let_def)

lemma records_failure:
  assumes "outcome_of t"
  shows "records (fi_dispatchId i) (fi_expectedVersionToken i) t (recordFailure t i) gen"
proof (rule recordsI)
  fix s d
  assume "runs_inv gen s"
    and "getMutableDispatch (fi_dispatchId i) (fi_expectedVersionToken i) s = Inr d"
    and "d_dispatchState d = disp_starting"
  then show "\<exists>s'. recordFailure t i s = (s', Inr ()) \<and>
      settles (fi_dispatchId i) (fi_expectedVersionToken i) t s s' \<and>
      (fresh_ids gen \<longrightarrow> runs_inv gen s')"
    using getMutable_Inr [of "fi_dispatchId i" "fi_expectedVersionToken i" s d]
    by (intro exI conjI, simp add: recordFailure_def)
       (auto simp: settles_def intro!: exI [of _ "d\<lparr>d_dispatchState := t,
          d_lastAttemptAt := Some (fi_failedAt i), d_lastFailureClass := Some (fi_failureClass i),
          d_retrySummary := fi_retrySummary i, d_updatedAt := fi_failedAt i,
          d_versionToken := d_versionToken d + 1\<rparr>"])
qed (simp_all add: recordFailure_def assms)

lemmas records_failed_retryable =
  records_failure [of disp_failed_retryable, simplified]
lemmas records_failed_terminal =
  records_failure [of disp_failed_terminal, simplified]

section \<open>Runs of the store\<close>

text \<open>The four ways to report the outcome of a claimed dispatch.\<close>

datatype report =
  ReportStarted started_input | ReportDuplicate duplicate_input
| ReportFailedRetryable failed_input | ReportFailedTerminal failed_input

fun runReport ::
  "(nat \<Rightarrow> string) \<Rightarrow> report \<Rightarrow> dispatch_store \<Rightarrow> (dispatch_store, dispatch_error, unit) outcome"
where
  "runReport gen (ReportStarted i) s = recordStarted gen i s"
| "runReport gen (ReportDuplicate i) s = recordDuplicate gen i s"
| "runReport gen (ReportFailedRetryable i) s = recordFailedRetryable i s"
| "runReport gen (ReportFailedTerminal i) s = recordFailedTerminal i s"

fun reportKey :: "report \<Rightarrow> string" where
  "reportKey (ReportStarted i) = si_dispatchId i"
| "reportKey (ReportDuplicate i) = du_dispatchId i"
| "reportKey (ReportFailedRetryable i) = fi_dispatchId i"
| "reportKey (ReportFailedTerminal i) = fi_dispatchId i"

fun reportToken :: "report \<Rightarrow> int" where
  "reportToken (ReportStarted i) = si_expectedVersionToken i"
| "reportToken (ReportDuplicate i) = du_expectedVersionToken i"
| "reportToken (ReportFailedRetryable i) = fi_expectedVersionToken i"
| "reportToken (ReportFailedTerminal i) = fi_expectedVersionToken i"

fun reportState :: "report \<Rightarrow> dispatch_state" where
  "reportState (ReportStarted i) = disp_started"
| "reportState (ReportDuplicate i) = disp_duplicate"
| "reportState (ReportFailedRetryable i) = disp_failed_retryable"
| "reportState (ReportFailedTerminal i) = disp_failed_terminal"

lemma records_report: "records (reportKey r) (reportToken r) (reportState r) (runReport gen r) gen"
  using records_started records_duplicate records_failed_retryable records_failed_terminal
  by (cases r) (simp_all add: records_def recordFailedRetryable_def recordFailedTerminal_def)

datatype dispatch_op = OpClaim claim_input | OpReport report

fun runDispatchOp ::
  "(nat \<Rightarrow> string) \<Rightarrow> (string \<Rightarrow> string \<Rightarrow> int) \<Rightarrow> dispatch_op \<Rightarrow> dispatch_store \<Rightarrow> dispatch_store"
where
  "runDispatchOp gen lc (OpClaim i) s = fst (claimPendingDispatches lc i s)"
| "runDispatchOp gen lc (OpReport r) s = fst (runReport gen r s)"

definition runDispatchOps ::
  "(nat \<Rightarrow> string) \<Rightarrow> (string \<Rightarrow> string \<Rightarrow> int) \<Rightarrow> dispatch_op list \<Rightarrow> dispatch_store \<Rightarrow> dispatch_store"
where
  "runDispatchOps gen lc ops s = fold (runDispatchOp gen lc) ops s"

text \<open>How one operation may change one dispatch: not at all, or one transition of the table,
  with the version token increased by one.\<close>

definition evolves :: "dispatch_record \<Rightarrow> dispatch_record \<Rightarrow> bool" where
  "evolves d d' \<longleftrightarrow>
     d' = d \<or>
     (dispatch_transition (d_dispatchState d) (d_dispatchState d') \<and>
      d_versionToken d' = d_versionToken d + 1 \<and> d_workflowKey d' = d_workflowKey d \<and>
      d_assetVersionId d' = d_assetVersionId d \<and> d_dispatchId d' = d_dispatchId d)"

definition step_ok :: "dispatch_store \<Rightarrow> dispatch_store \<Rightarrow> bool" where
  "step_ok s s' \<longleftrightarrow>
     dom (js_get (dispatches s')) = dom (js_get (dispatches s)) \<and>
     (\<forall>k d. js_get (dispatches s) k = Some d \<longrightarrow>
        (\<exists>d'. js_get (dispatches s') k = Some d' \<and> evolves d d'))"

lemma evolves_refl [simp]: "evolves d d"
  by (simp add: evolves_def)

lemma step_ok_refl [simp]: "step_ok s s"
  by (simp add: step_ok_def)

lemma settles_step_ok: "outcome_of t \<Longrightarrow> settles k tok t s s' \<Longrightarrow> step_ok s s'"
  by (auto simp: settles_def step_ok_def evolves_def outcome_of_def split: if_splits)

lemma settles_keys_inv: "settles k tok t s s' \<Longrightarrow> dispatch_keys_inv s \<Longrightarrow> dispatch_keys_inv s'"
  by (auto simp: settles_def dispatch_keys_inv_def split: if_splits)

lemma records_step:
  assumes "records k tok t f gen" "fresh_ids gen" "dispatch_inv gen s"
  shows "step_ok s (fst (f s)) \<and> dispatch_inv gen (fst (f s))"
  using assms
  by (cases "f s"; cases "snd (f s)")
     (auto simp: records_def dispatch_inv_def intro: settles_step_ok settles_keys_inv dest!: spec [of _ s])

lemma dispatch_keys_distinct:
  assumes "dispatch_keys_inv s"
  shows "distinct (map d_dispatchId (js_values (dispatches s)))"
proof -
  have "map d_dispatchId (js_values (dispatches s)) = map fst (dispatches s)"
    using assms by (auto simp: dispatch_keys_inv_def js_values_def js_wf_def)
  then show ?thesis using assms by (simp add: dispatch_keys_inv_def js_wf_def)
qed

lemma claimTaken_subset: "set (claimTaken lc i s) \<subseteq> set (filter claimable (js_values (dispatches s)))"
  using set_take_subset by (fastforce simp: claimTaken_def)

lemma claimTaken_distinct:
  "dispatch_keys_inv s \<Longrightarrow> distinct (map d_dispatchId (claimTaken lc i s))"
  by (simp add: claimTaken_def take_map [symmetric] distinct_map_filter dispatch_keys_distinct)

lemma claimTaken_get:
  "dispatch_keys_inv s \<Longrightarrow> d \<in> set (claimTaken lc i s) \<Longrightarrow>
     js_get (dispatches s) (d_dispatchId d) = Some d \<and> claimable d"
  using claimTaken_subset [of lc i s]
  by (fastforce simp: dispatch_keys_inv_def js_values_get)

text \<open>The effect of a claim on one dispatch.\<close>

lemma claim_get:
  assumes inv: "dispatch_keys_inv s" and "js_get (dispatches s) k = Some d"
  shows "js_get (dispatches (fst (claimPendingDispatches lc i s))) k =
           Some (if d \<in> set (claimTaken lc i s) then markClaimed (ci_claimedAt i) d else d)"
proof (cases "d \<in> set (claimTaken lc i s)")
  case True
  then have "d_dispatchId d = k" using inv assms by (simp add: dispatch_keys_inv_def)
  with True fold_set_same [OF claimTaken_distinct [OF inv] True] show ?thesis
    by (simp add: claim_eq)
next
  case False
  have "k \<notin> d_dispatchId ` set (claimTaken lc i s)"
    using False assms claimTaken_get [OF inv] by fastforce
  with False assms show ?thesis by (simp add: claim_eq fold_set_other)
qed

lemma claim_dom:
  assumes "dispatch_keys_inv s"
  shows "js_get (dispatches (fst (claimPendingDispatches lc i s))) k = None \<longleftrightarrow>
         js_get (dispatches s) k = None"
proof (cases "js_get (dispatches s) k")
  case None
  then have "k \<notin> d_dispatchId ` set (claimTaken lc i s)" using claimTaken_get [OF assms] by fastforce
  with None show ?thesis by (simp add: claim_eq fold_set_other)
qed (simp add: claim_get [OF assms])

lemma mark_evolves: "claimable d \<Longrightarrow> evolves d (markClaimed at d)"
  by (auto simp: evolves_def markClaimed_def claimable_def intro: dispatch_transition.intros)

lemma claim_step:
  assumes inv: "dispatch_inv gen s"
  shows "step_ok s (fst (claimPendingDispatches lc i s)) \<and>
         dispatch_inv gen (fst (claimPendingDispatches lc i s))"
proof -
  let ?s' = "fst (claimPendingDispatches lc i s)"
  have keys: "dispatch_keys_inv s" using inv by (simp add: dispatch_inv_def)
  have wf: "js_wf (dispatches ?s')"
    using keys by (simp add: claim_eq fold_set_wf dispatch_keys_inv_def)
  have ids: "d_dispatchId d' = k" if g: "js_get (dispatches ?s') k = Some d'" for k d'
  proof -
    from g claim_dom [OF keys, of lc i k] obtain d where d: "js_get (dispatches s) k = Some d" by auto
    with keys have "d_dispatchId d = k" by (simp add: dispatch_keys_inv_def)
    with g claim_get [OF keys d, of lc i] show ?thesis by (auto simp: markClaimed_def split: if_splits)
  qed
  have "dom (js_get (dispatches ?s')) = dom (js_get (dispatches s))"
    by (simp add: dom_def claim_dom [OF keys])
  moreover have "evolves d (if d \<in> set (claimTaken lc i s) then markClaimed (ci_claimedAt i) d else d)"
    for d using claimTaken_get [OF keys] mark_evolves by simp
  moreover have "runs_inv gen ?s'" using inv by (simp add: claim_eq dispatch_inv_def)
  ultimately show ?thesis
    using claim_get [OF keys] wf ids by (auto simp: step_ok_def dispatch_inv_def dispatch_keys_inv_def)
qed

lemma op_step:
  assumes gen: "fresh_ids gen" and inv: "dispatch_inv gen s"
  shows "step_ok s (runDispatchOp gen lc op s) \<and> dispatch_inv gen (runDispatchOp gen lc op s)"
proof (cases op)
  case OpClaim
  then show ?thesis using claim_step [OF inv] by simp
next
  case (OpReport r)
  then show ?thesis using records_step [OF records_report gen inv] by simp
qed

lemma keys_inv_set:
  "dispatch_keys_inv s \<Longrightarrow> d_dispatchId d = k \<Longrightarrow>
     dispatch_keys_inv (s\<lparr>dispatches := js_set k d (dispatches s)\<rparr>)"
  by (auto simp: dispatch_keys_inv_def split: if_splits)

lemma seed_fold_inv:
  "dispatch_keys_inv (s\<lparr>dispatches := m\<rparr>) \<Longrightarrow>
   dispatch_keys_inv (s\<lparr>dispatches :=
     fold (\<lambda>x m. js_set (sd_dispatchId x) (seedDispatch x) m) seeds m\<rparr>)"
proof (induction seeds arbitrary: m)
  case (Cons x seeds)
  have "d_dispatchId (seedDispatch x) = sd_dispatchId x" by (simp add: seedDispatch_def Let_def)
  from keys_inv_set [OF Cons.prems this] Cons.IH show ?case by simp
qed simp

lemma seed_keys_inv: "dispatch_keys_inv (newDispatchStore seeds)"
  using seed_fold_inv [of "[]" "newDispatchStore []" seeds]
  by (simp add: newDispatchStore_def dispatch_keys_inv_def)

lemma seed_inv: "dispatch_inv gen (newDispatchStore seeds)"
  by (simp add: dispatch_inv_def seed_keys_inv) (simp add: runs_inv_def newDispatchStore_def)

lemma runDispatchOps_simps [simp]:
  "runDispatchOps gen lc [] s = s"
  "runDispatchOps gen lc (op # ops) s = runDispatchOps gen lc ops (runDispatchOp gen lc op s)"
  by (simp_all add: runDispatchOps_def)

text \<open>The stores that operations reach from a constructed one.\<close>

inductive reachable_store ::
  "(nat \<Rightarrow> string) \<Rightarrow> (string \<Rightarrow> string \<Rightarrow> int) \<Rightarrow> dispatch_store \<Rightarrow> bool"
  for gen lc where
  constructed: "reachable_store gen lc (newDispatchStore seeds)"
| operated: "reachable_store gen lc s \<Longrightarrow> reachable_store gen lc (runDispatchOp gen lc op s)"

lemma reachable_inv: "reachable_store gen lc s \<Longrightarrow> fresh_ids gen \<Longrightarrow> dispatch_inv gen s"
  by (induction rule: reachable_store.induct) (simp_all add: seed_inv op_step)

text \<open>Over any number of operations a record either is unchanged or has a larger token.\<close>

definition outgrows :: "dispatch_record \<Rightarrow> dispatch_record \<Rightarrow> bool" where
  "outgrows d d' \<longleftrightarrow> d' = d \<or> d_versionToken d < d_versionToken d'"

definition settled :: "dispatch_record \<Rightarrow> bool" where
  "settled d \<longleftrightarrow> d_dispatchState d \<in> {disp_started, disp_duplicate, disp_failed_terminal}"

lemma settled_evolves: "settled d \<Longrightarrow> evolves d d' \<Longrightarrow> d' = d"
  by (auto simp: settled_def evolves_def)

lemma ops_outgrow:
  assumes gen: "fresh_ids gen"
  shows "dispatch_inv gen s \<Longrightarrow> js_get (dispatches s) k = Some d \<Longrightarrow>
    \<exists>d'. js_get (dispatches (runDispatchOps gen lc ops s)) k = Some d' \<and> outgrows d d' \<and>
         (settled d \<longrightarrow> d' = d)"
proof (induction ops arbitrary: s d)
  case Nil
  then show ?case by (simp add: outgrows_def)
next
  case (Cons x ops)
  let ?s1 = "runDispatchOp gen lc x s"
  from op_step [OF gen Cons.prems(1), of lc x] Cons.prems(2)
  obtain d1 where d1: "js_get (dispatches ?s1) k = Some d1" "evolves d d1" and i: "dispatch_inv gen ?s1"
    unfolding step_ok_def by blast
  from Cons.IH [OF i d1(1)] obtain d' where
    d': "js_get (dispatches (runDispatchOps gen lc ops ?s1)) k = Some d'" "outgrows d1 d'"
    "settled d1 \<longrightarrow> d' = d1" by blast
  have "settled d \<longrightarrow> d1 = d" using settled_evolves d1(2) by blast
  moreover have "outgrows d d'" using d1(2) d'(2) by (auto simp: outgrows_def evolves_def)
  ultimately show ?case using d' by auto
qed

section \<open>Properties\<close>

text \<open>C1. Every operation of the store, in every store that operations reach from a constructed one,
  moves each dispatch along the transition table of the state machine (pending or
  failed_retryable to starting, starting to started, duplicate, failed_retryable or
  failed_terminal) with its version token increased by exactly one, or leaves it alone; none
  is lost or created, and the business key never changes.\<close>

theorem dispatch_lifecycle:
  assumes "fresh_ids gen" and "reachable_store gen lc s"
  shows "dom (js_get (dispatches (runDispatchOp gen lc operation s))) = dom (js_get (dispatches s)) \<and>
    (\<forall>k d. js_get (dispatches s) k = Some d \<longrightarrow>
       (\<exists>d'. js_get (dispatches (runDispatchOp gen lc operation s)) k = Some d' \<and> evolves d d'))"
  using op_step [OF assms(1) reachable_inv [OF assms(2,1)]] by (simp add: step_ok_def)

definition exampleSeed :: "string \<Rightarrow> seed_dispatch" where
  "exampleSeed k =
     \<lparr>sd_assetVersionId = ''ver1'', sd_createdAt = None, sd_dispatchId = k,
      sd_dispatchReason = ''canonicalized'', sd_dispatchState = None, sd_firstAttemptAt = None,
      sd_lastAttemptAt = None, sd_lastFailureClass = None, sd_retrySummary = None,
      sd_updatedAt = None, sd_versionToken = None, sd_workflowKey = ''ns:ast1:ver1:t'',
      sd_workflowTemplateId = ''t''\<rparr>"

definition exampleGen :: "nat \<Rightarrow> string" where
  "exampleGen n = replicate (Suc n) (CHR ''w'')"

lemma fresh_exampleGen: "fresh_ids exampleGen"
  by (auto simp: fresh_ids_def exampleGen_def inj_def dest: arg_cong [of _ _ length])

definition exampleClaim :: claim_input where
  "exampleClaim = \<lparr>ci_claimedAt = 5, ci_limit = 25\<rparr>"

definition exampleStarted :: "int \<Rightarrow> started_input" where
  "exampleStarted tok =
     \<lparr>si_currentPhase = Some ''accepted'', si_dispatchId = ''d1'', si_expectedVersionToken = tok,
      si_startedAt = 7, si_workflowId = ''ns:ast1:ver1:t''\<rparr>"

text \<open>A store with one dispatch that has been claimed.\<close>

definition claimedStore :: dispatch_store where
  "claimedStore =
     runDispatchOp exampleGen (\<lambda>_ _. 0) (OpClaim exampleClaim)
       (newDispatchStore [exampleSeed ''d1''])"

lemma reachable_claimedStore: "reachable_store exampleGen (\<lambda>_ _. 0) claimedStore"
  unfolding claimedStore_def by (intro reachable_store.intros)

lemma claimedStore_eq:
  "claimedStore =
     \<lparr>dispatches = [(''d1'', markClaimed 5 (seedDispatch (exampleSeed ''d1'')))],
      workflowRunsById = [], workflowRunsByWorkflowId = [], idsDrawn = 0\<rparr>"
  by (simp add: claimedStore_def exampleClaim_def exampleSeed_def newDispatchStore_def
      seedDispatch_def Let_def claimPendingDispatches_def js_values_def claimable_def markClaimed_def)

theorem dispatch_lifecycle_witness:
  "\<exists>d'. js_get (dispatches (runDispatchOp exampleGen (\<lambda>_ _. 0) (OpReport (ReportStarted (exampleStarted 2)))
          claimedStore)) ''d1'' = Some d' \<and>
     evolves (markClaimed 5 (seedDispatch (exampleSeed ''d1''))) d'"
proof -
  have "js_get (dispatches claimedStore) ''d1'' = Some (markClaimed 5 (seedDispatch (exampleSeed ''d1'')))"
    by (simp add: claimedStore_eq)
  with dispatch_lifecycle [OF fresh_exampleGen reachable_claimedStore, of "OpReport (ReportStarted (exampleStarted 2))"]
  show ?thesis by blast
qed

text \<open>The version token is a sound optimistic lock: after any further operations a record
  whose token is still the one read before is the very record read before, and a dispatch
  that is started, duplicate or failed_terminal is never changed again.\<close>

theorem dispatch_token_detects_change:
  assumes "fresh_ids gen" and "reachable_store gen lc s"
    and "js_get (dispatches s) k = Some d"
  shows "\<exists>d'. js_get (dispatches (runDispatchOps gen lc ops s)) k = Some d' \<and>
          d_versionToken d \<le> d_versionToken d' \<and>
          (d_versionToken d' = d_versionToken d \<longrightarrow> d' = d) \<and> (settled d \<longrightarrow> d' = d)"
  using ops_outgrow [OF assms(1) reachable_inv [OF assms(2,1)] assms(3), of lc ops]
  by (auto simp: outgrows_def)

theorem dispatch_token_detects_change_witness:
  "\<exists>d'. js_get (dispatches (runDispatchOps exampleGen (\<lambda>_ _. 0) [OpReport (ReportStarted (exampleStarted 2))]
            claimedStore)) ''d1'' = Some d' \<and> d_versionToken d' \<ge> 2"
  using dispatch_token_detects_change [OF fresh_exampleGen reachable_claimedStore, of "''d1''"
      "markClaimed 5 (seedDispatch (exampleSeed ''d1''))" "[OpReport (ReportStarted (exampleStarted 2))]"]
  by (auto simp: claimedStore_eq markClaimed_def seedDispatch_def exampleSeed_def Let_def)

text \<open>The outcome of a report, on every branch, in every reachable store: an unknown dispatch, a
  stale token and a dispatch that is not starting are refused with the error of that case
  and the whole store is left as it was (the run projection included); otherwise the
  dispatch takes the reported state and its token grows by one. No report fails half way.\<close>

theorem report_outcome:
  assumes "fresh_ids gen" and "reachable_store gen lc s"
  shows "case runReport gen r s of
      (s', Inl e) \<Rightarrow> s' = s \<and> refuses (reportKey r) (reportToken r) (reportState r) s e
    | (s', Inr _) \<Rightarrow> settles (reportKey r) (reportToken r) (reportState r) s s'"
proof -
  have "runs_inv gen s" using reachable_inv [OF assms(2,1)] by (simp add: dispatch_inv_def)
  with records_report [of r gen, unfolded records_def]
  show ?thesis by (cases "runReport gen r s"; cases "snd (runReport gen r s)") force+
qed

theorem report_outcome_witness:
  "case runReport exampleGen (ReportStarted (exampleStarted 2)) claimedStore of
      (s', Inl e) \<Rightarrow> s' = claimedStore \<and>
        refuses (reportKey (ReportStarted (exampleStarted 2)))
          (reportToken (ReportStarted (exampleStarted 2)))
          (reportState (ReportStarted (exampleStarted 2))) claimedStore e
    | (s', Inr _) \<Rightarrow>
        settles (reportKey (ReportStarted (exampleStarted 2)))
          (reportToken (ReportStarted (exampleStarted 2)))
          (reportState (ReportStarted (exampleStarted 2))) claimedStore s'"
  by (rule report_outcome [OF fresh_exampleGen reachable_claimedStore])

text \<open>Two dispatchers that report an outcome for the same claim (the same dispatch and token):
  once one report is accepted, every later report with that token, of any kind, is rejected
  with a version conflict and leaves the store as it is.\<close>

theorem second_report_rejected:
  assumes "fresh_ids gen" and "reachable_store gen lc s"
    and "runReport gen r s = (s', Inr ())"
    and "reportKey r' = reportKey r" and "reportToken r' = reportToken r"
  shows "runReport gen r' s' =
           (s', Inl (WorkflowDispatchVersionConflictError (reportKey r) (reportToken r)))"
proof -
  have inv: "dispatch_inv gen s" by (rule reachable_inv [OF assms(2,1)])
  have s': "settles (reportKey r) (reportToken r) (reportState r) s s'" "runs_inv gen s'"
    using records_report [of r gen] inv assms(1,3) by (auto simp: records_def dispatch_inv_def dest!: spec [of _ s])
  from s'(1) have "getMutableDispatch (reportKey r) (reportToken r) s' =
      Inl (WorkflowDispatchVersionConflictError (reportKey r) (reportToken r))"
    by (auto simp: settles_def getMutableDispatch_def)
  with assms(4,5) show ?thesis
    by (cases r') (auto simp: recordStarted_def recordDuplicate_def recordFailure_def
        recordFailedRetryable_def recordFailedTerminal_def)
qed

theorem second_report_rejected_witness:
  "runReport exampleGen (ReportStarted (exampleStarted 2))
     (fst (runReport exampleGen (ReportStarted (exampleStarted 2)) claimedStore)) =
   (fst (runReport exampleGen (ReportStarted (exampleStarted 2)) claimedStore),
    Inl (WorkflowDispatchVersionConflictError ''d1'' 2))"
proof -
  have "runReport exampleGen (ReportStarted (exampleStarted 2)) claimedStore =
      (fst (runReport exampleGen (ReportStarted (exampleStarted 2)) claimedStore), Inr ())"
    by (simp add: claimedStore_eq exampleStarted_def recordStarted_def getMutableDispatch_def
        markClaimed_def seedDispatch_def exampleSeed_def Let_def upsertWorkflowRun_def startedRun_def)
  from second_report_rejected [OF fresh_exampleGen reachable_claimedStore this refl refl]
  show ?thesis by (simp add: exampleStarted_def)
qed

text \<open>A claim takes exactly the first \<open>limit\<close> claimable dispatches in the order of creation (ties
  by identifier), returns them marked starting with the attempt times and the next token,
  stores precisely what it returns, and leaves every other dispatch alone.\<close>

theorem claim_takes_oldest:
  assumes "fresh_ids gen" and "reachable_store gen lc s"
  shows "claimPendingDispatches lc i s = (s', claimed) \<Longrightarrow>
    claimed = map (\<lambda>d. cloneDispatchRecord (markClaimed (ci_claimedAt i) d))
      (take (nat (ci_limit i))
         (filter claimable (js_sort (dispatchOrder lc) (js_values (dispatches s))))) \<and>
    (\<forall>k d. js_get (dispatches s) k = Some d \<longrightarrow>
       js_get (dispatches s') k =
         Some (if d \<in> set (take (nat (ci_limit i))
                 (filter claimable (js_sort (dispatchOrder lc) (js_values (dispatches s)))))
               then markClaimed (ci_claimedAt i) d else d))"
  using claim_get [of s _ _ lc i] reachable_inv [OF assms(2,1)] claim_eq [of lc i s]
  unfolding claimTaken_def by (auto simp: dispatch_inv_def)

theorem claim_takes_oldest_witness:
  "snd (claimPendingDispatches (\<lambda>_ _. 0) exampleClaim (newDispatchStore [exampleSeed ''d1''])) =
     [cloneDispatchRecord (markClaimed 5 (seedDispatch (exampleSeed ''d1'')))]"
  using claim_takes_oldest [OF fresh_exampleGen
      reachable_store.constructed [of exampleGen "\<lambda>_ _. 0" "[exampleSeed ''d1'']"],
      of exampleClaim "fst (claimPendingDispatches (\<lambda>_ _. 0) exampleClaim (newDispatchStore [exampleSeed ''d1'']))"
         "snd (claimPendingDispatches (\<lambda>_ _. 0) exampleClaim (newDispatchStore [exampleSeed ''d1'']))"]
  by (simp add: exampleClaim_def newDispatchStore_def js_values_def claimable_def seedDispatch_def
      exampleSeed_def Let_def)

text \<open>In every reachable store a workflow identifier has at most one run record: repeated starts
  and duplicates of one business key converge on one projected run, which both maps of the
  store agree on.\<close>

theorem one_run_per_workflow:
  assumes "fresh_ids gen" and "reachable_store gen lc s"
    and "js_get (workflowRunsById s) a = Some r" and "js_get (workflowRunsById s) b = Some r'"
    and "r_workflowId r = r_workflowId r'"
  shows "a = b \<and> r_workflowRunId r = a \<and>
         js_get (workflowRunsByWorkflowId s) (r_workflowId r) = Some a"
proof -
  have inv: "runs_inv gen s" using reachable_inv [OF assms(2,1)] by (simp add: dispatch_inv_def)
  from runs_inv_byId [OF inv assms(3)] runs_inv_byId [OF inv assms(4)] assms(5) show ?thesis by simp
qed

definition startedStore :: dispatch_store where
  "startedStore =
     runDispatchOp exampleGen (\<lambda>_ _. 0) (OpReport (ReportStarted (exampleStarted 2))) claimedStore"

lemma reachable_startedStore: "reachable_store exampleGen (\<lambda>_ _. 0) startedStore"
  unfolding startedStore_def by (intro reachable_store.intros reachable_claimedStore)

lemma startedStore_run:
  "\<exists>r. js_get (workflowRunsById startedStore) ''w'' = Some r \<and> r_state r = run_queued"
  by (simp add: startedStore_def claimedStore_eq exampleStarted_def recordStarted_def
      getMutableDispatch_def markClaimed_def seedDispatch_def exampleSeed_def Let_def
      upsertWorkflowRun_def startedRun_def existingWorkflowRun_def exampleGen_def)

theorem one_run_per_workflow_witness:
  "\<exists>r. js_get (workflowRunsById startedStore) ''w'' = Some r \<and> r_workflowRunId r = ''w''"
  using startedStore_run one_run_per_workflow [OF fresh_exampleGen reachable_startedStore] by blast

end
