(* ===== verification/Dispatch_Runtime.thy ===== *)
theory Dispatch_Runtime
  imports Dispatch_Store
begin

text \<open>
  The dispatcher of \<open>packages/workflows/src\<close>: the template registry
  (\<open>workflow-registry.ts\<close>, \<open>workflow-templates.ts\<close>), the Temporal adapter
  (\<open>temporal-workflow-client.ts\<close>) and \<open>WorkflowDispatchRuntime.dispatchPending\<close>
  (\<open>dispatch-runtime.ts\<close>). The dispatcher is written against the interfaces
  \<open>WorkflowDispatchStore\<close> and \<open>WorkflowStartClient\<close>: here a record of operations over any
  store state \<open>'s\<close>, and a function over any client state \<open>'w\<close>. What the dispatcher relies on is
  the locale \<open>dispatch_store_contract\<close>, interpreted on the in-memory store. The clock is a
  sequence of readings.
\<close>

section \<open>Template registry\<close>

datatype compatibility_mode = pinned | auto_upgrade

record template =
  tp_compatibilityMode :: compatibility_mode
  tp_taskQueue :: string
  tp_workflowTemplateId :: string
  tp_workflowType :: string

definition defaultWorkflowTemplates :: "template list" where
  "defaultWorkflowTemplates =
     [\<lparr>tp_compatibilityMode = pinned, tp_taskQueue = ''asset-processing'',
       tp_workflowTemplateId = ''asset-derivation-v1'', tp_workflowType = ''assetDerivationWorkflow''\<rparr>,
      \<lparr>tp_compatibilityMode = pinned, tp_taskQueue = ''image-processing'',
       tp_workflowTemplateId = ''image-derivation-v1'', tp_workflowType = ''imageDerivationWorkflow''\<rparr>,
      \<lparr>tp_compatibilityMode = pinned, tp_taskQueue = ''media-processing'',
       tp_workflowTemplateId = ''media-derivation-v1'', tp_workflowType = ''mediaDerivationWorkflow''\<rparr>,
      \<lparr>tp_compatibilityMode = pinned, tp_taskQueue = ''presentation-processing'',
       tp_workflowTemplateId = ''presentation-normalization-v1'',
       tp_workflowType = ''presentationNormalizationWorkflow''\<rparr>]"

type_synonym template_registry = "(string, template) jsmap"

definition register :: "template \<Rightarrow> template_registry \<Rightarrow> template_registry" where
  "register t reg = js_set (tp_workflowTemplateId t) t reg"

definition newTemplateRegistry :: "template list \<Rightarrow> template_registry" where
  "newTemplateRegistry ts = fold register ts []"

definition listTemplates :: "template_registry \<Rightarrow> template list" where
  "listTemplates reg = js_values reg"

section \<open>Errors, requests, the client\<close>

text \<open>What a JavaScript \<open>catch\<close> may receive here: the errors of the two packages by class, any
  other \<open>Error\<close> by its name, or a thrown value that is no \<open>Error\<close>.\<close>

datatype start_error =
  WorkflowAlreadyStartedError string
| UnknownWorkflowTemplateError string
| StoreError dispatch_error
| OtherError string
| NonError

definition resolve :: "string \<Rightarrow> template_registry \<Rightarrow> start_error + template" where
  "resolve workflowTemplateId reg =
     (case js_get reg workflowTemplateId of
        None \<Rightarrow> Inl (UnknownWorkflowTemplateError workflowTemplateId)
      | Some t \<Rightarrow> Inr t)"

record execution_input =
  ei_assetVersionId :: string
  ei_dispatchId :: string
  ei_dispatchReason :: string
  ei_workflowKey :: string
  ei_workflowTemplateId :: string

record start_request =
  sr_args :: "execution_input list"
  sr_taskQueue :: string
  sr_workflowId :: string
  sr_workflowType :: string

type_synonym 'w start_client = "start_request \<Rightarrow> 'w \<Rightarrow> 'w \<times> (start_error + string)"

definition buildWorkflowInput :: "dispatch_record \<Rightarrow> execution_input" where
  "buildWorkflowInput d =
     \<lparr>ei_assetVersionId = d_assetVersionId d, ei_dispatchId = d_dispatchId d,
      ei_dispatchReason = d_dispatchReason d, ei_workflowKey = d_workflowKey d,
      ei_workflowTemplateId = d_workflowTemplateId d\<rparr>"

text \<open>The errors of the Temporal client: a duplicate start, or any other.\<close>

datatype temporal_error = WorkflowExecutionAlreadyStartedError | TemporalFailure start_error

definition temporalStartWorkflow ::
  "(string \<Rightarrow> execution_input list \<Rightarrow> string \<Rightarrow> string \<Rightarrow> 'w \<Rightarrow> 'w \<times> (temporal_error + string))
     \<Rightarrow> 'w start_client" where
  "temporalStartWorkflow start input w =
     (case start (sr_workflowType input) (sr_args input) (sr_taskQueue input)
             (sr_workflowId input) w of
        (w', Inr handleWorkflowId) \<Rightarrow> (w', Inr handleWorkflowId)
      | (w', Inl WorkflowExecutionAlreadyStartedError) \<Rightarrow>
          (w', Inl (WorkflowAlreadyStartedError (sr_workflowId input)))
      | (w', Inl (TemporalFailure e)) \<Rightarrow> (w', Inl e))"

section \<open>Failure classification\<close>

datatype failure_target = target_failed_retryable | target_failed_terminal

record failure_summary =
  fs_failureClass :: string
  fs_retrySummary :: "json_record option"
  fs_targetState :: failure_target

fun errorName :: "start_error \<Rightarrow> string" where
  "errorName (WorkflowAlreadyStartedError _) = ''WorkflowAlreadyStartedError''"
| "errorName (UnknownWorkflowTemplateError _) = ''UnknownWorkflowTemplateError''"
| "errorName (StoreError (WorkflowDispatchNotFoundError _)) = ''WorkflowDispatchNotFoundError''"
| "errorName (StoreError (WorkflowDispatchVersionConflictError _ _)) =
     ''WorkflowDispatchVersionConflictError''"
| "errorName (StoreError (WorkflowDispatchStateTransitionError _ _ _)) =
     ''WorkflowDispatchStateTransitionError''"
| "errorName (StoreError (WorkflowRunMissingError _)) = ''Error''"
| "errorName (OtherError name) = name"
| "errorName NonError = []"

fun defaultFailureClassifier :: "start_error \<Rightarrow> dispatch_record \<Rightarrow> failure_summary" where
  "defaultFailureClassifier (UnknownWorkflowTemplateError t) d =
     \<lparr>fs_failureClass = ''unknown-workflow-template'', fs_retrySummary = None,
      fs_targetState = target_failed_terminal\<rparr>"
| "defaultFailureClassifier NonError d =
     \<lparr>fs_failureClass = ''workflow-start-failed'', fs_retrySummary = None,
      fs_targetState = target_failed_retryable\<rparr>"
| "defaultFailureClassifier e d =
     \<lparr>fs_failureClass = (if errorName e = [] then ''workflow-start-failed'' else errorName e),
      fs_retrySummary = None, fs_targetState = target_failed_retryable\<rparr>"

section \<open>The runtime\<close>

record 's dispatch_store_api =
  api_claimPendingDispatches :: "claim_input \<Rightarrow> 's \<Rightarrow> ('s, dispatch_error, dispatch_record list) outcome"
  api_recordStarted :: "started_input \<Rightarrow> 's \<Rightarrow> ('s, dispatch_error, unit) outcome"
  api_recordDuplicate :: "duplicate_input \<Rightarrow> 's \<Rightarrow> ('s, dispatch_error, unit) outcome"
  api_recordFailedRetryable :: "failed_input \<Rightarrow> 's \<Rightarrow> ('s, dispatch_error, unit) outcome"
  api_recordFailedTerminal :: "failed_input \<Rightarrow> 's \<Rightarrow> ('s, dispatch_error, unit) outcome"

record ('s, 'w) dispatch_runtime =
  rt_store :: "'s dispatch_store_api"
  rt_workflowClient :: "'w start_client"
  rt_batchSize :: int
  rt_failureClassifier :: "start_error \<Rightarrow> dispatch_record \<Rightarrow> failure_summary"
  rt_now :: "nat \<Rightarrow> int"
  rt_templateRegistry :: template_registry

record ('s, 'w) dispatch_world =
  dw_store :: 's
  dw_client :: 'w
  dw_ticks :: nat

record dispatch_result =
  dr_claimedCount :: int
  dr_duplicateCount :: int
  dr_retryableFailureCount :: int
  dr_startedCount :: int
  dr_terminalFailureCount :: int

definition newDispatchRuntime ::
  "'s dispatch_store_api \<Rightarrow> 'w start_client \<Rightarrow> int option
     \<Rightarrow> (start_error \<Rightarrow> dispatch_record \<Rightarrow> failure_summary) option \<Rightarrow> (nat \<Rightarrow> int)
     \<Rightarrow> template_registry option \<Rightarrow> ('s, 'w) dispatch_runtime" where
  "newDispatchRuntime store client batchSize classifier clock reg =
     \<lparr>rt_store = store, rt_workflowClient = client, rt_batchSize = nullish batchSize 25,
      rt_failureClassifier = nullish classifier defaultFailureClassifier, rt_now = clock,
      rt_templateRegistry = nullish reg (newTemplateRegistry defaultWorkflowTemplates)\<rparr>"

text \<open>The body of the \<open>try\<close> up to the start: resolve the template and start the workflow under the
  dispatch's business key.\<close>

definition startDispatch ::
  "('s, 'w) dispatch_runtime \<Rightarrow> dispatch_record \<Rightarrow> 'w \<Rightarrow> 'w \<times> (start_error + string)" where
  "startDispatch rt d w =
     (case resolve (d_workflowTemplateId d) (rt_templateRegistry rt) of
        Inl e \<Rightarrow> (w, Inl e)
      | Inr t \<Rightarrow>
          rt_workflowClient rt
            \<lparr>sr_args = [buildWorkflowInput d], sr_taskQueue = tp_taskQueue t,
             sr_workflowId = d_workflowKey d, sr_workflowType = tp_workflowType t\<rparr> w)"

text \<open>The whole \<open>try\<close>: an error of \<open>recordStarted\<close> is caught like an error of the start.\<close>

definition tryStart ::
  "('s, 'w) dispatch_runtime \<Rightarrow> int \<Rightarrow> dispatch_record \<Rightarrow> ('s, 'w) dispatch_world
     \<Rightarrow> (('s, 'w) dispatch_world, start_error, unit) outcome" where
  "tryStart rt attemptedAt d world =
     (case startDispatch rt d (dw_client world) of
        (w', Inl e) \<Rightarrow> throw (world\<lparr>dw_client := w'\<rparr>) e
      | (w', Inr workflowId) \<Rightarrow>
          (case api_recordStarted (rt_store rt)
                  \<lparr>si_currentPhase = Some ''accepted'', si_dispatchId = d_dispatchId d,
                   si_expectedVersionToken = d_versionToken d, si_startedAt = attemptedAt,
                   si_workflowId = workflowId\<rparr> (dw_store world) of
             (s', Inl e) \<Rightarrow> throw (world\<lparr>dw_client := w', dw_store := s'\<rparr>) (StoreError e)
           | (s', Inr u) \<Rightarrow> ok (world\<lparr>dw_client := w', dw_store := s'\<rparr>) ()))"

text \<open>The \<open>catch\<close>: an error raised in it leaves \<open>dispatchPending\<close>.\<close>

definition recordStartFailure ::
  "('s, 'w) dispatch_runtime \<Rightarrow> int \<Rightarrow> dispatch_record \<Rightarrow> start_error \<Rightarrow> dispatch_result
     \<Rightarrow> ('s, 'w) dispatch_world \<Rightarrow> (('s, 'w) dispatch_world, dispatch_error, dispatch_result) outcome"
where
  "recordStartFailure rt attemptedAt d e result world =
     (case e of
        WorkflowAlreadyStartedError workflowId \<Rightarrow>
          (case api_recordDuplicate (rt_store rt)
                  \<lparr>du_currentPhase = Some ''already-running'', du_dispatchId = d_dispatchId d,
                   du_expectedVersionToken = d_versionToken d, du_observedAt = attemptedAt,
                   du_workflowId = workflowId, du_workflowRunState = Some run_running\<rparr>
                  (dw_store world) of
             (s', Inl x) \<Rightarrow> throw (world\<lparr>dw_store := s'\<rparr>) x
           | (s', Inr u) \<Rightarrow>
               ok (world\<lparr>dw_store := s'\<rparr>)
                 (result\<lparr>dr_duplicateCount := dr_duplicateCount result + 1\<rparr>))
      | _ \<Rightarrow>
          (let failure = rt_failureClassifier rt e d;
               failureInput =
                 \<lparr>fi_dispatchId = d_dispatchId d, fi_expectedVersionToken = d_versionToken d,
                  fi_failedAt = attemptedAt, fi_failureClass = fs_failureClass failure,
                  fi_retrySummary = fs_retrySummary failure\<rparr> in
           if fs_targetState failure = target_failed_terminal then
             (case api_recordFailedTerminal (rt_store rt) failureInput (dw_store world) of
                (s', Inl x) \<Rightarrow> throw (world\<lparr>dw_store := s'\<rparr>) x
              | (s', Inr u) \<Rightarrow>
                  ok (world\<lparr>dw_store := s'\<rparr>)
                    (result\<lparr>dr_terminalFailureCount := dr_terminalFailureCount result + 1\<rparr>))
           else
             (case api_recordFailedRetryable (rt_store rt) failureInput (dw_store world) of
                (s', Inl x) \<Rightarrow> throw (world\<lparr>dw_store := s'\<rparr>) x
              | (s', Inr u) \<Rightarrow>
                  ok (world\<lparr>dw_store := s'\<rparr>)
                    (result\<lparr>dr_retryableFailureCount := dr_retryableFailureCount result + 1\<rparr>))))"

fun dispatchEach ::
  "('s, 'w) dispatch_runtime \<Rightarrow> dispatch_record list \<Rightarrow> dispatch_result
     \<Rightarrow> ('s, 'w) dispatch_world \<Rightarrow> (('s, 'w) dispatch_world, dispatch_error, dispatch_result) outcome"
where
  "dispatchEach rt [] result world = ok world result"
| "dispatchEach rt (d # ds) result world =
     (let attemptedAt = rt_now rt (dw_ticks world);
          world1 = world\<lparr>dw_ticks := Suc (dw_ticks world)\<rparr> in
      case tryStart rt attemptedAt d world1 of
        (world2, Inr u) \<Rightarrow>
          dispatchEach rt ds (result\<lparr>dr_startedCount := dr_startedCount result + 1\<rparr>) world2
      | (world2, Inl e) \<Rightarrow>
          (case recordStartFailure rt attemptedAt d e result world2 of
             (world3, Inl x) \<Rightarrow> throw world3 x
           | (world3, Inr result') \<Rightarrow> dispatchEach rt ds result' world3))"

definition dispatchPending ::
  "('s, 'w) dispatch_runtime \<Rightarrow> int option \<Rightarrow> ('s, 'w) dispatch_world
     \<Rightarrow> (('s, 'w) dispatch_world, dispatch_error, dispatch_result) outcome" where
  "dispatchPending rt limit world =
     (let claimedAt = rt_now rt (dw_ticks world);
          world1 = world\<lparr>dw_ticks := Suc (dw_ticks world)\<rparr> in
      case api_claimPendingDispatches (rt_store rt)
             \<lparr>ci_claimedAt = claimedAt, ci_limit = nullish limit (rt_batchSize rt)\<rparr>
             (dw_store world1) of
        (s', Inl x) \<Rightarrow> throw (world1\<lparr>dw_store := s'\<rparr>) x
      | (s', Inr claimed) \<Rightarrow>
          dispatchEach rt claimed
            \<lparr>dr_claimedCount = int (length claimed), dr_duplicateCount = 0,
             dr_retryableFailureCount = 0, dr_startedCount = 0, dr_terminalFailureCount = 0\<rparr>
            (world1\<lparr>dw_store := s'\<rparr>))"

text \<open>The in-memory store behind the interface.\<close>

definition inMemoryDispatchApi ::
  "(nat \<Rightarrow> string) \<Rightarrow> (string \<Rightarrow> string \<Rightarrow> int) \<Rightarrow> dispatch_store dispatch_store_api" where
  "inMemoryDispatchApi gen lc =
     \<lparr>api_claimPendingDispatches =
        (\<lambda>i s. case claimPendingDispatches lc i s of (s', ds) \<Rightarrow> (s', Inr ds)),
      api_recordStarted = recordStarted gen,
      api_recordDuplicate = recordDuplicate gen,
      api_recordFailedRetryable = recordFailedRetryable,
      api_recordFailedTerminal = recordFailedTerminal\<rparr>"

section \<open>The contract of a dispatch store\<close>

text \<open>
  What a dispatch does to the store, without the store: the client is asked for each claimed
  dispatch in turn, and its answer decides the state the dispatch is to take.
\<close>

fun plannedState ::
  "('s, 'w) dispatch_runtime \<Rightarrow> dispatch_record \<Rightarrow> (start_error + string) \<Rightarrow> dispatch_state" where
  "plannedState rt d (Inr _) = disp_started"
| "plannedState rt d (Inl (WorkflowAlreadyStartedError _)) = disp_duplicate"
| "plannedState rt d (Inl e) =
     (if fs_targetState (rt_failureClassifier rt e d) = target_failed_terminal
      then disp_failed_terminal else disp_failed_retryable)"

fun dispatchPlan ::
  "('s, 'w) dispatch_runtime \<Rightarrow> dispatch_record list \<Rightarrow> 'w
     \<Rightarrow> 'w \<times> (dispatch_record \<times> dispatch_state) list" where
  "dispatchPlan rt [] w = (w, [])"
| "dispatchPlan rt (d # ds) w =
     (let (w1, answer) = startDispatch rt d w;
          (w2, rest) = dispatchPlan rt ds w1 in
      (w2, (d, plannedState rt d answer) # rest))"

type_synonym dispatch_view = "string \<Rightarrow> (dispatch_state \<times> int) option"

fun applyPlan :: "(dispatch_record \<times> dispatch_state) list \<Rightarrow> dispatch_view \<Rightarrow> dispatch_view" where
  "applyPlan [] v = v"
| "applyPlan ((d, t) # p) v = applyPlan p (v(d_dispatchId d \<mapsto> (t, d_versionToken d + 1)))"

definition tally :: "dispatch_state \<Rightarrow> (dispatch_record \<times> dispatch_state) list \<Rightarrow> int" where
  "tally t p = int (length (filter (\<lambda>x. snd x = t) p))"

definition addPlan ::
  "(dispatch_record \<times> dispatch_state) list \<Rightarrow> dispatch_result \<Rightarrow> dispatch_result" where
  "addPlan p r =
     \<lparr>dr_claimedCount = dr_claimedCount r,
      dr_duplicateCount = dr_duplicateCount r + tally disp_duplicate p,
      dr_retryableFailureCount = dr_retryableFailureCount r + tally disp_failed_retryable p,
      dr_startedCount = dr_startedCount r + tally disp_started p,
      dr_terminalFailureCount = dr_terminalFailureCount r + tally disp_failed_terminal p\<rparr>"

lemma tally_simps [simp]:
  "tally t [] = 0"
  "tally t (x # p) = (if snd x = t then 1 + tally t p else tally t p)"
  by (simp_all add: tally_def)

lemma plannedState_outcome: "outcome_of (plannedState rt d a)"
  by (cases "(rt, d, a)" rule: plannedState.cases) auto

lemma plan_outcomes: "x \<in> set (snd (dispatchPlan rt ds w)) \<Longrightarrow> outcome_of (snd x) \<and> fst x \<in> set ds"
  by (induction rt ds w rule: dispatchPlan.induct)
     (auto simp: plannedState_outcome Let_def split: prod.splits)

lemma plan_fst [simp]: "map fst (snd (dispatchPlan rt ds w)) = ds"
  by (induction rt ds w rule: dispatchPlan.induct) (auto simp: Let_def split: prod.splits)

lemma tally_total:
  "(\<And>x. x \<in> set p \<Longrightarrow> outcome_of (snd x)) \<Longrightarrow>
     tally disp_started p + tally disp_duplicate p + tally disp_failed_retryable p +
     tally disp_failed_terminal p = int (length p)"
proof (induction p)
  case (Cons x p)
  then have "outcome_of (snd x)" by simp
  with Cons show ?case by (cases "snd x") auto
qed simp

lemma applyPlan_other: "k \<notin> (d_dispatchId \<circ> fst) ` set p \<Longrightarrow> applyPlan p v k = v k"
  by (induction p v rule: applyPlan.induct) auto

lemma applyPlan_starting:
  "(\<And>x. x \<in> set p \<Longrightarrow> outcome_of (snd x)) \<Longrightarrow> applyPlan p v k = Some (disp_starting, n) \<Longrightarrow>
     k \<notin> (d_dispatchId \<circ> fst) ` set p"
proof (induction p v rule: applyPlan.induct)
  case (2 d t p v)
  have ap: "applyPlan p (v(d_dispatchId d \<mapsto> (t, d_versionToken d + 1))) k = Some (disp_starting, n)"
    using "2.prems"(2) by (simp only: applyPlan.simps)
  have k: "k \<notin> (d_dispatchId \<circ> fst) ` set p"
    by (rule "2.IH" [OF _ ap]) (use "2.prems"(1) in simp)
  moreover have "k \<noteq> d_dispatchId d"
    using "2.prems" applyPlan_other [OF k] by fastforce
  ultimately show ?case by auto
qed simp

text \<open>
  What \<open>dispatchPending\<close> relies on: a claim hands out distinct dispatches that are starting
  under the returned token and touches no other; a report on a starting dispatch with its
  token is accepted, and moves that dispatch only.
\<close>

locale dispatch_store_contract =
  fixes api :: "'s dispatch_store_api"
    and inv :: "'s \<Rightarrow> bool"
    and view :: "'s \<Rightarrow> dispatch_view"
  assumes claim_law:
    "inv s \<Longrightarrow> \<exists>s' ds. api_claimPendingDispatches api c s = (s', Inr ds) \<and> inv s' \<and>
       distinct (map d_dispatchId ds) \<and>
       (\<forall>d \<in> set ds. view s' (d_dispatchId d) = Some (disp_starting, d_versionToken d)) \<and>
       (\<forall>k. k \<notin> d_dispatchId ` set ds \<longrightarrow> view s' k = view s k)"
    and started_law:
    "inv s \<Longrightarrow> view s (si_dispatchId i) = Some (disp_starting, si_expectedVersionToken i) \<Longrightarrow>
       \<exists>s'. api_recordStarted api i s = (s', Inr ()) \<and> inv s' \<and>
         view s' = (view s)(si_dispatchId i \<mapsto> (disp_started, si_expectedVersionToken i + 1))"
    and duplicate_law:
    "inv s \<Longrightarrow> view s (du_dispatchId j) = Some (disp_starting, du_expectedVersionToken j) \<Longrightarrow>
       \<exists>s'. api_recordDuplicate api j s = (s', Inr ()) \<and> inv s' \<and>
         view s' = (view s)(du_dispatchId j \<mapsto> (disp_duplicate, du_expectedVersionToken j + 1))"
    and retryable_law:
    "inv s \<Longrightarrow> view s (fi_dispatchId f) = Some (disp_starting, fi_expectedVersionToken f) \<Longrightarrow>
       \<exists>s'. api_recordFailedRetryable api f s = (s', Inr ()) \<and> inv s' \<and>
         view s' = (view s)(fi_dispatchId f \<mapsto> (disp_failed_retryable, fi_expectedVersionToken f + 1))"
    and terminal_law:
    "inv s \<Longrightarrow> view s (fi_dispatchId f) = Some (disp_starting, fi_expectedVersionToken f) \<Longrightarrow>
       \<exists>s'. api_recordFailedTerminal api f s = (s', Inr ()) \<and> inv s' \<and>
         view s' = (view s)(fi_dispatchId f \<mapsto> (disp_failed_terminal, fi_expectedVersionToken f + 1))"
begin

lemma failure_step:
  assumes "rt_store rt = api" "inv (dw_store world)"
    and "view (dw_store world) (d_dispatchId d) = Some (disp_starting, d_versionToken d)"
  shows "\<exists>s'. recordStartFailure rt at d e r world =
           (world\<lparr>dw_store := s'\<rparr>, Inr (addPlan [(d, plannedState rt d (Inl e))] r)) \<and> inv s' \<and>
         view s' = applyPlan [(d, plannedState rt d (Inl e))] (view (dw_store world))"
proof (cases "\<exists>w. e = WorkflowAlreadyStartedError w")
  case True
  then obtain w where "e = WorkflowAlreadyStartedError w" by blast
  then show ?thesis
    using duplicate_law [OF assms(2), of "\<lparr>du_currentPhase = Some ''already-running'',
        du_dispatchId = d_dispatchId d, du_expectedVersionToken = d_versionToken d,
        du_observedAt = at, du_workflowId = w, du_workflowRunState = Some run_running\<rparr>"] assms
    by (auto simp: recordStartFailure_def addPlan_def)
next
  case False
  let ?f = "rt_failureClassifier rt e d"
  let ?i = "\<lparr>fi_dispatchId = d_dispatchId d, fi_expectedVersionToken = d_versionToken d,
     fi_failedAt = at, fi_failureClass = fs_failureClass ?f, fi_retrySummary = fs_retrySummary ?f\<rparr>"
  from terminal_law [OF assms(2), of ?i] retryable_law [OF assms(2), of ?i] assms False
  show ?thesis
    by (cases e) (auto simp: recordStartFailure_def addPlan_def Let_def)
qed

lemma dispatchEach_plan:
  assumes "rt_store rt = api"
  shows "inv (dw_store world) \<Longrightarrow> distinct (map d_dispatchId ds) \<Longrightarrow>
    (\<And>d. d \<in> set ds \<Longrightarrow>
       view (dw_store world) (d_dispatchId d) = Some (disp_starting, d_versionToken d)) \<Longrightarrow>
    \<exists>world'. dispatchEach rt ds r world =
        (world', Inr (addPlan (snd (dispatchPlan rt ds (dw_client world))) r)) \<and>
      inv (dw_store world') \<and> dw_client world' = fst (dispatchPlan rt ds (dw_client world)) \<and>
      view (dw_store world') =
        applyPlan (snd (dispatchPlan rt ds (dw_client world))) (view (dw_store world))"
proof (induction ds arbitrary: r world)
  case Nil
  then show ?case by (simp add: addPlan_def)
next
  case (Cons d ds)
  let ?at = "rt_now rt (dw_ticks world)"
  let ?w1 = "world\<lparr>dw_ticks := Suc (dw_ticks world)\<rparr>"
  obtain c a where start: "startDispatch rt d (dw_client world) = (c, a)" by force
  let ?p = "[(d, plannedState rt d a)]"
  have d: "view (dw_store world) (d_dispatchId d) = Some (disp_starting, d_versionToken d)"
    using Cons.prems(3) by simp
  have "\<exists>w2. inv (dw_store w2) \<and> dw_client w2 = c \<and>
      view (dw_store w2) = applyPlan ?p (view (dw_store world)) \<and>
      dispatchEach rt (d # ds) r world = dispatchEach rt ds (addPlan ?p r) w2"
  proof (cases a)
    case (Inr wid)
    with started_law [OF Cons.prems(1), of "\<lparr>si_currentPhase = Some ''accepted'',
        si_dispatchId = d_dispatchId d, si_expectedVersionToken = d_versionToken d,
        si_startedAt = ?at, si_workflowId = wid\<rparr>"] d start assms
    obtain s' where "inv s'" "view s' = applyPlan ?p (view (dw_store world))"
      "tryStart rt ?at d ?w1 = (?w1\<lparr>dw_client := c, dw_store := s'\<rparr>, Inr ())"
      by (auto simp: tryStart_def)
    then show ?thesis using Inr
      by (intro exI [of _ "?w1\<lparr>dw_client := c, dw_store := s'\<rparr>"], cases r)
         (simp add: addPlan_def Let_def)
  next
    case (Inl e)
    then have t: "tryStart rt ?at d ?w1 = (?w1\<lparr>dw_client := c\<rparr>, Inl e)"
      using start by (simp add: tryStart_def)
    have "view (dw_store (?w1\<lparr>dw_client := c\<rparr>)) (d_dispatchId d) = Some (disp_starting, d_versionToken d)"
      using d by simp
    from failure_step [OF assms _ this, of ?at e r] Cons.prems(1) Inl
    obtain s' where "inv s'" "view s' = applyPlan ?p (view (dw_store world))"
      "recordStartFailure rt ?at d e r (?w1\<lparr>dw_client := c\<rparr>) =
         (?w1\<lparr>dw_client := c, dw_store := s'\<rparr>, Inr (addPlan ?p r))"
      by auto
    with t show ?thesis
      by (intro exI [of _ "?w1\<lparr>dw_client := c, dw_store := s'\<rparr>"]) (simp add: Let_def)
  qed
  then obtain w2 where w2: "inv (dw_store w2)" "dw_client w2 = c"
    "view (dw_store w2) = applyPlan ?p (view (dw_store world))"
    "dispatchEach rt (d # ds) r world = dispatchEach rt ds (addPlan ?p r) w2" by blast
  have "view (dw_store w2) (d_dispatchId x) = Some (disp_starting, d_versionToken x)"
    if "x \<in> set ds" for x
  proof -
    have "d_dispatchId x \<noteq> d_dispatchId d" using that Cons.prems(2) by (auto simp: image_iff)
    then show ?thesis using that Cons.prems(3) w2(3) by simp
  qed
  with Cons.IH [of w2 "addPlan ?p r"] w2 Cons.prems(2) start show ?case
    by (fastforce simp: addPlan_def Let_def split: prod.splits)
qed

lemma dispatchPending_plan:
  assumes "rt_store rt = api" "inv (dw_store world)"
  shows "\<exists>s1 ds world' plan.
    api_claimPendingDispatches api
      \<lparr>ci_claimedAt = rt_now rt (dw_ticks world), ci_limit = nullish limit (rt_batchSize rt)\<rparr>
      (dw_store world) = (s1, Inr ds) \<and>
    dispatchPlan rt ds (dw_client world) = (dw_client world', plan) \<and>
    dispatchPending rt limit world =
      (world', Inr (addPlan plan \<lparr>dr_claimedCount = int (length ds), dr_duplicateCount = 0,
         dr_retryableFailureCount = 0, dr_startedCount = 0, dr_terminalFailureCount = 0\<rparr>)) \<and>
    inv (dw_store world') \<and> view (dw_store world') = applyPlan plan (view s1) \<and>
    (\<forall>k. k \<notin> d_dispatchId ` set ds \<longrightarrow> view s1 k = view (dw_store world) k)"
proof -
  let ?c = "\<lparr>ci_claimedAt = rt_now rt (dw_ticks world), ci_limit = nullish limit (rt_batchSize rt)\<rparr>"
  from claim_law [OF assms(2), of ?c] obtain s1 ds where
    s1: "api_claimPendingDispatches api ?c (dw_store world) = (s1, Inr ds)" "inv s1"
      "distinct (map d_dispatchId ds)"
      "\<forall>d \<in> set ds. view s1 (d_dispatchId d) = Some (disp_starting, d_versionToken d)"
      "\<forall>k. k \<notin> d_dispatchId ` set ds \<longrightarrow> view s1 k = view (dw_store world) k" by blast
  let ?w1 = "world\<lparr>dw_ticks := Suc (dw_ticks world), dw_store := s1\<rparr>"
  from dispatchEach_plan [OF assms(1), of ?w1 ds] s1 show ?thesis
    by (cases "dispatchPlan rt ds (dw_client world)")
       (auto simp: dispatchPending_def assms(1) Let_def)
qed

end

text \<open>The in-memory store meets the contract.\<close>

definition storeView :: "dispatch_store \<Rightarrow> dispatch_view" where
  "storeView s k = map_option (\<lambda>d. (d_dispatchState d, d_versionToken d)) (js_get (dispatches s) k)"

lemma report_law:
  assumes "records k tok t f gen" "fresh_ids gen" "dispatch_inv gen s"
    and "storeView s k = Some (disp_starting, tok)"
  shows "\<exists>s'. f s = (s', Inr ()) \<and> dispatch_inv gen s' \<and>
           storeView s' = (storeView s)(k \<mapsto> (t, tok + 1))"
proof -
  have "runs_inv gen s" using assms(3) by (simp add: dispatch_inv_def)
  with assms(1) have spec: "case f s of (s', Inl e) \<Rightarrow> s' = s \<and> refuses k tok t s e
      | (s', Inr _) \<Rightarrow> settles k tok t s s' \<and> (fresh_ids gen \<longrightarrow> runs_inv gen s')"
    by (simp add: records_def)
  from assms(4) obtain d where "js_get (dispatches s) k = Some d" "d_versionToken d = tok"
    "d_dispatchState d = disp_starting" by (auto simp: storeView_def)
  then have "\<not> refuses k tok t s e" for e by (simp add: refuses_def)
  with spec obtain s' where s': "f s = (s', Inr ())" "settles k tok t s s'"
    by (cases "f s"; cases "snd (f s)") auto
  have "dispatch_inv gen s'" using records_step [OF assms(1,2,3)] s'(1) by simp
  moreover have "storeView s' = (storeView s)(k \<mapsto> (t, tok + 1))"
    using s'(2) by (auto simp: settles_def storeView_def fun_eq_iff)
  ultimately show ?thesis using s'(1) by blast
qed

lemma claim_contract:
  assumes inv: "dispatch_inv gen s"
  shows "\<exists>s' ds. claimPendingDispatches lc c s = (s', ds) \<and> dispatch_inv gen s' \<and>
    distinct (map d_dispatchId ds) \<and>
    (\<forall>d \<in> set ds. storeView s' (d_dispatchId d) = Some (disp_starting, d_versionToken d)) \<and>
    (\<forall>k. k \<notin> d_dispatchId ` set ds \<longrightarrow> storeView s' k = storeView s k)"
proof -
  have keys: "dispatch_keys_inv s" using inv by (simp add: dispatch_inv_def)
  let ?s' = "fst (claimPendingDispatches lc c s)" and ?ds = "snd (claimPendingDispatches lc c s)"
  have ds: "?ds = map (\<lambda>d. cloneDispatchRecord (markClaimed (ci_claimedAt c) d)) (claimTaken lc c s)"
    by (simp add: claim_eq)
  have id: "d_dispatchId (cloneDispatchRecord (markClaimed a d)) = d_dispatchId d" for a d
    by (simp add: cloneDispatchRecord_def markClaimed_def)
  have "distinct (map d_dispatchId ?ds)"
    using claimTaken_distinct [OF keys, of lc c] by (simp add: ds id comp_def)
  moreover have "storeView ?s' (d_dispatchId d) = Some (disp_starting, d_versionToken d)"
    if "d \<in> set ?ds" for d
  proof -
    from that ds obtain x where x: "x \<in> set (claimTaken lc c s)"
      "d = cloneDispatchRecord (markClaimed (ci_claimedAt c) x)" by auto
    with claim_get [OF keys, of "d_dispatchId x" x lc c] claimTaken_get [OF keys x(1)] show ?thesis
      by (simp add: storeView_def id) (simp add: cloneDispatchRecord_def markClaimed_def)
  qed
  moreover have "storeView ?s' k = storeView s k" if "k \<notin> d_dispatchId ` set ?ds" for k
  proof -
    have "k \<notin> d_dispatchId ` set (claimTaken lc c s)" using that by (simp add: ds image_image id)
    then show ?thesis by (simp add: storeView_def claim_eq fold_set_other)
  qed
  moreover have "dispatch_inv gen ?s'" using claim_step [OF inv] by simp
  ultimately show ?thesis by (metis prod.collapse)
qed

text \<open>The identifier source must not repeat itself; the invariant of the interpretation says so.\<close>

definition inMemoryInv :: "(nat \<Rightarrow> string) \<Rightarrow> dispatch_store \<Rightarrow> bool" where
  "inMemoryInv gen s \<longleftrightarrow> fresh_ids gen \<and> dispatch_inv gen s"

lemma report_inv:
  assumes "records k tok t f gen" "inMemoryInv gen s" "storeView s k = Some (disp_starting, tok)"
  shows "\<exists>s'. f s = (s', Inr ()) \<and> inMemoryInv gen s' \<and> storeView s' = (storeView s)(k \<mapsto> (t, tok + 1))"
  using report_law [OF assms(1) _ _ assms(3)] assms(2) by (auto simp: inMemoryInv_def)

lemma claim_inv:
  assumes "inMemoryInv gen s"
  shows "\<exists>s' ds. claimPendingDispatches lc c s = (s', ds) \<and> inMemoryInv gen s' \<and>
    distinct (map d_dispatchId ds) \<and>
    (\<forall>d \<in> set ds. storeView s' (d_dispatchId d) = Some (disp_starting, d_versionToken d)) \<and>
    (\<forall>k. k \<notin> d_dispatchId ` set ds \<longrightarrow> storeView s' k = storeView s k)"
  using claim_contract [of gen s lc c] assms by (auto simp: inMemoryInv_def)

interpretation im: dispatch_store_contract
  "inMemoryDispatchApi gen lc" "inMemoryInv gen" storeView for gen lc
proof
  fix s c assume "inMemoryInv gen s"
  from claim_inv [OF this, of lc c]
  show "\<exists>s' ds. api_claimPendingDispatches (inMemoryDispatchApi gen lc) c s = (s', Inr ds) \<and>
      inMemoryInv gen s' \<and> distinct (map d_dispatchId ds) \<and>
      (\<forall>d \<in> set ds. storeView s' (d_dispatchId d) = Some (disp_starting, d_versionToken d)) \<and>
      (\<forall>k. k \<notin> d_dispatchId ` set ds \<longrightarrow> storeView s' k = storeView s k)"
    by (auto simp: inMemoryDispatchApi_def)
qed (use report_inv [OF records_started] report_inv [OF records_duplicate]
       report_inv [OF records_failed_retryable] report_inv [OF records_failed_terminal]
     in \<open>simp_all add: inMemoryDispatchApi_def recordFailedRetryable_def recordFailedTerminal_def\<close>)

section \<open>Properties\<close>

text \<open>C5. One run of the dispatcher over the in-memory store never throws, accounts for every claimed
  dispatch exactly once (started, duplicate, retryable or terminal failure), and leaves no
  dispatch starting that was not starting before: whatever the client answers or throws,
  every dispatch it claimed is settled.\<close>

theorem dispatch_run_settles_all:
  assumes "fresh_ids gen" and "reachable_store gen lc (dw_store world)"
    and "rt_store rt = inMemoryDispatchApi gen lc"
  shows "\<exists>world' r. dispatchPending rt limit world = (world', Inr r) \<and>
    dr_claimedCount r = dr_startedCount r + dr_duplicateCount r + dr_retryableFailureCount r +
      dr_terminalFailureCount r \<and>
    (\<forall>k n. storeView (dw_store world') k = Some (disp_starting, n) \<longrightarrow>
       storeView (dw_store world) k = Some (disp_starting, n))"
proof -
  have inv: "inMemoryInv gen (dw_store world)"
    using assms reachable_inv by (auto simp: inMemoryInv_def)
  from im.dispatchPending_plan [OF assms(3) inv, of limit] obtain s1 ds world' plan where
    plan: "dispatchPlan rt ds (dw_client world) = (dw_client world', plan)"
      "dispatchPending rt limit world = (world', Inr (addPlan plan
         \<lparr>dr_claimedCount = int (length ds), dr_duplicateCount = 0,
          dr_retryableFailureCount = 0, dr_startedCount = 0, dr_terminalFailureCount = 0\<rparr>))"
      "storeView (dw_store world') = applyPlan plan (storeView s1)"
      "\<forall>k. k \<notin> d_dispatchId ` set ds \<longrightarrow> storeView s1 k = storeView (dw_store world) k"
    by blast
  have out: "outcome_of (snd x)" if "x \<in> set plan" for x
    using plan_outcomes [of x rt ds "dw_client world"] plan(1) that by simp
  have ds: "map fst plan = ds" using plan_fst [of rt ds "dw_client world"] plan(1) by simp
  have ids: "(d_dispatchId \<circ> fst) ` set plan = d_dispatchId ` set ds"
    by (simp add: ds [symmetric] image_image comp_def)
  have "storeView (dw_store world) k = Some (disp_starting, n)"
    if "storeView (dw_store world') k = Some (disp_starting, n)" for k n
  proof -
    from applyPlan_starting [OF out, of plan "storeView s1" k n] that plan(3)
    have "k \<notin> (d_dispatchId \<circ> fst) ` set plan" by simp
    with applyPlan_other [OF this, of "storeView s1"] that plan(3,4) ids show ?thesis by simp
  qed
  moreover have "int (length ds) = int (length plan)" by (simp add: ds [symmetric])
  ultimately show ?thesis using plan(2) tally_total [OF out] by (fastforce simp: addPlan_def)
qed

definition exampleRuntime :: "(dispatch_store, nat) dispatch_runtime" where
  "exampleRuntime =
     newDispatchRuntime (inMemoryDispatchApi exampleGen (\<lambda>_ _. 0))
       (\<lambda>request w. (Suc w, if w = 0 then Inr (sr_workflowId request)
                            else Inl (WorkflowAlreadyStartedError (sr_workflowId request))))
       None None (\<lambda>n. 100 + int n)
       (Some (newTemplateRegistry
         [\<lparr>tp_compatibilityMode = pinned, tp_taskQueue = ''q'', tp_workflowTemplateId = ''t'',
           tp_workflowType = ''w''\<rparr>]))"

definition exampleWorld :: "(dispatch_store, nat) dispatch_world" where
  "exampleWorld =
     \<lparr>dw_store = newDispatchStore [exampleSeed ''d1'', exampleSeed ''d2''], dw_client = 0, dw_ticks = 0\<rparr>"

lemma exampleWorld_reachable: "reachable_store exampleGen (\<lambda>_ _. 0) (dw_store exampleWorld)"
  by (simp add: exampleWorld_def reachable_store.constructed)

lemma exampleRuntime_store: "rt_store exampleRuntime = inMemoryDispatchApi exampleGen (\<lambda>_ _. 0)"
  by (simp add: exampleRuntime_def newDispatchRuntime_def)

theorem dispatch_run_settles_all_witness:
  "\<exists>world' r. dispatchPending exampleRuntime None exampleWorld = (world', Inr r) \<and>
    dr_claimedCount r = dr_startedCount r + dr_duplicateCount r + dr_retryableFailureCount r +
      dr_terminalFailureCount r"
  using dispatch_run_settles_all [OF fresh_exampleGen exampleWorld_reachable exampleRuntime_store, of None]
  by blast

lemma applyPlan_at:
  "distinct (map (d_dispatchId \<circ> fst) p) \<Longrightarrow> (d, t) \<in> set p \<Longrightarrow>
     applyPlan p v (d_dispatchId d) = Some (t, d_versionToken d + 1)"
proof (induction p v rule: applyPlan.induct)
  case (2 d0 t0 p v)
  show ?case
  proof (cases "(d, t) = (d0, t0)")
    case True
    with "2.prems"(1) have "d_dispatchId d \<notin> (d_dispatchId \<circ> fst) ` set p" by auto
    with True show ?thesis by (simp add: applyPlan_other)
  next
    case False
    then have "distinct (map (d_dispatchId \<circ> fst) p)" "(d, t) \<in> set p"
      using "2.prems" by (auto simp: comp_def)
    from "2.IH" [OF this] show ?thesis by (simp only: applyPlan.simps)
  qed
qed simp

text \<open>C4. The dispatcher refines its plan: in a run over the in-memory store, each claimed dispatch
  ends in the state that the answer of the start client to its own request decides (started
  on success, duplicate on an already started workflow, failed_terminal or failed_retryable
  as the classifier says), with the next token, and the counters of the result are the
  numbers of these states.\<close>

theorem dispatch_run_refines_plan:
  assumes "fresh_ids gen" and "reachable_store gen lc (dw_store world)"
    and "rt_store rt = inMemoryDispatchApi gen lc"
  shows "\<exists>world' r. dispatchPending rt limit world = (world', Inr r) \<and>
    (let ds = snd (claimPendingDispatches lc
           \<lparr>ci_claimedAt = rt_now rt (dw_ticks world), ci_limit = nullish limit (rt_batchSize rt)\<rparr>
           (dw_store world));
         plan = snd (dispatchPlan rt ds (dw_client world)) in
     map fst plan = ds \<and>
     dw_client world' = fst (dispatchPlan rt ds (dw_client world)) \<and>
     (\<forall>x \<in> set plan. storeView (dw_store world') (d_dispatchId (fst x)) =
        Some (snd x, d_versionToken (fst x) + 1)) \<and>
     r = \<lparr>dr_claimedCount = int (length ds), dr_duplicateCount = tally disp_duplicate plan,
          dr_retryableFailureCount = tally disp_failed_retryable plan,
          dr_startedCount = tally disp_started plan,
          dr_terminalFailureCount = tally disp_failed_terminal plan\<rparr>)"
proof -
  let ?c = "\<lparr>ci_claimedAt = rt_now rt (dw_ticks world), ci_limit = nullish limit (rt_batchSize rt)\<rparr>"
  have inv: "inMemoryInv gen (dw_store world)"
    using assms reachable_inv by (auto simp: inMemoryInv_def)
  from im.dispatchPending_plan [OF assms(3) inv, of limit] obtain s1 ds world' plan where
    plan: "api_claimPendingDispatches (inMemoryDispatchApi gen lc) ?c (dw_store world) = (s1, Inr ds)"
      "dispatchPlan rt ds (dw_client world) = (dw_client world', plan)"
      "dispatchPending rt limit world = (world', Inr (addPlan plan
         \<lparr>dr_claimedCount = int (length ds), dr_duplicateCount = 0,
          dr_retryableFailureCount = 0, dr_startedCount = 0, dr_terminalFailureCount = 0\<rparr>))"
      "storeView (dw_store world') = applyPlan plan (storeView s1)"
    by blast
  have claim: "claimPendingDispatches lc ?c (dw_store world) = (s1, ds)"
    using plan(1) by (auto simp: inMemoryDispatchApi_def split: prod.splits)
  have ds: "map fst plan = ds" using plan_fst [of rt ds "dw_client world"] plan(2) by simp
  have "distinct (map d_dispatchId ds)" using claim_inv [OF inv, of lc ?c] claim by simp
  then have "distinct (map (d_dispatchId \<circ> fst) plan)" by (simp add: ds [symmetric])
  from applyPlan_at [OF this] have
    "\<forall>x \<in> set plan. storeView (dw_store world') (d_dispatchId (fst x)) =
       Some (snd x, d_versionToken (fst x) + 1)"
    by (auto simp: plan(4))
  with plan(2,3) claim ds show ?thesis by (simp add: addPlan_def Let_def)
qed

theorem dispatch_run_refines_plan_witness:
  "\<exists>world' r. dispatchPending exampleRuntime (Some 5) exampleWorld = (world', Inr r) \<and>
     dr_startedCount r = 1 \<and> dr_duplicateCount r = 1"
proof -
  let ?ds = "snd (claimPendingDispatches (\<lambda>_ _. 0) \<lparr>ci_claimedAt = 100, ci_limit = 5\<rparr>
     (dw_store exampleWorld))"
  have "snd (dispatchPlan exampleRuntime ?ds 0) =
      [(hd ?ds, disp_started), (hd (tl ?ds), disp_duplicate)]"
    by (simp add: exampleRuntime_def exampleWorld_def newDispatchRuntime_def newDispatchStore_def
        claimPendingDispatches_def js_values_def claimable_def exampleSeed_def seedDispatch_def Let_def
        dispatchOrder_def startDispatch_def resolve_def newTemplateRegistry_def register_def
        markClaimed_def cloneDispatchRecord_def)
  with dispatch_run_refines_plan
      [OF fresh_exampleGen exampleWorld_reachable exampleRuntime_store, of "Some 5"]
  show ?thesis
    by (auto simp: exampleRuntime_def exampleWorld_def newDispatchRuntime_def Let_def)
qed

end
