(* ===== verification/Canonical_Evidence.thy ===== *)
theory Canonical_Evidence
  imports Base_Prelude
begin

text \<open>
  The canonical-source evidence of \<open>packages/storage/src\<close>: the result of a snapshot
  (\<open>adapter-contracts.ts\<close>), the evidence persisted for it and the conversions between the two
  (\<open>canonical-source-evidence.ts\<close>). Byte lengths are \<open>int\<close> (a \<open>bigint\<close> in the code), the two
  ratios are kept as the quotient the code forms.
\<close>

datatype checksum_algorithm = sha256

record object_checksum =
  oc_algorithm :: checksum_algorithm
  oc_value :: string

datatype repository_engine =
  engine_kopia | engine_xet | engine_object_store | engine_restic | engine_borg
| engine_casync | engine_custom

datatype handle_kind =
  handle_snapshot | handle_manifest | handle_chunk_index | handle_merkle_root | handle_opaque

record reconstruction_handle =
  rh_kind :: handle_kind
  rh_value :: string

datatype quotient = Quotient int int

record dedupe_metrics =
  dm_chunkCount :: "int option"
  dm_dedupeRatio :: "quotient option"
  dm_reusedChunkCount :: "int option"
  dm_savingsRatio :: "quotient option"
  dm_storedByteLength :: "int option"

record snapshot_result =
  sn_repositoryEngine :: repository_engine
  sn_canonicalSourceId :: string
  sn_snapshotId :: string
  sn_logicalPath :: string
  sn_digests :: "object_checksum list"
  sn_logicalByteLength :: "int option"
  sn_storedByteLength :: "int option"
  sn_dedupeMetrics :: "dedupe_metrics option"
  sn_reconstructionHandles :: "reconstruction_handle list option"
  sn_substrateHints :: "(string, string) jsmap option"

record source_evidence =
  ev_repositoryEngine :: repository_engine
  ev_canonicalSourceId :: string
  ev_canonicalSnapshotId :: string
  ev_canonicalLogicalPath :: string
  ev_canonicalDigestSet :: "object_checksum list"
  ev_canonicalLogicalByteLength :: "int option"
  ev_canonicalStoredByteLength :: "int option"
  ev_dedupeMetrics :: "dedupe_metrics option"
  ev_sourceReconstructionHandles :: "reconstruction_handle list option"
  ev_sourceSubstrateHints :: "(string, string) jsmap option"

text \<open>
  The helpers rebuild their argument property by property. An array or an object is always
  truthy, so the spreads that test one keep it whenever it is present.
\<close>

definition cloneDigestSet :: "object_checksum list \<Rightarrow> object_checksum list" where
  "cloneDigestSet ds = map (\<lambda>d. \<lparr>oc_algorithm = oc_algorithm d, oc_value = oc_value d\<rparr>) ds"

definition cloneDedupeMetrics :: "dedupe_metrics option \<Rightarrow> dedupe_metrics option" where
  "cloneDedupeMetrics m =
     (case m of
        None \<Rightarrow> None
      | Some d \<Rightarrow>
          Some (case dm_storedByteLength d of
                  None \<Rightarrow> d
                | Some n \<Rightarrow> d\<lparr>dm_storedByteLength := Some n\<rparr>))"

definition cloneReconstructionHandles ::
  "reconstruction_handle list option \<Rightarrow> reconstruction_handle list option" where
  "cloneReconstructionHandles hs =
     map_option (map (\<lambda>h. \<lparr>rh_kind = rh_kind h, rh_value = rh_value h\<rparr>)) hs"

definition clonePersistedCanonicalSourceEvidence :: "source_evidence \<Rightarrow> source_evidence" where
  "clonePersistedCanonicalSourceEvidence e =
     \<lparr>ev_repositoryEngine = ev_repositoryEngine e,
      ev_canonicalSourceId = ev_canonicalSourceId e,
      ev_canonicalSnapshotId = ev_canonicalSnapshotId e,
      ev_canonicalLogicalPath = ev_canonicalLogicalPath e,
      ev_canonicalDigestSet = cloneDigestSet (ev_canonicalDigestSet e),
      ev_canonicalLogicalByteLength = ev_canonicalLogicalByteLength e,
      ev_canonicalStoredByteLength = ev_canonicalStoredByteLength e,
      ev_dedupeMetrics = cloneDedupeMetrics (ev_dedupeMetrics e),
      ev_sourceReconstructionHandles =
        cloneReconstructionHandles (ev_sourceReconstructionHandles e),
      ev_sourceSubstrateHints = ev_sourceSubstrateHints e\<rparr>"

definition snapshotResultToCanonicalSourceEvidence :: "snapshot_result \<Rightarrow> source_evidence" where
  "snapshotResultToCanonicalSourceEvidence s =
     \<lparr>ev_repositoryEngine = sn_repositoryEngine s,
      ev_canonicalSourceId = sn_canonicalSourceId s,
      ev_canonicalSnapshotId = sn_snapshotId s,
      ev_canonicalLogicalPath = sn_logicalPath s,
      ev_canonicalDigestSet = cloneDigestSet (sn_digests s),
      ev_canonicalLogicalByteLength = sn_logicalByteLength s,
      ev_canonicalStoredByteLength = sn_storedByteLength s,
      ev_dedupeMetrics = cloneDedupeMetrics (sn_dedupeMetrics s),
      ev_sourceReconstructionHandles = cloneReconstructionHandles (sn_reconstructionHandles s),
      ev_sourceSubstrateHints = sn_substrateHints s\<rparr>"

definition canonicalSourceEvidenceToSnapshotResult :: "source_evidence \<Rightarrow> snapshot_result" where
  "canonicalSourceEvidenceToSnapshotResult e =
     \<lparr>sn_repositoryEngine = ev_repositoryEngine e,
      sn_canonicalSourceId = ev_canonicalSourceId e,
      sn_snapshotId = ev_canonicalSnapshotId e,
      sn_logicalPath = ev_canonicalLogicalPath e,
      sn_digests = cloneDigestSet (ev_canonicalDigestSet e),
      sn_logicalByteLength = ev_canonicalLogicalByteLength e,
      sn_storedByteLength = ev_canonicalStoredByteLength e,
      sn_dedupeMetrics = cloneDedupeMetrics (ev_dedupeMetrics e),
      sn_reconstructionHandles = cloneReconstructionHandles (ev_sourceReconstructionHandles e),
      sn_substrateHints = ev_sourceSubstrateHints e\<rparr>"

lemma rebuilt_records [simp]:
  "\<lparr>oc_algorithm = oc_algorithm d, oc_value = oc_value d\<rparr> = d"
  "\<lparr>rh_kind = rh_kind h, rh_value = rh_value h\<rparr> = h"
  by simp_all

lemma clone_digests [simp]: "cloneDigestSet ds = ds"
  unfolding cloneDigestSet_def by (rule map_idI) simp

lemma clone_metrics [simp]: "cloneDedupeMetrics m = m"
  by (auto simp: cloneDedupeMetrics_def split: option.splits)

lemma clone_handles [simp]: "cloneReconstructionHandles hs = hs"
  unfolding cloneReconstructionHandles_def by (cases hs) (auto intro!: map_idI)

lemma clone_evidence [simp]: "clonePersistedCanonicalSourceEvidence e = e"
  by (simp add: clonePersistedCanonicalSourceEvidence_def)

lemma evidence_roundtrip [simp]:
  "canonicalSourceEvidenceToSnapshotResult (snapshotResultToCanonicalSourceEvidence s) = s"
  "snapshotResultToCanonicalSourceEvidence (canonicalSourceEvidenceToSnapshotResult e) = e"
  by (simp_all add: canonicalSourceEvidenceToSnapshotResult_def
      snapshotResultToCanonicalSourceEvidence_def)

end
