(* ===== verification/Upload_Session.thy ===== *)
theory Upload_Session
  imports Canonical_Evidence Json_Text
begin

text \<open>
  Upload-session issuance and completion: \<open>InMemoryUploadSessionIssuanceStore\<close> of
  \<open>apps/api/src/upload-session-service.ts\<close>. \<open>completeUploadSession\<close> awaits the canonicalization
  of the staged object, and other calls run during that wait, so it is modelled in two parts:
  \<open>beginComplete\<close> up to the \<open>await\<close> and \<open>finishComplete\<close> after it; the step relation
  \<open>upload_step\<close> interleaves them. The objects \<open>session\<close> and \<open>version\<close> that the second part still
  holds are the ones the maps hold under their identifiers, because no entry of these maps is
  ever replaced.
\<close>

section \<open>Data\<close>

datatype version_state =
  ver_session_created | ver_uploaded | ver_canonicalizing | ver_canonical | ver_processing
| ver_failed_validation | ver_failed_retryable | ver_quarantined

datatype session_state =
  sess_session_created | sess_uploaded | sess_expired | sess_terminated | sess_failed_validation

datatype summary_state =
  ds_pending | ds_starting | ds_started | ds_duplicate | ds_failed_retryable | ds_failed_terminal

record issue_input =
  ii_assetId :: "string option"
  ii_assetOwner :: string
  ii_callerScopeKey :: string
  ii_checksum :: object_checksum
  ii_contentType :: string
  ii_expiresAt :: int
  ii_filename :: string
  ii_idempotencyKey :: string
  ii_normalizedRequestHash :: string
  ii_objectKey :: string
  ii_serviceNamespaceId :: string
  ii_tenantId :: "string option"
  ii_byteLength :: int

record issued_session =
  is_assetId :: string
  is_assetOwner :: string
  is_checksum :: object_checksum
  is_contentType :: string
  is_expiresAt :: int
  is_filename :: string
  is_objectKey :: string
  is_serviceNamespaceId :: string
  is_tenantId :: "string option"
  is_uploadSessionId :: string
  is_versionId :: string
  is_versionNumber :: int
  is_byteLength :: int

record staged_descriptor =
  so_bucket :: string
  so_key :: string
  so_descriptorLength :: int
  so_declaredChecksum :: "object_checksum option"

record staged_object =
  so_byteLength :: int
  so_checksum :: object_checksum
  so_descriptor :: staged_descriptor
  so_objectKey :: string

record complete_input =
  co_callerScopeKey :: string
  co_idempotencyKey :: string
  co_normalizedRequestHash :: string
  co_stagedObject :: staged_object
  co_uploadSessionId :: string
  co_workflowTemplate :: "string option"

record canonicalization_request =
  cr_assetId :: string
  cr_assetOwner :: string
  cr_filename :: string
  cr_serviceNamespaceId :: string
  cr_tenantId :: "string option"
  cr_uploadSessionId :: string
  cr_versionId :: string
  cr_versionNumber :: int
  cr_stagedObject :: staged_object

record dispatch_summary =
  wd_dispatchId :: string
  wd_state :: summary_state
  wd_workflowKey :: string

record completed_session =
  cs_assetId :: string
  cs_canonicalSource :: snapshot_result
  cs_uploadSessionId :: string
  cs_versionId :: string
  cs_versionState :: version_state
  cs_workflowDispatch :: dispatch_summary

record asset_summary =
  as_assetId :: string
  as_assetOwner :: string
  as_serviceNamespaceId :: string
  as_tenantId :: "string option"

record version_record =
  vr_assetId :: string
  vr_assetOwner :: string
  vr_checksum :: object_checksum
  vr_contentType :: string
  vr_filename :: string
  vr_objectKey :: string
  vr_serviceNamespaceId :: string
  vr_tenantId :: "string option"
  vr_versionId :: string
  vr_versionNumber :: int
  vr_byteLength :: int
  vr_canonicalSourceEvidence :: "source_evidence option"
  vr_lifecycleState :: version_state
  vr_workflowDispatch :: "dispatch_summary option"

record session_record =
  us_assetId :: string
  us_checksum :: object_checksum
  us_contentType :: string
  us_expiresAt :: int
  us_filename :: string
  us_objectKey :: string
  us_serviceNamespaceId :: string
  us_tenantId :: "string option"
  us_uploadSessionId :: string
  us_versionId :: string
  us_uploadSessionState :: session_state
  us_completionRequestHash :: "string option"
  us_completionResult :: "completed_session option"

record session_summary =
  sm_assetId :: string
  sm_assetOwner :: string
  sm_checksum :: object_checksum
  sm_contentType :: string
  sm_expiresAt :: int
  sm_filename :: string
  sm_objectKey :: string
  sm_serviceNamespaceId :: string
  sm_tenantId :: "string option"
  sm_uploadSessionId :: string
  sm_uploadSessionState :: session_state
  sm_versionId :: string
  sm_versionNumber :: int
  sm_versionState :: version_state
  sm_byteLength :: int

datatype problem_type = problem_checksum_mismatch | problem_validation_failed

text \<open>The state an \<open>UploadSessionInvalidStateTransitionError\<close> carries is a version or a session state.\<close>

datatype blocking_state = VersionState version_state | SessionState session_state

datatype upload_error =
  UploadSessionIdempotencyConflictError string
| UploadSessionAssetNotFoundError string
| UploadSessionNotFoundError string
| UploadSessionExpiredError string
| UploadSessionInvalidStateTransitionError string blocking_state
| UploadSessionValidationFailedError string problem_type string
| UploadSessionCanonicalizationFailedError string string
| MissingVersionError string

text \<open>The idempotency records of both operations share one map; their results differ in type.\<close>

datatype idempotent_result = IssuedResult issued_session | CompletedResult completed_session

record upload_store =
  up_assets :: "(string, asset_summary) jsmap"
  up_versionsById :: "(string, version_record) jsmap"
  up_versionsByAssetId :: "(string, string list) jsmap"
  up_uploadSessions :: "(string, session_record) jsmap"
  up_idempotencyRecords :: "(string, string \<times> idempotent_result) jsmap"
  up_idsDrawn :: nat

definition newUploadStore :: upload_store where
  "newUploadStore =
     \<lparr>up_assets = [], up_versionsById = [], up_versionsByAssetId = [], up_uploadSessions = [],
      up_idempotencyRecords = [], up_idsDrawn = 0\<rparr>"

section \<open>Keys\<close>

datatype upload_operation = op_create | op_complete

fun operationName :: "upload_operation \<Rightarrow> string" where
  "operationName op_create = ''upload-session:create''"
| "operationName op_complete = ''upload-session:complete''"

definition buildOperationIdempotencyKey :: "string \<Rightarrow> upload_operation \<Rightarrow> string \<Rightarrow> string" where
  "buildOperationIdempotencyKey callerScopeKey operation idempotencyKey =
     callerScopeKey @ '':'' @ operationName operation @ '':'' @ idempotencyKey"

definition buildWorkflowKey :: "string \<Rightarrow> string \<Rightarrow> string \<Rightarrow> string \<Rightarrow> string" where
  "buildWorkflowKey serviceNamespaceId assetId versionId workflowTemplate =
     serviceNamespaceId @ '':'' @ assetId @ '':'' @ versionId @ '':'' @ workflowTemplate"

section \<open>Issuance\<close>

datatype id_prefix = prefix_ast | prefix_ver | prefix_upl | prefix_wd

text \<open>A result of a public operation carries the flag \<open>isDuplicate\<close> beside it.\<close>

type_synonym 'a flagged = "'a \<times> bool"

definition resolveOrCreateAsset ::
  "(id_prefix \<Rightarrow> nat \<Rightarrow> string) \<Rightarrow> issue_input \<Rightarrow> upload_store
     \<Rightarrow> (upload_store, upload_error, asset_summary) outcome" where
  "resolveOrCreateAsset gen input s =
     (if truthy_str (ii_assetId input) then
        (case js_get (up_assets s) (the (ii_assetId input)) of
           None \<Rightarrow> throw s (UploadSessionAssetNotFoundError (the (ii_assetId input)))
         | Some a \<Rightarrow> ok s a)
      else
        (let assetId = gen prefix_ast (up_idsDrawn s);
             asset = \<lparr>as_assetId = assetId, as_assetOwner = ii_assetOwner input,
                      as_serviceNamespaceId = ii_serviceNamespaceId input,
                      as_tenantId = keep_str (ii_tenantId input)\<rparr> in
         ok (s\<lparr>up_assets := js_set assetId asset (up_assets s),
               up_idsDrawn := Suc (up_idsDrawn s)\<rparr>) asset))"

definition newVersionRecord ::
  "issue_input \<Rightarrow> asset_summary \<Rightarrow> string \<Rightarrow> int \<Rightarrow> version_record" where
  "newVersionRecord input asset versionId versionNumber =
     \<lparr>vr_assetId = as_assetId asset, vr_assetOwner = as_assetOwner asset,
      vr_checksum = ii_checksum input, vr_contentType = ii_contentType input,
      vr_filename = ii_filename input, vr_objectKey = ii_objectKey input,
      vr_serviceNamespaceId = as_serviceNamespaceId asset,
      vr_tenantId = keep_str (as_tenantId asset), vr_versionId = versionId,
      vr_versionNumber = versionNumber, vr_byteLength = ii_byteLength input,
      vr_canonicalSourceEvidence = None, vr_lifecycleState = ver_session_created,
      vr_workflowDispatch = None\<rparr>"

definition newSessionRecord ::
  "issue_input \<Rightarrow> asset_summary \<Rightarrow> string \<Rightarrow> string \<Rightarrow> session_record" where
  "newSessionRecord input asset versionId uploadSessionId =
     \<lparr>us_assetId = as_assetId asset, us_checksum = ii_checksum input,
      us_contentType = ii_contentType input, us_expiresAt = ii_expiresAt input,
      us_filename = ii_filename input, us_objectKey = ii_objectKey input,
      us_serviceNamespaceId = as_serviceNamespaceId asset,
      us_tenantId = keep_str (as_tenantId asset), us_uploadSessionId = uploadSessionId,
      us_versionId = versionId, us_uploadSessionState = sess_session_created,
      us_completionRequestHash = None, us_completionResult = None\<rparr>"

definition issuedResult ::
  "issue_input \<Rightarrow> asset_summary \<Rightarrow> string \<Rightarrow> string \<Rightarrow> int \<Rightarrow> issued_session" where
  "issuedResult input asset versionId uploadSessionId versionNumber =
     \<lparr>is_assetId = as_assetId asset, is_assetOwner = as_assetOwner asset,
      is_checksum = ii_checksum input, is_contentType = ii_contentType input,
      is_expiresAt = ii_expiresAt input, is_filename = ii_filename input,
      is_objectKey = ii_objectKey input, is_serviceNamespaceId = as_serviceNamespaceId asset,
      is_tenantId = keep_str (as_tenantId asset), is_uploadSessionId = uploadSessionId,
      is_versionId = versionId, is_versionNumber = versionNumber,
      is_byteLength = ii_byteLength input\<rparr>"

definition issueUploadSession ::
  "(id_prefix \<Rightarrow> nat \<Rightarrow> string) \<Rightarrow> issue_input \<Rightarrow> upload_store
     \<Rightarrow> (upload_store, upload_error, idempotent_result flagged) outcome" where
  "issueUploadSession gen input s =
     (let scopeKey = buildOperationIdempotencyKey (ii_callerScopeKey input) op_create
                       (ii_idempotencyKey input) in
      case js_get (up_idempotencyRecords s) scopeKey of
        Some (hash, result) \<Rightarrow>
          if hash \<noteq> ii_normalizedRequestHash input
          then throw s (UploadSessionIdempotencyConflictError (ii_idempotencyKey input))
          else ok s (result, True)
      | None \<Rightarrow>
          and_then (resolveOrCreateAsset gen input s) (\<lambda>s1 asset.
            let existingVersionIds =
                  nullish (js_get (up_versionsByAssetId s1) (as_assetId asset)) [];
                versionId = gen prefix_ver (up_idsDrawn s1);
                uploadSessionId = gen prefix_upl (Suc (up_idsDrawn s1));
                versionNumber = int (length existingVersionIds) + 1;
                result = IssuedResult
                  (issuedResult input asset versionId uploadSessionId versionNumber) in
            ok (s1\<lparr>up_versionsById :=
                     js_set versionId (newVersionRecord input asset versionId versionNumber)
                       (up_versionsById s1),
                   up_versionsByAssetId :=
                     js_set (as_assetId asset) (existingVersionIds @ [versionId])
                       (up_versionsByAssetId s1),
                   up_uploadSessions :=
                     js_set uploadSessionId
                       (newSessionRecord input asset versionId uploadSessionId)
                       (up_uploadSessions s1),
                   up_idempotencyRecords :=
                     js_set scopeKey (ii_normalizedRequestHash input, result)
                       (up_idempotencyRecords s1),
                   up_idsDrawn := Suc (Suc (up_idsDrawn s1))\<rparr>)
               (result, False)))"

section \<open>Completion\<close>

definition buildCompletionResultFromPersistedEvidence ::
  "string \<Rightarrow> version_record \<Rightarrow> completed_session option" where
  "buildCompletionResultFromPersistedEvidence uploadSessionId v =
     (case (vr_canonicalSourceEvidence v, vr_workflowDispatch v) of
        (Some e, Some d) \<Rightarrow>
          if vr_lifecycleState v = ver_canonical \<or> vr_lifecycleState v = ver_processing
          then Some \<lparr>cs_assetId = vr_assetId v,
                     cs_canonicalSource = canonicalSourceEvidenceToSnapshotResult e,
                     cs_uploadSessionId = uploadSessionId, cs_versionId = vr_versionId v,
                     cs_versionState = vr_lifecycleState v, cs_workflowDispatch = d\<rparr>
          else None
      | _ \<Rightarrow> None)"

definition setSession :: "session_record \<Rightarrow> upload_store \<Rightarrow> upload_store" where
  "setSession x s = s\<lparr>up_uploadSessions := js_set (us_uploadSessionId x) x (up_uploadSessions s)\<rparr>"

definition setVersion :: "version_record \<Rightarrow> upload_store \<Rightarrow> upload_store" where
  "setVersion v s = s\<lparr>up_versionsById := js_set (vr_versionId v) v (up_versionsById s)\<rparr>"

definition rememberCompletion ::
  "complete_input \<Rightarrow> completed_session \<Rightarrow> upload_store \<Rightarrow> upload_store" where
  "rememberCompletion input result s =
     s\<lparr>up_idempotencyRecords :=
         js_set (buildOperationIdempotencyKey (co_callerScopeKey input) op_complete
                   (co_idempotencyKey input))
           (co_normalizedRequestHash input, CompletedResult result) (up_idempotencyRecords s)\<rparr>"

definition failValidation ::
  "session_record \<Rightarrow> version_record \<Rightarrow> upload_store \<Rightarrow> upload_store" where
  "failValidation session version s =
     setVersion (version\<lparr>vr_lifecycleState := ver_failed_validation\<rparr>)
       (setSession (session\<lparr>us_uploadSessionState := sess_failed_validation\<rparr>) s)"

text \<open>The first part ends with a result, or at the \<open>await\<close> with the request for the canonicalizer.\<close>

datatype complete_step =
  Finished "upload_error + idempotent_result flagged"
| AwaitCanonicalization canonicalization_request

definition canonicalizationRequest ::
  "complete_input \<Rightarrow> version_record \<Rightarrow> canonicalization_request" where
  "canonicalizationRequest input v =
     \<lparr>cr_assetId = vr_assetId v, cr_assetOwner = vr_assetOwner v, cr_filename = vr_filename v,
      cr_serviceNamespaceId = vr_serviceNamespaceId v, cr_tenantId = keep_str (vr_tenantId v),
      cr_uploadSessionId = co_uploadSessionId input, cr_versionId = vr_versionId v,
      cr_versionNumber = vr_versionNumber v, cr_stagedObject = co_stagedObject input\<rparr>"

definition checksumMismatch :: "staged_object \<Rightarrow> object_checksum \<Rightarrow> bool" where
  "checksumMismatch staged expected \<longleftrightarrow>
     oc_algorithm (so_checksum staged) \<noteq> oc_algorithm expected \<or>
     oc_value (so_checksum staged) \<noteq> oc_value expected \<or>
     (case so_declaredChecksum (so_descriptor staged) of
        None \<Rightarrow> True
      | Some d \<Rightarrow> oc_algorithm d \<noteq> oc_algorithm expected \<or> oc_value d \<noteq> oc_value expected)"

text \<open>From the validation of the staged object to the \<open>await\<close>.\<close>

definition admitStagedObject ::
  "complete_input \<Rightarrow> session_record \<Rightarrow> version_record \<Rightarrow> completed_session option \<Rightarrow> upload_store
     \<Rightarrow> upload_store \<times> complete_step" where
  "admitStagedObject input session version replay s =
     (let sid = co_uploadSessionId input; staged = co_stagedObject input;
          upload = ''Upload session '' @ quoted sid in
      if so_objectKey staged \<noteq> us_objectKey session then
        (failValidation session version s,
         Finished (Inl (UploadSessionValidationFailedError sid problem_validation_failed
           (upload @ '' expected staged object '' @ quoted (us_objectKey session) @
            '' but received '' @ quoted (so_objectKey staged) @ ''.''))))
      else if so_byteLength staged \<noteq> vr_byteLength version then
        (failValidation session version s,
         Finished (Inl (UploadSessionValidationFailedError sid problem_validation_failed
           (upload @ '' expected '' @ int_text (vr_byteLength version) @
            '' byte(s) but staged validation observed '' @ int_text (so_byteLength staged) @ '' byte(s).''))))
      else if checksumMismatch staged (vr_checksum version) then
        (failValidation session version s,
         Finished (Inl (UploadSessionValidationFailedError sid problem_checksum_mismatch
           (upload @ '' did not match the expected checksum evidence.''))))
      else
        (case replay of
           Some r \<Rightarrow>
             (rememberCompletion input r
                (setSession
                   (session\<lparr>us_completionRequestHash :=
                              or_else (us_completionRequestHash session)
                                (Some (co_normalizedRequestHash input)),
                            us_completionResult := Some r\<rparr>) s),
              Finished (Inr (CompletedResult r, True)))
         | None \<Rightarrow>
             (setVersion (version\<lparr>vr_lifecycleState := ver_canonicalizing\<rparr>)
                (setSession (session\<lparr>us_uploadSessionState := sess_uploaded\<rparr>) s),
              AwaitCanonicalization (canonicalizationRequest input version))))"

definition beginComplete ::
  "int \<Rightarrow> complete_input \<Rightarrow> upload_store \<Rightarrow> upload_store \<times> complete_step" where
  "beginComplete now input s =
     (let sid = co_uploadSessionId input in
      case js_get (up_uploadSessions s) sid of
        None \<Rightarrow> (s, Finished (Inl (UploadSessionNotFoundError sid)))
      | Some session \<Rightarrow>
      (case js_get (up_versionsById s) (us_versionId session) of
        None \<Rightarrow> (s, Finished (Inl (MissingVersionError sid)))
      | Some version \<Rightarrow>
      (let scopeKey = buildOperationIdempotencyKey (co_callerScopeKey input) op_complete
                        (co_idempotencyKey input) in
       case js_get (up_idempotencyRecords s) scopeKey of
         Some (hash, result) \<Rightarrow>
           if hash \<noteq> co_normalizedRequestHash input
           then (s, Finished (Inl (UploadSessionIdempotencyConflictError (co_idempotencyKey input))))
           else (s, Finished (Inr (result, True)))
       | None \<Rightarrow>
           if now > us_expiresAt session then
             (setSession (session\<lparr>us_uploadSessionState := sess_expired\<rparr>) s,
              Finished (Inl (UploadSessionExpiredError sid)))
           else
             (case us_completionResult session of
                Some result \<Rightarrow>
                  if us_completionRequestHash session \<noteq> Some (co_normalizedRequestHash input)
                  then (s, Finished (Inl (UploadSessionInvalidStateTransitionError sid
                                            (VersionState (vr_lifecycleState version)))))
                  else (rememberCompletion input result s,
                        Finished (Inr (CompletedResult result, True)))
              | None \<Rightarrow>
                  if us_uploadSessionState session = sess_terminated \<or>
                     us_uploadSessionState session = sess_failed_validation
                  then (s, Finished (Inl (UploadSessionInvalidStateTransitionError sid
                                            (SessionState (us_uploadSessionState session)))))
                  else
                    (let replay = buildCompletionResultFromPersistedEvidence sid version in
                     if vr_lifecycleState version \<noteq> ver_session_created \<and>
                        vr_lifecycleState version \<noteq> ver_uploaded \<and>
                        vr_lifecycleState version \<noteq> ver_failed_retryable \<and> replay = None
                     then (s, Finished (Inl (UploadSessionInvalidStateTransitionError sid
                                               (VersionState (vr_lifecycleState version)))))
                     else admitStagedObject input session version replay s)))))"

text \<open>After the \<open>await\<close>: the canonicalizer returned a snapshot, or threw (its cause is a string).\<close>

definition finishComplete ::
  "(id_prefix \<Rightarrow> nat \<Rightarrow> string) \<Rightarrow> complete_input \<Rightarrow> (string + snapshot_result) \<Rightarrow> upload_store
     \<Rightarrow> (upload_store, upload_error, idempotent_result flagged) outcome" where
  "finishComplete gen input answer s =
     (let sid = co_uploadSessionId input in
      case js_get (up_uploadSessions s) sid of
        None \<Rightarrow> throw s (UploadSessionNotFoundError sid)
      | Some session \<Rightarrow>
      (case js_get (up_versionsById s) (us_versionId session) of
        None \<Rightarrow> throw s (MissingVersionError sid)
      | Some version \<Rightarrow>
      (case answer of
         Inl cause \<Rightarrow>
           throw (setVersion (version\<lparr>vr_lifecycleState := ver_failed_retryable\<rparr>) s)
             (UploadSessionCanonicalizationFailedError sid cause)
       | Inr canonicalSource \<Rightarrow>
           (let workflowTemplate = nullish (co_workflowTemplate input) ''asset-derivation-v1'';
                workflowDispatch =
                  \<lparr>wd_dispatchId = gen prefix_wd (up_idsDrawn s), wd_state = ds_pending,
                   wd_workflowKey = buildWorkflowKey (vr_serviceNamespaceId version)
                     (vr_assetId version) (vr_versionId version) workflowTemplate\<rparr>;
                evidence = snapshotResultToCanonicalSourceEvidence canonicalSource;
                result = \<lparr>cs_assetId = vr_assetId version,
                          cs_canonicalSource = canonicalSourceEvidenceToSnapshotResult evidence,
                          cs_uploadSessionId = sid, cs_versionId = vr_versionId version,
                          cs_versionState = ver_canonical,
                          cs_workflowDispatch = workflowDispatch\<rparr> in
            ok (rememberCompletion input result
                  (setSession
                     (session\<lparr>us_completionRequestHash := Some (co_normalizedRequestHash input),
                              us_completionResult := Some result\<rparr>)
                     (setVersion
                        (version\<lparr>vr_canonicalSourceEvidence := Some evidence,
                                 vr_lifecycleState := ver_canonical,
                                 vr_workflowDispatch := Some workflowDispatch\<rparr>)
                        (s\<lparr>up_idsDrawn := Suc (up_idsDrawn s)\<rparr>))))
               (CompletedResult result, False)))))"

text \<open>The whole call, when nothing runs during the \<open>await\<close>.\<close>

definition completeUploadSession ::
  "(id_prefix \<Rightarrow> nat \<Rightarrow> string) \<Rightarrow> int \<Rightarrow> complete_input
     \<Rightarrow> (canonicalization_request \<Rightarrow> string + snapshot_result) \<Rightarrow> upload_store
     \<Rightarrow> (upload_store, upload_error, idempotent_result flagged) outcome" where
  "completeUploadSession gen now input canonicalize s =
     (case beginComplete now input s of
        (s', Finished r) \<Rightarrow> (s', r)
      | (s', AwaitCanonicalization request) \<Rightarrow>
          finishComplete gen input (canonicalize request) s')"

section \<open>Reads\<close>

definition buildUploadSessionSummary ::
  "session_record \<Rightarrow> upload_store \<Rightarrow> upload_error + session_summary" where
  "buildUploadSessionSummary session s =
     (case js_get (up_versionsById s) (us_versionId session) of
        None \<Rightarrow> Inl (MissingVersionError (us_uploadSessionId session))
      | Some v \<Rightarrow> Inr
          \<lparr>sm_assetId = us_assetId session, sm_assetOwner = vr_assetOwner v,
           sm_checksum = us_checksum session, sm_contentType = us_contentType session,
           sm_expiresAt = us_expiresAt session, sm_filename = us_filename session,
           sm_objectKey = us_objectKey session,
           sm_serviceNamespaceId = us_serviceNamespaceId session,
           sm_tenantId = keep_str (us_tenantId session),
           sm_uploadSessionId = us_uploadSessionId session,
           sm_uploadSessionState = us_uploadSessionState session,
           sm_versionId = us_versionId session, sm_versionNumber = vr_versionNumber v,
           sm_versionState = vr_lifecycleState v, sm_byteLength = vr_byteLength v\<rparr>)"

definition getUploadSession ::
  "string \<Rightarrow> upload_store \<Rightarrow> upload_error + session_summary option" where
  "getUploadSession uploadSessionId s =
     (case js_get (up_uploadSessions s) uploadSessionId of
        None \<Rightarrow> Inr None
      | Some session \<Rightarrow>
          (case buildUploadSessionSummary session s of
             Inl e \<Rightarrow> Inl e | Inr summary \<Rightarrow> Inr (Some summary)))"

definition getPersistedVersion :: "string \<Rightarrow> upload_store \<Rightarrow> version_record option" where
  "getPersistedVersion versionId s =
     map_option (\<lambda>v. v\<lparr>vr_canonicalSourceEvidence :=
         map_option clonePersistedCanonicalSourceEvidence (vr_canonicalSourceEvidence v)\<rparr>)
       (js_get (up_versionsById s) versionId)"

section \<open>Interleaved calls\<close>

text \<open>
  The service holds the store and the completions that wait for the canonicalizer. A step is
  a whole \<open>issueUploadSession\<close>, a \<open>completeUploadSession\<close> up to its result or its \<open>await\<close> at
  any reading of the clock, or the end of a waiting completion with any answer. \<open>K\<close> restricts
  the idempotency keys that clients send.
\<close>

type_synonym in_flight = "(complete_input \<times> canonicalization_request) list"

type_synonym upload_world = "upload_store \<times> in_flight"

inductive upload_step ::
  "(id_prefix \<Rightarrow> nat \<Rightarrow> string) \<Rightarrow> (string \<Rightarrow> bool) \<Rightarrow> upload_world \<Rightarrow> upload_world \<Rightarrow> bool"
  for gen K where
  step_issue:
    "K (ii_idempotencyKey input) \<Longrightarrow> issueUploadSession gen input s = (s', r)
      \<Longrightarrow> upload_step gen K (s, fl) (s', fl)"
| step_finished:
    "K (co_idempotencyKey input) \<Longrightarrow> beginComplete now input s = (s', Finished r)
      \<Longrightarrow> upload_step gen K (s, fl) (s', fl)"
| step_await:
    "K (co_idempotencyKey input) \<Longrightarrow> beginComplete now input s = (s', AwaitCanonicalization req)
      \<Longrightarrow> upload_step gen K (s, fl) (s', (input, req) # fl)"
| step_answer:
    "finishComplete gen input answer s = (s', r)
      \<Longrightarrow> upload_step gen K (s, fl1 @ (input, req) # fl2) (s', fl1 @ fl2)"

inductive_cases upload_stepE: "upload_step gen K w w'"

definition upload_reachable ::
  "(id_prefix \<Rightarrow> nat \<Rightarrow> string) \<Rightarrow> (string \<Rightarrow> bool) \<Rightarrow> upload_world \<Rightarrow> bool" where
  "upload_reachable gen K w \<longleftrightarrow> (upload_step gen K)\<^sup>*\<^sup>* (newUploadStore, []) w"

definition distinct_ids :: "(id_prefix \<Rightarrow> nat \<Rightarrow> string) \<Rightarrow> bool" where
  "distinct_ids gen \<longleftrightarrow> (\<forall>p i j. gen p i = gen p j \<longrightarrow> i = j)"

definition waiting :: "in_flight \<Rightarrow> string list" where
  "waiting fl = map (co_uploadSessionId \<circ> fst) fl"

lemma waiting_simps [simp]:
  "waiting [] = []" "waiting (c # fl) = co_uploadSessionId (fst c) # waiting fl"
  "waiting (fl1 @ fl2) = waiting fl1 @ waiting fl2"
  by (simp_all add: waiting_def)

text \<open>What relates a session, its version and the waiting completions.\<close>

definition session_ok ::
  "string set \<Rightarrow> string \<Rightarrow> session_record \<Rightarrow> version_record \<Rightarrow> bool" where
  "session_ok W sid x v \<longleftrightarrow>
     us_uploadSessionId x = sid \<and> vr_versionId v = us_versionId x \<and>
     (sid \<in> W \<longleftrightarrow> vr_lifecycleState v = ver_canonicalizing) \<and>
     (case us_completionResult x of
        None \<Rightarrow> vr_canonicalSourceEvidence v = None \<and> vr_lifecycleState v \<noteq> ver_canonical \<and>
                vr_lifecycleState v \<noteq> ver_processing
      | Some r \<Rightarrow> vr_lifecycleState v = ver_canonical \<and>
                  buildCompletionResultFromPersistedEvidence sid v = Some r)"

definition sessions_inv :: "string set \<Rightarrow> upload_store \<Rightarrow> bool" where
  "sessions_inv W s \<longleftrightarrow>
     (\<forall>sid x. js_get (up_uploadSessions s) sid = Some x \<longrightarrow>
        (\<exists>v. js_get (up_versionsById s) (us_versionId x) = Some v \<and> session_ok W sid x v)) \<and>
     (\<forall>sid sid' x x'. js_get (up_uploadSessions s) sid = Some x \<longrightarrow>
        js_get (up_uploadSessions s) sid' = Some x' \<longrightarrow> us_versionId x = us_versionId x' \<longrightarrow>
        sid = sid') \<and>
     (\<forall>sid\<in>W. js_get (up_uploadSessions s) sid \<noteq> None)"

lemma sessions_inv_ok:
  assumes "sessions_inv W s" "js_get (up_uploadSessions s) sid = Some x"
    "js_get (up_versionsById s) (us_versionId x) = Some v"
  shows "session_ok W sid x v"
  using assms unfolding sessions_inv_def by force

lemma sessions_inv_version:
  assumes "sessions_inv W s" "js_get (up_uploadSessions s) sid = Some x"
  obtains v where "js_get (up_versionsById s) (us_versionId x) = Some v" "session_ok W sid x v"
  using assms unfolding sessions_inv_def by blast

lemma sessions_inv_inj:
  assumes "sessions_inv W s" "js_get (up_uploadSessions s) sid = Some x"
    "js_get (up_uploadSessions s) sid' = Some x'" "us_versionId x = us_versionId x'"
  shows "sid = sid'"
  using assms unfolding sessions_inv_def by blast

lemma sessions_inv_waiting:
  "sessions_inv W s \<Longrightarrow> sid \<in> W \<Longrightarrow> \<exists>x. js_get (up_uploadSessions s) sid = Some x"
  unfolding sessions_inv_def by blast

text \<open>One session and its version are replaced, the others and their waiting calls are kept.\<close>

lemma sessions_inv_replace:
  assumes inv: "sessions_inv W s"
    and x: "js_get (up_uploadSessions s) sid = Some x"
    and x': "us_versionId x' = us_versionId x"
    and ok: "session_ok W' sid x' v'"
    and W: "\<And>sid'. sid' \<noteq> sid \<Longrightarrow> sid' \<in> W' \<longleftrightarrow> sid' \<in> W"
    and s1: "\<And>k. js_get (up_uploadSessions s') k =
                  (if k = sid then Some x' else js_get (up_uploadSessions s) k)"
    and s2: "\<And>k. js_get (up_versionsById s') k =
                  (if k = us_versionId x then Some v' else js_get (up_versionsById s) k)"
  shows "sessions_inv W' s'"
  unfolding sessions_inv_def
proof (intro conjI allI impI ballI)
  fix k y assume y: "js_get (up_uploadSessions s') k = Some y"
  show "\<exists>v. js_get (up_versionsById s') (us_versionId y) = Some v \<and> session_ok W' k y v"
  proof (cases "k = sid")
    case True
    then show ?thesis using y ok x' by (simp add: s1 s2)
  next
    case False
    then have y0: "js_get (up_uploadSessions s) k = Some y" using y by (simp add: s1)
    then obtain v where v: "js_get (up_versionsById s) (us_versionId y) = Some v"
      "session_ok W k y v" using inv y0 by (metis sessions_inv_version)
    have "us_versionId y \<noteq> us_versionId x" using sessions_inv_inj [OF inv y0 x] False by blast
    then show ?thesis using v W [OF False] by (auto simp: s2 session_ok_def)
  qed
next
  fix k k' y y'
  assume y: "js_get (up_uploadSessions s') k = Some y"
    and y': "js_get (up_uploadSessions s') k' = Some y'" and e: "us_versionId y = us_versionId y'"
  show "k = k'"
    using y y' e x x' sessions_inv_inj [OF inv] by (auto simp: s1 split: if_splits)
next
  fix k assume "k \<in> W'"
  then show "js_get (up_uploadSessions s') k \<noteq> None"
    using W [of k] sessions_inv_waiting [OF inv, of k] by (cases "k = sid") (auto simp: s1)
qed

lemma sessions_inv_frame:
  assumes "sessions_inv W s" "up_uploadSessions s' = up_uploadSessions s"
    "up_versionsById s' = up_versionsById s"
  shows "sessions_inv W s'"
  using assms unfolding sessions_inv_def by simp

text \<open>
  \<open>touched\<close>: the store changes at most at one session and its version, and perhaps in the
  idempotency records and the number of drawn identifiers.
\<close>

definition touched ::
  "upload_store \<Rightarrow> upload_store \<Rightarrow> string \<Rightarrow> session_record \<Rightarrow> session_record
     \<Rightarrow> version_record \<Rightarrow> version_record \<Rightarrow> bool" where
  "touched s s' sid x x' v v' \<longleftrightarrow>
     js_get (up_uploadSessions s) sid = Some x \<and> js_get (up_versionsById s) (us_versionId x) = Some v \<and>
     us_uploadSessionId x' = us_uploadSessionId x \<and> us_versionId x' = us_versionId x \<and>
     vr_versionId v' = vr_versionId v \<and> vr_versionNumber v' = vr_versionNumber v \<and>
     vr_assetId v' = vr_assetId v \<and> vr_checksum v' = vr_checksum v \<and>
     vr_byteLength v' = vr_byteLength v \<and>
     (\<forall>k. js_get (up_uploadSessions s') k =
            (if k = sid then Some x' else js_get (up_uploadSessions s) k)) \<and>
     (\<forall>k. js_get (up_versionsById s') k =
            (if k = us_versionId x then Some v' else js_get (up_versionsById s) k)) \<and>
     up_assets s' = up_assets s \<and> up_versionsByAssetId s' = up_versionsByAssetId s"

lemma touched_inv:
  assumes "sessions_inv W s" "touched s s' sid x x' v v'" "session_ok W' sid x' v'"
    and "\<And>sid'. sid' \<noteq> sid \<Longrightarrow> sid' \<in> W' \<longleftrightarrow> sid' \<in> W"
  shows "sessions_inv W' s'"
  using assms by (intro sessions_inv_replace [OF assms(1), where sid = sid and x = x and x' = x'
        and v' = v']) (auto simp: touched_def)

text \<open>The outcomes of the first part of a completion.\<close>

definition sessionExpired :: "session_record \<Rightarrow> session_record" where
  "sessionExpired x = x\<lparr>us_uploadSessionState := sess_expired\<rparr>"

lemma beginComplete_outcomes:
  assumes run: "beginComplete now input s = (s', st)"
    and inv: "sessions_inv W s"
  obtains
    (unchanged) r where "st = Finished r" "s' = s"
  | (remembered) x r where "js_get (up_uploadSessions s) (co_uploadSessionId input) = Some x"
      "us_completionResult x = Some r" "now \<le> us_expiresAt x"
      "js_get (up_idempotencyRecords s) (buildOperationIdempotencyKey (co_callerScopeKey input)
          op_complete (co_idempotencyKey input)) = None"
      "st = Finished (Inr (CompletedResult r, True))" "s' = rememberCompletion input r s"
  | (expired) x v e where "touched s s' (co_uploadSessionId input) x (sessionExpired x) v v"
      "us_expiresAt x < now" "st = Finished (Inl e)"
      "up_idempotencyRecords s' = up_idempotencyRecords s"
  | (failed) x v e where "us_completionResult x = None" "vr_lifecycleState v \<noteq> ver_canonicalizing"
      "touched s s' (co_uploadSessionId input) x
         (x\<lparr>us_uploadSessionState := sess_failed_validation\<rparr>) v
         (v\<lparr>vr_lifecycleState := ver_failed_validation\<rparr>)" "st = Finished (Inl e)"
      "up_idempotencyRecords s' = up_idempotencyRecords s"
  | (awaited) x v where "us_completionResult x = None" "vr_lifecycleState v \<noteq> ver_canonicalizing"
      "touched s s' (co_uploadSessionId input) x (x\<lparr>us_uploadSessionState := sess_uploaded\<rparr>) v
         (v\<lparr>vr_lifecycleState := ver_canonicalizing\<rparr>)"
      "st = AwaitCanonicalization (canonicalizationRequest input v)"
      "up_idempotencyRecords s' = up_idempotencyRecords s"
proof -
  let ?sid = "co_uploadSessionId input"
  let ?key = "buildOperationIdempotencyKey (co_callerScopeKey input) op_complete
    (co_idempotencyKey input)"
  show thesis
  proof (cases "js_get (up_uploadSessions s) ?sid")
    case None
    then have "s' = s \<and> (\<exists>r. st = Finished r)" using run
      by (auto simp: beginComplete_def Let_def)
    then show ?thesis using unchanged by blast
  next
    case (Some x)
    note x = this
    obtain v where v: "js_get (up_versionsById s) (us_versionId x) = Some v"
      and ok: "session_ok W ?sid x v" using inv Some by (rule sessions_inv_version)
    have ids: "us_uploadSessionId x = ?sid" "vr_versionId v = us_versionId x"
      using ok by (simp_all add: session_ok_def)
    note base = run x v
    show ?thesis
    proof (cases "js_get (up_idempotencyRecords s) ?key")
      case (Some hr)
      then have "s' = s \<and> (\<exists>r. st = Finished r)" using base
        by (auto simp: beginComplete_def Let_def split: prod.splits if_splits)
      then show ?thesis using unchanged by blast
    next
      case None
      note key = this
      show ?thesis
      proof (cases "us_expiresAt x < now")
        case True
        then show ?thesis using base key ids
          by (intro expired [of x v])
            (auto simp: beginComplete_def Let_def touched_def setSession_def sessionExpired_def)
      next
        case False
        note time = this
        show ?thesis
        proof (cases "us_completionResult x")
          case (Some r)
          then show ?thesis
          proof (cases "us_completionRequestHash x = Some (co_normalizedRequestHash input)")
            case True
            then show ?thesis using base key time Some
              by (intro remembered [of x r]) (auto simp: beginComplete_def Let_def)
          next
            case False
            then have "s' = s \<and> (\<exists>r. st = Finished r)" using base key time Some
              by (auto simp: beginComplete_def Let_def)
            then show ?thesis using unchanged by blast
          qed
        next
          case None
          note none = this
          have nc: "buildCompletionResultFromPersistedEvidence ?sid v = None"
            using ok none
            by (auto simp: session_ok_def buildCompletionResultFromPersistedEvidence_def)
          show ?thesis
          proof (cases "us_uploadSessionState x = sess_terminated \<or>
              us_uploadSessionState x = sess_failed_validation \<or>
              vr_lifecycleState v \<notin> {ver_session_created, ver_uploaded, ver_failed_retryable}")
            case True
            then have "s' = s \<and> (\<exists>r. st = Finished r)" using base key time none nc
              by (auto simp: beginComplete_def Let_def split: if_splits)
            then show ?thesis using unchanged by blast
          next
            case False
            then have st: "vr_lifecycleState v \<noteq> ver_canonicalizing" by auto
            have adm: "admitStagedObject input x v None s = (s', st)"
              using base key time none nc False by (auto simp: beginComplete_def Let_def)
            consider e where "s' = failValidation x v s" "st = Finished (Inl e)"
              | "s' = setVersion (v\<lparr>vr_lifecycleState := ver_canonicalizing\<rparr>)
                   (setSession (x\<lparr>us_uploadSessionState := sess_uploaded\<rparr>) s)"
                "st = AwaitCanonicalization (canonicalizationRequest input v)"
              using adm by (auto simp: admitStagedObject_def Let_def split: if_splits)
            then show ?thesis
            proof cases
              case 1
              then show ?thesis using x v ids none st
                by (intro failed [of x v e])
                  (auto simp: touched_def failValidation_def setSession_def setVersion_def)
            next
              case 2
              then show ?thesis using x v ids none st
                by (intro awaited [of x v])
                  (auto simp: touched_def setSession_def setVersion_def)
            qed
          qed
        qed
      qed
    qed
  qed
qed

text \<open>The outcomes of the second part.\<close>

definition completionResult ::
  "string \<Rightarrow> snapshot_result \<Rightarrow> dispatch_summary \<Rightarrow> version_record \<Rightarrow> completed_session" where
  "completionResult sid snapshot d v =
     \<lparr>cs_assetId = vr_assetId v, cs_canonicalSource = snapshot, cs_uploadSessionId = sid,
      cs_versionId = vr_versionId v, cs_versionState = ver_canonical, cs_workflowDispatch = d\<rparr>"

lemma finishComplete_outcomes:
  assumes run: "finishComplete gen input answer s = (s', r)"
    and inv: "sessions_inv W s"
    and known: "co_uploadSessionId input \<in> W"
  obtains
    (retryable) x v cause where "answer = Inl cause"
      "touched s s' (co_uploadSessionId input) x x v (v\<lparr>vr_lifecycleState := ver_failed_retryable\<rparr>)"
      "r = Inl (UploadSessionCanonicalizationFailedError (co_uploadSessionId input) cause)"
      "up_idempotencyRecords s' = up_idempotencyRecords s" "up_idsDrawn s' = up_idsDrawn s"
  | (canonical) x v snapshot d where "answer = Inr snapshot"
      "touched s s' (co_uploadSessionId input) x
         (x\<lparr>us_completionRequestHash := Some (co_normalizedRequestHash input),
            us_completionResult :=
              Some (completionResult (co_uploadSessionId input) snapshot d v)\<rparr>) v
         (v\<lparr>vr_canonicalSourceEvidence := Some (snapshotResultToCanonicalSourceEvidence snapshot),
            vr_lifecycleState := ver_canonical, vr_workflowDispatch := Some d\<rparr>)"
      "r = Inr (CompletedResult (completionResult (co_uploadSessionId input) snapshot d v), False)"
      "up_idempotencyRecords s' =
         js_set (buildOperationIdempotencyKey (co_callerScopeKey input) op_complete
                   (co_idempotencyKey input))
           (co_normalizedRequestHash input,
            CompletedResult (completionResult (co_uploadSessionId input) snapshot d v))
           (up_idempotencyRecords s)"
      "up_idsDrawn s' = Suc (up_idsDrawn s)"
proof -
  let ?sid = "co_uploadSessionId input"
  obtain x where x: "js_get (up_uploadSessions s) ?sid = Some x"
    using sessions_inv_waiting [OF inv known] by blast
  obtain v where v: "js_get (up_versionsById s) (us_versionId x) = Some v"
    and ok: "session_ok W ?sid x v" using inv x by (rule sessions_inv_version)
  have ids: "us_uploadSessionId x = ?sid" "vr_versionId v = us_versionId x"
    using ok by (simp_all add: session_ok_def)
  show thesis
  proof (cases answer)
    case (Inl cause)
    have "\<forall>k. js_get (up_uploadSessions s) k =
        (if k = ?sid then Some x else js_get (up_uploadSessions s) k)" using x by simp
    then show ?thesis using Inl run x v ids
      by (intro retryable [of cause x v])
        (auto simp: finishComplete_def Let_def touched_def setVersion_def)
  next
    case (Inr snapshot)
    then show ?thesis using run x v ids
      by (intro canonical [of snapshot x _ v])
        (auto simp: finishComplete_def Let_def touched_def setVersion_def setSession_def
          rememberCompletion_def completionResult_def)
  qed
qed

text \<open>The outcomes of an issuance.\<close>

definition issueKey :: "issue_input \<Rightarrow> string" where
  "issueKey input =
     buildOperationIdempotencyKey (ii_callerScopeKey input) op_create (ii_idempotencyKey input)"

definition issued ::
  "(id_prefix \<Rightarrow> nat \<Rightarrow> string) \<Rightarrow> issue_input \<Rightarrow> asset_summary \<Rightarrow> upload_store \<Rightarrow> issued_session" where
  "issued gen input asset s1 =
     issuedResult input asset (gen prefix_ver (up_idsDrawn s1))
       (gen prefix_upl (Suc (up_idsDrawn s1)))
       (int (length (nullish (js_get (up_versionsByAssetId s1) (as_assetId asset)) [])) + 1)"

definition issuedStore ::
  "(id_prefix \<Rightarrow> nat \<Rightarrow> string) \<Rightarrow> issue_input \<Rightarrow> asset_summary \<Rightarrow> upload_store \<Rightarrow> upload_store" where
  "issuedStore gen input asset s1 =
     (let existing = nullish (js_get (up_versionsByAssetId s1) (as_assetId asset)) [];
          vid = gen prefix_ver (up_idsDrawn s1);
          sid = gen prefix_upl (Suc (up_idsDrawn s1)) in
      s1\<lparr>up_versionsById :=
           js_set vid (newVersionRecord input asset vid (int (length existing) + 1))
             (up_versionsById s1),
         up_versionsByAssetId :=
           js_set (as_assetId asset) (existing @ [vid]) (up_versionsByAssetId s1),
         up_uploadSessions :=
           js_set sid (newSessionRecord input asset vid sid) (up_uploadSessions s1),
         up_idempotencyRecords :=
           js_set (issueKey input)
             (ii_normalizedRequestHash input, IssuedResult (issued gen input asset s1))
             (up_idempotencyRecords s1),
         up_idsDrawn := Suc (Suc (up_idsDrawn s1))\<rparr>)"

lemma issue_outcomes:
  assumes "issueUploadSession gen input s = (s', r)"
  obtains
    (replay) hash result where "js_get (up_idempotencyRecords s) (issueKey input) = Some (hash, result)"
      "s' = s" "r = (if hash = ii_normalizedRequestHash input then Inr (result, True)
                     else Inl (UploadSessionIdempotencyConflictError (ii_idempotencyKey input)))"
  | (no_asset) e where "js_get (up_idempotencyRecords s) (issueKey input) = None" "s' = s" "r = Inl e"
  | (created) s1 asset where "js_get (up_idempotencyRecords s) (issueKey input) = None"
      "resolveOrCreateAsset gen input s = (s1, Inr asset)"
      "s' = issuedStore gen input asset s1"
      "r = Inr (IssuedResult (issued gen input asset s1), False)"
proof (cases "js_get (up_idempotencyRecords s) (issueKey input)")
  case (Some hr)
  obtain hash result where hr: "hr = (hash, result)" by (cases hr)
  show ?thesis using assms Some
    by (intro replay [of hash result])
      (auto simp: hr issueUploadSession_def Let_def issueKey_def split: if_splits)
next
  case None
  obtain s1 ra where res: "resolveOrCreateAsset gen input s = (s1, ra)"
    by (cases "resolveOrCreateAsset gen input s")
  show ?thesis
  proof (cases ra)
    case (Inl e)
    then have "s1 = s" using res
      by (auto simp: resolveOrCreateAsset_def Let_def split: if_splits option.splits)
    then show ?thesis using assms None res Inl
      by (intro no_asset [of e]) (auto simp: issueUploadSession_def Let_def issueKey_def)
  next
    case (Inr asset)
    then show ?thesis using assms None res
      by (intro created [of s1 asset])
        (simp_all add: issueUploadSession_def Let_def issueKey_def issuedStore_def issued_def)
  qed
qed

text \<open>Identifiers are drawn once, and the versions of an asset are numbered from 1.\<close>

definition drawn :: "(id_prefix \<Rightarrow> nat \<Rightarrow> string) \<Rightarrow> id_prefix \<Rightarrow> nat \<Rightarrow> string \<Rightarrow> bool" where
  "drawn gen p n k \<longleftrightarrow> (\<exists>i<n. k = gen p i)"

lemma drawn_mono: "drawn gen p n k \<Longrightarrow> n \<le> m \<Longrightarrow> drawn gen p m k"
  unfolding drawn_def using less_le_trans by blast

lemma drawn_index [simp]: "i < n \<Longrightarrow> drawn gen p n (gen p i)"
  unfolding drawn_def by blast

definition ids_inv :: "(id_prefix \<Rightarrow> nat \<Rightarrow> string) \<Rightarrow> upload_store \<Rightarrow> bool" where
  "ids_inv gen s \<longleftrightarrow>
     (\<forall>k. js_get (up_assets s) k \<noteq> None \<longrightarrow> drawn gen prefix_ast (up_idsDrawn s) k) \<and>
     (\<forall>k. js_get (up_versionsById s) k \<noteq> None \<longrightarrow> drawn gen prefix_ver (up_idsDrawn s) k) \<and>
     (\<forall>k. js_get (up_uploadSessions s) k \<noteq> None \<longrightarrow> drawn gen prefix_upl (up_idsDrawn s) k) \<and>
     (\<forall>k a. js_get (up_assets s) k = Some a \<longrightarrow> as_assetId a = k) \<and>
     (\<forall>k. js_get (up_versionsByAssetId s) k \<noteq> None \<longrightarrow> js_get (up_assets s) k \<noteq> None)"

lemma ids_invI:
  assumes "\<And>k. js_get (up_assets s) k \<noteq> None \<Longrightarrow> drawn gen prefix_ast (up_idsDrawn s) k"
    and "\<And>k. js_get (up_versionsById s) k \<noteq> None \<Longrightarrow> drawn gen prefix_ver (up_idsDrawn s) k"
    and "\<And>k. js_get (up_uploadSessions s) k \<noteq> None \<Longrightarrow> drawn gen prefix_upl (up_idsDrawn s) k"
    and "\<And>k a. js_get (up_assets s) k = Some a \<Longrightarrow> as_assetId a = k"
    and "\<And>k. js_get (up_versionsByAssetId s) k \<noteq> None \<Longrightarrow> js_get (up_assets s) k \<noteq> None"
  shows "ids_inv gen s"
  using assms unfolding ids_inv_def by blast

lemma ids_inv_parts:
  assumes "ids_inv gen s"
  shows "js_get (up_assets s) k \<noteq> None \<Longrightarrow> drawn gen prefix_ast (up_idsDrawn s) k"
    and "js_get (up_versionsById s) k \<noteq> None \<Longrightarrow> drawn gen prefix_ver (up_idsDrawn s) k"
    and "js_get (up_uploadSessions s) k \<noteq> None \<Longrightarrow> drawn gen prefix_upl (up_idsDrawn s) k"
    and "js_get (up_assets s) k = Some a \<Longrightarrow> as_assetId a = k"
    and "js_get (up_versionsByAssetId s) k \<noteq> None \<Longrightarrow> js_get (up_assets s) k \<noteq> None"
  using assms unfolding ids_inv_def by blast+

definition versions_of :: "upload_store \<Rightarrow> string \<Rightarrow> string list" where
  "versions_of s a = nullish (js_get (up_versionsByAssetId s) a) []"

definition numbering_inv :: "upload_store \<Rightarrow> bool" where
  "numbering_inv s \<longleftrightarrow>
     (\<forall>a. \<forall>k<length (versions_of s a).
        \<exists>v. js_get (up_versionsById s) (versions_of s a ! k) = Some v \<and>
            vr_versionId v = versions_of s a ! k \<and>
            vr_assetId v = a \<and> vr_versionNumber v = int k + 1) \<and>
     (\<forall>vid v. js_get (up_versionsById s) vid = Some v \<longrightarrow> vid \<in> set (versions_of s (vr_assetId v)))"

definition upload_inv :: "(id_prefix \<Rightarrow> nat \<Rightarrow> string) \<Rightarrow> upload_world \<Rightarrow> bool" where
  "upload_inv gen w \<longleftrightarrow>
     sessions_inv (set (waiting (snd w))) (fst w) \<and> distinct (waiting (snd w)) \<and>
     ids_inv gen (fst w) \<and> numbering_inv (fst w)"

lemma upload_inv_initial: "upload_inv gen (newUploadStore, [])"
  by (simp add: upload_inv_def sessions_inv_def ids_inv_def numbering_inv_def versions_of_def
      newUploadStore_def)

lemma touched_ids:
  assumes i: "ids_inv gen s" and t: "touched s s' sid x x' v v'"
    and n: "up_idsDrawn s \<le> up_idsDrawn s'"
  shows "ids_inv gen s'"
proof -
  have v: "\<And>k. js_get (up_versionsById s') k \<noteq> None \<Longrightarrow> js_get (up_versionsById s) k \<noteq> None"
    and u: "\<And>k. js_get (up_uploadSessions s') k \<noteq> None \<Longrightarrow> js_get (up_uploadSessions s) k \<noteq> None"
    and same: "up_assets s' = up_assets s" "up_versionsByAssetId s' = up_versionsByAssetId s"
    using t by (auto simp: touched_def split: if_splits)
  note m = drawn_mono [OF _ n] and p = ids_inv_parts [OF i]
  show ?thesis
    using m [OF p(1)] m [OF p(2) [OF v]] m [OF p(3) [OF u]] p(4,5)
    by (intro ids_invI) (simp_all only: same)
qed

lemma touched_numbering:
  assumes "numbering_inv s" "touched s s' sid x x' v v'"
  shows "numbering_inv s'"
proof -
  have t: "\<And>vid w. js_get (up_versionsById s') vid = Some w \<Longrightarrow>
      \<exists>w0. js_get (up_versionsById s) vid = Some w0 \<and> vr_assetId w0 = vr_assetId w"
    and b: "\<And>vid w. js_get (up_versionsById s) vid = Some w \<Longrightarrow>
      \<exists>w1. js_get (up_versionsById s') vid = Some w1 \<and> vr_assetId w1 = vr_assetId w \<and>
        vr_versionId w1 = vr_versionId w \<and> vr_versionNumber w1 = vr_versionNumber w"
    using assms(2) by (auto simp: touched_def split: if_splits)
  have vs: "versions_of s' = versions_of s"
    using assms(2) by (simp add: fun_eq_iff versions_of_def touched_def)
  show ?thesis
    unfolding numbering_inv_def vs
  proof (intro conjI allI impI)
    fix a k assume "k < length (versions_of s a)"
    then obtain w where w: "js_get (up_versionsById s) (versions_of s a ! k) = Some w"
      "vr_versionId w = versions_of s a ! k" "vr_assetId w = a" "vr_versionNumber w = int k + 1"
      using assms(1) unfolding numbering_inv_def by blast
    then show "\<exists>v. js_get (up_versionsById s') (versions_of s a ! k) = Some v \<and>
        vr_versionId v = versions_of s a ! k \<and> vr_assetId v = a \<and> vr_versionNumber v = int k + 1"
      using b [OF w(1)] by auto
  next
    fix vid w assume "js_get (up_versionsById s') vid = Some w"
    then show "vid \<in> set (versions_of s (vr_assetId w))"
      using t assms(1) unfolding numbering_inv_def by metis
  qed
qed

text \<open>The part of an issuance that resolves the asset keeps the invariant.\<close>

lemma resolve_asset:
  assumes run: "resolveOrCreateAsset gen input s = (s1, Inr asset)"
    and inv: "ids_inv gen s"
  shows "ids_inv gen s1" "js_get (up_assets s1) (as_assetId asset) = Some asset"
    "up_versionsById s1 = up_versionsById s" "up_uploadSessions s1 = up_uploadSessions s"
    "up_versionsByAssetId s1 = up_versionsByAssetId s"
    "up_idempotencyRecords s1 = up_idempotencyRecords s"
proof -
  have known: "\<And>k a. js_get (up_assets s) k = Some a \<Longrightarrow> as_assetId a = k"
    using inv unfolding ids_inv_def by blast
  consider "s1 = s" "js_get (up_assets s) (the (ii_assetId input)) = Some asset"
    | "s1 = s\<lparr>up_assets := js_set (gen prefix_ast (up_idsDrawn s)) asset (up_assets s),
              up_idsDrawn := Suc (up_idsDrawn s)\<rparr>"
      "as_assetId asset = gen prefix_ast (up_idsDrawn s)"
    using run by (auto simp: resolveOrCreateAsset_def Let_def split: if_splits option.splits)
  then have "ids_inv gen s1 \<and> js_get (up_assets s1) (as_assetId asset) = Some asset \<and>
    up_versionsById s1 = up_versionsById s \<and> up_uploadSessions s1 = up_uploadSessions s \<and>
    up_versionsByAssetId s1 = up_versionsByAssetId s \<and>
    up_idempotencyRecords s1 = up_idempotencyRecords s"
  proof cases
    case 1
    then show ?thesis using inv known [OF 1(2)] by auto
  next
    case 2
    have "ids_inv gen s1"
      by (rule ids_invI)
        (use ids_inv_parts [OF inv] in
          \<open>auto simp: 2 split: if_splits intro: drawn_mono [OF _ le_SucI [OF order_refl]]\<close>)
    then show ?thesis using 2 by simp
  qed
  then show "ids_inv gen s1" "js_get (up_assets s1) (as_assetId asset) = Some asset"
    "up_versionsById s1 = up_versionsById s" "up_uploadSessions s1 = up_uploadSessions s"
    "up_versionsByAssetId s1 = up_versionsByAssetId s"
    "up_idempotencyRecords s1 = up_idempotencyRecords s" by blast+
qed

lemma fresh_id_unused:
  assumes "distinct_ids gen" "ids_inv gen s" "up_idsDrawn s \<le> i"
  shows "js_get (up_versionsById s) (gen prefix_ver i) = None"
    "js_get (up_uploadSessions s) (gen prefix_upl i) = None"
  using assms unfolding distinct_ids_def ids_inv_def drawn_def by (metis not_le)+

text \<open>A session and a version under new keys.\<close>

lemma sessions_inv_add:
  assumes inv: "sessions_inv W s"
    and fresh: "js_get (up_uploadSessions s) sid = None" "js_get (up_versionsById s) vid = None"
    and ok: "session_ok W sid x v" "us_versionId x = vid"
    and s1: "\<And>k. js_get (up_uploadSessions s') k =
                  (if k = sid then Some x else js_get (up_uploadSessions s) k)"
    and s2: "\<And>k. js_get (up_versionsById s') k =
                  (if k = vid then Some v else js_get (up_versionsById s) k)"
  shows "sessions_inv W s'"
proof -
  have other: "\<And>k y. js_get (up_uploadSessions s) k = Some y \<Longrightarrow> us_versionId y \<noteq> vid"
    using fresh(2) inv by (metis option.distinct(1) sessions_inv_version)
  show ?thesis
    unfolding sessions_inv_def
  proof (intro conjI allI impI ballI)
    fix k y assume y: "js_get (up_uploadSessions s') k = Some y"
    show "\<exists>v. js_get (up_versionsById s') (us_versionId y) = Some v \<and> session_ok W k y v"
    proof (cases "k = sid")
      case True
      then show ?thesis using y ok by (simp add: s1 s2)
    next
      case False
      then have y0: "js_get (up_uploadSessions s) k = Some y" using y by (simp add: s1)
      then obtain w where "js_get (up_versionsById s) (us_versionId y) = Some w"
        "session_ok W k y w" using inv by (metis sessions_inv_version)
      then show ?thesis using other [OF y0] by (auto simp: s2)
    qed
  next
    fix k k' y y'
    assume y: "js_get (up_uploadSessions s') k = Some y"
      and y': "js_get (up_uploadSessions s') k' = Some y'" and e: "us_versionId y = us_versionId y'"
    show "k = k'"
      using y y' e ok(2) other sessions_inv_inj [OF inv] by (auto simp: s1 split: if_splits)
  next
    fix k assume "k \<in> W"
    then show "js_get (up_uploadSessions s') k \<noteq> None"
      using sessions_inv_waiting [OF inv, of k] by (auto simp: s1)
  qed
qed

lemma issued_gets:
  "js_get (up_uploadSessions (issuedStore gen input asset s1)) k =
     (if k = gen prefix_upl (Suc (up_idsDrawn s1))
      then Some (newSessionRecord input asset (gen prefix_ver (up_idsDrawn s1))
                   (gen prefix_upl (Suc (up_idsDrawn s1))))
      else js_get (up_uploadSessions s1) k)"
  "js_get (up_versionsById (issuedStore gen input asset s1)) k =
     (if k = gen prefix_ver (up_idsDrawn s1)
      then Some (newVersionRecord input asset (gen prefix_ver (up_idsDrawn s1))
                   (int (length (versions_of s1 (as_assetId asset))) + 1))
      else js_get (up_versionsById s1) k)"
  "versions_of (issuedStore gen input asset s1) a =
     (if a = as_assetId asset
      then versions_of s1 a @ [gen prefix_ver (up_idsDrawn s1)] else versions_of s1 a)"
  "up_assets (issuedStore gen input asset s1) = up_assets s1"
  "up_idsDrawn (issuedStore gen input asset s1) = Suc (Suc (up_idsDrawn s1))"
  "js_get (up_versionsByAssetId (issuedStore gen input asset s1)) k =
     (if k = as_assetId asset
      then Some (versions_of s1 (as_assetId asset) @ [gen prefix_ver (up_idsDrawn s1)])
      else js_get (up_versionsByAssetId s1) k)"
  by (simp_all add: issuedStore_def Let_def versions_of_def)

lemma issued_session_ok:
  assumes "sid \<notin> W"
  shows "session_ok W sid (newSessionRecord input asset vid sid) (newVersionRecord input asset vid n)"
  using assms by (simp add: session_ok_def newSessionRecord_def newVersionRecord_def)

lemma issued_ids:
  assumes i: "ids_inv gen s1" and a: "js_get (up_assets s1) (as_assetId asset) = Some asset"
  shows "ids_inv gen (issuedStore gen input asset s1)"
proof -
  have m: "\<And>p k. drawn gen p (up_idsDrawn s1) k \<Longrightarrow> drawn gen p (Suc (Suc (up_idsDrawn s1))) k"
    by (erule drawn_mono) simp
  note p = ids_inv_parts [OF i]
  show ?thesis
  proof (rule ids_invI; unfold issued_gets(4,5))
    fix k assume "js_get (up_versionsById (issuedStore gen input asset s1)) k \<noteq> None"
    then show "drawn gen prefix_ver (Suc (Suc (up_idsDrawn s1))) k"
      using m [OF p(2)] by (cases "k = gen prefix_ver (up_idsDrawn s1)") (simp_all add: issued_gets)
  next
    fix k assume "js_get (up_uploadSessions (issuedStore gen input asset s1)) k \<noteq> None"
    then show "drawn gen prefix_upl (Suc (Suc (up_idsDrawn s1))) k"
      using m [OF p(3)]
      by (cases "k = gen prefix_upl (Suc (up_idsDrawn s1))") (simp_all add: issued_gets)
  next
    fix k assume "js_get (up_versionsByAssetId (issuedStore gen input asset s1)) k \<noteq> None"
    then show "js_get (up_assets s1) k \<noteq> None"
      using p(5) a by (cases "k = as_assetId asset") (simp_all add: issued_gets)
  qed (rule m [OF p(1)] p(4), assumption)+
qed

lemma issued_numbering:
  assumes inv: "numbering_inv s1"
    and fresh: "js_get (up_versionsById s1) (gen prefix_ver (up_idsDrawn s1)) = None"
  shows "numbering_inv (issuedStore gen input asset s1)"
proof -
  let ?s = "issuedStore gen input asset s1" and ?vid = "gen prefix_ver (up_idsDrawn s1)"
  have old: "\<And>a k. k < length (versions_of s1 a) \<Longrightarrow>
      \<exists>v. js_get (up_versionsById s1) (versions_of s1 a ! k) = Some v \<and>
        vr_versionId v = versions_of s1 a ! k \<and> vr_assetId v = a \<and> vr_versionNumber v = int k + 1"
    using inv unfolding numbering_inv_def by blast
  have appended: "\<And>a k. k < length (versions_of s1 a) \<Longrightarrow>
      versions_of ?s a ! k = versions_of s1 a ! k"
    by (auto simp: issued_gets nth_append)
  have new: "vr_assetId (newVersionRecord input asset ?vid n) = as_assetId asset"
    "vr_versionId (newVersionRecord input asset ?vid n) = ?vid"
    "vr_versionNumber (newVersionRecord input asset ?vid n) = n" for n
    by (simp_all add: newVersionRecord_def)
  show ?thesis
    unfolding numbering_inv_def
  proof (intro conjI allI impI)
    fix a k assume k: "k < length (versions_of ?s a)"
    show "\<exists>v. js_get (up_versionsById ?s) (versions_of ?s a ! k) = Some v \<and>
        vr_versionId v = versions_of ?s a ! k \<and> vr_assetId v = a \<and> vr_versionNumber v = int k + 1"
    proof (cases "k < length (versions_of s1 a)")
      case True
      then obtain v where v: "js_get (up_versionsById s1) (versions_of s1 a ! k) = Some v"
        "vr_versionId v = versions_of s1 a ! k" "vr_assetId v = a" "vr_versionNumber v = int k + 1"
        using old by blast
      have "versions_of ?s a ! k = versions_of s1 a ! k" using True by (rule appended)
      then show ?thesis using v fresh by (intro exI [of _ v]) (auto simp: issued_gets)
    next
      case False
      then have "a = as_assetId asset" "k = length (versions_of s1 a)"
        using k by (auto simp: issued_gets split: if_splits)
      then show ?thesis by (simp add: issued_gets new)
    qed
  next
    fix vid v assume "js_get (up_versionsById ?s) vid = Some v"
    moreover have "\<And>vid v. js_get (up_versionsById s1) vid = Some v \<Longrightarrow>
        vid \<in> set (versions_of s1 (vr_assetId v))"
      using inv unfolding numbering_inv_def by blast
    ultimately show "vid \<in> set (versions_of ?s (vr_assetId v))"
      by (fastforce simp: issued_gets new split: if_splits)
  qed
qed

section \<open>Every step keeps the invariant\<close>

lemma touched_session_ok:
  assumes "sessions_inv W s" "touched s s' sid x x' v v'"
  shows "session_ok W sid x v"
  using assms sessions_inv_ok by (fastforce simp: touched_def)

lemma remember_frame:
  "up_uploadSessions (rememberCompletion input r s) = up_uploadSessions s"
  "up_versionsById (rememberCompletion input r s) = up_versionsById s"
  "up_versionsByAssetId (rememberCompletion input r s) = up_versionsByAssetId s"
  "up_assets (rememberCompletion input r s) = up_assets s"
  "up_idsDrawn (rememberCompletion input r s) = up_idsDrawn s"
  by (simp_all add: rememberCompletion_def)

lemma upload_inv_remember:
  assumes "upload_inv gen (s, fl)"
  shows "upload_inv gen (rememberCompletion input r s, fl)"
proof -
  have "sessions_inv W s \<Longrightarrow> sessions_inv W (rememberCompletion input r s)" for W
    by (erule sessions_inv_frame) (simp_all add: remember_frame)
  then show ?thesis
    using assms
    by (simp add: upload_inv_def remember_frame ids_inv_def numbering_inv_def versions_of_def)
qed

lemma upload_inv_touched:
  assumes "upload_inv gen (s, fl)" "touched s s' sid x x' v v'" "up_idsDrawn s \<le> up_idsDrawn s'"
    and "session_ok (set (waiting fl')) sid x' v'" "distinct (waiting fl')"
    and "\<And>k. k \<noteq> sid \<Longrightarrow> k \<in> set (waiting fl') \<longleftrightarrow> k \<in> set (waiting fl)"
  shows "upload_inv gen (s', fl')"
  using assms touched_inv [OF _ assms(2,4,6)] touched_ids [OF _ assms(2,3)]
    touched_numbering [OF _ assms(2)]
  by (simp add: upload_inv_def)

lemma beginComplete_ids: "beginComplete now input s = (s', st) \<Longrightarrow> up_idsDrawn s' = up_idsDrawn s"
  by (auto simp: beginComplete_def admitStagedObject_def failValidation_def setSession_def
      setVersion_def rememberCompletion_def Let_def split: option.splits prod.splits if_splits)

lemma upload_inv_begin_finished:
  assumes inv: "upload_inv gen (s, fl)" and run: "beginComplete now input s = (s', Finished r)"
  shows "upload_inv gen (s', fl)"
proof -
  have si: "sessions_inv (set (waiting fl)) s" and d: "distinct (waiting fl)"
    using inv by (simp_all add: upload_inv_def)
  have n: "up_idsDrawn s \<le> up_idsDrawn s'" using beginComplete_ids [OF run] by simp
  from run si show ?thesis
  proof (cases rule: beginComplete_outcomes)
    case (expired x v e)
    have "session_ok (set (waiting fl)) (co_uploadSessionId input) (sessionExpired x) v"
      using touched_session_ok [OF si expired(1)] by (simp add: session_ok_def sessionExpired_def)
    then show ?thesis using upload_inv_touched [OF inv expired(1) n _ d] by blast
  next
    case (failed x v e)
    let ?v = "v\<lparr>vr_lifecycleState := ver_failed_validation\<rparr>"
    have "session_ok (set (waiting fl)) (co_uploadSessionId input)
        (x\<lparr>us_uploadSessionState := sess_failed_validation\<rparr>) ?v"
      using touched_session_ok [OF si failed(3)] failed(1,2) by (simp add: session_ok_def)
    then show ?thesis using upload_inv_touched [OF inv failed(3) n _ d] by blast
  qed (use inv upload_inv_remember in auto)
qed

lemma upload_inv_begin_await:
  assumes inv: "upload_inv gen (s, fl)"
    and run: "beginComplete now input s = (s', AwaitCanonicalization req)"
  shows "upload_inv gen (s', (input, req) # fl)"
proof -
  have si: "sessions_inv (set (waiting fl)) s" and d: "distinct (waiting fl)"
    using inv by (simp_all add: upload_inv_def)
  have n: "up_idsDrawn s \<le> up_idsDrawn s'" using beginComplete_ids [OF run] by simp
  from run si show ?thesis
  proof (cases rule: beginComplete_outcomes)
    case (awaited x v)
    have ok: "session_ok (set (waiting fl)) (co_uploadSessionId input) x v"
      using touched_session_ok [OF si awaited(3)] .
    then have "co_uploadSessionId input \<notin> set (waiting fl)"
      using awaited(2) by (simp add: session_ok_def)
    moreover have "session_ok (set (waiting ((input, req) # fl))) (co_uploadSessionId input)
        (x\<lparr>us_uploadSessionState := sess_uploaded\<rparr>) (v\<lparr>vr_lifecycleState := ver_canonicalizing\<rparr>)"
      using ok awaited(1) by (simp add: session_ok_def)
    ultimately show ?thesis
      using upload_inv_touched [OF inv awaited(3) n, of "(input, req) # fl"] d by simp
  qed auto
qed

lemma upload_inv_answer:
  assumes inv: "upload_inv gen (s, fl1 @ (input, req) # fl2)"
    and run: "finishComplete gen input answer s = (s', r)"
  shows "upload_inv gen (s', fl1 @ fl2)"
proof -
  let ?sid = "co_uploadSessionId input" and ?W = "set (waiting (fl1 @ (input, req) # fl2))"
  have si: "sessions_inv ?W s" and d: "distinct (waiting (fl1 @ (input, req) # fl2))"
    using inv by (simp_all add: upload_inv_def)
  have known: "?sid \<in> ?W" by simp
  have gone: "?sid \<notin> set (waiting (fl1 @ fl2))" and d': "distinct (waiting (fl1 @ fl2))"
    using d by auto
  have rest: "\<And>k. k \<noteq> ?sid \<Longrightarrow> k \<in> set (waiting (fl1 @ fl2)) \<longleftrightarrow> k \<in> ?W" by auto
  from run si known show ?thesis
  proof (cases rule: finishComplete_outcomes)
    case (retryable x v cause)
    have ok: "session_ok ?W ?sid x v" using touched_session_ok [OF si retryable(2)] .
    then have "us_completionResult x = None"
      by (auto simp: session_ok_def split: option.splits)
    then have "session_ok (set (waiting (fl1 @ fl2))) ?sid x
        (v\<lparr>vr_lifecycleState := ver_failed_retryable\<rparr>)"
      using ok gone by (simp add: session_ok_def)
    then show ?thesis
      using upload_inv_touched [OF inv retryable(2) _ _ d' rest] retryable(5) by simp
  next
    case (canonical x v snapshot d)
    have ok: "session_ok ?W ?sid x v" using touched_session_ok [OF si canonical(2)] .
    have "session_ok (set (waiting (fl1 @ fl2))) ?sid
        (x\<lparr>us_completionRequestHash := Some (co_normalizedRequestHash input),
           us_completionResult := Some (completionResult ?sid snapshot d v)\<rparr>)
        (v\<lparr>vr_canonicalSourceEvidence := Some (snapshotResultToCanonicalSourceEvidence snapshot),
           vr_lifecycleState := ver_canonical, vr_workflowDispatch := Some d\<rparr>)"
      using ok gone by (simp add: session_ok_def completionResult_def
          buildCompletionResultFromPersistedEvidence_def)
    then show ?thesis
      using upload_inv_touched [OF inv canonical(2) _ _ d' rest] canonical(5) by simp
  qed
qed

lemma upload_inv_issue:
  assumes gen: "distinct_ids gen" and inv: "upload_inv gen (s, fl)"
    and run: "issueUploadSession gen input s = (s', r)"
  shows "upload_inv gen (s', fl)"
  using run
proof (cases rule: issue_outcomes)
  case (created s1 asset)
  have si: "sessions_inv (set (waiting fl)) s" and ids: "ids_inv gen s" and num: "numbering_inv s"
    using inv by (simp_all add: upload_inv_def)
  note res = resolve_asset [OF created(2) ids]
  have fresh: "js_get (up_versionsById s1) (gen prefix_ver (up_idsDrawn s1)) = None"
    "js_get (up_uploadSessions s1) (gen prefix_upl (Suc (up_idsDrawn s1))) = None"
    using fresh_id_unused [OF gen res(1)] by simp_all
  have si1: "sessions_inv (set (waiting fl)) s1" using sessions_inv_frame [OF si res(4,3)] .
  have num1: "numbering_inv s1" using num by (simp add: numbering_inv_def versions_of_def res)
  have new: "gen prefix_upl (Suc (up_idsDrawn s1)) \<notin> set (waiting fl)"
    using sessions_inv_waiting [OF si1] fresh(2) by force
  have "sessions_inv (set (waiting fl)) (issuedStore gen input asset s1)"
    by (rule sessions_inv_add [OF si1 fresh(2,1) issued_session_ok [OF new] _ issued_gets(1,2)])
      (simp add: newSessionRecord_def)
  moreover have "numbering_inv (issuedStore gen input asset s1)"
    using num1 fresh(1) by (rule issued_numbering)
  ultimately show ?thesis
    using inv issued_ids [OF res(1,2)]
    by (simp add: upload_inv_def created(3))
qed (use inv in auto)

lemma upload_step_inv:
  assumes "upload_step gen K w w'" "distinct_ids gen" "upload_inv gen w"
  shows "upload_inv gen w'"
  using assms
  by (cases rule: upload_step.cases)
    (blast intro: upload_inv_issue upload_inv_begin_finished upload_inv_begin_await
      upload_inv_answer)+

lemma upload_steps_inv:
  assumes "(upload_step gen K)\<^sup>*\<^sup>* w w'" "distinct_ids gen" "upload_inv gen w"
  shows "upload_inv gen w'"
  using assms by (induction rule: rtranclp_induct) (auto intro: upload_step_inv)

lemma reachable_upload_inv:
  "upload_reachable gen K w \<Longrightarrow> distinct_ids gen \<Longrightarrow> upload_inv gen w"
  unfolding upload_reachable_def by (rule upload_steps_inv [OF _ _ upload_inv_initial])

section \<open>Keys do not collide\<close>

definition colon_free :: "string \<Rightarrow> bool" where
  "colon_free k \<longleftrightarrow> CHR '':'' \<notin> set k"

lemma first_separator:
  "ks @ c # xs = ls @ c # ys \<Longrightarrow> c \<notin> set ks \<Longrightarrow> c \<notin> set ls \<Longrightarrow> ks = ls \<and> xs = ys"
proof (induction ks arbitrary: ls)
  case Nil
  then show ?case by (cases ls) auto
next
  case (Cons k ks)
  then show ?case by (cases ls) auto
qed

lemma last_separator:
  assumes "xs @ c # ks = ys @ c # ls" "c \<notin> set ks" "c \<notin> set ls"
  shows "xs = ys \<and> ks = ls"
proof -
  have "rev ks @ c # rev xs = rev ls @ c # rev ys"
    using arg_cong [OF assms(1), of rev] by simp
  then show ?thesis using assms(2,3) first_separator [of "rev ks" c "rev xs" "rev ls" "rev ys"] by simp
qed

lemma operation_key_inj:
  assumes "buildOperationIdempotencyKey c op k = buildOperationIdempotencyKey c' op' k'"
    and "colon_free k" "colon_free k'"
  shows "c = c' \<and> op = op' \<and> k = k'"
proof -
  have "c @ '':'' @ operationName op = c' @ '':'' @ operationName op' \<and> k = k'"
    using assms last_separator [of "c @ '':'' @ operationName op" "CHR '':''" k
        "c' @ '':'' @ operationName op'" k']
    by (simp add: buildOperationIdempotencyKey_def colon_free_def)
  moreover from this have "op = op'"
    using arg_cong [of "c @ '':'' @ operationName op" "c' @ '':'' @ operationName op'" rev]
    by (cases op; cases op') auto
  ultimately show ?thesis by simp
qed

text \<open>Every waiting completion was sent with an admitted key.\<close>

lemma reachable_waiting_keys:
  assumes "upload_reachable gen K w"
  shows "\<forall>c\<in>set (snd w). K (co_idempotencyKey (fst c))"
  using assms unfolding upload_reachable_def
  by (induction rule: rtranclp_induct) (auto elim!: upload_stepE)

lemma upload_reachable_step:
  "upload_reachable gen K w \<Longrightarrow> upload_step gen K w w' \<Longrightarrow> upload_reachable gen K w'"
  unfolding upload_reachable_def by (rule rtranclp.rtrancl_into_rtrancl)

lemma upload_reachable_steps:
  "upload_reachable gen K w \<Longrightarrow> (upload_step gen K)\<^sup>*\<^sup>* w w' \<Longrightarrow> upload_reachable gen K w'"
  unfolding upload_reachable_def by (rule rtranclp_trans)

text \<open>An idempotency record of an issuance is kept by every step.\<close>

lemma issue_record_step:
  assumes step: "upload_step gen colon_free w w'"
    and reach: "upload_reachable gen colon_free w" and gen: "distinct_ids gen"
    and key: "colon_free k"
    and rec: "js_get (up_idempotencyRecords (fst w)) (buildOperationIdempotencyKey c op_create k) = Some h"
  shows "js_get (up_idempotencyRecords (fst w')) (buildOperationIdempotencyKey c op_create k) = Some h"
proof -
  let ?key = "buildOperationIdempotencyKey c op_create k"
  have inv: "upload_inv gen w" using reachable_upload_inv [OF reach gen] .
  have complete: "buildOperationIdempotencyKey c' op_complete k' \<noteq> ?key"
      "?key \<noteq> buildOperationIdempotencyKey c' op_complete k'" if "colon_free k'" for c' k'
    using operation_key_inj [OF _ that key] operation_key_inj [OF _ key that] by blast+
  from step show ?thesis
  proof (cases rule: upload_step.cases)
    case (step_issue input s s' r fl)
    have res: "up_idempotencyRecords s1 = up_idempotencyRecords s"
      if "resolveOrCreateAsset gen input s = (s1, Inr a)" for s1 a
      using resolve_asset(6) [OF that] inv step_issue by (simp add: upload_inv_def)
    from step_issue(4) show ?thesis
    proof (cases rule: issue_outcomes)
      case (created s1 asset)
      have "issueKey input \<noteq> ?key" using created(1) rec step_issue by auto
      then show ?thesis
        using rec step_issue created(3) res [OF created(2)] by (simp add: issuedStore_def Let_def)
    qed (use rec step_issue in auto)
  next
    case (step_finished input now s s' r fl)
    have si: "sessions_inv (set (waiting fl)) s" using inv step_finished by (simp add: upload_inv_def)
    from step_finished(4) si show ?thesis
    proof (cases rule: beginComplete_outcomes)
      case (remembered x r)
      then show ?thesis using rec step_finished complete [OF step_finished(3)]
        by (simp add: rememberCompletion_def)
    qed (use rec step_finished in auto)
  next
    case (step_await input now s s' req fl)
    have si: "sessions_inv (set (waiting fl)) s" using inv step_await by (simp add: upload_inv_def)
    from step_await(4) si show ?thesis
      by (cases rule: beginComplete_outcomes) (use rec step_await in auto)
  next
    case (step_answer input answer s s' r fl1 req fl2)
    have si: "sessions_inv (set (waiting (fl1 @ (input, req) # fl2))) s"
      using inv step_answer by (simp add: upload_inv_def)
    have "colon_free (co_idempotencyKey input)"
      using reachable_waiting_keys [OF reach] step_answer by auto
    note other = complete [OF this]
    have known: "co_uploadSessionId input \<in> set (waiting (fl1 @ (input, req) # fl2))" by simp
    from step_answer(3) si known show ?thesis
      by (cases rule: finishComplete_outcomes) (use rec step_answer other in auto)
  qed
qed

lemma issue_record_steps:
  assumes "(upload_step gen colon_free)\<^sup>*\<^sup>* w w'" "upload_reachable gen colon_free w"
    "distinct_ids gen" "colon_free k"
    "js_get (up_idempotencyRecords (fst w)) (buildOperationIdempotencyKey c op_create k) = Some h"
  shows "js_get (up_idempotencyRecords (fst w')) (buildOperationIdempotencyKey c op_create k) = Some h"
  using assms
proof (induction rule: rtranclp_induct)
  case (step v u)
  then show ?case
    using issue_record_step [OF step(2)] upload_reachable_steps [OF step(4) step(1)] by blast
qed

section \<open>A canonical version is final\<close>

lemma touched_no_evidence:
  assumes "sessions_inv W s" "touched s s' sid x x' v v'" "us_completionResult x = None"
  shows "vr_canonicalSourceEvidence v = None"
  using touched_session_ok [OF assms(1,2)] assms(3) by (simp add: session_ok_def)

lemma touched_version_kept:
  assumes "touched s s' sid x x' v v'" "js_get (up_versionsById s) vid = Some w"
    and "vr_canonicalSourceEvidence w \<noteq> None" "v' = v \<or> vr_canonicalSourceEvidence v = None"
  shows "js_get (up_versionsById s') vid = Some w"
  using assms by (auto simp: touched_def)

lemma canonical_version_step:
  assumes step: "upload_step gen K w w'" and inv: "upload_inv gen w" and gen: "distinct_ids gen"
    and v: "js_get (up_versionsById (fst w)) vid = Some u" "vr_canonicalSourceEvidence u \<noteq> None"
  shows "js_get (up_versionsById (fst w')) vid = Some u"
  using step
proof (cases rule: upload_step.cases)
  case (step_issue input s s' r fl)
  have ids: "ids_inv gen s" using inv step_issue by (simp add: upload_inv_def)
  from step_issue(4) show ?thesis
  proof (cases rule: issue_outcomes)
    case (created s1 asset)
    note res = resolve_asset [OF created(2) ids]
    have "js_get (up_versionsById s1) (gen prefix_ver (up_idsDrawn s1)) = None"
      using fresh_id_unused [OF gen res(1)] by simp
    then show ?thesis using v step_issue created(3) res(3) by (auto simp: issued_gets)
  qed (use v step_issue in auto)
next
  case (step_finished input now s s' r fl)
  have si: "sessions_inv (set (waiting fl)) s" using inv step_finished by (simp add: upload_inv_def)
  have v0: "js_get (up_versionsById s) vid = Some u" using v step_finished by simp
  from step_finished(4) si show ?thesis
  proof (cases rule: beginComplete_outcomes)
    case (expired x y e)
    then show ?thesis using touched_version_kept [OF expired(1) v0 v(2)] step_finished by simp
  next
    case (failed x y e)
    then show ?thesis
      using touched_version_kept [OF failed(3) v0 v(2)] touched_no_evidence [OF si failed(3,1)]
        step_finished by simp
  qed (use v step_finished in \<open>auto simp: remember_frame\<close>)
next
  case (step_await input now s s' req fl)
  have si: "sessions_inv (set (waiting fl)) s" using inv step_await by (simp add: upload_inv_def)
  have v0: "js_get (up_versionsById s) vid = Some u" using v step_await by simp
  from step_await(4) si show ?thesis
  proof (cases rule: beginComplete_outcomes)
    case (awaited x y)
    then show ?thesis
      using touched_version_kept [OF awaited(3) v0 v(2)] touched_no_evidence [OF si awaited(3,1)]
        step_await by simp
  qed auto
next
  case (step_answer input answer s s' r fl1 req fl2)
  let ?W = "set (waiting (fl1 @ (input, req) # fl2))"
  have si: "sessions_inv ?W s" using inv step_answer by (simp add: upload_inv_def)
  have known: "co_uploadSessionId input \<in> ?W" by simp
  have v0: "js_get (up_versionsById s) vid = Some u" using v step_answer by simp
  have none: "vr_canonicalSourceEvidence y = None"
    if "touched s s' (co_uploadSessionId input) x x' y y'" for x x' y y'
    using touched_session_ok [OF si that] known by (auto simp: session_ok_def split: option.splits)
  from step_answer(3) si known show ?thesis
  proof (cases rule: finishComplete_outcomes)
    case (retryable x y cause)
    then show ?thesis
      using touched_version_kept [OF retryable(2) v0 v(2)] none [OF retryable(2)] step_answer by simp
  next
    case (canonical x y snapshot d)
    then show ?thesis
      using touched_version_kept [OF canonical(2) v0 v(2)] none [OF canonical(2)] step_answer by simp
  qed
qed

lemma canonical_version_steps:
  assumes "(upload_step gen K)\<^sup>*\<^sup>* w w'" "upload_inv gen w" "distinct_ids gen"
    "js_get (up_versionsById (fst w)) vid = Some u" "vr_canonicalSourceEvidence u \<noteq> None"
  shows "js_get (up_versionsById (fst w')) vid = Some u"
  using assms
proof (induction rule: rtranclp_induct)
  case (step x y)
  then show ?case
    using canonical_version_step [OF step(2) upload_steps_inv [OF step(1) step(5,4)]] by blast
qed

section \<open>Examples\<close>

definition exampleIds :: "id_prefix \<Rightarrow> nat \<Rightarrow> string" where
  "exampleIds p i =
     (case p of prefix_ast \<Rightarrow> ''ast'' | prefix_ver \<Rightarrow> ''ver'' | prefix_upl \<Rightarrow> ''upl''
              | prefix_wd \<Rightarrow> ''wd'') @ replicate i (CHR ''0'')"

lemma distinct_exampleIds: "distinct_ids exampleIds"
  unfolding distinct_ids_def exampleIds_def by (metis append_same_eq length_replicate same_append_eq)

definition exampleChecksum :: object_checksum where
  "exampleChecksum = \<lparr>oc_algorithm = sha256, oc_value = ''abc''\<rparr>"

definition exampleIssue :: "string \<Rightarrow> issue_input" where
  "exampleIssue key =
     \<lparr>ii_assetId = None, ii_assetOwner = ''alice'', ii_callerScopeKey = ''caller'',
      ii_checksum = exampleChecksum, ii_contentType = ''image/png'', ii_expiresAt = 100,
      ii_filename = ''a.png'', ii_idempotencyKey = key, ii_normalizedRequestHash = ''h'',
      ii_objectKey = ''staging/a'', ii_serviceNamespaceId = ''media'', ii_tenantId = None,
      ii_byteLength = 7\<rparr>"

definition exampleComplete :: "string \<Rightarrow> string \<Rightarrow> complete_input" where
  "exampleComplete sid key =
     \<lparr>co_callerScopeKey = ''caller'', co_idempotencyKey = key, co_normalizedRequestHash = ''h'',
      co_stagedObject =
        \<lparr>so_byteLength = 7, so_checksum = exampleChecksum,
         so_descriptor = \<lparr>so_bucket = ''b'', so_key = ''staging/a'', so_descriptorLength = 7,
                          so_declaredChecksum = Some exampleChecksum\<rparr>,
         so_objectKey = ''staging/a''\<rparr>,
      co_uploadSessionId = sid, co_workflowTemplate = None\<rparr>"

definition exampleSnapshot :: snapshot_result where
  "exampleSnapshot =
     \<lparr>sn_repositoryEngine = engine_xet, sn_canonicalSourceId = ''src'', sn_snapshotId = ''snap'',
      sn_logicalPath = ''media/a'', sn_digests = [exampleChecksum], sn_logicalByteLength = Some 7,
      sn_storedByteLength = None, sn_dedupeMetrics = None, sn_reconstructionHandles = None,
      sn_substrateHints = None\<rparr>"

definition issuedExample :: upload_store where
  "issuedExample = fst (issueUploadSession exampleIds (exampleIssue ''k'') newUploadStore)"

definition waitingExample :: upload_store where
  "waitingExample = fst (beginComplete 50 (exampleComplete ''upl00'' ''c'') issuedExample)"

definition exampleRequest :: canonicalization_request where
  "exampleRequest =
     \<lparr>cr_assetId = ''ast'', cr_assetOwner = ''alice'', cr_filename = ''a.png'',
      cr_serviceNamespaceId = ''media'', cr_tenantId = None, cr_uploadSessionId = ''upl00'',
      cr_versionId = ''ver0'', cr_versionNumber = 1,
      cr_stagedObject = co_stagedObject (exampleComplete ''upl00'' ''c'')\<rparr>"

definition completedExample :: upload_store where
  "completedExample =
     fst (finishComplete exampleIds (exampleComplete ''upl00'' ''c'') (Inr exampleSnapshot)
            waitingExample)"

lemma example_begin:
  "beginComplete 50 (exampleComplete ''upl00'' ''c'') issuedExample =
     (waitingExample, AwaitCanonicalization exampleRequest)"
  by code_simp

lemma issued_reachable: "upload_reachable exampleIds colon_free (issuedExample, [])"
proof -
  have "upload_step exampleIds colon_free (newUploadStore, []) (issuedExample, [])"
    by (rule step_issue [of _ "exampleIssue ''k''" _ _ _
          "snd (issueUploadSession exampleIds (exampleIssue ''k'') newUploadStore)"])
      (simp_all add: issuedExample_def colon_free_def exampleIssue_def)
  then show ?thesis by (simp add: upload_reachable_def)
qed

lemma example_await_step:
  "upload_step exampleIds colon_free (issuedExample, [])
     (waitingExample, [(exampleComplete ''upl00'' ''c'', exampleRequest)])"
  by (rule step_await [OF _ example_begin]) (simp add: colon_free_def exampleComplete_def)

lemma example_answer_step:
  "upload_step exampleIds colon_free
     (waitingExample, [(exampleComplete ''upl00'' ''c'', exampleRequest)]) (completedExample, [])"
  using step_answer [of exampleIds "exampleComplete ''upl00'' ''c''" "Inr exampleSnapshot"
      waitingExample completedExample
      "snd (finishComplete exampleIds (exampleComplete ''upl00'' ''c'') (Inr exampleSnapshot)
              waitingExample)" colon_free "[]" exampleRequest "[]"]
  by (simp add: completedExample_def)

lemma waiting_reachable:
  "upload_reachable exampleIds colon_free
     (waitingExample, [(exampleComplete ''upl00'' ''c'', exampleRequest)])"
  by (rule upload_reachable_step [OF issued_reachable example_await_step])

lemma completed_reachable: "upload_reachable exampleIds colon_free (completedExample, [])"
  by (rule upload_reachable_step [OF waiting_reachable example_answer_step])

section \<open>Properties\<close>

text \<open>C2. Only one canonicalization of a version is ever in flight. In every reachable state of
  the service, however calls interleave, no two waiting completions belong to the same session,
  and a session waits for the canonicalizer exactly when its version is \<open>canonicalizing\<close>.\<close>

theorem canonicalization_single_flight:
  assumes "upload_reachable gen K (s, fl)" "distinct_ids gen"
  shows "distinct (waiting fl) \<and>
    (\<forall>sid x v. js_get (up_uploadSessions s) sid = Some x \<longrightarrow>
       js_get (up_versionsById s) (us_versionId x) = Some v \<longrightarrow>
       (sid \<in> set (waiting fl) \<longleftrightarrow> vr_lifecycleState v = ver_canonicalizing))"
proof -
  have inv: "upload_inv gen (s, fl)" using assms by (rule reachable_upload_inv)
  then have "sessions_inv (set (waiting fl)) s" by (simp add: upload_inv_def)
  from sessions_inv_ok [OF this] inv show ?thesis by (simp add: upload_inv_def session_ok_def)
qed

theorem canonicalization_single_flight_witness:
  "(''upl00'' \<in> set (waiting [(exampleComplete ''upl00'' ''c'', exampleRequest)])) =
     (vr_lifecycleState (the (js_get (up_versionsById waitingExample) ''ver0'')) =
        ver_canonicalizing)"
proof -
  have 1: "js_get (up_uploadSessions waitingExample) ''upl00'' =
      Some (the (js_get (up_uploadSessions waitingExample) ''upl00''))"
    and 2: "us_versionId (the (js_get (up_uploadSessions waitingExample) ''upl00'')) = ''ver0''"
    and 3: "js_get (up_versionsById waitingExample) ''ver0'' =
      Some (the (js_get (up_versionsById waitingExample) ''ver0''))" by code_simp+
  show ?thesis
    using canonicalization_single_flight [OF waiting_reachable distinct_exampleIds] 1 2 3 by metis
qed

text \<open>C3. A version that has canonical evidence is final: whatever calls run afterwards, in any
  order and with any canonicalizer answers, its record (evidence, workflow dispatch, lifecycle
  state, identity) is never changed by the upload service.\<close>

theorem canonical_version_is_final:
  assumes "upload_reachable gen K w" "distinct_ids gen" "(upload_step gen K)\<^sup>*\<^sup>* w w'"
    and "js_get (up_versionsById (fst w)) vid = Some v" "vr_canonicalSourceEvidence v = Some e"
  shows "js_get (up_versionsById (fst w')) vid = Some v"
  using assms canonical_version_steps [OF assms(3) reachable_upload_inv [OF assms(1,2)]] by simp

theorem canonical_version_is_final_witness:
  "js_get (up_versionsById
     (fst (issueUploadSession exampleIds (exampleIssue ''k2'') completedExample))) ''ver0'' =
   js_get (up_versionsById completedExample) ''ver0''"
proof -
  let ?s = "fst (issueUploadSession exampleIds (exampleIssue ''k2'') completedExample)"
  have "upload_step exampleIds colon_free (completedExample, []) (?s, [])"
    by (rule step_issue [of _ "exampleIssue ''k2''" _ _ _
          "snd (issueUploadSession exampleIds (exampleIssue ''k2'') completedExample)"])
      (simp_all add: colon_free_def exampleIssue_def)
  then have steps: "(upload_step exampleIds colon_free)\<^sup>*\<^sup>* (completedExample, []) (?s, [])" by simp
  have v: "js_get (up_versionsById completedExample) ''ver0'' =
      Some (the (js_get (up_versionsById completedExample) ''ver0''))"
    and e: "vr_canonicalSourceEvidence (the (js_get (up_versionsById completedExample) ''ver0'')) =
      Some (snapshotResultToCanonicalSourceEvidence exampleSnapshot)" by code_simp+
  show ?thesis
    using canonical_version_is_final [OF completed_reachable distinct_exampleIds steps _ e] v by simp
qed

text \<open>The admission gate of a completion, exactly: the canonicalizer is called if and only if
  the session and its version exist, no request was recorded under the idempotency key, the session
  has not expired, was not completed, terminated or failed, its version is in an admissible state,
  and the staged object agrees in key, length, observed checksum and declared checksum.\<close>

theorem completion_gate:
  "snd (beginComplete now input s) = AwaitCanonicalization req \<longleftrightarrow>
     (\<exists>x v. js_get (up_uploadSessions s) (co_uploadSessionId input) = Some x \<and>
        js_get (up_versionsById s) (us_versionId x) = Some v \<and>
        js_get (up_idempotencyRecords s) (buildOperationIdempotencyKey (co_callerScopeKey input)
          op_complete (co_idempotencyKey input)) = None \<and>
        now \<le> us_expiresAt x \<and> us_completionResult x = None \<and>
        us_uploadSessionState x \<notin> {sess_terminated, sess_failed_validation} \<and>
        vr_lifecycleState v \<in> {ver_session_created, ver_uploaded, ver_failed_retryable} \<and>
        so_objectKey (co_stagedObject input) = us_objectKey x \<and>
        so_byteLength (co_stagedObject input) = vr_byteLength v \<and>
        so_checksum (co_stagedObject input) = vr_checksum v \<and>
        so_declaredChecksum (so_descriptor (co_stagedObject input)) = Some (vr_checksum v) \<and>
        req = canonicalizationRequest input v)"
proof -
  have sum: "\<not> checksumMismatch so c \<longleftrightarrow> so_checksum so = c \<and> so_declaredChecksum (so_descriptor so) = Some c"
    for so c by (auto simp: checksumMismatch_def split: option.splits)
  have replay: "buildCompletionResultFromPersistedEvidence sid v = None"
    if "vr_lifecycleState v = ver_session_created \<or> vr_lifecycleState v = ver_uploaded \<or>
        vr_lifecycleState v = ver_failed_retryable" for sid v
    using that by (auto simp: buildCompletionResultFromPersistedEvidence_def split: option.splits)
  have admit: "snd (admitStagedObject input x v r s) = AwaitCanonicalization req \<longleftrightarrow>
      r = None \<and> so_objectKey (co_stagedObject input) = us_objectKey x \<and>
      so_byteLength (co_stagedObject input) = vr_byteLength v \<and>
      \<not> checksumMismatch (co_stagedObject input) (vr_checksum v) \<and>
      req = canonicalizationRequest input v" for x v r
    by (auto simp: admitStagedObject_def Let_def split: option.splits)
  show ?thesis
    by (auto simp: beginComplete_def Let_def admit sum replay
        split: option.splits prod.splits if_splits)
qed

text \<open>The versions of an asset are numbered consecutively from 1 in the order of issuance, in
  every reachable state, and every version is listed under its own asset.\<close>

theorem versions_numbered_from_one:
  assumes "upload_reachable gen K (s, fl)" "distinct_ids gen"
  shows "map (\<lambda>vid. map_option vr_versionNumber (js_get (up_versionsById s) vid)) (versions_of s a) =
      map (\<lambda>k. Some (int k + 1)) [0..<length (versions_of s a)] \<and>
    (js_get (up_versionsById s) vid = Some v \<longrightarrow> vid \<in> set (versions_of s (vr_assetId v)))"
proof -
  have "numbering_inv s" using reachable_upload_inv [OF assms] by (simp add: upload_inv_def)
  then have n: "\<And>k. k < length (versions_of s a) \<Longrightarrow>
      \<exists>v. js_get (up_versionsById s) (versions_of s a ! k) = Some v \<and> vr_versionNumber v = int k + 1"
    and l: "\<And>vid v. js_get (up_versionsById s) vid = Some v \<Longrightarrow> vid \<in> set (versions_of s (vr_assetId v))"
    unfolding numbering_inv_def by blast+
  have "map (\<lambda>vid. map_option vr_versionNumber (js_get (up_versionsById s) vid)) (versions_of s a) =
      map (\<lambda>k. Some (int k + 1)) [0..<length (versions_of s a)]"
    by (rule nth_equalityI) (use n in fastforce)+
  then show ?thesis using l by blast
qed

theorem versions_numbered_from_one_witness:
  "map (\<lambda>vid. map_option vr_versionNumber (js_get (up_versionsById completedExample) vid))
     [''ver0''] = [Some 1]"
proof -
  have "versions_of completedExample ''ast'' = [''ver0'']" by code_simp
  then show ?thesis
    using versions_numbered_from_one [OF completed_reachable distinct_exampleIds, of "''ast''"] by simp
qed

text \<open>C8. Issuing an upload session is idempotent for good: once a request succeeded, and after any
  further calls, a request with the same caller and idempotency key changes nothing and returns the
  first result marked as a duplicate when its request hash is the same, and a conflict when it is
  not. The keys are assumed to hold no colon, the separator of the stored key.\<close>

theorem issue_is_idempotent:
  assumes "upload_reachable gen colon_free (s, fl)" "distinct_ids gen"
    and "colon_free (ii_idempotencyKey input)"
    and "issueUploadSession gen input s = (s1, Inr (result, dup))"
    and "(upload_step gen colon_free)\<^sup>*\<^sup>* (s1, fl) (s2, fl2)"
    and "ii_callerScopeKey input' = ii_callerScopeKey input"
    and "ii_idempotencyKey input' = ii_idempotencyKey input"
  shows "issueUploadSession gen input' s2 =
    (s2, if ii_normalizedRequestHash input' = ii_normalizedRequestHash input
         then Inr (result, True)
         else Inl (UploadSessionIdempotencyConflictError (ii_idempotencyKey input)))"
proof -
  have "js_get (up_idempotencyRecords s1) (issueKey input) =
      Some (ii_normalizedRequestHash input, result)"
    using assms(4)
    by (cases rule: issue_outcomes) (auto simp: issuedStore_def Let_def split: if_splits)
  moreover have "upload_reachable gen colon_free (s1, fl)"
    by (rule upload_reachable_step [OF assms(1)]) (rule step_issue, fact+)
  ultimately have "js_get (up_idempotencyRecords s2) (issueKey input) =
      Some (ii_normalizedRequestHash input, result)"
    using issue_record_steps [OF assms(5) _ assms(2,3)] by (simp add: issueKey_def)
  then show ?thesis
    using assms(6,7) by (simp add: issueUploadSession_def Let_def issueKey_def)
qed

theorem issue_is_idempotent_witness:
  "issueUploadSession exampleIds (exampleIssue ''k'') completedExample =
     (completedExample,
      Inr (fst (the (case snd (issueUploadSession exampleIds (exampleIssue ''k'') newUploadStore) of
                       Inl _ \<Rightarrow> None | Inr r \<Rightarrow> Some r)), True))"
proof -
  let ?r = "fst (the (case snd (issueUploadSession exampleIds (exampleIssue ''k'') newUploadStore)
      of Inl _ \<Rightarrow> None | Inr r \<Rightarrow> Some r))"
  have run: "issueUploadSession exampleIds (exampleIssue ''k'') newUploadStore =
      (issuedExample, Inr (?r, False))" by code_simp
  have start: "upload_reachable exampleIds colon_free (newUploadStore, [])"
    by (simp add: upload_reachable_def)
  have steps: "(upload_step exampleIds colon_free)\<^sup>*\<^sup>* (issuedExample, []) (completedExample, [])"
    by (rule converse_rtranclp_into_rtranclp, rule example_await_step, rule r_into_rtranclp,
        rule example_answer_step)
  show ?thesis
    using issue_is_idempotent [OF start distinct_exampleIds _ run steps, of "exampleIssue ''k''"]
    by (simp add: colon_free_def exampleIssue_def)
qed

text \<open>C7. A successful completion: the canonicalizer was asked for exactly this session and version,
  its snapshot is what the client gets back, the version is persisted as \<open>canonical\<close> with evidence
  that converts back to that snapshot and with the pending workflow dispatch, and the same request
  sent again, at any later time and with any canonicalizer, changes nothing and returns the same
  result.\<close>

theorem completion_success:
  assumes "upload_reachable gen K (s, fl)" "distinct_ids gen"
    and "completeUploadSession gen now input canonicalize s = (s', Inr (result, False))"
    and "js_get (up_idempotencyRecords s) (buildOperationIdempotencyKey (co_callerScopeKey input)
          op_complete (co_idempotencyKey input)) = None"
  shows "\<exists>v snapshot c v'.
    canonicalize (canonicalizationRequest input v) = Inr snapshot \<and>
    result = CompletedResult c \<and> cs_canonicalSource c = snapshot \<and>
    cs_uploadSessionId c = co_uploadSessionId input \<and>
    getPersistedVersion (cs_versionId c) s' = Some v' \<and>
    vr_lifecycleState v' = ver_canonical \<and> vr_versionId v' = vr_versionId v \<and>
    map_option canonicalSourceEvidenceToSnapshotResult (vr_canonicalSourceEvidence v') =
      Some snapshot \<and>
    vr_workflowDispatch v' = Some (cs_workflowDispatch c) \<and>
    wd_state (cs_workflowDispatch c) = ds_pending \<and>
    completeUploadSession gen now' input canonicalize' s' = (s', Inr (result, True))"
proof -
  let ?sid = "co_uploadSessionId input" and ?W = "set (waiting fl)"
  have inv: "upload_inv gen (s, fl)" using assms(1,2) by (rule reachable_upload_inv)
  then have si: "sessions_inv ?W s" by (simp add: upload_inv_def)
  obtain s1 st where b: "beginComplete now input s = (s1, st)" by (cases "beginComplete now input s")
  from b si obtain x v where st: "st = AwaitCanonicalization (canonicalizationRequest input v)"
    and t1: "touched s s1 ?sid x (x\<lparr>us_uploadSessionState := sess_uploaded\<rparr>) v
       (v\<lparr>vr_lifecycleState := ver_canonicalizing\<rparr>)"
  proof (cases rule: beginComplete_outcomes)
    case (unchanged r)
    then show ?thesis using assms(3,4) b
      by (auto simp: completeUploadSession_def beginComplete_def admitStagedObject_def
          setSession_def rememberCompletion_def setVersion_def failValidation_def Let_def
          split: option.splits if_splits)
  qed (use assms(3) b in \<open>auto simp: completeUploadSession_def\<close>)
  let ?req = "canonicalizationRequest input v"
  have fin: "finishComplete gen input (canonicalize ?req) s1 = (s', Inr (result, False))"
    using assms(3) b st by (simp add: completeUploadSession_def)
  have inv1: "upload_inv gen (s1, (input, ?req) # fl)"
    using upload_inv_begin_await [OF inv] b st by simp
  then have si1: "sessions_inv (set (waiting ((input, ?req) # fl))) s1" by (simp add: upload_inv_def)
  have known: "?sid \<in> set (waiting ((input, ?req) # fl))" by simp
  from fin si1 known show ?thesis
  proof (cases rule: finishComplete_outcomes)
    case (canonical y u snapshot d)
    have vid: "vr_versionId u = us_versionId y" "vr_versionId v = us_versionId x"
      using touched_session_ok [OF si1 canonical(2)] touched_session_ok [OF si t1]
      by (simp_all add: session_ok_def)
    have yx: "us_versionId y = us_versionId x"
      using canonical(2) t1 by (auto simp: touched_def)
    let ?c = "completionResult ?sid snapshot d u"
    let ?v = "u\<lparr>vr_canonicalSourceEvidence := Some (snapshotResultToCanonicalSourceEvidence snapshot),
        vr_lifecycleState := ver_canonical, vr_workflowDispatch := Some d\<rparr>"
    have got: "getPersistedVersion (cs_versionId ?c) s' = Some ?v"
      using canonical(2) vid
      by (simp add: getPersistedVersion_def completionResult_def touched_def option.map_ident)
    have again: "completeUploadSession gen now' input canonicalize' s' = (s', Inr (result, True))"
      using canonical by (simp add: completeUploadSession_def beginComplete_def Let_def touched_def)
    have d: "wd_state d = ds_pending"
      using fin canonical(1,2,3)
      by (auto simp: finishComplete_def Let_def touched_def completionResult_def)
    show ?thesis
      by (rule exI [of _ v], rule exI [of _ snapshot], rule exI [of _ ?c], rule exI [of _ ?v])
        (use canonical(1,3) got again vid yx d in \<open>simp add: completionResult_def\<close>)
  qed simp
qed

theorem completion_success_witness:
  "completeUploadSession exampleIds 9999 (exampleComplete ''upl00'' ''c'')
     (\<lambda>_. Inl ''down'')
     (fst (completeUploadSession exampleIds 50 (exampleComplete ''upl00'' ''c'')
             (\<lambda>_. Inr exampleSnapshot) issuedExample)) =
   (fst (completeUploadSession exampleIds 50 (exampleComplete ''upl00'' ''c'')
           (\<lambda>_. Inr exampleSnapshot) issuedExample),
    Inr (fst (the (case snd (completeUploadSession exampleIds 50 (exampleComplete ''upl00'' ''c'')
                                 (\<lambda>_. Inr exampleSnapshot) issuedExample) of
                     Inl _ \<Rightarrow> None | Inr r \<Rightarrow> Some r)), True))"
proof -
  let ?run = "completeUploadSession exampleIds 50 (exampleComplete ''upl00'' ''c'')
      (\<lambda>_. Inr exampleSnapshot) issuedExample"
  let ?r = "fst (the (case snd ?run of Inl _ \<Rightarrow> None | Inr r \<Rightarrow> Some r))"
  have run: "?run = (fst ?run, Inr (?r, False))" by code_simp
  have none: "js_get (up_idempotencyRecords issuedExample)
      (buildOperationIdempotencyKey (co_callerScopeKey (exampleComplete ''upl00'' ''c''))
         op_complete (co_idempotencyKey (exampleComplete ''upl00'' ''c''))) = None" by code_simp
  show ?thesis
    using completion_success [OF issued_reachable distinct_exampleIds run none,
        of 9999 "\<lambda>_. Inl ''down''"] by blast
qed

text \<open>A canonicalizer failure is retryable: it leaves the version in \<open>failed_retryable\<close>, and the
  same request sent again before the session expires reaches the canonicalizer with the same
  request.\<close>

theorem failed_canonicalization_retries:
  assumes "upload_reachable gen K (s, fl)" "distinct_ids gen"
    and "completeUploadSession gen now input canonicalize s =
           (s', Inl (UploadSessionCanonicalizationFailedError sid cause))"
    and "js_get (up_uploadSessions s) (co_uploadSessionId input) = Some x" "now' \<le> us_expiresAt x"
  shows "\<exists>req. canonicalize req = Inl cause \<and>
    map_option vr_lifecycleState (js_get (up_versionsById s') (us_versionId x)) =
      Some ver_failed_retryable \<and>
    snd (beginComplete now' input s') = AwaitCanonicalization req"
proof -
  let ?sid = "co_uploadSessionId input" and ?W = "set (waiting fl)"
  have inv: "upload_inv gen (s, fl)" using assms(1,2) by (rule reachable_upload_inv)
  then have si: "sessions_inv ?W s" by (simp add: upload_inv_def)
  obtain s1 st where b: "beginComplete now input s = (s1, st)" by (cases "beginComplete now input s")
  have nofail: "st \<noteq> Finished (Inl (UploadSessionCanonicalizationFailedError sid cause))"
    using b by (auto simp: beginComplete_def admitStagedObject_def Let_def
        split: option.splits prod.splits if_splits)
  obtain req where st: "st = AwaitCanonicalization req"
    using assms(3) b nofail by (cases st) (auto simp: completeUploadSession_def)
  then obtain v where g: "js_get (up_versionsById s) (us_versionId x) = Some v"
      "js_get (up_idempotencyRecords s) (buildOperationIdempotencyKey (co_callerScopeKey input)
          op_complete (co_idempotencyKey input)) = None"
      "us_completionResult x = None"
      "so_objectKey (co_stagedObject input) = us_objectKey x"
      "so_byteLength (co_stagedObject input) = vr_byteLength v"
      "\<not> checksumMismatch (co_stagedObject input) (vr_checksum v)"
      "vr_lifecycleState v \<in> {ver_session_created, ver_uploaded, ver_failed_retryable}"
      "req = canonicalizationRequest input v"
    using b assms(4) by (auto simp: beginComplete_def admitStagedObject_def Let_def
        buildCompletionResultFromPersistedEvidence_def
        split: option.splits prod.splits if_splits)
  have ids: "us_uploadSessionId x = ?sid" "vr_versionId v = us_versionId x"
    using sessions_inv_ok [OF si assms(4) g(1)] by (simp_all add: session_ok_def)
  have s1: "s1 = setVersion (v\<lparr>vr_lifecycleState := ver_canonicalizing\<rparr>)
      (setSession (x\<lparr>us_uploadSessionState := sess_uploaded\<rparr>) s)"
    using b st g assms(4) by (auto simp: beginComplete_def admitStagedObject_def Let_def
        split: option.splits prod.splits if_splits)
  have fin: "finishComplete gen input (canonicalize req) s1 =
      (s', Inl (UploadSessionCanonicalizationFailedError sid cause))"
    using assms(3) b st by (simp add: completeUploadSession_def)
  have c: "canonicalize req = Inl cause"
    and s': "s' = setVersion (v\<lparr>vr_lifecycleState := ver_failed_retryable\<rparr>) s1"
    using fin assms(4) ids unfolding s1
    by (auto simp: finishComplete_def Let_def setSession_def setVersion_def
        split: sum.splits)
  have "snd (beginComplete now' input s') = AwaitCanonicalization req"
    using g ids assms(4,5) unfolding s' s1
    by (simp add: beginComplete_def admitStagedObject_def Let_def setVersion_def setSession_def
        buildCompletionResultFromPersistedEvidence_def canonicalizationRequest_def
        split: option.splits)
  then show ?thesis using c ids unfolding s' by (auto simp: setVersion_def)
qed

theorem failed_canonicalization_retries_witness:
  "\<exists>req. snd (beginComplete 90 (exampleComplete ''upl00'' ''c'')
     (fst (completeUploadSession exampleIds 50 (exampleComplete ''upl00'' ''c'')
             (\<lambda>_. Inl ''down'') issuedExample))) = AwaitCanonicalization req"
proof -
  let ?run = "completeUploadSession exampleIds 50 (exampleComplete ''upl00'' ''c'')
      (\<lambda>_. Inl ''down'') issuedExample"
  let ?x = "the (js_get (up_uploadSessions issuedExample) ''upl00'')"
  have run: "?run = (fst ?run, Inl (UploadSessionCanonicalizationFailedError ''upl00'' ''down''))"
    and x: "js_get (up_uploadSessions issuedExample)
      (co_uploadSessionId (exampleComplete ''upl00'' ''c'')) = Some ?x"
    and e: "90 \<le> us_expiresAt ?x" by code_simp+
  show ?thesis
    using failed_canonicalization_retries [OF issued_reachable distinct_exampleIds run x e] by blast
qed

text \<open>Whatever succeeds leaves its result under the key of its request.\<close>

definition completeKey :: "complete_input \<Rightarrow> string" where
  "completeKey input =
     buildOperationIdempotencyKey (co_callerScopeKey input) op_complete (co_idempotencyKey input)"

lemma remembered_record:
  "js_get (up_idempotencyRecords (rememberCompletion input r s)) (completeKey input) =
     Some (co_normalizedRequestHash input, CompletedResult r)"
  by (simp add: rememberCompletion_def completeKey_def)

lemma admit_success_recorded:
  "admitStagedObject input x v replay s = (s', Finished (Inr (result, dup))) \<Longrightarrow>
    js_get (up_idempotencyRecords s') (completeKey input) =
      Some (co_normalizedRequestHash input, result)"
  by (auto simp: admitStagedObject_def Let_def remembered_record split: if_splits option.splits)

lemma begin_success_recorded:
  "beginComplete now input s = (s', Finished (Inr (result, dup))) \<Longrightarrow>
    js_get (up_idempotencyRecords s') (completeKey input) =
      Some (co_normalizedRequestHash input, result)"
  unfolding beginComplete_def Let_def
  by (auto simp: remembered_record completeKey_def [symmetric]
      split: if_splits option.splits prod.splits dest: admit_success_recorded)

lemma finish_success_recorded:
  "finishComplete gen input answer s = (s', Inr (result, dup)) \<Longrightarrow>
    js_get (up_idempotencyRecords s') (completeKey input) =
      Some (co_normalizedRequestHash input, result)"
  unfolding finishComplete_def Let_def
  by (auto simp: remembered_record split: option.splits sum.splits)

lemma success_is_recorded:
  assumes "completeUploadSession gen now input canonicalize s = (s', Inr (result, dup))"
  shows "js_get (up_idempotencyRecords s') (completeKey input) =
    Some (co_normalizedRequestHash input, result)"
  using assms unfolding completeUploadSession_def
  by (auto split: prod.splits complete_step.splits
      intro: begin_success_recorded finish_success_recorded)

text \<open>C9. The idempotency record of a completion does not name its session: after a completion of one
  session succeeded, a completion of any other session by the same caller with the same key and
  request hash returns the first session's result and does nothing for its own session.\<close>

theorem completion_key_ignores_session:
  assumes "completeUploadSession gen now input canonicalize s = (s', Inr (result, dup))"
    and "co_callerScopeKey input2 = co_callerScopeKey input"
    and "co_idempotencyKey input2 = co_idempotencyKey input"
    and "co_normalizedRequestHash input2 = co_normalizedRequestHash input"
    and "js_get (up_uploadSessions s') (co_uploadSessionId input2) = Some x"
    and "js_get (up_versionsById s') (us_versionId x) = Some v"
  shows "completeUploadSession gen now2 input2 canonicalize2 s' = (s', Inr (result, True))"
  using success_is_recorded [OF assms(1)] assms(2-)
  by (simp add: completeKey_def completeUploadSession_def beginComplete_def Let_def)

definition twoSessions :: upload_store where
  "twoSessions = fst (issueUploadSession exampleIds (exampleIssue ''k2'') issuedExample)"

definition firstCompletion :: "upload_store \<times> idempotent_result" where
  "firstCompletion =
     (case completeUploadSession exampleIds 50 (exampleComplete ''upl00'' ''c'')
             (\<lambda>_. Inr exampleSnapshot) twoSessions of
        (s, Inr (r, d)) \<Rightarrow> (s, r)
      | (s, Inl e) \<Rightarrow> (s, undefined))"

lemma firstCompletion_run:
  "completeUploadSession exampleIds 50 (exampleComplete ''upl00'' ''c'')
     (\<lambda>_. Inr exampleSnapshot) twoSessions =
   (fst firstCompletion, Inr (snd firstCompletion, False))"
  by code_simp

theorem completion_key_ignores_session_witness:
  "completeUploadSession exampleIds 60 (exampleComplete ''upl00000'' ''c'')
     (\<lambda>_. Inr exampleSnapshot) (fst firstCompletion) =
   (fst firstCompletion, Inr (snd firstCompletion, True))"
proof -
  have x: "js_get (up_uploadSessions (fst firstCompletion)) ''upl00000'' =
      Some (the (js_get (up_uploadSessions (fst firstCompletion)) ''upl00000''))"
    and v: "js_get (up_versionsById (fst firstCompletion))
        (us_versionId (the (js_get (up_uploadSessions (fst firstCompletion)) ''upl00000''))) =
      Some (the (js_get (up_versionsById (fst firstCompletion)) ''ver0000''))" by code_simp+
  have c: "co_callerScopeKey (exampleComplete ''upl00000'' ''c'') =
        co_callerScopeKey (exampleComplete ''upl00'' ''c'')"
    and k: "co_idempotencyKey (exampleComplete ''upl00000'' ''c'') =
        co_idempotencyKey (exampleComplete ''upl00'' ''c'')"
    and h: "co_normalizedRequestHash (exampleComplete ''upl00000'' ''c'') =
        co_normalizedRequestHash (exampleComplete ''upl00'' ''c'')"
    and i: "co_uploadSessionId (exampleComplete ''upl00000'' ''c'') = ''upl00000''"
    by (simp_all add: exampleComplete_def)
  show ?thesis
    by (rule completion_key_ignores_session [OF firstCompletion_run c k h _ v])
      (unfold i, rule x)
qed

text \<open>The expiry check precedes the check for an earlier result: a session that completed (its
  version is \<open>canonical\<close> and stays so) moves to \<open>expired\<close> when the same session is completed again
  under a new idempotency key after the expiry time, and the client gets the expiry error instead of
  its result.\<close>

theorem completed_session_expires:
  assumes "upload_reachable gen K (s, fl)" "distinct_ids gen"
    and "js_get (up_uploadSessions s) (co_uploadSessionId input) = Some x"
    and "us_completionResult x = Some c" "us_expiresAt x < now"
    and "js_get (up_idempotencyRecords s) (buildOperationIdempotencyKey (co_callerScopeKey input)
          op_complete (co_idempotencyKey input)) = None"
  shows "\<exists>s' v. completeUploadSession gen now input canonicalize s =
      (s', Inl (UploadSessionExpiredError (co_uploadSessionId input))) \<and>
    map_option us_uploadSessionState (js_get (up_uploadSessions s') (co_uploadSessionId input)) =
      Some sess_expired \<and>
    js_get (up_versionsById s') (us_versionId x) = Some v \<and> vr_lifecycleState v = ver_canonical"
proof -
  have si: "sessions_inv (set (waiting fl)) s"
    using reachable_upload_inv [OF assms(1,2)] by (simp add: upload_inv_def)
  obtain v where v: "js_get (up_versionsById s) (us_versionId x) = Some v"
    and ok: "session_ok (set (waiting fl)) (co_uploadSessionId input) x v"
    using si assms(3) by (rule sessions_inv_version)
  show ?thesis
    using assms(3-6) v ok
    by (intro exI [of _ "setSession (x\<lparr>us_uploadSessionState := sess_expired\<rparr>) s"] exI [of _ v])
      (simp add: completeUploadSession_def beginComplete_def Let_def session_ok_def setSession_def)
qed

theorem completed_session_expires_witness:
  "\<exists>s'. completeUploadSession exampleIds 200 (exampleComplete ''upl00'' ''other'')
      (\<lambda>_. Inr exampleSnapshot) completedExample = (s', Inl (UploadSessionExpiredError ''upl00''))"
proof -
  let ?x = "the (js_get (up_uploadSessions completedExample) ''upl00'')"
  have x: "js_get (up_uploadSessions completedExample)
      (co_uploadSessionId (exampleComplete ''upl00'' ''other'')) = Some ?x"
    and c: "us_completionResult ?x = Some (the (us_completionResult ?x))"
    and e: "us_expiresAt ?x < 200"
    and n: "js_get (up_idempotencyRecords completedExample)
      (buildOperationIdempotencyKey (co_callerScopeKey (exampleComplete ''upl00'' ''other''))
         op_complete (co_idempotencyKey (exampleComplete ''upl00'' ''other''))) = None"
    by code_simp+
  show ?thesis
    using completed_session_expires [OF completed_reachable distinct_exampleIds x c e n,
        of "\<lambda>_. Inr exampleSnapshot"] by (auto simp: exampleComplete_def)
qed

end
