(* ===== verification/Registry_Tables.thy ===== *)
theory Registry_Tables
  imports Dispatch_Store Canonical_Evidence "HOL-Library.Multiset"
begin

text \<open>
  The durable registry as the Prisma stores of \<open>packages/registry/src\<close> use it: the rows of the
  tables of \<open>packages/registry/prisma/schema.prisma\<close> (the columns the modelled stores read or
  write), their unique constraints, and the Prisma calls. The database engine is not code of this
  repository: its writing calls are the record \<open>table_ops\<close>, a parameter, and \<open>table_laws\<close> states their
  documented behaviour, that a write either yields the table with the change (in any row order) or is
  rejected when a unique constraint of the schema would break; a rejected write changes nothing. A
  \<open>findUnique\<close>, \<open>findFirst\<close> or \<open>findMany\<close> is a search in the rows. \<open>transactional\<close> states the documented
  behaviour of \<open>$transaction\<close>: a body that throws leaves the database unchanged. The generated
  columns \<open>id\<close>, \<open>createdAt\<close> and \<open>updatedAt\<close> are left out where no modelled code reads them; a join
  (\<open>include\<close>) is a column of the row.
\<close>

section \<open>Writing calls of a table\<close>

datatype db_error = UniqueViolation | RecordNotFound

record 'row table_ops =
  to_create :: "'row \<Rightarrow> 'row list \<Rightarrow> db_error + 'row list"
  to_update :: "('row \<Rightarrow> bool) \<Rightarrow> ('row \<Rightarrow> 'row) \<Rightarrow> 'row list \<Rightarrow> db_error + 'row list"
  to_upsert :: "('row \<Rightarrow> bool) \<Rightarrow> ('row \<Rightarrow> 'row) \<Rightarrow> 'row \<Rightarrow> 'row list \<Rightarrow> db_error + 'row list"

text \<open>
  A unique constraint reads the constrained columns of a row; a row with a null among them has no
  value and is not constrained.
\<close>

type_synonym 'row row_constraint = "'row \<Rightarrow> string list option"

definition satisfies :: "'row row_constraint list \<Rightarrow> 'row list \<Rightarrow> bool" where
  "satisfies cs rows \<longleftrightarrow> (\<forall>c\<in>set cs. distinct (List.map_filter c rows))"

definition change_rows :: "('row \<Rightarrow> bool) \<Rightarrow> ('row \<Rightarrow> 'row) \<Rightarrow> 'row list \<Rightarrow> 'row list" where
  "change_rows w f rows = map (\<lambda>r. if w r then f r else r) rows"

definition written :: "'row row_constraint list \<Rightarrow> 'row list \<Rightarrow> db_error + 'row list \<Rightarrow> bool" where
  "written cs rows res \<longleftrightarrow>
     (if satisfies cs rows then \<exists>rows'. res = Inr rows' \<and> mset rows' = mset rows
      else res = Inl UniqueViolation)"

definition table_laws :: "'row row_constraint list \<Rightarrow> 'row table_ops \<Rightarrow> bool" where
  "table_laws cs ops \<longleftrightarrow>
     (\<forall>r rows. satisfies cs rows \<longrightarrow> written cs (r # rows) (to_create ops r rows)) \<and>
     (\<forall>w f rows. satisfies cs rows \<longrightarrow>
        (if \<exists>r\<in>set rows. w r then written cs (change_rows w f rows) (to_update ops w f rows)
         else to_update ops w f rows = Inl RecordNotFound)) \<and>
     (\<forall>w f r rows. satisfies cs rows \<longrightarrow>
        written cs (if \<exists>r'\<in>set rows. w r' then change_rows w f rows else r # rows)
          (to_upsert ops w f r rows))"

definition transactional :: "(('d \<Rightarrow> ('d, 'e, 'a) outcome) \<Rightarrow> 'd \<Rightarrow> ('d, 'e, 'a) outcome) \<Rightarrow> bool" where
  "transactional tx \<longleftrightarrow>
     (\<forall>body db. tx body db =
        (case body db of (db', Inl e) \<Rightarrow> (db, Inl e) | (db', Inr v) \<Rightarrow> (db', Inr v)))"

text \<open>The laws can hold: a table kept as a list, and a transaction that keeps the old state.\<close>

definition checkWrite ::
  "'row row_constraint list \<Rightarrow> 'row list \<Rightarrow> db_error + 'row list" where
  "checkWrite cs rows = (if satisfies cs rows then Inr rows else Inl UniqueViolation)"

definition listTable :: "'row row_constraint list \<Rightarrow> 'row table_ops" where
  "listTable cs =
     \<lparr>to_create = (\<lambda>r rows. checkWrite cs (r # rows)),
      to_update = (\<lambda>w f rows.
        if list_ex w rows then checkWrite cs (change_rows w f rows) else Inl RecordNotFound),
      to_upsert = (\<lambda>w f r rows.
        checkWrite cs (if list_ex w rows then change_rows w f rows else r # rows))\<rparr>"

definition listTransaction :: "('d \<Rightarrow> ('d, 'e, 'a) outcome) \<Rightarrow> 'd \<Rightarrow> ('d, 'e, 'a) outcome" where
  "listTransaction body db =
     (case body db of (db', Inl e) \<Rightarrow> (db, Inl e) | (db', Inr v) \<Rightarrow> (db', Inr v))"

lemma listTable_laws: "table_laws cs (listTable cs)"
  by (auto simp: table_laws_def listTable_def checkWrite_def written_def list_ex_iff)

lemma listTransaction_laws: "transactional listTransaction"
  by (simp add: transactional_def listTransaction_def)

lemma tx_cases:
  assumes "transactional tx" "tx body db = (db', r)"
  obtains (committed) v where "r = Inr v" "body db = (db', Inr v)"
  | (aborted) e db1 where "r = Inl e" "db' = db" "body db = (db1, Inl e)"
proof (cases "body db")
  case (Pair db1 r1)
  then have eq: "tx body db = (case r1 of Inl e \<Rightarrow> (db, Inl e) | Inr v \<Rightarrow> (db1, Inr v))"
    using assms(1) by (cases r1) (simp_all add: transactional_def)
  show ?thesis
  proof (cases r1)
    case (Inl e)
    then show ?thesis using eq assms(2) Pair by (intro aborted) simp_all
  next
    case (Inr v)
    then show ?thesis using eq assms(2) Pair by (intro committed) simp_all
  qed
qed

lemma tx_committed:
  "transactional tx \<Longrightarrow> body db = (db', Inr v) \<Longrightarrow> tx body db = (db', Inr v)"
  by (simp add: transactional_def)

lemma tx_aborted: "transactional tx \<Longrightarrow> body db = (db', Inl e) \<Longrightarrow> tx body db = (db, Inl e)"
  by (simp add: transactional_def)

section \<open>Lookup by a unique constraint\<close>

definition row_at :: "'row row_constraint \<Rightarrow> 'row list \<Rightarrow> string list \<Rightarrow> 'row option" where
  "row_at c rows k = List.find (\<lambda>r. c r = Some k) rows"

lemma mset_map_filter: "mset rows = mset rows' \<Longrightarrow>
    mset (List.map_filter c rows) = mset (List.map_filter c rows')"
  unfolding List.map_filter_def by simp

lemma satisfies_mset: "mset rows = mset rows' \<Longrightarrow> satisfies cs rows = satisfies cs rows'"
  unfolding satisfies_def using mset_map_filter mset_eq_imp_distinct_iff by metis

lemma satisfies_unique:
  assumes "satisfies cs rows" "c \<in> set cs" "r \<in> set rows" "r' \<in> set rows"
    "c r = Some k" "c r' = Some k"
  shows "r = r'"
proof -
  have "distinct (List.map_filter c rows)" using assms(1,2) by (simp add: satisfies_def)
  then show ?thesis using assms(3-6)
  proof (induction rows)
    case (Cons x xs)
    have mem: "y \<in> set xs \<Longrightarrow> c y = Some k \<Longrightarrow> k \<in> set (List.map_filter c xs)" for y
      by (force simp: List.map_filter_def)
    show ?case using Cons mem by (cases "c x") (auto simp: List.map_filter_simps)
  qed simp
qed

lemma row_at_Some:
  assumes "satisfies cs rows" "c \<in> set cs"
  shows "row_at c rows k = Some r \<longleftrightarrow> r \<in> set rows \<and> c r = Some k"
proof
  show "row_at c rows k = Some r \<Longrightarrow> r \<in> set rows \<and> c r = Some k"
    by (auto simp: row_at_def find_Some_iff)
next
  assume r: "r \<in> set rows \<and> c r = Some k"
  then obtain r' where "row_at c rows k = Some r'"
    by (cases "row_at c rows k") (auto simp: row_at_def find_None_iff)
  moreover from this have "r' \<in> set rows" "c r' = Some k"
    by (auto simp: row_at_def find_Some_iff)
  ultimately show "row_at c rows k = Some r"
    using satisfies_unique [OF assms, of r r'] r by simp
qed

lemma row_at_None: "row_at c rows k = None \<longleftrightarrow> (\<forall>r\<in>set rows. c r \<noteq> Some k)"
  by (auto simp: row_at_def find_None_iff)

lemma row_at_mset:
  assumes "satisfies cs rows" "c \<in> set cs" "mset rows' = mset rows"
  shows "row_at c rows' = row_at c rows"
proof
  fix k
  have sat: "satisfies cs rows'" using satisfies_mset [OF assms(3)] assms(1) by simp
  have set: "set rows' = set rows" using assms(3) by (metis set_mset_mset)
  show "row_at c rows' k = row_at c rows k"
  proof (cases "row_at c rows k")
    case None
    then show ?thesis using set row_at_None by metis
  next
    case (Some r)
    then have "row_at c rows' k = Some r"
      using row_at_Some [OF sat assms(2)] row_at_Some [OF assms(1,2)] set by blast
    then show ?thesis using Some by simp
  qed
qed

section \<open>The effect of a write\<close>

lemma write_error: "written cs rows (Inl e) \<Longrightarrow> e = UniqueViolation \<and> \<not> satisfies cs rows"
  by (auto simp: written_def split: if_splits)

lemma write_result:
  "written cs rows (Inr rows') \<Longrightarrow> satisfies cs rows' \<and> set rows' = set rows \<and> mset rows' = mset rows"
  using satisfies_mset set_mset_mset unfolding written_def by (metis Inr_inject sum.distinct(1))

lemma create_result:
  assumes "table_laws cs ops" "satisfies cs rows" "to_create ops r rows = Inr rows'"
  shows "satisfies cs rows'" "set rows' = insert r (set rows)"
proof -
  have "written cs (r # rows) (Inr rows')" using assms unfolding table_laws_def by metis
  then show "satisfies cs rows'" "set rows' = insert r (set rows)"
    using write_result by (metis, metis list.simps(15))
qed

lemma set_change_rows: "set (change_rows w f rows) = (\<lambda>r. if w r then f r else r) ` set rows"
  by (simp add: change_rows_def)

lemma update_missing:
  assumes "table_laws cs ops" "satisfies cs rows" "\<forall>r\<in>set rows. \<not> w r"
  shows "to_update ops w f rows = Inl RecordNotFound"
proof -
  have "\<not> (\<exists>r\<in>set rows. w r)" using assms(3) by blast
  then show ?thesis using assms(1,2) unfolding table_laws_def by presburger
qed

lemma update_written:
  assumes "table_laws cs ops" "satisfies cs rows" "r \<in> set rows" "w r"
  shows "written cs (change_rows w f rows) (to_update ops w f rows)"
proof -
  have "\<exists>r\<in>set rows. w r" using assms(3,4) by blast
  then show ?thesis using assms(1,2) unfolding table_laws_def by presburger
qed

lemma update_result:
  assumes "table_laws cs ops" "satisfies cs rows" "to_update ops w f rows = Inr rows'"
  shows "satisfies cs rows'" "set rows' = (\<lambda>r. if w r then f r else r) ` set rows"
    "\<exists>r\<in>set rows. w r"
proof -
  show ex: "\<exists>r\<in>set rows. w r" using assms unfolding table_laws_def by (metis sum.distinct(1))
  then have wr: "written cs (change_rows w f rows) (Inr rows')"
    using assms unfolding table_laws_def by metis
  show "satisfies cs rows'" "set rows' = (\<lambda>r. if w r then f r else r) ` set rows"
    using write_result [OF wr] by (simp_all only: set_change_rows)
qed

lemma upsert_result:
  assumes "table_laws cs ops" "satisfies cs rows" "to_upsert ops w f new rows = Inr rows'"
  shows "satisfies cs rows'"
    "set rows' = (if \<exists>r\<in>set rows. w r then (\<lambda>r. if w r then f r else r) ` set rows
       else insert new (set rows))"
proof -
  have wr: "written cs (if \<exists>r'\<in>set rows. w r' then change_rows w f rows else new # rows) (Inr rows')"
    using assms unfolding table_laws_def by metis
  show "satisfies cs rows'" using write_result [OF wr] by simp
  show "set rows' = (if \<exists>r\<in>set rows. w r then (\<lambda>r. if w r then f r else r) ` set rows
       else insert new (set rows))"
    using write_result [OF wr] by (simp only: set_change_rows list.set if_distrib [of set])
qed

text \<open>
  An upsert by a unique constraint, whose update keeps the constrained columns, changes the row with
  that value or creates it.
\<close>

lemma upsert_keyed:
  assumes laws: "table_laws cs ops" "satisfies cs rows"
    and c: "c \<in> set cs" "c new = Some k" "\<And>r. c r = Some k \<Longrightarrow> c (f r) = Some k"
    and res: "to_upsert ops (\<lambda>r. c r = Some k) f new rows = Inr rows'"
  shows "satisfies cs rows'"
    "row_at c rows' = (row_at c rows)(k \<mapsto>
       (case row_at c rows k of Some r \<Rightarrow> f r | None \<Rightarrow> new))"
    "\<And>r. c r \<noteq> Some k \<Longrightarrow> r \<in> set rows' \<longleftrightarrow> r \<in> set rows"
proof -
  note up = upsert_result [OF laws res]
  show sat: "satisfies cs rows'" by (rule up(1))
  show other: "r \<in> set rows' \<longleftrightarrow> r \<in> set rows" if "c r \<noteq> Some k" for r
    using that c up(2) by (auto split: if_splits)
  show "row_at c rows' = (row_at c rows)(k \<mapsto>
       (case row_at c rows k of Some r \<Rightarrow> f r | None \<Rightarrow> new))"
  proof
    fix j
    show "row_at c rows' j = ((row_at c rows)(k \<mapsto>
       (case row_at c rows k of Some r \<Rightarrow> f r | None \<Rightarrow> new))) j"
    proof (cases "j = k")
      case True
      show ?thesis
      proof (cases "row_at c rows k")
        case None
        then have "new \<in> set rows'" using up(2) row_at_None by (metis (full_types) insertI1)
        then show ?thesis using None True c(2) row_at_Some [OF sat c(1)] by simp
      next
        case (Some r)
        then have "r \<in> set rows" "c r = Some k" using row_at_Some [OF laws(2) c(1)] by auto
        then have "f r \<in> set rows'" using up(2) by auto
        then show ?thesis using Some True c(3) \<open>c r = Some k\<close> row_at_Some [OF sat c(1)] by simp
      qed
    next
      case False
      have "row_at c rows' j = row_at c rows j"
      proof (cases "row_at c rows j")
        case None
        then have "\<forall>r\<in>set rows. c r \<noteq> Some j" by (simp add: row_at_None)
        then have "\<forall>r\<in>set rows'. c r \<noteq> Some j"
          using other False by (metis option.inject)
        then have "row_at c rows' j = None" using row_at_None by blast
        then show ?thesis using None by simp
      next
        case (Some r)
        then have "r \<in> set rows" "c r = Some j" using row_at_Some [OF laws(2) c(1)] by auto
        then have "r \<in> set rows'" using other False by simp
        then show ?thesis using Some \<open>c r = Some j\<close> row_at_Some [OF sat c(1)] by simp
      qed
      then show ?thesis using False by simp
    qed
  qed
qed

lemma upsert_error:
  assumes "table_laws cs ops" "satisfies cs rows" "to_upsert ops w f new rows = Inl e"
  shows "e = UniqueViolation"
proof -
  have "written cs (if \<exists>r'\<in>set rows. w r' then change_rows w f rows else new # rows) (Inl e)"
    using assms unfolding table_laws_def by metis
  then show ?thesis using write_error by metis
qed

text \<open>
  A write that gives a value of a unique constraint to a row, while another row that it does not
  touch has the value, is rejected.
\<close>

lemma upsert_conflict:
  assumes laws: "table_laws cs ops" "satisfies cs rows"
    and c: "c2 \<in> set cs" "r \<in> set rows" "c2 r = Some k2" "\<not> w r" "c2 new = Some k2" "w new"
    and f: "\<And>r. w r \<Longrightarrow> c2 (f r) = Some k2" "\<And>r. w r \<Longrightarrow> w (f r)"
  shows "to_upsert ops w f new rows = Inl UniqueViolation"
proof (cases "to_upsert ops w f new rows")
  case (Inl e)
  then show ?thesis using upsert_error [OF laws] by simp
next
  case (Inr rows')
  note up = upsert_result [OF laws Inr]
  have "r \<in> set rows'" using up(2) c(2,4) by (auto split: if_splits)
  moreover have "\<exists>r'\<in>set rows'. c2 r' = Some k2 \<and> r' \<noteq> r"
    using up(2) c f by (auto split: if_splits)
  ultimately show ?thesis using satisfies_unique [OF up(1) c(1)] c(3) by blast
qed

text \<open>In a table with one constraint, an upsert by it is always accepted.\<close>

lemma upsert_single:
  assumes "table_laws [c] ops" "satisfies [c] rows"
    and "c new = Some k" "\<And>r. c r = Some k \<Longrightarrow> c (f r) = Some k"
  shows "\<exists>rows'. to_upsert ops (\<lambda>r. c r = Some k) f new rows = Inr rows'"
proof (cases "to_upsert ops (\<lambda>r. c r = Some k) f new rows")
  case (Inl err)
  let ?rows = "if \<exists>r\<in>set rows. c r = Some k then change_rows (\<lambda>r. c r = Some k) f rows else new # rows"
  have "written [c] ?rows (to_upsert ops (\<lambda>r. c r = Some k) f new rows)"
    using assms(1,2) unfolding table_laws_def by blast
  moreover have "satisfies [c] ?rows"
  proof (cases "\<exists>r\<in>set rows. c r = Some k")
    case True
    have "List.map_filter c (change_rows (\<lambda>r. c r = Some k) f rows) = List.map_filter c rows"
      using assms(4) by (induction rows) (auto simp: change_rows_def List.map_filter_simps
        split: option.splits)
    then show ?thesis using True assms(2) by (simp add: satisfies_def)
  next
    case False
    then have "k \<notin> set (List.map_filter c rows)" by (auto simp: List.map_filter_def)
    then show ?thesis using False assms(2,3) by (simp add: satisfies_def List.map_filter_simps)
  qed
  ultimately show ?thesis using Inl by (simp add: written_def)
qed simp

lemma create_single:
  assumes "table_laws [c] ops" "satisfies [c] rows" "c new = Some k" "row_at c rows k = None"
  shows "\<exists>rows'. to_create ops new rows = Inr rows' \<and> satisfies [c] rows'"
proof -
  have "k \<notin> set (List.map_filter c rows)"
    using assms(4) by (auto simp: List.map_filter_def row_at_None)
  then have "satisfies [c] (new # rows)"
    using assms(2,3) by (simp add: satisfies_def List.map_filter_simps)
  moreover have "written [c] (new # rows) (to_create ops new rows)"
    using assms(1,2) unfolding table_laws_def by blast
  ultimately obtain rows' where "to_create ops new rows = Inr rows'" by (auto simp: written_def)
  then show ?thesis using create_result(1) [OF assms(1,2)] by blast
qed

text \<open>An update that keeps the constrained columns is accepted, and acts on the row of each key.\<close>

lemma update_kept:
  assumes laws: "table_laws cs ops" "satisfies cs rows"
    and keep: "\<And>c r. c \<in> set cs \<Longrightarrow> c (f r) = c r" and r: "r \<in> set rows" "w r"
  shows "\<exists>rows'. to_update ops w f rows = Inr rows' \<and> satisfies cs rows' \<and>
    (\<forall>c\<in>set cs. \<forall>k. row_at c rows' k = map_option (\<lambda>r. if w r then f r else r) (row_at c rows k))"
proof -
  let ?u = "\<lambda>r. if w r then f r else r"
  have keep': "c (?u r) = c r" if "c \<in> set cs" for c r using keep [OF that] by simp
  have "List.map_filter c (change_rows w f rows) = List.map_filter c rows" if "c \<in> set cs" for c
    using keep [OF that] by (induction rows) (auto simp: change_rows_def List.map_filter_simps
        split: option.splits)
  then have "satisfies cs (change_rows w f rows)" using laws(2) by (simp add: satisfies_def)
  then obtain rows' where rows': "to_update ops w f rows = Inr rows'"
    using update_written [where w = w and f = f, OF laws r] by (auto simp: written_def)
  note up = update_result [OF laws rows']
  have "row_at c rows' k = map_option ?u (row_at c rows k)" if c: "c \<in> set cs" for c k
  proof (cases "row_at c rows k")
    case None
    then have none: "\<forall>x\<in>set rows. c x \<noteq> Some k" by (simp add: row_at_None)
    have "\<forall>x\<in>set rows'. c x \<noteq> Some k" unfolding up(2)
    proof
      fix x assume "x \<in> ?u ` set rows"
      then obtain y where "y \<in> set rows" "x = ?u y" by blast
      then show "c x \<noteq> Some k" using none keep' [OF c, of y] by simp
    qed
    then have "row_at c rows' k = None" using row_at_None by blast
    then show ?thesis using None by simp
  next
    case (Some x)
    then have "x \<in> set rows" "c x = Some k" using row_at_Some [OF laws(2) c] by blast+
    then have "?u x \<in> set rows'" "c (?u x) = Some k" using up(2) keep' [OF c] by auto
    then have "row_at c rows' k = Some (?u x)" using row_at_Some [OF up(1) c] by blast
    then show ?thesis using Some by simp
  qed
  then show ?thesis using rows' up(1) by blast
qed

lemma create_unconstrained:
  assumes "table_laws [] ops"
  shows "\<exists>rows'. to_create ops r rows = Inr rows' \<and> set rows' = insert r (set rows)"
proof -
  have sat: "satisfies [] x" for x :: "'a list" by (simp add: satisfies_def)
  then obtain rows' where "to_create ops r rows = Inr rows'"
    using assms unfolding table_laws_def written_def by metis
  then show ?thesis using create_result(2) [OF assms sat] by blast
qed

section \<open>Rows and constraints of the schema\<close>

datatype row_state =
  row_session_created | row_uploading | row_uploaded | row_canonicalizing | row_canonical
| row_processing | row_published | row_failed_validation | row_failed_retryable
| row_quarantined | row_purged

text \<open>A version with the columns of its asset and of the namespace of the asset joined in.\<close>

record version_row =
  vw_id :: string
  vw_assetId :: string
  vw_versionNumber :: int
  vw_lifecycleState :: row_state
  vw_sourceFilename :: string
  vw_detectedContentType :: string
  vw_sourceByteLength :: int
  vw_sourceChecksumValue :: string
  vw_repositoryEngine :: "repository_engine option"
  vw_canonicalSourceId :: "string option"
  vw_canonicalSnapshotId :: "string option"
  vw_canonicalLogicalPath :: "string option"
  vw_canonicalDigestSet :: "object_checksum list option"
  vw_canonicalLogicalByteLength :: "int option"
  vw_canonicalStoredByteLength :: "int option"
  vw_dedupeMetrics :: "dedupe_metrics option"
  vw_sourceReconstructionHandles :: "reconstruction_handle list option"
  vw_sourceSubstrateHints :: "(string, string) jsmap option"
  vw_namespaceRowId :: string
  vw_serviceNamespaceId :: string
  vw_tenantScopeId :: "string option"

record scope_row =
  sw_id :: string
  sw_serviceNamespaceId :: string
  sw_tenantScopeId :: "string option"
  sw_scopeKey :: string

record derivative_row =
  dw_assetVersionId :: string
  dw_deliveryScopeId :: string
  dw_recipeId :: string
  dw_schemaVersion :: string
  dw_variantKey :: string
  dw_deterministicKey :: string
  dw_storageBucket :: "string option"
  dw_storageKey :: "string option"
  dw_contentType :: string
  dw_byteLength :: int
  dw_checksumValue :: "string option"
  dw_published :: bool
  dw_metadata :: json
  dw_publishedAt :: "int option"

record manifest_row =
  mw_assetVersionId :: string
  mw_deliveryScopeId :: string
  mw_manifestType :: string
  mw_schemaVersion :: string
  mw_published :: bool
  mw_objectKey :: string
  mw_checksumValue :: "string option"
  mw_manifestPayload :: json
  mw_publishedAt :: "int option"

datatype actor_type = actor_system | actor_operator

record audit_row =
  aw_actorType :: actor_type
  aw_actorId :: "string option"
  aw_assetVersionId :: "string option"
  aw_workflowDispatchId :: "string option"
  aw_correlationId :: "string option"
  aw_eventType :: string
  aw_reason :: "string option"
  aw_payload :: json

text \<open>Dispatches and runs have the columns of the records of the in-memory store.\<close>

type_synonym dispatch_row = dispatch_record
type_synonym run_row = run_record

definition derivativeKeys :: "derivative_row row_constraint" where
  "derivativeKeys r =
     Some [dw_assetVersionId r, dw_deliveryScopeId r, dw_recipeId r, dw_schemaVersion r,
       dw_variantKey r]"

definition deterministicKeys :: "derivative_row row_constraint" where
  "deterministicKeys r = Some [dw_deterministicKey r]"

definition manifestKeys :: "manifest_row row_constraint" where
  "manifestKeys r = Some [mw_assetVersionId r, mw_manifestType r, mw_deliveryScopeId r]"

definition versionConstraints :: "version_row row_constraint list" where
  "versionConstraints =
     [\<lambda>r. Some [vw_id r], \<lambda>r. map_option (\<lambda>s. [s]) (vw_canonicalSourceId r),
      \<lambda>r. Some [vw_assetId r, int_text (vw_versionNumber r)]]"

definition derivativeConstraints :: "derivative_row row_constraint list" where
  "derivativeConstraints = [derivativeKeys, deterministicKeys]"

definition manifestConstraints :: "manifest_row row_constraint list" where
  "manifestConstraints = [manifestKeys]"

definition dispatchConstraints :: "dispatch_row row_constraint list" where
  "dispatchConstraints = [\<lambda>r. Some [d_dispatchId r], \<lambda>r. Some [d_workflowKey r]]"

definition runConstraints :: "run_row row_constraint list" where
  "runConstraints = [\<lambda>r. Some [r_workflowId r]]"

record registry_db =
  rg_versions :: "version_row list"
  rg_scopes :: "scope_row list"
  rg_derivatives :: "derivative_row list"
  rg_manifests :: "manifest_row list"
  rg_dispatches :: "dispatch_row list"
  rg_runs :: "run_row list"
  rg_audit :: "audit_row list"

definition registry_ok :: "registry_db \<Rightarrow> bool" where
  "registry_ok db \<longleftrightarrow>
     satisfies versionConstraints (rg_versions db) \<and>
     satisfies derivativeConstraints (rg_derivatives db) \<and>
     satisfies manifestConstraints (rg_manifests db) \<and>
     satisfies dispatchConstraints (rg_dispatches db) \<and>
     satisfies runConstraints (rg_runs db)"

section \<open>The engine\<close>

text \<open>\<open>re_newRun\<close> is the identifier and the creation time that the database generates for a new run.\<close>

record registry_engine =
  re_versions :: "version_row table_ops"
  re_derivatives :: "derivative_row table_ops"
  re_manifests :: "manifest_row table_ops"
  re_dispatches :: "dispatch_row table_ops"
  re_runs :: "run_row table_ops"
  re_audit :: "audit_row table_ops"
  re_newRun :: "run_row list \<Rightarrow> string \<times> int"

definition engine_laws :: "registry_engine \<Rightarrow> bool" where
  "engine_laws e \<longleftrightarrow>
     table_laws versionConstraints (re_versions e) \<and>
     table_laws derivativeConstraints (re_derivatives e) \<and>
     table_laws manifestConstraints (re_manifests e) \<and>
     table_laws dispatchConstraints (re_dispatches e) \<and>
     table_laws runConstraints (re_runs e) \<and>
     table_laws [] (re_audit e)"

definition listEngine :: registry_engine where
  "listEngine =
     \<lparr>re_versions = listTable versionConstraints, re_derivatives = listTable derivativeConstraints,
      re_manifests = listTable manifestConstraints, re_dispatches = listTable dispatchConstraints,
      re_runs = listTable runConstraints, re_audit = listTable [],
      re_newRun = (\<lambda>rows. (''run-'' @ nat_digits (length rows), 0))\<rparr>"

lemma listEngine_laws: "engine_laws listEngine"
  by (simp add: engine_laws_def listEngine_def listTable_laws)

text \<open>A run row as the database creates it, before the columns of the caller are set.\<close>

definition newRunRow :: "registry_engine \<Rightarrow> registry_db \<Rightarrow> run_row" where
  "newRunRow e db =
     \<lparr>r_assetVersionId = [], r_cancellationCause = None, r_completedAt = None,
      r_createdAt = snd (re_newRun e (rg_runs db)), r_currentPhase = None,
      r_lastOperatorAction = None, r_retrySummary = None, r_startedAt = None,
      r_state = run_queued, r_updatedAt = 0, r_waitReason = None, r_workflowDispatchId = None,
      r_workflowId = [], r_workflowRunId = fst (re_newRun e (rg_runs db)),
      r_workflowTemplateId = []\<rparr>"

text \<open>A write of one table inside a transaction.\<close>

definition writeTable ::
  "(registry_db \<Rightarrow> 'row list) \<Rightarrow> ('row list \<Rightarrow> registry_db \<Rightarrow> registry_db) \<Rightarrow> (db_error \<Rightarrow> 'e)
     \<Rightarrow> ('row list \<Rightarrow> db_error + 'row list) \<Rightarrow> registry_db \<Rightarrow> (registry_db, 'e, unit) outcome" where
  "writeTable get put err f db =
     (case f (get db) of
        Inl e \<Rightarrow> throw db (err e)
      | Inr rows \<Rightarrow> ok (put rows db) ())"

definition onVersions where
  "onVersions = writeTable rg_versions (\<lambda>rows db. db\<lparr>rg_versions := rows\<rparr>)"

definition onDerivatives where
  "onDerivatives = writeTable rg_derivatives (\<lambda>rows db. db\<lparr>rg_derivatives := rows\<rparr>)"

definition onManifests where
  "onManifests = writeTable rg_manifests (\<lambda>rows db. db\<lparr>rg_manifests := rows\<rparr>)"

definition onDispatches where
  "onDispatches = writeTable rg_dispatches (\<lambda>rows db. db\<lparr>rg_dispatches := rows\<rparr>)"

definition onRuns where
  "onRuns = writeTable rg_runs (\<lambda>rows db. db\<lparr>rg_runs := rows\<rparr>)"

definition onAudit where
  "onAudit = writeTable rg_audit (\<lambda>rows db. db\<lparr>rg_audit := rows\<rparr>)"

lemma writeTable_ok: "writeTable get put err f db = (db', Inr u) \<longleftrightarrow>
    (\<exists>rows. f (get db) = Inr rows \<and> db' = put rows db)"
  by (auto simp: writeTable_def split: sum.splits)

lemma writeTable_error: "writeTable get put err f db = (db', Inl e) \<longleftrightarrow>
    (\<exists>x. f (get db) = Inl x \<and> db' = db \<and> e = err x)"
  by (auto simp: writeTable_def split: sum.splits)

lemmas table_writes = onVersions_def onDerivatives_def onManifests_def onDispatches_def onRuns_def
  onAudit_def

definition findVersion :: "string \<Rightarrow> registry_db \<Rightarrow> version_row option" where
  "findVersion versionId db = row_at (\<lambda>r. Some [vw_id r]) (rg_versions db) [versionId]"

definition setVersionState ::
  "registry_engine \<Rightarrow> (db_error \<Rightarrow> 'e) \<Rightarrow> string \<Rightarrow> row_state \<Rightarrow> registry_db
     \<Rightarrow> (registry_db, 'e, unit) outcome" where
  "setVersionState e err versionId st =
     onVersions err
       (to_update (re_versions e) (\<lambda>r. vw_id r = versionId) (\<lambda>r. r\<lparr>vw_lifecycleState := st\<rparr>))"

text \<open>The effect of a change of a version's state.\<close>

lemma update_state_unique:
  assumes "\<And>r. vw_id (f r) = vw_id r \<and> vw_canonicalSourceId (f r) = vw_canonicalSourceId r \<and>
      vw_assetId (f r) = vw_assetId r \<and> vw_versionNumber (f r) = vw_versionNumber r"
  shows "satisfies versionConstraints (change_rows w f rows) = satisfies versionConstraints rows"
proof -
  have "List.map_filter c (change_rows w f rows) = List.map_filter c rows"
    if "c \<in> set versionConstraints" for c
    using that assms
    by (induction rows) (auto simp: change_rows_def versionConstraints_def List.map_filter_simps
        split: option.splits)
  then show ?thesis by (simp add: satisfies_def)
qed

lemma setVersionState_cases:
  assumes laws: "engine_laws e" and ok: "registry_ok db"
    and run: "setVersionState e err versionId st db = (db', r)"
  obtains (missing) "findVersion versionId db = None" "db' = db" "r = Inl (err RecordNotFound)"
  | (updated) v where "findVersion versionId db = Some v" "r = Inr ()" "registry_ok db'"
      "\<And>k. findVersion k db' = (if k = versionId then Some (v\<lparr>vw_lifecycleState := st\<rparr>)
         else findVersion k db)"
      "rg_scopes db' = rg_scopes db" "rg_derivatives db' = rg_derivatives db"
      "rg_manifests db' = rg_manifests db" "rg_dispatches db' = rg_dispatches db"
      "rg_runs db' = rg_runs db" "rg_audit db' = rg_audit db"
proof -
  let ?w = "\<lambda>r. vw_id r = versionId" and ?f = "\<lambda>r. r\<lparr>vw_lifecycleState := st\<rparr>"
  let ?c = "\<lambda>r. Some [vw_id r]"
  have t: "table_laws versionConstraints (re_versions e)"
    and sat: "satisfies versionConstraints (rg_versions db)"
    using laws ok by (simp_all add: engine_laws_def registry_ok_def)
  have c: "?c \<in> set versionConstraints" by (simp add: versionConstraints_def)
  show ?thesis
  proof (cases "findVersion versionId db")
    case None
    then have "\<forall>r\<in>set (rg_versions db). \<not> ?w r" by (auto simp: findVersion_def row_at_None)
    from update_missing [OF t sat this, of ?f]
    show ?thesis using missing [OF None] run
      by (simp add: setVersionState_def table_writes writeTable_def)
  next
    case (Some v)
    then have v: "v \<in> set (rg_versions db)" "vw_id v = versionId"
      using row_at_Some [OF sat c] by (auto simp: findVersion_def)
    from update_written [OF t sat v(1), of ?w ?f] v(2)
    have "written versionConstraints (change_rows ?w ?f (rg_versions db))
        (to_update (re_versions e) ?w ?f (rg_versions db))" by simp
    moreover have "satisfies versionConstraints (change_rows ?w ?f (rg_versions db))"
      using sat update_state_unique [of ?f ?w "rg_versions db"] by simp
    ultimately obtain rows where rows: "to_update (re_versions e) ?w ?f (rg_versions db) = Inr rows"
      by (auto simp: written_def)
    note up = update_result [OF t sat rows]
    have db': "db' = db\<lparr>rg_versions := rows\<rparr>" and r: "r = Inr ()"
      using run rows by (simp_all add: setVersionState_def table_writes writeTable_def)
    have at: "findVersion k db' = (if k = versionId then Some (v\<lparr>vw_lifecycleState := st\<rparr>)
         else findVersion k db)" for k
    proof (cases "k = versionId")
      case True
      have "?f v \<in> set rows" using up(2) v by force
      then show ?thesis using True v row_at_Some [OF up(1) c, of "[versionId]" "?f v"]
        by (simp add: findVersion_def db')
    next
      case False
      have same: "x \<in> set rows \<longleftrightarrow> x \<in> set (rg_versions db)" if "vw_id x = k" for x
        using up(2) that False by (auto split: if_splits)
      show ?thesis
      proof (cases "findVersion k db")
        case None
        then have "findVersion k db' = None"
          using same by (auto simp: findVersion_def row_at_None db')
        then show ?thesis using None False by simp
      next
        case (Some x)
        then have "x \<in> set (rg_versions db)" "vw_id x = k"
          using row_at_Some [OF sat c] by (auto simp: findVersion_def)
        then have "findVersion k db' = Some x"
          using same row_at_Some [OF up(1) c] by (simp add: findVersion_def db')
        then show ?thesis using Some False by simp
      qed
    qed
    have ok': "registry_ok db'" using ok up(1) by (simp add: registry_ok_def db')
    have rest: "rg_scopes db' = rg_scopes db" "rg_derivatives db' = rg_derivatives db"
      "rg_manifests db' = rg_manifests db" "rg_dispatches db' = rg_dispatches db"
      "rg_runs db' = rg_runs db" "rg_audit db' = rg_audit db"
      unfolding db' by simp_all
    show ?thesis using updated Some r ok' at rest by blast
  qed
qed

end
