(* ===== verification/Publication_Store.thy ===== *)
theory Publication_Store
  imports Registry_Tables
begin

text \<open>
  The publication stores of \<open>packages/registry/src\<close>: the in-memory stores
  \<open>generic-asset-publication-store.ts\<close>, \<open>image-publication-store.ts\<close> and
  \<open>presentation-publication-store.ts\<close>. The three classes have the same operations over
  version and derivative records that share most fields, so the shared fields are one record
  that the families extend, and the operations are defined once with the clone functions of
  the family as arguments (\<open>'v cloners\<close>); the operations of each class are its instances. The field
  \<open>publicationState\<close>, whose type has the one value \<open>published\<close>, is left out.
\<close>

section \<open>Records\<close>

datatype publication_state = pub_canonical | pub_processing | pub_published

record publication_version =
  pv_assetId :: string
  pv_detectedContentType :: string
  pv_lifecycleState :: publication_state
  pv_serviceNamespaceId :: string
  pv_sourceByteLength :: int
  pv_sourceChecksumValue :: string
  pv_sourceFilename :: string
  pv_versionId :: string
  pv_versionNumber :: int

record generic_version = publication_version +
  pv_canonicalSourceEvidence :: source_evidence

record image_version = publication_version +
  pv_canonicalLogicalPath :: string
  pv_canonicalSourceId :: string

type_synonym presentation_version = image_version

record derivative_record =
  pd_assetVersionId :: string
  pd_byteLength :: int
  pd_checksumValue :: string
  pd_contentType :: string
  pd_deliveryScopeId :: string
  pd_deterministicKey :: string
  pd_publishedAt :: int
  pd_recipeId :: string
  pd_schemaVersion :: string
  pd_storageBucket :: string
  pd_storageKey :: string
  pd_variantKey :: string

record metadata_derivative = derivative_record +
  pd_metadata :: "json_record option"

record page_derivative = derivative_record +
  pd_pageNumber :: "int option"

record manifest_record =
  pm_assetVersionId :: string
  pm_checksumValue :: string
  pm_deliveryScopeId :: string
  pm_manifestPayload :: json
  pm_manifestType :: string
  pm_objectKey :: string
  pm_publishedAt :: int
  pm_schemaVersion :: string

record begin_input =
  bi_startedAt :: int
  bi_versionId :: string
  bi_workflowId :: string

record 'd publish_input =
  pi_deliveryScopeId :: string
  pi_derivatives :: "'d list"
  pi_manifest :: manifest_record
  pi_publishedAt :: int
  pi_versionId :: string
  pi_workflowId :: string

datatype publication_action = begin_processing | publish_derivatives

text \<open>
  The last four arise in the durable stores only, whose versions have the states of the registry.
\<close>

datatype publication_error =
  VersionNotFoundError string
| VersionStateError string publication_state publication_action
| RowStateError string row_state publication_action
| ScopeUnavailable string string
| MissingSourceIdentity string
| DatabaseError db_error

section \<open>Cloning\<close>

definition cloneImageVersion :: "image_version \<Rightarrow> image_version" where
  "cloneImageVersion r =
     \<lparr>pv_assetId = pv_assetId r, pv_detectedContentType = pv_detectedContentType r,
      pv_lifecycleState = pv_lifecycleState r, pv_serviceNamespaceId = pv_serviceNamespaceId r,
      pv_sourceByteLength = pv_sourceByteLength r,
      pv_sourceChecksumValue = pv_sourceChecksumValue r, pv_sourceFilename = pv_sourceFilename r,
      pv_versionId = pv_versionId r, pv_versionNumber = pv_versionNumber r,
      pv_canonicalLogicalPath = pv_canonicalLogicalPath r,
      pv_canonicalSourceId = pv_canonicalSourceId r\<rparr>"

definition clonePresentationVersion :: "presentation_version \<Rightarrow> presentation_version" where
  "clonePresentationVersion r =
     \<lparr>pv_assetId = pv_assetId r, pv_detectedContentType = pv_detectedContentType r,
      pv_lifecycleState = pv_lifecycleState r, pv_serviceNamespaceId = pv_serviceNamespaceId r,
      pv_sourceByteLength = pv_sourceByteLength r,
      pv_sourceChecksumValue = pv_sourceChecksumValue r, pv_sourceFilename = pv_sourceFilename r,
      pv_versionId = pv_versionId r, pv_versionNumber = pv_versionNumber r,
      pv_canonicalLogicalPath = pv_canonicalLogicalPath r,
      pv_canonicalSourceId = pv_canonicalSourceId r\<rparr>"

definition cloneGenericVersion :: "generic_version \<Rightarrow> generic_version" where
  "cloneGenericVersion r =
     \<lparr>pv_assetId = pv_assetId r, pv_detectedContentType = pv_detectedContentType r,
      pv_lifecycleState = pv_lifecycleState r, pv_serviceNamespaceId = pv_serviceNamespaceId r,
      pv_sourceByteLength = pv_sourceByteLength r,
      pv_sourceChecksumValue = pv_sourceChecksumValue r, pv_sourceFilename = pv_sourceFilename r,
      pv_versionId = pv_versionId r, pv_versionNumber = pv_versionNumber r,
      pv_canonicalSourceEvidence =
        clonePersistedCanonicalSourceEvidence (pv_canonicalSourceEvidence r)\<rparr>"

definition cloneMetadataDerivative :: "metadata_derivative \<Rightarrow> metadata_derivative" where
  "cloneMetadataDerivative r =
     \<lparr>pd_assetVersionId = pd_assetVersionId r, pd_byteLength = pd_byteLength r,
      pd_checksumValue = pd_checksumValue r, pd_contentType = pd_contentType r,
      pd_deliveryScopeId = pd_deliveryScopeId r, pd_deterministicKey = pd_deterministicKey r,
      pd_publishedAt = pd_publishedAt r, pd_recipeId = pd_recipeId r,
      pd_schemaVersion = pd_schemaVersion r, pd_storageBucket = pd_storageBucket r,
      pd_storageKey = pd_storageKey r, pd_variantKey = pd_variantKey r,
      pd_metadata = pd_metadata r\<rparr>"

definition clonePageDerivative :: "page_derivative \<Rightarrow> page_derivative" where
  "clonePageDerivative r =
     \<lparr>pd_assetVersionId = pd_assetVersionId r, pd_byteLength = pd_byteLength r,
      pd_checksumValue = pd_checksumValue r, pd_contentType = pd_contentType r,
      pd_deliveryScopeId = pd_deliveryScopeId r, pd_deterministicKey = pd_deterministicKey r,
      pd_publishedAt = pd_publishedAt r, pd_recipeId = pd_recipeId r,
      pd_schemaVersion = pd_schemaVersion r, pd_storageBucket = pd_storageBucket r,
      pd_storageKey = pd_storageKey r, pd_variantKey = pd_variantKey r,
      pd_pageNumber = pd_pageNumber r\<rparr>"

definition cloneManifest :: "manifest_record \<Rightarrow> manifest_record" where
  "cloneManifest r =
     \<lparr>pm_assetVersionId = pm_assetVersionId r, pm_checksumValue = pm_checksumValue r,
      pm_deliveryScopeId = pm_deliveryScopeId r, pm_manifestPayload = pm_manifestPayload r,
      pm_manifestType = pm_manifestType r, pm_objectKey = pm_objectKey r,
      pm_publishedAt = pm_publishedAt r, pm_schemaVersion = pm_schemaVersion r\<rparr>"

lemma clones_identity [simp]:
  "cloneImageVersion v = v" "clonePresentationVersion p = p" "cloneGenericVersion g = g"
  "cloneMetadataDerivative d = d" "clonePageDerivative e = e" "cloneManifest m = m"
  by (simp_all add: cloneImageVersion_def clonePresentationVersion_def cloneGenericVersion_def
      cloneMetadataDerivative_def clonePageDerivative_def cloneManifest_def)

section \<open>The store\<close>

record ('v, 'd) publication_store =
  ps_derivativesByKey :: "(string, 'd) jsmap"
  ps_manifestsByKey :: "(string, manifest_record) jsmap"
  ps_versions :: "(string, 'v) jsmap"

definition manifestKey :: "string \<Rightarrow> string \<Rightarrow> string \<Rightarrow> string" where
  "manifestKey versionId deliveryScopeId manifestType =
     versionId @ '':'' @ deliveryScopeId @ '':'' @ manifestType"

text \<open>A seed is a version with an optional lifecycle state; the state of the record is ignored.\<close>

definition seedVersion ::
  "'a publication_version_scheme \<Rightarrow> publication_state option \<Rightarrow> 'a publication_version_scheme" where
  "seedVersion v lifecycleState = v\<lparr>pv_lifecycleState := nullish lifecycleState pub_canonical\<rparr>"

definition newPublicationStore ::
  "('a publication_version_scheme \<times> publication_state option) list
     \<Rightarrow> ('a publication_version_scheme, 'd) publication_store" where
  "newPublicationStore seeds =
     \<lparr>ps_derivativesByKey = [], ps_manifestsByKey = [],
      ps_versions = fold (\<lambda>(v, st) m. js_set (pv_versionId v) (seedVersion v st) m) seeds []\<rparr>"

definition getMutableVersion ::
  "string \<Rightarrow> ('v, 'd) publication_store \<Rightarrow> publication_error + 'v" where
  "getMutableVersion versionId s =
     (case js_get (ps_versions s) versionId of
        None \<Rightarrow> Inl (VersionNotFoundError versionId)
      | Some v \<Rightarrow> Inr v)"

definition setLifecycle ::
  "string \<Rightarrow> publication_state \<Rightarrow> ('a publication_version_scheme, 'd) publication_store
     \<Rightarrow> ('a publication_version_scheme, 'd) publication_store" where
  "setLifecycle versionId st s =
     s\<lparr>ps_versions :=
         (case js_get (ps_versions s) versionId of
            None \<Rightarrow> ps_versions s
          | Some v \<Rightarrow> js_set versionId (v\<lparr>pv_lifecycleState := st\<rparr>) (ps_versions s))\<rparr>"

definition beginPublication ::
  "('a publication_version_scheme \<Rightarrow> 'a publication_version_scheme) \<Rightarrow> begin_input
     \<Rightarrow> ('a publication_version_scheme, 'd) publication_store
     \<Rightarrow> (('a publication_version_scheme, 'd) publication_store, publication_error,
         'a publication_version_scheme) outcome" where
  "beginPublication cloneV input s =
     (case getMutableVersion (bi_versionId input) s of
        Inl e \<Rightarrow> throw s e
      | Inr v \<Rightarrow>
          if pv_lifecycleState v \<noteq> pub_canonical \<and> pv_lifecycleState v \<noteq> pub_published
          then throw s (VersionStateError (bi_versionId input) (pv_lifecycleState v) begin_processing)
          else ok (setLifecycle (bi_versionId input) pub_processing s)
                 (cloneV (v\<lparr>pv_lifecycleState := pub_processing\<rparr>)))"

definition storeDerivatives ::
  "('b derivative_record_scheme \<Rightarrow> 'b derivative_record_scheme) \<Rightarrow> 'b derivative_record_scheme list
     \<Rightarrow> (string, 'b derivative_record_scheme) jsmap
     \<Rightarrow> (string, 'b derivative_record_scheme) jsmap" where
  "storeDerivatives cloneD ds m = fold (\<lambda>d m. js_set (pd_deterministicKey d) (cloneD d) m) ds m"

definition publishVersion ::
  "('a publication_version_scheme \<Rightarrow> 'a publication_version_scheme)
     \<Rightarrow> ('b derivative_record_scheme \<Rightarrow> 'b derivative_record_scheme)
     \<Rightarrow> 'b derivative_record_scheme publish_input
     \<Rightarrow> ('a publication_version_scheme, 'b derivative_record_scheme) publication_store
     \<Rightarrow> (('a publication_version_scheme, 'b derivative_record_scheme) publication_store,
         publication_error, 'a publication_version_scheme) outcome" where
  "publishVersion cloneV cloneD input s =
     (case getMutableVersion (pi_versionId input) s of
        Inl e \<Rightarrow> throw s e
      | Inr v \<Rightarrow>
          if pv_lifecycleState v \<noteq> pub_processing \<and> pv_lifecycleState v \<noteq> pub_published
          then throw s
            (VersionStateError (pi_versionId input) (pv_lifecycleState v) publish_derivatives)
          else
            (let s1 = s\<lparr>ps_derivativesByKey :=
                         storeDerivatives cloneD (pi_derivatives input) (ps_derivativesByKey s)\<rparr>;
                 s2 = s1\<lparr>ps_manifestsByKey :=
                          js_set (manifestKey (pi_versionId input) (pi_deliveryScopeId input)
                                    (pm_manifestType (pi_manifest input)))
                            (cloneManifest (pi_manifest input)) (ps_manifestsByKey s1)\<rparr> in
             ok (setLifecycle (pi_versionId input) pub_published s2)
               (cloneV (v\<lparr>pv_lifecycleState := pub_published\<rparr>))))"

definition getVersion ::
  "('v \<Rightarrow> 'v) \<Rightarrow> string \<Rightarrow> ('v, 'd) publication_store \<Rightarrow> 'v option" where
  "getVersion cloneV versionId s = map_option cloneV (js_get (ps_versions s) versionId)"

definition listPublishedDerivatives ::
  "(string \<Rightarrow> string \<Rightarrow> int)
     \<Rightarrow> ('b derivative_record_scheme \<Rightarrow> 'b derivative_record_scheme) \<Rightarrow> string
     \<Rightarrow> ('v, 'b derivative_record_scheme) publication_store \<Rightarrow> 'b derivative_record_scheme list" where
  "listPublishedDerivatives lc cloneD versionId s =
     map cloneD
       (js_sort (\<lambda>l r. lc (pd_deterministicKey l) (pd_deterministicKey r))
         (filter (\<lambda>d. pd_assetVersionId d = versionId) (js_values (ps_derivativesByKey s))))"

definition readManifest ::
  "string \<Rightarrow> string \<Rightarrow> string \<Rightarrow> ('v, 'd) publication_store \<Rightarrow> manifest_record option" where
  "readManifest versionId manifestType deliveryScopeId s =
     map_option cloneManifest
       (js_get (ps_manifestsByKey s) (manifestKey versionId deliveryScopeId manifestType))"

section \<open>The three classes\<close>

type_synonym generic_store = "(generic_version, metadata_derivative) publication_store"
type_synonym image_store = "(image_version, metadata_derivative) publication_store"
type_synonym presentation_store = "(presentation_version, page_derivative) publication_store"

definition newGenericStore :: "(generic_version \<times> publication_state option) list \<Rightarrow> generic_store" where
  "newGenericStore seeds = newPublicationStore seeds"

definition beginGenericAssetPublication ::
  "begin_input \<Rightarrow> generic_store \<Rightarrow> (generic_store, publication_error, generic_version) outcome" where
  "beginGenericAssetPublication = beginPublication cloneGenericVersion"

definition publishGenericAssetVersion ::
  "metadata_derivative publish_input \<Rightarrow> generic_store
     \<Rightarrow> (generic_store, publication_error, generic_version) outcome" where
  "publishGenericAssetVersion = publishVersion cloneGenericVersion cloneMetadataDerivative"

definition newImageStore :: "(image_version \<times> publication_state option) list \<Rightarrow> image_store" where
  "newImageStore seeds = newPublicationStore seeds"

definition beginImagePublication ::
  "begin_input \<Rightarrow> image_store \<Rightarrow> (image_store, publication_error, image_version) outcome" where
  "beginImagePublication = beginPublication cloneImageVersion"

definition publishImageVersion ::
  "metadata_derivative publish_input \<Rightarrow> image_store
     \<Rightarrow> (image_store, publication_error, image_version) outcome" where
  "publishImageVersion = publishVersion cloneImageVersion cloneMetadataDerivative"

definition newPresentationStore ::
  "(presentation_version \<times> publication_state option) list \<Rightarrow> presentation_store" where
  "newPresentationStore seeds = newPublicationStore seeds"

definition beginPresentationPublication ::
  "begin_input \<Rightarrow> presentation_store
     \<Rightarrow> (presentation_store, publication_error, presentation_version) outcome" where
  "beginPresentationPublication = beginPublication clonePresentationVersion"

definition publishPresentationVersion ::
  "page_derivative publish_input \<Rightarrow> presentation_store
     \<Rightarrow> (presentation_store, publication_error, presentation_version) outcome" where
  "publishPresentationVersion = publishVersion clonePresentationVersion clonePageDerivative"

section \<open>The contract of a publication store\<close>

text \<open>
  What the publication workflows rely on. \<open>state_of\<close>, \<open>derivative_at\<close> and \<open>manifest_at\<close> are the
  views of a store, \<open>store_ok\<close> its invariant. Publication begins from \<open>canonical\<close> or \<open>published\<close>
  and publishes from \<open>processing\<close> or \<open>published\<close>; a refused call changes nothing.
\<close>

fun put_all :: "('d \<Rightarrow> string) \<Rightarrow> 'd list \<Rightarrow> (string \<Rightarrow> 'd option) \<Rightarrow> string \<Rightarrow> 'd option" where
  "put_all key [] m = m"
| "put_all key (d # ds) m = put_all key ds (m(key d \<mapsto> d))"

lemma put_all_other: "k \<notin> key ` set ds \<Longrightarrow> put_all key ds m k = m k"
  by (induction ds arbitrary: m) simp_all

lemma put_all_member: "distinct (map key ds) \<Longrightarrow> d \<in> set ds \<Longrightarrow> put_all key ds m (key d) = Some d"
proof (induction ds arbitrary: m)
  case (Cons c ds)
  show ?case
  proof (cases "d = c")
    case True
    then have "key d \<notin> key ` set ds" using Cons(2) by auto
    then show ?thesis using True put_all_other [of "key d" key ds "m(key c \<mapsto> c)"] by simp
  qed (use Cons in simp)
qed simp

lemma put_all_range: "put_all key ds m k = Some e \<Longrightarrow> k \<in> key ` set ds \<Longrightarrow> e \<in> set ds"
proof (induction ds arbitrary: m)
  case (Cons c ds)
  show ?case
  proof (cases "k \<in> key ` set ds")
    case True
    then show ?thesis using Cons by simp
  next
    case False
    then show ?thesis using Cons(2,3) put_all_other [OF False, of "m(key c \<mapsto> c)"] by auto
  qed
qed simp

locale publication_contract =
  fixes start :: "begin_input \<Rightarrow> 's \<Rightarrow> ('s, publication_error, 'v) outcome"
    and publish :: "'d publish_input \<Rightarrow> 's \<Rightarrow> ('s, publication_error, 'v) outcome"
    and state_of :: "'s \<Rightarrow> string \<Rightarrow> publication_state option"
    and derivative_at :: "'s \<Rightarrow> string \<Rightarrow> 'd option"
    and manifest_at :: "'s \<Rightarrow> string \<Rightarrow> string \<Rightarrow> string \<Rightarrow> manifest_record option"
    and store_ok :: "'s \<Rightarrow> bool"
    and version_id :: "'v \<Rightarrow> string"
    and key_of :: "'d \<Rightarrow> string"
  assumes start_accepts: "is_ok (snd (start i s)) \<longleftrightarrow>
      state_of s (bi_versionId i) \<in> {Some pub_canonical, Some pub_published}"
    and start_result: "store_ok s \<Longrightarrow> start i s = (s', Inr v) \<Longrightarrow>
      store_ok s' \<and> state_of s' = (state_of s)(bi_versionId i \<mapsto> pub_processing) \<and>
      derivative_at s' = derivative_at s \<and> manifest_at s' = manifest_at s \<and>
      version_id v = bi_versionId i"
    and start_refused: "start i s = (s', Inl e) \<Longrightarrow> s' = s"
    and publish_accepts: "is_ok (snd (publish j s)) \<longleftrightarrow>
      state_of s (pi_versionId j) \<in> {Some pub_processing, Some pub_published}"
    and publish_result: "store_ok s \<Longrightarrow> publish j s = (s', Inr v) \<Longrightarrow>
      store_ok s' \<and> state_of s' = (state_of s)(pi_versionId j \<mapsto> pub_published) \<and>
      derivative_at s' = put_all key_of (pi_derivatives j) (derivative_at s) \<and>
      manifest_at s' (pi_versionId j) (pm_manifestType (pi_manifest j)) (pi_deliveryScopeId j) =
        Some (pi_manifest j) \<and>
      version_id v = pi_versionId j"
    and publish_refused: "publish j s = (s', Inl e) \<Longrightarrow> s' = s"
begin

text \<open>A begun publication can be published, but not begun again.\<close>

lemma begun_once:
  assumes "store_ok s" "start i s = (s', Inr v)" "bi_versionId i' = bi_versionId i"
  shows "\<not> is_ok (snd (start i' s'))"
  using start_accepts [of i' s'] start_result [OF assms(1,2)] assms(3) by simp

lemma begun_publishable:
  assumes "store_ok s" "start i s = (s', Inr v)" "pi_versionId j = bi_versionId i"
  shows "is_ok (snd (publish j s'))"
  using publish_accepts [of j s'] start_result [OF assms(1,2)] assms(3) by simp

lemma published_visible:
  assumes "store_ok s" "publish j s = (s', Inr v)" "distinct (map key_of (pi_derivatives j))"
  shows "state_of s' (pi_versionId j) = Some pub_published"
    "\<And>d. d \<in> set (pi_derivatives j) \<Longrightarrow> derivative_at s' (key_of d) = Some d"
    "manifest_at s' (pi_versionId j) (pm_manifestType (pi_manifest j)) (pi_deliveryScopeId j) =
       Some (pi_manifest j)"
    "\<And>k. k \<notin> key_of ` set (pi_derivatives j) \<Longrightarrow> derivative_at s' k = derivative_at s k"
  using publish_result [OF assms(1,2)] assms(3)
  by (simp_all add: put_all_member put_all_other)

end

section \<open>The in-memory stores keep the contract\<close>

definition version_state_of ::
  "('a publication_version_scheme, 'd) publication_store \<Rightarrow> string \<Rightarrow> publication_state option" where
  "version_state_of s versionId = map_option pv_lifecycleState (js_get (ps_versions s) versionId)"

definition derivative_at ::
  "('v, 'd) publication_store \<Rightarrow> string \<Rightarrow> 'd option" where
  "derivative_at s k = js_get (ps_derivativesByKey s) k"

definition manifest_at ::
  "('v, 'd) publication_store \<Rightarrow> string \<Rightarrow> string \<Rightarrow> string \<Rightarrow> manifest_record option" where
  "manifest_at s versionId manifestType scope = readManifest versionId manifestType scope s"

definition versions_keyed ::
  "('a publication_version_scheme, 'b derivative_record_scheme) publication_store \<Rightarrow> bool" where
  "versions_keyed s \<longleftrightarrow>
     (\<forall>k v. js_get (ps_versions s) k = Some v \<longrightarrow> pv_versionId v = k) \<and>
     js_wf (ps_derivativesByKey s) \<and>
     (\<forall>k d. js_get (ps_derivativesByKey s) k = Some d \<longrightarrow> pd_deterministicKey d = k)"

lemma setLifecycle_simps [simp]:
  "ps_derivativesByKey (setLifecycle k st s) = ps_derivativesByKey s"
  "ps_manifestsByKey (setLifecycle k st s) = ps_manifestsByKey s"
  by (simp_all add: setLifecycle_def)

lemma setLifecycle_state:
  "js_get (ps_versions s) k = Some v \<Longrightarrow>
    version_state_of (setLifecycle k st s) = (version_state_of s)(k \<mapsto> st)"
  by (auto simp: setLifecycle_def version_state_of_def fun_eq_iff)

lemma setLifecycle_versions:
  "js_get (ps_versions (setLifecycle k st s)) j =
     (if j = k then map_option (pv_lifecycleState_update (\<lambda>_. st)) (js_get (ps_versions s) k)
      else js_get (ps_versions s) j)"
  by (auto simp: setLifecycle_def split: option.splits)

lemma js_get_storeDerivatives:
  assumes "\<And>d. cloneD d = d"
  shows "js_get (storeDerivatives cloneD ds m) =
    put_all pd_deterministicKey ds (js_get m)"
  using assms
proof (induction ds arbitrary: m)
  case (Cons d ds)
  have "js_get (js_set (pd_deterministicKey d) d m) = (js_get m)(pd_deterministicKey d \<mapsto> d)"
    by (rule ext) simp
  then show ?case using Cons(1) [OF Cons(2)] Cons(2) by (simp add: storeDerivatives_def)
qed (simp add: storeDerivatives_def)

lemma js_wf_storeDerivatives: "js_wf m \<Longrightarrow> js_wf (storeDerivatives cloneD ds m)"
  by (induction ds arbitrary: m) (auto simp: storeDerivatives_def)

lemma begin_outcomes:
  assumes "beginPublication cloneV i s = (s', r)"
  obtains (unknown) "js_get (ps_versions s) (bi_versionId i) = None"
      "s' = s" "r = Inl (VersionNotFoundError (bi_versionId i))"
  | (refused) v where "js_get (ps_versions s) (bi_versionId i) = Some v"
      "pv_lifecycleState v = pub_processing" "s' = s"
      "r = Inl (VersionStateError (bi_versionId i) pub_processing begin_processing)"
  | (begun) v where "js_get (ps_versions s) (bi_versionId i) = Some v"
      "pv_lifecycleState v = pub_canonical \<or> pv_lifecycleState v = pub_published"
      "s' = setLifecycle (bi_versionId i) pub_processing s"
      "r = Inr (cloneV (v\<lparr>pv_lifecycleState := pub_processing\<rparr>))"
proof (cases "js_get (ps_versions s) (bi_versionId i)")
  case None
  then show ?thesis using assms
    by (intro unknown) (auto simp: beginPublication_def getMutableVersion_def)
next
  case (Some v)
  show ?thesis
  proof (cases "pv_lifecycleState v = pub_processing")
    case True
    then show ?thesis using assms Some
      by (intro refused [OF Some]) (auto simp: beginPublication_def getMutableVersion_def)
  next
    case False
    then have "pv_lifecycleState v = pub_canonical \<or> pv_lifecycleState v = pub_published"
      by (cases "pv_lifecycleState v") simp_all
    moreover from this have "s' = setLifecycle (bi_versionId i) pub_processing s \<and>
        r = Inr (cloneV (v\<lparr>pv_lifecycleState := pub_processing\<rparr>))"
      using assms Some by (auto simp: beginPublication_def getMutableVersion_def)
    ultimately show ?thesis using begun [OF Some] by blast
  qed
qed

definition publishedStore ::
  "('b derivative_record_scheme \<Rightarrow> 'b derivative_record_scheme)
     \<Rightarrow> 'b derivative_record_scheme publish_input
     \<Rightarrow> ('a publication_version_scheme, 'b derivative_record_scheme) publication_store
     \<Rightarrow> ('a publication_version_scheme, 'b derivative_record_scheme) publication_store" where
  "publishedStore cloneD j s =
     setLifecycle (pi_versionId j) pub_published
       (s\<lparr>ps_derivativesByKey := storeDerivatives cloneD (pi_derivatives j) (ps_derivativesByKey s),
          ps_manifestsByKey :=
            js_set (manifestKey (pi_versionId j) (pi_deliveryScopeId j)
                      (pm_manifestType (pi_manifest j)))
              (pi_manifest j) (ps_manifestsByKey s)\<rparr>)"

lemma publish_outcomes:
  assumes "publishVersion cloneV cloneD j s = (s', r)"
  obtains (unknown) "js_get (ps_versions s) (pi_versionId j) = None"
      "s' = s" "r = Inl (VersionNotFoundError (pi_versionId j))"
  | (refused) v where "js_get (ps_versions s) (pi_versionId j) = Some v"
      "pv_lifecycleState v = pub_canonical" "s' = s"
      "r = Inl (VersionStateError (pi_versionId j) pub_canonical publish_derivatives)"
  | (published) v where "js_get (ps_versions s) (pi_versionId j) = Some v"
      "pv_lifecycleState v = pub_processing \<or> pv_lifecycleState v = pub_published"
      "s' = publishedStore cloneD j s"
      "r = Inr (cloneV (v\<lparr>pv_lifecycleState := pub_published\<rparr>))"
proof (cases "js_get (ps_versions s) (pi_versionId j)")
  case None
  then show ?thesis using assms
    by (intro unknown) (auto simp: publishVersion_def getMutableVersion_def)
next
  case (Some v)
  show ?thesis
  proof (cases "pv_lifecycleState v = pub_canonical")
    case True
    then show ?thesis using assms Some
      by (intro refused [OF Some]) (auto simp: publishVersion_def getMutableVersion_def)
  next
    case False
    then have "pv_lifecycleState v = pub_processing \<or> pv_lifecycleState v = pub_published"
      by (cases "pv_lifecycleState v") simp_all
    moreover from this have "s' = publishedStore cloneD j s \<and>
        r = Inr (cloneV (v\<lparr>pv_lifecycleState := pub_published\<rparr>))"
      using assms Some
      by (auto simp: publishVersion_def getMutableVersion_def publishedStore_def Let_def)
    ultimately show ?thesis using published [OF Some] by blast
  qed
qed

lemma version_state_frame:
  "ps_versions s' = ps_versions s \<Longrightarrow> version_state_of s' = version_state_of s"
  by (simp add: fun_eq_iff version_state_of_def)

lemma versions_keyedD:
  "versions_keyed s \<Longrightarrow> js_get (ps_versions s) k = Some v \<Longrightarrow> pv_versionId v = k"
  by (simp add: versions_keyed_def)

lemma put_all_keyed:
  "put_all key ds m k = Some d \<Longrightarrow> (\<And>k d. m k = Some d \<Longrightarrow> key d = k) \<Longrightarrow> key d = k"
proof (induction ds arbitrary: m)
  case (Cons c ds)
  have upd: "\<And>k d. (m(key c \<mapsto> c)) k = Some d \<Longrightarrow> key d = k"
    using Cons(3) by (auto simp only: fun_upd_apply option.inject split: if_splits)
  have "put_all key ds (m(key c \<mapsto> c)) k = Some d" using Cons(2) by (simp only: put_all.simps)
  from Cons(1) [OF this upd] show ?case .
qed simp

lemma publishedStore_views:
  assumes "\<And>d. cloneD d = d" "js_get (ps_versions s) (pi_versionId j) = Some v"
  shows "version_state_of (publishedStore cloneD j s) =
      (version_state_of s)(pi_versionId j \<mapsto> pub_published)"
    "derivative_at (publishedStore cloneD j s) =
      put_all pd_deterministicKey (pi_derivatives j) (derivative_at s)"
    "manifest_at (publishedStore cloneD j s) (pi_versionId j) (pm_manifestType (pi_manifest j))
       (pi_deliveryScopeId j) = Some (pi_manifest j)"
proof -
  show "version_state_of (publishedStore cloneD j s) =
      (version_state_of s)(pi_versionId j \<mapsto> pub_published)"
  proof -
    let ?t = "s\<lparr>ps_derivativesByKey :=
        storeDerivatives cloneD (pi_derivatives j) (ps_derivativesByKey s),
      ps_manifestsByKey :=
        js_set (manifestKey (pi_versionId j) (pi_deliveryScopeId j)
                  (pm_manifestType (pi_manifest j)))
          (pi_manifest j) (ps_manifestsByKey s)\<rparr>"
    have "version_state_of ?t = version_state_of s" by (rule version_state_frame) simp
    moreover have "js_get (ps_versions ?t) (pi_versionId j) = Some v" using assms(2) by simp
    ultimately show ?thesis
      using setLifecycle_state [of ?t "pi_versionId j" v pub_published]
      by (simp only: publishedStore_def)
  qed
  have d: "derivative_at t = js_get (ps_derivativesByKey t)" for t :: "('v, 'd) publication_store"
    by (rule ext) (simp add: derivative_at_def)
  show "derivative_at (publishedStore cloneD j s) =
      put_all pd_deterministicKey (pi_derivatives j) (derivative_at s)"
    using js_get_storeDerivatives [of cloneD] assms(1) by (simp add: d publishedStore_def)
  show "manifest_at (publishedStore cloneD j s) (pi_versionId j) (pm_manifestType (pi_manifest j))
      (pi_deliveryScopeId j) = Some (pi_manifest j)"
    by (simp add: manifest_at_def readManifest_def publishedStore_def)
qed

lemma begun_views:
  assumes "js_get (ps_versions s) k = Some v"
  shows "version_state_of (setLifecycle k st s) = (version_state_of s)(k \<mapsto> st)"
    "derivative_at (setLifecycle k st s) = derivative_at s"
    "manifest_at (setLifecycle k st s) = manifest_at s"
  using assms by (simp_all add: setLifecycle_state fun_eq_iff derivative_at_def manifest_at_def
      readManifest_def)

lemma keyed_begun: "versions_keyed s \<Longrightarrow> versions_keyed (setLifecycle k st s)"
  by (auto simp: versions_keyed_def setLifecycle_versions split: if_splits)

lemma keyed_published:
  assumes "\<And>d. cloneD d = d" "versions_keyed s"
  shows "versions_keyed (publishedStore cloneD j s)"
proof -
  have get: "js_get (storeDerivatives cloneD ds m) k = Some d \<Longrightarrow>
      (\<And>k d. js_get m k = Some d \<Longrightarrow> pd_deterministicKey d = k) \<Longrightarrow> pd_deterministicKey d = k"
    for ds m k d
    unfolding js_get_storeDerivatives [of cloneD, OF assms(1)]
    by (rule put_all_keyed)
  show ?thesis
    using assms(2) get
    by (auto simp: versions_keyed_def publishedStore_def setLifecycle_versions
        js_wf_storeDerivatives split: if_splits)
qed

lemma in_memory_contract:
  fixes cloneV :: "'a publication_version_scheme \<Rightarrow> 'a publication_version_scheme"
    and cloneD :: "'b derivative_record_scheme \<Rightarrow> 'b derivative_record_scheme"
  assumes cv: "\<And>v. cloneV v = v" and cd: "\<And>d. cloneD d = d"
  shows "publication_contract (beginPublication cloneV) (publishVersion cloneV cloneD)
    version_state_of derivative_at manifest_at versions_keyed pv_versionId pd_deterministicKey"
proof
  fix i :: begin_input and s :: "('a publication_version_scheme, 'b derivative_record_scheme) publication_store"
  obtain s' r where run: "beginPublication cloneV i s = (s', r)" by (cases "beginPublication cloneV i s")
  from run show "is_ok (snd (beginPublication cloneV i s)) \<longleftrightarrow>
      version_state_of s (bi_versionId i) \<in> {Some pub_canonical, Some pub_published}"
    by (cases rule: begin_outcomes) (use run in \<open>auto simp: version_state_of_def\<close>)
next
  fix i :: begin_input and s s' :: "('a publication_version_scheme, 'b derivative_record_scheme) publication_store"
    and v
  assume ok: "versions_keyed s" and run: "beginPublication cloneV i s = (s', Inr v)"
  from run show "versions_keyed s' \<and>
      version_state_of s' = (version_state_of s)(bi_versionId i \<mapsto> pub_processing) \<and>
      derivative_at s' = derivative_at s \<and> manifest_at s' = manifest_at s \<and>
      pv_versionId v = bi_versionId i"
    by (cases rule: begin_outcomes)
      (use ok cv in \<open>simp_all add: begun_views keyed_begun versions_keyedD\<close>)
next
  fix i :: begin_input and s s' :: "('a publication_version_scheme, 'b derivative_record_scheme) publication_store"
    and e
  assume run: "beginPublication cloneV i s = (s', Inl e)"
  then show "s' = s" by (cases rule: begin_outcomes) auto
next
  fix j and s :: "('a publication_version_scheme, 'b derivative_record_scheme) publication_store"
  obtain s' r where run: "publishVersion cloneV cloneD j s = (s', r)"
    by (cases "publishVersion cloneV cloneD j s")
  from run show "is_ok (snd (publishVersion cloneV cloneD j s)) \<longleftrightarrow>
      version_state_of s (pi_versionId j) \<in> {Some pub_processing, Some pub_published}"
    by (cases rule: publish_outcomes) (use run in \<open>auto simp: version_state_of_def\<close>)
next
  fix j and s s' :: "('a publication_version_scheme, 'b derivative_record_scheme) publication_store"
    and v
  assume ok: "versions_keyed s" and run: "publishVersion cloneV cloneD j s = (s', Inr v)"
  from run show "versions_keyed s' \<and>
      version_state_of s' = (version_state_of s)(pi_versionId j \<mapsto> pub_published) \<and>
      derivative_at s' = put_all pd_deterministicKey (pi_derivatives j) (derivative_at s) \<and>
      manifest_at s' (pi_versionId j) (pm_manifestType (pi_manifest j)) (pi_deliveryScopeId j) =
        Some (pi_manifest j) \<and>
      pv_versionId v = pi_versionId j"
  proof (cases rule: publish_outcomes)
    case (published u)
    then show ?thesis
      using publishedStore_views [OF cd published(1)] keyed_published [of cloneD, OF cd ok] ok cv
      by (simp add: versions_keyedD)
  qed simp_all
next
  fix j and s s' :: "('a publication_version_scheme, 'b derivative_record_scheme) publication_store"
    and e
  assume run: "publishVersion cloneV cloneD j s = (s', Inl e)"
  then show "s' = s" by (cases rule: publish_outcomes) auto
qed

interpretation generic_pub: publication_contract beginGenericAssetPublication
  publishGenericAssetVersion version_state_of derivative_at manifest_at versions_keyed
  pv_versionId pd_deterministicKey
  unfolding beginGenericAssetPublication_def publishGenericAssetVersion_def
  by (rule in_memory_contract) simp_all

interpretation image_pub: publication_contract beginImagePublication publishImageVersion
  version_state_of derivative_at manifest_at versions_keyed pv_versionId pd_deterministicKey
  unfolding beginImagePublication_def publishImageVersion_def
  by (rule in_memory_contract) simp_all

interpretation presentation_pub: publication_contract beginPresentationPublication
  publishPresentationVersion version_state_of derivative_at manifest_at versions_keyed
  pv_versionId pd_deterministicKey
  unfolding beginPresentationPublication_def publishPresentationVersion_def
  by (rule in_memory_contract) simp_all

section \<open>Histories\<close>

datatype 'd publication_op = OpBegin begin_input | OpPublish "'d publish_input"

definition runImageOp :: "metadata_derivative publication_op \<Rightarrow> image_store \<Rightarrow> image_store" where
  "runImageOp op s =
     (case op of
        OpBegin i \<Rightarrow> fst (beginImagePublication i s)
      | OpPublish j \<Rightarrow> fst (publishImageVersion j s))"

definition imageHistory ::
  "(image_version \<times> publication_state option) list \<Rightarrow> metadata_derivative publication_op list
     \<Rightarrow> image_store" where
  "imageHistory seeds ops = fold runImageOp ops (newImageStore seeds)"

text \<open>
  The lifecycle of a version, as a table: the version an operation names, the states it is accepted
  in, the state it moves to, and whether the store accepts it.
\<close>

fun op_version :: "'d publication_op \<Rightarrow> string" where
  "op_version (OpBegin i) = bi_versionId i"
| "op_version (OpPublish j) = pi_versionId j"

fun accepted_from :: "'d publication_op \<Rightarrow> publication_state set" where
  "accepted_from (OpBegin _) = {pub_canonical, pub_published}"
| "accepted_from (OpPublish _) = {pub_processing, pub_published}"

fun moves_to :: "'d publication_op \<Rightarrow> publication_state" where
  "moves_to (OpBegin _) = pub_processing"
| "moves_to (OpPublish _) = pub_published"

fun op_accepted :: "metadata_derivative publication_op \<Rightarrow> image_store \<Rightarrow> bool" where
  "op_accepted (OpBegin i) s = is_ok (snd (beginImagePublication i s))"
| "op_accepted (OpPublish j) s = is_ok (snd (publishImageVersion j s))"

lemma history_step:
  "if version_state_of s (op_version op) \<in> Some ` accepted_from op
   then op_accepted op s \<and>
     version_state_of (runImageOp op s) = (version_state_of s)(op_version op \<mapsto> moves_to op)
   else \<not> op_accepted op s \<and> runImageOp op s = s"
proof (cases op)
  case (OpBegin i)
  obtain s' r where run: "beginPublication cloneImageVersion i s = (s', r)"
    by (cases "beginPublication cloneImageVersion i s")
  then have eq: "runImageOp op s = s'" "op_accepted op s = is_ok r"
    by (simp_all add: runImageOp_def OpBegin beginImagePublication_def)
  from run show ?thesis unfolding eq
    by (cases rule: begin_outcomes) (auto simp: OpBegin version_state_of_def begun_views(1))
next
  case (OpPublish j)
  obtain s' r where run: "publishVersion cloneImageVersion cloneMetadataDerivative j s = (s', r)"
    by (cases "publishVersion cloneImageVersion cloneMetadataDerivative j s")
  then have eq: "runImageOp op s = s'" "op_accepted op s = is_ok r"
    by (simp_all add: runImageOp_def OpPublish publishImageVersion_def)
  from run show ?thesis unfolding eq
  proof (cases rule: publish_outcomes)
    case (published v)
    have "version_state_of s (pi_versionId j) = Some (pv_lifecycleState v)"
      by (simp add: version_state_of_def published(1))
    then show "if version_state_of s (op_version op) \<in> Some ` accepted_from op
        then is_ok r \<and> version_state_of s' = (version_state_of s)(op_version op \<mapsto> moves_to op)
        else \<not> is_ok r \<and> s' = s"
      using published(2,3,4)
        publishedStore_views(1) [of cloneMetadataDerivative, OF clones_identity(4) published(1)]
      by (auto simp: OpPublish)
  qed (auto simp: OpPublish version_state_of_def)
qed

text \<open>What a history keeps: the identity of each version, and a manifest for what is published.\<close>

definition kept_since :: "image_store \<Rightarrow> image_store \<Rightarrow> bool" where
  "kept_since s s' \<longleftrightarrow>
     (\<forall>k. map_option (\<lambda>v. v\<lparr>pv_lifecycleState := pub_canonical\<rparr>) (js_get (ps_versions s') k) =
          map_option (\<lambda>v. v\<lparr>pv_lifecycleState := pub_canonical\<rparr>) (js_get (ps_versions s) k)) \<and>
     (\<forall>k. js_get (ps_manifestsByKey s) k \<noteq> None \<longrightarrow> js_get (ps_manifestsByKey s') k \<noteq> None) \<and>
     (\<forall>k. version_state_of s' k = Some pub_published \<longrightarrow>
          version_state_of s k = Some pub_published \<or>
          (\<exists>manifestType scope. readManifest k manifestType scope s' \<noteq> None)) \<and>
     (\<forall>k. derivative_at s k \<noteq> None \<longrightarrow> derivative_at s' k \<noteq> None)"

lemma kept_refl: "kept_since s s"
  by (simp add: kept_since_def)

lemma kept_trans:
  assumes "kept_since s t" "kept_since t u"
  shows "kept_since s u"
proof -
  have "\<And>k. readManifest k ty sc t \<noteq> None \<Longrightarrow> readManifest k ty sc u \<noteq> None" for ty sc
    using assms(2) unfolding kept_since_def readManifest_def by blast
  then show ?thesis using assms unfolding kept_since_def by metis
qed

lemma put_all_keeps: "m k \<noteq> None \<Longrightarrow> put_all key ds m k \<noteq> None"
proof (induction ds arbitrary: m)
  case (Cons d ds)
  have "(m(key d \<mapsto> d)) k \<noteq> None" using Cons(2) by simp
  then show ?case unfolding put_all.simps by (rule Cons(1))
qed simp

lemma kept_op: "kept_since s (runImageOp op s)"
proof (cases op)
  case (OpBegin i)
  obtain s' r where run: "beginPublication cloneImageVersion i s = (s', r)"
    by (cases "beginPublication cloneImageVersion i s")
  then have s': "runImageOp op s = s'" by (simp add: runImageOp_def OpBegin beginImagePublication_def)
  from run show ?thesis
  proof (cases rule: begin_outcomes)
    case (begun v)
    then have "\<And>k. version_state_of s' k = Some pub_published \<Longrightarrow>
        version_state_of s k = Some pub_published"
      by (simp add: begun_views split: if_splits)
    then show ?thesis unfolding s' using begun
      by (auto simp: kept_since_def setLifecycle_versions begun_views derivative_at_def)
  qed (simp_all add: s' kept_refl)
next
  case (OpPublish j)
  obtain s' r where run: "publishVersion cloneImageVersion cloneMetadataDerivative j s = (s', r)"
    by (cases "publishVersion cloneImageVersion cloneMetadataDerivative j s")
  then have s': "runImageOp op s = s'" by (simp add: runImageOp_def OpPublish publishImageVersion_def)
  from run show ?thesis
  proof (cases rule: publish_outcomes)
    case (published v)
    note views = publishedStore_views [of cloneMetadataDerivative, OF _ published(1), simplified]
    have st: "version_state_of s k = Some pub_published \<or>
        (\<exists>manifestType scope. readManifest k manifestType scope s' \<noteq> None)"
      if "version_state_of s' k = Some pub_published" for k
    proof (cases "k = pi_versionId j")
      case True
      then show ?thesis using views(3) unfolding published(3) manifest_at_def by blast
    next
      case False
      then show ?thesis using that views(1) unfolding published(3) by simp
    qed
    have dv: "derivative_at s k \<noteq> None \<Longrightarrow> derivative_at s' k \<noteq> None" for k
      unfolding published(3) views(2) by (rule put_all_keeps)
    have ver: "map_option (\<lambda>v. v\<lparr>pv_lifecycleState := pub_canonical\<rparr>) (js_get (ps_versions s') k) =
        map_option (\<lambda>v. v\<lparr>pv_lifecycleState := pub_canonical\<rparr>) (js_get (ps_versions s) k)" for k
      using published(1) by (simp add: published(3) publishedStore_def setLifecycle_versions)
    have man: "js_get (ps_manifestsByKey s) k \<noteq> None \<Longrightarrow> js_get (ps_manifestsByKey s') k \<noteq> None" for k
      by (simp add: published(3) publishedStore_def)
    show ?thesis unfolding s' kept_since_def using st dv ver man by blast
  qed (simp_all add: s' kept_refl)
qed

lemma kept_history: "kept_since s (fold runImageOp ops s)"
proof (induction ops arbitrary: s)
  case (Cons op ops)
  show ?case using kept_trans [OF kept_op Cons] by simp
qed (simp add: kept_refl)

lemma listed_derivatives:
  assumes "versions_keyed s" "\<And>d. cloneD d = d"
  shows "set (listPublishedDerivatives lc cloneD versionId s) =
    {d. pd_assetVersionId d = versionId \<and> derivative_at s (pd_deterministicKey d) = Some d}"
proof -
  have wf: "js_wf (ps_derivativesByKey s)" using assms(1) by (simp add: versions_keyed_def)
  have key: "\<And>k d. js_get (ps_derivativesByKey s) k = Some d \<Longrightarrow> pd_deterministicKey d = k"
    using assms(1) by (simp add: versions_keyed_def)
  have "set (listPublishedDerivatives lc cloneD versionId s) =
      {d \<in> set (js_values (ps_derivativesByKey s)). pd_assetVersionId d = versionId}"
    using assms(2) by (auto simp: listPublishedDerivatives_def)
  then show ?thesis using key by (auto simp: js_values_get [OF wf] derivative_at_def)
qed

section \<open>Properties\<close>

definition exampleVersion :: image_version where
  "exampleVersion =
     \<lparr>pv_assetId = ''ast'', pv_detectedContentType = ''image/png'',
      pv_lifecycleState = pub_canonical, pv_serviceNamespaceId = ''media'',
      pv_sourceByteLength = 7, pv_sourceChecksumValue = ''abc'', pv_sourceFilename = ''a.png'',
      pv_versionId = ''ver'', pv_versionNumber = 1, pv_canonicalLogicalPath = ''media/a'',
      pv_canonicalSourceId = ''src''\<rparr>"

definition exampleDerivative :: "string \<Rightarrow> string \<Rightarrow> metadata_derivative" where
  "exampleDerivative scope key =
     \<lparr>pd_assetVersionId = ''ver'', pd_byteLength = 3, pd_checksumValue = ''c'',
      pd_contentType = ''image/webp'', pd_deliveryScopeId = scope, pd_deterministicKey = key,
      pd_publishedAt = 5, pd_recipeId = ''webp-master'', pd_schemaVersion = ''v1'',
      pd_storageBucket = ''b'', pd_storageKey = key, pd_variantKey = ''webp-master'',
      pd_metadata = None\<rparr>"

definition examplePublish :: "string \<Rightarrow> metadata_derivative publish_input" where
  "examplePublish scope =
     \<lparr>pi_deliveryScopeId = scope,
      pi_derivatives = [exampleDerivative scope ''k1'', exampleDerivative scope ''k0''],
      pi_manifest =
        \<lparr>pm_assetVersionId = ''ver'', pm_checksumValue = ''m'', pm_deliveryScopeId = scope,
         pm_manifestPayload = JObj [], pm_manifestType = ''image-default'',
         pm_objectKey = ''manifests/x'', pm_publishedAt = 6, pm_schemaVersion = ''v1''\<rparr>,
      pi_publishedAt = 6, pi_versionId = ''ver'', pi_workflowId = ''w''\<rparr>"

definition exampleBegin :: begin_input where
  "exampleBegin = \<lparr>bi_startedAt = 1, bi_versionId = ''ver'', bi_workflowId = ''w''\<rparr>"

definition begunStore :: image_store where
  "begunStore = fst (beginImagePublication exampleBegin (newImageStore [(exampleVersion, None)]))"

definition publishedExample :: image_store where
  "publishedExample = fst (publishImageVersion (examplePublish ''scope'') begunStore)"

lemma example_keyed: "versions_keyed begunStore"
proof -
  have "ps_versions begunStore = [(''ver'', exampleVersion\<lparr>pv_lifecycleState := pub_processing\<rparr>)]"
    "ps_derivativesByKey begunStore = []"
    by code_simp+
  then show ?thesis by (auto simp: versions_keyed_def exampleVersion_def split: if_splits)
qed

text \<open>What a publication makes visible: the version is \<open>published\<close>, its manifest is the one
  read back for the scope and type, and the listing of the version holds exactly the derivatives
  just published for it together with the earlier ones whose keys were not published again, in the
  order of the collation.\<close>

theorem publication_visible:
  assumes "versions_keyed s" "publishImageVersion input s = (s', Inr v)"
    and "distinct (map pd_deterministicKey (pi_derivatives input))" "comparator lc"
  shows "getVersion cloneImageVersion (pi_versionId input) s' = Some v \<and>
    pv_lifecycleState v = pub_published \<and>
    readManifest (pi_versionId input) (pm_manifestType (pi_manifest input))
      (pi_deliveryScopeId input) s' = Some (pi_manifest input) \<and>
    set (listPublishedDerivatives lc cloneMetadataDerivative versionId s') =
      {d \<in> set (pi_derivatives input). pd_assetVersionId d = versionId} \<union>
      {d \<in> set (listPublishedDerivatives lc cloneMetadataDerivative versionId s).
         pd_deterministicKey d \<notin> pd_deterministicKey ` set (pi_derivatives input)} \<and>
    sorted_wrt (\<lambda>a b. lc (pd_deterministicKey a) (pd_deterministicKey b) \<le> 0)
      (listPublishedDerivatives lc cloneMetadataDerivative versionId s')"
proof -
  note vis = image_pub.published_visible [OF assms(1,2,3)]
  have keyed: "versions_keyed s'" using image_pub.publish_result [OF assms(1,2)] by blast
  have "\<exists>u. js_get (ps_versions s) (pi_versionId input) = Some u \<and>
      s' = publishedStore cloneMetadataDerivative input s \<and> v = u\<lparr>pv_lifecycleState := pub_published\<rparr>"
    using assms(2) unfolding publishImageVersion_def
    by (cases rule: publish_outcomes) simp_all
  then obtain u where u: "js_get (ps_versions s) (pi_versionId input) = Some u"
    "s' = publishedStore cloneMetadataDerivative input s"
    "v = u\<lparr>pv_lifecycleState := pub_published\<rparr>" by blast
  have v: "getVersion cloneImageVersion (pi_versionId input) s' = Some v"
    "pv_lifecycleState v = pub_published"
    by (simp_all add: u getVersion_def publishedStore_def setLifecycle_versions)
  have range: "derivative_at s' k = Some d \<Longrightarrow> k \<in> pd_deterministicKey ` set (pi_derivatives input) \<Longrightarrow>
      d \<in> set (pi_derivatives input)" for k d
    using image_pub.publish_result [OF assms(1,2)] put_all_range by metis
  have "set (listPublishedDerivatives lc cloneMetadataDerivative versionId s') =
      {d \<in> set (pi_derivatives input). pd_assetVersionId d = versionId} \<union>
      {d \<in> set (listPublishedDerivatives lc cloneMetadataDerivative versionId s).
         pd_deterministicKey d \<notin> pd_deterministicKey ` set (pi_derivatives input)}"
    unfolding listed_derivatives [OF keyed clones_identity(4)]
      listed_derivatives [OF assms(1) clones_identity(4)]
  proof (intro set_eqI)
    fix d
    have "derivative_at s' (pd_deterministicKey d) = Some d \<longleftrightarrow> d \<in> set (pi_derivatives input) \<or>
        pd_deterministicKey d \<notin> pd_deterministicKey ` set (pi_derivatives input) \<and>
        derivative_at s (pd_deterministicKey d) = Some d"
    proof (cases "pd_deterministicKey d \<in> pd_deterministicKey ` set (pi_derivatives input)")
      case True
      then show ?thesis using vis(2) range by blast
    next
      case False
      then have "d \<notin> set (pi_derivatives input)" by blast
      then show ?thesis using vis(4) [OF False] False by simp
    qed
    then show "d \<in> {d. pd_assetVersionId d = versionId \<and>
          derivative_at s' (pd_deterministicKey d) = Some d} \<longleftrightarrow>
        d \<in> {d \<in> set (pi_derivatives input). pd_assetVersionId d = versionId} \<union>
          {d \<in> {d. pd_assetVersionId d = versionId \<and>
              derivative_at s (pd_deterministicKey d) = Some d}.
            pd_deterministicKey d \<notin> pd_deterministicKey ` set (pi_derivatives input)}"
      by blast
  qed
  moreover have "sorted_wrt (\<lambda>a b. lc (pd_deterministicKey a) (pd_deterministicKey b) \<le> 0)
      (listPublishedDerivatives lc cloneMetadataDerivative versionId s')"
  proof -
    have "comparator (\<lambda>l r :: metadata_derivative. lc (pd_deterministicKey l) (pd_deterministicKey r))"
      using assms(4) unfolding comparator_def by blast
    then show ?thesis
      unfolding listPublishedDerivatives_def
      by (simp add: map_idI comparator.sorted_sort sorted_wrt_map)
  qed
  ultimately show ?thesis using v vis(3) by (simp add: manifest_at_def)
qed

theorem publication_visible_witness:
  "set (listPublishedDerivatives codeUnitCompare cloneMetadataDerivative ''ver'' publishedExample) =
     {exampleDerivative ''scope'' ''k0'', exampleDerivative ''scope'' ''k1''}"
proof -
  let ?v = "exampleVersion\<lparr>pv_lifecycleState := pub_published\<rparr>"
  have run: "publishImageVersion (examplePublish ''scope'') begunStore = (publishedExample, Inr ?v)"
    by code_simp
  have d: "distinct (map pd_deterministicKey (pi_derivatives (examplePublish ''scope'')))"
    by code_simp
  have none: "listPublishedDerivatives codeUnitCompare cloneMetadataDerivative ''ver'' begunStore = []"
    by code_simp
  have ds: "pi_derivatives (examplePublish ''scope'') =
      [exampleDerivative ''scope'' ''k1'', exampleDerivative ''scope'' ''k0'']"
    and vid: "pd_assetVersionId (exampleDerivative scope k) = ''ver''" for scope k
    by (simp_all add: examplePublish_def exampleDerivative_def)
  from publication_visible [OF example_keyed run d code_units.comparator_axioms, of "''ver''"]
  have "set (listPublishedDerivatives codeUnitCompare cloneMetadataDerivative ''ver'' publishedExample) =
      {x \<in> set (pi_derivatives (examplePublish ''scope'')). pd_assetVersionId x = ''ver''} \<union>
      {x \<in> set (listPublishedDerivatives codeUnitCompare cloneMetadataDerivative ''ver'' begunStore).
         pd_deterministicKey x \<notin> pd_deterministicKey ` set (pi_derivatives (examplePublish ''scope''))}"
    by (elim conjE)
  also have "\<dots> = {exampleDerivative ''scope'' ''k0'', exampleDerivative ''scope'' ''k1''}"
    unfolding none ds using vid by fastforce
  finally show ?thesis .
qed

text \<open>C11. Over every history of begin and publish calls on the image store, from any seeds: the next
  call is accepted exactly when the version it names is known and, for a begin, \<open>canonical\<close> or
  \<open>published\<close>, for a publish, \<open>processing\<close> or \<open>published\<close>; an accepted begin moves that version, and
  no other, to \<open>processing\<close>, an accepted publish moves it to \<open>published\<close>, and a refused call leaves
  the store as it is. No version is added, removed or changed in anything but its lifecycle state; a
  version that is \<open>published\<close> and was not seeded as such has a readable manifest; and a derivative
  key that was ever written stays occupied.\<close>

theorem publication_history:
  "(if version_state_of (imageHistory seeds ops) (op_version op) \<in> Some ` accepted_from op
    then op_accepted op (imageHistory seeds ops) \<and>
      version_state_of (imageHistory seeds (ops @ [op])) =
        (version_state_of (imageHistory seeds ops))(op_version op \<mapsto> moves_to op)
    else \<not> op_accepted op (imageHistory seeds ops) \<and>
      imageHistory seeds (ops @ [op]) = imageHistory seeds ops) \<and>
   map_option (\<lambda>v. v\<lparr>pv_lifecycleState := pub_canonical\<rparr>)
     (js_get (ps_versions (imageHistory seeds ops)) k) =
   map_option (\<lambda>v. v\<lparr>pv_lifecycleState := pub_canonical\<rparr>)
     (js_get (ps_versions (newImageStore seeds)) k) \<and>
   (version_state_of (newImageStore seeds) k \<noteq> Some pub_published \<longrightarrow>
     version_state_of (imageHistory seeds ops) k = Some pub_published \<longrightarrow>
     (\<exists>manifestType scope. readManifest k manifestType scope (imageHistory seeds ops) \<noteq> None)) \<and>
   (derivative_at (imageHistory seeds ops) key \<noteq> None \<longrightarrow>
     derivative_at (imageHistory seeds (ops @ ops')) key \<noteq> None)"
proof -
  have step: "imageHistory seeds (ops @ [op]) = runImageOp op (imageHistory seeds ops)"
    by (simp add: imageHistory_def)
  have a: "kept_since (newImageStore seeds) (imageHistory seeds ops)"
    unfolding imageHistory_def by (rule kept_history)
  have b: "kept_since (imageHistory seeds ops) (imageHistory seeds (ops @ ops'))"
    unfolding imageHistory_def using kept_history [of _ ops'] by simp
  show ?thesis
  proof (intro conjI)
    show "if version_state_of (imageHistory seeds ops) (op_version op) \<in> Some ` accepted_from op
      then op_accepted op (imageHistory seeds ops) \<and>
        version_state_of (imageHistory seeds (ops @ [op])) =
          (version_state_of (imageHistory seeds ops))(op_version op \<mapsto> moves_to op)
      else \<not> op_accepted op (imageHistory seeds ops) \<and>
        imageHistory seeds (ops @ [op]) = imageHistory seeds ops"
      unfolding step by (rule history_step)
  qed (use a b in \<open>unfold kept_since_def, blast+\<close>)
qed

theorem publication_history_witness:
  "(\<exists>manifestType scope. readManifest ''ver'' manifestType scope publishedExample \<noteq> None) \<and>
   \<not> op_accepted (OpBegin exampleBegin) begunStore"
proof -
  let ?seeds = "[(exampleVersion, None)]"
  have st: "version_state_of (newImageStore ?seeds) ''ver'' \<noteq> Some pub_published"
    by code_simp
  have eq: "imageHistory ?seeds [OpBegin exampleBegin, OpPublish (examplePublish ''scope'')] =
      publishedExample" "imageHistory ?seeds [OpBegin exampleBegin] = begunStore"
    by (simp_all add: imageHistory_def runImageOp_def publishedExample_def begunStore_def)
  have pub: "version_state_of publishedExample ''ver'' = Some pub_published" by code_simp
  have begun: "version_state_of begunStore ''ver'' = Some pub_processing" by code_simp
  have id: "bi_versionId exampleBegin = ''ver''" by (simp add: exampleBegin_def)
  show ?thesis
    using publication_history
        [of ?seeds "[OpBegin exampleBegin, OpPublish (examplePublish ''scope'')]"]
      publication_history [of ?seeds "[OpBegin exampleBegin]" "OpBegin exampleBegin"]
      st pub begun unfolding eq by (auto simp: id)
qed

end
