(* ===== verification/Calendar.thy ===== *)
theory Calendar
  imports Json_Text
begin

text \<open>
  Dates: \<open>padStart\<close> with zeros, the proleptic Gregorian date of a day count, and
  \<open>Date.prototype.toISOString\<close>. The calendar is one function per step of the computation, so that
  ground dates evaluate by \<open>simp\<close>.
\<close>

text \<open>\<open>String.prototype.padStart\<close> with zeros.\<close>

definition pad_zero :: "nat \<Rightarrow> string \<Rightarrow> string" where
  "pad_zero w s = replicate (w - length s) (CHR ''0'') @ s"

text \<open>The date of a day count from 1970-01-01, by 400-year cycles from 1 March of year 0
  (\<open>getUTCFullYear\<close>, \<open>getUTCMonth\<close> counted from 1, \<open>getUTCDate\<close>).\<close>

definition civilMonth :: "int \<Rightarrow> int \<Rightarrow> int \<Rightarrow> int \<times> int \<times> int" where
  "civilMonth year doy mp =
     (year + (if mp < 10 then 0 else 1), if mp < 10 then mp + 3 else mp - 9,
      doy - (153 * mp + 2) div 5 + 1)"

definition civilDay :: "int \<Rightarrow> int \<Rightarrow> int \<times> int \<times> int" where
  "civilDay year doy = civilMonth year doy ((5 * doy + 2) div 153)"

definition civilYear :: "int \<Rightarrow> int \<Rightarrow> int \<Rightarrow> int \<times> int \<times> int" where
  "civilYear era doe yoe = civilDay (yoe + era * 400) (doe - (365 * yoe + yoe div 4 - yoe div 100))"

definition civil :: "int \<Rightarrow> int \<times> int \<times> int" where
  "civil days =
     civilYear ((days + 719468) div 146097) ((days + 719468) mod 146097)
       (((days + 719468) mod 146097 - (days + 719468) mod 146097 div 1460 +
         (days + 719468) mod 146097 div 36524 - (days + 719468) mod 146097 div 146096) div 365)"

lemmas civil_defs = civil_def civilYear_def civilDay_def civilMonth_def

definition year_text :: "int \<Rightarrow> string" where
  "year_text y =
     (if 0 \<le> y \<and> y \<le> 9999 then pad_zero 4 (int_text y)
      else if y < 0 then ''-'' @ pad_zero 6 (int_text (- y))
      else ''+'' @ pad_zero 6 (int_text y))"

definition toISOString :: "int \<Rightarrow> string" where
  "toISOString t =
     (let (y, m, d) = civil (t div 86400000); ms = t mod 86400000 in
      year_text y @ ''-'' @ pad_zero 2 (int_text m) @ ''-'' @ pad_zero 2 (int_text d) @ ''T'' @
      pad_zero 2 (int_text (ms div 3600000)) @ '':'' @
      pad_zero 2 (int_text (ms div 60000 mod 60)) @ '':'' @
      pad_zero 2 (int_text (ms div 1000 mod 60)) @ ''.'' @
      pad_zero 3 (int_text (ms mod 1000)) @ ''Z'')"

end
