(* ===== verification/Manifests.thy ===== *)
theory Manifests
  imports Calendar
begin

text \<open>
  Object keys and manifests of \<open>packages/manifests/src\<close>: the deterministic derivative and manifest
  keys (\<open>deterministic-derivative-keys.ts\<close>) and the three manifest builders. A builder returns the
  JSON object its TypeScript object literal denotes, with the properties in the order of the
  literal. \<open>Number(bigint)\<close> rounds to a double; the result is an integer, and up to \<open>2 ^ 53\<close> it is
  the argument, beyond which \<open>JSON.stringify\<close> would also print fewer digits than \<open>int_text\<close> does.
\<close>

section \<open>Numbers\<close>

fun bit_length :: "nat \<Rightarrow> nat" where
  "bit_length n = (if n = 0 then 0 else Suc (bit_length (n div 2)))"

declare bit_length.simps [simp del]

definition round_double :: "nat \<Rightarrow> nat" where
  "round_double n =
     (if n \<le> 2 ^ 53 then n
      else
        (let e = bit_length n - 53; q = n div 2 ^ e; r = n mod 2 ^ e; h = 2 ^ (e - 1) in
         (if h < r \<or> (r = h \<and> odd q) then Suc q else q) * 2 ^ e))"

definition js_Number :: "int \<Rightarrow> int" where
  "js_Number i = (if i < 0 then - int (round_double (nat (- i))) else int (round_double (nat i)))"

lemma js_Number_exact: "\<bar>i\<bar> \<le> 2 ^ 53 \<Longrightarrow> js_Number i = i"
  by (auto simp: js_Number_def round_double_def nat_le_eq_zle)

section \<open>Object keys\<close>

record derivative_key_input =
  dk_assetId :: string
  dk_recipeId :: string
  dk_serviceNamespaceId :: string
  dk_variantKey :: string
  dk_versionId :: string

record manifest_key_input =
  mk_assetId :: string
  mk_manifestType :: string
  mk_serviceNamespaceId :: string
  mk_versionId :: string

definition buildDeterministicDerivativeKey :: "derivative_key_input \<Rightarrow> string" where
  "buildDeterministicDerivativeKey i =
     ''deriv/'' @ dk_serviceNamespaceId i @ ''/'' @ dk_assetId i @ ''/'' @ dk_versionId i @ ''/'' @
     dk_recipeId i @ ''/'' @ dk_variantKey i"

definition buildManifestObjectKey :: "manifest_key_input \<Rightarrow> string" where
  "buildManifestObjectKey i =
     ''manifests/'' @ mk_serviceNamespaceId i @ ''/'' @ mk_assetId i @ ''/'' @ mk_versionId i @ ''/'' @
     mk_manifestType i @ ''.json''"

definition buildImageManifestObjectKey :: "manifest_key_input \<Rightarrow> string" where
  "buildImageManifestObjectKey i = buildManifestObjectKey i"

definition slash_free :: "string \<Rightarrow> bool" where
  "slash_free s \<longleftrightarrow> CHR ''/'' \<notin> set s"

definition derivative_key_ok :: "derivative_key_input \<Rightarrow> bool" where
  "derivative_key_ok i \<longleftrightarrow>
     slash_free (dk_serviceNamespaceId i) \<and> slash_free (dk_assetId i) \<and> slash_free (dk_versionId i) \<and>
     slash_free (dk_recipeId i) \<and> slash_free (dk_variantKey i)"

definition manifest_key_ok :: "manifest_key_input \<Rightarrow> bool" where
  "manifest_key_ok i \<longleftrightarrow>
     slash_free (mk_serviceNamespaceId i) \<and> slash_free (mk_assetId i) \<and> slash_free (mk_versionId i) \<and>
     slash_free (mk_manifestType i)"

lemma derivative_key_join:
  "buildDeterministicDerivativeKey i =
     js_join ''/'' [''deriv'', dk_serviceNamespaceId i, dk_assetId i, dk_versionId i, dk_recipeId i,
                  dk_variantKey i]"
  by (simp add: buildDeterministicDerivativeKey_def)

lemma manifest_key_join:
  "buildManifestObjectKey i =
     js_join ''/'' [''manifests'', mk_serviceNamespaceId i, mk_assetId i, mk_versionId i,
                  mk_manifestType i @ ''.json'']"
  by (simp add: buildManifestObjectKey_def)

lemma derivative_key_inj:
  assumes "derivative_key_ok i" "derivative_key_ok j"
    and "buildDeterministicDerivativeKey i = buildDeterministicDerivativeKey j"
  shows "i = j"
proof -
  have "[''deriv'', dk_serviceNamespaceId i, dk_assetId i, dk_versionId i, dk_recipeId i, dk_variantKey i] =
      [''deriv'', dk_serviceNamespaceId j, dk_assetId j, dk_versionId j, dk_recipeId j, dk_variantKey j]"
    by (rule js_join_inj [of "CHR ''/''"])
      (use assms in \<open>auto simp: derivative_key_join derivative_key_ok_def slash_free_def\<close>)
  then show ?thesis by simp
qed

lemma manifest_key_inj:
  assumes "manifest_key_ok i" "manifest_key_ok j"
    and "buildManifestObjectKey i = buildManifestObjectKey j"
  shows "i = j"
proof -
  have "[''manifests'', mk_serviceNamespaceId i, mk_assetId i, mk_versionId i, mk_manifestType i @ ''.json''] =
      [''manifests'', mk_serviceNamespaceId j, mk_assetId j, mk_versionId j, mk_manifestType j @ ''.json'']"
    by (rule js_join_inj [of "CHR ''/''"])
      (use assms in \<open>auto simp: manifest_key_join manifest_key_ok_def slash_free_def\<close>)
  then show ?thesis by simp
qed

lemma key_kinds_disjoint: "buildDeterministicDerivativeKey i \<noteq> buildManifestObjectKey j"
  by (simp add: buildDeterministicDerivativeKey_def buildManifestObjectKey_def)

section \<open>Manifest builders\<close>

record manifest_derivative =
  md_byteLength :: int
  md_checksum :: string
  md_contentType :: string
  md_deterministicKey :: string
  md_recipeId :: string
  md_schemaVersion :: string
  md_variantKey :: string

record manifest_slide = manifest_derivative +
  md_pageNumber :: int

definition normalizeDerivative :: "'a manifest_derivative_scheme \<Rightarrow> json_record" where
  "normalizeDerivative d =
     [(''byteLength'', JNum (js_Number (md_byteLength d))),
      (''checksum'', JStr (md_checksum d)),
      (''contentType'', JStr (md_contentType d)),
      (''deterministicKey'', JStr (md_deterministicKey d)),
      (''recipeId'', JStr (md_recipeId d)),
      (''schemaVersion'', JStr (md_schemaVersion d)),
      (''variantKey'', JStr (md_variantKey d))]"

record generic_manifest_input =
  gm_assetId :: string
  gm_generatedAt :: int
  gm_manifestType :: string
  gm_preservedOriginal :: manifest_derivative
  gm_schemaVersion :: string
  gm_serviceNamespaceId :: string
  gm_versionId :: string

definition buildGenericAssetManifest :: "generic_manifest_input \<Rightarrow> json" where
  "buildGenericAssetManifest i =
     JObj
       [(''assetId'', JStr (gm_assetId i)),
        (''generatedAt'', JStr (toISOString (gm_generatedAt i))),
        (''manifestType'', JStr (gm_manifestType i)),
        (''preservedOriginal'', JObj (normalizeDerivative (gm_preservedOriginal i))),
        (''schemaVersion'', JStr (gm_schemaVersion i)),
        (''serviceNamespaceId'', JStr (gm_serviceNamespaceId i)),
        (''versionId'', JStr (gm_versionId i))]"

record image_manifest_input =
  im_assetId :: string
  im_derivatives :: "manifest_derivative list"
  im_generatedAt :: int
  im_manifestType :: string
  im_schemaVersion :: string
  im_serviceNamespaceId :: string
  im_versionId :: string

definition buildImageAssetManifest ::
  "(string \<Rightarrow> string \<Rightarrow> int) \<Rightarrow> image_manifest_input \<Rightarrow> json" where
  "buildImageAssetManifest lc i =
     JObj
       [(''assetId'', JStr (im_assetId i)),
        (''derivatives'',
         JArr (map (\<lambda>d. JObj (normalizeDerivative d))
           (js_sort (\<lambda>l r. lc (md_deterministicKey l) (md_deterministicKey r)) (im_derivatives i)))),
        (''generatedAt'', JStr (toISOString (im_generatedAt i))),
        (''manifestType'', JStr (im_manifestType i)),
        (''schemaVersion'', JStr (im_schemaVersion i)),
        (''serviceNamespaceId'', JStr (im_serviceNamespaceId i)),
        (''versionId'', JStr (im_versionId i))]"

record presentation_manifest_input =
  qm_assetId :: string
  qm_generatedAt :: int
  qm_manifestType :: string
  qm_normalizedDocument :: manifest_derivative
  qm_schemaVersion :: string
  qm_serviceNamespaceId :: string
  qm_slides :: "manifest_slide list"
  qm_versionId :: string

definition slideOrder :: "(string \<Rightarrow> string \<Rightarrow> int) \<Rightarrow> manifest_slide \<Rightarrow> manifest_slide \<Rightarrow> int" where
  "slideOrder lc l r =
     (if md_pageNumber l - md_pageNumber r \<noteq> 0 then md_pageNumber l - md_pageNumber r
      else lc (md_deterministicKey l) (md_deterministicKey r))"

definition buildPresentationAssetManifest ::
  "(string \<Rightarrow> string \<Rightarrow> int) \<Rightarrow> presentation_manifest_input \<Rightarrow> json" where
  "buildPresentationAssetManifest lc i =
     JObj
       [(''assetId'', JStr (qm_assetId i)),
        (''generatedAt'', JStr (toISOString (qm_generatedAt i))),
        (''manifestType'', JStr (qm_manifestType i)),
        (''normalizedDocument'', JObj (normalizeDerivative (qm_normalizedDocument i))),
        (''schemaVersion'', JStr (qm_schemaVersion i)),
        (''serviceNamespaceId'', JStr (qm_serviceNamespaceId i)),
        (''slides'',
         JArr (map (\<lambda>d. JObj (normalizeDerivative d @ [(''pageNumber'', JNum (md_pageNumber d))]))
           (js_sort (slideOrder lc) (qm_slides i)))),
        (''versionId'', JStr (qm_versionId i))]"

text \<open>Every manifest can be stored as JSON text and read back.\<close>

lemma normalized_ok [simp]: "json_ok (JObj (normalizeDerivative d))"
  "json_ok (JObj (normalizeDerivative d @ [(''pageNumber'', JNum n)]))"
  by (simp_all add: normalizeDerivative_def)

lemma manifests_ok [simp]:
  "json_ok (buildGenericAssetManifest g)" "json_ok (buildImageAssetManifest lc i)"
  "json_ok (buildPresentationAssetManifest lc p)"
  by (auto simp: buildGenericAssetManifest_def buildImageAssetManifest_def
      buildPresentationAssetManifest_def normalizeDerivative_def)

text \<open>The comparators of the manifests are comparators whenever the collation is one.\<close>

lemma slide_comparator:
  assumes "comparator lc"
  shows "comparator (slideOrder lc)"
proof
  fix x y show "slideOrder lc x y \<le> 0 \<or> slideOrder lc y x \<le> 0"
    using comparator.cmp_total [OF assms] by (auto simp: slideOrder_def)
next
  fix x y z assume "slideOrder lc x y \<le> 0" "slideOrder lc y z \<le> 0"
  then show "slideOrder lc x z \<le> 0"
    using comparator.cmp_trans [OF assms] by (auto simp: slideOrder_def split: if_splits)
qed

lemma key_comparator: "comparator lc \<Longrightarrow> comparator (\<lambda>l r. lc (f l) (f r))"
  unfolding comparator_def by blast

end
