(* ===== verification/Capabilities.thy ===== *)
theory Capabilities
  imports Base_Prelude
begin

text \<open>
  Capability registrations and recipe bindings of \<open>packages/capabilities/src\<close>: the generic, image
  and presentation capabilities with their processors and recipes, the lookup of a recipe, and
  the workflow template that a source content type selects
  (\<open>workflow-template-resolution.ts\<close>). Literal types of the TypeScript are datatypes where
  they have several values and strings where they have one.
\<close>

datatype match_strategy = match_exact | match_fallback
datatype execution_mode = mode_none | mode_post_canonicalization
datatype semantic_claims = claims_none | claims_capability_scoped
datatype inventory_mode = inventory_never | inventory_when_container_detected | inventory_always
datatype normalization_artifact =
  artifact_container_inventory | artifact_canonical_intermediate | artifact_semantic_fingerprint
| artifact_semantic_relations

record fallback_policy =
  fp_preserveOriginal :: bool
  fp_digestAlgorithms :: "string list"
  fp_semanticClaims :: semantic_claims
  fp_containerInventory :: "(string \<times> inventory_mode) option"

record normalization_registration =
  nr_executionMode :: execution_mode
  nr_fallback :: fallback_policy
  nr_supportedArtifacts :: "normalization_artifact list"

record normalization_options =
  no_containerInventoryMode :: "inventory_mode option"
  no_semanticClaims :: "semantic_claims option"
  no_supportedArtifacts :: "normalization_artifact list option"

definition createFormatAgnosticNormalizationRegistration ::
  "normalization_options \<Rightarrow> normalization_registration" where
  "createFormatAgnosticNormalizationRegistration options =
     \<lparr>nr_executionMode = mode_post_canonicalization,
      nr_fallback =
        \<lparr>fp_preserveOriginal = True, fp_digestAlgorithms = [''sha256''],
         fp_semanticClaims = nullish (no_semanticClaims options) claims_none,
         fp_containerInventory =
           map_option (\<lambda>m. (''generic-container-inventory'', m))
             (no_containerInventoryMode options)\<rparr>,
      nr_supportedArtifacts = nullish (no_supportedArtifacts options) []\<rparr>"

record capability_registration =
  cap_capabilityId :: string
  cap_extensions :: "string list"
  cap_keyTemplate :: string
  cap_matchStrategy :: match_strategy
  cap_mimeTypes :: "string list"
  cap_normalization :: normalization_registration
  cap_recipes :: "string list"
  cap_resourceProfile :: string
  cap_retryPolicy :: string
  cap_schemaVersion :: string
  cap_validators :: "string list"

record processor_registration =
  pr_capabilities :: "string list"
  pr_observabilityLabels :: "(string \<times> string) list"
  pr_processorId :: string
  pr_recipes :: "string list"
  pr_retryPolicy :: string
  pr_runtimeProfile :: string
  pr_timeoutPolicy :: string

record recipe_binding =
  rb_capabilityId :: string
  rb_contentType :: string
  rb_manifestType :: string
  rb_recipeId :: string
  rb_schemaVersion :: string
  rb_variantKey :: string
  rb_workflowTemplateId :: string

definition findRecipe :: "string \<Rightarrow> recipe_binding list \<Rightarrow> recipe_binding option" where
  "findRecipe recipeId bindings = List.find (\<lambda>b. rb_recipeId b = recipeId) bindings"

section \<open>The generic capability\<close>

definition keyTemplate :: string where
  "keyTemplate = ''/{serviceNamespaceId}/{assetId}/{versionId}/{recipeId}/{variantKey}''"

definition defaultGenericCapability :: capability_registration where
  "defaultGenericCapability =
     \<lparr>cap_capabilityId = ''asset.generic'', cap_extensions = [], cap_keyTemplate = keyTemplate,
      cap_matchStrategy = match_fallback, cap_mimeTypes = [],
      cap_normalization = createFormatAgnosticNormalizationRegistration
        \<lparr>no_containerInventoryMode = Some inventory_when_container_detected,
         no_semanticClaims = None, no_supportedArtifacts = Some [artifact_container_inventory]\<rparr>,
      cap_recipes = [''preserve-original''], cap_resourceProfile = ''generic-light'',
      cap_retryPolicy = ''default-asset-retry'', cap_schemaVersion = ''v1'',
      cap_validators = [''sniff-generic-binary'']\<rparr>"

definition defaultGenericProcessor :: processor_registration where
  "defaultGenericProcessor =
     \<lparr>pr_capabilities = [''asset.generic''],
      pr_observabilityLabels =
        [(''processorFamily'', ''generic-asset''), (''processorRuntime'', ''platform-default'')],
      pr_processorId = ''generic-asset-preserver'', pr_recipes = [''preserve-original''],
      pr_retryPolicy = ''default-asset-retry'', pr_runtimeProfile = ''cpu-light'',
      pr_timeoutPolicy = ''asset-short-transform''\<rparr>"

definition defaultGenericRecipeBindings :: "recipe_binding list" where
  "defaultGenericRecipeBindings =
     [\<lparr>rb_capabilityId = ''asset.generic'', rb_contentType = ''application/octet-stream'',
       rb_manifestType = ''generic-asset-default'', rb_recipeId = ''preserve-original'',
       rb_schemaVersion = ''v1'', rb_variantKey = ''preserve-original'',
       rb_workflowTemplateId = ''asset-derivation-v1''\<rparr>]"

text \<open>The lookup throws for an unknown recipe: \<open>None\<close>.\<close>

definition getGenericRecipeBinding :: "string \<Rightarrow> recipe_binding option" where
  "getGenericRecipeBinding recipeId = findRecipe recipeId defaultGenericRecipeBindings"

section \<open>The image capability\<close>

definition defaultImageCapability :: capability_registration where
  "defaultImageCapability =
     \<lparr>cap_capabilityId = ''image.default'',
      cap_extensions = [''.png'', ''.jpg'', ''.jpeg'', ''.webp''], cap_keyTemplate = keyTemplate,
      cap_matchStrategy = match_exact,
      cap_mimeTypes = [''image/png'', ''image/jpeg'', ''image/webp''],
      cap_normalization = createFormatAgnosticNormalizationRegistration
        \<lparr>no_containerInventoryMode = None, no_semanticClaims = Some claims_capability_scoped,
         no_supportedArtifacts = Some [artifact_semantic_fingerprint]\<rparr>,
      cap_recipes = [''webp-master'', ''thumbnail-small''], cap_resourceProfile = ''image-medium'',
      cap_retryPolicy = ''default-media-retry'', cap_schemaVersion = ''v1'',
      cap_validators = [''sniff-image'']\<rparr>"

definition defaultImageProcessor :: processor_registration where
  "defaultImageProcessor =
     \<lparr>pr_capabilities = [''image.default''],
      pr_observabilityLabels =
        [(''processorFamily'', ''image''), (''processorRuntime'', ''imgproxy-libvips'')],
      pr_processorId = ''imgproxy-image-deriver'',
      pr_recipes = [''webp-master'', ''thumbnail-small''],
      pr_retryPolicy = ''default-media-retry'', pr_runtimeProfile = ''cpu-image'',
      pr_timeoutPolicy = ''image-short-transform''\<rparr>"

definition imageBinding :: "string \<Rightarrow> recipe_binding" where
  "imageBinding recipe =
     \<lparr>rb_capabilityId = ''image.default'', rb_contentType = ''image/webp'',
      rb_manifestType = ''image-default'', rb_recipeId = recipe, rb_schemaVersion = ''v1'',
      rb_variantKey = recipe, rb_workflowTemplateId = ''image-derivation-v1''\<rparr>"

definition defaultImageRecipeBindings :: "recipe_binding list" where
  "defaultImageRecipeBindings = [imageBinding ''webp-master'', imageBinding ''thumbnail-small'']"

definition getImageRecipeBinding :: "string \<Rightarrow> recipe_binding option" where
  "getImageRecipeBinding recipeId = findRecipe recipeId defaultImageRecipeBindings"

section \<open>The presentation capability\<close>

definition defaultPresentationCapability :: capability_registration where
  "defaultPresentationCapability =
     \<lparr>cap_capabilityId = ''presentation.default'', cap_extensions = [''.pdf'', ''.ppt'', ''.pptx''],
      cap_keyTemplate = keyTemplate, cap_matchStrategy = match_exact,
      cap_mimeTypes =
        [''application/pdf'', ''application/vnd.ms-powerpoint'',
         ''application/vnd.openxmlformats-officedocument.presentationml.presentation''],
      cap_normalization = createFormatAgnosticNormalizationRegistration
        \<lparr>no_containerInventoryMode = None, no_semanticClaims = Some claims_capability_scoped,
         no_supportedArtifacts =
           Some [artifact_canonical_intermediate, artifact_semantic_fingerprint]\<rparr>,
      cap_recipes = [''normalized-pdf'', ''slide-images''],
      cap_resourceProfile = ''document-medium'', cap_retryPolicy = ''default-document-retry'',
      cap_schemaVersion = ''v1'', cap_validators = [''sniff-document'']\<rparr>"

definition defaultPresentationProcessor :: processor_registration where
  "defaultPresentationProcessor =
     \<lparr>pr_capabilities = [''presentation.default''],
      pr_observabilityLabels =
        [(''processorFamily'', ''presentation''), (''processorRuntime'', ''gotenberg'')],
      pr_processorId = ''gotenberg-presentation-normalizer'',
      pr_recipes = [''normalized-pdf'', ''slide-images''],
      pr_retryPolicy = ''default-document-retry'', pr_runtimeProfile = ''cpu-document'',
      pr_timeoutPolicy = ''document-normalization''\<rparr>"

definition presentationBinding :: "string \<Rightarrow> string \<Rightarrow> string \<Rightarrow> recipe_binding" where
  "presentationBinding contentType recipe variant =
     \<lparr>rb_capabilityId = ''presentation.default'', rb_contentType = contentType,
      rb_manifestType = ''presentation-default'', rb_recipeId = recipe, rb_schemaVersion = ''v1'',
      rb_variantKey = variant, rb_workflowTemplateId = ''presentation-normalization-v1''\<rparr>"

definition defaultPresentationRecipeBindings :: "recipe_binding list" where
  "defaultPresentationRecipeBindings =
     [presentationBinding ''application/pdf'' ''normalized-pdf'' ''normalized-pdf'',
      presentationBinding ''image/webp'' ''slide-images'' ''slide-{pageNumber}'']"

definition getPresentationRecipeBinding :: "string \<Rightarrow> recipe_binding option" where
  "getPresentationRecipeBinding recipeId = findRecipe recipeId defaultPresentationRecipeBindings"

section \<open>Template resolution\<close>

record resolved_template =
  rw_capabilityId :: string
  rw_manifestType :: string
  rw_workflowTemplateId :: string

record workflow_binding = resolved_template +
  rw_mimeTypes :: "string list"

text \<open>The recipes named here are registered, so no lookup throws when the module loads.\<close>

definition workflowBinding ::
  "capability_registration \<Rightarrow> recipe_binding option \<Rightarrow> workflow_binding" where
  "workflowBinding capability recipe =
     \<lparr>rw_capabilityId = cap_capabilityId capability,
      rw_manifestType = rb_manifestType (the recipe),
      rw_workflowTemplateId = rb_workflowTemplateId (the recipe),
      rw_mimeTypes = cap_mimeTypes capability\<rparr>"

definition defaultWorkflowBindings :: "workflow_binding list" where
  "defaultWorkflowBindings =
     [workflowBinding defaultImageCapability (getImageRecipeBinding ''webp-master''),
      workflowBinding defaultPresentationCapability (getPresentationRecipeBinding ''normalized-pdf''),
      workflowBinding defaultGenericCapability (getGenericRecipeBinding ''preserve-original'')]"

definition resolveDefaultWorkflowTemplateForSource :: "string \<Rightarrow> resolved_template option" where
  "resolveDefaultWorkflowTemplateForSource contentType =
     (let normalizedContentType = js_lower (js_trim contentType);
          binding = List.find (\<lambda>c. \<exists>m\<in>set (rw_mimeTypes c). js_lower m = normalizedContentType)
                      defaultWorkflowBindings;
          fallbackBinding =
            List.find (\<lambda>c. rw_capabilityId c = cap_capabilityId defaultGenericCapability)
              defaultWorkflowBindings in
      map_option resolved_template.truncate (or_else binding fallbackBinding))"

lemma workflow_bindings:
  "defaultWorkflowBindings =
     [\<lparr>rw_capabilityId = ''image.default'', rw_manifestType = ''image-default'',
       rw_workflowTemplateId = ''image-derivation-v1'',
       rw_mimeTypes = [''image/png'', ''image/jpeg'', ''image/webp'']\<rparr>,
      \<lparr>rw_capabilityId = ''presentation.default'', rw_manifestType = ''presentation-default'',
       rw_workflowTemplateId = ''presentation-normalization-v1'',
       rw_mimeTypes = [''application/pdf'', ''application/vnd.ms-powerpoint'',
         ''application/vnd.openxmlformats-officedocument.presentationml.presentation'']\<rparr>,
      \<lparr>rw_capabilityId = ''asset.generic'', rw_manifestType = ''generic-asset-default'',
       rw_workflowTemplateId = ''asset-derivation-v1'', rw_mimeTypes = []\<rparr>]"
  by (simp add: defaultWorkflowBindings_def workflowBinding_def defaultImageCapability_def
      defaultPresentationCapability_def defaultGenericCapability_def getImageRecipeBinding_def
      getPresentationRecipeBinding_def getGenericRecipeBinding_def findRecipe_def
      defaultImageRecipeBindings_def defaultPresentationRecipeBindings_def
      defaultGenericRecipeBindings_def imageBinding_def presentationBinding_def)

lemma mime_types_lower:
  "js_lower ''image/png'' = ''image/png''" "js_lower ''image/jpeg'' = ''image/jpeg''"
  "js_lower ''image/webp'' = ''image/webp''" "js_lower ''application/pdf'' = ''application/pdf''"
  "js_lower ''application/vnd.ms-powerpoint'' = ''application/vnd.ms-powerpoint''"
  "js_lower ''application/vnd.openxmlformats-officedocument.presentationml.presentation'' =
     ''application/vnd.openxmlformats-officedocument.presentationml.presentation''"
  by code_simp+

text \<open>The workflow template of a source content type, exactly: the image or the presentation
  template when the trimmed content type is one of their MIME types in any letter case, and the
  generic preserve-original template for everything else. The resolution never fails.\<close>

theorem template_resolution:
  "resolveDefaultWorkflowTemplateForSource contentType =
     (let t = js_lower (js_trim contentType) in
      Some
        (if t \<in> {''image/png'', ''image/jpeg'', ''image/webp''} then
           \<lparr>rw_capabilityId = ''image.default'', rw_manifestType = ''image-default'',
            rw_workflowTemplateId = ''image-derivation-v1''\<rparr>
         else if t \<in> {''application/pdf'', ''application/vnd.ms-powerpoint'',
             ''application/vnd.openxmlformats-officedocument.presentationml.presentation''} then
           \<lparr>rw_capabilityId = ''presentation.default'', rw_manifestType = ''presentation-default'',
            rw_workflowTemplateId = ''presentation-normalization-v1''\<rparr>
         else
           \<lparr>rw_capabilityId = ''asset.generic'', rw_manifestType = ''generic-asset-default'',
            rw_workflowTemplateId = ''asset-derivation-v1''\<rparr>))"
  by (auto simp: resolveDefaultWorkflowTemplateForSource_def workflow_bindings mime_types_lower
      Let_def defaultGenericCapability_def resolved_template.truncate_def)

end
