(* ===== verification/Publication_Workflows.thy ===== *)
theory Publication_Workflows
  imports Publication_Store Manifests Capabilities
begin

text \<open>
  The publication workflows of \<open>packages/workflows/src\<close>: generic preserve-original, image and
  presentation. A workflow begins the publication in the store, runs the processor and writes
  derivatives and a manifest to the object store, and publishes the version; the middle part
  sees only the outside world (\<open>'w env\<close>: the processor, the object store and the clock), so it is a
  function of it (\<open>genericBody\<close>, \<open>imageBody\<close>, \<open>presentationBody\<close>) and \<open>publicationWorkflow\<close> is
  the frame the three functions share. The processor, the object store, the clock \<open>now\<close>, the
  SHA-256 digest \<open>sha\<close> and the collation \<open>lc\<close> are parameters; the causes of their failures are
  strings. No other call runs between the steps of one workflow in this model.
\<close>

section \<open>The outside world\<close>

datatype plain_body = ByteBody "nat list" | TextBody string

datatype object_body = Plain plain_body | StreamBody string

record publish_object_input =
  po_body :: object_body
  po_byteLength :: int
  po_checksum :: object_checksum
  po_contentType :: string
  po_objectKey :: string

record publish_object_result =
  pr_bucket :: string
  pr_key :: string

datatype workflow_error =
  PublicationFailed publication_error
| ActivityFailed string
| ObjectStoreFailed string
| MissingStableChecksum string
| RecipeNotRegistered string
| InvalidManifestJson

record 'w env =
  en_world :: 'w
  en_clockReadings :: nat

type_synonym ('w, 'i, 'r) activity = "'i \<Rightarrow> 'w \<Rightarrow> 'w \<times> (string + 'r)"

record ('w, 'i, 'r) workflow_dependencies =
  wf_publishObject :: "('w, publish_object_input, publish_object_result) activity"
  wf_process :: "('w, 'i, 'r) activity"
  wf_now :: "nat \<Rightarrow> int"
  wf_recipeBindings :: "recipe_binding list option"

definition readClock :: "('w, 'i, 'r, 'z) workflow_dependencies_scheme \<Rightarrow> 'w env \<Rightarrow> int \<times> 'w env" where
  "readClock deps en =
     (wf_now deps (en_clockReadings en), en\<lparr>en_clockReadings := Suc (en_clockReadings en)\<rparr>)"

definition callActivity ::
  "('w, 'i, 'r) activity \<Rightarrow> (string \<Rightarrow> workflow_error) \<Rightarrow> 'i \<Rightarrow> 'w env
     \<Rightarrow> ('w env, workflow_error, 'r) outcome" where
  "callActivity f failed i en =
     (case f i (en_world en) of
        (w, Inl cause) \<Rightarrow> throw (en\<lparr>en_world := w\<rparr>) (failed cause)
      | (w, Inr r) \<Rightarrow> ok (en\<lparr>en_world := w\<rparr>) r)"

definition hashBody :: "(nat list \<Rightarrow> string) \<Rightarrow> plain_body \<Rightarrow> int \<times> object_checksum" where
  "hashBody sha body =
     (let buffer = (case body of TextBody s \<Rightarrow> utf8 s | ByteBody bytes \<Rightarrow> bytes) in
      (int (length buffer), \<lparr>oc_algorithm = sha256, oc_value = sha buffer\<rparr>))"

section \<open>The frame\<close>

record run_input =
  ri_deliveryScopeId :: string
  ri_versionId :: string
  ri_workflowId :: string

record ('v, 'd) workflow_result =
  wr_derivatives :: "'d list"
  wr_manifest :: manifest_record
  wr_version :: 'v

definition publicationWorkflow ::
  "(begin_input \<Rightarrow> 's \<Rightarrow> ('s, publication_error, 'v) outcome)
     \<Rightarrow> ('d publish_input \<Rightarrow> 's \<Rightarrow> ('s, publication_error, 'v) outcome)
     \<Rightarrow> ('w, 'i, 'r) workflow_dependencies
     \<Rightarrow> ('v \<Rightarrow> 'w env \<Rightarrow> ('w env, workflow_error, 'd list \<times> manifest_record) outcome)
     \<Rightarrow> run_input \<Rightarrow> 's \<times> 'w env
     \<Rightarrow> ('s \<times> 'w env, workflow_error, ('v, 'd) workflow_result) outcome" where
  "publicationWorkflow start publish deps body input w =
     (let (startedAt, en1) = readClock deps (snd w) in
      case start \<lparr>bi_startedAt = startedAt, bi_versionId = ri_versionId input,
                  bi_workflowId = ri_workflowId input\<rparr> (fst w) of
        (s1, Inl e) \<Rightarrow> throw (s1, en1) (PublicationFailed e)
      | (s1, Inr version) \<Rightarrow>
      (case body version en1 of
        (en2, Inl e) \<Rightarrow> throw (s1, en2) e
      | (en2, Inr (derivatives, manifest)) \<Rightarrow>
      (let (publishedAt, en3) = readClock deps en2 in
       case publish \<lparr>pi_deliveryScopeId = ri_deliveryScopeId input, pi_derivatives = derivatives,
                     pi_manifest = manifest, pi_publishedAt = publishedAt,
                     pi_versionId = ri_versionId input, pi_workflowId = ri_workflowId input\<rparr> s1 of
        (s2, Inl e) \<Rightarrow> throw (s2, en3) (PublicationFailed e)
      | (s2, Inr publishedVersion) \<Rightarrow>
          ok (s2, en3)
            \<lparr>wr_derivatives = derivatives, wr_manifest = manifest,
             wr_version = publishedVersion\<rparr>)))"

text \<open>From the manifest object to the manifest record: print, hash, store, read back.\<close>

definition storeManifest ::
  "(nat list \<Rightarrow> string) \<Rightarrow> ('w, 'i, 'r) workflow_dependencies \<Rightarrow> run_input
     \<Rightarrow> 'a publication_version_scheme \<Rightarrow> string \<Rightarrow> string \<Rightarrow> json \<Rightarrow> 'w env
     \<Rightarrow> ('w env, workflow_error, manifest_record) outcome" where
  "storeManifest sha deps input version manifestType objectKey manifestPayload en =
     (let manifestBody = json_stringify manifestPayload in
      case json_parse manifestBody of
        None \<Rightarrow> throw en InvalidManifestJson
      | Some payloadRecord \<Rightarrow>
          (let (byteLength, checksum) = hashBody sha (TextBody manifestBody) in
           and_then
             (callActivity (wf_publishObject deps) ObjectStoreFailed
                \<lparr>po_body = Plain (TextBody manifestBody), po_byteLength = byteLength,
                 po_checksum = checksum, po_contentType = ''application/json'',
                 po_objectKey = objectKey\<rparr> en)
             (\<lambda>en publication.
                let (publishedAt, en) = readClock deps en in
                ok en
                  \<lparr>pm_assetVersionId = pv_versionId version, pm_checksumValue = oc_value checksum,
                   pm_deliveryScopeId = ri_deliveryScopeId input,
                   pm_manifestPayload = payloadRecord, pm_manifestType = manifestType,
                   pm_objectKey = pr_key publication, pm_publishedAt = publishedAt,
                   pm_schemaVersion = ''v1''\<rparr>)))"

definition derivativeKeyOf :: "'a publication_version_scheme \<Rightarrow> string \<Rightarrow> string \<Rightarrow> string" where
  "derivativeKeyOf version recipeId variantKey =
     buildDeterministicDerivativeKey
       \<lparr>dk_assetId = pv_assetId version, dk_recipeId = recipeId,
        dk_serviceNamespaceId = pv_serviceNamespaceId version, dk_variantKey = variantKey,
        dk_versionId = pv_versionId version\<rparr>"

definition manifestKeyOf :: "'a publication_version_scheme \<Rightarrow> string \<Rightarrow> string" where
  "manifestKeyOf version manifestType =
     buildManifestObjectKey
       \<lparr>mk_assetId = pv_assetId version, mk_manifestType = manifestType,
        mk_serviceNamespaceId = pv_serviceNamespaceId version,
        mk_versionId = pv_versionId version\<rparr>"

definition imageManifestKeyOf :: "'a publication_version_scheme \<Rightarrow> string \<Rightarrow> string" where
  "imageManifestKeyOf version manifestType =
     buildImageManifestObjectKey
       \<lparr>mk_assetId = pv_assetId version, mk_manifestType = manifestType,
        mk_serviceNamespaceId = pv_serviceNamespaceId version,
        mk_versionId = pv_versionId version\<rparr>"

definition manifestEntry :: "'a derivative_record_scheme \<Rightarrow> manifest_derivative" where
  "manifestEntry d =
     \<lparr>md_byteLength = pd_byteLength d, md_checksum = pd_checksumValue d,
      md_contentType = pd_contentType d, md_deterministicKey = pd_deterministicKey d,
      md_recipeId = pd_recipeId d, md_schemaVersion = pd_schemaVersion d,
      md_variantKey = pd_variantKey d\<rparr>"

section \<open>The generic workflow\<close>

record generic_activity_input =
  ga_assetId :: string
  ga_canonicalSourceEvidence :: source_evidence
  ga_recipeBinding :: recipe_binding
  ga_sourceContentType :: string
  ga_sourceFilename :: string
  ga_versionId :: string

record generic_activity_result =
  gr_body :: object_body
  gr_byteLength :: int
  gr_checksum :: "object_checksum option"
  gr_contentType :: string
  gr_metadata :: "json_record option"

definition resolveChecksum ::
  "(nat list \<Rightarrow> string) \<Rightarrow> generic_activity_result \<Rightarrow> generic_version
     \<Rightarrow> workflow_error + (int \<times> object_checksum)" where
  "resolveChecksum sha r version =
     (case gr_checksum r of
        Some c \<Rightarrow> Inr (gr_byteLength r, c)
      | None \<Rightarrow>
          (case List.find (\<lambda>d. oc_algorithm d = sha256)
                  (ev_canonicalDigestSet (pv_canonicalSourceEvidence version)) of
             Some c \<Rightarrow> Inr (gr_byteLength r, c)
           | None \<Rightarrow>
               (case gr_body r of
                  Plain body \<Rightarrow> Inr (hashBody sha body)
                | StreamBody _ \<Rightarrow> Inl (MissingStableChecksum (pv_versionId version)))))"

definition preserveOriginalBinding :: "recipe_binding list option \<Rightarrow> recipe_binding option" where
  "preserveOriginalBinding bindings =
     or_else (findRecipe ''preserve-original'' (nullish bindings defaultGenericRecipeBindings))
       (getGenericRecipeBinding ''preserve-original'')"

definition genericBody ::
  "(nat list \<Rightarrow> string)
     \<Rightarrow> ('w, generic_activity_input, generic_activity_result) workflow_dependencies \<Rightarrow> run_input
     \<Rightarrow> generic_version \<Rightarrow> 'w env
     \<Rightarrow> ('w env, workflow_error, metadata_derivative list \<times> manifest_record) outcome" where
  "genericBody sha deps input version en =
     (case preserveOriginalBinding (wf_recipeBindings deps) of
        None \<Rightarrow> throw en (RecipeNotRegistered ''preserve-original'')
      | Some binding \<Rightarrow>
          and_then
            (callActivity (wf_process deps) ActivityFailed
               \<lparr>ga_assetId = pv_assetId version,
                ga_canonicalSourceEvidence = pv_canonicalSourceEvidence version,
                ga_recipeBinding = binding, ga_sourceContentType = pv_detectedContentType version,
                ga_sourceFilename = pv_sourceFilename version,
                ga_versionId = pv_versionId version\<rparr> en)
            (\<lambda>en processed.
               case resolveChecksum sha processed version of
                 Inl e \<Rightarrow> throw en e
               | Inr (byteLength, checksum) \<Rightarrow>
                   (let key = derivativeKeyOf version (rb_recipeId binding) (rb_variantKey binding) in
                    and_then
                      (callActivity (wf_publishObject deps) ObjectStoreFailed
                         \<lparr>po_body = gr_body processed, po_byteLength = byteLength,
                          po_checksum = checksum, po_contentType = gr_contentType processed,
                          po_objectKey = key\<rparr> en)
                      (\<lambda>en publication.
                         let (publishedAt, en) = readClock deps en;
                             derivative =
                               \<lparr>pd_assetVersionId = pv_versionId version,
                                pd_byteLength = byteLength, pd_checksumValue = oc_value checksum,
                                pd_contentType = gr_contentType processed,
                                pd_deliveryScopeId = ri_deliveryScopeId input,
                                pd_deterministicKey = key, pd_publishedAt = publishedAt,
                                pd_recipeId = rb_recipeId binding,
                                pd_schemaVersion = rb_schemaVersion binding,
                                pd_storageBucket = pr_bucket publication,
                                pd_storageKey = pr_key publication,
                                pd_variantKey = rb_variantKey binding,
                                pd_metadata = gr_metadata processed\<rparr>;
                             (generatedAt, en) = readClock deps en;
                             payload = buildGenericAssetManifest
                               \<lparr>gm_assetId = pv_assetId version, gm_generatedAt = generatedAt,
                                gm_manifestType = rb_manifestType binding,
                                gm_preservedOriginal = manifestEntry derivative,
                                gm_schemaVersion = ''v1'',
                                gm_serviceNamespaceId = pv_serviceNamespaceId version,
                                gm_versionId = pv_versionId version\<rparr> in
                         and_then
                           (storeManifest sha deps input version (rb_manifestType binding)
                              (manifestKeyOf version (rb_manifestType binding)) payload en)
                           (\<lambda>en manifest. ok en ([derivative], manifest))))))"

definition runGenericAssetPublicationWorkflow ::
  "(begin_input \<Rightarrow> 's \<Rightarrow> ('s, publication_error, generic_version) outcome)
     \<Rightarrow> (metadata_derivative publish_input \<Rightarrow> 's \<Rightarrow> ('s, publication_error, generic_version) outcome)
     \<Rightarrow> (nat list \<Rightarrow> string)
     \<Rightarrow> ('w, generic_activity_input, generic_activity_result) workflow_dependencies \<Rightarrow> run_input
     \<Rightarrow> 's \<times> 'w env
     \<Rightarrow> ('s \<times> 'w env, workflow_error, (generic_version, metadata_derivative) workflow_result) outcome" where
  "runGenericAssetPublicationWorkflow start publish sha deps input =
     publicationWorkflow start publish deps (genericBody sha deps input) input"

section \<open>The image workflow\<close>

record image_activity_input =
  ia_canonicalSourceId :: string
  ia_recipeBinding :: recipe_binding
  ia_sourceContentType :: string
  ia_sourceFilename :: string

record image_activity_result =
  ir_body :: plain_body
  ir_byteLength :: int
  ir_checksum :: "object_checksum option"
  ir_contentType :: string
  ir_metadata :: "json_record option"

definition integrityOf ::
  "(nat list \<Rightarrow> string) \<Rightarrow> object_checksum option \<Rightarrow> int \<Rightarrow> plain_body \<Rightarrow> int \<times> object_checksum" where
  "integrityOf sha checksum byteLength body =
     (case checksum of Some c \<Rightarrow> (byteLength, c) | None \<Rightarrow> hashBody sha body)"

fun imageDerivatives ::
  "(nat list \<Rightarrow> string)
     \<Rightarrow> ('w, image_activity_input, image_activity_result) workflow_dependencies \<Rightarrow> run_input
     \<Rightarrow> image_version \<Rightarrow> recipe_binding list \<Rightarrow> 'w env
     \<Rightarrow> ('w env, workflow_error, metadata_derivative list) outcome" where
  "imageDerivatives sha deps input version [] en = ok en []"
| "imageDerivatives sha deps input version (binding # bindings) en =
     and_then
       (callActivity (wf_process deps) ActivityFailed
          \<lparr>ia_canonicalSourceId = pv_canonicalSourceId version, ia_recipeBinding = binding,
           ia_sourceContentType = pv_detectedContentType version,
           ia_sourceFilename = pv_sourceFilename version\<rparr> en)
       (\<lambda>en processed.
          let (byteLength, checksum) =
                integrityOf sha (ir_checksum processed) (ir_byteLength processed) (ir_body processed);
              key = derivativeKeyOf version (rb_recipeId binding) (rb_variantKey binding) in
          and_then
            (callActivity (wf_publishObject deps) ObjectStoreFailed
               \<lparr>po_body = Plain (ir_body processed), po_byteLength = byteLength,
                po_checksum = checksum, po_contentType = ir_contentType processed,
                po_objectKey = key\<rparr> en)
            (\<lambda>en publication.
               let (publishedAt, en) = readClock deps en;
                   derivative =
                     \<lparr>pd_assetVersionId = pv_versionId version, pd_byteLength = byteLength,
                      pd_checksumValue = oc_value checksum,
                      pd_contentType = ir_contentType processed,
                      pd_deliveryScopeId = ri_deliveryScopeId input, pd_deterministicKey = key,
                      pd_publishedAt = publishedAt, pd_recipeId = rb_recipeId binding,
                      pd_schemaVersion = rb_schemaVersion binding,
                      pd_storageBucket = pr_bucket publication,
                      pd_storageKey = pr_key publication,
                      pd_variantKey = rb_variantKey binding,
                      pd_metadata = ir_metadata processed\<rparr> in
               and_then (imageDerivatives sha deps input version bindings en)
                 (\<lambda>en rest. ok en (derivative # rest))))"

definition imageBody ::
  "(string \<Rightarrow> string \<Rightarrow> int) \<Rightarrow> (nat list \<Rightarrow> string)
     \<Rightarrow> ('w, image_activity_input, image_activity_result) workflow_dependencies \<Rightarrow> run_input
     \<Rightarrow> image_version \<Rightarrow> 'w env
     \<Rightarrow> ('w env, workflow_error, metadata_derivative list \<times> manifest_record) outcome" where
  "imageBody lc sha deps input version en =
     and_then
       (imageDerivatives sha deps input version
          (nullish (wf_recipeBindings deps) defaultImageRecipeBindings) en)
       (\<lambda>en derivatives.
          let (generatedAt, en) = readClock deps en;
              payload = buildImageAssetManifest lc
                \<lparr>im_assetId = pv_assetId version, im_derivatives = map manifestEntry derivatives,
                 im_generatedAt = generatedAt, im_manifestType = ''image-default'',
                 im_schemaVersion = ''v1'', im_serviceNamespaceId = pv_serviceNamespaceId version,
                 im_versionId = pv_versionId version\<rparr> in
          and_then
            (storeManifest sha deps input version ''image-default''
               (imageManifestKeyOf version ''image-default'') payload en)
            (\<lambda>en manifest. ok en (derivatives, manifest)))"

definition runImagePublicationWorkflow ::
  "(begin_input \<Rightarrow> 's \<Rightarrow> ('s, publication_error, image_version) outcome)
     \<Rightarrow> (metadata_derivative publish_input \<Rightarrow> 's \<Rightarrow> ('s, publication_error, image_version) outcome)
     \<Rightarrow> (string \<Rightarrow> string \<Rightarrow> int) \<Rightarrow> (nat list \<Rightarrow> string)
     \<Rightarrow> ('w, image_activity_input, image_activity_result) workflow_dependencies \<Rightarrow> run_input
     \<Rightarrow> 's \<times> 'w env
     \<Rightarrow> ('s \<times> 'w env, workflow_error, (image_version, metadata_derivative) workflow_result) outcome" where
  "runImagePublicationWorkflow start publish lc sha deps input =
     publicationWorkflow start publish deps (imageBody lc sha deps input) input"

section \<open>The presentation workflow\<close>

record presentation_output =
  qo_body :: plain_body
  qo_byteLength :: int
  qo_checksum :: "object_checksum option"
  qo_contentType :: string

record slide_output = presentation_output +
  qo_pageNumber :: int

record presentation_activity_input =
  qa_canonicalSourceId :: string
  qa_normalizedDocumentRecipeBinding :: recipe_binding
  qa_slideImageRecipeBinding :: recipe_binding
  qa_sourceContentType :: string
  qa_sourceFilename :: string

record presentation_activity_result =
  qr_normalizedDocument :: presentation_output
  qr_slides :: "slide_output list"

definition deriveSlideVariantKey :: "int \<Rightarrow> string" where
  "deriveSlideVariantKey pageNumber = ''slide-'' @ pad_zero 3 (int_text pageNumber)"

definition presentationDerivative ::
  "(nat list \<Rightarrow> string)
     \<Rightarrow> ('w, presentation_activity_input, presentation_activity_result) workflow_dependencies
     \<Rightarrow> run_input \<Rightarrow> presentation_version \<Rightarrow> recipe_binding \<Rightarrow> string \<Rightarrow> int option
     \<Rightarrow> 'a presentation_output_scheme \<Rightarrow> 'w env
     \<Rightarrow> ('w env, workflow_error, page_derivative) outcome" where
  "presentationDerivative sha deps input version binding variantKey page out en =
     (let (byteLength, checksum) =
            integrityOf sha (qo_checksum out) (qo_byteLength out) (qo_body out);
          key = derivativeKeyOf version (rb_recipeId binding) variantKey in
      and_then
        (callActivity (wf_publishObject deps) ObjectStoreFailed
           \<lparr>po_body = Plain (qo_body out), po_byteLength = byteLength, po_checksum = checksum,
            po_contentType = qo_contentType out, po_objectKey = key\<rparr> en)
        (\<lambda>en publication.
           let (publishedAt, en) = readClock deps en in
           ok en
             \<lparr>pd_assetVersionId = pv_versionId version, pd_byteLength = byteLength,
              pd_checksumValue = oc_value checksum, pd_contentType = qo_contentType out,
              pd_deliveryScopeId = ri_deliveryScopeId input, pd_deterministicKey = key,
              pd_publishedAt = publishedAt, pd_recipeId = rb_recipeId binding,
              pd_schemaVersion = rb_schemaVersion binding,
              pd_storageBucket = pr_bucket publication, pd_storageKey = pr_key publication,
              pd_variantKey = variantKey, pd_pageNumber = page\<rparr>))"

fun slideDerivatives ::
  "(nat list \<Rightarrow> string)
     \<Rightarrow> ('w, presentation_activity_input, presentation_activity_result) workflow_dependencies
     \<Rightarrow> run_input \<Rightarrow> presentation_version \<Rightarrow> recipe_binding \<Rightarrow> slide_output list \<Rightarrow> 'w env
     \<Rightarrow> ('w env, workflow_error, page_derivative list) outcome" where
  "slideDerivatives sha deps input version binding [] en = ok en []"
| "slideDerivatives sha deps input version binding (slide # slides) en =
     and_then
       (presentationDerivative sha deps input version binding
          (deriveSlideVariantKey (qo_pageNumber slide)) (Some (qo_pageNumber slide)) slide en)
       (\<lambda>en derivative.
          and_then (slideDerivatives sha deps input version binding slides en)
            (\<lambda>en rest. ok en (derivative # rest)))"

definition slidePageOrder :: "slide_output \<Rightarrow> slide_output \<Rightarrow> int" where
  "slidePageOrder l r = qo_pageNumber l - qo_pageNumber r"

interpretation slide_pages: comparator slidePageOrder
  by unfold_locales (auto simp: slidePageOrder_def)

definition manifestSlide :: "page_derivative \<Rightarrow> manifest_slide" where
  "manifestSlide d =
     \<lparr>md_byteLength = pd_byteLength d, md_checksum = pd_checksumValue d,
      md_contentType = pd_contentType d, md_deterministicKey = pd_deterministicKey d,
      md_recipeId = pd_recipeId d, md_schemaVersion = pd_schemaVersion d,
      md_variantKey = pd_variantKey d, md_pageNumber = nullish (pd_pageNumber d) 0\<rparr>"

definition presentationBindingOf ::
  "string \<Rightarrow> recipe_binding list option \<Rightarrow> recipe_binding option" where
  "presentationBindingOf recipeId bindings =
     or_else (findRecipe recipeId (nullish bindings defaultPresentationRecipeBindings))
       (getPresentationRecipeBinding recipeId)"

definition presentationBody ::
  "(string \<Rightarrow> string \<Rightarrow> int) \<Rightarrow> (nat list \<Rightarrow> string)
     \<Rightarrow> ('w, presentation_activity_input, presentation_activity_result) workflow_dependencies
     \<Rightarrow> run_input \<Rightarrow> presentation_version \<Rightarrow> 'w env
     \<Rightarrow> ('w env, workflow_error, page_derivative list \<times> manifest_record) outcome" where
  "presentationBody lc sha deps input version en =
     (case (presentationBindingOf ''normalized-pdf'' (wf_recipeBindings deps),
            presentationBindingOf ''slide-images'' (wf_recipeBindings deps)) of
        (None, _) \<Rightarrow> throw en (RecipeNotRegistered ''normalized-pdf'')
      | (_, None) \<Rightarrow> throw en (RecipeNotRegistered ''slide-images'')
      | (Some documentBinding, Some slideBinding) \<Rightarrow>
          and_then
            (callActivity (wf_process deps) ActivityFailed
               \<lparr>qa_canonicalSourceId = pv_canonicalSourceId version,
                qa_normalizedDocumentRecipeBinding = documentBinding,
                qa_slideImageRecipeBinding = slideBinding,
                qa_sourceContentType = pv_detectedContentType version,
                qa_sourceFilename = pv_sourceFilename version\<rparr> en)
            (\<lambda>en processed.
          and_then
            (presentationDerivative sha deps input version documentBinding ''normalized-pdf'' None
               (qr_normalizedDocument processed) en)
            (\<lambda>en normalized.
          and_then
            (slideDerivatives sha deps input version slideBinding
               (js_sort slidePageOrder (qr_slides processed)) en)
            (\<lambda>en slides.
               let derivatives = normalized # slides;
                   (generatedAt, en) = readClock deps en;
                   payload = buildPresentationAssetManifest lc
                     \<lparr>qm_assetId = pv_assetId version, qm_generatedAt = generatedAt,
                      qm_manifestType = ''presentation-default'',
                      qm_normalizedDocument = manifestEntry normalized, qm_schemaVersion = ''v1'',
                      qm_serviceNamespaceId = pv_serviceNamespaceId version,
                      qm_slides =
                        map manifestSlide
                          (filter (\<lambda>d. pd_recipeId d = ''slide-images'') derivatives),
                      qm_versionId = pv_versionId version\<rparr> in
               and_then
                 (storeManifest sha deps input version ''presentation-default''
                    (manifestKeyOf version ''presentation-default'') payload en)
                 (\<lambda>en manifest. ok en (derivatives, manifest))))))"

definition runPresentationPublicationWorkflow ::
  "(begin_input \<Rightarrow> 's \<Rightarrow> ('s, publication_error, presentation_version) outcome)
     \<Rightarrow> (page_derivative publish_input \<Rightarrow> 's \<Rightarrow> ('s, publication_error, presentation_version) outcome)
     \<Rightarrow> (string \<Rightarrow> string \<Rightarrow> int) \<Rightarrow> (nat list \<Rightarrow> string)
     \<Rightarrow> ('w, presentation_activity_input, presentation_activity_result) workflow_dependencies
     \<Rightarrow> run_input \<Rightarrow> 's \<times> 'w env
     \<Rightarrow> ('s \<times> 'w env, workflow_error,
         (presentation_version, page_derivative) workflow_result) outcome" where
  "runPresentationPublicationWorkflow start publish lc sha deps input =
     publicationWorkflow start publish deps (presentationBody lc sha deps input) input"

section \<open>What the frame guarantees over any store that keeps the contract\<close>

context publication_contract
begin

lemma workflow_success:
  assumes ok: "store_ok s"
    and run: "publicationWorkflow start publish deps body input (s, en) = ((s', en'), Inr r)"
  shows "store_ok s'" "state_of s' = (state_of s)(ri_versionId input \<mapsto> pub_published)"
    "derivative_at s' = put_all key_of (wr_derivatives r) (derivative_at s)"
    "manifest_at s' (ri_versionId input) (pm_manifestType (wr_manifest r))
       (ri_deliveryScopeId input) = Some (wr_manifest r)"
    "\<exists>v en1 en2. version_id v = ri_versionId input \<and>
       body v en1 = (en2, Inr (wr_derivatives r, wr_manifest r))"
proof -
  obtain t en1 where c1: "readClock deps en = (t, en1)" by (cases "readClock deps en")
  let ?i = "\<lparr>bi_startedAt = t, bi_versionId = ri_versionId input, bi_workflowId = ri_workflowId input\<rparr>"
  obtain s1 v where st: "start ?i s = (s1, Inr v)"
    using run c1 by (auto simp: publicationWorkflow_def split: prod.splits sum.splits)
  obtain en2 ds m where b: "body v en1 = (en2, Inr (ds, m))"
    using run c1 st by (auto simp: publicationWorkflow_def split: prod.splits sum.splits)
  obtain t2 en3 where c2: "readClock deps en2 = (t2, en3)" by (cases "readClock deps en2")
  let ?j = "\<lparr>pi_deliveryScopeId = ri_deliveryScopeId input, pi_derivatives = ds, pi_manifest = m,
    pi_publishedAt = t2, pi_versionId = ri_versionId input, pi_workflowId = ri_workflowId input\<rparr>"
  obtain u where p: "publish ?j s1 = (s', Inr u)"
    and r: "wr_derivatives r = ds" "wr_manifest r = m"
    using run c1 st b c2 by (auto simp: publicationWorkflow_def split: prod.splits sum.splits)
  have s1: "store_ok s1" "state_of s1 = (state_of s)(ri_versionId input \<mapsto> pub_processing)"
    "derivative_at s1 = derivative_at s" "version_id v = ri_versionId input"
    using start_result [OF ok st] by simp_all
  note res = publish_result [OF s1(1) p]
  show "store_ok s'" "state_of s' = (state_of s)(ri_versionId input \<mapsto> pub_published)"
    "derivative_at s' = put_all key_of (wr_derivatives r) (derivative_at s)"
    "manifest_at s' (ri_versionId input) (pm_manifestType (wr_manifest r))
       (ri_deliveryScopeId input) = Some (wr_manifest r)"
    using res s1 r by simp_all
  show "\<exists>v en1 en2. version_id v = ri_versionId input \<and>
       body v en1 = (en2, Inr (wr_derivatives r, wr_manifest r))"
    using s1(4) b r by blast
qed

text \<open>A run that fails publishes nothing: it was refused at the start, or it left \<open>processing\<close>.\<close>

lemma workflow_failure:
  assumes ok: "store_ok s"
    and run: "publicationWorkflow start publish deps body input (s, en) = ((s', en'), Inl e)"
  shows "store_ok s'" "derivative_at s' = derivative_at s" "manifest_at s' = manifest_at s"
    "s' = s \<and> (\<exists>c. e = PublicationFailed c) \<or>
     state_of s' = (state_of s)(ri_versionId input \<mapsto> pub_processing)"
proof -
  obtain t en1 where c1: "readClock deps en = (t, en1)" by (cases "readClock deps en")
  let ?i = "\<lparr>bi_startedAt = t, bi_versionId = ri_versionId input, bi_workflowId = ri_workflowId input\<rparr>"
  obtain s1 sr where st: "start ?i s = (s1, sr)" by (cases "start ?i s")
  have "store_ok s' \<and> derivative_at s' = derivative_at s \<and> manifest_at s' = manifest_at s \<and>
    (s' = s \<and> (\<exists>c. e = PublicationFailed c) \<or>
     state_of s' = (state_of s)(ri_versionId input \<mapsto> pub_processing))"
  proof (cases sr)
    case (Inl c)
    then have "s1 = s" using start_refused st by blast
    then show ?thesis using run c1 st Inl ok by (auto simp: publicationWorkflow_def)
  next
    case (Inr v)
    have s1: "store_ok s1" "state_of s1 = (state_of s)(ri_versionId input \<mapsto> pub_processing)"
      "derivative_at s1 = derivative_at s" "manifest_at s1 = manifest_at s"
      using start_result [OF ok, of ?i s1 v] st Inr by simp_all
    have "s' = s1"
    proof (cases "body v en1")
      case (Pair en2 br)
      show ?thesis
      proof (cases br)
        case (Inl c)
        then show ?thesis using run c1 st Inr Pair by (simp add: publicationWorkflow_def)
      next
        case (Inr dm)
        obtain ds m where dm: "dm = (ds, m)" by (cases dm)
        obtain t2 en3 where c2: "readClock deps en2 = (t2, en3)" by (cases "readClock deps en2")
        let ?j = "\<lparr>pi_deliveryScopeId = ri_deliveryScopeId input, pi_derivatives = ds,
          pi_manifest = m, pi_publishedAt = t2, pi_versionId = ri_versionId input,
          pi_workflowId = ri_workflowId input\<rparr>"
        have "is_ok (snd (publish ?j s1))" using publish_accepts [of ?j s1] s1(2) by simp
        then obtain s2 u where "publish ?j s1 = (s2, Inr u)"
          by (cases "publish ?j s1"; cases "snd (publish ?j s1)") auto
        then show ?thesis using run c1 st \<open>sr = Inr v\<close> Pair Inr dm c2
          by (simp add: publicationWorkflow_def)
      qed
    qed
    then show ?thesis using s1 by simp
  qed
  then show "store_ok s'" "derivative_at s' = derivative_at s" "manifest_at s' = manifest_at s"
    "s' = s \<and> (\<exists>c. e = PublicationFailed c) \<or>
     state_of s' = (state_of s)(ri_versionId input \<mapsto> pub_processing)" by blast+
qed

text \<open>While a version is \<open>processing\<close>, every run of it is refused at the start.\<close>

lemma workflow_refused:
  assumes "state_of s (ri_versionId input) = Some pub_processing"
  shows "\<exists>en' c. publicationWorkflow start publish deps body input (s, en) =
    ((s, en'), Inl (PublicationFailed c))"
proof -
  obtain t en1 where c1: "readClock deps en = (t, en1)" by (cases "readClock deps en")
  let ?i = "\<lparr>bi_startedAt = t, bi_versionId = ri_versionId input, bi_workflowId = ri_workflowId input\<rparr>"
  have "\<not> is_ok (snd (start ?i s))" using start_accepts [of ?i s] assms by simp
  then obtain s1 c where st: "start ?i s = (s1, Inl c)"
    by (cases "start ?i s"; cases "snd (start ?i s)") auto
  then have "s1 = s" by (rule start_refused)
  then show ?thesis using c1 st by (simp add: publicationWorkflow_def)
qed

end

section \<open>The bodies\<close>

lemma callActivity_ok:
  "callActivity f failed i en = (en', Inr r) \<longleftrightarrow>
    (\<exists>w. f i (en_world en) = (w, Inr r) \<and> en' = en\<lparr>en_world := w\<rparr>)"
  by (auto simp: callActivity_def split: prod.splits sum.splits)

lemma storeManifest_result:
  assumes "storeManifest sha deps input version manifestType key payload en = (en', Inr m)"
    and "json_ok payload"
  shows "pm_manifestPayload m = payload" "pm_manifestType m = manifestType"
    "pm_assetVersionId m = pv_versionId version" "pm_deliveryScopeId m = ri_deliveryScopeId input"
    "pm_checksumValue m = sha (utf8 (json_stringify payload))"
  using assms(1)
  by (auto simp: storeManifest_def json_roundtrip [OF assms(2)] hashBody_def and_then_ok_iff
      Let_def case_prod_beta)

lemma imageDerivatives_result:
  "imageDerivatives sha deps input version bindings en = (en', Inr ds) \<Longrightarrow>
    map pd_recipeId ds = map rb_recipeId bindings \<and>
    map pd_deterministicKey ds =
      map (\<lambda>b. derivativeKeyOf version (rb_recipeId b) (rb_variantKey b)) bindings \<and>
    (\<forall>d\<in>set ds. pd_assetVersionId d = pv_versionId version \<and>
       pd_deliveryScopeId d = ri_deliveryScopeId input)"
proof (induction bindings arbitrary: en en' ds)
  case (Cons b bs)
  from Cons(2) show ?case
    by (auto simp: and_then_ok_iff Let_def case_prod_beta dest!: Cons(1))
qed simp

lemma imageBody_result:
  assumes "imageBody lc sha deps input version en = (en', Inr (ds, m))"
  shows "map pd_recipeId ds =
      map rb_recipeId (nullish (wf_recipeBindings deps) defaultImageRecipeBindings)"
    "map pd_deterministicKey ds =
      map (\<lambda>b. derivativeKeyOf version (rb_recipeId b) (rb_variantKey b))
        (nullish (wf_recipeBindings deps) defaultImageRecipeBindings)"
    "\<forall>d\<in>set ds. pd_assetVersionId d = pv_versionId version \<and>
       pd_deliveryScopeId d = ri_deliveryScopeId input"
    "pm_manifestType m = ''image-default''" "pm_assetVersionId m = pv_versionId version"
    "pm_checksumValue m = sha (utf8 (json_stringify (pm_manifestPayload m)))"
    "\<exists>t. pm_manifestPayload m = buildImageAssetManifest lc
       \<lparr>im_assetId = pv_assetId version, im_derivatives = map manifestEntry ds,
        im_generatedAt = t, im_manifestType = ''image-default'', im_schemaVersion = ''v1'',
        im_serviceNamespaceId = pv_serviceNamespaceId version,
        im_versionId = pv_versionId version\<rparr>"
proof -
  obtain en1 where d: "imageDerivatives sha deps input version
      (nullish (wf_recipeBindings deps) defaultImageRecipeBindings) en = (en1, Inr ds)"
    and m: "storeManifest sha deps input version ''image-default''
      (imageManifestKeyOf version ''image-default'')
      (buildImageAssetManifest lc
         \<lparr>im_assetId = pv_assetId version, im_derivatives = map manifestEntry ds,
          im_generatedAt = fst (readClock deps en1), im_manifestType = ''image-default'',
          im_schemaVersion = ''v1'', im_serviceNamespaceId = pv_serviceNamespaceId version,
          im_versionId = pv_versionId version\<rparr>) (snd (readClock deps en1)) = (en', Inr m)"
    using assms by (auto simp: imageBody_def and_then_ok_iff Let_def case_prod_beta)
  show "map pd_recipeId ds =
      map rb_recipeId (nullish (wf_recipeBindings deps) defaultImageRecipeBindings)"
    "map pd_deterministicKey ds =
      map (\<lambda>b. derivativeKeyOf version (rb_recipeId b) (rb_variantKey b))
        (nullish (wf_recipeBindings deps) defaultImageRecipeBindings)"
    "\<forall>d\<in>set ds. pd_assetVersionId d = pv_versionId version \<and>
       pd_deliveryScopeId d = ri_deliveryScopeId input"
    using imageDerivatives_result [OF d] by blast+
  note sm = storeManifest_result [OF m manifests_ok(2)]
  show "pm_manifestType m = ''image-default''" "pm_assetVersionId m = pv_versionId version"
    "pm_checksumValue m = sha (utf8 (json_stringify (pm_manifestPayload m)))"
    using sm by simp_all
  show "\<exists>t. pm_manifestPayload m = buildImageAssetManifest lc
       \<lparr>im_assetId = pv_assetId version, im_derivatives = map manifestEntry ds,
        im_generatedAt = t, im_manifestType = ''image-default'', im_schemaVersion = ''v1'',
        im_serviceNamespaceId = pv_serviceNamespaceId version,
        im_versionId = pv_versionId version\<rparr>"
    using sm(1) by blast
qed

lemma default_image_keys_distinct:
  "distinct (map (\<lambda>b. derivativeKeyOf version (rb_recipeId b) (rb_variantKey b))
     defaultImageRecipeBindings)"
  by (simp add: defaultImageRecipeBindings_def imageBinding_def derivativeKeyOf_def
      buildDeterministicDerivativeKey_def)

text \<open>Slides: page numbers decide the variant keys.\<close>

lemma parse_digits_zeros:
  "parse_digits 0 (replicate k (CHR ''0'') @ s) = parse_digits 0 s"
  by (induction k) (simp_all add: digit_value_def)

lemma padded_value: "parse_digits 0 (pad_zero w (nat_digits n)) = (n, [])"
proof -
  have e: "ends_number []" by (simp add: ends_number_def)
  show ?thesis
    using parse_digits_zeros [of "w - length (nat_digits n)" "nat_digits n"]
      parse_digits_append [OF e, of 0 n]
    by (simp add: pad_zero_def)
qed

lemma slide_variant_inj:
  assumes "0 \<le> p" "0 \<le> q" "deriveSlideVariantKey p = deriveSlideVariantKey q"
  shows "p = q"
proof -
  have "pad_zero 3 (nat_digits (nat p)) = pad_zero 3 (nat_digits (nat q))"
    using assms by (simp add: deriveSlideVariantKey_def int_text_def)
  then have "nat p = nat q" using padded_value by (metis prod.inject)
  then show ?thesis using assms by simp
qed

lemma presentationDerivative_result:
  "presentationDerivative sha deps input version binding variant page out en = (en', Inr d) \<Longrightarrow>
    pd_deterministicKey d = derivativeKeyOf version (rb_recipeId binding) variant \<and>
    pd_pageNumber d = page \<and> pd_recipeId d = rb_recipeId binding \<and>
    pd_assetVersionId d = pv_versionId version \<and> pd_deliveryScopeId d = ri_deliveryScopeId input"
  by (auto simp: presentationDerivative_def and_then_ok_iff Let_def case_prod_beta)

lemma slideDerivatives_result:
  "slideDerivatives sha deps input version binding slides en = (en', Inr ds) \<Longrightarrow>
    map pd_pageNumber ds = map (Some \<circ> qo_pageNumber) slides \<and>
    map pd_deterministicKey ds =
      map (\<lambda>o'. derivativeKeyOf version (rb_recipeId binding)
             (deriveSlideVariantKey (qo_pageNumber o'))) slides \<and>
    (\<forall>d\<in>set ds. pd_recipeId d = rb_recipeId binding)"
proof (induction slides arbitrary: en en' ds)
  case (Cons x xs)
  from Cons(2) show ?case
    by (auto simp: and_then_ok_iff dest!: Cons(1) presentationDerivative_result)
qed simp

section \<open>Examples\<close>

lemma ok_outcome:
  "is_ok (snd x) \<Longrightarrow>
    x = ((fst (fst x), snd (fst x)), Inr (the (case snd x of Inl _ \<Rightarrow> None | Inr r \<Rightarrow> Some r)))"
  by (cases x; cases "snd x") auto

lemma failed_outcome: "snd x = Inl e \<Longrightarrow> x = ((fst (fst x), snd (fst x)), Inl e)"
  by (cases x) auto

text \<open>A processor that answers with a fixed text, an object store that echoes the key, a counter.\<close>

definition exampleDeps ::
  "bool \<Rightarrow> (nat, image_activity_input, image_activity_result) workflow_dependencies" where
  "exampleDeps up =
     \<lparr>wf_publishObject = (\<lambda>o' n. (Suc n, Inr \<lparr>pr_bucket = ''b'', pr_key = po_objectKey o'\<rparr>)),
      wf_process = (\<lambda>i n.
         if up then
           (n, Inr \<lparr>ir_body = TextBody ''x'', ir_byteLength = 1, ir_checksum = None,
                    ir_contentType = ''image/webp'', ir_metadata = None\<rparr>)
         else (n, Inl ''processor down'')),
      wf_now = (\<lambda>n. int n), wf_recipeBindings = None\<rparr>"

definition exampleSha :: "nat list \<Rightarrow> string" where
  "exampleSha bytes = ''digest''"

definition exampleRun :: "string \<Rightarrow> run_input" where
  "exampleRun scope =
     \<lparr>ri_deliveryScopeId = scope, ri_versionId = ''ver'', ri_workflowId = ''w''\<rparr>"

definition exampleImageStore :: image_store where
  "exampleImageStore = newImageStore [(exampleVersion, None)]"

definition exampleEnv :: "nat env" where
  "exampleEnv = \<lparr>en_world = 0, en_clockReadings = 0\<rparr>"

lemma example_run_ok:
  "is_ok (snd (runImagePublicationWorkflow beginImagePublication publishImageVersion codeUnitCompare
     exampleSha (exampleDeps True) (exampleRun ''scope'') (exampleImageStore, exampleEnv)))"
proof -
  have st: "beginImagePublication i exampleImageStore =
      (setLifecycle ''ver'' pub_processing exampleImageStore,
       Inr (exampleVersion\<lparr>pv_lifecycleState := pub_processing\<rparr>))"
    if "bi_versionId i = ''ver''" for i
    using that by (simp add: beginImagePublication_def beginPublication_def getMutableVersion_def
        exampleImageStore_def newImageStore_def newPublicationStore_def seedVersion_def
        exampleVersion_def)
  have pub: "is_ok (snd (publishImageVersion j (setLifecycle ''ver'' pub_processing exampleImageStore)))"
    if "pi_versionId j = ''ver''" for j
    using that by (simp add: publishImageVersion_def publishVersion_def getMutableVersion_def
        exampleImageStore_def newImageStore_def newPublicationStore_def seedVersion_def
        exampleVersion_def setLifecycle_def)
  have body: "is_ok (snd (imageBody lc exampleSha (exampleDeps True) (exampleRun ''scope'') v en))"
    for lc v en
    by (simp add: imageBody_def exampleDeps_def exampleSha_def defaultImageRecipeBindings_def
        imageBinding_def callActivity_def integrityOf_def hashBody_def storeManifest_def
        json_roundtrip readClock_def Let_def)
  show ?thesis
  proof -
    let ?en = "snd (readClock (exampleDeps True) exampleEnv)"
    let ?v = "exampleVersion\<lparr>pv_lifecycleState := pub_processing\<rparr>"
    obtain en2 ds m where b: "imageBody codeUnitCompare exampleSha (exampleDeps True)
        (exampleRun ''scope'') ?v ?en = (en2, Inr (ds, m))"
      using body [of codeUnitCompare ?v ?en]
      by (cases "imageBody codeUnitCompare exampleSha (exampleDeps True) (exampleRun ''scope'') ?v ?en";
          cases "snd (imageBody codeUnitCompare exampleSha (exampleDeps True)
            (exampleRun ''scope'') ?v ?en)") auto
    show ?thesis
      using b pub
      by (simp add: runImagePublicationWorkflow_def publicationWorkflow_def case_prod_beta st
          exampleRun_def is_ok_no_error split: sum.splits)
  qed
qed

lemma example_image_keyed: "versions_keyed exampleImageStore"
proof -
  have "ps_versions exampleImageStore = [(''ver'', exampleVersion)]"
    "ps_derivativesByKey exampleImageStore = []" by code_simp+
  then show ?thesis by (auto simp: versions_keyed_def exampleVersion_def split: if_splits)
qed

text \<open>A presentation processor that returns its two slides in reverse order.\<close>

definition exampleOutput :: presentation_output where
  "exampleOutput =
     \<lparr>qo_body = TextBody ''x'', qo_byteLength = 1, qo_checksum = None,
      qo_contentType = ''image/webp''\<rparr>"

definition exampleSlide :: "int \<Rightarrow> slide_output" where
  "exampleSlide n = presentation_output.extend exampleOutput \<lparr>qo_pageNumber = n\<rparr>"

definition exampleSlideDeps ::
  "(nat, presentation_activity_input, presentation_activity_result) workflow_dependencies" where
  "exampleSlideDeps =
     \<lparr>wf_publishObject = (\<lambda>o' n. (Suc n, Inr \<lparr>pr_bucket = ''b'', pr_key = po_objectKey o'\<rparr>)),
      wf_process = (\<lambda>i n.
         (n, Inr \<lparr>qr_normalizedDocument = exampleOutput,
                  qr_slides = [exampleSlide 2, exampleSlide 1]\<rparr>)),
      wf_now = (\<lambda>n. int n), wf_recipeBindings = None\<rparr>"

lemma example_slides_ok:
  "is_ok (snd (presentationBody lc exampleSha exampleSlideDeps (exampleRun ''scope'') v en))"
  by (simp add: presentationBody_def presentationBindingOf_def findRecipe_def exampleSlideDeps_def
      defaultPresentationRecipeBindings_def presentationBinding_def callActivity_def
      presentationDerivative_def integrityOf_def hashBody_def storeManifest_def json_roundtrip
      readClock_def Let_def exampleSlide_def exampleOutput_def presentation_output.defs
      slidePageOrder_def)

section \<open>Properties\<close>



text \<open>C12. A failed workflow run publishes nothing: no derivative and no manifest of the registry
  changes. Unless the run was refused at its start, it leaves the version \<open>processing\<close>; and then
  every later run of that version, with any processor and object store, is refused and changes
  nothing, because the in-memory store does not let publication begin again from \<open>processing\<close>.\<close>

theorem failed_workflow_blocks_version:
  assumes "versions_keyed s"
    and "runImagePublicationWorkflow beginImagePublication publishImageVersion lc sha deps input (s, en) =
           ((s', en'), Inl e)"
  shows "derivative_at s' = derivative_at s \<and> manifest_at s' = manifest_at s \<and>
    ((\<exists>c. e = PublicationFailed c) \<and> s' = s \<or>
     version_state_of s' = (version_state_of s)(ri_versionId input \<mapsto> pub_processing) \<and>
     (\<forall>deps' input' en2. ri_versionId input' = ri_versionId input \<longrightarrow>
        (\<exists>en3 c. runImagePublicationWorkflow beginImagePublication publishImageVersion lc sha deps'
           input' (s', en2) = ((s', en3), Inl (PublicationFailed c)))))"
proof -
  note run = assms(2) [unfolded runImagePublicationWorkflow_def]
  note fail = image_pub.workflow_failure [OF assms(1) run]
  have again: "\<exists>en3 c. runImagePublicationWorkflow beginImagePublication publishImageVersion lc sha
      deps' input' (s', en2) = ((s', en3), Inl (PublicationFailed c))"
    if "version_state_of s' = (version_state_of s)(ri_versionId input \<mapsto> pub_processing)"
      "ri_versionId input' = ri_versionId input" for deps' input' en2
    unfolding runImagePublicationWorkflow_def
    by (rule image_pub.workflow_refused) (simp add: that)
  show ?thesis using fail again by blast
qed

theorem failed_workflow_blocks_version_witness:
  "\<exists>en3 c. runImagePublicationWorkflow beginImagePublication publishImageVersion codeUnitCompare
     exampleSha (exampleDeps True) (exampleRun ''scope'')
     (fst (fst (runImagePublicationWorkflow beginImagePublication publishImageVersion codeUnitCompare
        exampleSha (exampleDeps False) (exampleRun ''scope'') (exampleImageStore, exampleEnv))),
      exampleEnv) =
   ((fst (fst (runImagePublicationWorkflow beginImagePublication publishImageVersion codeUnitCompare
        exampleSha (exampleDeps False) (exampleRun ''scope'') (exampleImageStore, exampleEnv))), en3),
    Inl (PublicationFailed c))"
proof -
  let ?run = "runImagePublicationWorkflow beginImagePublication publishImageVersion codeUnitCompare
    exampleSha (exampleDeps False) (exampleRun ''scope'') (exampleImageStore, exampleEnv)"
  define s' en' where "s' = fst (fst ?run)" and "en' = snd (fst ?run)"
  have "snd ?run = Inl (ActivityFailed ''processor down'')" by code_simp
  then have run: "?run = ((s', en'), Inl (ActivityFailed ''processor down''))"
    unfolding s'_def en'_def by (rule failed_outcome)
  show ?thesis
    using failed_workflow_blocks_version [OF example_image_keyed run] unfolding s'_def [symmetric]
    by blast
qed

text \<open>A presentation run numbers its slides: in a successful run over the in-memory store, with the
  default recipes, the derivatives are the normalized document followed by the slides in page order;
  and when the processor numbered its pages without repetition, no two derivatives share a key, so
  the store holds every one of them.\<close>

theorem presentation_pages_ordered:
  assumes "presentationBody lc sha deps input version en = (en', Inr (ds, m))"
    and "wf_recipeBindings deps = None"
  shows "\<exists>w processed d slides.
    wf_process deps
      \<lparr>qa_canonicalSourceId = pv_canonicalSourceId version,
       qa_normalizedDocumentRecipeBinding =
         presentationBinding ''application/pdf'' ''normalized-pdf'' ''normalized-pdf'',
       qa_slideImageRecipeBinding =
         presentationBinding ''image/webp'' ''slide-images'' ''slide-{pageNumber}'',
       qa_sourceContentType = pv_detectedContentType version,
       qa_sourceFilename = pv_sourceFilename version\<rparr> (en_world en) = (w, Inr processed) \<and>
    ds = d # slides \<and> pd_pageNumber d = None \<and>
    map pd_pageNumber slides =
      map (Some \<circ> qo_pageNumber) (js_sort slidePageOrder (qr_slides processed)) \<and>
    sorted_wrt (\<lambda>a b. a \<le> b) (map (the \<circ> pd_pageNumber) slides) \<and>
    (distinct (map qo_pageNumber (qr_slides processed)) \<and>
     (\<forall>x\<in>set (qr_slides processed). 0 \<le> qo_pageNumber x) \<longrightarrow>
     distinct (map pd_deterministicKey ds))"
proof -
  let ?doc = "presentationBinding ''application/pdf'' ''normalized-pdf'' ''normalized-pdf''"
  let ?img = "presentationBinding ''image/webp'' ''slide-images'' ''slide-{pageNumber}''"
  have bindings: "presentationBindingOf ''normalized-pdf'' None = Some ?doc"
    "presentationBindingOf ''slide-images'' None = Some ?img"
    by (simp_all add: presentationBindingOf_def findRecipe_def defaultPresentationRecipeBindings_def
        presentationBinding_def)
  obtain w processed en1 en2 d slides where
    p: "wf_process deps
      \<lparr>qa_canonicalSourceId = pv_canonicalSourceId version,
       qa_normalizedDocumentRecipeBinding = ?doc, qa_slideImageRecipeBinding = ?img,
       qa_sourceContentType = pv_detectedContentType version,
       qa_sourceFilename = pv_sourceFilename version\<rparr> (en_world en) = (w, Inr processed)"
    and d: "presentationDerivative sha deps input version ?doc ''normalized-pdf'' None
      (qr_normalizedDocument processed) (en\<lparr>en_world := w\<rparr>) = (en1, Inr d)"
    and sl: "slideDerivatives sha deps input version ?img
      (js_sort slidePageOrder (qr_slides processed)) en1 = (en2, Inr slides)"
    and ds: "ds = d # slides"
    using assms(1) unfolding presentationBody_def assms(2) bindings
    by (auto simp: and_then_ok_iff Let_def case_prod_beta callActivity_ok)
  note rd = presentationDerivative_result [OF d] and rs = slideDerivatives_result [OF sl]
  have sorted: "sorted_wrt (\<lambda>a b. a \<le> b) (map (the \<circ> pd_pageNumber) slides)"
  proof -
    have "map (the \<circ> pd_pageNumber) slides = map the (map pd_pageNumber slides)" by simp
    also have "\<dots> = map qo_pageNumber (js_sort slidePageOrder (qr_slides processed))"
      using rs by simp
    finally show ?thesis
      using slide_pages.sorted_sort [of "qr_slides processed"]
      by (simp add: sorted_wrt_map slidePageOrder_def)
  qed
  have dist: "distinct (map pd_deterministicKey ds)"
    if pages: "distinct (map qo_pageNumber (qr_slides processed))"
      and pos: "\<forall>x\<in>set (qr_slides processed). 0 \<le> qo_pageNumber x"
  proof -
    let ?key = "\<lambda>x. derivativeKeyOf version ''slide-images'' (deriveSlideVariantKey (qo_pageNumber x))"
    have eq: "map pd_deterministicKey slides = map ?key (js_sort slidePageOrder (qr_slides processed))"
      using rs by (simp add: presentationBinding_def)
    have inj: "?key x = ?key y \<Longrightarrow> x \<in> set (qr_slides processed) \<Longrightarrow> y \<in> set (qr_slides processed) \<Longrightarrow>
        qo_pageNumber x = qo_pageNumber y" for x y
      using pos slide_variant_inj
      by (auto simp: derivativeKeyOf_def buildDeterministicDerivativeKey_def)
    have "distinct (map ?key (qr_slides processed))"
      using pages inj unfolding distinct_map inj_on_def by metis
    moreover have "pd_deterministicKey d \<notin> set (map ?key (qr_slides processed))"
      using rd by (auto simp: presentationBinding_def derivativeKeyOf_def
          buildDeterministicDerivativeKey_def)
    ultimately show ?thesis using ds eq by simp
  qed
  show ?thesis
    using p ds rd rs sorted dist by blast
qed

theorem presentation_pages_ordered_witness:
  "\<exists>en' ds m. presentationBody codeUnitCompare exampleSha exampleSlideDeps (exampleRun ''scope'')
     exampleVersion exampleEnv = (en', Inr (ds, m)) \<and>
     map pd_pageNumber ds = [None, Some 1, Some 2] \<and> distinct (map pd_deterministicKey ds)"
proof -
  let ?body = "presentationBody codeUnitCompare exampleSha exampleSlideDeps (exampleRun ''scope'')
     exampleVersion exampleEnv"
  obtain en' ds m where run: "?body = (en', Inr (ds, m))"
    using example_slides_ok [of codeUnitCompare exampleVersion exampleEnv]
    by (cases ?body; cases "snd ?body") auto
  have deps: "wf_recipeBindings exampleSlideDeps = None" by (simp add: exampleSlideDeps_def)
  have "map pd_pageNumber ds = [None, Some 1, Some 2] \<and> distinct (map pd_deterministicKey ds)"
    using presentation_pages_ordered [OF run deps]
    by (auto simp: exampleSlideDeps_def exampleSlide_def exampleOutput_def
        presentation_output.defs slidePageOrder_def)
  then show ?thesis
    by (intro exI [of _ en'] exI [of _ ds] exI [of _ m] conjI run) simp_all
qed

end
