(* ===== verification/Durable_Publication.thy ===== *)
theory Durable_Publication
  imports Publication_Store Publication_Workflows
begin

text \<open>
  The publication stores over the durable registry:
  \<open>packages/registry/src/prisma-generic-asset-publication-store.ts\<close>,
  \<open>prisma-image-publication-store.ts\<close>, \<open>prisma-presentation-publication-store.ts\<close> and the target store
  \<open>prisma-publication-target-store.ts\<close>. As for the in-memory stores the three classes share their
  operations, which take the row conversions of the class as arguments. The engine and the
  transaction of Prisma are parameters (\<open>registry_engine\<close>, \<open>tx\<close>).
\<close>

section \<open>JSON columns\<close>

fun toJsonValue :: "json \<Rightarrow> json" where
  "toJsonValue JNull = JStr ''null''"
| "toJsonValue (JBool b) = JBool b"
| "toJsonValue (JNum n) = JNum n"
| "toJsonValue (JStr s) = JStr s"
| "toJsonValue (JArr xs) = JArr (map toJsonValue xs)"
| "toJsonValue (JObj kvs) = JObj (map (\<lambda>kv. (fst kv, toJsonValue (snd kv))) kvs)"

definition asRecord :: "json \<Rightarrow> json_record option" where
  "asRecord j = (case j of JObj kvs \<Rightarrow> Some kvs | _ \<Rightarrow> None)"

fun truthyJson :: "json \<Rightarrow> bool" where
  "truthyJson JNull = False"
| "truthyJson (JBool b) = b"
| "truthyJson (JNum n) = (n \<noteq> 0)"
| "truthyJson (JStr s) = (s \<noteq> [])"
| "truthyJson _ = True"

fun null_free :: "json \<Rightarrow> bool" where
  "null_free JNull = False"
| "null_free (JArr xs) = (\<forall>x\<in>set xs. null_free x)"
| "null_free (JObj kvs) = (\<forall>kv\<in>set kvs. null_free (snd kv))"
| "null_free _ = True"

lemma toJsonValue_id: "null_free j \<Longrightarrow> toJsonValue j = j"
  by (induction j rule: toJsonValue.induct) (auto simp: map_idI)

section \<open>From rows to records\<close>

definition mapLifecycle :: "row_state \<Rightarrow> publication_state" where
  "mapLifecycle st =
     (if st = row_published then pub_published
      else if st = row_processing then pub_processing else pub_canonical)"

definition mapSourceVersion :: "version_row \<Rightarrow> publication_error + image_version" where
  "mapSourceVersion r =
     (case (keep_str (vw_canonicalLogicalPath r), keep_str (vw_canonicalSourceId r)) of
        (Some path, Some sourceId) \<Rightarrow>
          Inr \<lparr>pv_assetId = vw_assetId r, pv_detectedContentType = vw_detectedContentType r,
               pv_lifecycleState = mapLifecycle (vw_lifecycleState r),
               pv_serviceNamespaceId = vw_serviceNamespaceId r,
               pv_sourceByteLength = vw_sourceByteLength r,
               pv_sourceChecksumValue = vw_sourceChecksumValue r,
               pv_sourceFilename = vw_sourceFilename r, pv_versionId = vw_id r,
               pv_versionNumber = vw_versionNumber r, pv_canonicalLogicalPath = path,
               pv_canonicalSourceId = sourceId\<rparr>
      | _ \<Rightarrow> Inl (MissingSourceIdentity (vw_id r)))"

definition mapCanonicalSourceEvidence :: "version_row \<Rightarrow> publication_error + source_evidence" where
  "mapCanonicalSourceEvidence r =
     (case (vw_repositoryEngine r, keep_str (vw_canonicalSourceId r),
            keep_str (vw_canonicalSnapshotId r), keep_str (vw_canonicalLogicalPath r)) of
        (Some engine, Some sourceId, Some snapshotId, Some path) \<Rightarrow>
          Inr \<lparr>ev_repositoryEngine = engine, ev_canonicalSourceId = sourceId,
               ev_canonicalSnapshotId = snapshotId, ev_canonicalLogicalPath = path,
               ev_canonicalDigestSet = nullish (vw_canonicalDigestSet r) [],
               ev_canonicalLogicalByteLength = vw_canonicalLogicalByteLength r,
               ev_canonicalStoredByteLength = vw_canonicalStoredByteLength r,
               ev_dedupeMetrics = vw_dedupeMetrics r,
               ev_sourceReconstructionHandles = vw_sourceReconstructionHandles r,
               ev_sourceSubstrateHints = vw_sourceSubstrateHints r\<rparr>
      | _ \<Rightarrow> Inl (MissingSourceIdentity (vw_id r)))"

definition mapGenericVersion :: "version_row \<Rightarrow> publication_error + generic_version" where
  "mapGenericVersion r =
     (case mapCanonicalSourceEvidence r of
        Inl e \<Rightarrow> Inl e
      | Inr evidence \<Rightarrow>
          Inr \<lparr>pv_assetId = vw_assetId r, pv_detectedContentType = vw_detectedContentType r,
               pv_lifecycleState = mapLifecycle (vw_lifecycleState r),
               pv_serviceNamespaceId = vw_serviceNamespaceId r,
               pv_sourceByteLength = vw_sourceByteLength r,
               pv_sourceChecksumValue = vw_sourceChecksumValue r,
               pv_sourceFilename = vw_sourceFilename r, pv_versionId = vw_id r,
               pv_versionNumber = vw_versionNumber r, pv_canonicalSourceEvidence = evidence\<rparr>)"

definition mapMetadataDerivative :: "derivative_row \<Rightarrow> metadata_derivative" where
  "mapMetadataDerivative r =
     \<lparr>pd_assetVersionId = dw_assetVersionId r, pd_byteLength = dw_byteLength r,
      pd_checksumValue = nullish (dw_checksumValue r) [], pd_contentType = dw_contentType r,
      pd_deliveryScopeId = dw_deliveryScopeId r, pd_deterministicKey = dw_deterministicKey r,
      pd_publishedAt = nullish (dw_publishedAt r) 0, pd_recipeId = dw_recipeId r,
      pd_schemaVersion = dw_schemaVersion r, pd_storageBucket = nullish (dw_storageBucket r) [],
      pd_storageKey = nullish (dw_storageKey r) [], pd_variantKey = dw_variantKey r,
      pd_metadata =
        (if truthyJson (dw_metadata r) then Some (nullish (asRecord (dw_metadata r)) []) else None)\<rparr>"

text \<open>
  \<open>Number.parseInt(text, 10)\<close>: white space, an optional sign, and the digits up to the first other
  character; no digits, no number. \<open>replace(/^slide-/u, '')\<close> drops the prefix once.
\<close>

definition js_parseInt :: "string \<Rightarrow> int option" where
  "js_parseInt s =
     (let t = js_trim_start s;
          (neg, u) = (case t of
              c # cs \<Rightarrow>
                (if c = CHR ''-'' then (True, cs) else if c = CHR ''+'' then (False, cs)
                 else (False, t))
            | [] \<Rightarrow> (False, [])) in
      if u = [] \<or> digit_value (hd u) = None then None
      else (let n = js_Number (int (fst (parse_digits 0 u))) in Some (if neg then - n else n)))"

definition dropSlidePrefix :: "string \<Rightarrow> string" where
  "dropSlidePrefix s = (if take 6 s = ''slide-'' then drop 6 s else s)"

definition mapPageDerivative :: "derivative_row \<Rightarrow> page_derivative" where
  "mapPageDerivative r =
     (let parsedPageNumber =
            (if dw_recipeId r = ''slide-images''
             then js_parseInt (dropSlidePrefix (dw_variantKey r)) else Some 0) in
      \<lparr>pd_assetVersionId = dw_assetVersionId r, pd_byteLength = dw_byteLength r,
       pd_checksumValue = nullish (dw_checksumValue r) [], pd_contentType = dw_contentType r,
       pd_deliveryScopeId = dw_deliveryScopeId r, pd_deterministicKey = dw_deterministicKey r,
       pd_publishedAt = nullish (dw_publishedAt r) 0, pd_recipeId = dw_recipeId r,
       pd_schemaVersion = dw_schemaVersion r, pd_storageBucket = nullish (dw_storageBucket r) [],
       pd_storageKey = nullish (dw_storageKey r) [], pd_variantKey = dw_variantKey r,
       pd_pageNumber = parsedPageNumber\<rparr>)"

definition mapManifest :: "manifest_row \<Rightarrow> manifest_record" where
  "mapManifest r =
     \<lparr>pm_assetVersionId = mw_assetVersionId r, pm_checksumValue = nullish (mw_checksumValue r) [],
      pm_deliveryScopeId = mw_deliveryScopeId r,
      pm_manifestPayload = JObj (nullish (asRecord (mw_manifestPayload r)) []),
      pm_manifestType = mw_manifestType r, pm_objectKey = mw_objectKey r,
      pm_publishedAt = nullish (mw_publishedAt r) 0, pm_schemaVersion = mw_schemaVersion r\<rparr>"

section \<open>Operations\<close>

definition returning :: "'s \<Rightarrow> 'e + 'a \<Rightarrow> ('s, 'e, 'a) outcome" where
  "returning s r = (s, r)"

definition beginBody ::
  "registry_engine \<Rightarrow> (version_row \<Rightarrow> publication_error + 'v) \<Rightarrow> begin_input \<Rightarrow> registry_db
     \<Rightarrow> (registry_db, publication_error, 'v) outcome" where
  "beginBody e mapV input db =
     (case findVersion (bi_versionId input) db of
        None \<Rightarrow> throw db (VersionNotFoundError (bi_versionId input))
      | Some version \<Rightarrow>
          if vw_lifecycleState version \<noteq> row_canonical \<and>
             vw_lifecycleState version \<noteq> row_processing \<and>
             vw_lifecycleState version \<noteq> row_published
          then throw db
            (RowStateError (bi_versionId input) (vw_lifecycleState version) begin_processing)
          else
            and_then
              (if vw_lifecycleState version \<noteq> row_processing
               then setVersionState e DatabaseError (bi_versionId input) row_processing db
               else ok db ())
              (\<lambda>db _. returning db (mapV (version\<lparr>vw_lifecycleState := row_processing\<rparr>))))"

definition durableBegin ::
  "((registry_db \<Rightarrow> (registry_db, publication_error, 'v) outcome) \<Rightarrow> registry_db
      \<Rightarrow> (registry_db, publication_error, 'v) outcome)
     \<Rightarrow> registry_engine \<Rightarrow> (version_row \<Rightarrow> publication_error + 'v) \<Rightarrow> begin_input \<Rightarrow> registry_db
     \<Rightarrow> (registry_db, publication_error, 'v) outcome" where
  "durableBegin tx e mapV input = tx (beginBody e mapV input)"

definition durableGetVersion ::
  "(version_row \<Rightarrow> publication_error + 'v) \<Rightarrow> string \<Rightarrow> registry_db
     \<Rightarrow> publication_error + 'v option" where
  "durableGetVersion mapV versionId db =
     (case findVersion versionId db of
        None \<Rightarrow> Inr None
      | Some version \<Rightarrow>
          (case mapV version of Inl e \<Rightarrow> Inl e | Inr v \<Rightarrow> Inr (Some v)))"

definition durableListDerivatives ::
  "(string \<Rightarrow> string \<Rightarrow> int) \<Rightarrow> (derivative_row \<Rightarrow> 'd) \<Rightarrow> string \<Rightarrow> registry_db \<Rightarrow> 'd list" where
  "durableListDerivatives collate mapD versionId db =
     map mapD
       (js_sort (\<lambda>l r. collate (dw_deterministicKey l) (dw_deterministicKey r))
         (filter (\<lambda>r. dw_assetVersionId r = versionId \<and> dw_published r) (rg_derivatives db)))"

definition durableReadManifest ::
  "string \<Rightarrow> string \<Rightarrow> string \<Rightarrow> registry_db \<Rightarrow> manifest_record option" where
  "durableReadManifest versionId manifestType deliveryScopeId db =
     map_option mapManifest
       (row_at manifestKeys (rg_manifests db) [versionId, manifestType, deliveryScopeId])"

text \<open>The scopes of a version: those of its namespace, shared ones or those of the asset's tenant.\<close>

definition scopeOfVersion :: "version_row \<Rightarrow> scope_row \<Rightarrow> bool" where
  "scopeOfVersion version scope \<longleftrightarrow>
     sw_serviceNamespaceId scope = vw_namespaceRowId version \<and>
     (if truthy_str (vw_tenantScopeId version)
      then sw_tenantScopeId scope = None \<or> sw_tenantScopeId scope = vw_tenantScopeId version
      else sw_tenantScopeId scope = None)"

definition metadataColumn :: "metadata_derivative \<Rightarrow> json \<Rightarrow> json" where
  "metadataColumn d old =
     (case pd_metadata d of Some m \<Rightarrow> toJsonValue (JObj m) | None \<Rightarrow> JNull)"

definition untouchedMetadata :: "page_derivative \<Rightarrow> json \<Rightarrow> json" where
  "untouchedMetadata d old = old"

definition derivativeKeyIn :: "string \<Rightarrow> 'a derivative_record_scheme \<Rightarrow> string list" where
  "derivativeKeyIn versionId d =
     [versionId, pd_deliveryScopeId d, pd_recipeId d, pd_schemaVersion d, pd_variantKey d]"

definition createdDerivative ::
  "('a derivative_record_scheme \<Rightarrow> json \<Rightarrow> json) \<Rightarrow> string \<Rightarrow> 'a derivative_record_scheme
     \<Rightarrow> derivative_row" where
  "createdDerivative meta versionId d =
     \<lparr>dw_assetVersionId = versionId, dw_deliveryScopeId = pd_deliveryScopeId d,
      dw_recipeId = pd_recipeId d, dw_schemaVersion = pd_schemaVersion d,
      dw_variantKey = pd_variantKey d, dw_deterministicKey = pd_deterministicKey d,
      dw_storageBucket = Some (pd_storageBucket d), dw_storageKey = Some (pd_storageKey d),
      dw_contentType = pd_contentType d, dw_byteLength = pd_byteLength d,
      dw_checksumValue = Some (pd_checksumValue d), dw_published = True,
      dw_metadata = meta d JNull, dw_publishedAt = Some (pd_publishedAt d)\<rparr>"

definition updatedDerivative ::
  "('a derivative_record_scheme \<Rightarrow> json \<Rightarrow> json) \<Rightarrow> 'a derivative_record_scheme
     \<Rightarrow> derivative_row \<Rightarrow> derivative_row" where
  "updatedDerivative meta d r =
     r\<lparr>dw_byteLength := pd_byteLength d, dw_checksumValue := Some (pd_checksumValue d),
       dw_contentType := pd_contentType d, dw_deterministicKey := pd_deterministicKey d,
       dw_metadata := meta d (dw_metadata r), dw_published := True,
       dw_publishedAt := Some (pd_publishedAt d), dw_storageBucket := Some (pd_storageBucket d),
       dw_storageKey := Some (pd_storageKey d)\<rparr>"

fun upsertDerivatives ::
  "registry_engine \<Rightarrow> ('a derivative_record_scheme \<Rightarrow> json \<Rightarrow> json) \<Rightarrow> string
     \<Rightarrow> 'a derivative_record_scheme list \<Rightarrow> registry_db
     \<Rightarrow> (registry_db, publication_error, unit) outcome" where
  "upsertDerivatives e meta versionId [] db = ok db ()"
| "upsertDerivatives e meta versionId (d # ds) db =
     and_then
       (onDerivatives DatabaseError
          (to_upsert (re_derivatives e) (\<lambda>r. derivativeKeys r = Some (derivativeKeyIn versionId d))
             (updatedDerivative meta d) (createdDerivative meta versionId d)) db)
       (\<lambda>db _. upsertDerivatives e meta versionId ds db)"

definition createdManifest :: "string \<Rightarrow> string \<Rightarrow> manifest_record \<Rightarrow> manifest_row" where
  "createdManifest versionId scope m =
     \<lparr>mw_assetVersionId = versionId, mw_deliveryScopeId = scope,
      mw_manifestType = pm_manifestType m, mw_schemaVersion = pm_schemaVersion m,
      mw_published = True, mw_objectKey = pm_objectKey m,
      mw_checksumValue = Some (pm_checksumValue m),
      mw_manifestPayload = toJsonValue (pm_manifestPayload m),
      mw_publishedAt = Some (pm_publishedAt m)\<rparr>"

definition updatedManifest :: "manifest_record \<Rightarrow> manifest_row \<Rightarrow> manifest_row" where
  "updatedManifest m r =
     r\<lparr>mw_checksumValue := Some (pm_checksumValue m),
       mw_manifestPayload := toJsonValue (pm_manifestPayload m),
       mw_objectKey := pm_objectKey m, mw_published := True,
       mw_publishedAt := Some (pm_publishedAt m), mw_schemaVersion := pm_schemaVersion m\<rparr>"

definition upsertManifest ::
  "registry_engine \<Rightarrow> string \<Rightarrow> string \<Rightarrow> manifest_record \<Rightarrow> registry_db
     \<Rightarrow> (registry_db, publication_error, unit) outcome" where
  "upsertManifest e versionId scope m =
     onManifests DatabaseError
       (to_upsert (re_manifests e)
          (\<lambda>r. manifestKeys r = Some [versionId, pm_manifestType m, scope])
          (updatedManifest m) (createdManifest versionId scope m))"

definition publishBody ::
  "registry_engine \<Rightarrow> (version_row \<Rightarrow> publication_error + 'v)
     \<Rightarrow> ('a derivative_record_scheme \<Rightarrow> json \<Rightarrow> json) \<Rightarrow> 'a derivative_record_scheme publish_input
     \<Rightarrow> registry_db \<Rightarrow> (registry_db, publication_error, 'v) outcome" where
  "publishBody e mapV meta input db =
     (case findVersion (pi_versionId input) db of
        None \<Rightarrow> throw db (VersionNotFoundError (pi_versionId input))
      | Some version \<Rightarrow>
          if vw_lifecycleState version \<noteq> row_processing \<and>
             vw_lifecycleState version \<noteq> row_published
          then throw db
            (RowStateError (pi_versionId input) (vw_lifecycleState version) publish_derivatives)
          else
          (case List.find
                  (\<lambda>s. sw_id s = pi_deliveryScopeId input \<and> scopeOfVersion version s)
                  (rg_scopes db) of
             None \<Rightarrow> throw db (ScopeUnavailable (pi_deliveryScopeId input) (pi_versionId input))
           | Some _ \<Rightarrow>
               and_then (upsertDerivatives e meta (pi_versionId input) (pi_derivatives input) db)
                 (\<lambda>db _.
               and_then
                 (upsertManifest e (pi_versionId input) (pi_deliveryScopeId input)
                    (pi_manifest input) db)
                 (\<lambda>db _.
               and_then
                 (setVersionState e DatabaseError (pi_versionId input) row_published db)
                 (\<lambda>db _. returning db (mapV (version\<lparr>vw_lifecycleState := row_published\<rparr>)))))))"

definition durablePublish ::
  "((registry_db \<Rightarrow> (registry_db, publication_error, 'v) outcome) \<Rightarrow> registry_db
      \<Rightarrow> (registry_db, publication_error, 'v) outcome)
     \<Rightarrow> registry_engine \<Rightarrow> (version_row \<Rightarrow> publication_error + 'v)
     \<Rightarrow> ('a derivative_record_scheme \<Rightarrow> json \<Rightarrow> json) \<Rightarrow> 'a derivative_record_scheme publish_input
     \<Rightarrow> registry_db \<Rightarrow> (registry_db, publication_error, 'v) outcome" where
  "durablePublish tx e mapV meta input = tx (publishBody e mapV meta input)"

definition targetOrder ::
  "(string \<Rightarrow> string \<Rightarrow> int) \<Rightarrow> scope_row \<Rightarrow> scope_row \<Rightarrow> int" where
  "targetOrder collate l r =
     (let byKey = collate (sw_scopeKey l) (sw_scopeKey r) in
      if byKey \<noteq> 0 then byKey else collate (sw_id l) (sw_id r))"

definition listPublicationTargets ::
  "(string \<Rightarrow> string \<Rightarrow> int) \<Rightarrow> string \<Rightarrow> registry_db \<Rightarrow> (string \<times> string) list" where
  "listPublicationTargets collate versionId db =
     (case findVersion versionId db of
        None \<Rightarrow> []
      | Some version \<Rightarrow>
          map (\<lambda>s. (sw_id s, sw_scopeKey s))
            (js_sort (targetOrder collate) (filter (scopeOfVersion version) (rg_scopes db))))"

section \<open>The three classes\<close>

definition durableBeginGeneric where
  "durableBeginGeneric tx e = durableBegin tx e mapGenericVersion"

definition durablePublishGeneric where
  "durablePublishGeneric tx e = durablePublish tx e mapGenericVersion metadataColumn"

definition durableBeginImage where
  "durableBeginImage tx e = durableBegin tx e mapSourceVersion"

definition durablePublishImage where
  "durablePublishImage tx e = durablePublish tx e mapSourceVersion metadataColumn"

definition durableBeginPresentation where
  "durableBeginPresentation tx e = durableBegin tx e mapSourceVersion"

definition durablePublishPresentation where
  "durablePublishPresentation tx e = durablePublish tx e mapSourceVersion untouchedMetadata"

section \<open>What the operations do\<close>

lemma created_keys [simp]:
  "derivativeKeys (createdDerivative meta versionId d) = Some (derivativeKeyIn versionId d)"
  "deterministicKeys (createdDerivative meta versionId d) = Some [pd_deterministicKey d]"
  "manifestKeys (createdManifest versionId scope m) = Some [versionId, pm_manifestType m, scope]"
  by (simp_all add: derivativeKeys_def deterministicKeys_def createdDerivative_def
      derivativeKeyIn_def manifestKeys_def createdManifest_def)

lemma updated_keys [simp]:
  "derivativeKeys (updatedDerivative meta d r) = derivativeKeys r"
  "deterministicKeys (updatedDerivative meta d r) = Some [pd_deterministicKey d]"
  "manifestKeys (updatedManifest m r') = manifestKeys r'"
  by (simp_all add: derivativeKeys_def deterministicKeys_def updatedDerivative_def
      manifestKeys_def updatedManifest_def)

lemma updated_is_created:
  "derivativeKeys r = Some (derivativeKeyIn versionId d) \<Longrightarrow>
    updatedDerivative meta d r =
      (createdDerivative meta versionId d)\<lparr>dw_metadata := meta d (dw_metadata r)\<rparr>"
  "manifestKeys r' = Some [versionId, pm_manifestType m, scope] \<Longrightarrow>
    updatedManifest m r' = createdManifest versionId scope m"
  by (simp_all add: derivativeKeys_def updatedDerivative_def createdDerivative_def
      derivativeKeyIn_def manifestKeys_def updatedManifest_def createdManifest_def)

lemma derivative_constraint: "derivativeKeys \<in> set derivativeConstraints"
  "deterministicKeys \<in> set derivativeConstraints" "manifestKeys \<in> set manifestConstraints"
  by (simp_all add: derivativeConstraints_def manifestConstraints_def)

lemma upsertDerivatives_ok:
  assumes "engine_laws e" "registry_ok db"
    and "upsertDerivatives e meta versionId ds db = (db', Inr u)"
  shows "registry_ok db' \<and> db' = db\<lparr>rg_derivatives := rg_derivatives db'\<rparr> \<and>
    (\<forall>r. derivativeKeys r \<notin> (\<lambda>d. Some (derivativeKeyIn versionId d)) ` set ds \<longrightarrow>
       r \<in> set (rg_derivatives db') \<longleftrightarrow> r \<in> set (rg_derivatives db)) \<and>
    (distinct (map (derivativeKeyIn versionId) ds) \<longrightarrow>
       (\<forall>d\<in>set ds. \<exists>old. (createdDerivative meta versionId d)\<lparr>dw_metadata := meta d old\<rparr>
          \<in> set (rg_derivatives db')))"
  using assms(2,3)
proof (induction ds arbitrary: db)
  case (Cons d ds)
  have laws: "table_laws derivativeConstraints (re_derivatives e)"
    and sat: "satisfies derivativeConstraints (rg_derivatives db)"
    using assms(1) Cons(2) by (simp_all add: engine_laws_def registry_ok_def)
  let ?k = "derivativeKeyIn versionId d"
  obtain rows where rows: "to_upsert (re_derivatives e)
      (\<lambda>r. derivativeKeys r = Some ?k) (updatedDerivative meta d)
      (createdDerivative meta versionId d) (rg_derivatives db) = Inr rows"
    and rest: "upsertDerivatives e meta versionId ds (db\<lparr>rg_derivatives := rows\<rparr>) = (db', Inr u)"
    using Cons(3) by (auto simp: and_then_ok_iff table_writes writeTable_ok)
  have up: "satisfies derivativeConstraints rows"
    "row_at derivativeKeys rows = (row_at derivativeKeys (rg_derivatives db))(?k \<mapsto>
       (case row_at derivativeKeys (rg_derivatives db) ?k of
          Some r \<Rightarrow> updatedDerivative meta d r | None \<Rightarrow> createdDerivative meta versionId d))"
    "\<And>r. derivativeKeys r \<noteq> Some ?k \<Longrightarrow> r \<in> set rows \<longleftrightarrow> r \<in> set (rg_derivatives db)"
    by (rule upsert_keyed [OF laws sat derivative_constraint(1) _ _ rows]; simp)+
  have ok1: "registry_ok (db\<lparr>rg_derivatives := rows\<rparr>)"
    using Cons(2) up(1) by (simp add: registry_ok_def)
  note IH = Cons(1) [OF ok1 rest]
  have here: "\<exists>old. (createdDerivative meta versionId d)\<lparr>dw_metadata := meta d old\<rparr> \<in> set rows"
  proof (cases "row_at derivativeKeys (rg_derivatives db) ?k")
    case None
    then have "row_at derivativeKeys rows ?k = Some (createdDerivative meta versionId d)"
      using up(2) by simp
    then have "createdDerivative meta versionId d \<in> set rows"
      using row_at_Some [OF up(1) derivative_constraint(1)] by blast
    moreover have "createdDerivative meta versionId d =
        (createdDerivative meta versionId d)\<lparr>dw_metadata := meta d JNull\<rparr>"
      by (simp add: createdDerivative_def)
    ultimately show ?thesis by metis
  next
    case (Some r)
    then have "derivativeKeys r = Some ?k"
      using row_at_Some [OF sat derivative_constraint(1)] by blast
    moreover have "row_at derivativeKeys rows ?k = Some (updatedDerivative meta d r)"
      using Some up(2) by simp
    then have "updatedDerivative meta d r \<in> set rows"
      using row_at_Some [OF up(1) derivative_constraint(1)] by blast
    ultimately show ?thesis using updated_is_created(1) by metis
  qed
  show ?case
  proof (intro conjI impI ballI allI)
    show "registry_ok db'" using IH by blast
    show "db' = db\<lparr>rg_derivatives := rg_derivatives db'\<rparr>" using IH by (metis (no_types, lifting)
      registry_db.surjective registry_db.update_convs(3))
  next
    fix r assume "derivativeKeys r \<notin> (\<lambda>d. Some (derivativeKeyIn versionId d)) ` set (d # ds)"
    then show "r \<in> set (rg_derivatives db') \<longleftrightarrow> r \<in> set (rg_derivatives db)"
      using IH up(3) by simp
  next
    fix x assume dist: "distinct (map (derivativeKeyIn versionId) (d # ds))" and x: "x \<in> set (d # ds)"
    show "\<exists>old. (createdDerivative meta versionId x)\<lparr>dw_metadata := meta x old\<rparr>
        \<in> set (rg_derivatives db')"
    proof (cases "x \<in> set ds")
      case True
      then show ?thesis using IH dist by simp
    next
      case False
      then have "x = d" using x by simp
      obtain old where old: "(createdDerivative meta versionId d)\<lparr>dw_metadata := meta d old\<rparr> \<in> set rows"
        using here by blast
      have "derivativeKeys ((createdDerivative meta versionId d)\<lparr>dw_metadata := meta d old\<rparr>)
          \<notin> (\<lambda>d. Some (derivativeKeyIn versionId d)) ` set ds"
        using dist by (auto simp: derivativeKeys_def createdDerivative_def derivativeKeyIn_def)
      then show ?thesis using IH old \<open>x = d\<close> by auto
    qed
  qed
qed simp

lemma upsertDerivatives_error:
  assumes "engine_laws e" "registry_ok db"
    and "upsertDerivatives e meta versionId ds db = (db', Inl err)"
  shows "err = DatabaseError UniqueViolation"
  using assms(2,3)
proof (induction ds arbitrary: db)
  case (Cons d ds)
  have laws: "table_laws derivativeConstraints (re_derivatives e)"
    and sat: "satisfies derivativeConstraints (rg_derivatives db)"
    using assms(1) Cons(2) by (simp_all add: engine_laws_def registry_ok_def)
  let ?up = "to_upsert (re_derivatives e)
      (\<lambda>r. derivativeKeys r = Some (derivativeKeyIn versionId d)) (updatedDerivative meta d)
      (createdDerivative meta versionId d) (rg_derivatives db)"
  show ?case
  proof (cases ?up)
    case (Inl x)
    then show ?thesis using Cons(3) upsert_error [OF laws sat Inl]
      by (simp add: table_writes writeTable_def)
  next
    case (Inr rows)
    have "registry_ok (db\<lparr>rg_derivatives := rows\<rparr>)"
      using Cons(2) upsert_result(1) [OF laws sat Inr] by (simp add: registry_ok_def)
    then show ?thesis using Cons(1,3) Inr by (simp add: table_writes writeTable_def)
  qed
qed simp

text \<open>
  A row of another scope that has the deterministic key of a derivative makes the write of the
  derivatives fail: the writes before it do not touch rows of that scope.
\<close>

lemma upsertDerivatives_conflict:
  assumes "engine_laws e" "registry_ok db" "r \<in> set (rg_derivatives db)" "d \<in> set ds"
    and "dw_deterministicKey r = pd_deterministicKey d"
    and "\<forall>x\<in>set ds. pd_deliveryScopeId x \<noteq> dw_deliveryScopeId r"
  shows "\<exists>db'. upsertDerivatives e meta versionId ds db =
    (db', Inl (DatabaseError UniqueViolation))"
  using assms(2-4,6)
proof (induction ds arbitrary: db)
  case (Cons x ds)
  have laws: "table_laws derivativeConstraints (re_derivatives e)"
    and sat: "satisfies derivativeConstraints (rg_derivatives db)"
    using assms(1) Cons(2) by (simp_all add: engine_laws_def registry_ok_def)
  let ?w = "\<lambda>r. derivativeKeys r = Some (derivativeKeyIn versionId x)"
  let ?up = "to_upsert (re_derivatives e) ?w (updatedDerivative meta x)
      (createdDerivative meta versionId x) (rg_derivatives db)"
  have r: "\<not> ?w r" using Cons(5) by (auto simp: derivativeKeys_def derivativeKeyIn_def)
  have k: "deterministicKeys r = Some [pd_deterministicKey d]"
    by (simp add: deterministicKeys_def assms(5))
  have conflict: "?up = Inl UniqueViolation" if "x = d"
  proof (rule upsert_conflict [where r = r and w = ?w and cs = derivativeConstraints
        and ?c2.0 = deterministicKeys and ?k2.0 = "[pd_deterministicKey d]"])
    show "r \<in> set (rg_derivatives db)" by (rule Cons(3))
  qed (use laws sat derivative_constraint k r that in simp_all)
  show ?case
  proof (cases ?up)
    case (Inl err)
    then show ?thesis using upsert_error [OF laws sat Inl]
      by (simp add: table_writes writeTable_def)
  next
    case (Inr rows)
    have "x \<noteq> d" using conflict Inr by auto
    then have d: "d \<in> set ds" using Cons(4) by simp
    have ok1: "registry_ok (db\<lparr>rg_derivatives := rows\<rparr>)"
      using Cons(2) upsert_result(1) [OF laws sat Inr] by (simp add: registry_ok_def)
    have "r \<in> set rows" using upsert_result(2) [OF laws sat Inr] Cons(3) r by auto
    then have "\<exists>db'. upsertDerivatives e meta versionId ds (db\<lparr>rg_derivatives := rows\<rparr>) =
        (db', Inl (DatabaseError UniqueViolation))"
      using Cons(1) [OF ok1 _ d] Cons(5) by simp
    then show ?thesis using Inr by (simp add: table_writes writeTable_def)
  qed
qed simp

lemma upsertManifest_cases:
  assumes "engine_laws e" "registry_ok db" "upsertManifest e versionId scope m db = (db', r)"
  obtains (stored) rows where "r = Inr ()" "db' = db\<lparr>rg_manifests := rows\<rparr>" "registry_ok db'"
      "row_at manifestKeys rows = (row_at manifestKeys (rg_manifests db))
         ([versionId, pm_manifestType m, scope] \<mapsto> createdManifest versionId scope m)"
  | (rejected) "r = Inl (DatabaseError UniqueViolation)" "db' = db"
proof -
  have laws: "table_laws manifestConstraints (re_manifests e)"
    and sat: "satisfies manifestConstraints (rg_manifests db)"
    using assms(1,2) by (simp_all add: engine_laws_def registry_ok_def)
  let ?k = "[versionId, pm_manifestType m, scope]"
  let ?up = "to_upsert (re_manifests e) (\<lambda>r. manifestKeys r = Some ?k) (updatedManifest m)
    (createdManifest versionId scope m) (rg_manifests db)"
  show ?thesis
  proof (cases ?up)
    case (Inl x)
    then show ?thesis using assms(3) upsert_error [OF laws sat Inl] rejected
      by (simp add: upsertManifest_def table_writes writeTable_def)
  next
    case (Inr rows)
    have up: "satisfies manifestConstraints rows"
      "row_at manifestKeys rows = (row_at manifestKeys (rg_manifests db))(?k \<mapsto>
         (case row_at manifestKeys (rg_manifests db) ?k of
            Some r \<Rightarrow> updatedManifest m r | None \<Rightarrow> createdManifest versionId scope m))"
      by (rule upsert_keyed [OF laws sat derivative_constraint(3) _ _ Inr]; simp)+
    have "(case row_at manifestKeys (rg_manifests db) ?k of
        Some r \<Rightarrow> updatedManifest m r | None \<Rightarrow> createdManifest versionId scope m) =
        createdManifest versionId scope m"
      using row_at_Some [OF sat derivative_constraint(3)] updated_is_created(2)
      by (auto split: option.splits)
    then have at: "row_at manifestKeys rows = (row_at manifestKeys (rg_manifests db))
         (?k \<mapsto> createdManifest versionId scope m)" using up(2) by simp
    have db': "r = Inr ()" "db' = db\<lparr>rg_manifests := rows\<rparr>"
      using assms(3) Inr by (simp_all add: upsertManifest_def table_writes writeTable_def)
    moreover have "registry_ok db'" using assms(2) up(1) db'(2) by (simp add: registry_ok_def)
    ultimately show ?thesis using stored at by blast
  qed
qed

lemma durableBegin_cases:
  assumes tx: "transactional tx" and laws: "engine_laws e" and ok: "registry_ok db"
    and run: "durableBegin tx e mapV i db = (db', r)"
  obtains (unknown) "findVersion (bi_versionId i) db = None" "db' = db"
      "r = Inl (VersionNotFoundError (bi_versionId i))"
  | (refused) v where "findVersion (bi_versionId i) db = Some v" "db' = db"
      "vw_lifecycleState v \<notin> {row_canonical, row_processing, row_published}"
      "r = Inl (RowStateError (bi_versionId i) (vw_lifecycleState v) begin_processing)"
  | (unmapped) v err where "findVersion (bi_versionId i) db = Some v" "db' = db" "r = Inl err"
      "vw_lifecycleState v \<in> {row_canonical, row_processing, row_published}"
      "mapV (v\<lparr>vw_lifecycleState := row_processing\<rparr>) = Inl err"
  | (begun) v u where "findVersion (bi_versionId i) db = Some v" "r = Inr u"
      "vw_lifecycleState v \<in> {row_canonical, row_processing, row_published}"
      "mapV (v\<lparr>vw_lifecycleState := row_processing\<rparr>) = Inr u" "registry_ok db'"
      "\<And>k. findVersion k db' = (if k = bi_versionId i
         then Some (v\<lparr>vw_lifecycleState := row_processing\<rparr>) else findVersion k db)"
      "rg_scopes db' = rg_scopes db" "rg_derivatives db' = rg_derivatives db"
      "rg_manifests db' = rg_manifests db" "rg_dispatches db' = rg_dispatches db"
      "rg_runs db' = rg_runs db" "rg_audit db' = rg_audit db"
proof (cases "findVersion (bi_versionId i) db")
  case None
  have "db' = db" "r = Inl (VersionNotFoundError (bi_versionId i))"
    using run tx None by (auto simp: durableBegin_def beginBody_def transactional_def)
  then show ?thesis using unknown [OF None] by blast
next
  case (Some v)
  show ?thesis
  proof (cases "vw_lifecycleState v \<in> {row_canonical, row_processing, row_published}")
    case False
    have "r = Inl (RowStateError (bi_versionId i) (vw_lifecycleState v) begin_processing)" "db' = db"
      using run tx Some False by (auto simp: durableBegin_def beginBody_def transactional_def)
    then show ?thesis using refused [OF Some _ False] by blast
  next
    case True
    let ?set = "if vw_lifecycleState v \<noteq> row_processing
       then setVersionState e DatabaseError (bi_versionId i) row_processing db else ok db ()"
    let ?v = "v\<lparr>vw_lifecycleState := row_processing\<rparr>"
    obtain db1 r1 where st: "?set = (db1, r1)" by (cases ?set)
    have step: "r1 = Inr () \<and> registry_ok db1 \<and>
      (\<forall>k. findVersion k db1 = (if k = bi_versionId i then Some ?v else findVersion k db)) \<and>
      rg_scopes db1 = rg_scopes db \<and> rg_derivatives db1 = rg_derivatives db \<and>
      rg_manifests db1 = rg_manifests db \<and> rg_dispatches db1 = rg_dispatches db \<and>
      rg_runs db1 = rg_runs db \<and> rg_audit db1 = rg_audit db"
    proof (cases "vw_lifecycleState v = row_processing")
      case True
      then show ?thesis using st ok Some by auto
    next
      case False
      then have "setVersionState e DatabaseError (bi_versionId i) row_processing db = (db1, r1)"
        using st by simp
      then show ?thesis
        by (cases rule: setVersionState_cases [OF laws ok]) (use Some in auto)
    qed
    let ?body = "beginBody e mapV i"
    have body: "durableBegin tx e mapV i db = tx ?body db" by (simp add: durableBegin_def)
    have res: "?body db = (db1, mapV ?v)"
      using Some True st step by (auto simp: beginBody_def returning_def)
    show ?thesis
    proof (cases "mapV ?v")
      case (Inl err)
      then have "db' = db" "r = Inl err" using run body tx_aborted [OF tx, of ?body] res by simp_all
      then show ?thesis using unmapped [OF Some _ _ True Inl] by blast
    next
      case (Inr u)
      then have "db' = db1" "r = Inr u" using run body tx_committed [OF tx, of ?body] res by simp_all
      then show ?thesis using begun [OF Some _ True Inr] step by simp
    qed
  qed
qed

lemma durablePublish_cases:
  assumes tx: "transactional tx" and laws: "engine_laws e" and ok: "registry_ok db"
    and run: "durablePublish tx e mapV meta j db = (db', r)"
  obtains (refused) err where "r = Inl err" "db' = db"
  | (published) v u db1 where "findVersion (pi_versionId j) db = Some v" "r = Inr u"
      "vw_lifecycleState v = row_processing \<or> vw_lifecycleState v = row_published"
      "\<exists>s\<in>set (rg_scopes db). sw_id s = pi_deliveryScopeId j \<and> scopeOfVersion v s"
      "mapV (v\<lparr>vw_lifecycleState := row_published\<rparr>) = Inr u" "registry_ok db'"
      "upsertDerivatives e meta (pi_versionId j) (pi_derivatives j) db = (db1, Inr ())"
      "\<And>k. findVersion k db' = (if k = pi_versionId j
         then Some (v\<lparr>vw_lifecycleState := row_published\<rparr>) else findVersion k db)"
      "rg_scopes db' = rg_scopes db" "rg_derivatives db' = rg_derivatives db1"
      "row_at manifestKeys (rg_manifests db') = (row_at manifestKeys (rg_manifests db))
         ([pi_versionId j, pm_manifestType (pi_manifest j), pi_deliveryScopeId j] \<mapsto>
            createdManifest (pi_versionId j) (pi_deliveryScopeId j) (pi_manifest j))"
      "rg_dispatches db' = rg_dispatches db" "rg_runs db' = rg_runs db" "rg_audit db' = rg_audit db"
proof (cases r)
  case (Inl err)
  then have "db' = db"
    using tx_cases [OF tx run [unfolded durablePublish_def]] by (metis sum.distinct(1))
  then show ?thesis using refused Inl by blast
next
  case (Inr u)
  let ?id = "pi_versionId j"
  have body: "publishBody e mapV meta j db = (db', Inr u)"
    using tx_cases [OF tx run [unfolded durablePublish_def]] Inr by (metis sum.distinct(1))
  obtain v s db1 db2 db3 where v: "findVersion ?id db = Some v"
    and st: "vw_lifecycleState v = row_processing \<or> vw_lifecycleState v = row_published"
    and s: "List.find (\<lambda>s. sw_id s = pi_deliveryScopeId j \<and> scopeOfVersion v s) (rg_scopes db) = Some s"
    and d: "upsertDerivatives e meta ?id (pi_derivatives j) db = (db1, Inr ())"
    and m: "upsertManifest e ?id (pi_deliveryScopeId j) (pi_manifest j) db1 = (db2, Inr ())"
    and l: "setVersionState e DatabaseError ?id row_published db2 = (db3, Inr ())"
    and u: "(db3, mapV (v\<lparr>vw_lifecycleState := row_published\<rparr>)) = (db', Inr u)"
    using body unfolding publishBody_def
    by (auto simp: and_then_ok_iff returning_def split: option.splits if_splits)
  note d' = upsertDerivatives_ok [OF laws ok d]
  then have ok1: "registry_ok db1"
    and db1: "db1 = db\<lparr>rg_derivatives := rg_derivatives db1\<rparr>" by blast+
  obtain rows where db2: "db2 = db1\<lparr>rg_manifests := rows\<rparr>" and ok2: "registry_ok db2"
    and rows: "row_at manifestKeys rows = (row_at manifestKeys (rg_manifests db1))
         ([?id, pm_manifestType (pi_manifest j), pi_deliveryScopeId j] \<mapsto>
            createdManifest ?id (pi_deliveryScopeId j) (pi_manifest j))"
    by (cases rule: upsertManifest_cases [OF laws ok1 m]) auto
  have fv: "findVersion k db2 = findVersion k db" for k
    by (subst db2, subst db1) (simp add: findVersion_def)
  obtain v2 where v2: "findVersion ?id db2 = Some v2" and ok3: "registry_ok db3"
    and at: "\<And>k. findVersion k db3 = (if k = ?id then Some (v2\<lparr>vw_lifecycleState := row_published\<rparr>)
         else findVersion k db2)"
    and fr: "rg_scopes db3 = rg_scopes db2" "rg_derivatives db3 = rg_derivatives db2"
      "rg_manifests db3 = rg_manifests db2" "rg_dispatches db3 = rg_dispatches db2"
      "rg_runs db3 = rg_runs db2" "rg_audit db3 = rg_audit db2"
    by (cases rule: setVersionState_cases [OF laws ok2 l]) auto
  have db': "db' = db3" "mapV (v\<lparr>vw_lifecycleState := row_published\<rparr>) = Inr u" using u by simp_all
  have frame: "rg_scopes db1 = rg_scopes db" "rg_manifests db1 = rg_manifests db"
    "rg_dispatches db1 = rg_dispatches db" "rg_runs db1 = rg_runs db" "rg_audit db1 = rg_audit db"
    by (subst db1, simp)+
  have s': "\<exists>s\<in>set (rg_scopes db). sw_id s = pi_deliveryScopeId j \<and> scopeOfVersion v s"
    using s by (auto simp: find_Some_iff)
  show ?thesis
  proof (rule published [OF v Inr st s' db'(2) _ d])
    show "registry_ok db'" using ok3 db' by simp
    show "findVersion k db' = (if k = ?id then Some (v\<lparr>vw_lifecycleState := row_published\<rparr>)
        else findVersion k db)" for k
      using at v v2 fv db' by simp
    show "row_at manifestKeys (rg_manifests db') = (row_at manifestKeys (rg_manifests db))
         ([?id, pm_manifestType (pi_manifest j), pi_deliveryScopeId j] \<mapsto>
            createdManifest ?id (pi_deliveryScopeId j) (pi_manifest j))"
      using rows fr(3) db'(1) frame(2) by (simp add: db2)
  qed (use fr db' frame in \<open>simp_all add: db2\<close>)
qed

text \<open>
  A publication whose derivative has the deterministic key of a row of another scope is refused, and
  leaves the database as it was; when nothing else stops it, the cause is the unique constraint.
\<close>

lemma durablePublish_conflict:
  assumes tx: "transactional tx" and laws: "engine_laws e" and ok: "registry_ok db"
    and row: "row \<in> set (rg_derivatives db)" "d \<in> set (pi_derivatives j)"
      "dw_deterministicKey row = pd_deterministicKey d"
      "\<forall>x\<in>set (pi_derivatives j). pd_deliveryScopeId x \<noteq> dw_deliveryScopeId row"
  shows "\<exists>err. durablePublish tx e mapV meta j db = (db, Inl err)"
    and "findVersion (pi_versionId j) db = Some v \<Longrightarrow>
      vw_lifecycleState v = row_processing \<or> vw_lifecycleState v = row_published \<Longrightarrow>
      sc \<in> set (rg_scopes db) \<Longrightarrow> sw_id sc = pi_deliveryScopeId j \<Longrightarrow> scopeOfVersion v sc \<Longrightarrow>
      durablePublish tx e mapV meta j db = (db, Inl (DatabaseError UniqueViolation))"
proof -
  obtain db1 where up: "upsertDerivatives e meta (pi_versionId j) (pi_derivatives j) db =
      (db1, Inl (DatabaseError UniqueViolation))"
    using upsertDerivatives_conflict [OF laws ok row] by blast
  obtain db' r where run: "durablePublish tx e mapV meta j db = (db', r)"
    by (cases "durablePublish tx e mapV meta j db")
  from tx laws ok run show "\<exists>err. durablePublish tx e mapV meta j db = (db, Inl err)"
  proof (cases rule: durablePublish_cases)
    case (refused err)
    then show ?thesis using run by blast
  next
    case (published v u db1)
    then show ?thesis using up by simp
  qed
  show "durablePublish tx e mapV meta j db = (db, Inl (DatabaseError UniqueViolation))"
    if v: "findVersion (pi_versionId j) db = Some v"
      "vw_lifecycleState v = row_processing \<or> vw_lifecycleState v = row_published"
      and sc: "sc \<in> set (rg_scopes db)" "sw_id sc = pi_deliveryScopeId j" "scopeOfVersion v sc"
  proof -
    obtain sc' where "List.find (\<lambda>s. sw_id s = pi_deliveryScopeId j \<and> scopeOfVersion v s)
        (rg_scopes db) = Some sc'"
      using sc by (cases "List.find (\<lambda>s. sw_id s = pi_deliveryScopeId j \<and> scopeOfVersion v s)
        (rg_scopes db)") (auto simp: find_None_iff)
    then have "publishBody e mapV meta j db = (db1, Inl (DatabaseError UniqueViolation))"
      using v up by (auto simp: publishBody_def)
    then show ?thesis using tx_aborted [OF tx] by (simp add: durablePublish_def)
  qed
qed

lemma mapMetadata_created:
  assumes "pd_assetVersionId d = versionId" "\<forall>m. pd_metadata d = Some m \<longrightarrow> null_free (JObj m)"
  shows "mapMetadataDerivative
    ((createdDerivative metadataColumn versionId d)\<lparr>dw_metadata := metadataColumn d old\<rparr>) = d"
  using assms toJsonValue_id
  by (cases "pd_metadata d")
    (auto simp: mapMetadataDerivative_def createdDerivative_def metadataColumn_def asRecord_def
      simp del: toJsonValue.simps)

lemma mapManifest_created:
  assumes "pm_assetVersionId m = versionId" "pm_deliveryScopeId m = scope"
    "pm_manifestPayload m = JObj kvs" "null_free (JObj kvs)"
  shows "mapManifest (createdManifest versionId scope m) = m"
  using assms toJsonValue_id [OF assms(4)]
  by (simp add: mapManifest_def createdManifest_def asRecord_def del: toJsonValue.simps)

lemma mapSource_ok: "is_ok (mapSourceVersion r) \<longleftrightarrow>
    truthy_str (vw_canonicalLogicalPath r) \<and> truthy_str (vw_canonicalSourceId r)"
  by (cases "vw_canonicalLogicalPath r"; cases "vw_canonicalSourceId r")
    (auto simp: mapSourceVersion_def keep_str_def)

lemma js_parseInt_padded: "js_parseInt (pad_zero w (nat_digits n)) = Some (js_Number (int n))"
proof -
  obtain k ds where d: "nat_digits n = digit_char k # ds" "k < 10" using nat_digits_head by blast
  have z: "CHR ''0'' = digit_char 0" by code_simp
  have "\<exists>k cs. pad_zero w (nat_digits n) = digit_char k # cs \<and> k < 10"
    using d z by (cases "w - length (nat_digits n)") (auto simp: pad_zero_def)
  then obtain k cs where p: "pad_zero w (nat_digits n) = digit_char k # cs" "k < 10" by blast
  have sp: "\<not> js_space (digit_char k)" "digit_char k \<noteq> CHR ''-''" "digit_char k \<noteq> CHR ''+''"
    using digit_value_char [OF p(2)] by (auto simp: js_space_def digit_value_def)
  have "parse_digits 0 (digit_char k # cs) = (n, [])" using padded_value p(1) by metis
  then show ?thesis unfolding p(1)
    using sp digit_value_char [OF p(2)] by (simp add: js_parseInt_def js_trim_start_def)
qed

section \<open>Examples\<close>

definition exampleVersionRow :: version_row where
  "exampleVersionRow =
     \<lparr>vw_id = ''ver'', vw_assetId = ''ast'', vw_versionNumber = 1,
      vw_lifecycleState = row_canonical, vw_sourceFilename = ''a.png'',
      vw_detectedContentType = ''image/png'', vw_sourceByteLength = 7,
      vw_sourceChecksumValue = ''abc'', vw_repositoryEngine = Some engine_xet,
      vw_canonicalSourceId = Some ''src'', vw_canonicalSnapshotId = Some ''snap'',
      vw_canonicalLogicalPath = Some ''media/a'', vw_canonicalDigestSet = None,
      vw_canonicalLogicalByteLength = None, vw_canonicalStoredByteLength = None,
      vw_dedupeMetrics = None, vw_sourceReconstructionHandles = None,
      vw_sourceSubstrateHints = None, vw_namespaceRowId = ''n1'',
      vw_serviceNamespaceId = ''media'', vw_tenantScopeId = None\<rparr>"

definition exampleScopeRow :: "string \<Rightarrow> scope_row" where
  "exampleScopeRow k =
     \<lparr>sw_id = k, sw_serviceNamespaceId = ''n1'', sw_tenantScopeId = None, sw_scopeKey = k\<rparr>"

definition exampleDb :: "row_state \<Rightarrow> registry_db" where
  "exampleDb st =
     \<lparr>rg_versions = [exampleVersionRow\<lparr>vw_lifecycleState := st\<rparr>],
      rg_scopes = [exampleScopeRow ''eu'', exampleScopeRow ''us''],
      rg_derivatives = [], rg_manifests = [], rg_dispatches = [], rg_runs = [], rg_audit = []\<rparr>"

definition durableJob :: "string \<Rightarrow> metadata_derivative publish_input" where
  "durableJob scope = (examplePublish scope)\<lparr>pi_derivatives := [exampleDerivative scope ''k1'']\<rparr>"

lemma exampleDb_ok: "registry_ok (exampleDb st)"
  by (simp add: registry_ok_def exampleDb_def satisfies_def versionConstraints_def
      derivativeConstraints_def manifestConstraints_def dispatchConstraints_def
      runConstraints_def List.map_filter_simps exampleVersionRow_def)

lemma example_publish_durably:
  "is_ok (snd (durablePublishImage listTransaction listEngine (durableJob ''eu'')
     (exampleDb row_processing)))"
  by (simp add: durablePublishImage_def durablePublish_def listTransaction_def publishBody_def
      exampleDb_def exampleVersionRow_def exampleScopeRow_def durableJob_def examplePublish_def
      exampleDerivative_def findVersion_def row_at_def scopeOfVersion_def listEngine_def
      listTable_def checkWrite_def table_writes writeTable_def upsertManifest_def
      setVersionState_def satisfies_def versionConstraints_def derivativeConstraints_def
      manifestConstraints_def List.map_filter_simps change_rows_def returning_def
      mapSourceVersion_def keep_str_def derivativeKeys_def deterministicKeys_def)

section \<open>Properties\<close>

text \<open>C26. What a durable publication makes visible, and that it changes nothing else. Take a publication
  that succeeds, whose derivatives and manifest name its version and scope, whose derivatives have
  distinct keys, and whose metadata and manifest payload hold no JSON null, which the column conversion
  would turn into a string. The row of the version is what it was with the state \<open>published\<close>, and every
  other version is as before. The manifest is read back as it was given, and the manifest under every
  other key is as before. Every derivative is listed as it was given, and every row under another key of
  version, scope, recipe, schema and variant is there exactly when it was before. The delivery scopes,
  the dispatches, the runs and the audit log are as they were.\<close>

theorem durable_publication_visible:
  assumes "engine_laws e" "transactional tx" "registry_ok db"
    and "durablePublishImage tx e j db = (db', Inr u)"
    and "distinct (map (derivativeKeyIn (pi_versionId j)) (pi_derivatives j))"
    and "\<forall>d\<in>set (pi_derivatives j). pd_assetVersionId d = pi_versionId j \<and>
      pd_deliveryScopeId d = pi_deliveryScopeId j \<and>
      (\<forall>m. pd_metadata d = Some m \<longrightarrow> null_free (JObj m))"
    and "pm_assetVersionId (pi_manifest j) = pi_versionId j"
      "pm_deliveryScopeId (pi_manifest j) = pi_deliveryScopeId j"
      "pm_manifestPayload (pi_manifest j) = JObj kvs" "null_free (JObj kvs)"
  shows "registry_ok db' \<and>
    (\<exists>v. findVersion (pi_versionId j) db = Some v \<and>
       (\<forall>k. findVersion k db' =
         (if k = pi_versionId j then Some (v\<lparr>vw_lifecycleState := row_published\<rparr>)
          else findVersion k db))) \<and>
    durableReadManifest (pi_versionId j) (pm_manifestType (pi_manifest j)) (pi_deliveryScopeId j) db' =
      Some (pi_manifest j) \<and>
    (\<forall>k. k \<noteq> [pi_versionId j, pm_manifestType (pi_manifest j), pi_deliveryScopeId j] \<longrightarrow>
       row_at manifestKeys (rg_manifests db') k = row_at manifestKeys (rg_manifests db) k) \<and>
    set (pi_derivatives j) \<subseteq>
      set (durableListDerivatives collate mapMetadataDerivative (pi_versionId j) db') \<and>
    (\<forall>r. derivativeKeys r \<notin> (\<lambda>d. Some (derivativeKeyIn (pi_versionId j) d)) ` set (pi_derivatives j) \<longrightarrow>
       r \<in> set (rg_derivatives db') \<longleftrightarrow> r \<in> set (rg_derivatives db)) \<and>
    rg_scopes db' = rg_scopes db \<and> rg_dispatches db' = rg_dispatches db \<and>
    rg_runs db' = rg_runs db \<and> rg_audit db' = rg_audit db"
  using assms(2,1,3) assms(4) [unfolded durablePublishImage_def]
proof (cases rule: durablePublish_cases)
  case (published v w db1)
  note up = upsertDerivatives_ok [OF assms(1,3) published(7)]
  have "durableReadManifest (pi_versionId j) (pm_manifestType (pi_manifest j))
      (pi_deliveryScopeId j) db' = Some (pi_manifest j)"
    using published(11) mapManifest_created [OF assms(7-10)] by (simp add: durableReadManifest_def)
  moreover have "d \<in> set (durableListDerivatives collate mapMetadataDerivative (pi_versionId j) db')"
    if d: "d \<in> set (pi_derivatives j)" for d
  proof -
    obtain old where row: "(createdDerivative metadataColumn (pi_versionId j) d)
        \<lparr>dw_metadata := metadataColumn d old\<rparr> \<in> set (rg_derivatives db1)" (is "?row \<in> _")
      using up assms(5) d by blast
    have "mapMetadataDerivative ?row = d" using mapMetadata_created assms(6) d by simp
    moreover have "dw_assetVersionId ?row = pi_versionId j" "dw_published ?row"
      by (simp_all add: createdDerivative_def)
    ultimately show ?thesis using row published(10)
      unfolding durableListDerivatives_def by (force intro!: image_eqI [of _ _ ?row])
  qed
  moreover have "row_at manifestKeys (rg_manifests db') k = row_at manifestKeys (rg_manifests db) k"
    if "k \<noteq> [pi_versionId j, pm_manifestType (pi_manifest j), pi_deliveryScopeId j]" for k
    using that published(11) by simp
  moreover have "r \<in> set (rg_derivatives db') \<longleftrightarrow> r \<in> set (rg_derivatives db)"
    if "derivativeKeys r \<notin> (\<lambda>d. Some (derivativeKeyIn (pi_versionId j) d)) ` set (pi_derivatives j)" for r
    using that up published(10) by simp
  moreover have "\<exists>v. findVersion (pi_versionId j) db = Some v \<and>
      (\<forall>k. findVersion k db' = (if k = pi_versionId j then Some (v\<lparr>vw_lifecycleState := row_published\<rparr>)
        else findVersion k db))"
    using published(1,8) by blast
  ultimately show ?thesis using published(6,9,12-14) by (intro conjI allI impI subsetI) blast+
qed simp

theorem durable_publication_visible_witness:
  "\<exists>db' u. durablePublishImage listTransaction listEngine (durableJob ''eu'') (exampleDb row_processing) =
     (db', Inr u) \<and>
     exampleDerivative ''eu'' ''k1'' \<in>
       set (durableListDerivatives codeUnitCompare mapMetadataDerivative ''ver'' db') \<and>
     findVersion ''ver'' db' = Some (exampleVersionRow\<lparr>vw_lifecycleState := row_published\<rparr>)"
proof -
  obtain db' u where run: "durablePublishImage listTransaction listEngine (durableJob ''eu'')
      (exampleDb row_processing) = (db', Inr u)"
    using example_publish_durably
    by (cases "durablePublishImage listTransaction listEngine (durableJob ''eu'')
      (exampleDb row_processing)"; cases "snd (durablePublishImage listTransaction listEngine
      (durableJob ''eu'') (exampleDb row_processing))") auto
  have j: "pi_versionId (durableJob ''eu'') = ''ver''"
    "pi_derivatives (durableJob ''eu'') = [exampleDerivative ''eu'' ''k1'']"
    by (simp_all add: durableJob_def examplePublish_def)
  have found: "findVersion ''ver'' (exampleDb row_processing) =
      Some (exampleVersionRow\<lparr>vw_lifecycleState := row_processing\<rparr>)"
    by (simp add: findVersion_def row_at_def exampleDb_def exampleVersionRow_def)
  have "set (pi_derivatives (durableJob ''eu'')) \<subseteq> set (durableListDerivatives codeUnitCompare
      mapMetadataDerivative (pi_versionId (durableJob ''eu'')) db') \<and>
    (\<exists>v. findVersion (pi_versionId (durableJob ''eu'')) (exampleDb row_processing) = Some v \<and>
       (\<forall>k. findVersion k db' = (if k = pi_versionId (durableJob ''eu'')
         then Some (v\<lparr>vw_lifecycleState := row_published\<rparr>) else findVersion k (exampleDb row_processing))))"
    using durable_publication_visible [OF listEngine_laws listTransaction_laws exampleDb_ok run,
        of "[]" codeUnitCompare]
    by (simp add: durableJob_def examplePublish_def exampleDerivative_def)
  then show ?thesis using run found by (auto simp: j)
qed

text \<open>A version published to one delivery scope cannot be published to another with the same object
  keys: derivatives are identified per scope, but their deterministic key, which does not name the
  scope, is unique in the schema. The second publication is always refused and changes nothing; when
  its scope is available, the unique constraint is what refuses it.\<close>

theorem durable_second_scope_refused:
  assumes "engine_laws e" "transactional tx" "registry_ok db"
    and first: "durablePublishImage tx e j db = (db1, Inr u)"
    and "distinct (map (derivativeKeyIn (pi_versionId j)) (pi_derivatives j))"
      "\<forall>d\<in>set (pi_derivatives j). pd_deliveryScopeId d = pi_deliveryScopeId j"
    and second: "\<forall>d\<in>set (pi_derivatives j'). pd_deliveryScopeId d = pi_deliveryScopeId j'"
      "pi_deliveryScopeId j' \<noteq> pi_deliveryScopeId j" "pi_versionId j' = pi_versionId j"
    and shared: "d \<in> set (pi_derivatives j)" "d' \<in> set (pi_derivatives j')"
      "pd_deterministicKey d' = pd_deterministicKey d"
  shows "(\<exists>err. durablePublishImage tx e j' db1 = (db1, Inl err)) \<and>
    (\<forall>v sc. findVersion (pi_versionId j') db = Some v \<and> sc \<in> set (rg_scopes db) \<and>
       sw_id sc = pi_deliveryScopeId j' \<and> scopeOfVersion v sc \<longrightarrow>
       durablePublishImage tx e j' db1 = (db1, Inl (DatabaseError UniqueViolation)))"
  using assms(2,1,3) first [unfolded durablePublishImage_def]
proof (cases rule: durablePublish_cases)
  case (published v w db2)
  note up = upsertDerivatives_ok [OF assms(1,3) published(7)]
  obtain old where row: "(createdDerivative metadataColumn (pi_versionId j) d)
      \<lparr>dw_metadata := metadataColumn d old\<rparr> \<in> set (rg_derivatives db1)" (is "?row \<in> _")
    using up assms(5) shared(1) published(10) by auto
  have key: "dw_deterministicKey ?row = pd_deterministicKey d'"
    "\<forall>x\<in>set (pi_derivatives j'). pd_deliveryScopeId x \<noteq> dw_deliveryScopeId ?row"
    using shared second(1,2) assms(6) by (simp_all add: createdDerivative_def)
  note conflict = durablePublish_conflict [where mapV = mapSourceVersion and meta = metadataColumn,
      OF assms(2,1) published(6) row shared(2) key, folded durablePublishImage_def]
  have "durablePublishImage tx e j' db1 = (db1, Inl (DatabaseError UniqueViolation))"
    if "findVersion (pi_versionId j') db = Some v'" "sc \<in> set (rg_scopes db)"
      "sw_id sc = pi_deliveryScopeId j'" "scopeOfVersion v' sc" for v' sc
    using conflict(2) [of "v\<lparr>vw_lifecycleState := row_published\<rparr>" sc] that published(1,8,9) second(3)
    by (simp add: scopeOfVersion_def)
  then show ?thesis using conflict(1) by blast
qed simp

theorem durable_second_scope_refused_witness:
  "\<exists>db1. is_ok (snd (durablePublishImage listTransaction listEngine (durableJob ''eu'')
       (exampleDb row_processing))) \<and>
     fst (durablePublishImage listTransaction listEngine (durableJob ''eu'')
       (exampleDb row_processing)) = db1 \<and>
     durablePublishImage listTransaction listEngine (durableJob ''us'') db1 =
       (db1, Inl (DatabaseError UniqueViolation))"
proof -
  obtain db1 u where run: "durablePublishImage listTransaction listEngine (durableJob ''eu'')
      (exampleDb row_processing) = (db1, Inr u)"
    using example_publish_durably
    by (cases "durablePublishImage listTransaction listEngine (durableJob ''eu'')
      (exampleDb row_processing)"; cases "snd (durablePublishImage listTransaction listEngine
      (durableJob ''eu'') (exampleDb row_processing))") auto
  let ?v = "exampleVersionRow\<lparr>vw_lifecycleState := row_processing\<rparr>"
  have v: "findVersion ''ver'' (exampleDb row_processing) = Some ?v"
    by (simp add: findVersion_def row_at_def exampleDb_def exampleVersionRow_def)
  have sc: "exampleScopeRow ''us'' \<in> set (rg_scopes (exampleDb row_processing))"
    "sw_id (exampleScopeRow ''us'') = ''us''" "scopeOfVersion ?v (exampleScopeRow ''us'')"
    by (simp_all add: exampleDb_def exampleScopeRow_def scopeOfVersion_def exampleVersionRow_def)
  have "durablePublishImage listTransaction listEngine (durableJob ''us'') db1 =
      (db1, Inl (DatabaseError UniqueViolation))"
    using durable_second_scope_refused [OF listEngine_laws listTransaction_laws exampleDb_ok run,
        of "durableJob ''us''" "exampleDerivative ''eu'' ''k1''" "exampleDerivative ''us'' ''k1''"] v sc
    by (auto simp: durableJob_def examplePublish_def exampleDerivative_def)
  then show ?thesis using run by simp
qed

text \<open>Durable publication calls are atomic: a refused \<open>begin\<close> or \<open>publish\<close> leaves the registry as it
  was, an accepted one keeps every unique constraint of the schema, and neither touches the delivery
  scopes, the dispatches, the runs or the audit log.\<close>

theorem durable_publication_atomic:
  assumes "engine_laws e" "transactional tx" "transactional tx'" "registry_ok db"
    and "durableBegin tx e mapV i db = (db1, r1)"
    and "durablePublish tx' e mapV' meta j db = (db2, r2)"
  shows "registry_ok db1 \<and> (is_ok r1 \<or> db1 = db) \<and> rg_scopes db1 = rg_scopes db \<and>
    rg_dispatches db1 = rg_dispatches db \<and> rg_runs db1 = rg_runs db \<and> rg_audit db1 = rg_audit db \<and>
    registry_ok db2 \<and> (is_ok r2 \<or> db2 = db) \<and> rg_scopes db2 = rg_scopes db \<and>
    rg_dispatches db2 = rg_dispatches db \<and> rg_runs db2 = rg_runs db \<and> rg_audit db2 = rg_audit db"
proof -
  from assms(2,1,4,5) have "registry_ok db1 \<and> (is_ok r1 \<or> db1 = db) \<and>
    rg_scopes db1 = rg_scopes db \<and> rg_dispatches db1 = rg_dispatches db \<and>
    rg_runs db1 = rg_runs db \<and> rg_audit db1 = rg_audit db"
    by (cases rule: durableBegin_cases) (use assms(4) in auto)
  moreover from assms(3,1,4,6) have "registry_ok db2 \<and> (is_ok r2 \<or> db2 = db) \<and>
    rg_scopes db2 = rg_scopes db \<and> rg_dispatches db2 = rg_dispatches db \<and>
    rg_runs db2 = rg_runs db \<and> rg_audit db2 = rg_audit db"
    by (cases rule: durablePublish_cases) (use assms(4) in auto)
  ultimately show ?thesis by blast
qed

theorem durable_publication_atomic_witness:
  "registry_ok (fst (durableBeginImage listTransaction listEngine exampleBegin (exampleDb row_purged)))"
  using durable_publication_atomic [OF listEngine_laws listTransaction_laws listTransaction_laws
      exampleDb_ok surjective_pairing surjective_pairing]
  unfolding durableBeginImage_def by blast

text \<open>Durable publication begins exactly from \<open>canonical\<close>, \<open>processing\<close> and \<open>published\<close>, for a version
  with a logical path and a canonical source; so a run that stopped half-way can begin again, which
  the in-memory stores refuse, but a version in \<open>failed_retryable\<close> cannot.\<close>

theorem durable_begin_accepts:
  assumes "engine_laws e" "transactional tx" "registry_ok db"
    and "durableBeginImage tx e i db = (db', r)"
  shows "(is_ok r \<longleftrightarrow> (\<exists>v. findVersion (bi_versionId i) db = Some v \<and>
       vw_lifecycleState v \<in> {row_canonical, row_processing, row_published} \<and>
       truthy_str (vw_canonicalLogicalPath v) \<and> truthy_str (vw_canonicalSourceId v))) \<and>
    (is_ok r \<longrightarrow> (\<forall>i'. bi_versionId i' = bi_versionId i \<longrightarrow>
       is_ok (snd (durableBeginImage tx e i' db'))))"
proof -
  have iff: "is_ok r \<longleftrightarrow> (\<exists>v. findVersion (bi_versionId i) db = Some v \<and>
       vw_lifecycleState v \<in> {row_canonical, row_processing, row_published} \<and>
       truthy_str (vw_canonicalLogicalPath v) \<and> truthy_str (vw_canonicalSourceId v))"
    if ok: "registry_ok db" and run: "durableBeginImage tx e i db = (db', r)" for i db db' r
  proof -
    have m: "is_ok (mapSourceVersion (v\<lparr>vw_lifecycleState := st\<rparr>)) \<longleftrightarrow>
        truthy_str (vw_canonicalLogicalPath v) \<and> truthy_str (vw_canonicalSourceId v)" for v st
      by (simp add: mapSource_ok)
    from assms(2,1) ok run [unfolded durableBeginImage_def] show ?thesis
    proof (cases rule: durableBegin_cases)
      case (unmapped v err)
      then show ?thesis using m [of row_processing v] by simp
    next
      case (begun v u)
      then show ?thesis using m [of row_processing v] by simp
    qed simp_all
  qed
  have "is_ok (snd (durableBeginImage tx e i' db'))"
    if okr: "is_ok r" and i': "bi_versionId i' = bi_versionId i" for i'
    using assms(2,1,3) assms(4) [unfolded durableBeginImage_def]
  proof (cases rule: durableBegin_cases)
    case (begun v u)
    have "truthy_str (vw_canonicalLogicalPath v) \<and> truthy_str (vw_canonicalSourceId v)"
      using iff [OF assms(3,4)] okr begun(1) by auto
    then show ?thesis using iff [OF begun(5) surjective_pairing, of i'] begun(6) i' by auto
  qed (use okr in simp_all)
  then show ?thesis using iff [OF assms(3,4)] by blast
qed

theorem durable_begin_accepts_witness:
  "\<not> is_ok (snd (durableBeginImage listTransaction listEngine exampleBegin
       (exampleDb row_failed_retryable))) \<and>
   is_ok (snd (durableBeginImage listTransaction listEngine exampleBegin (exampleDb row_processing)))"
  using durable_begin_accepts [OF listEngine_laws listTransaction_laws exampleDb_ok
      surjective_pairing, of exampleBegin row_failed_retryable]
    durable_begin_accepts [OF listEngine_laws listTransaction_laws exampleDb_ok
      surjective_pairing, of exampleBegin row_processing]
  by (simp add: findVersion_def row_at_def exampleDb_def exampleVersionRow_def exampleBegin_def)

text \<open>The page of a slide survives its row: the durable store keeps no page number, and reads it back
  from the variant key \<open>slide-NNN\<close> that the workflow formed from it, with or without padding.\<close>

theorem slide_page_roundtrip:
  assumes "0 \<le> p" "p \<le> 2 ^ 53"
    and "pd_recipeId d = ''slide-images''" "pd_variantKey d = deriveSlideVariantKey p"
      "pd_pageNumber d = Some p"
  shows "mapPageDerivative (createdDerivative untouchedMetadata (pd_assetVersionId d) d) = d"
proof -
  have "js_parseInt (dropSlidePrefix (deriveSlideVariantKey p)) = Some p"
    using js_parseInt_padded [of 3 "nat p"] assms(1,2) js_Number_exact [of p]
    by (simp add: dropSlidePrefix_def deriveSlideVariantKey_def int_text_def)
  then show ?thesis using assms(3-5)
    by (simp add: mapPageDerivative_def createdDerivative_def)
qed

theorem slide_page_roundtrip_witness:
  "mapPageDerivative (createdDerivative untouchedMetadata ''ver''
     (derivative_record.extend (derivative_record.truncate (exampleDerivative ''eu'' ''k''))
        \<lparr>pd_pageNumber = Some 7\<rparr>
        \<lparr>pd_recipeId := ''slide-images'', pd_variantKey := deriveSlideVariantKey 7\<rparr>)) =
   derivative_record.extend (derivative_record.truncate (exampleDerivative ''eu'' ''k''))
     \<lparr>pd_pageNumber = Some 7\<rparr>
     \<lparr>pd_recipeId := ''slide-images'', pd_variantKey := deriveSlideVariantKey 7\<rparr>"
  using slide_page_roundtrip [of 7 "derivative_record.extend
     (derivative_record.truncate (exampleDerivative ''eu'' ''k'')) \<lparr>pd_pageNumber = Some 7\<rparr>
     \<lparr>pd_recipeId := ''slide-images'', pd_variantKey := deriveSlideVariantKey 7\<rparr>"]
  by (simp add: derivative_record.defs exampleDerivative_def)

end
