(* ===== verification/Worker_Runtime.thy ===== *)
theory Worker_Runtime
  imports Durable_Publication Dispatch_Runtime
begin

text \<open>
  The worker: the workflow-run projection \<open>packages/registry/src/workflow-execution-store.ts\<close> over the
  durable registry (\<open>prisma-workflow-execution-store.ts\<close>) and
  \<open>apps/workers/src/publication-worker-runtime.ts\<close>, which runs the publication workflow of the
  template once per delivery scope. The worker takes its stores, processors and object store as
  options, as in the code; the name and message of an error object are the parameter \<open>describe\<close>.
\<close>

section \<open>The projection of workflow runs\<close>

record running_input =
  ru_assetVersionId :: string
  ru_currentPhase :: "string option"
  ru_dispatchId :: "string option"
  ru_observedAt :: int
  ru_workflowId :: string
  ru_workflowTemplateId :: string

record completed_input =
  co_assetVersionId :: string
  co_completedAt :: int
  co_currentPhase :: "string option"
  co_workflowId :: string
  co_workflowTemplateId :: string

record run_failed_input =
  rf_assetVersionId :: string
  rf_currentPhase :: "string option"
  rf_failedAt :: int
  rf_failureClass :: string
  rf_retrySummary :: "json_record option"
  rf_workflowId :: string
  rf_workflowTemplateId :: string

type_synonym unit_tx = "(registry_db \<Rightarrow> (registry_db, db_error, unit) outcome) \<Rightarrow> registry_db
  \<Rightarrow> (registry_db, db_error, unit) outcome"

definition upsertRun ::
  "registry_engine \<Rightarrow> string \<Rightarrow> (run_row \<Rightarrow> run_row) \<Rightarrow> (run_row \<Rightarrow> run_row) \<Rightarrow> registry_db
     \<Rightarrow> (registry_db, db_error, unit) outcome" where
  "upsertRun e workflowId update create db =
     onRuns id
       (to_upsert (re_runs e) (\<lambda>r. r_workflowId r = workflowId) update (create (newRunRow e db))) db"

definition auditWorkflow ::
  "registry_engine \<Rightarrow> string \<Rightarrow> string \<Rightarrow> string \<Rightarrow> json \<Rightarrow> registry_db
     \<Rightarrow> (registry_db, db_error, unit) outcome" where
  "auditWorkflow e assetVersionId workflowId eventType payload =
     onAudit id
       (to_create (re_audit e)
          \<lparr>aw_actorType = actor_system, aw_actorId = None,
           aw_assetVersionId = Some assetVersionId, aw_workflowDispatchId = None,
           aw_correlationId = Some workflowId, aw_eventType = eventType, aw_reason = None,
           aw_payload = payload\<rparr>)"

definition markRunning ::
  "unit_tx \<Rightarrow> registry_engine \<Rightarrow> running_input \<Rightarrow> registry_db
     \<Rightarrow> (registry_db, db_error, unit) outcome" where
  "markRunning tx e input =
     tx (\<lambda>db.
       and_then
         (upsertRun e (ru_workflowId input)
            (\<lambda>r. r\<lparr>r_assetVersionId := ru_assetVersionId input,
                   r_currentPhase := ru_currentPhase input,
                   r_startedAt := Some (ru_observedAt input), r_state := run_running,
                   r_updatedAt := ru_observedAt input,
                   r_workflowDispatchId := ru_dispatchId input,
                   r_workflowTemplateId := ru_workflowTemplateId input\<rparr>)
            (\<lambda>r. r\<lparr>r_assetVersionId := ru_assetVersionId input,
                   r_currentPhase := ru_currentPhase input,
                   r_startedAt := Some (ru_observedAt input), r_state := run_running,
                   r_updatedAt := ru_observedAt input,
                   r_workflowDispatchId := ru_dispatchId input,
                   r_workflowId := ru_workflowId input,
                   r_workflowTemplateId := ru_workflowTemplateId input\<rparr>) db)
         (\<lambda>db _. auditWorkflow e (ru_assetVersionId input) (ru_workflowId input)
            ''workflow-run-running''
            (JObj [(''currentPhase'', JStr (nullish (ru_currentPhase input) ''running'')),
                   (''workflowId'', JStr (ru_workflowId input)),
                   (''workflowTemplateId'', JStr (ru_workflowTemplateId input))]) db))"

definition markCompleted ::
  "unit_tx \<Rightarrow> registry_engine \<Rightarrow> completed_input \<Rightarrow> registry_db
     \<Rightarrow> (registry_db, db_error, unit) outcome" where
  "markCompleted tx e input =
     tx (\<lambda>db.
       and_then
         (upsertRun e (co_workflowId input)
            (\<lambda>r. r\<lparr>r_assetVersionId := co_assetVersionId input,
                   r_completedAt := Some (co_completedAt input),
                   r_currentPhase := co_currentPhase input, r_state := run_completed,
                   r_updatedAt := co_completedAt input,
                   r_workflowTemplateId := co_workflowTemplateId input\<rparr>)
            (\<lambda>r. r\<lparr>r_assetVersionId := co_assetVersionId input,
                   r_completedAt := Some (co_completedAt input),
                   r_currentPhase := co_currentPhase input,
                   r_startedAt := Some (co_completedAt input), r_state := run_completed,
                   r_updatedAt := co_completedAt input, r_workflowId := co_workflowId input,
                   r_workflowTemplateId := co_workflowTemplateId input\<rparr>) db)
         (\<lambda>db _. auditWorkflow e (co_assetVersionId input) (co_workflowId input)
            ''workflow-run-completed''
            (JObj [(''currentPhase'', JStr (nullish (co_currentPhase input) ''completed'')),
                   (''workflowId'', JStr (co_workflowId input)),
                   (''workflowTemplateId'', JStr (co_workflowTemplateId input))]) db))"

text \<open>The summary column: an object is stored as its JSON value, nothing as a JSON null.\<close>

definition summaryColumn :: "json_record option \<Rightarrow> json_record option" where
  "summaryColumn s =
     (case s of None \<Rightarrow> None | Some kvs \<Rightarrow> asRecord (toJsonValue (JObj kvs)))"

definition markFailedRetryable ::
  "unit_tx \<Rightarrow> registry_engine \<Rightarrow> run_failed_input \<Rightarrow> registry_db
     \<Rightarrow> (registry_db, db_error, unit) outcome" where
  "markFailedRetryable tx e input =
     tx (\<lambda>db.
       and_then (setVersionState e id (rf_assetVersionId input) row_failed_retryable db) (\<lambda>db _.
       and_then
         (upsertRun e (rf_workflowId input)
            (\<lambda>r. r\<lparr>r_assetVersionId := rf_assetVersionId input,
                   r_completedAt := Some (rf_failedAt input),
                   r_currentPhase := rf_currentPhase input,
                   r_retrySummary := summaryColumn (rf_retrySummary input),
                   r_state := run_failed, r_updatedAt := rf_failedAt input,
                   r_workflowTemplateId := rf_workflowTemplateId input\<rparr>)
            (\<lambda>r. r\<lparr>r_assetVersionId := rf_assetVersionId input,
                   r_completedAt := Some (rf_failedAt input),
                   r_currentPhase := rf_currentPhase input,
                   r_retrySummary := summaryColumn (rf_retrySummary input),
                   r_startedAt := Some (rf_failedAt input), r_state := run_failed,
                   r_updatedAt := rf_failedAt input, r_workflowId := rf_workflowId input,
                   r_workflowTemplateId := rf_workflowTemplateId input\<rparr>) db)
         (\<lambda>db _. auditWorkflow e (rf_assetVersionId input) (rf_workflowId input)
            ''workflow-run-failed''
            (toJsonValue
              (JObj [(''currentPhase'', JStr (nullish (rf_currentPhase input) ''failed'')),
                     (''failureClass'', JStr (rf_failureClass input)),
                     (''retrySummary'', JObj (nullish (rf_retrySummary input) [])),
                     (''workflowId'', JStr (rf_workflowId input)),
                     (''workflowTemplateId'', JStr (rf_workflowTemplateId input))])) db)))"

section \<open>The worker\<close>

record execution_request =
  xq_workflow :: execution_input
  xq_workflowId :: string

record worker_result =
  wk_deliveryScopeIds :: "string list"
  wk_workflowId :: string
  wk_workflowTemplateId :: string

datatype worker_error =
  WorkerTemplateNotSupported string
| WorkerTargetsNotConfigured string
| WorkerWorkflowFailed workflow_error
| WorkerProjectionFailed db_error

type_synonym ('s, 'v, 'd) store_calls =
  "(begin_input \<Rightarrow> 's \<Rightarrow> ('s, publication_error, 'v) outcome) \<times>
   ('d publish_input \<Rightarrow> 's \<Rightarrow> ('s, publication_error, 'v) outcome)"

record ('s, 'w) worker_options =
  wo_publishObject :: "('w, publish_object_input, publish_object_result) activity"
  wo_markRunning :: "running_input \<Rightarrow> 's \<Rightarrow> ('s, db_error, unit) outcome"
  wo_markCompleted :: "completed_input \<Rightarrow> 's \<Rightarrow> ('s, db_error, unit) outcome"
  wo_markFailedRetryable :: "run_failed_input \<Rightarrow> 's \<Rightarrow> ('s, db_error, unit) outcome"
  wo_listPublicationTargets :: "string \<Rightarrow> 's \<Rightarrow> (string \<times> string) list"
  wo_genericProcessor :: "('w, generic_activity_input, generic_activity_result) activity option"
  wo_genericStore :: "('s, generic_version, metadata_derivative) store_calls option"
  wo_imageProcessor :: "('w, image_activity_input, image_activity_result) activity option"
  wo_imageStore :: "('s, image_version, metadata_derivative) store_calls option"
  wo_presentationProcessor ::
    "('w, presentation_activity_input, presentation_activity_result) activity option"
  wo_presentationStore :: "('s, presentation_version, page_derivative) store_calls option"
  wo_now :: "nat \<Rightarrow> int"

definition workerNow :: "('s, 'w) worker_options \<Rightarrow> 'w env \<Rightarrow> int \<times> 'w env" where
  "workerNow opts en =
     (wo_now opts (en_clockReadings en), en\<lparr>en_clockReadings := Suc (en_clockReadings en)\<rparr>)"

text \<open>The class of a failure and the summary of its message; an anonymous error has a default class.\<close>

definition summarizeFailure ::
  "('e \<Rightarrow> (string \<times> string) option) \<Rightarrow> 'e \<Rightarrow> string \<times> json_record option" where
  "summarizeFailure describe err =
     (case describe err of
        Some (name, message) \<Rightarrow>
          (if name = [] then ''worker-publication-failed'' else name,
           Some [(''message'', JStr message)])
      | None \<Rightarrow> (''worker-publication-failed'', None))"

definition workflowDeps ::
  "('s, 'w) worker_options \<Rightarrow> ('w, 'i, 'r) activity \<Rightarrow> ('w, 'i, 'r) workflow_dependencies" where
  "workflowDeps opts processor =
     \<lparr>wf_publishObject = wo_publishObject opts, wf_process = processor, wf_now = wo_now opts,
      wf_recipeBindings = None\<rparr>"

text \<open>One workflow per target, in the order of the targets; the first failure stops the loop.\<close>

fun runTargets ::
  "(string \<Rightarrow> 's \<times> 'w env \<Rightarrow> ('s \<times> 'w env, workflow_error, 'x) outcome) \<Rightarrow> (string \<times> string) list
     \<Rightarrow> 's \<times> 'w env \<Rightarrow> ('s \<times> 'w env, worker_error, unit) outcome" where
  "runTargets run [] w = ok w ()"
| "runTargets run (t # ts) w =
     (case run (fst t) w of
        (w, Inl e) \<Rightarrow> throw w (WorkerWorkflowFailed e)
      | (w, Inr _) \<Rightarrow> runTargets run ts w)"

definition runTemplate ::
  "(string \<Rightarrow> string \<Rightarrow> int) \<Rightarrow> (nat list \<Rightarrow> string) \<Rightarrow> ('s, 'w) worker_options \<Rightarrow> execution_request
     \<Rightarrow> (string \<times> string) list \<Rightarrow> 's \<times> 'w env \<Rightarrow> ('s \<times> 'w env, worker_error, unit) outcome" where
  "runTemplate lc sha opts request targets w =
     (let template = ei_workflowTemplateId (xq_workflow request);
          job = (\<lambda>scope. \<lparr>ri_deliveryScopeId = scope,
                         ri_versionId = ei_assetVersionId (xq_workflow request),
                         ri_workflowId = xq_workflowId request\<rparr>) in
      if template = ''asset-derivation-v1'' then
        (case (wo_genericStore opts, wo_genericProcessor opts) of
           (Some (start, publish), Some processor) \<Rightarrow>
             runTargets
               (\<lambda>scope. runGenericAssetPublicationWorkflow start publish sha
                  (workflowDeps opts processor) (job scope)) targets w
         | _ \<Rightarrow> throw w (WorkerTemplateNotSupported template))
      else if template = ''image-derivation-v1'' then
        (case (wo_imageStore opts, wo_imageProcessor opts) of
           (Some (start, publish), Some processor) \<Rightarrow>
             runTargets
               (\<lambda>scope. runImagePublicationWorkflow start publish lc sha
                  (workflowDeps opts processor) (job scope)) targets w
         | _ \<Rightarrow> throw w (WorkerTemplateNotSupported template))
      else if template = ''presentation-normalization-v1'' then
        (case (wo_presentationStore opts, wo_presentationProcessor opts) of
           (Some (start, publish), Some processor) \<Rightarrow>
             runTargets
               (\<lambda>scope. runPresentationPublicationWorkflow start publish lc sha
                  (workflowDeps opts processor) (job scope)) targets w
         | _ \<Rightarrow> throw w (WorkerTemplateNotSupported template))
      else throw w (WorkerTemplateNotSupported template))"

text \<open>The protected part: the targets, the workflows and the report of the completion.\<close>

definition attemptWorkflow ::
  "(string \<Rightarrow> string \<Rightarrow> int) \<Rightarrow> (nat list \<Rightarrow> string) \<Rightarrow> ('s, 'w) worker_options \<Rightarrow> execution_request
     \<Rightarrow> 's \<times> 'w env \<Rightarrow> ('s \<times> 'w env, worker_error, worker_result) outcome" where
  "attemptWorkflow lc sha opts request w =
     (let workflow = xq_workflow request;
          targets = wo_listPublicationTargets opts (ei_assetVersionId workflow) (fst w) in
      if targets = [] then throw w (WorkerTargetsNotConfigured (ei_assetVersionId workflow))
      else
        and_then (runTemplate lc sha opts request targets w) (\<lambda>(s, en) _.
          let (completedAt, en) = workerNow opts en in
          case wo_markCompleted opts
                 \<lparr>co_assetVersionId = ei_assetVersionId workflow, co_completedAt = completedAt,
                  co_currentPhase = Some ''published'', co_workflowId = xq_workflowId request,
                  co_workflowTemplateId = ei_workflowTemplateId workflow\<rparr> s of
            (s, Inl e) \<Rightarrow> throw (s, en) (WorkerProjectionFailed e)
          | (s, Inr _) \<Rightarrow>
              ok (s, en)
                \<lparr>wk_deliveryScopeIds = map fst targets, wk_workflowId = xq_workflowId request,
                 wk_workflowTemplateId = ei_workflowTemplateId workflow\<rparr>))"

definition executeWorkflow ::
  "(string \<Rightarrow> string \<Rightarrow> int) \<Rightarrow> (nat list \<Rightarrow> string) \<Rightarrow> (worker_error \<Rightarrow> (string \<times> string) option)
     \<Rightarrow> ('s, 'w) worker_options \<Rightarrow> execution_request \<Rightarrow> 's \<times> 'w env
     \<Rightarrow> ('s \<times> 'w env, worker_error, worker_result) outcome" where
  "executeWorkflow lc sha describe opts request w =
     (let workflow = xq_workflow request;
          (runningAt, en) = workerNow opts (snd w) in
      case wo_markRunning opts
             \<lparr>ru_assetVersionId = ei_assetVersionId workflow, ru_currentPhase = Some ''publishing'',
              ru_dispatchId = Some (ei_dispatchId workflow), ru_observedAt = runningAt,
              ru_workflowId = xq_workflowId request,
              ru_workflowTemplateId = ei_workflowTemplateId workflow\<rparr> (fst w) of
        (s, Inl e) \<Rightarrow> throw (s, en) (WorkerProjectionFailed e)
      | (s, Inr _) \<Rightarrow>
          (case attemptWorkflow lc sha opts request (s, en) of
             (w, Inr result) \<Rightarrow> ok w result
           | ((s, en), Inl err) \<Rightarrow>
               (let (failureClass, retrySummary) = summarizeFailure describe err;
                    (failedAt, en) = workerNow opts en in
                case wo_markFailedRetryable opts
                       \<lparr>rf_assetVersionId = ei_assetVersionId workflow,
                        rf_currentPhase = Some ''failed'', rf_failedAt = failedAt,
                        rf_failureClass = failureClass, rf_retrySummary = retrySummary,
                        rf_workflowId = xq_workflowId request,
                        rf_workflowTemplateId = ei_workflowTemplateId workflow\<rparr> s of
                  (s, Inl e) \<Rightarrow> throw (s, en) (WorkerProjectionFailed e)
                | (s, Inr _) \<Rightarrow> throw (s, en) err)))"

section \<open>What the projection writes\<close>

definition same_publication :: "registry_db \<Rightarrow> registry_db \<Rightarrow> bool" where
  "same_publication db db' \<longleftrightarrow> rg_scopes db' = rg_scopes db \<and>
     rg_derivatives db' = rg_derivatives db \<and> rg_manifests db' = rg_manifests db \<and>
     rg_dispatches db' = rg_dispatches db"

definition run_of :: "string \<Rightarrow> registry_db \<Rightarrow> run_row option" where
  "run_of workflowId db = row_at (\<lambda>r. Some [r_workflowId r]) (rg_runs db) [workflowId]"

lemma upsertRun_ok:
  assumes "engine_laws e" "registry_ok db"
    and "\<And>r. r_workflowId r = w \<Longrightarrow> r_workflowId (f r) = w" "\<And>r. r_workflowId (g r) = w"
  obtains rows where "upsertRun e w f g db = (db\<lparr>rg_runs := rows\<rparr>, Inr ())"
    "registry_ok (db\<lparr>rg_runs := rows\<rparr>)"
    "run_of w (db\<lparr>rg_runs := rows\<rparr>) =
       Some (case run_of w db of Some r \<Rightarrow> f r | None \<Rightarrow> g (newRunRow e db))"
    "\<And>k. k \<noteq> w \<Longrightarrow> run_of k (db\<lparr>rg_runs := rows\<rparr>) = run_of k db"
proof -
  let ?c = "\<lambda>r. Some [r_workflowId r]"
  have laws: "table_laws [?c] (re_runs e)" and sat: "satisfies [?c] (rg_runs db)"
    using assms(1,2) by (simp_all add: engine_laws_def registry_ok_def runConstraints_def)
  have c: "?c (g (newRunRow e db)) = Some [w]" "\<And>r. ?c r = Some [w] \<Longrightarrow> ?c (f r) = Some [w]"
    using assms(3,4) by simp_all
  obtain rows where rows: "to_upsert (re_runs e) (\<lambda>r. ?c r = Some [w]) f (g (newRunRow e db))
      (rg_runs db) = Inr rows"
    using upsert_single [where c = ?c and f = f, OF laws sat c] by blast
  have mem: "?c \<in> set [?c]" by simp
  note up = upsert_keyed [where c = ?c and f = f, OF laws sat mem c rows]
  show ?thesis
  proof (rule that)
    show "upsertRun e w f g db = (db\<lparr>rg_runs := rows\<rparr>, Inr ())"
      using rows by (simp add: upsertRun_def table_writes writeTable_def)
    show "registry_ok (db\<lparr>rg_runs := rows\<rparr>)"
      using assms(2) up(1) by (simp add: registry_ok_def runConstraints_def)
  qed (use up(2) in \<open>simp_all add: run_of_def\<close>)
qed

lemma auditWorkflow_ok:
  assumes "engine_laws e" "registry_ok db"
  obtains rows where "auditWorkflow e v w t p db = (db\<lparr>rg_audit := rows\<rparr>, Inr ())"
    "registry_ok (db\<lparr>rg_audit := rows\<rparr>)"
proof -
  let ?r = "\<lparr>aw_actorType = actor_system, aw_actorId = None, aw_assetVersionId = Some v,
    aw_workflowDispatchId = None, aw_correlationId = Some w, aw_eventType = t, aw_reason = None,
    aw_payload = p\<rparr>"
  have "table_laws [] (re_audit e)" using assms(1) by (simp add: engine_laws_def)
  from create_unconstrained [OF this, of ?r "rg_audit db"]
  obtain rows where "to_create (re_audit e) ?r (rg_audit db) = Inr rows" by blast
  then show ?thesis using that [of rows] assms(2)
    by (simp add: auditWorkflow_def table_writes writeTable_def registry_ok_def)
qed

lemma projection_ok:
  assumes "engine_laws e" "registry_ok db"
    and "\<And>r. r_workflowId r = w \<Longrightarrow> r_workflowId (f r) = w" "\<And>r. r_workflowId (g r) = w"
  obtains db' where "and_then (upsertRun e w f g db) (\<lambda>db _. auditWorkflow e v w t p db) = (db', Inr ())"
    "registry_ok db'" "rg_versions db' = rg_versions db" "same_publication db db'"
    "run_of w db' = Some (case run_of w db of Some r \<Rightarrow> f r | None \<Rightarrow> g (newRunRow e db))"
    "\<And>k. k \<noteq> w \<Longrightarrow> run_of k db' = run_of k db"
proof -
  obtain rows where u: "upsertRun e w f g db = (db\<lparr>rg_runs := rows\<rparr>, Inr ())"
    "registry_ok (db\<lparr>rg_runs := rows\<rparr>)"
    "run_of w (db\<lparr>rg_runs := rows\<rparr>) =
       Some (case run_of w db of Some r \<Rightarrow> f r | None \<Rightarrow> g (newRunRow e db))"
    "\<And>k. k \<noteq> w \<Longrightarrow> run_of k (db\<lparr>rg_runs := rows\<rparr>) = run_of k db"
    using upsertRun_ok [of e db w f g] assms by metis
  obtain rows' where a: "auditWorkflow e v w t p (db\<lparr>rg_runs := rows\<rparr>) =
      (db\<lparr>rg_runs := rows\<rparr>\<lparr>rg_audit := rows'\<rparr>, Inr ())"
    "registry_ok (db\<lparr>rg_runs := rows\<rparr>\<lparr>rg_audit := rows'\<rparr>)"
    using auditWorkflow_ok [OF assms(1) u(2)] by metis
  show ?thesis
    by (rule that [of "db\<lparr>rg_runs := rows\<rparr>\<lparr>rg_audit := rows'\<rparr>"])
      (use u a in \<open>simp_all add: same_publication_def run_of_def\<close>)
qed

lemma markRunning_ok:
  assumes "engine_laws e" "transactional tx" "registry_ok db"
  obtains db' r where "markRunning tx e i db = (db', Inr ())" "registry_ok db'"
    "rg_versions db' = rg_versions db" "same_publication db db'"
    "run_of (ru_workflowId i) db' = Some r" "r_state r = run_running"
    "\<And>k. k \<noteq> ru_workflowId i \<Longrightarrow> run_of k db' = run_of k db"
proof -
  let ?f = "\<lambda>r. r\<lparr>r_assetVersionId := ru_assetVersionId i, r_currentPhase := ru_currentPhase i,
    r_startedAt := Some (ru_observedAt i), r_state := run_running, r_updatedAt := ru_observedAt i,
    r_workflowDispatchId := ru_dispatchId i, r_workflowTemplateId := ru_workflowTemplateId i\<rparr>"
  let ?g = "\<lambda>r. r\<lparr>r_assetVersionId := ru_assetVersionId i, r_currentPhase := ru_currentPhase i,
    r_startedAt := Some (ru_observedAt i), r_state := run_running, r_updatedAt := ru_observedAt i,
    r_workflowDispatchId := ru_dispatchId i, r_workflowId := ru_workflowId i,
    r_workflowTemplateId := ru_workflowTemplateId i\<rparr>"
  let ?body = "\<lambda>db. and_then (upsertRun e (ru_workflowId i) ?f ?g db)
    (\<lambda>db _. auditWorkflow e (ru_assetVersionId i) (ru_workflowId i) ''workflow-run-running''
       (JObj [(''currentPhase'', JStr (nullish (ru_currentPhase i) ''running'')),
              (''workflowId'', JStr (ru_workflowId i)),
              (''workflowTemplateId'', JStr (ru_workflowTemplateId i))]) db)"
  obtain db' where p: "?body db = (db', Inr ())" "registry_ok db'"
    "rg_versions db' = rg_versions db" "same_publication db db'"
    "run_of (ru_workflowId i) db' =
       Some (case run_of (ru_workflowId i) db of Some r \<Rightarrow> ?f r | None \<Rightarrow> ?g (newRunRow e db))"
    "\<And>k. k \<noteq> ru_workflowId i \<Longrightarrow> run_of k db' = run_of k db"
    by (rule projection_ok [where f = ?f and g = ?g, OF assms(1,3)]) auto
  have "markRunning tx e i db = (db', Inr ())"
    unfolding markRunning_def by (rule tx_committed [OF assms(2)]) (rule p(1))
  then show ?thesis using that p by (simp split: option.splits)
qed

lemma markCompleted_ok:
  assumes "engine_laws e" "transactional tx" "registry_ok db"
  obtains db' r where "markCompleted tx e i db = (db', Inr ())" "registry_ok db'"
    "rg_versions db' = rg_versions db" "same_publication db db'"
    "run_of (co_workflowId i) db' = Some r" "r_state r = run_completed"
proof -
  let ?f = "\<lambda>r. r\<lparr>r_assetVersionId := co_assetVersionId i,
    r_completedAt := Some (co_completedAt i), r_currentPhase := co_currentPhase i,
    r_state := run_completed, r_updatedAt := co_completedAt i,
    r_workflowTemplateId := co_workflowTemplateId i\<rparr>"
  let ?g = "\<lambda>r. r\<lparr>r_assetVersionId := co_assetVersionId i,
    r_completedAt := Some (co_completedAt i), r_currentPhase := co_currentPhase i,
    r_startedAt := Some (co_completedAt i), r_state := run_completed,
    r_updatedAt := co_completedAt i, r_workflowId := co_workflowId i,
    r_workflowTemplateId := co_workflowTemplateId i\<rparr>"
  let ?body = "\<lambda>db. and_then (upsertRun e (co_workflowId i) ?f ?g db)
    (\<lambda>db _. auditWorkflow e (co_assetVersionId i) (co_workflowId i) ''workflow-run-completed''
       (JObj [(''currentPhase'', JStr (nullish (co_currentPhase i) ''completed'')),
              (''workflowId'', JStr (co_workflowId i)),
              (''workflowTemplateId'', JStr (co_workflowTemplateId i))]) db)"
  obtain db' where p: "?body db = (db', Inr ())" "registry_ok db'"
    "rg_versions db' = rg_versions db" "same_publication db db'"
    "run_of (co_workflowId i) db' =
       Some (case run_of (co_workflowId i) db of Some r \<Rightarrow> ?f r | None \<Rightarrow> ?g (newRunRow e db))"
    by (rule projection_ok [where f = ?f and g = ?g, OF assms(1,3)]) auto
  have "markCompleted tx e i db = (db', Inr ())"
    unfolding markCompleted_def by (rule tx_committed [OF assms(2)]) (rule p(1))
  then show ?thesis using that p by (simp split: option.splits)
qed

lemma markFailed_ok:
  assumes "engine_laws e" "transactional tx" "registry_ok db"
    and v: "findVersion (rf_assetVersionId i) db = Some v"
  obtains db' r where "markFailedRetryable tx e i db = (db', Inr ())" "registry_ok db'"
    "findVersion (rf_assetVersionId i) db' = Some (v\<lparr>vw_lifecycleState := row_failed_retryable\<rparr>)"
    "\<And>k. k \<noteq> rf_assetVersionId i \<Longrightarrow> findVersion k db' = findVersion k db"
    "same_publication db db'" "run_of (rf_workflowId i) db' = Some r" "r_state r = run_failed"
proof -
  let ?f = "\<lambda>r. r\<lparr>r_assetVersionId := rf_assetVersionId i, r_completedAt := Some (rf_failedAt i),
    r_currentPhase := rf_currentPhase i, r_retrySummary := summaryColumn (rf_retrySummary i),
    r_state := run_failed, r_updatedAt := rf_failedAt i,
    r_workflowTemplateId := rf_workflowTemplateId i\<rparr>"
  let ?g = "\<lambda>r. r\<lparr>r_assetVersionId := rf_assetVersionId i, r_completedAt := Some (rf_failedAt i),
    r_currentPhase := rf_currentPhase i, r_retrySummary := summaryColumn (rf_retrySummary i),
    r_startedAt := Some (rf_failedAt i), r_state := run_failed, r_updatedAt := rf_failedAt i,
    r_workflowId := rf_workflowId i, r_workflowTemplateId := rf_workflowTemplateId i\<rparr>"
  let ?p = "toJsonValue
    (JObj [(''currentPhase'', JStr (nullish (rf_currentPhase i) ''failed'')),
           (''failureClass'', JStr (rf_failureClass i)),
           (''retrySummary'', JObj (nullish (rf_retrySummary i) [])),
           (''workflowId'', JStr (rf_workflowId i)),
           (''workflowTemplateId'', JStr (rf_workflowTemplateId i))])"
  obtain db1 x where st: "setVersionState e (id :: db_error \<Rightarrow> db_error) (rf_assetVersionId i)
      row_failed_retryable db = (db1, x)"
    by (cases "setVersionState e (id :: db_error \<Rightarrow> db_error) (rf_assetVersionId i)
      row_failed_retryable db")
  have s: "x = Inr ()" "registry_ok db1"
    "\<And>k. findVersion k db1 = (if k = rf_assetVersionId i
       then Some (v\<lparr>vw_lifecycleState := row_failed_retryable\<rparr>) else findVersion k db)"
    "same_publication db db1"
    using assms(1,3) st
    by (cases rule: setVersionState_cases; use v in \<open>simp add: same_publication_def\<close>)+
  obtain db' where p: "and_then (upsertRun e (rf_workflowId i) ?f ?g db1)
      (\<lambda>db _. auditWorkflow e (rf_assetVersionId i) (rf_workflowId i) ''workflow-run-failed'' ?p db) =
      (db', Inr ())" "registry_ok db'"
    "rg_versions db' = rg_versions db1" "same_publication db1 db'"
    "run_of (rf_workflowId i) db' =
       Some (case run_of (rf_workflowId i) db1 of Some r \<Rightarrow> ?f r | None \<Rightarrow> ?g (newRunRow e db1))"
    by (rule projection_ok [where f = ?f and g = ?g, OF assms(1) s(2)]) auto
  have "markFailedRetryable tx e i db = (db', Inr ())"
    unfolding markFailedRetryable_def
    by (rule tx_committed [OF assms(2)]) (simp add: st s(1) p(1) del: toJsonValue.simps)
  moreover have "findVersion k db' = findVersion k db1" for k
    using p(3) by (simp add: findVersion_def)
  moreover have "same_publication db db'" using p(4) s(4) by (simp add: same_publication_def)
  ultimately show ?thesis using that p(2,5) s(3) by (simp split: option.splits)
qed

section \<open>A publication workflow over the durable registry\<close>

definition vw_identity :: "version_row \<Rightarrow> version_row" where
  "vw_identity r = r\<lparr>vw_lifecycleState := row_canonical\<rparr>"

definition same_versions :: "registry_db \<Rightarrow> registry_db \<Rightarrow> bool" where
  "same_versions db db' \<longleftrightarrow> rg_scopes db' = rg_scopes db \<and> rg_runs db' = rg_runs db \<and>
     (\<forall>k. map_option vw_identity (findVersion k db') = map_option vw_identity (findVersion k db))"

lemma same_versions_refl [simp]: "same_versions db db"
  by (simp add: same_versions_def)

lemma same_versions_trans: "same_versions a b \<Longrightarrow> same_versions b c \<Longrightarrow> same_versions a c"
  by (simp add: same_versions_def)

lemma same_versions_found:
  assumes "same_versions db db'" "findVersion k db = Some v"
  obtains v' where "findVersion k db' = Some v'" "vw_identity v' = vw_identity v"
proof -
  have "map_option vw_identity (findVersion k db') = Some (vw_identity v)"
    using assms by (simp add: same_versions_def)
  then show ?thesis using that by auto
qed

lemma durable_run:
  assumes tx: "transactional tx" and laws: "engine_laws e" and ok: "registry_ok db"
    and run: "publicationWorkflow (durableBegin tx e mapV) (durablePublish tx e mapV meta) deps body
      input (db, en) = ((db', en'), r)"
  shows "registry_ok db' \<and> same_versions db db'"
    and "r = Inr res \<Longrightarrow> \<exists>v vm en1 en2 m t db1 u.
      findVersion (ri_versionId input) db = Some v \<and>
      mapV (v\<lparr>vw_lifecycleState := row_processing\<rparr>) = Inr vm \<and>
      body vm en1 = (en2, Inr (wr_derivatives res, m)) \<and>
      registry_ok db1 \<and> rg_derivatives db1 = rg_derivatives db \<and>
      durablePublish tx e mapV meta
        \<lparr>pi_deliveryScopeId = ri_deliveryScopeId input, pi_derivatives = wr_derivatives res,
         pi_manifest = m, pi_publishedAt = t, pi_versionId = ri_versionId input,
         pi_workflowId = ri_workflowId input\<rparr> db1 = (db', Inr u)"
proof -
  obtain t en1 where c1: "readClock deps en = (t, en1)" by (cases "readClock deps en")
  let ?i = "\<lparr>bi_startedAt = t, bi_versionId = ri_versionId input, bi_workflowId = ri_workflowId input\<rparr>"
  obtain db1 r1 where st: "durableBegin tx e mapV ?i db = (db1, r1)"
    by (cases "durableBegin tx e mapV ?i db")
  have s1: "registry_ok db1" "same_versions db db1" "rg_derivatives db1 = rg_derivatives db"
    using tx laws ok st
    by (cases rule: durableBegin_cases; use ok in \<open>auto simp: same_versions_def vw_identity_def\<close>)+
  have v1: "\<exists>v. findVersion (ri_versionId input) db = Some v \<and>
      mapV (v\<lparr>vw_lifecycleState := row_processing\<rparr>) = Inr vm" if "r1 = Inr vm" for vm
    using tx laws ok st by (cases rule: durableBegin_cases) (use that in auto)
  have "(registry_ok db' \<and> same_versions db db') \<and> (r = Inr res \<longrightarrow> (\<exists>v vm en1 en2 m t db1 u.
      findVersion (ri_versionId input) db = Some v \<and>
      mapV (v\<lparr>vw_lifecycleState := row_processing\<rparr>) = Inr vm \<and>
      body vm en1 = (en2, Inr (wr_derivatives res, m)) \<and>
      registry_ok db1 \<and> rg_derivatives db1 = rg_derivatives db \<and>
      durablePublish tx e mapV meta
        \<lparr>pi_deliveryScopeId = ri_deliveryScopeId input, pi_derivatives = wr_derivatives res,
         pi_manifest = m, pi_publishedAt = t, pi_versionId = ri_versionId input,
         pi_workflowId = ri_workflowId input\<rparr> db1 = (db', Inr u)))"
  proof (cases r1)
    case (Inl c)
    then have "db' = db1" "\<exists>c. r = Inl c" using run c1 st by (auto simp: publicationWorkflow_def)
    then show ?thesis using s1 by auto
  next
    case r1: (Inr vm)
    obtain en2 br where b: "body vm en1 = (en2, br)" by (cases "body vm en1")
    show ?thesis
    proof (cases br)
      case (Inl c)
      then have "db' = db1" "\<exists>c. r = Inl c" using run c1 st r1 b by (auto simp: publicationWorkflow_def)
      then show ?thesis using s1 by auto
    next
      case (Inr dm)
      obtain ds m where dm: "dm = (ds, m)" by (cases dm)
      obtain t2 en3 where c2: "readClock deps en2 = (t2, en3)" by (cases "readClock deps en2")
      let ?j = "\<lparr>pi_deliveryScopeId = ri_deliveryScopeId input, pi_derivatives = ds,
        pi_manifest = m, pi_publishedAt = t2, pi_versionId = ri_versionId input,
        pi_workflowId = ri_workflowId input\<rparr>"
      obtain db2 r2 where p: "durablePublish tx e mapV meta ?j db1 = (db2, r2)"
        by (cases "durablePublish tx e mapV meta ?j db1")
      have s2: "registry_ok db2" "same_versions db1 db2"
        using tx laws s1(1) p
        by (cases rule: durablePublish_cases; use s1(1) in \<open>auto simp: same_versions_def vw_identity_def\<close>)+
      have res: "db' = db2" "r = Inr res \<Longrightarrow> wr_derivatives res = ds \<and> (\<exists>u. r2 = Inr u)"
        using run c1 st r1 b Inr dm c2 p
        by (auto simp: publicationWorkflow_def split: sum.splits)
      have "registry_ok db' \<and> same_versions db db'"
        using s2 res(1) same_versions_trans [OF s1(2)] by simp
      moreover have "\<exists>v vm en1 en2 m t db1 u.
          findVersion (ri_versionId input) db = Some v \<and>
          mapV (v\<lparr>vw_lifecycleState := row_processing\<rparr>) = Inr vm \<and>
          body vm en1 = (en2, Inr (wr_derivatives res, m)) \<and>
          registry_ok db1 \<and> rg_derivatives db1 = rg_derivatives db \<and>
          durablePublish tx e mapV meta
            \<lparr>pi_deliveryScopeId = ri_deliveryScopeId input, pi_derivatives = wr_derivatives res,
             pi_manifest = m, pi_publishedAt = t, pi_versionId = ri_versionId input,
             pi_workflowId = ri_workflowId input\<rparr> db1 = (db', Inr u)" if "r = Inr res"
        using v1 [OF r1] b Inr dm s1(1,3) p res that by blast
      ultimately show ?thesis by blast
    qed
  qed
  then show "registry_ok db' \<and> same_versions db db'"
    "r = Inr res \<Longrightarrow> \<exists>v vm en1 en2 m t db1 u.
      findVersion (ri_versionId input) db = Some v \<and>
      mapV (v\<lparr>vw_lifecycleState := row_processing\<rparr>) = Inr vm \<and>
      body vm en1 = (en2, Inr (wr_derivatives res, m)) \<and>
      registry_ok db1 \<and> rg_derivatives db1 = rg_derivatives db \<and>
      durablePublish tx e mapV meta
        \<lparr>pi_deliveryScopeId = ri_deliveryScopeId input, pi_derivatives = wr_derivatives res,
         pi_manifest = m, pi_publishedAt = t, pi_versionId = ri_versionId input,
         pi_workflowId = ri_workflowId input\<rparr> db1 = (db', Inr u)" by simp_all
qed

text \<open>The key of the first default image derivative, which every image run of a version publishes.\<close>

definition masterKey :: "version_row \<Rightarrow> string" where
  "masterKey v =
     buildDeterministicDerivativeKey
       \<lparr>dk_assetId = vw_assetId v, dk_recipeId = ''webp-master'',
        dk_serviceNamespaceId = vw_serviceNamespaceId v, dk_variantKey = ''webp-master'',
        dk_versionId = vw_id v\<rparr>"

lemma masterKey_identity:
  assumes "vw_identity v' = vw_identity v"
  shows "masterKey v' = masterKey v"
proof -
  have "masterKey (vw_identity x) = masterKey x" for x
    by (simp add: masterKey_def vw_identity_def)
  then show ?thesis using assms by metis
qed

lemma mapped_masterKey:
  "mapSourceVersion (v\<lparr>vw_lifecycleState := st\<rparr>) = Inr vm \<Longrightarrow>
    derivativeKeyOf vm ''webp-master'' ''webp-master'' = masterKey v"
  by (auto simp: mapSourceVersion_def derivativeKeyOf_def masterKey_def split: option.splits)

lemma imageBody_master:
  assumes "imageBody lc sha deps input vm en = (en', Inr (ds, m))" "wf_recipeBindings deps = None"
  shows "\<exists>d\<in>set ds. pd_deterministicKey d = derivativeKeyOf vm ''webp-master'' ''webp-master''"
    "\<forall>d\<in>set ds. pd_deliveryScopeId d = ri_deliveryScopeId input"
    "distinct (map (derivativeKeyIn versionId) ds)"
proof -
  note res = imageBody_result [OF assms(1)]
  have ids: "map pd_recipeId ds = [''webp-master'', ''thumbnail-small'']"
    using res(1) assms(2) by (simp add: defaultImageRecipeBindings_def imageBinding_def)
  have keys: "map pd_deterministicKey ds =
      [derivativeKeyOf vm ''webp-master'' ''webp-master'',
       derivativeKeyOf vm ''thumbnail-small'' ''thumbnail-small'']"
    using res(2) assms(2) by (simp add: defaultImageRecipeBindings_def imageBinding_def)
  then show "\<exists>d\<in>set ds. pd_deterministicKey d = derivativeKeyOf vm ''webp-master'' ''webp-master''"
    by (cases ds) auto
  show "\<forall>d\<in>set ds. pd_deliveryScopeId d = ri_deliveryScopeId input" using res(3) by blast
  have "distinct (map pd_recipeId ds)" unfolding ids by simp
  then show "distinct (map (derivativeKeyIn versionId) ds)"
    by (auto simp: distinct_map inj_on_def derivativeKeyIn_def)
qed

lemma durable_image_publishes:
  assumes tx: "transactional tx" and laws: "engine_laws e" and ok: "registry_ok db"
    and deps: "wf_recipeBindings deps = None"
    and run: "runImagePublicationWorkflow (durableBeginImage tx e) (durablePublishImage tx e) lc sha deps
      input (db, en) = ((db', en'), Inr res)"
  shows "\<exists>v. findVersion (ri_versionId input) db = Some v \<and>
    (\<exists>row\<in>set (rg_derivatives db'). dw_deliveryScopeId row = ri_deliveryScopeId input \<and>
       dw_deterministicKey row = masterKey v) \<and>
    \<not> (\<exists>row\<in>set (rg_derivatives db). dw_deliveryScopeId row \<noteq> ri_deliveryScopeId input \<and>
       dw_deterministicKey row = masterKey v)"
proof -
  have run': "publicationWorkflow (durableBegin tx e mapSourceVersion)
      (durablePublish tx e mapSourceVersion metadataColumn) deps (imageBody lc sha deps input) input
      (db, en) = ((db', en'), Inr res)"
    using run by (simp add: runImagePublicationWorkflow_def durableBeginImage_def durablePublishImage_def)
  obtain v vm en1 en2 m t db1 u where v: "findVersion (ri_versionId input) db = Some v"
    and vm: "mapSourceVersion (v\<lparr>vw_lifecycleState := row_processing\<rparr>) = Inr vm"
    and b: "imageBody lc sha deps input vm en1 = (en2, Inr (wr_derivatives res, m))"
    and db1: "registry_ok db1" "rg_derivatives db1 = rg_derivatives db"
    and p: "durablePublish tx e mapSourceVersion metadataColumn
        \<lparr>pi_deliveryScopeId = ri_deliveryScopeId input, pi_derivatives = wr_derivatives res,
         pi_manifest = m, pi_publishedAt = t, pi_versionId = ri_versionId input,
         pi_workflowId = ri_workflowId input\<rparr> db1 = (db', Inr u)"
    using durable_run(2) [OF tx laws ok run' refl] by blast
  note body = imageBody_master [OF b deps]
  obtain d where d: "d \<in> set (wr_derivatives res)" "pd_deterministicKey d = masterKey v"
    using body(1) mapped_masterKey [OF vm] by auto
  have here: "\<exists>row\<in>set (rg_derivatives db'). dw_deliveryScopeId row = ri_deliveryScopeId input \<and>
      dw_deterministicKey row = masterKey v"
    using tx laws db1(1) p
  proof (cases rule: durablePublish_cases)
    case (published w x db2)
    obtain old where row: "(createdDerivative metadataColumn (ri_versionId input) d)
        \<lparr>dw_metadata := metadataColumn d old\<rparr> \<in> set (rg_derivatives db2)" (is "?row \<in> _")
      using upsertDerivatives_ok [OF laws db1(1) published(7)] body(3) d(1) by auto
    have "dw_deliveryScopeId ?row = ri_deliveryScopeId input" "dw_deterministicKey ?row = masterKey v"
      using d body(2) by (simp_all add: createdDerivative_def)
    then show ?thesis using row published(10) by metis
  qed simp
  have "\<not> (\<exists>row\<in>set (rg_derivatives db). dw_deliveryScopeId row \<noteq> ri_deliveryScopeId input \<and>
      dw_deterministicKey row = masterKey v)"
  proof
    assume "\<exists>row\<in>set (rg_derivatives db). dw_deliveryScopeId row \<noteq> ri_deliveryScopeId input \<and>
      dw_deterministicKey row = masterKey v"
    then obtain row where row: "row \<in> set (rg_derivatives db1)"
      "dw_deliveryScopeId row \<noteq> ri_deliveryScopeId input" "dw_deterministicKey row = masterKey v"
      using db1(2) by auto
    have "\<exists>err. durablePublish tx e mapSourceVersion metadataColumn
        \<lparr>pi_deliveryScopeId = ri_deliveryScopeId input, pi_derivatives = wr_derivatives res,
         pi_manifest = m, pi_publishedAt = t, pi_versionId = ri_versionId input,
         pi_workflowId = ri_workflowId input\<rparr> db1 = (db1, Inl err)"
      by (rule durablePublish_conflict(1) [OF tx laws db1(1) row(1), of d])
        (use d row body(2) in auto)
    then show False using p by simp
  qed
  then show ?thesis using v here by blast
qed

text \<open>Two image runs for different scopes do not both succeed.\<close>

lemma second_target_fails:
  assumes tx: "transactional tx" and laws: "engine_laws e" and ok: "registry_ok db"
    and deps: "wf_recipeBindings deps = None"
    and targets: "fst t1 \<noteq> fst t2"
    and run: "runTargets
      (\<lambda>scope. runImagePublicationWorkflow (durableBeginImage tx e) (durablePublishImage tx e) lc sha deps
         \<lparr>ri_deliveryScopeId = scope, ri_versionId = v, ri_workflowId = w\<rparr>)
      (t1 # t2 # ts) (db, en) = ((db', en'), r)"
  shows "registry_ok db' \<and> same_versions db db' \<and> (\<exists>err. r = Inl err)"
proof -
  let ?run = "\<lambda>scope. runImagePublicationWorkflow (durableBeginImage tx e) (durablePublishImage tx e)
    lc sha deps \<lparr>ri_deliveryScopeId = scope, ri_versionId = v, ri_workflowId = w\<rparr>"
  have frame: "registry_ok db2 \<and> same_versions db1 db2"
    if "registry_ok db1" "?run scope (db1, en1) = ((db2, en2), r2)" for scope db1 en1 db2 en2 r2
    using durable_run(1) [OF tx laws that(1)] that(2)
    by (simp add: runImagePublicationWorkflow_def durableBeginImage_def durablePublishImage_def)
  obtain db1 en1 r1 where a: "?run (fst t1) (db, en) = ((db1, en1), r1)"
    by (metis surj_pair)
  have s1: "registry_ok db1" "same_versions db db1" using frame [OF ok a] by blast+
  show ?thesis
  proof (cases r1)
    case (Inl c)
    then show ?thesis using run a s1 by auto
  next
    case (Inr res1)
    obtain db2 en2 r2 where b: "?run (fst t2) (db1, en1) = ((db2, en2), r2)"
      by (metis surj_pair)
    have s2: "registry_ok db2" "same_versions db db2"
      using frame [OF s1(1) b] same_versions_trans [OF s1(2)] by blast+
    obtain vr where vr: "findVersion v db = Some vr"
      "\<exists>row\<in>set (rg_derivatives db1). dw_deliveryScopeId row = fst t1 \<and>
         dw_deterministicKey row = masterKey vr"
      using durable_image_publishes [OF tx laws ok deps a [unfolded Inr]] by auto
    obtain vr' where vr': "findVersion v db1 = Some vr'" "masterKey vr' = masterKey vr"
      using same_versions_found [OF s1(2) vr(1)] masterKey_identity by metis
    have "\<exists>c. r2 = Inl c"
    proof (cases r2)
      case (Inr res2)
      then show ?thesis
        using durable_image_publishes [OF tx laws s1(1) deps b [unfolded Inr]] vr(2) vr' targets by auto
    qed simp
    then show ?thesis using run a Inr b s2 by auto
  qed
qed

section \<open>A worker over the durable registry\<close>

definition durable_worker ::
  "((registry_db \<Rightarrow> (registry_db, publication_error, generic_version) outcome) \<Rightarrow> registry_db
      \<Rightarrow> (registry_db, publication_error, generic_version) outcome)
   \<Rightarrow> ((registry_db \<Rightarrow> (registry_db, publication_error, image_version) outcome) \<Rightarrow> registry_db
      \<Rightarrow> (registry_db, publication_error, image_version) outcome)
   \<Rightarrow> unit_tx \<Rightarrow> registry_engine \<Rightarrow> (string \<Rightarrow> string \<Rightarrow> int) \<Rightarrow> (registry_db, 'w) worker_options \<Rightarrow> bool" where
  "durable_worker txg txi txu e collate opts \<longleftrightarrow>
     wo_markRunning opts = markRunning txu e \<and> wo_markCompleted opts = markCompleted txu e \<and>
     wo_markFailedRetryable opts = markFailedRetryable txu e \<and>
     wo_listPublicationTargets opts = listPublicationTargets collate \<and>
     wo_genericStore opts \<in>
       {None, Some (durableBeginGeneric txg e, durablePublishGeneric txg e)} \<and>
     wo_imageStore opts \<in> {None, Some (durableBeginImage txi e, durablePublishImage txi e)} \<and>
     wo_presentationStore opts \<in>
       {None, Some (durableBeginPresentation txi e, durablePublishPresentation txi e)}"

text \<open>A step of the worker that keeps the registry well formed and the identity of the versions.\<close>

definition keeps_registry :: "(registry_db \<times> 'w env \<Rightarrow> (registry_db \<times> 'w env, 'e, 'a) outcome) \<Rightarrow> bool" where
  "keeps_registry f \<longleftrightarrow>
     (\<forall>db en db' en' r. registry_ok db \<longrightarrow> f (db, en) = ((db', en'), r) \<longrightarrow>
        registry_ok db' \<and> same_versions db db')"

lemma keeps_registryD:
  "keeps_registry f \<Longrightarrow> f (db, en) = ((db', en'), r) \<Longrightarrow> registry_ok db \<Longrightarrow>
    registry_ok db' \<and> same_versions db db'"
  unfolding keeps_registry_def by blast

lemma keeps_targets:
  assumes "\<And>scope. keeps_registry (run scope)"
  shows "keeps_registry (runTargets run ts)"
  unfolding keeps_registry_def
proof (intro allI impI)
  fix db :: registry_db and en :: "'a env" and db' en' r
  assume "registry_ok db" "runTargets run ts (db, en) = ((db', en'), r)"
  then show "registry_ok db' \<and> same_versions db db'"
  proof (induction ts arbitrary: db en)
    case (Cons t ts)
    obtain db1 en1 r1 where a: "run (fst t) (db, en) = ((db1, en1), r1)" by (metis surj_pair)
    note s1 = keeps_registryD [OF assms a Cons(2)]
    show ?case
    proof (cases r1)
      case (Inl c)
      then show ?thesis using Cons(3) a s1 by simp
    next
      case (Inr x)
      then have "runTargets run ts (db1, en1) = ((db', en'), r)" using Cons(3) a by simp
      then show ?thesis using Cons(1) s1 same_versions_trans by blast
    qed
  qed simp
qed

lemma keeps_workflow:
  assumes "transactional tx" "engine_laws e"
  shows "keeps_registry (publicationWorkflow (durableBegin tx e mapV) (durablePublish tx e mapV meta)
    deps body input)"
  using durable_run(1) [OF assms] unfolding keeps_registry_def by blast

lemma keeps_generic: "transactional tx \<Longrightarrow> engine_laws e \<Longrightarrow>
    keeps_registry (runGenericAssetPublicationWorkflow (durableBeginGeneric tx e)
      (durablePublishGeneric tx e) sha deps job)"
  by (simp add: runGenericAssetPublicationWorkflow_def durableBeginGeneric_def
      durablePublishGeneric_def keeps_workflow)

lemma keeps_image: "transactional tx \<Longrightarrow> engine_laws e \<Longrightarrow>
    keeps_registry (runImagePublicationWorkflow (durableBeginImage tx e)
      (durablePublishImage tx e) lc sha deps job)"
  by (simp add: runImagePublicationWorkflow_def durableBeginImage_def durablePublishImage_def
      keeps_workflow)

lemma keeps_presentation: "transactional tx \<Longrightarrow> engine_laws e \<Longrightarrow>
    keeps_registry (runPresentationPublicationWorkflow (durableBeginPresentation tx e)
      (durablePublishPresentation tx e) lc sha deps job)"
  by (simp add: runPresentationPublicationWorkflow_def durableBeginPresentation_def
      durablePublishPresentation_def keeps_workflow)

lemma runTemplate_frame:
  assumes "transactional txg" "transactional txi" "engine_laws e"
    and "durable_worker txg txi txu e collate opts" "registry_ok db"
    and run: "runTemplate lc sha opts request ts (db, en) = ((db', en'), r)"
  shows "registry_ok db' \<and> same_versions db db'"
proof -
  note kg = keeps_registryD [OF keeps_targets [OF keeps_generic [OF assms(1,3)]] _ assms(5)]
    and ki = keeps_registryD [OF keeps_targets [OF keeps_image [OF assms(2,3)]] _ assms(5)]
    and kp = keeps_registryD [OF keeps_targets [OF keeps_presentation [OF assms(2,3)]] _ assms(5)]
  consider (generic) "ei_workflowTemplateId (xq_workflow request) = ''asset-derivation-v1''"
    | (image) "ei_workflowTemplateId (xq_workflow request) = ''image-derivation-v1''"
    | (presentation) "ei_workflowTemplateId (xq_workflow request) = ''presentation-normalization-v1''"
    | (other) "ei_workflowTemplateId (xq_workflow request) \<notin>
        {''asset-derivation-v1'', ''image-derivation-v1'', ''presentation-normalization-v1''}"
    by blast
  then show ?thesis
  proof cases
    case other
    then show ?thesis using run assms(5) by (simp add: runTemplate_def Let_def)
  next
    case template: generic
    show ?thesis
    proof (cases "wo_genericStore opts = None \<or> wo_genericProcessor opts = None")
      case True
      then show ?thesis using run assms(5) template
        by (auto simp: runTemplate_def Let_def split: option.splits)
    next
      case False
      then obtain p where p: "wo_genericProcessor opts = Some p"
        "wo_genericStore opts = Some (durableBeginGeneric txg e, durablePublishGeneric txg e)"
        using assms(4) by (auto simp: durable_worker_def)
      show ?thesis by (rule kg, rule run [unfolded runTemplate_def template Let_def p, simplified])
    qed
  next
    case template: image
    show ?thesis
    proof (cases "wo_imageStore opts = None \<or> wo_imageProcessor opts = None")
      case True
      then show ?thesis using run assms(5) template
        by (auto simp: runTemplate_def Let_def split: option.splits)
    next
      case False
      then obtain p where p: "wo_imageProcessor opts = Some p"
        "wo_imageStore opts = Some (durableBeginImage txi e, durablePublishImage txi e)"
        using assms(4) by (auto simp: durable_worker_def)
      show ?thesis by (rule ki, rule run [unfolded runTemplate_def template Let_def p, simplified])
    qed
  next
    case template: presentation
    show ?thesis
    proof (cases "wo_presentationStore opts = None \<or> wo_presentationProcessor opts = None")
      case True
      then show ?thesis using run assms(5) template
        by (auto simp: runTemplate_def Let_def split: option.splits)
    next
      case False
      then obtain p where p: "wo_presentationProcessor opts = Some p"
        "wo_presentationStore opts = Some (durableBeginPresentation txi e, durablePublishPresentation txi e)"
        using assms(4) by (auto simp: durable_worker_def)
      show ?thesis by (rule kp, rule run [unfolded runTemplate_def template Let_def p, simplified])
    qed
  qed
qed

lemma listTargets_same:
  assumes "rg_versions db' = rg_versions db" "rg_scopes db' = rg_scopes db"
  shows "listPublicationTargets collate v db' = listPublicationTargets collate v db"
  unfolding listPublicationTargets_def findVersion_def assms ..

text \<open>
  The protected part of a run: it keeps the registry well formed, and when it succeeds the run is
  reported completed.
\<close>

lemma attemptWorkflow_frame:
  assumes "transactional txg" "transactional txi" "transactional txu" "engine_laws e"
    and "durable_worker txg txi txu e collate opts" "registry_ok db"
    and run: "attemptWorkflow lc sha opts request (db, en) = ((db', en'), r)"
  shows "registry_ok db' \<and>
    (\<forall>k. map_option vw_identity (findVersion k db') = map_option vw_identity (findVersion k db)) \<and>
    (is_ok r \<longrightarrow> (\<exists>x. run_of (xq_workflowId request) db' = Some x \<and> r_state x = run_completed))"
proof (cases "wo_listPublicationTargets opts (ei_assetVersionId (xq_workflow request)) db = []")
  case True
  then show ?thesis using run assms(6) by (auto simp: attemptWorkflow_def Let_def)
next
  case False
  let ?ts = "wo_listPublicationTargets opts (ei_assetVersionId (xq_workflow request)) db"
  obtain db1 en1 r1 where t: "runTemplate lc sha opts request ?ts (db, en) = ((db1, en1), r1)"
    by (metis surj_pair)
  note s1 = runTemplate_frame [OF assms(1,2,4-6) t]
  show ?thesis
  proof (cases r1)
    case (Inl c)
    then have "db' = db1" "\<not> is_ok r" using run t False by (auto simp: attemptWorkflow_def Let_def)
    then show ?thesis using s1 by (simp add: same_versions_def)
  next
    case (Inr x)
    obtain n en2 where c: "workerNow opts en1 = (n, en2)" by (cases "workerNow opts en1")
    let ?i = "\<lparr>co_assetVersionId = ei_assetVersionId (xq_workflow request), co_completedAt = n,
      co_currentPhase = Some ''published'', co_workflowId = xq_workflowId request,
      co_workflowTemplateId = ei_workflowTemplateId (xq_workflow request)\<rparr>"
    obtain db2 y where m: "markCompleted txu e ?i db1 = (db2, Inr ())" "registry_ok db2"
      "rg_versions db2 = rg_versions db1" "run_of (xq_workflowId request) db2 = Some y"
      "r_state y = run_completed"
      by (rule markCompleted_ok [OF assms(4,3), of db1 ?i]) (use s1 in simp_all)
    have mc: "wo_markCompleted opts = markCompleted txu e" using assms(5) by (simp add: durable_worker_def)
    have "db' = db2" using run t False Inr c m(1) by (simp add: attemptWorkflow_def Let_def mc)
    moreover have "findVersion k db2 = findVersion k db1" for k
      using m(3) by (simp add: findVersion_def)
    ultimately show ?thesis using s1 m by (simp add: same_versions_def)
  qed
qed

text \<open>A run after \<open>markRunning\<close>: success is reported as completed, failure as failed and on the version.\<close>

lemma executeWorkflow_cases:
  assumes "transactional txg" "transactional txi" "transactional txu" "engine_laws e"
    and dw: "durable_worker txg txi txu e collate opts" and ok: "registry_ok db"
    and v: "findVersion (ei_assetVersionId (xq_workflow request)) db = Some v"
    and run: "executeWorkflow lc sha describe opts request (db, en) = ((db', en'), r)"
  obtains db1 en1 db2 en2 r1 x where "registry_ok db1" "rg_versions db1 = rg_versions db"
      "rg_scopes db1 = rg_scopes db"
      "attemptWorkflow lc sha opts request (db1, en1) = ((db2, en2), r1)" "r1 = r"
      "registry_ok db'" "run_of (xq_workflowId request) db' = Some x"
      "r_state x = (if is_ok r then run_completed else run_failed)"
      "\<And>k. map_option vw_identity (findVersion k db') = map_option vw_identity (findVersion k db)"
      "\<not> is_ok r \<Longrightarrow> map_option vw_lifecycleState
         (findVersion (ei_assetVersionId (xq_workflow request)) db') = Some row_failed_retryable"
proof -
  let ?id = "ei_assetVersionId (xq_workflow request)"
  have opts: "wo_markRunning opts = markRunning txu e"
    "wo_markFailedRetryable opts = markFailedRetryable txu e"
    using dw by (simp_all add: durable_worker_def)
  obtain n en1 where c: "workerNow opts en = (n, en1)" by (cases "workerNow opts en")
  let ?i = "\<lparr>ru_assetVersionId = ?id, ru_currentPhase = Some ''publishing'',
    ru_dispatchId = Some (ei_dispatchId (xq_workflow request)), ru_observedAt = n,
    ru_workflowId = xq_workflowId request,
    ru_workflowTemplateId = ei_workflowTemplateId (xq_workflow request)\<rparr>"
  obtain db1 where m: "markRunning txu e ?i db = (db1, Inr ())" "registry_ok db1"
    "rg_versions db1 = rg_versions db" "same_publication db db1"
    by (rule markRunning_ok [OF assms(4,3) ok, of ?i]) auto
  have sc: "rg_scopes db1 = rg_scopes db" using m(4) by (simp add: same_publication_def)
  have fv: "findVersion k db1 = findVersion k db" for k using m(3) by (simp add: findVersion_def)
  obtain db2 en2 r1 where a: "attemptWorkflow lc sha opts request (db1, en1) = ((db2, en2), r1)"
    by (metis surj_pair)
  note s2 = attemptWorkflow_frame [OF assms(1-5) m(2) a]
  have idt: "map_option vw_identity (findVersion k db2) = map_option vw_identity (findVersion k db)" for k
    using s2 fv by simp
  show ?thesis
  proof (cases r1)
    case (Inr x)
    then have db': "db' = db2" "r = r1"
      using run c m(1) a by (simp_all add: executeWorkflow_def Let_def opts)
    obtain y where y: "run_of (xq_workflowId request) db' = Some y" "r_state y = run_completed"
      using s2 Inr db' by auto
    show ?thesis
      by (rule that [OF m(2,3) sc a]) (use y s2 idt db' Inr in auto)
  next
    case (Inl err)
    obtain fc rs where sf: "summarizeFailure describe err = (fc, rs)"
      by (cases "summarizeFailure describe err")
    obtain n2 en3 where c2: "workerNow opts en2 = (n2, en3)" by (cases "workerNow opts en2")
    let ?f = "\<lparr>rf_assetVersionId = ?id, rf_currentPhase = Some ''failed'', rf_failedAt = n2,
      rf_failureClass = fc, rf_retrySummary = rs, rf_workflowId = xq_workflowId request,
      rf_workflowTemplateId = ei_workflowTemplateId (xq_workflow request)\<rparr>"
    obtain v2 where v2: "findVersion ?id db2 = Some v2" "vw_identity v2 = vw_identity v"
      using idt [of ?id] v by auto
    have pre: "registry_ok db2" "findVersion (rf_assetVersionId ?f) db2 = Some v2"
      using s2 v2 by simp_all
    show ?thesis
    proof (rule markFailed_ok [OF assms(4,3) pre])
      fix db3 y
      assume f0: "markFailedRetryable txu e ?f db2 = (db3, Inr ())" "registry_ok db3"
        "findVersion (rf_assetVersionId ?f) db3 = Some (v2\<lparr>vw_lifecycleState := row_failed_retryable\<rparr>)"
        "\<And>k. k \<noteq> rf_assetVersionId ?f \<Longrightarrow> findVersion k db3 = findVersion k db2"
        "run_of (rf_workflowId ?f) db3 = Some y" "r_state y = run_failed"
      note f = f0 [simplified]
      have db': "db' = db3" "r = r1"
        using run c m(1) a Inl sf c2 f(1) by (simp_all add: executeWorkflow_def Let_def opts)
      have "map_option vw_identity (findVersion k db3) = map_option vw_identity (findVersion k db)" for k
        using f(3,4) idt [of k] v2 v by (cases "k = ?id") (simp_all add: vw_identity_def)
      then show ?thesis
        by (intro that [OF m(2,3) sc a]) (use f db' Inl in auto)
    qed
  qed
qed

lemma runTemplate_two_scopes:
  assumes "transactional txi" "engine_laws e" "registry_ok db"
    and "durable_worker txg txi txu e collate opts"
    and template: "ei_workflowTemplateId (xq_workflow request) = ''image-derivation-v1''"
    and ts: "distinct (map fst ts)" "2 \<le> length ts"
    and run: "runTemplate lc sha opts request ts (db, en) = ((db', en'), r)"
  shows "\<exists>err. r = Inl err"
proof (cases "wo_imageStore opts = None \<or> wo_imageProcessor opts = None")
  case True
  then show ?thesis using run template
    by (auto simp: runTemplate_def Let_def split: option.splits)
next
  case False
  then obtain p where p: "wo_imageProcessor opts = Some p"
    "wo_imageStore opts = Some (durableBeginImage txi e, durablePublishImage txi e)"
    using assms(4) by (auto simp: durable_worker_def)
  obtain t1 t2 rest where split: "ts = t1 # t2 # rest" "fst t1 \<noteq> fst t2"
    using ts by (cases ts; cases "tl ts") auto
  have deps: "wf_recipeBindings (workflowDeps opts p) = None" by (simp add: workflowDeps_def)
  note run' = run [unfolded runTemplate_def template Let_def p, simplified]
  from second_target_fails [OF assms(1-3) deps split(2) run' [unfolded split(1)]]
  show ?thesis by blast
qed

section \<open>Examples\<close>

definition exampleWorker :: "(registry_db, nat) worker_options" where
  "exampleWorker =
     \<lparr>wo_publishObject = wf_publishObject (exampleDeps True),
      wo_markRunning = markRunning listTransaction listEngine,
      wo_markCompleted = markCompleted listTransaction listEngine,
      wo_markFailedRetryable = markFailedRetryable listTransaction listEngine,
      wo_listPublicationTargets = listPublicationTargets codeUnitCompare,
      wo_genericProcessor = None, wo_genericStore = None,
      wo_imageProcessor = Some (wf_process (exampleDeps True)),
      wo_imageStore = Some (durableBeginImage listTransaction listEngine,
        durablePublishImage listTransaction listEngine),
      wo_presentationProcessor = None, wo_presentationStore = None,
      wo_now = (\<lambda>n. int n)\<rparr>"

definition exampleExecution :: "string \<Rightarrow> execution_request" where
  "exampleExecution template =
     \<lparr>xq_workflow =
        \<lparr>ei_assetVersionId = ''ver'', ei_dispatchId = ''d'', ei_dispatchReason = ''canonicalized'',
         ei_workflowKey = ''k'', ei_workflowTemplateId = template\<rparr>,
      xq_workflowId = ''w''\<rparr>"

definition exampleDescribe :: "worker_error \<Rightarrow> (string \<times> string) option" where
  "exampleDescribe e = Some (''Error'', ''failed'')"

lemma exampleWorker_durable:
  "durable_worker listTransaction listTransaction listTransaction listEngine codeUnitCompare exampleWorker"
  by (simp add: durable_worker_def exampleWorker_def)

lemma exampleDb_version:
  "findVersion ''ver'' (exampleDb st) = Some (exampleVersionRow\<lparr>vw_lifecycleState := st\<rparr>)"
  by (simp add: findVersion_def row_at_def exampleDb_def exampleVersionRow_def)

lemma exampleDb_targets:
  "listPublicationTargets codeUnitCompare ''ver'' (exampleDb st) = [(''eu'', ''eu''), (''us'', ''us'')]"
proof -
  have f: "filter (scopeOfVersion (exampleVersionRow\<lparr>vw_lifecycleState := st\<rparr>)) (rg_scopes (exampleDb st)) =
      [exampleScopeRow ''eu'', exampleScopeRow ''us'']"
    by (simp add: exampleDb_def scopeOfVersion_def exampleScopeRow_def exampleVersionRow_def)
  have o': "targetOrder codeUnitCompare (exampleScopeRow ''eu'') (exampleScopeRow ''us'') = -1"
    by code_simp
  show ?thesis using o' by (simp add: listPublicationTargets_def exampleDb_version f)
    (simp add: exampleScopeRow_def)
qed

section \<open>Properties\<close>

text \<open>C25. Over the durable stores an image version with two delivery scopes is never published by the
  worker: whatever the processor and the object store do, \<open>executeWorkflow\<close> fails, because the second
  scope meets the unique deterministic keys of the first. The version ends in \<open>failed_retryable\<close>, from
  which no later publication can begin, so the retry cannot succeed either.\<close>

theorem worker_cannot_serve_two_scopes:
  assumes "transactional txg" "transactional txi" "transactional txu" "engine_laws e"
    and "durable_worker txg txi txu e collate opts" "registry_ok db"
    and "ei_workflowTemplateId (xq_workflow request) = ''image-derivation-v1''"
    and "distinct (map fst (listPublicationTargets collate (ei_assetVersionId (xq_workflow request)) db))"
      "2 \<le> length (listPublicationTargets collate (ei_assetVersionId (xq_workflow request)) db)"
  shows "\<exists>db' en' err. executeWorkflow lc sha describe opts request (db, en) = ((db', en'), Inl err) \<and>
    map_option vw_lifecycleState (findVersion (ei_assetVersionId (xq_workflow request)) db') =
      Some row_failed_retryable \<and>
    (\<forall>i. bi_versionId i = ei_assetVersionId (xq_workflow request) \<longrightarrow>
       \<not> is_ok (snd (durableBeginImage txi e i db')))"
proof -
  let ?id = "ei_assetVersionId (xq_workflow request)"
  obtain v where v: "findVersion ?id db = Some v"
    using assms(9) by (cases "findVersion ?id db") (auto simp: listPublicationTargets_def)
  obtain db' en' r where run: "executeWorkflow lc sha describe opts request (db, en) = ((db', en'), r)"
    by (metis surj_pair)
  show ?thesis
  proof (rule executeWorkflow_cases [OF assms(1-6) v run])
    fix db1 en1 db2 en2 r1 x
    assume a: "registry_ok db1" "rg_versions db1 = rg_versions db" "rg_scopes db1 = rg_scopes db"
      "attemptWorkflow lc sha opts request (db1, en1) = ((db2, en2), r1)" "r1 = r"
      "registry_ok db'"
      "\<not> is_ok r \<Longrightarrow> map_option vw_lifecycleState (findVersion ?id db') = Some row_failed_retryable"
    let ?ts = "listPublicationTargets collate ?id db"
    have ts: "wo_listPublicationTargets opts ?id db1 = ?ts"
      using assms(5) listTargets_same [OF a(2,3)] by (simp add: durable_worker_def)
    obtain db3 en3 r3 where t: "runTemplate lc sha opts request ?ts (db1, en1) = ((db3, en3), r3)"
      by (metis surj_pair)
    obtain err where "r3 = Inl err"
      using runTemplate_two_scopes [OF assms(2,4) a(1) assms(5,7-9) t] by blast
    moreover have "?ts \<noteq> []" using assms(9) by auto
    ultimately have r: "r = Inl err" using a(4,5) t ts by (simp add: attemptWorkflow_def Let_def)
    then have st: "map_option vw_lifecycleState (findVersion ?id db') = Some row_failed_retryable"
      using a(7) by simp
    have "\<not> is_ok (snd (durableBeginImage txi e i db'))" if "bi_versionId i = ?id" for i
    proof -
      obtain db4 r4 where b: "durableBegin txi e mapSourceVersion i db' = (db4, r4)"
        by (cases "durableBegin txi e mapSourceVersion i db'")
      from assms(2,4) a(6) b have "\<not> is_ok r4"
        by (cases rule: durableBegin_cases) (use that st in auto)
      then show ?thesis using b by (simp add: durableBeginImage_def)
    qed
    then show ?thesis using run r st by blast
  qed
qed

theorem worker_cannot_serve_two_scopes_witness:
  "\<exists>db' en' err. executeWorkflow codeUnitCompare exampleSha exampleDescribe exampleWorker
     (exampleExecution ''image-derivation-v1'') (exampleDb row_canonical, exampleEnv) =
       ((db', en'), Inl err) \<and>
     map_option vw_lifecycleState (findVersion ''ver'' db') = Some row_failed_retryable"
proof -
  have i: "ei_assetVersionId (xq_workflow (exampleExecution ''image-derivation-v1'')) = ''ver''"
    "ei_workflowTemplateId (xq_workflow (exampleExecution ''image-derivation-v1'')) =
      ''image-derivation-v1''"
    by (simp_all add: exampleExecution_def)
  show ?thesis
    using worker_cannot_serve_two_scopes [OF listTransaction_laws listTransaction_laws
        listTransaction_laws listEngine_laws exampleWorker_durable exampleDb_ok i(2),
        of row_canonical codeUnitCompare exampleSha exampleDescribe exampleEnv, unfolded i]
    by (auto simp: exampleDb_targets)
qed

text \<open>The worker reports honestly. Over the durable stores, and for every template, processor and
  object store, a run of a version leaves the registry well formed and a run record whose state is
  \<open>completed\<close> exactly when \<open>executeWorkflow\<close> returned, and \<open>failed\<close> otherwise, with the version then in
  \<open>failed_retryable\<close>; no version changes but in its lifecycle state.\<close>

theorem worker_reports_honestly:
  assumes "transactional txg" "transactional txi" "transactional txu" "engine_laws e"
    and "durable_worker txg txi txu e collate opts" "registry_ok db"
    and "findVersion (ei_assetVersionId (xq_workflow request)) db = Some v"
    and "executeWorkflow lc sha describe opts request (db, en) = ((db', en'), r)"
  shows "registry_ok db' \<and>
    (\<exists>x. run_of (xq_workflowId request) db' = Some x \<and>
       r_state x = (if is_ok r then run_completed else run_failed)) \<and>
    (is_ok r \<or> map_option vw_lifecycleState
       (findVersion (ei_assetVersionId (xq_workflow request)) db') = Some row_failed_retryable) \<and>
    (\<forall>k. map_option vw_identity (findVersion k db') = map_option vw_identity (findVersion k db))"
  by (rule executeWorkflow_cases [OF assms]) blast

theorem worker_reports_honestly_witness:
  "\<exists>x. run_of ''w'' (fst (fst (executeWorkflow codeUnitCompare exampleSha exampleDescribe exampleWorker
     (exampleExecution ''media-derivation-v1'') (exampleDb row_canonical, exampleEnv)))) = Some x \<and>
   r_state x \<in> {run_completed, run_failed}"
proof -
  let ?run = "executeWorkflow codeUnitCompare exampleSha exampleDescribe exampleWorker
     (exampleExecution ''media-derivation-v1'') (exampleDb row_canonical, exampleEnv)"
  have run: "?run = ((fst (fst ?run), snd (fst ?run)), snd ?run)" by simp
  have v: "findVersion (ei_assetVersionId (xq_workflow (exampleExecution ''media-derivation-v1'')))
      (exampleDb row_canonical) = Some (exampleVersionRow\<lparr>vw_lifecycleState := row_canonical\<rparr>)"
    by (simp add: exampleExecution_def exampleDb_version)
  have w: "xq_workflowId (exampleExecution ''media-derivation-v1'') = ''w''"
    by (simp add: exampleExecution_def)
  show ?thesis
    using worker_reports_honestly [OF listTransaction_laws listTransaction_laws
        listTransaction_laws listEngine_laws exampleWorker_durable exampleDb_ok v run] unfolding w
    by auto
qed

end
