(* ===== verification/Durable_Dispatch.thy ===== *)
theory Durable_Dispatch
  imports Durable_Publication
begin

text \<open>
  The dispatch store over the durable registry:
  \<open>packages/registry/src/prisma-workflow-dispatch-store.ts\<close>. A claim locks its candidates one by one
  with an \<open>updateMany\<close> that repeats the state and the version token of the row; a report is one
  transaction that moves the dispatch and projects the workflow run. The simulation with the
  in-memory store of \<open>Dispatch_Store\<close> is at the end: both give the same answers.
\<close>

datatype durable_dispatch_error =
  DispatchRefused dispatch_error
| DispatchDatabase db_error

type_synonym 'a dispatch_tx =
  "(registry_db \<Rightarrow> (registry_db, durable_dispatch_error, 'a) outcome) \<Rightarrow> registry_db
     \<Rightarrow> (registry_db, durable_dispatch_error, 'a) outcome"

section \<open>Operations\<close>

definition mapDispatchRecord :: "dispatch_row \<Rightarrow> dispatch_record" where
  "mapDispatchRecord r = r\<lparr>d_lastFailureClass := keep_str (d_lastFailureClass r)\<rparr>"

definition mapWorkflowRunRecord :: "run_row \<Rightarrow> run_record" where
  "mapWorkflowRunRecord r = r\<lparr>
     r_cancellationCause := keep_str (r_cancellationCause r),
     r_currentPhase := keep_str (r_currentPhase r),
     r_lastOperatorAction := keep_str (r_lastOperatorAction r),
     r_waitReason := keep_str (r_waitReason r),
     r_workflowDispatchId := keep_str (r_workflowDispatchId r)\<rparr>"

definition findDispatch :: "string \<Rightarrow> registry_db \<Rightarrow> dispatch_row option" where
  "findDispatch dispatchId db = row_at (\<lambda>r. Some [d_dispatchId r]) (rg_dispatches db) [dispatchId]"

definition findRun :: "string \<Rightarrow> registry_db \<Rightarrow> run_row option" where
  "findRun workflowId db = row_at (\<lambda>r. Some [r_workflowId r]) (rg_runs db) [workflowId]"

definition updateDispatch ::
  "registry_engine \<Rightarrow> string \<Rightarrow> (dispatch_row \<Rightarrow> dispatch_row) \<Rightarrow> registry_db
     \<Rightarrow> (registry_db, durable_dispatch_error, unit) outcome" where
  "updateDispatch e dispatchId f =
     onDispatches DispatchDatabase
       (to_update (re_dispatches e) (\<lambda>r. d_dispatchId r = dispatchId) f)"

text \<open>The locked candidates; a row that changed since it was read is skipped.\<close>

fun lockCandidates ::
  "registry_engine \<Rightarrow> int \<Rightarrow> dispatch_row list \<Rightarrow> registry_db
     \<Rightarrow> (registry_db, durable_dispatch_error, dispatch_record list) outcome" where
  "lockCandidates e claimedAt [] db = ok db []"
| "lockCandidates e claimedAt (c # cs) db =
     (let w = (\<lambda>r. claimable r \<and> d_dispatchId r = d_dispatchId c \<and>
                   d_versionToken r = d_versionToken c);
          f = (\<lambda>r. r\<lparr>d_dispatchState := disp_starting,
                      d_firstAttemptAt := or_else (d_firstAttemptAt c) (Some claimedAt),
                      d_lastAttemptAt := Some claimedAt, d_updatedAt := claimedAt,
                      d_versionToken := d_versionToken r + 1\<rparr>) in
      if length (filter w (rg_dispatches db)) \<noteq> 1 then lockCandidates e claimedAt cs db
      else
        and_then (onDispatches DispatchDatabase (to_update (re_dispatches e) w f) db) (\<lambda>db _.
        and_then (lockCandidates e claimedAt cs db) (\<lambda>db' rest.
          ok db'
            (case findDispatch (d_dispatchId c) db of
               Some claimedRecord \<Rightarrow> mapDispatchRecord claimedRecord # rest
             | None \<Rightarrow> rest))))"

text \<open>The \<open>take\<close> of a query: a negative number takes from the end.\<close>

definition takeRows :: "int \<Rightarrow> 'a list \<Rightarrow> 'a list" where
  "takeRows n xs = (if 0 \<le> n then take (nat n) xs else drop (length xs - nat (- n)) xs)"

definition durableClaim ::
  "dispatch_record list dispatch_tx \<Rightarrow> registry_engine \<Rightarrow> (string \<Rightarrow> string \<Rightarrow> int) \<Rightarrow> claim_input
     \<Rightarrow> registry_db \<Rightarrow> (registry_db, durable_dispatch_error, dispatch_record list) outcome" where
  "durableClaim tx e collate input =
     tx (\<lambda>db.
       lockCandidates e (ci_claimedAt input)
         (takeRows (ci_limit input)
            (js_sort (dispatchOrder collate) (filter claimable (rg_dispatches db)))) db)"

definition durableGetDispatch :: "string \<Rightarrow> registry_db \<Rightarrow> dispatch_record option" where
  "durableGetDispatch dispatchId db = map_option mapDispatchRecord (findDispatch dispatchId db)"

definition durableListRuns :: "string option \<Rightarrow> registry_db \<Rightarrow> run_record list" where
  "durableListRuns assetVersionId db =
     map mapWorkflowRunRecord
       (js_sort (\<lambda>l r. r_createdAt l - r_createdAt r)
         (filter (\<lambda>r. if truthy_str assetVersionId
                       then Some (r_assetVersionId r) = assetVersionId else True) (rg_runs db)))"

definition transitionBody ::
  "registry_engine \<Rightarrow> string \<Rightarrow> int \<Rightarrow> dispatch_state
     \<Rightarrow> (registry_db \<Rightarrow> (registry_db, durable_dispatch_error, unit) outcome) \<Rightarrow> int \<Rightarrow> registry_db
     \<Rightarrow> (registry_db, durable_dispatch_error, unit) outcome" where
  "transitionBody e dispatchId expected target mutation observedAt db =
     (case findDispatch dispatchId db of
        None \<Rightarrow> throw db (DispatchRefused (WorkflowDispatchNotFoundError dispatchId))
      | Some d \<Rightarrow>
          if d_versionToken d \<noteq> expected
          then throw db (DispatchRefused (WorkflowDispatchVersionConflictError dispatchId expected))
          else if d_dispatchState d \<noteq> disp_starting
          then throw db (DispatchRefused
                 (WorkflowDispatchStateTransitionError dispatchId (d_dispatchState d) target))
          else
            and_then
              (updateDispatch e dispatchId
                 (\<lambda>r. r\<lparr>d_dispatchState := target, d_lastAttemptAt := Some observedAt,
                        d_updatedAt := observedAt, d_versionToken := d_versionToken r + 1\<rparr>) db)
              (\<lambda>db _. mutation db))"

definition transitionDispatch ::
  "unit dispatch_tx \<Rightarrow> registry_engine \<Rightarrow> string \<Rightarrow> int \<Rightarrow> dispatch_state
     \<Rightarrow> (registry_db \<Rightarrow> (registry_db, durable_dispatch_error, unit) outcome) \<Rightarrow> int \<Rightarrow> registry_db
     \<Rightarrow> (registry_db, durable_dispatch_error, unit) outcome" where
  "transitionDispatch tx e dispatchId expected target mutation observedAt =
     tx (transitionBody e dispatchId expected target mutation observedAt)"

definition startedMutation ::
  "registry_engine \<Rightarrow> started_input \<Rightarrow> registry_db
     \<Rightarrow> (registry_db, durable_dispatch_error, unit) outcome" where
  "startedMutation e input db =
     (case findDispatch (si_dispatchId input) db of
        None \<Rightarrow> throw db (DispatchDatabase RecordNotFound)
      | Some dispatch \<Rightarrow>
          (case findRun (si_workflowId input) db of
             Some existingRun \<Rightarrow>
               onRuns DispatchDatabase
                 (to_update (re_runs e) (\<lambda>r. r_workflowId r = si_workflowId input)
                    (\<lambda>r. r\<lparr>r_assetVersionId := d_assetVersionId dispatch,
                           r_currentPhase :=
                             (if r_state existingRun \<noteq> run_queued \<and>
                                 truthy_str (r_currentPhase existingRun)
                              then r_currentPhase existingRun else si_currentPhase input),
                           r_startedAt :=
                             or_else (r_startedAt existingRun) (Some (si_startedAt input)),
                           r_state :=
                             (if r_state existingRun \<noteq> run_queued then r_state existingRun
                              else run_queued),
                           r_updatedAt := si_startedAt input,
                           r_workflowDispatchId :=
                             or_else (r_workflowDispatchId existingRun)
                               (Some (si_dispatchId input))\<rparr>)) db
           | None \<Rightarrow>
               onRuns DispatchDatabase
                 (to_create (re_runs e)
                    ((newRunRow e db)\<lparr>r_assetVersionId := d_assetVersionId dispatch,
                       r_currentPhase := si_currentPhase input,
                       r_startedAt := Some (si_startedAt input), r_state := run_queued,
                       r_updatedAt := si_startedAt input,
                       r_workflowDispatchId := Some (si_dispatchId input),
                       r_workflowId := si_workflowId input,
                       r_workflowTemplateId := d_workflowTemplateId dispatch\<rparr>)) db))"

definition durableRecordStarted ::
  "unit dispatch_tx \<Rightarrow> registry_engine \<Rightarrow> started_input \<Rightarrow> registry_db
     \<Rightarrow> (registry_db, durable_dispatch_error, unit) outcome" where
  "durableRecordStarted tx e input =
     transitionDispatch tx e (si_dispatchId input) (si_expectedVersionToken input) disp_started
       (startedMutation e input) (si_startedAt input)"

definition duplicateMutation ::
  "registry_engine \<Rightarrow> duplicate_input \<Rightarrow> registry_db
     \<Rightarrow> (registry_db, durable_dispatch_error, unit) outcome" where
  "duplicateMutation e input db =
     (case findDispatch (du_dispatchId input) db of
        None \<Rightarrow> throw db (DispatchDatabase RecordNotFound)
      | Some dispatch \<Rightarrow>
          onRuns DispatchDatabase
            (to_upsert (re_runs e) (\<lambda>r. r_workflowId r = du_workflowId input)
               (\<lambda>r. r\<lparr>r_assetVersionId := d_assetVersionId dispatch,
                      r_currentPhase := du_currentPhase input,
                      r_startedAt := Some (du_observedAt input),
                      r_state := nullish (du_workflowRunState input) run_running,
                      r_updatedAt := du_observedAt input,
                      r_workflowDispatchId := Some (du_dispatchId input)\<rparr>)
               ((newRunRow e db)\<lparr>r_assetVersionId := d_assetVersionId dispatch,
                  r_currentPhase := du_currentPhase input,
                  r_startedAt := Some (du_observedAt input),
                  r_state := nullish (du_workflowRunState input) run_running,
                  r_updatedAt := du_observedAt input,
                  r_workflowDispatchId := Some (du_dispatchId input),
                  r_workflowId := du_workflowId input,
                  r_workflowTemplateId := d_workflowTemplateId dispatch\<rparr>)) db)"

definition durableRecordDuplicate ::
  "unit dispatch_tx \<Rightarrow> registry_engine \<Rightarrow> duplicate_input \<Rightarrow> registry_db
     \<Rightarrow> (registry_db, durable_dispatch_error, unit) outcome" where
  "durableRecordDuplicate tx e input =
     transitionDispatch tx e (du_dispatchId input) (du_expectedVersionToken input) disp_duplicate
       (duplicateMutation e input) (du_observedAt input)"

definition failureMutation ::
  "registry_engine \<Rightarrow> failed_input \<Rightarrow> registry_db
     \<Rightarrow> (registry_db, durable_dispatch_error, unit) outcome" where
  "failureMutation e input =
     updateDispatch e (fi_dispatchId input)
       (\<lambda>r. r\<lparr>d_lastFailureClass := Some (fi_failureClass input),
              d_lastAttemptAt := Some (fi_failedAt input),
              d_retrySummary :=
                (case fi_retrySummary input of
                   Some s \<Rightarrow> asRecord (toJsonValue (JObj s)) | None \<Rightarrow> None),
              d_updatedAt := fi_failedAt input\<rparr>)"

definition durableRecordFailure ::
  "unit dispatch_tx \<Rightarrow> registry_engine \<Rightarrow> dispatch_state \<Rightarrow> failed_input \<Rightarrow> registry_db
     \<Rightarrow> (registry_db, durable_dispatch_error, unit) outcome" where
  "durableRecordFailure tx e targetState input =
     transitionDispatch tx e (fi_dispatchId input) (fi_expectedVersionToken input) targetState
       (failureMutation e input) (fi_failedAt input)"

definition durableFailedRetryable where
  "durableFailedRetryable tx e input = durableRecordFailure tx e disp_failed_retryable input"

definition durableFailedTerminal where
  "durableFailedTerminal tx e input = durableRecordFailure tx e disp_failed_terminal input"

section \<open>What the operations do\<close>

lemma dispatch_key: "(\<lambda>r. Some [d_dispatchId r]) \<in> set dispatchConstraints"
  by (simp add: dispatchConstraints_def)

lemma dispatch_laws:
  assumes "engine_laws e" "registry_ok db"
  shows "table_laws dispatchConstraints (re_dispatches e)"
    "satisfies dispatchConstraints (rg_dispatches db)"
  using assms by (simp_all add: engine_laws_def registry_ok_def)

lemma findDispatch_Some:
  "registry_ok db \<Longrightarrow> findDispatch k db = Some d \<longleftrightarrow> d \<in> set (rg_dispatches db) \<and> d_dispatchId d = k"
  using row_at_Some [OF _ dispatch_key, of "rg_dispatches db" "[k]" d]
  by (simp add: registry_ok_def findDispatch_def)

lemma changeDispatches:
  assumes laws: "engine_laws e" and ok: "registry_ok db"
    and keep: "\<And>r. d_dispatchId (f r) = d_dispatchId r \<and> d_workflowKey (f r) = d_workflowKey r"
    and r: "r \<in> set (rg_dispatches db)" "w r"
  shows "\<exists>db'. onDispatches err (to_update (re_dispatches e) w f) db = (db', Inr ()) \<and>
    registry_ok db' \<and>
    (\<forall>k. findDispatch k db' = map_option (\<lambda>r. if w r then f r else r) (findDispatch k db))"
proof -
  have keep': "c (f r) = c r" if "c \<in> set dispatchConstraints" for c r
    using that keep [of r] by (auto simp: dispatchConstraints_def)
  obtain rows where rows: "to_update (re_dispatches e) w f (rg_dispatches db) = Inr rows"
    "satisfies dispatchConstraints rows"
    "\<forall>c\<in>set dispatchConstraints. \<forall>k. row_at c rows k =
       map_option (\<lambda>r. if w r then f r else r) (row_at c (rg_dispatches db) k)"
    using update_kept [where w = w and f = f, OF dispatch_laws [OF laws ok] keep' r] by blast
  have "registry_ok (db\<lparr>rg_dispatches := rows\<rparr>)" using ok rows(2) by (simp add: registry_ok_def)
  moreover have "findDispatch k (db\<lparr>rg_dispatches := rows\<rparr>) =
      map_option (\<lambda>r. if w r then f r else r) (findDispatch k db)" for k
    using rows(3) dispatch_key unfolding findDispatch_def by simp
  ultimately show ?thesis using rows(1) by (simp add: table_writes writeTable_def)
qed

lemma updateDispatch_ok:
  assumes "engine_laws e" "registry_ok db"
    and "\<And>r. d_dispatchId (f r) = d_dispatchId r \<and> d_workflowKey (f r) = d_workflowKey r"
    and d: "findDispatch k db = Some d"
  shows "\<exists>db'. updateDispatch e k f db = (db', Inr ()) \<and> registry_ok db' \<and>
    (\<forall>j. findDispatch j db' = (if j = k then Some (f d) else findDispatch j db))"
proof -
  have r: "d \<in> set (rg_dispatches db)" "d_dispatchId d = k"
    using d findDispatch_Some [OF assms(2)] by blast+
  obtain db' where db': "updateDispatch e k f db = (db', Inr ())" "registry_ok db'"
    "\<forall>j. findDispatch j db' =
       map_option (\<lambda>r. if d_dispatchId r = k then f r else r) (findDispatch j db)"
    using changeDispatches [where w = "\<lambda>r. d_dispatchId r = k" and f = f and err = DispatchDatabase,
        OF assms(1-3) r] by (auto simp: updateDispatch_def)
  have "findDispatch j db' = (if j = k then Some (f d) else findDispatch j db)" for j
  proof (cases "findDispatch j db")
    case None
    then show ?thesis using db'(3) d by auto
  next
    case (Some x)
    then have "d_dispatchId x = j" using findDispatch_Some [OF assms(2)] by blast
    then show ?thesis using db'(3) Some d by auto
  qed
  then show ?thesis using db' by blast
qed

lemma run_laws:
  assumes "engine_laws e" "registry_ok db"
  shows "table_laws [\<lambda>r. Some [r_workflowId r]] (re_runs e)"
    "satisfies [\<lambda>r. Some [r_workflowId r]] (rg_runs db)"
  using assms by (simp_all add: engine_laws_def registry_ok_def runConstraints_def)

lemma runs_written:
  assumes "registry_ok db" "satisfies [\<lambda>r. Some [r_workflowId r]] rows"
  shows "registry_ok (db\<lparr>rg_runs := rows\<rparr>)" "findDispatch k (db\<lparr>rg_runs := rows\<rparr>) = findDispatch k db"
  using assms by (simp_all add: registry_ok_def runConstraints_def findDispatch_def)

text \<open>The projection of a run never fails, and leaves the dispatches alone.\<close>

lemma startedMutation_ok:
  assumes "engine_laws e" "registry_ok db" "findDispatch (si_dispatchId i) db = Some d"
  shows "\<exists>db'. startedMutation e i db = (db', Inr ()) \<and> registry_ok db' \<and>
    (\<forall>k. findDispatch k db' = findDispatch k db)"
proof (cases "findRun (si_workflowId i) db")
  case None
  let ?new = "(newRunRow e db)\<lparr>r_assetVersionId := d_assetVersionId d,
     r_currentPhase := si_currentPhase i, r_startedAt := Some (si_startedAt i),
     r_state := run_queued, r_updatedAt := si_startedAt i,
     r_workflowDispatchId := Some (si_dispatchId i), r_workflowId := si_workflowId i,
     r_workflowTemplateId := d_workflowTemplateId d\<rparr>"
  obtain rows where rows: "to_create (re_runs e) ?new (rg_runs db) = Inr rows"
    "satisfies [\<lambda>r. Some [r_workflowId r]] rows"
    using create_single [OF run_laws [OF assms(1,2)], of ?new "[si_workflowId i]"] None
    by (auto simp: findRun_def)
  have "startedMutation e i db = (db\<lparr>rg_runs := rows\<rparr>, Inr ())"
    using assms(3) None rows(1) by (simp add: startedMutation_def table_writes writeTable_def)
  then show ?thesis using runs_written [OF assms(2) rows(2)] by blast
next
  case (Some x)
  let ?f = "\<lambda>r. r\<lparr>r_assetVersionId := d_assetVersionId d,
     r_currentPhase := (if r_state x \<noteq> run_queued \<and> truthy_str (r_currentPhase x)
        then r_currentPhase x else si_currentPhase i),
     r_startedAt := or_else (r_startedAt x) (Some (si_startedAt i)),
     r_state := (if r_state x \<noteq> run_queued then r_state x else run_queued),
     r_updatedAt := si_startedAt i,
     r_workflowDispatchId := or_else (r_workflowDispatchId x) (Some (si_dispatchId i))\<rparr>"
  let ?w = "\<lambda>r. r_workflowId r = si_workflowId i"
  have x: "x \<in> set (rg_runs db)" "?w x"
    using Some row_at_Some [OF run_laws(2) [OF assms(1,2)], of "\<lambda>r. Some [r_workflowId r]"]
    by (auto simp: findRun_def)
  obtain rows where rows: "to_update (re_runs e) ?w ?f (rg_runs db) = Inr rows"
    "satisfies [\<lambda>r. Some [r_workflowId r]] rows"
    using update_kept [where w = ?w and f = ?f, OF run_laws [OF assms(1,2)] _ x] by auto
  have "startedMutation e i db = (db\<lparr>rg_runs := rows\<rparr>, Inr ())"
    using assms(3) Some rows(1) by (simp add: startedMutation_def table_writes writeTable_def)
  then show ?thesis using runs_written [OF assms(2) rows(2)] by blast
qed

lemma duplicateMutation_ok:
  assumes "engine_laws e" "registry_ok db" "findDispatch (du_dispatchId i) db = Some d"
  shows "\<exists>db'. duplicateMutation e i db = (db', Inr ()) \<and> registry_ok db' \<and>
    (\<forall>k. findDispatch k db' = findDispatch k db)"
proof -
  let ?f = "\<lambda>r. r\<lparr>r_assetVersionId := d_assetVersionId d, r_currentPhase := du_currentPhase i,
     r_startedAt := Some (du_observedAt i), r_state := nullish (du_workflowRunState i) run_running,
     r_updatedAt := du_observedAt i, r_workflowDispatchId := Some (du_dispatchId i)\<rparr>"
  let ?new = "(newRunRow e db)\<lparr>r_assetVersionId := d_assetVersionId d,
     r_currentPhase := du_currentPhase i, r_startedAt := Some (du_observedAt i),
     r_state := nullish (du_workflowRunState i) run_running, r_updatedAt := du_observedAt i,
     r_workflowDispatchId := Some (du_dispatchId i), r_workflowId := du_workflowId i,
     r_workflowTemplateId := d_workflowTemplateId d\<rparr>"
  let ?c = "\<lambda>r. Some [r_workflowId r]"
  have c: "?c ?new = Some [du_workflowId i]"
    "\<And>r. ?c r = Some [du_workflowId i] \<Longrightarrow> ?c (?f r) = Some [du_workflowId i]" by simp_all
  obtain rows where "to_upsert (re_runs e) (\<lambda>r. ?c r = Some [du_workflowId i]) ?f ?new (rg_runs db) =
      Inr rows"
    using upsert_single [where c = ?c and f = ?f, OF run_laws [OF assms(1,2)] c] by blast
  then have rows: "to_upsert (re_runs e) (\<lambda>r. r_workflowId r = du_workflowId i) ?f ?new (rg_runs db) =
      Inr rows" by simp
  have sat: "satisfies [?c] rows" using upsert_result(1) [OF run_laws [OF assms(1,2)] rows] .
  have "duplicateMutation e i db = (db\<lparr>rg_runs := rows\<rparr>, Inr ())"
    using assms(3) rows by (simp add: duplicateMutation_def table_writes writeTable_def)
  then show ?thesis using runs_written [OF assms(2) sat] by blast
qed

section \<open>The simulation with the in-memory store\<close>

definition agrees :: "registry_db \<Rightarrow> dispatch_store \<Rightarrow> bool" where
  "agrees db s \<longleftrightarrow> registry_ok db \<and> (\<forall>k. findDispatch k db = js_get (dispatches s) k)"

fun durableReport ::
  "unit dispatch_tx \<Rightarrow> registry_engine \<Rightarrow> report \<Rightarrow> registry_db
     \<Rightarrow> (registry_db, durable_dispatch_error, unit) outcome" where
  "durableReport tx e (ReportStarted i) = durableRecordStarted tx e i"
| "durableReport tx e (ReportDuplicate i) = durableRecordDuplicate tx e i"
| "durableReport tx e (ReportFailedRetryable i) = durableFailedRetryable tx e i"
| "durableReport tx e (ReportFailedTerminal i) = durableFailedTerminal tx e i"

fun reported :: "report \<Rightarrow> dispatch_record \<Rightarrow> dispatch_record" where
  "reported (ReportStarted i) d =
     d\<lparr>d_dispatchState := disp_started, d_updatedAt := si_startedAt i,
       d_lastAttemptAt := Some (si_startedAt i), d_versionToken := d_versionToken d + 1\<rparr>"
| "reported (ReportDuplicate i) d =
     d\<lparr>d_dispatchState := disp_duplicate, d_updatedAt := du_observedAt i,
       d_lastAttemptAt := Some (du_observedAt i), d_versionToken := d_versionToken d + 1\<rparr>"
| "reported (ReportFailedRetryable i) d =
     d\<lparr>d_dispatchState := disp_failed_retryable, d_lastAttemptAt := Some (fi_failedAt i),
       d_lastFailureClass := Some (fi_failureClass i), d_retrySummary := fi_retrySummary i,
       d_updatedAt := fi_failedAt i, d_versionToken := d_versionToken d + 1\<rparr>"
| "reported (ReportFailedTerminal i) d =
     d\<lparr>d_dispatchState := disp_failed_terminal, d_lastAttemptAt := Some (fi_failedAt i),
       d_lastFailureClass := Some (fi_failureClass i), d_retrySummary := fi_retrySummary i,
       d_updatedAt := fi_failedAt i, d_versionToken := d_versionToken d + 1\<rparr>"

text \<open>A retry summary without JSON nulls is stored as it is.\<close>

fun plain_report :: "report \<Rightarrow> bool" where
  "plain_report (ReportFailedRetryable i) = (\<forall>s. fi_retrySummary i = Some s \<longrightarrow> null_free (JObj s))"
| "plain_report (ReportFailedTerminal i) = (\<forall>s. fi_retrySummary i = Some s \<longrightarrow> null_free (JObj s))"
| "plain_report _ = True"

lemma memory_report_exact:
  assumes "runs_inv gen s" "js_get (dispatches s) (reportKey r) = Some d"
    "d_versionToken d = reportToken r" "d_dispatchState d = disp_starting"
  shows "\<exists>s'. runReport gen r s = (s', Inr ()) \<and>
    dispatches s' = js_set (reportKey r) (reported r d) (dispatches s)"
proof -
  have up: "\<exists>s'. upsertWorkflowRun gen x (s\<lparr>dispatches := m\<rparr>) = (s', Inr ()) \<and> dispatches s' = m" for x m
  proof -
    let ?u = "upsertWorkflowRun gen x (s\<lparr>dispatches := m\<rparr>)"
    have "runs_inv gen (s\<lparr>dispatches := m\<rparr>)" using assms(1) by simp
    then have "snd ?u = Inr ()" using upsert_ok by blast
    moreover have "dispatches (fst ?u) = m" by simp
    ultimately show ?thesis by (metis prod.collapse)
  qed
  show ?thesis
  proof (cases r)
    case (ReportStarted i)
    then show ?thesis using assms(2-4) up by (simp add: recordStarted_def getMutableDispatch_def Let_def)
  next
    case (ReportDuplicate i)
    then show ?thesis using assms(2-4) up by (simp add: recordDuplicate_def getMutableDispatch_def Let_def)
  qed (use assms(2-4) in \<open>simp_all add: recordFailedRetryable_def recordFailedTerminal_def
        recordFailure_def getMutableDispatch_def\<close>)
qed

lemma failureMutation_ok:
  assumes "engine_laws e" "registry_ok db" "findDispatch (fi_dispatchId i) db = Some d"
    and "\<forall>s. fi_retrySummary i = Some s \<longrightarrow> null_free (JObj s)"
  shows "\<exists>db'. failureMutation e i db = (db', Inr ()) \<and> registry_ok db' \<and>
    (\<forall>k. findDispatch k db' = (if k = fi_dispatchId i
       then Some (d\<lparr>d_lastFailureClass := Some (fi_failureClass i),
              d_lastAttemptAt := Some (fi_failedAt i), d_retrySummary := fi_retrySummary i,
              d_updatedAt := fi_failedAt i\<rparr>)
       else findDispatch k db))"
proof -
  have summary: "(case fi_retrySummary i of
      Some s \<Rightarrow> asRecord (toJsonValue (JObj s)) | None \<Rightarrow> None) = fi_retrySummary i"
    using assms(4) toJsonValue_id
    by (cases "fi_retrySummary i") (auto simp: asRecord_def simp del: toJsonValue.simps)
  show ?thesis unfolding failureMutation_def summary
    by (rule updateDispatch_ok [OF assms(1,2) _ assms(3)]) simp
qed

lemma transition_ok:
  assumes tx: "transactional tx" and laws: "engine_laws e" and ok: "registry_ok db"
    and d: "findDispatch k db = Some d" "d_versionToken d = tok" "d_dispatchState d = disp_starting"
    and mutation: "\<And>db1 d1. registry_ok db1 \<Longrightarrow> findDispatch k db1 = Some d1 \<Longrightarrow>
      \<exists>db'. mutation db1 = (db', Inr ()) \<and> registry_ok db' \<and>
        (\<forall>j. findDispatch j db' = (if j = k then Some (g d1) else findDispatch j db1))"
  shows "\<exists>db'. transitionDispatch tx e k tok t mutation n db = (db', Inr ()) \<and> registry_ok db' \<and>
    (\<forall>j. findDispatch j db' = (if j = k
       then Some (g (d\<lparr>d_dispatchState := t, d_lastAttemptAt := Some n, d_updatedAt := n,
              d_versionToken := d_versionToken d + 1\<rparr>)) else findDispatch j db))"
proof -
  let ?f = "\<lambda>r. r\<lparr>d_dispatchState := t, d_lastAttemptAt := Some n, d_updatedAt := n,
    d_versionToken := d_versionToken r + 1\<rparr>"
  obtain db1 where db1: "updateDispatch e k ?f db = (db1, Inr ())" "registry_ok db1"
    "\<forall>j. findDispatch j db1 = (if j = k then Some (?f d) else findDispatch j db)"
    using updateDispatch_ok [where f = ?f, OF laws ok _ d(1)] by auto
  obtain db2 where db2: "mutation db1 = (db2, Inr ())" "registry_ok db2"
    "\<forall>j. findDispatch j db2 = (if j = k then Some (g (?f d)) else findDispatch j db1)"
    using mutation [OF db1(2), of "?f d"] db1(3) by auto
  have "transitionBody e k tok t mutation n db = (db2, Inr ())"
    using d db1(1) db2(1) by (simp add: transitionBody_def)
  then have "transitionDispatch tx e k tok t mutation n db = (db2, Inr ())"
    unfolding transitionDispatch_def by (rule tx_committed [OF tx])
  then show ?thesis using db2(2,3) db1(3) by auto
qed

lemma durable_report_exact:
  assumes tx: "transactional tx" and laws: "engine_laws e" and ok: "registry_ok db"
    and d: "findDispatch (reportKey r) db = Some d" "d_versionToken d = reportToken r"
      "d_dispatchState d = disp_starting" and plain: "plain_report r"
  shows "\<exists>db'. durableReport tx e r db = (db', Inr ()) \<and> registry_ok db' \<and>
    (\<forall>j. findDispatch j db' = (if j = reportKey r then Some (reported r d) else findDispatch j db))"
proof (cases r)
  case (ReportStarted i)
  have m: "\<exists>db'. startedMutation e i db1 = (db', Inr ()) \<and> registry_ok db' \<and>
      (\<forall>j. findDispatch j db' = (if j = si_dispatchId i then Some d1 else findDispatch j db1))"
    if "registry_ok db1" "findDispatch (si_dispatchId i) db1 = Some d1" for db1 d1
    using startedMutation_ok [OF laws that] that by metis
  have eq: "(d\<lparr>d_dispatchState := disp_started, d_lastAttemptAt := Some (si_startedAt i),
      d_updatedAt := si_startedAt i, d_versionToken := d_versionToken d + 1\<rparr>) = reported r d"
    unfolding ReportStarted reported.simps by (rule dispatch_record.equality) simp_all
  note d' = d [unfolded ReportStarted reportKey.simps reportToken.simps]
  show ?thesis
    using transition_ok [where g = "\<lambda>d. d" and mutation = "startedMutation e i" and t = disp_started
        and n = "si_startedAt i", OF tx laws ok d' m,
        unfolded eq] ReportStarted
    by (simp add: durableRecordStarted_def split del: if_split)
next
  case (ReportDuplicate i)
  have m: "\<exists>db'. duplicateMutation e i db1 = (db', Inr ()) \<and> registry_ok db' \<and>
      (\<forall>j. findDispatch j db' = (if j = du_dispatchId i then Some d1 else findDispatch j db1))"
    if "registry_ok db1" "findDispatch (du_dispatchId i) db1 = Some d1" for db1 d1
    using duplicateMutation_ok [OF laws that] that by metis
  have eq: "(d\<lparr>d_dispatchState := disp_duplicate, d_lastAttemptAt := Some (du_observedAt i),
      d_updatedAt := du_observedAt i, d_versionToken := d_versionToken d + 1\<rparr>) = reported r d"
    unfolding ReportDuplicate reported.simps by (rule dispatch_record.equality) simp_all
  note d' = d [unfolded ReportDuplicate reportKey.simps reportToken.simps]
  show ?thesis
    using transition_ok [where g = "\<lambda>d. d" and mutation = "duplicateMutation e i" and t = disp_duplicate
        and n = "du_observedAt i", OF tx laws ok d' m,
        unfolded eq] ReportDuplicate
    by (simp add: durableRecordDuplicate_def split del: if_split)
next
  case (ReportFailedRetryable i)
  let ?g = "\<lambda>d. d\<lparr>d_lastFailureClass := Some (fi_failureClass i),
    d_lastAttemptAt := Some (fi_failedAt i), d_retrySummary := fi_retrySummary i,
    d_updatedAt := fi_failedAt i\<rparr>"
  have m: "\<exists>db'. failureMutation e i db1 = (db', Inr ()) \<and> registry_ok db' \<and>
      (\<forall>j. findDispatch j db' = (if j = fi_dispatchId i then Some (?g d1) else findDispatch j db1))"
    if "registry_ok db1" "findDispatch (fi_dispatchId i) db1 = Some d1" for db1 d1
    using failureMutation_ok [OF laws that] plain ReportFailedRetryable by simp
  have eq: "?g (d\<lparr>d_dispatchState := disp_failed_retryable, d_lastAttemptAt := Some (fi_failedAt i),
      d_updatedAt := fi_failedAt i, d_versionToken := d_versionToken d + 1\<rparr>) = reported r d"
    unfolding ReportFailedRetryable reported.simps by (rule dispatch_record.equality) simp_all
  note d' = d [unfolded ReportFailedRetryable reportKey.simps reportToken.simps]
  show ?thesis
    using transition_ok [where g = "?g" and mutation = "failureMutation e i" and t = disp_failed_retryable
        and n = "fi_failedAt i", OF tx laws ok d' m,
        unfolded eq] ReportFailedRetryable
    by (simp add: durableFailedRetryable_def durableRecordFailure_def split del: if_split)
next
  case (ReportFailedTerminal i)
  let ?g = "\<lambda>d. d\<lparr>d_lastFailureClass := Some (fi_failureClass i),
    d_lastAttemptAt := Some (fi_failedAt i), d_retrySummary := fi_retrySummary i,
    d_updatedAt := fi_failedAt i\<rparr>"
  have m: "\<exists>db'. failureMutation e i db1 = (db', Inr ()) \<and> registry_ok db' \<and>
      (\<forall>j. findDispatch j db' = (if j = fi_dispatchId i then Some (?g d1) else findDispatch j db1))"
    if "registry_ok db1" "findDispatch (fi_dispatchId i) db1 = Some d1" for db1 d1
    using failureMutation_ok [OF laws that] plain ReportFailedTerminal by simp
  have eq: "?g (d\<lparr>d_dispatchState := disp_failed_terminal, d_lastAttemptAt := Some (fi_failedAt i),
      d_updatedAt := fi_failedAt i, d_versionToken := d_versionToken d + 1\<rparr>) = reported r d"
    unfolding ReportFailedTerminal reported.simps by (rule dispatch_record.equality) simp_all
  note d' = d [unfolded ReportFailedTerminal reportKey.simps reportToken.simps]
  show ?thesis
    using transition_ok [where g = "?g" and mutation = "failureMutation e i" and t = disp_failed_terminal
        and n = "fi_failedAt i", OF tx laws ok d' m,
        unfolded eq] ReportFailedTerminal
    by (simp add: durableFailedTerminal_def durableRecordFailure_def split del: if_split)
qed

lemma memory_report_refused:
  "js_get (dispatches s) (reportKey r) = None \<Longrightarrow>
    runReport gen r s = (s, Inl (WorkflowDispatchNotFoundError (reportKey r)))"
  "js_get (dispatches s) (reportKey r) = Some d \<Longrightarrow> d_versionToken d \<noteq> reportToken r \<Longrightarrow>
    runReport gen r s = (s, Inl (WorkflowDispatchVersionConflictError (reportKey r) (reportToken r)))"
  "js_get (dispatches s) (reportKey r) = Some d \<Longrightarrow> d_versionToken d = reportToken r \<Longrightarrow>
    d_dispatchState d \<noteq> disp_starting \<Longrightarrow> runReport gen r s =
      (s, Inl (WorkflowDispatchStateTransitionError (d_dispatchId d) (d_dispatchState d) (reportState r)))"
  by (cases r; simp add: recordStarted_def recordDuplicate_def recordFailedRetryable_def
      recordFailedTerminal_def recordFailure_def getMutableDispatch_def)+

lemma durable_report_refused:
  assumes "transactional tx"
  shows "findDispatch (reportKey r) db = None \<Longrightarrow>
    durableReport tx e r db = (db, Inl (DispatchRefused (WorkflowDispatchNotFoundError (reportKey r))))"
  "findDispatch (reportKey r) db = Some d \<Longrightarrow> d_versionToken d \<noteq> reportToken r \<Longrightarrow>
    durableReport tx e r db =
      (db, Inl (DispatchRefused (WorkflowDispatchVersionConflictError (reportKey r) (reportToken r))))"
  "findDispatch (reportKey r) db = Some d \<Longrightarrow> d_versionToken d = reportToken r \<Longrightarrow>
    d_dispatchState d \<noteq> disp_starting \<Longrightarrow> durableReport tx e r db =
      (db, Inl (DispatchRefused
         (WorkflowDispatchStateTransitionError (reportKey r) (d_dispatchState d) (reportState r))))"
  by (cases r; simp add: durableRecordStarted_def durableRecordDuplicate_def
      durableFailedRetryable_def durableFailedTerminal_def durableRecordFailure_def
      transitionDispatch_def transitionBody_def tx_aborted [OF assms])+

lemma report_simulates:
  assumes tx: "transactional tx" and laws: "engine_laws e"
    and ag: "agrees db s" and inv: "dispatch_inv gen s" and plain: "plain_report r"
    and mem: "runReport gen r s = (s', x)" and dur: "durableReport tx e r db = (db', y)"
  shows "agrees db' s' \<and> y = map_sum DispatchRefused id x"
proof (cases "findDispatch (reportKey r) db")
  case None
  then have "js_get (dispatches s) (reportKey r) = None" using ag by (simp add: agrees_def)
  then show ?thesis using memory_report_refused(1) durable_report_refused(1) [OF tx None] mem dur ag
    by auto
next
  case (Some d)
  have ok: "registry_ok db" using ag by (simp add: agrees_def)
  have d: "js_get (dispatches s) (reportKey r) = Some d" using ag Some by (simp add: agrees_def)
  have k: "d_dispatchId d = reportKey r" using findDispatch_Some [OF ok] Some by blast
  show ?thesis
  proof (cases "d_versionToken d = reportToken r \<and> d_dispatchState d = disp_starting")
    case True
    have ri: "runs_inv gen s" using inv by (simp add: dispatch_inv_def)
    obtain s1 where s1: "runReport gen r s = (s1, Inr ())"
      "dispatches s1 = js_set (reportKey r) (reported r d) (dispatches s)"
      using memory_report_exact [OF ri d] True by blast
    obtain db1 where db1: "durableReport tx e r db = (db1, Inr ())" "registry_ok db1"
      "\<forall>j. findDispatch j db1 = (if j = reportKey r then Some (reported r d) else findDispatch j db)"
      using durable_report_exact [OF tx laws ok Some _ _ plain] True by blast
    have "agrees db1 s1" using db1(2,3) s1(2) ag by (simp add: agrees_def)
    then show ?thesis using s1(1) db1(1) mem dur by simp
  next
    case False
    then show ?thesis
    proof (cases "d_versionToken d = reportToken r")
      case True
      then show ?thesis using False memory_report_refused(3) [OF d True]
          durable_report_refused(3) [OF tx Some True] mem dur ag k by auto
    next
      case neq: False
      then show ?thesis using memory_report_refused(2) [OF d neq]
          durable_report_refused(2) [OF tx Some neq] mem dur ag by auto
    qed
  qed
qed

section \<open>Claims\<close>

lemma filter_one:
  assumes "distinct (map f xs)" "x \<in> set xs" "w x" "\<And>y. y \<in> set xs \<Longrightarrow> w y \<Longrightarrow> f y = f x"
  shows "filter w xs = [x]"
  using assms
proof (induction xs)
  case (Cons a xs)
  show ?case
  proof (cases "a = x")
    case True
    have "\<not> w y" if y: "y \<in> set xs" for y
    proof
      assume "w y"
      then have "f y = f a" using Cons(5) [of y] y True by simp
      then show False using Cons(2) y by (auto simp: image_iff)
    qed
    then show ?thesis using True Cons(4) by simp
  next
    case False
    then have "x \<in> set xs" using Cons(3) by simp
    moreover have "\<not> w a"
    proof
      assume "w a"
      then have "f a = f x" using Cons(5) [of a] by simp
      then show False using Cons(2) \<open>x \<in> set xs\<close> by (auto simp: image_iff)
    qed
    moreover have "filter w xs = [x]"
    proof (rule Cons(1))
      show "\<And>y. y \<in> set xs \<Longrightarrow> w y \<Longrightarrow> f y = f x" by (rule Cons(5)) simp_all
    qed (use Cons(2,4) \<open>x \<in> set xs\<close> in simp_all)
    ultimately show ?thesis by simp
  qed
qed simp

lemma dispatch_ids_distinct: "registry_ok db \<Longrightarrow> distinct (map d_dispatchId (rg_dispatches db))"
proof -
  assume "registry_ok db"
  then have "distinct (List.map_filter (\<lambda>r. Some [d_dispatchId r]) (rg_dispatches db))"
    by (simp add: registry_ok_def satisfies_def dispatchConstraints_def)
  moreover have "List.map_filter (\<lambda>r. Some [d_dispatchId r]) xs = map (\<lambda>r. [d_dispatchId r]) xs"
    for xs :: "dispatch_row list"
    by (induction xs) (simp_all add: List.map_filter_simps)
  ultimately show ?thesis by (simp add: distinct_map inj_on_def)
qed

lemma lockCandidates_ok:
  assumes laws: "engine_laws e"
    and "registry_ok db" "distinct (map d_dispatchId cs)"
    and "\<forall>c\<in>set cs. claimable c \<and> findDispatch (d_dispatchId c) db = Some c"
  shows "\<exists>db'. lockCandidates e at cs db =
      (db', Inr (map (\<lambda>c. mapDispatchRecord (markClaimed at c)) cs)) \<and> registry_ok db' \<and>
    (\<forall>k. findDispatch k db' = (case List.find (\<lambda>c. d_dispatchId c = k) cs of
       Some c \<Rightarrow> Some (markClaimed at c) | None \<Rightarrow> findDispatch k db))"
  using assms(2-4)
proof (induction cs arbitrary: db)
  case (Cons c cs)
  let ?w = "\<lambda>r. claimable r \<and> d_dispatchId r = d_dispatchId c \<and> d_versionToken r = d_versionToken c"
  let ?f = "\<lambda>r. r\<lparr>d_dispatchState := disp_starting,
    d_firstAttemptAt := or_else (d_firstAttemptAt c) (Some at), d_lastAttemptAt := Some at,
    d_updatedAt := at, d_versionToken := d_versionToken r + 1\<rparr>"
  have c: "c \<in> set (rg_dispatches db)" "?w c"
    using Cons(4) findDispatch_Some [OF Cons(2)] by auto
  have one: "filter ?w (rg_dispatches db) = [c]"
    by (rule filter_one [where w = ?w, OF dispatch_ids_distinct [OF Cons(2)] c]) simp
  obtain db1 where db1: "onDispatches DispatchDatabase (to_update (re_dispatches e) ?w ?f) db =
      (db1, Inr ())" "registry_ok db1"
    "\<forall>k. findDispatch k db1 = map_option (\<lambda>r. if ?w r then ?f r else r) (findDispatch k db)"
    using changeDispatches [where w = ?w and f = ?f and err = DispatchDatabase,
        OF laws Cons(2) _ c] by auto
  have mark: "?f c = markClaimed at c"
    unfolding markClaimed_def by (rule dispatch_record.equality) simp_all
  have at: "findDispatch k db1 = (if k = d_dispatchId c then Some (markClaimed at c)
      else findDispatch k db)" for k
  proof (cases "findDispatch k db")
    case None
    then show ?thesis using db1(3) Cons(4) by auto
  next
    case (Some x)
    then have x: "d_dispatchId x = k" using findDispatch_Some [OF Cons(2)] by blast
    have db1k: "findDispatch k db1 = Some (if ?w x then ?f x else x)" using db1(3) Some by simp
    show ?thesis
    proof (cases "k = d_dispatchId c")
      case True
      then have "x = c" using Some Cons(4) by simp
      then show ?thesis using db1k True c(2) mark by simp
    next
      case False
      then show ?thesis using db1k x Some by simp
    qed
  qed
  have rest: "\<forall>x\<in>set cs. claimable x \<and> findDispatch (d_dispatchId x) db1 = Some x"
  proof
    fix x assume x: "x \<in> set cs"
    then have "d_dispatchId x \<noteq> d_dispatchId c" using Cons(3) by (auto simp: image_iff)
    then show "claimable x \<and> findDispatch (d_dispatchId x) db1 = Some x"
      using Cons(4) x at [of "d_dispatchId x"] by simp
  qed
  obtain db2 where db2: "lockCandidates e at cs db1 =
      (db2, Inr (map (\<lambda>c. mapDispatchRecord (markClaimed at c)) cs))" "registry_ok db2"
    "\<forall>k. findDispatch k db2 = (case List.find (\<lambda>c. d_dispatchId c = k) cs of
       Some c \<Rightarrow> Some (markClaimed at c) | None \<Rightarrow> findDispatch k db1)"
    using Cons(1) [OF db1(2) _ rest] Cons(3) by (metis distinct.simps(2) list.simps(9))
  have "lockCandidates e at (c # cs) db =
      (db2, Inr (map (\<lambda>c. mapDispatchRecord (markClaimed at c)) (c # cs)))"
    using one db1(1) db2(1) at by (simp add: Let_def)
  moreover have "findDispatch k db2 = (case List.find (\<lambda>x. d_dispatchId x = k) (c # cs) of
       Some c \<Rightarrow> Some (markClaimed at c) | None \<Rightarrow> findDispatch k db)" for k
  proof (cases "d_dispatchId c = k")
    case True
    then have "List.find (\<lambda>x. d_dispatchId x = k) cs = None"
      using Cons(3) by (auto simp: find_None_iff image_iff)
    then show ?thesis using True db2(3) at by simp
  next
    case False
    then show ?thesis using db2(3) at by (auto split: option.splits)
  qed
  ultimately show ?case using db2(2) by blast
qed simp

lemma dispatchOrder_comparator:
  assumes "collation lc"
  shows "comparator (dispatchOrder lc)"
proof
  fix x y z
  have lc: "lc a b \<le> 0 \<or> lc b a \<le> 0" "lc a b \<le> 0 \<Longrightarrow> lc b c \<le> 0 \<Longrightarrow> lc a c \<le> 0" for a b c
    using assms unfolding collation_def by blast+
  show "dispatchOrder lc x y \<le> 0 \<or> dispatchOrder lc y x \<le> 0"
    using lc(1) by (auto simp: dispatchOrder_def Let_def)
  show "dispatchOrder lc x y \<le> 0 \<Longrightarrow> dispatchOrder lc y z \<le> 0 \<Longrightarrow> dispatchOrder lc x z \<le> 0"
    using lc(2) [of "d_dispatchId x" "d_dispatchId y" "d_dispatchId z"]
    by (auto simp: dispatchOrder_def Let_def split: if_splits)
qed

lemma dispatchOrder_ties:
  "collation lc \<Longrightarrow> dispatchOrder lc x y \<le> 0 \<Longrightarrow> dispatchOrder lc y x \<le> 0 \<Longrightarrow>
    d_dispatchId x = d_dispatchId y"
  by (auto simp: dispatchOrder_def Let_def collation_def split: if_splits)

text \<open>Both stores take the same dispatches, in the same order.\<close>

lemma same_candidates:
  assumes lc: "collation lc" and ag: "agrees db s" and inv: "dispatch_keys_inv s"
  shows "js_sort (dispatchOrder lc) (filter claimable (rg_dispatches db)) =
    filter claimable (js_sort (dispatchOrder lc) (js_values (dispatches s)))"
proof -
  note sorted = comparator.sorted_sort [OF dispatchOrder_comparator [OF lc]]
  have ok: "registry_ok db" using ag by (simp add: agrees_def)
  have ids: "distinct (map d_dispatchId (rg_dispatches db))" by (rule dispatch_ids_distinct [OF ok])
  have ids': "distinct (map d_dispatchId (js_values (dispatches s)))"
    by (rule dispatch_keys_distinct [OF inv])
  have "d \<in> set (rg_dispatches db) \<longleftrightarrow> d \<in> set (js_values (dispatches s))" for d
  proof -
    have "d \<in> set (rg_dispatches db) \<longleftrightarrow> js_get (dispatches s) (d_dispatchId d) = Some d"
      using findDispatch_Some [OF ok, of "d_dispatchId d" d] ag by (simp add: agrees_def)
    also have "\<dots> \<longleftrightarrow> d \<in> set (js_values (dispatches s))"
      using inv js_values_get [of "dispatches s" d] by (auto simp: dispatch_keys_inv_def)
    finally show ?thesis .
  qed
  then have sets: "set (rg_dispatches db) = set (js_values (dispatches s))" by blast
  have inj: "inj_on d_dispatchId (set (rg_dispatches db))" using ids by (simp add: distinct_map)
  show ?thesis
  proof (rule sorted_unique [where cmp = "dispatchOrder lc"])
    fix a b
    assume "a \<in> set (js_sort (dispatchOrder lc) (filter claimable (rg_dispatches db)))"
      "b \<in> set (js_sort (dispatchOrder lc) (filter claimable (rg_dispatches db)))"
      "dispatchOrder lc a b \<le> 0" "dispatchOrder lc b a \<le> 0"
    then have "d_dispatchId a = d_dispatchId b" "a \<in> set (rg_dispatches db)" "b \<in> set (rg_dispatches db)"
      using dispatchOrder_ties [OF lc, of a b] by simp_all
    then show "a = b" using inj by (simp add: inj_on_def)
  next
    show "sorted_wrt (\<lambda>a b. dispatchOrder lc a b \<le> 0)
        (js_sort (dispatchOrder lc) (filter claimable (rg_dispatches db)))" by (rule sorted)
    show "sorted_wrt (\<lambda>a b. dispatchOrder lc a b \<le> 0)
        (filter claimable (js_sort (dispatchOrder lc) (js_values (dispatches s))))"
      by (rule sorted_wrt_filter [OF sorted])
    show "distinct (js_sort (dispatchOrder lc) (filter claimable (rg_dispatches db)))"
      using ids by (simp add: distinct_map)
    show "distinct (filter claimable (js_sort (dispatchOrder lc) (js_values (dispatches s))))"
      using ids' by (simp add: distinct_map)
    show "set (js_sort (dispatchOrder lc) (filter claimable (rg_dispatches db))) =
        set (filter claimable (js_sort (dispatchOrder lc) (js_values (dispatches s))))"
      using sets by simp
  qed
qed

lemma claim_simulates:
  assumes tx: "transactional tx" and laws: "engine_laws e" and lc: "collation lc"
    and ag: "agrees db s" and inv: "dispatch_inv gen s" and limit: "0 \<le> ci_limit i"
  shows "\<exists>db'. durableClaim tx e lc i db = (db', Inr (snd (claimPendingDispatches lc i s))) \<and>
    agrees db' (fst (claimPendingDispatches lc i s))"
proof -
  have keys: "dispatch_keys_inv s" using inv by (simp add: dispatch_inv_def)
  have ok: "registry_ok db" using ag by (simp add: agrees_def)
  let ?cs = "take (nat (ci_limit i))
    (js_sort (dispatchOrder lc) (filter claimable (rg_dispatches db)))"
  have cs: "?cs = claimTaken lc i s"
    using same_candidates [OF lc ag keys] by (simp add: claimTaken_def)
  have dist: "distinct (map d_dispatchId ?cs)" using claimTaken_distinct [OF keys] cs by simp
  have each: "\<forall>c\<in>set ?cs. claimable c \<and> findDispatch (d_dispatchId c) db = Some c"
    using claimTaken_get [OF keys] ag unfolding cs by (simp add: agrees_def)
  obtain db' where db': "lockCandidates e (ci_claimedAt i) ?cs db =
      (db', Inr (map (\<lambda>c. mapDispatchRecord (markClaimed (ci_claimedAt i) c)) ?cs))" "registry_ok db'"
    "\<forall>k. findDispatch k db' = (case List.find (\<lambda>c. d_dispatchId c = k) ?cs of
       Some c \<Rightarrow> Some (markClaimed (ci_claimedAt i) c) | None \<Rightarrow> findDispatch k db)"
    using lockCandidates_ok [OF laws ok dist each] by blast
  have "durableClaim tx e lc i db =
      (db', Inr (map (\<lambda>c. mapDispatchRecord (markClaimed (ci_claimedAt i) c)) ?cs))"
    unfolding durableClaim_def takeRows_def if_P [OF limit] by (rule tx_committed [OF tx]) (rule db'(1))
  moreover have "map (\<lambda>c. mapDispatchRecord (markClaimed (ci_claimedAt i) c)) ?cs =
      snd (claimPendingDispatches lc i s)"
    by (simp add: claim_eq cs mapDispatchRecord_def cloneDispatchRecord_def)
  moreover have "findDispatch k db' = js_get (dispatches (fst (claimPendingDispatches lc i s))) k" for k
  proof (cases "js_get (dispatches s) k")
    case None
    then have "List.find (\<lambda>c. d_dispatchId c = k) ?cs = None"
      using claimTaken_get [OF keys] by (auto simp: find_None_iff cs)
    then show ?thesis using None db'(3) claim_dom [OF keys, of lc i k] ag by (simp add: agrees_def)
  next
    case (Some d)
    have k: "d_dispatchId d = k" using keys Some by (simp add: dispatch_keys_inv_def)
    show ?thesis
    proof (cases "d \<in> set (claimTaken lc i s)")
      case True
      then obtain c where c: "List.find (\<lambda>c. d_dispatchId c = k) ?cs = Some c"
        using k by (cases "List.find (\<lambda>c. d_dispatchId c = k) ?cs") (auto simp: find_None_iff cs)
      then have "c \<in> set (claimTaken lc i s)" "d_dispatchId c = k"
        by (auto simp: find_Some_iff cs)
      then have "c = d" using claimTaken_get [OF keys, of c lc i] Some by simp
      then show ?thesis using c db'(3) claim_get [OF keys Some, of lc i] True by simp
    next
      case False
      then have "List.find (\<lambda>c. d_dispatchId c = k) ?cs = None"
        using claimTaken_get [OF keys] Some by (force simp: find_None_iff cs)
      then show ?thesis using db'(3) claim_get [OF keys Some, of lc i] False ag Some
        by (simp add: agrees_def)
    qed
  qed
  ultimately show ?thesis using db'(2) by (simp add: agrees_def)
qed

section \<open>Histories\<close>

datatype dispatch_answer =
  Claimed "dispatch_record list"
| Reported "durable_dispatch_error option"

fun memoryAnswer ::
  "(nat \<Rightarrow> string) \<Rightarrow> (string \<Rightarrow> string \<Rightarrow> int) \<Rightarrow> dispatch_op \<Rightarrow> dispatch_store
     \<Rightarrow> dispatch_store \<times> dispatch_answer" where
  "memoryAnswer gen lc (OpClaim i) s =
     (case claimPendingDispatches lc i s of (s', ds) \<Rightarrow> (s', Claimed ds))"
| "memoryAnswer gen lc (OpReport r) s =
     (case runReport gen r s of
        (s', Inl x) \<Rightarrow> (s', Reported (Some (DispatchRefused x)))
      | (s', Inr _) \<Rightarrow> (s', Reported None))"

fun durableAnswer ::
  "dispatch_record list dispatch_tx \<Rightarrow> unit dispatch_tx \<Rightarrow> registry_engine
     \<Rightarrow> (string \<Rightarrow> string \<Rightarrow> int) \<Rightarrow> dispatch_op \<Rightarrow> registry_db \<Rightarrow> registry_db \<times> dispatch_answer" where
  "durableAnswer txc txr e lc (OpClaim i) db =
     (case durableClaim txc e lc i db of
        (db', Inl x) \<Rightarrow> (db', Reported (Some x))
      | (db', Inr ds) \<Rightarrow> (db', Claimed ds))"
| "durableAnswer txc txr e lc (OpReport r) db =
     (case durableReport txr e r db of
        (db', Inl x) \<Rightarrow> (db', Reported (Some x))
      | (db', Inr _) \<Rightarrow> (db', Reported None))"

fun answers :: "('op \<Rightarrow> 's \<Rightarrow> 's \<times> 'r) \<Rightarrow> 'op list \<Rightarrow> 's \<Rightarrow> 's \<times> 'r list" where
  "answers f [] s = (s, [])"
| "answers f (op # ops) s =
     (let (s1, r) = f op s; (s2, rs) = answers f ops s1 in (s2, r # rs))"

fun plain_op :: "dispatch_op \<Rightarrow> bool" where
  "plain_op (OpClaim i) = (0 \<le> ci_limit i)"
| "plain_op (OpReport r) = plain_report r"

lemma answer_simulates:
  assumes "transactional txc" "transactional txr" "engine_laws e" "collation lc"
    and "fresh_ids gen" "agrees db s" "dispatch_inv gen s" "plain_op op"
    and "memoryAnswer gen lc op s = (s', a)" "durableAnswer txc txr e lc op db = (db', b)"
  shows "agrees db' s' \<and> dispatch_inv gen s' \<and> b = a"
proof -
  have inv': "dispatch_inv gen (runDispatchOp gen lc op s)" using op_step [OF assms(5,7)] by blast
  show ?thesis
  proof (cases op)
    case (OpClaim i)
    obtain db1 where "durableClaim txc e lc i db = (db1, Inr (snd (claimPendingDispatches lc i s)))"
      "agrees db1 (fst (claimPendingDispatches lc i s))"
      using claim_simulates [OF assms(1,3,4,6,7)] assms(8) OpClaim by auto
    then show ?thesis using assms(9,10) OpClaim inv' by (auto split: prod.splits)
  next
    case (OpReport r)
    obtain s1 x where m: "runReport gen r s = (s1, x)" by (cases "runReport gen r s")
    obtain db1 y where d: "durableReport txr e r db = (db1, y)" by (cases "durableReport txr e r db")
    have "agrees db1 s1 \<and> y = map_sum DispatchRefused id x"
      using report_simulates [OF assms(2,3,6,7) _ m d] assms(8) OpReport by simp
    then show ?thesis using assms(9,10) OpReport m d inv' by (cases x) auto
  qed
qed

lemma answers_simulate:
  assumes "transactional txc" "transactional txr" "engine_laws e" "collation lc" "fresh_ids gen"
  shows "agrees db s \<Longrightarrow> dispatch_inv gen s \<Longrightarrow> list_all plain_op ops \<Longrightarrow>
    snd (answers (durableAnswer txc txr e lc) ops db) = snd (answers (memoryAnswer gen lc) ops s) \<and>
    agrees (fst (answers (durableAnswer txc txr e lc) ops db)) (fst (answers (memoryAnswer gen lc) ops s))"
proof (induction ops arbitrary: db s)
  case (Cons op ops)
  obtain s1 a where m: "memoryAnswer gen lc op s = (s1, a)" by (cases "memoryAnswer gen lc op s")
  obtain db1 b where d: "durableAnswer txc txr e lc op db = (db1, b)"
    by (cases "durableAnswer txc txr e lc op db")
  have step: "agrees db1 s1 \<and> dispatch_inv gen s1 \<and> b = a"
    using answer_simulates [OF assms Cons(2,3) _ m d] Cons(4) by simp
  then show ?case using Cons(1) [of db1 s1] Cons(4) m d by (simp add: split_beta Let_def)
qed simp

text \<open>C6. The durable dispatch store refines the in-memory one on plain histories. Start both from states
  that hold the same dispatches, the in-memory one reachable, and give them the same claims and reports
  in the same order: they hand out the same dispatches, refuse the same reports with the same errors,
  and hold the same dispatches afterwards. The history is plain when no claim asks for a negative
  number, which the durable query reads as counting from the end, and no reported retry summary holds a
  JSON null, which the durable store writes down as text. The \<open>ORDER BY\<close> of the database and
  \<open>localeCompare\<close> are taken to be one collation, and the transactions, the engine and the generator of
  identifiers to keep their contracts.\<close>

theorem durable_dispatch_refines:
  assumes "transactional txc" "transactional txr" "engine_laws e" "collation lc" "fresh_ids gen"
    and "reachable_store gen lc s" "agrees db s" "list_all plain_op ops"
  shows "snd (answers (durableAnswer txc txr e lc) ops db) = snd (answers (memoryAnswer gen lc) ops s) \<and>
    agrees (fst (answers (durableAnswer txc txr e lc) ops db)) (fst (answers (memoryAnswer gen lc) ops s))"
  using answers_simulate [OF assms(1-5,7) reachable_inv [OF assms(6,5)] assms(8)] .

definition exampleDispatchDb :: registry_db where
  "exampleDispatchDb =
     \<lparr>rg_versions = [], rg_scopes = [], rg_derivatives = [], rg_manifests = [],
      rg_dispatches = [seedDispatch (exampleSeed ''d1'')], rg_runs = [], rg_audit = []\<rparr>"

lemma example_agrees: "agrees exampleDispatchDb (newDispatchStore [exampleSeed ''d1''])"
  by (simp add: agrees_def exampleDispatchDb_def registry_ok_def satisfies_def versionConstraints_def
      derivativeConstraints_def manifestConstraints_def dispatchConstraints_def
      runConstraints_def List.map_filter_simps newDispatchStore_def findDispatch_def row_at_def
      seedDispatch_def exampleSeed_def Let_def)

theorem durable_dispatch_refines_witness:
  "snd (answers (durableAnswer listTransaction listTransaction listEngine codeUnitCompare)
     [OpClaim exampleClaim, OpReport (ReportStarted (exampleStarted 2)), OpClaim exampleClaim]
     exampleDispatchDb) =
   [Claimed [markClaimed 5 (seedDispatch (exampleSeed ''d1''))], Reported None, Claimed []]"
proof -
  have "snd (answers (memoryAnswer exampleGen codeUnitCompare)
     [OpClaim exampleClaim, OpReport (ReportStarted (exampleStarted 2)), OpClaim exampleClaim]
     (newDispatchStore [exampleSeed ''d1''])) =
   [Claimed [markClaimed 5 (seedDispatch (exampleSeed ''d1''))], Reported None, Claimed []]"
    by (simp add: exampleClaim_def exampleSeed_def newDispatchStore_def exampleStarted_def
        claimPendingDispatches_def js_values_def claimable_def seedDispatch_def markClaimed_def
        cloneDispatchRecord_def recordStarted_def getMutableDispatch_def Let_def upsertWorkflowRun_def startedRun_def)
  moreover have "list_all plain_op
     [OpClaim exampleClaim, OpReport (ReportStarted (exampleStarted 2)), OpClaim exampleClaim]"
    by (simp add: exampleClaim_def)
  ultimately show ?thesis
    using durable_dispatch_refines [OF listTransaction_laws listTransaction_laws listEngine_laws
        codeUnit_collation fresh_exampleGen constructed example_agrees] by metis
qed

end
