(* ===== verification/Text_Bytes.thy ===== *)
theory Text_Bytes
  imports Base_Prelude "HOL-Library.Word"
begin

unbundle bit_operations_syntax

text \<open>
  Buffers and texts for the archive adapters. A \<open>Buffer\<close> is a list of bytes (\<open>8 word list\<close>);
  \<open>sub\<close> is \<open>subarray\<close>, \<open>blit\<close> a write of bytes at an offset. A JavaScript string is the list of its
  UTF-16 code units (\<open>16 word list\<close>); \<open>utf8_encode\<close> and \<open>utf8_decode\<close> are \<open>Buffer.from(s, 'utf8')\<close>
  and \<open>toString('utf8')\<close>, with the replacement character for what is not well formed. The lemmas
  give reads after writes, reads of concatenations, and the round trip of well-formed text.
\<close>

type_synonym buffer = "8 word list"
type_synonym js_text = "16 word list"

section \<open>Buffers\<close>

definition sub :: "nat \<Rightarrow> nat \<Rightarrow> 'a list \<Rightarrow> 'a list" where
  "sub start stop buf = take (stop - start) (drop start buf)"

definition blit :: "nat \<Rightarrow> 'a list \<Rightarrow> 'a list \<Rightarrow> 'a list" where
  "blit off src buf = take off buf @ src @ drop (off + length src) buf"

lemma length_sub [simp]: "stop \<le> length buf \<Longrightarrow> length (sub start stop buf) = stop - start"
  by (simp add: sub_def)

lemma length_blit [simp]:
  "off + length src \<le> length buf \<Longrightarrow> length (blit off src buf) = length buf"
  by (simp add: blit_def)

lemma sub_take: "stop \<le> n \<Longrightarrow> sub start stop buf = sub start stop (take n buf)"
  by (simp add: sub_def drop_take min_def)

lemma sub_blit_same:
  "off + length src \<le> length buf \<Longrightarrow> start = off \<Longrightarrow> stop = off + length src \<Longrightarrow>
    sub start stop (blit off src buf) = src"
  by (simp add: sub_def blit_def)

lemma sub_blit_other:
  "off + length src \<le> length buf \<Longrightarrow> stop \<le> off \<or> off + length src \<le> start \<Longrightarrow>
    sub start stop (blit off src buf) = sub start stop buf"
proof -
  assume b: "off + length src \<le> length buf" and d: "stop \<le> off \<or> off + length src \<le> start"
  show ?thesis
  proof (cases "stop \<le> off")
    case True
    have "take off (blit off src buf) = take off buf" using b by (simp add: blit_def)
    then show ?thesis using sub_take [OF True, of start] by metis
  next
    case False
    then obtain k where "start = off + length src + k" using d le_Suc_ex by blast
    then have "drop start (take off buf @ src @ drop (off + length src) buf) = drop start buf"
      using b by (simp add: ac_simps)
    then show ?thesis by (simp add: sub_def blit_def)
  qed
qed

text \<open>A range written in part: the bytes before and after the write stay.\<close>

lemma sub_blit_prefix:
  "off + length src \<le> length buf \<Longrightarrow> off + length src \<le> stop \<Longrightarrow>
    sub off stop (blit off src buf) = src @ sub (off + length src) stop buf"
  by (simp add: sub_def blit_def)

lemma sub_append_left: "stop \<le> length xs \<Longrightarrow> sub start stop (xs @ ys) = sub start stop xs"
  by (cases "start \<le> length xs") (simp_all add: sub_def)

lemma sub_append_right:
  "sub (length xs + a) (length xs + b) (xs @ ys) = sub a b ys"
  by (simp add: sub_def)

lemma sub_append_at:
  "n = length xs \<Longrightarrow> sub (n + a) (n + b) (xs @ ys) = sub a b ys"
  by (simp add: sub_append_right)

lemma sub_whole: "n = length xs \<Longrightarrow> sub 0 n (xs @ ys) = xs"
  by (simp add: sub_def)

lemma sub_empty [simp]: "sub n n xs = []"
  by (simp add: sub_def)

lemma sub_replicate: "stop \<le> n \<Longrightarrow> sub start stop (replicate n x) = replicate (stop - start) x"
  by (simp add: sub_def)

section \<open>UTF-16\<close>

definition high_surrogate :: "16 word \<Rightarrow> bool" where
  "high_surrogate u \<longleftrightarrow> 0xD800 \<le> u \<and> u \<le> 0xDBFF"

definition low_surrogate :: "16 word \<Rightarrow> bool" where
  "low_surrogate u \<longleftrightarrow> 0xDC00 \<le> u \<and> u \<le> 0xDFFF"

text \<open>The code points of a string; a lone surrogate becomes the replacement character.\<close>

fun code_points :: "js_text \<Rightarrow> nat list" where
  "code_points [] = []"
| "code_points [u] = [if high_surrogate u \<or> low_surrogate u then 0xFFFD else unat u]"
| "code_points (u # v # s) =
     (if high_surrogate u \<and> low_surrogate v
      then (0x10000 + (unat u - 0xD800) * 0x400 + (unat v - 0xDC00)) # code_points s
      else (if high_surrogate u \<or> low_surrogate u then 0xFFFD else unat u) # code_points (v # s))"

definition units_of :: "nat \<Rightarrow> js_text" where
  "units_of c =
     (if c < 0x10000 then [of_nat c]
      else [of_nat (0xD800 + (c - 0x10000) div 0x400), of_nat (0xDC00 + (c - 0x10000) mod 0x400)])"

fun well_formed :: "js_text \<Rightarrow> bool" where
  "well_formed [] = True"
| "well_formed [u] = (\<not> high_surrogate u \<and> \<not> low_surrogate u)"
| "well_formed (u # v # s) =
     (if high_surrogate u then low_surrogate v \<and> well_formed s
      else \<not> low_surrogate u \<and> well_formed (v # s))"

definition scalar :: "nat \<Rightarrow> bool" where
  "scalar c \<longleftrightarrow> c < 0x110000 \<and> \<not> (0xD800 \<le> c \<and> c \<le> 0xDFFF)"

lemma surrogate_unat:
  "high_surrogate u \<longleftrightarrow> 0xD800 \<le> unat u \<and> unat u \<le> 0xDBFF"
  "low_surrogate u \<longleftrightarrow> 0xDC00 \<le> unat u \<and> unat u \<le> 0xDFFF"
  by (simp_all add: high_surrogate_def low_surrogate_def word_le_nat_alt)

lemma unat16: "unat (u :: 16 word) < 0x10000"
  using unsigned_less [of u] by simp

lemma code_points_scalar: "c \<in> set (code_points s) \<Longrightarrow> scalar c"
proof (induction s rule: code_points.induct)
  case (2 u)
  then show ?case using unat16 [of u] by (auto simp: scalar_def surrogate_unat)
next
  case (3 u v s)
  then show ?case using unat16 [of u] by (auto simp: scalar_def surrogate_unat split: if_splits)
qed simp

lemma units_code_points: "well_formed s \<Longrightarrow> concat (map units_of (code_points s)) = s"
proof (induction s rule: code_points.induct)
  case (2 u)
  then show ?case using unat16 [of u] by (simp add: units_of_def)
next
  case (3 u v s)
  show ?case
  proof (cases "high_surrogate u")
    case True
    then have lo: "low_surrogate v" and s: "well_formed s" using 3(3) by simp_all
    let ?c = "0x10000 + (unat u - 0xD800) * 0x400 + (unat v - 0xDC00)"
    obtain a b where a: "unat u = 0xD800 + a" and b: "unat v = 0xDC00 + b" "b < 0x400"
      using True lo le_Suc_ex [of "0xD800" "unat u"] le_Suc_ex [of "0xDC00" "unat v"]
      by (auto simp: surrogate_unat)
    have c: "?c - 0x10000 = a * 0x400 + b" "\<not> ?c < 0x10000" using a b by simp_all
    have "units_of ?c = [of_nat (unat u), of_nat (unat v)]"
      unfolding units_of_def c a b(1) using b(2) c(2) by simp
    then have "units_of ?c = [u, v]" by simp
    then show ?thesis using 3(1) [OF _ s] True lo by simp
  next
    case False
    then show ?thesis using 3(2,3) unat16 [of u] by (simp add: units_of_def)
  qed
qed simp

section \<open>UTF-8\<close>

definition byte_of :: "nat \<Rightarrow> 8 word" where
  "byte_of n = of_nat n"

definition utf8_of :: "nat \<Rightarrow> buffer" where
  "utf8_of c =
     (if c < 0x80 then [byte_of c]
      else if c < 0x800 then [byte_of (0xC0 + c div 0x40), byte_of (0x80 + c mod 0x40)]
      else if c < 0x10000 then
        [byte_of (0xE0 + c div 0x1000), byte_of (0x80 + c div 0x40 mod 0x40),
         byte_of (0x80 + c mod 0x40)]
      else
        [byte_of (0xF0 + c div 0x40000), byte_of (0x80 + c div 0x1000 mod 0x40),
         byte_of (0x80 + c div 0x40 mod 0x40), byte_of (0x80 + c mod 0x40)])"

definition utf8_encode :: "js_text \<Rightarrow> buffer" where
  "utf8_encode s = concat (map utf8_of (code_points s))"

text \<open>For a lead byte: how many bytes follow, the range of the first of them, and the bits of the
  lead byte.\<close>

definition utf8_lead :: "nat \<Rightarrow> (nat \<times> nat \<times> nat \<times> nat) option" where
  "utf8_lead n =
     (if 0xC2 \<le> n \<and> n \<le> 0xDF then Some (1, 0x80, 0xBF, n - 0xC0)
      else if n = 0xE0 then Some (2, 0xA0, 0xBF, 0)
      else if n = 0xED then Some (2, 0x80, 0x9F, 0xD)
      else if 0xE1 \<le> n \<and> n \<le> 0xEF then Some (2, 0x80, 0xBF, n - 0xE0)
      else if n = 0xF0 then Some (3, 0x90, 0xBF, 0)
      else if 0xF1 \<le> n \<and> n \<le> 0xF3 then Some (3, 0x80, 0xBF, n - 0xF0)
      else if n = 0xF4 then Some (3, 0x80, 0x8F, 4)
      else None)"

fun utf8_rest :: "nat \<Rightarrow> nat \<Rightarrow> nat \<Rightarrow> nat \<Rightarrow> buffer \<Rightarrow> nat \<times> buffer" where
  "utf8_rest 0 lo hi acc bs = (acc, bs)"
| "utf8_rest (Suc k) lo hi acc [] = (0xFFFD, [])"
| "utf8_rest (Suc k) lo hi acc (b # bs) =
     (if lo \<le> unat b \<and> unat b \<le> hi then utf8_rest k 0x80 0xBF (acc * 0x40 + (unat b - 0x80)) bs
      else (0xFFFD, b # bs))"

lemma utf8_rest_length: "utf8_rest k lo hi acc bs = (c, bs') \<Longrightarrow> length bs' \<le> length bs"
  by (induction k lo hi acc bs rule: utf8_rest.induct) (auto split: if_splits)

function utf8_points :: "buffer \<Rightarrow> nat list" where
  "utf8_points [] = []"
| "utf8_points (b # bs) =
     (if unat b < 0x80 then unat b # utf8_points bs
      else
        (case utf8_lead (unat b) of
           None \<Rightarrow> 0xFFFD # utf8_points bs
         | Some (more, lo, hi, acc) \<Rightarrow>
             (case utf8_rest more lo hi acc bs of (c, bs') \<Rightarrow> c # utf8_points bs')))"
  by pat_completeness auto
termination
proof (relation "measure length")
  fix b :: "8 word" and bs p q more r lo s hi acc c bs'
  assume "(c, bs') = utf8_rest more lo hi acc bs"
  then have "length bs' \<le> length bs" by (intro utf8_rest_length) (rule sym)
  then show "(bs', b # bs) \<in> measure length" by simp
qed simp_all

definition utf8_decode :: "buffer \<Rightarrow> js_text" where
  "utf8_decode bs = concat (map units_of (utf8_points bs))"

lemma unat8: "n < 0x100 \<Longrightarrow> unat (byte_of n) = n"
  by (simp add: byte_of_def unat_of_nat)

lemma regroup3: "((c div 0x1000) * 0x40 + c div 0x40 mod 0x40) * 0x40 + c mod 0x40 = (c :: nat)"
proof -
  have "c div 0x1000 = c div 0x40 div 0x40" by (simp add: div_mult2_eq [symmetric])
  then show ?thesis by (simp add: div_mult_mod_eq mult.commute)
qed

lemma regroup4:
  "(((c div 0x40000) * 0x40 + c div 0x1000 mod 0x40) * 0x40 + c div 0x40 mod 0x40) * 0x40 + c mod 0x40 =
     (c :: nat)"
proof -
  have "c div 0x40000 = c div 0x1000 div 0x40" by (simp add: div_mult2_eq [symmetric])
  then have "(c div 0x40000) * 0x40 + c div 0x1000 mod 0x40 = c div 0x1000"
    by (simp add: div_mult_mod_eq mult.commute)
  then show ?thesis using regroup3 [of c] by simp
qed

lemma utf8_points_1: "c < 0x80 \<Longrightarrow> utf8_points (utf8_of c @ bs) = c # utf8_points bs"
  by (simp add: utf8_of_def unat8)

lemma utf8_points_2:
  assumes "0x80 \<le> c" "c < 0x800"
  shows "utf8_points (utf8_of c @ bs) = c # utf8_points bs"
proof -
  have lead: "0xC2 \<le> 0xC0 + c div 0x40" "0xC0 + c div 0x40 \<le> 0xDF" using assms by linarith+
  have rest: "0x80 + c mod 0x40 \<le> 0xBF" "0x80 + c mod 0x40 < 0x100"
    using mod_less_divisor [of "0x40" c] by linarith+
  have "utf8_lead (0xC0 + c div 0x40) = Some (1, 0x80, 0xBF, c div 0x40)"
    using lead by (simp add: utf8_lead_def)
  moreover have "utf8_of c = [byte_of (0xC0 + c div 0x40), byte_of (0x80 + c mod 0x40)]"
    using assms by (simp add: utf8_of_def)
  ultimately show ?thesis
    using lead rest div_mult_mod_eq [of c "0x40"] by (simp add: unat8 mult.commute)
qed

lemma mod_window: "k * 0x40 \<le> n \<Longrightarrow> n < k * 0x40 + w \<Longrightarrow> n mod 0x40 < (w :: nat)"
proof -
  assume "k * 0x40 \<le> n" "n < k * 0x40 + w"
  then obtain r where "n = r + k * 0x40" "r < w"
    using le_Suc_ex by (metis add.commute add_less_cancel_left)
  then show ?thesis using mod_less_eq_dividend [of r "0x40"] by simp
qed

lemma utf8_points_lead:
  "utf8_lead n = Some (more, lo, hi, acc) \<Longrightarrow> 0x80 \<le> n \<Longrightarrow> n < 0x100 \<Longrightarrow>
    utf8_rest more lo hi acc bs = (c, bs') \<Longrightarrow> utf8_points (byte_of n # bs) = c # utf8_points bs'"
  by (subst utf8_points.simps) (simp add: unat8)

lemma utf8_rest_2:
  "lo \<le> 0x80 + x \<Longrightarrow> 0x80 + x \<le> hi \<Longrightarrow> x < 0x40 \<Longrightarrow> y < 0x40 \<Longrightarrow>
    utf8_rest 2 lo hi acc (byte_of (0x80 + x) # byte_of (0x80 + y) # bs) =
      ((acc * 0x40 + x) * 0x40 + y, bs)"
  by (simp add: numeral_2_eq_2 unat8)

lemma utf8_rest_3:
  "lo \<le> 0x80 + x \<Longrightarrow> 0x80 + x \<le> hi \<Longrightarrow> x < 0x40 \<Longrightarrow> y < 0x40 \<Longrightarrow> z < 0x40 \<Longrightarrow>
    utf8_rest 3 lo hi acc (byte_of (0x80 + x) # byte_of (0x80 + y) # byte_of (0x80 + z) # bs) =
      (((acc * 0x40 + x) * 0x40 + y) * 0x40 + z, bs)"
  by (simp add: numeral_3_eq_3 unat8)

lemma utf8_points_3:
  assumes "0x800 \<le> c" "c < 0x10000" "\<not> (0xD800 \<le> c \<and> c \<le> 0xDFFF)"
  shows "utf8_points (utf8_of c @ bs) = c # utf8_points bs"
proof -
  let ?l = "0xE0 + c div 0x1000" and ?m = "0x80 + c div 0x40 mod 0x40" and ?n = "0x80 + c mod 0x40"
  have lead: "0xE0 \<le> ?l" "?l \<le> 0xEF" using assms by linarith+
  have m: "c div 0x40 mod 0x40 < 0x40" "c mod 0x40 < 0x40" by simp_all
  obtain lo hi where l: "utf8_lead ?l = Some (2, lo, hi, c div 0x1000)" "lo \<le> ?m" "?m \<le> hi"
  proof -
    consider "c div 0x1000 = 0" | "c div 0x1000 = 0xD" | "c div 0x1000 \<noteq> 0" "c div 0x1000 \<noteq> 0xD" by blast
    then show ?thesis
    proof cases
      case 1
      then have "c < 0x1000" by (simp add: div_eq_0_iff)
      then have "c div 0x40 < 0x40" "0x20 \<le> c div 0x40" using assms(1) by linarith+
      then have "0x20 \<le> c div 0x40 mod 0x40" by simp
      then show ?thesis using 1 m by (intro that [of "0xA0" "0xBF"]) (simp_all add: utf8_lead_def)
    next
      case 2
      then have "0xD000 \<le> c" "c < 0xE000" by linarith+
      then have "c < 0xD800" using assms(3) by simp
      then have "832 \<le> c div 0x40" "c div 0x40 < 832 + 0x20" using \<open>0xD000 \<le> c\<close> by linarith+
      then have "c div 0x40 mod 0x40 < 0x20" using mod_window [of 13 "c div 0x40" "0x20"] by simp
      then show ?thesis using 2 m by (intro that [of "0x80" "0x9F"]) (simp_all add: utf8_lead_def)
    next
      case 3
      then show ?thesis using lead m
        by (intro that [of "0x80" "0xBF"]) (simp_all add: utf8_lead_def)
    qed
  qed
  have "utf8_rest 2 lo hi (c div 0x1000) (byte_of ?m # byte_of ?n # bs) = (c, bs)"
    by (simp only: utf8_rest_2 [OF l(2,3) m] regroup3)
  moreover have "utf8_of c = [byte_of ?l, byte_of ?m, byte_of ?n]"
    using assms by (simp add: utf8_of_def)
  moreover have "0x80 \<le> ?l" "?l < 0x100" using lead by linarith+
  ultimately show ?thesis by (simp only: append_Cons append_Nil utf8_points_lead [OF l(1)])
qed

lemma utf8_points_4:
  assumes "0x10000 \<le> c" "c < 0x110000"
  shows "utf8_points (utf8_of c @ bs) = c # utf8_points bs"
proof -
  let ?l = "0xF0 + c div 0x40000" and ?k = "0x80 + c div 0x1000 mod 0x40"
  have lead: "0xF0 \<le> ?l" "?l \<le> 0xF4" using assms by linarith+
  have m: "c div 0x1000 mod 0x40 < 0x40" "c div 0x40 mod 0x40 < 0x40" "c mod 0x40 < 0x40" by simp_all
  obtain lo hi where l: "utf8_lead ?l = Some (3, lo, hi, c div 0x40000)" "lo \<le> ?k" "?k \<le> hi"
  proof -
    consider "c div 0x40000 = 0" | "c div 0x40000 = 4" | "c div 0x40000 \<noteq> 0" "c div 0x40000 \<noteq> 4" by blast
    then show ?thesis
    proof cases
      case 1
      then have "c < 0x40000" by (simp add: div_eq_0_iff)
      then have "c div 0x1000 < 0x40" "0x10 \<le> c div 0x1000" using assms(1) by linarith+
      then have "0x10 \<le> c div 0x1000 mod 0x40" by simp
      then show ?thesis using 1 m by (intro that [of "0x90" "0xBF"]) (simp_all add: utf8_lead_def)
    next
      case 2
      then have "0x100000 \<le> c" by linarith
      then have "256 \<le> c div 0x1000" "c div 0x1000 < 256 + 0x10" using assms(2) by linarith+
      then have "c div 0x1000 mod 0x40 < 0x10" using mod_window [of 4 "c div 0x1000" "0x10"] by simp
      then show ?thesis using 2 m by (intro that [of "0x80" "0x8F"]) (simp_all add: utf8_lead_def)
    next
      case 3
      then show ?thesis using lead m
        by (intro that [of "0x80" "0xBF"]) (simp_all add: utf8_lead_def)
    qed
  qed
  have "utf8_rest 3 lo hi (c div 0x40000)
      (byte_of ?k # byte_of (0x80 + c div 0x40 mod 0x40) # byte_of (0x80 + c mod 0x40) # bs) = (c, bs)"
    by (simp only: utf8_rest_3 [OF l(2,3) m] regroup4)
  moreover have "utf8_of c =
      [byte_of ?l, byte_of ?k, byte_of (0x80 + c div 0x40 mod 0x40), byte_of (0x80 + c mod 0x40)]"
    using assms by (simp add: utf8_of_def)
  moreover have "0x80 \<le> ?l" "?l < 0x100" using lead by linarith+
  ultimately show ?thesis by (simp only: append_Cons append_Nil utf8_points_lead [OF l(1)])
qed

lemma utf8_points_of: "scalar c \<Longrightarrow> utf8_points (utf8_of c @ bs) = c # utf8_points bs"
  using utf8_points_1 [of c bs] utf8_points_2 [of c bs] utf8_points_3 [of c bs] utf8_points_4 [of c bs]
  unfolding scalar_def by linarith

lemma utf8_points_concat: "\<forall>c\<in>set cs. scalar c \<Longrightarrow> utf8_points (concat (map utf8_of cs)) = cs"
  by (induction cs) (simp_all add: utf8_points_of)

lemma utf8_roundtrip: "well_formed s \<Longrightarrow> utf8_decode (utf8_encode s) = s"
  by (simp add: utf8_decode_def utf8_encode_def utf8_points_concat code_points_scalar units_code_points)

section \<open>ASCII\<close>

text \<open>Texts of code units below 128 are one byte each.\<close>

definition ascii :: "js_text \<Rightarrow> bool" where
  "ascii s \<longleftrightarrow> (\<forall>u\<in>set s. u < 0x80)"

definition lit :: "string \<Rightarrow> js_text" where
  "lit s = map (\<lambda>c. of_nat (of_char c)) s"

lemma code_points_ascii: "ascii s \<Longrightarrow> code_points s = map unat s"
  by (induction s rule: code_points.induct)
     (auto simp: ascii_def surrogate_unat word_less_nat_alt)

lemma utf8_encode_ascii: "ascii s \<Longrightarrow> utf8_encode s = map ucast s"
proof -
  assume a: "ascii s"
  have "concat (map utf8_of (map unat s)) = map ucast s"
    using a by (induction s) (auto simp: ascii_def utf8_of_def byte_of_def word_less_nat_alt)
  then show ?thesis using code_points_ascii [OF a] by (simp add: utf8_encode_def)
qed

lemma ascii_well_formed: "ascii s \<Longrightarrow> well_formed s"
  by (induction s rule: well_formed.induct)
     (auto simp: ascii_def surrogate_unat word_less_nat_alt)

end
