(* ===== verification/Split_Archive.thy ===== *)
theory Split_Archive
  imports Text_Bytes
begin

text \<open>
  The tar half of \<open>packages/storage/src/split-artifact-adapters.ts\<close>: archive paths, the limits on
  entries, \<open>unpackTar\<close> and \<open>packTar\<close>. Reading a tar is a loop over an offset; it is a
  \<open>partial_function\<close> whose value \<open>None\<close> would be a loop that never ends, and
  \<open>tarLoop_returns\<close> shows that it does not happen.
\<close>

datatype archive_error =
  UnsafePath js_text
| InvalidNumericField js_text
| TooManyEntries nat
| DuplicatePath js_text
| EntryTooLarge js_text
| ArchiveTooLarge
| PastArchiveEnd js_text
| UnsupportedEntryType nat js_text
| PathTooLong js_text
| MissingEndOfDirectory
| InvalidDirectoryEntry
| EncryptedEntry js_text
| InvalidLocalHeader js_text
| UnsupportedCompression nat js_text
| FailedValidation js_text
| UnsupportedSplitArtifactError js_text
| OutOfRange
| CorruptStream

record split_limits =
  sl_maxEntryCount :: int
  sl_maxEntryByteLength :: int
  sl_maxTotalUnpackedByteLength :: int

record split_entry =
  se_data :: buffer
  se_logicalPath :: js_text
  se_mode :: "int option"
  se_mtime :: "int option"

definition defaultLimits :: split_limits where
  "defaultLimits =
     \<lparr>sl_maxEntryCount = 50000, sl_maxEntryByteLength = 1024 * 1024 * 1024,
      sl_maxTotalUnpackedByteLength = 16 * 1024 * 1024 * 1024\<rparr>"

section \<open>Archive paths\<close>

abbreviation (input) slash :: "16 word" where "slash \<equiv> 0x2F"
abbreviation (input) backslash :: "16 word" where "backslash \<equiv> 0x5C"
abbreviation (input) dot :: "16 word" where "dot \<equiv> 0x2E"
abbreviation (input) colon :: "16 word" where "colon \<equiv> 0x3A"

definition stripDotSlash :: "js_text \<Rightarrow> js_text" where
  "stripDotSlash p = (if take 2 p = [dot, slash] then dropWhile (\<lambda>u. u = slash) (drop 1 p) else p)"

definition stripTrailing :: "16 word \<Rightarrow> js_text \<Rightarrow> js_text" where
  "stripTrailing c p = rev (dropWhile (\<lambda>u. u = c) (rev p))"

definition letter :: "16 word \<Rightarrow> bool" where
  "letter u \<longleftrightarrow> 0x41 \<le> u \<and> u \<le> 0x5A \<or> 0x61 \<le> u \<and> u \<le> 0x7A"

fun drive :: "js_text \<Rightarrow> bool" where
  "drive (u # v # p) = (letter u \<and> v = colon)"
| "drive _ = False"

definition normalizeArchivePath :: "js_text \<Rightarrow> archive_error + js_text" where
  "normalizeArchivePath rawPath =
     (let normalized = stripTrailing slash
            (stripDotSlash (map (\<lambda>u. if u = backslash then slash else u) rawPath));
          segments = filter (\<lambda>s. s \<noteq> []) (js_split slash normalized) in
      if normalized = [] \<or> hd normalized = slash \<or> drive normalized \<or>
         (\<exists>s\<in>set segments. s = [dot, dot] \<or> s = [dot])
      then Inl (UnsafePath rawPath)
      else Inr (js_join [slash] segments))"

section \<open>Limits\<close>

fun validateLoop ::
  "bool \<Rightarrow> split_limits \<Rightarrow> js_text list \<Rightarrow> nat \<Rightarrow> split_entry list
     \<Rightarrow> archive_error + split_entry list" where
  "validateLoop skip limits seen unpacked [] = Inr []"
| "validateLoop skip limits seen unpacked (e # es) =
     then_do (if skip then Inr (se_logicalPath e) else normalizeArchivePath (se_logicalPath e))
       (\<lambda>logicalPath.
          if logicalPath \<in> set seen then Inl (DuplicatePath logicalPath)
          else if int (length (se_data e)) > sl_maxEntryByteLength limits
          then Inl (EntryTooLarge logicalPath)
          else if int (unpacked + length (se_data e)) > sl_maxTotalUnpackedByteLength limits
          then Inl ArchiveTooLarge
          else
            then_do
              (validateLoop skip limits (logicalPath # seen) (unpacked + length (se_data e)) es)
              (\<lambda>rest. Inr (e\<lparr>se_logicalPath := logicalPath\<rparr> # rest)))"

definition validateEntries ::
  "bool \<Rightarrow> split_limits \<Rightarrow> split_entry list \<Rightarrow> archive_error + split_entry list" where
  "validateEntries skip limits entries =
     (if int (length entries) > sl_maxEntryCount limits then Inl (TooManyEntries (length entries))
      else validateLoop skip limits [] 0 entries)"

section \<open>Reading a tar\<close>

definition isZeroBlock :: "buffer \<Rightarrow> bool" where
  "isZeroBlock block \<longleftrightarrow> list_all (\<lambda>b. b = 0) block"

definition readNullTerminated :: "buffer \<Rightarrow> nat \<Rightarrow> nat \<Rightarrow> js_text" where
  "readNullTerminated buf start len =
     utf8_decode (takeWhile (\<lambda>b. b \<noteq> 0) (sub start (start + len) buf))"

definition text_space :: "16 word \<Rightarrow> bool" where
  "text_space u \<longleftrightarrow> u \<in> set [0x9, 0xA, 0xB, 0xC, 0xD, 0x20, 0xA0, 0x1680, 0x2028, 0x2029, 0x202F,
     0x205F, 0x3000, 0xFEFF] \<or> 0x2000 \<le> u \<and> u \<le> 0x200A"

definition text_trim :: "js_text \<Rightarrow> js_text" where
  "text_trim s = rev (dropWhile text_space (rev (dropWhile text_space s)))"

definition octal_unit :: "16 word \<Rightarrow> bool" where
  "octal_unit u \<longleftrightarrow> 0x30 \<le> u \<and> u \<le> 0x37"

definition octal_value :: "js_text \<Rightarrow> nat" where
  "octal_value s = foldl (\<lambda>a u. a * 8 + (unat u - 0x30)) 0 s"

text \<open>\<open>Number.parseInt(s, 8)\<close>; \<open>None\<close> is \<open>NaN\<close>.\<close>

definition parseOctal :: "js_text \<Rightarrow> int option" where
  "parseOctal s =
     (let t = dropWhile text_space s;
          negative = (t \<noteq> [] \<and> hd t = 0x2D);
          u = (if t \<noteq> [] \<and> (hd t = 0x2D \<or> hd t = 0x2B) then tl t else t);
          digits = takeWhile octal_unit u in
      if digits = [] then None
      else Some (if negative then - int (octal_value digits) else int (octal_value digits)))"

definition parseTarOctal :: "buffer \<Rightarrow> nat \<Rightarrow> nat \<Rightarrow> archive_error + nat" where
  "parseTarOctal buf start len =
     (let value = text_trim (readNullTerminated buf start len) in
      if value = [] then Inr 0
      else
        (case parseOctal value of
           None \<Rightarrow> Inl (InvalidNumericField value)
         | Some parsed \<Rightarrow> if parsed < 0 then Inl (InvalidNumericField value) else Inr (nat parsed)))"

definition padLength :: "nat \<Rightarrow> nat \<Rightarrow> nat" where
  "padLength len blockSize = (len + blockSize - 1) div blockSize * blockSize"

text \<open>One round of the loop: the entry of the header at an offset, when it is a file, and the offset
  of the next header.\<close>

definition readTarEntry :: "buffer \<Rightarrow> nat \<Rightarrow> archive_error + split_entry list \<times> nat" where
  "readTarEntry tarBuffer offset =
     (let header = sub offset (offset + 512) tarBuffer;
          name = readNullTerminated header 0 100 in
      then_do (parseTarOctal header 100 8) (\<lambda>mode.
      then_do (parseTarOctal header 124 12) (\<lambda>size.
      then_do (parseTarOctal header 136 12) (\<lambda>mtimeSeconds.
        let typeflag = unat (header ! 156) mod 0x80;
            prefix = readNullTerminated header 345 155 in
        then_do (normalizeArchivePath (if prefix \<noteq> [] then prefix @ slash # name else name))
          (\<lambda>logicalPath.
             let dataStart = offset + 512; dataEnd = dataStart + size;
                 nxt = dataStart + padLength size 512 in
             if dataEnd > length tarBuffer then Inl (PastArchiveEnd logicalPath)
             else if typeflag = 0x30 \<or> typeflag = 0 then
               Inr ([\<lparr>se_data = sub dataStart dataEnd tarBuffer, se_logicalPath = logicalPath,
                      se_mode = Some (int mode), se_mtime = Some (int mtimeSeconds * 1000)\<rparr>], nxt)
             else if typeflag \<noteq> 0x35 then Inl (UnsupportedEntryType typeflag logicalPath)
             else Inr ([], nxt))))))"

partial_function (option) tarLoop ::
  "buffer \<Rightarrow> nat \<Rightarrow> (archive_error + split_entry list) option" where
  "tarLoop tarBuffer offset =
     (if offset + 512 \<le> length tarBuffer then
        if isZeroBlock (sub offset (offset + 512) tarBuffer) then Some (Inr [])
        else
          (case readTarEntry tarBuffer offset of
             Inl e \<Rightarrow> Some (Inl e)
           | Inr (entries, nxt) \<Rightarrow>
               Option.bind (tarLoop tarBuffer nxt)
                 (\<lambda>r. Some (then_do r (\<lambda>rest. Inr (entries @ rest)))))
      else Some (Inr []))"

definition unpackTar ::
  "buffer \<Rightarrow> split_limits \<Rightarrow> (archive_error + split_entry list) option" where
  "unpackTar tarBuffer limits =
     map_option (\<lambda>r. then_do r (validateEntries False limits)) (tarLoop tarBuffer 0)"

section \<open>Writing a tar\<close>

fun octal_digits :: "nat \<Rightarrow> js_text" where
  "octal_digits n =
     (if n < 8 then [of_nat (0x30 + n)] else octal_digits (n div 8) @ [of_nat (0x30 + n mod 8)])"

declare octal_digits.simps [simp del]

definition octal_text :: "int \<Rightarrow> js_text" where
  "octal_text i = (if i < 0 then 0x2D # octal_digits (nat (- i)) else octal_digits (nat i))"

definition padStart :: "nat \<Rightarrow> 'a \<Rightarrow> 'a list \<Rightarrow> 'a list" where
  "padStart n c s = replicate (n - length s) c @ s"

definition last_n :: "nat \<Rightarrow> 'a list \<Rightarrow> 'a list" where
  "last_n n s = drop (length s - n) s"

definition writeTarOctal :: "nat \<Rightarrow> nat \<Rightarrow> int \<Rightarrow> buffer \<Rightarrow> buffer" where
  "writeTarOctal start len value buf =
     (let encoded = last_n (len - 1) (padStart (len - 1) 0x30 (octal_text value)) in
      blit (start + len - 1) [0] (blit start (map ucast encoded) buf))"

definition sumBytes :: "buffer \<Rightarrow> nat" where
  "sumBytes buf = sum_list (map unat buf)"

text \<open>The fields of the header up to the checksum, in the order they are written.\<close>

definition tarFields :: "js_text \<Rightarrow> js_text \<Rightarrow> split_entry \<Rightarrow> buffer" where
  "tarFields name prefix e =
     (let h = blit 0 (utf8_encode name) (replicate 512 0);
          h = writeTarOctal 100 8 (nullish (se_mode e) 420) h;
          h = writeTarOctal 108 8 0 h;
          h = writeTarOctal 116 8 0 h;
          h = writeTarOctal 124 12 (int (length (se_data e))) h;
          h = writeTarOctal 136 12 (nullish (se_mtime e) 0 div 1000) h;
          h = blit 148 (replicate 8 0x20) h;
          h = blit 156 [0x30] h;
          h = blit 257 [0x75, 0x73, 0x74, 0x61, 0x72] h;
          h = blit 263 [0x30, 0x30] h in
      if prefix \<noteq> [] then blit 345 (utf8_encode prefix) h else h)"

definition tarChecksum :: "buffer \<Rightarrow> buffer" where
  "tarChecksum h =
     blit 155 [0x20] (blit 154 [0]
       (blit 148 (take 6 (map ucast (padStart 6 0x30 (octal_text (int (sumBytes h)))))) h))"

definition writeTarHeader :: "bool \<Rightarrow> split_entry \<Rightarrow> archive_error + buffer" where
  "writeTarHeader skip e =
     then_do (if skip then Inr (se_logicalPath e) else normalizeArchivePath (se_logicalPath e))
       (\<lambda>logicalPath.
          let pathBytes = utf8_encode logicalPath;
              name = (if length pathBytes \<le> 100 then logicalPath else last_n 100 logicalPath);
              prefix =
                (if length pathBytes \<le> 100 then []
                 else take (length logicalPath - length name - 1) logicalPath) in
          if length (utf8_encode name) > 100 \<or> length (utf8_encode prefix) > 155
          then Inl (PathTooLong logicalPath)
          else Inr (tarChecksum (tarFields name prefix e)))"

fun packTar :: "bool \<Rightarrow> split_entry list \<Rightarrow> archive_error + buffer" where
  "packTar skip [] = Inr (replicate 1024 0)"
| "packTar skip (e # es) =
     then_do (writeTarHeader skip e)
       (\<lambda>header. then_do (packTar skip es)
          (\<lambda>rest. Inr (header @ se_data e @
             replicate (padLength (length (se_data e)) 512 - length (se_data e)) 0 @ rest)))"

section \<open>Safe paths\<close>

text \<open>A path that names a file below the directory it is unpacked to: relative, without backslashes
  and drive letters, and with no empty, \<open>.\<close> or \<open>..\<close> segment.\<close>

definition safe_path :: "js_text \<Rightarrow> bool" where
  "safe_path p \<longleftrightarrow> p \<noteq> [] \<and> backslash \<notin> set p \<and> \<not> drive p \<and>
     (\<forall>s\<in>set (js_split slash p). s \<noteq> [] \<and> s \<noteq> [dot] \<and> s \<noteq> [dot, dot])"

lemma stripTrailing_id: "p = [] \<or> last p \<noteq> c \<Longrightarrow> stripTrailing c p = p"
  by (auto simp: stripTrailing_def dropWhile_hd hd_rev)

lemma set_stripTrailing: "set (stripTrailing c p) \<subseteq> set p"
  by (auto simp: stripTrailing_def dest: set_dropWhileD)

lemma set_stripDotSlash: "set (stripDotSlash p) \<subseteq> set p"
  by (auto simp: stripDotSlash_def dest!: set_dropWhileD in_set_dropD)

lemma js_split_hd: "xs \<noteq> [] \<Longrightarrow> hd xs \<noteq> c \<Longrightarrow> hd (js_split c xs) \<noteq> []"
  by (cases xs) (auto split: list.splits)

lemma js_split_snoc: "js_split c (xs @ [c]) = js_split c xs @ [[]]"
proof (induction xs)
  case (Cons x xs)
  obtain y ys where "js_split c xs = y # ys" by (cases "js_split c xs") auto
  then show ?case using Cons by auto
qed simp

lemma drive_join: "x \<noteq> [] \<Longrightarrow> c \<noteq> colon \<Longrightarrow> drive (js_join [c] (x # zs)) = drive x"
proof (cases zs)
  case (Cons z zs')
  assume "x \<noteq> []" "c \<noteq> colon"
  then show ?thesis using Cons by (cases x; cases "tl x") auto
qed simp

lemma set_js_join: "set (js_join sep xss) \<subseteq> set sep \<union> \<Union> (set ` set xss)"
  by (induction sep xss rule: js_join.induct) auto

lemma normalize_safe:
  assumes "normalizeArchivePath raw = Inr p"
  shows "safe_path p"
proof -
  define n where "n = stripTrailing slash (stripDotSlash (map (\<lambda>u. if u = backslash then slash else u) raw))"
  define segs where "segs = filter (\<lambda>s. s \<noteq> []) (js_split slash n)"
  have n: "n \<noteq> []" "hd n \<noteq> slash" "\<not> drive n"
    and dots: "\<forall>s\<in>set segs. s \<noteq> [dot, dot] \<and> s \<noteq> [dot]"
    and p: "p = js_join [slash] segs"
    using assms by (auto simp: normalizeArchivePath_def Let_def n_def [symmetric] segs_def split: if_splits)
  obtain x xs where sp: "js_split slash n = x # xs" by (cases "js_split slash n") auto
  then have x: "x \<noteq> []" using js_split_hd [OF n(1,2)] by simp
  have segs: "segs = x # filter (\<lambda>s. s \<noteq> []) xs" using x by (simp add: segs_def sp)
  have no: "s \<in> set segs \<Longrightarrow> slash \<notin> set s" for s
    using js_split_no_sep [of s slash n] by (auto simp: segs_def)
  have split: "js_split slash p = segs" unfolding p using no segs by (intro js_split_join) auto
  have "backslash \<notin> set (map (\<lambda>u. if u = backslash then slash else u) raw)" by auto
  then have bn: "backslash \<notin> set n"
    using set_stripTrailing set_stripDotSlash unfolding n_def by blast
  then have bs: "s \<in> set segs \<Longrightarrow> backslash \<notin> set s" for s
    using js_split_set unfolding segs_def by fastforce
  have "backslash \<notin> set p" unfolding p using set_js_join [of "[slash]" segs] bs by auto
  moreover have "\<not> drive p"
  proof -
    have "n = js_join [slash] (x # xs)" using js_join_split [of slash n] sp by simp
    then have "drive x = drive n" using drive_join [OF x, of slash xs] by simp
    then show ?thesis using n(3) drive_join [OF x, of slash] unfolding p segs by simp
  qed
  moreover have "p \<noteq> []" using split segs x by (cases p) auto
  moreover have "s \<noteq> []" if "s \<in> set segs" for s using that by (simp add: segs_def)
  ultimately show ?thesis using dots split by (auto simp: safe_path_def)
qed

lemma safe_normalize:
  assumes "safe_path p"
  shows "normalizeArchivePath p = Inr p"
proof -
  have ne: "p \<noteq> []" and nb: "backslash \<notin> set p" and nd: "\<not> drive p"
    and segs: "\<forall>s\<in>set (js_split slash p). s \<noteq> [] \<and> s \<noteq> [dot] \<and> s \<noteq> [dot, dot]"
    using assms by (auto simp: safe_path_def)
  have m: "map (\<lambda>u. if u = backslash then slash else u) p = p"
    using nb by (intro map_idI) auto
  have hd: "hd p \<noteq> slash"
  proof
    assume "hd p = slash"
    then have "p = slash # tl p" using ne by (metis list.collapse)
    then have "js_split slash p = [] # js_split slash (tl p)" by (metis js_split.simps(2))
    then show False using segs by simp
  qed
  have ds: "stripDotSlash p = p"
  proof -
    have "take 2 p \<noteq> [dot, slash]"
    proof
      assume "take 2 p = [dot, slash]"
      then obtain q where "p = dot # slash # q" by (metis append_take_drop_id append_Cons append_Nil)
      then show False using segs by simp
    qed
    then show ?thesis by (simp add: stripDotSlash_def)
  qed
  have tr: "last p \<noteq> slash"
  proof
    assume l: "last p = slash"
    then have "p = butlast p @ [slash]" using ne by (metis append_butlast_last_id)
    then have "js_split slash p = js_split slash (butlast p) @ [[]]"
      using js_split_snoc [of slash "butlast p"] by simp
    then show False using segs by simp
  qed
  have "filter (\<lambda>s. s \<noteq> []) (js_split slash p) = js_split slash p"
    using segs by (simp add: filter_id_conv)
  then show ?thesis using ne hd nd segs
    by (simp add: normalizeArchivePath_def m ds stripTrailing_id tr js_join_split Let_def)
qed

section \<open>The loop returns\<close>

lemma tarLoop_step:
  "offset + 512 \<le> length buf \<Longrightarrow> \<not> isZeroBlock (sub offset (offset + 512) buf) \<Longrightarrow>
    readTarEntry buf offset = Inr (es, nxt) \<Longrightarrow> tarLoop buf nxt = Some r \<Longrightarrow>
    tarLoop buf offset = Some (then_do r (\<lambda>rest. Inr (es @ rest)))"
  by (subst tarLoop.simps) simp

lemma readTarEntry_next:
  assumes "readTarEntry buf offset = Inr (es, nxt)"
  shows "offset + 512 \<le> nxt" "length es \<le> 1"
  using assms by (auto simp: readTarEntry_def Let_def then_do_ok split: if_splits)

lemma tarLoop_returns:
  "\<exists>r. tarLoop buf offset = Some r \<and>
     (\<forall>es. r = Inr es \<longrightarrow> length es * 512 \<le> length buf - offset)"
proof (induction "length buf - offset" arbitrary: offset rule: less_induct)
  case less
  show ?case
  proof (cases "offset + 512 \<le> length buf \<and> \<not> isZeroBlock (sub offset (offset + 512) buf)")
    case False
    then show ?thesis by (subst tarLoop.simps) auto
  next
    case True
    show ?thesis
    proof (cases "readTarEntry buf offset")
      case (Inl e)
      then show ?thesis using True by (subst tarLoop.simps) auto
    next
      case (Inr p)
      obtain es nxt where p: "p = (es, nxt)" by (cases p)
      have n: "offset + 512 \<le> nxt" "length es \<le> 1" using readTarEntry_next Inr p by auto
      then have "length buf - nxt < length buf - offset" using True by linarith
      then obtain r where r: "tarLoop buf nxt = Some r"
        "\<forall>es. r = Inr es \<longrightarrow> length es * 512 \<le> length buf - nxt" using less by blast
      have "tarLoop buf offset = Some (then_do r (\<lambda>rest. Inr (es @ rest)))"
        using True Inr p r(1) by (subst tarLoop.simps) simp
      moreover have "length es' * 512 \<le> length buf - offset"
        if eq: "then_do r (\<lambda>rest. Inr (es @ rest)) = Inr es'" for es'
      proof -
        obtain rest where "r = Inr rest" "es' = es @ rest" using eq by (auto simp: then_do_ok)
        then have "length es' * 512 \<le> 512 + (length buf - nxt)"
          using r(2) n(2) by (auto simp: algebra_simps)
        then show ?thesis using n(1) True by linarith
      qed
      ultimately show ?thesis by blast
    qed
  qed
qed

lemma unpackTar_returns: "\<exists>r. unpackTar buf limits = Some r"
  using tarLoop_returns [of buf 0] by (auto simp: unpackTar_def)

section \<open>What validation keeps\<close>

lemma validateLoop_ok:
  assumes "validateLoop skip limits seen unpacked es = Inr es'"
  shows "list_all2 (\<lambda>e e'. e' = e\<lparr>se_logicalPath := se_logicalPath e'\<rparr>) es es'"
    "distinct (map se_logicalPath es')" "set (map se_logicalPath es') \<inter> set seen = {}"
    "\<forall>e\<in>set es'. int (length (se_data e)) \<le> sl_maxEntryByteLength limits"
    "es' \<noteq> [] \<Longrightarrow>
      int (unpacked + (\<Sum>e\<leftarrow>es'. length (se_data e))) \<le> sl_maxTotalUnpackedByteLength limits"
    "\<not> skip \<Longrightarrow> \<forall>e\<in>set es'. safe_path (se_logicalPath e)"
    "skip \<Longrightarrow> es' = es"
proof -
  have "list_all2 (\<lambda>e e'. e' = e\<lparr>se_logicalPath := se_logicalPath e'\<rparr>) es es' \<and>
    distinct (map se_logicalPath es') \<and> set (map se_logicalPath es') \<inter> set seen = {} \<and>
    (\<forall>e\<in>set es'. int (length (se_data e)) \<le> sl_maxEntryByteLength limits) \<and>
    (es' \<noteq> [] \<longrightarrow>
      int (unpacked + (\<Sum>e\<leftarrow>es'. length (se_data e))) \<le> sl_maxTotalUnpackedByteLength limits) \<and>
    (\<not> skip \<longrightarrow> (\<forall>e\<in>set es'. safe_path (se_logicalPath e))) \<and> (skip \<longrightarrow> es' = es)"
    using assms
  proof (induction es arbitrary: seen unpacked es')
    case (Cons e es)
    obtain p where p: "(if skip then Inr (se_logicalPath e)
        else normalizeArchivePath (se_logicalPath e)) = Inr p"
      using Cons(2) by (auto simp: then_do_ok)
    obtain rest where r: "p \<notin> set seen"
      "int (length (se_data e)) \<le> sl_maxEntryByteLength limits"
      "int (unpacked + length (se_data e)) \<le> sl_maxTotalUnpackedByteLength limits"
      "validateLoop skip limits (p # seen) (unpacked + length (se_data e)) es = Inr rest"
      "es' = e\<lparr>se_logicalPath := p\<rparr> # rest"
      using Cons(2) p by (auto simp: then_do_ok split: if_splits)
    have safe: "\<not> skip \<Longrightarrow> safe_path p" using p normalize_safe by simp
    have same: "skip \<Longrightarrow> p = se_logicalPath e" using p by simp
    show ?case using Cons(1) [OF r(4)] r(1-3) safe same unfolding r(5)
      by (cases "rest = []") auto
  qed simp
  then show "list_all2 (\<lambda>e e'. e' = e\<lparr>se_logicalPath := se_logicalPath e'\<rparr>) es es'"
    "distinct (map se_logicalPath es')" "set (map se_logicalPath es') \<inter> set seen = {}"
    "\<forall>e\<in>set es'. int (length (se_data e)) \<le> sl_maxEntryByteLength limits"
    "es' \<noteq> [] \<Longrightarrow>
      int (unpacked + (\<Sum>e\<leftarrow>es'. length (se_data e))) \<le> sl_maxTotalUnpackedByteLength limits"
    "\<not> skip \<Longrightarrow> \<forall>e\<in>set es'. safe_path (se_logicalPath e)" "skip \<Longrightarrow> es' = es"
    by blast+
qed

lemma validateLoop_fixed:
  assumes "\<forall>e\<in>set es. safe_path (se_logicalPath e) \<and>
      int (length (se_data e)) \<le> sl_maxEntryByteLength limits"
    and "distinct (map se_logicalPath es)" "set (map se_logicalPath es) \<inter> set seen = {}"
    and "int (unpacked + (\<Sum>e\<leftarrow>es. length (se_data e))) \<le> sl_maxTotalUnpackedByteLength limits"
  shows "validateLoop False limits seen unpacked es = Inr es"
  using assms
proof (induction es arbitrary: seen unpacked)
  case (Cons e es)
  have "validateLoop False limits (se_logicalPath e # seen) (unpacked + length (se_data e)) es = Inr es"
    by (rule Cons(1)) (use Cons(2-5) in auto)
  then show ?case using Cons(2-5) by (simp add: safe_normalize)
qed simp

section \<open>Octal fields\<close>

lemma octal_value_append: "octal_value (s @ [u]) = octal_value s * 8 + (unat u - 0x30)"
  by (simp add: octal_value_def)

lemma octal_value_pad: "octal_value (replicate k 0x30 @ s) = octal_value s"
  by (induction k) (simp_all add: octal_value_def)

lemma octal_digit:
  assumes "n < 8"
  shows "unat (of_nat (0x30 + n) :: 16 word) = 0x30 + n" "octal_unit (of_nat (0x30 + n))"
proof -
  show u: "unat (of_nat (0x30 + n) :: 16 word) = 0x30 + n"
    using assms by (subst unat_of_nat) simp
  show "octal_unit (of_nat (0x30 + n))"
    unfolding octal_unit_def word_le_nat_alt u using assms by simp
qed

lemma octal_digits_facts:
  "octal_value (octal_digits n) = n" "\<forall>u\<in>set (octal_digits n). octal_unit u" "octal_digits n \<noteq> []"
proof -
  have "octal_value (octal_digits n) = n \<and> (\<forall>u\<in>set (octal_digits n). octal_unit u) \<and> octal_digits n \<noteq> []"
  proof (induction n rule: octal_digits.induct)
    case (1 n)
    show ?case
    proof (cases "n < 8")
      case True
      then show ?thesis using octal_digit [OF True]
        by (subst (1 2 3) octal_digits.simps) (simp add: octal_value_def)
    next
      case False
      have m: "n mod 8 < 8" by simp
      show ?thesis using 1 [OF False] octal_digit [OF m] False
        by (subst (1 2 3) octal_digits.simps) (simp add: octal_value_append)
    qed
  qed
  then show "octal_value (octal_digits n) = n" "\<forall>u\<in>set (octal_digits n). octal_unit u"
    "octal_digits n \<noteq> []" by blast+
qed

lemma octal_digits_length: "n < 8 ^ Suc k \<Longrightarrow> length (octal_digits n) \<le> Suc k"
proof (induction k arbitrary: n)
  case 0
  then show ?case by (subst octal_digits.simps) simp
next
  case (Suc k)
  have "n div 8 < 8 ^ Suc k" using Suc(2) by (simp add: less_mult_imp_div_less mult.commute)
  then show ?case using Suc(1) [of "n div 8"] by (subst octal_digits.simps) simp
qed

text \<open>A field of octal digits, as \<open>writeTarOctal\<close> leaves it.\<close>

definition octal_field :: "nat \<Rightarrow> nat \<Rightarrow> js_text" where
  "octal_field k n = padStart k 0x30 (octal_digits n)"

lemma octal_field_facts:
  assumes "n < 8 ^ Suc k"
  shows "length (octal_field (Suc k) n) = Suc k" "\<forall>u\<in>set (octal_field (Suc k) n). octal_unit u"
    "octal_value (octal_field (Suc k) n) = n" "octal_field (Suc k) n \<noteq> []"
proof -
  show l: "length (octal_field (Suc k) n) = Suc k"
    using octal_digits_length [OF assms] by (simp add: octal_field_def padStart_def)
  then show "octal_field (Suc k) n \<noteq> []" by auto
  show "\<forall>u\<in>set (octal_field (Suc k) n). octal_unit u"
    using octal_digits_facts(2) by (auto simp: octal_field_def padStart_def octal_unit_def)
  show "octal_value (octal_field (Suc k) n) = n"
    by (simp add: octal_field_def padStart_def octal_value_pad octal_digits_facts(1))
qed

lemma octal_unit_facts:
  "octal_unit u \<Longrightarrow> u < 0x80" "octal_unit u \<Longrightarrow> (ucast u :: 8 word) \<noteq> 0"
  "octal_unit u \<Longrightarrow> \<not> text_space u" "octal_unit u \<Longrightarrow> u \<noteq> 0x2D \<and> u \<noteq> 0x2B"
proof -
  assume o: "octal_unit u"
  then have n: "0x30 \<le> unat u" "unat u \<le> 0x37" by (simp_all add: octal_unit_def word_le_nat_alt)
  then show "u < 0x80" by (simp add: word_less_nat_alt)
  have "unat (ucast u :: 8 word) = unat u" using n by (simp add: unsigned_ucast_eq take_bit_nat_eq_self)
  then show "(ucast u :: 8 word) \<noteq> 0" using n by auto
  show "\<not> text_space u" using n by (auto simp: text_space_def word_le_nat_alt)
  show "u \<noteq> 0x2D \<and> u \<noteq> 0x2B" using n by auto
qed

lemma text_trim_id: "s = [] \<or> \<not> text_space (hd s) \<and> \<not> text_space (last s) \<Longrightarrow> text_trim s = s"
  by (auto simp: text_trim_def dropWhile_hd hd_rev)

lemma takeWhile_bytes:
  "0 \<notin> set bs \<Longrightarrow> takeWhile (\<lambda>b. b \<noteq> (0 :: 8 word)) (bs @ replicate k 0) = bs"
proof -
  assume "0 \<notin> set bs"
  then have "takeWhile (\<lambda>b. b \<noteq> 0) (bs @ replicate k 0) = bs @ takeWhile (\<lambda>b. b \<noteq> 0) (replicate k 0)"
    by (intro takeWhile_append2) auto
  then show ?thesis by (cases k) simp_all
qed

lemma read_octal:
  assumes "sub start (start + len) buf = map ucast s @ [0]"
    and "\<forall>u\<in>set s. octal_unit u" "s \<noteq> []"
  shows "parseTarOctal buf start len = Inr (octal_value s)"
proof -
  have a: "ascii s" using assms(2) octal_unit_facts(1) by (auto simp: ascii_def)
  have "0 \<notin> set (map ucast s :: buffer)" using assms(2) octal_unit_facts(2) by force
  then have "takeWhile (\<lambda>b. b \<noteq> 0) (sub start (start + len) buf) = map ucast s"
    unfolding assms(1) using takeWhile_bytes [of "map ucast s" 1] by simp
  then have r: "readNullTerminated buf start len = s"
    using utf8_encode_ascii [OF a] utf8_roundtrip [OF ascii_well_formed [OF a]]
    by (simp add: readNullTerminated_def)
  have h: "octal_unit (hd s)" "octal_unit (last s)" using assms(2,3) by simp_all
  have t: "text_trim s = s" using h octal_unit_facts(3) by (simp add: text_trim_id)
  have d: "dropWhile text_space s = s" using h octal_unit_facts(3) by (simp add: dropWhile_hd)
  have w: "takeWhile octal_unit s = s" using assms(2) by (simp add: takeWhile_eq_all_conv)
  have "parseOctal s = Some (int (octal_value s))"
    using assms(3) octal_unit_facts(4) [OF h(1)] by (simp add: parseOctal_def d w)
  then show ?thesis using assms(3) by (simp add: parseTarOctal_def r t)
qed

section \<open>Reading back a header\<close>

lemma blit_adjacent:
  "off + length a + length b \<le> length buf \<Longrightarrow> n = off + length a \<Longrightarrow>
    blit n b (blit off a buf) = blit off (a @ b) buf"
  by (simp add: blit_def ac_simps)

lemma writeTarOctal_field:
  assumes "n < 8 ^ Suc k" "start + Suc (Suc k) \<le> length buf"
  shows "writeTarOctal start (Suc (Suc k)) (int n) buf =
    blit start (map ucast (octal_field (Suc k) n) @ [0]) buf"
proof -
  have l: "length (octal_field (Suc k) n) = Suc k" by (rule octal_field_facts(1) [OF assms(1)])
  have "last_n (Suc k) (padStart (Suc k) 0x30 (octal_text (int n))) = octal_field (Suc k) n"
    using l by (simp add: last_n_def octal_text_def octal_field_def)
  then show ?thesis using l assms(2) by (simp add: writeTarOctal_def blit_adjacent)
qed

lemma nth_sub: "i < length xs \<Longrightarrow> sub i (Suc i) xs = [xs ! i]"
  by (simp add: sub_def Cons_nth_drop_Suc [symmetric])

text \<open>The values of an entry that fit in the fields of a header.\<close>

definition tar_values :: "split_entry \<Rightarrow> bool" where
  "tar_values e \<longleftrightarrow> 0 \<le> nullish (se_mode e) 420 \<and> nullish (se_mode e) 420 < 8 ^ 7 \<and>
     int (length (se_data e)) < 8 ^ 11 \<and>
     0 \<le> nullish (se_mtime e) 0 div 1000 \<and> nullish (se_mtime e) 0 div 1000 < 8 ^ 11"

lemma tar_field_length [simp]: "n < 8 ^ Suc k \<Longrightarrow> length (octal_field (Suc k) n) = Suc k"
  by (rule octal_field_facts(1))

lemma tarFields_blits:
  assumes m: "nullish (se_mode e) 420 = int m" "m < 8 ^ 7"
    and d: "length (se_data e) < 8 ^ 11"
    and t: "nullish (se_mtime e) 0 div 1000 = int t" "t < 8 ^ 11"
    and n: "length (utf8_encode name) \<le> 100"
  shows "tarFields name prefix e =
    (let h = blit 0 (utf8_encode name) (replicate 512 0);
         h = blit 100 (map ucast (octal_field 7 m) @ [0]) h;
         h = blit 108 (map ucast (octal_field 7 0) @ [0]) h;
         h = blit 116 (map ucast (octal_field 7 0) @ [0]) h;
         h = blit 124 (map ucast (octal_field 11 (length (se_data e))) @ [0]) h;
         h = blit 136 (map ucast (octal_field 11 t) @ [0]) h;
         h = blit 148 (replicate 8 0x20) h;
         h = blit 156 [0x30] h;
         h = blit 257 [0x75, 0x73, 0x74, 0x61, 0x72] h;
         h = blit 263 [0x30, 0x30] h in
     if prefix \<noteq> [] then blit 345 (utf8_encode prefix) h else h)"
proof -
  have l7: "length (octal_field 7 j) = 7" if "j < 8 ^ 7" for j
    using octal_field_facts(1) [of j 6] that by simp
  have l11: "length (octal_field 11 j) = 11" if "j < 8 ^ 11" for j
    using octal_field_facts(1) [of j 10] that by simp
  have w7: "writeTarOctal s 8 (int j) b = blit s (map ucast (octal_field 7 j) @ [0]) b"
    if "j < 8 ^ 7" "s + 8 \<le> length b" for s j b
    using writeTarOctal_field [of j 6 s b] that by simp
  have w11: "writeTarOctal s 12 (int j) b = blit s (map ucast (octal_field 11 j) @ [0]) b"
    if "j < 8 ^ 11" "s + 12 \<le> length b" for s j b
    using writeTarOctal_field [of j 10 s b] that by simp
  have w0: "writeTarOctal s 8 0 b = blit s (map ucast (octal_field 7 0) @ [0]) b"
    if "s + 8 \<le> length b" for s b using w7 [OF _ that, of 0] by simp
  have l0: "length (octal_field 7 0) = 7" by (rule l7) simp
  show ?thesis
    using n by (simp add: tarFields_def Let_def m(1) t(1) w7 [OF m(2)] w11 [OF d] w11 [OF t(2)] w0
        l7 [OF m(2)] l11 [OF d] l11 [OF t(2)] l0)
qed

lemma tar_header:
  fixes name prefix :: js_text
  assumes m: "nullish (se_mode e) 420 = int m" "m < 8 ^ 7"
    and d: "length (se_data e) < 8 ^ 11"
    and t: "nullish (se_mtime e) 0 div 1000 = int t" "t < 8 ^ 11"
    and n: "length (utf8_encode name) \<le> 100" and p: "length (utf8_encode prefix) \<le> 155"
  defines "h \<equiv> tarChecksum (tarFields name prefix e)"
  shows "length h = 512"
    "sub 0 100 h = utf8_encode name @ replicate (100 - length (utf8_encode name)) 0"
    "sub 100 108 h = map ucast (octal_field 7 m) @ [0]"
    "sub 124 136 h = map ucast (octal_field 11 (length (se_data e))) @ [0]"
    "sub 136 148 h = map ucast (octal_field 11 t) @ [0]"
    "sub 156 157 h = [0x30]"
    "sub 257 262 h = [0x75, 0x73, 0x74, 0x61, 0x72]"
    "sub 345 500 h = utf8_encode prefix @ replicate (155 - length (utf8_encode prefix)) 0"
proof -
  have l7: "length (octal_field 7 j) = 7" if "j < 8 ^ 7" for j
    using octal_field_facts(1) [of j 6] that by simp
  have l11: "length (octal_field 11 j) = 11" if "j < 8 ^ 11" for j
    using octal_field_facts(1) [of j 10] that by simp
  have l0: "length (octal_field 7 0) = 7" by (rule l7) simp
  note lens = l7 [OF m(2)] l11 [OF d] l11 [OF t(2)] l0
  have len512: "length (blit off src buf) = 512"
    if "length buf = 512" "off + length src \<le> 512" for off src and buf :: buffer
    using that by simp
  have sum: "length (take 6 (map ucast (padStart 6 0x30 (octal_text (int k)))) :: buffer) = 6" for k
    by (simp add: padStart_def)
  have empty: "utf8_encode [] = []" by (simp add: utf8_encode_def)
  note fields = tarFields_blits [OF m d t n, unfolded Let_def]
  have l512: "length (tarFields name prefix e) = 512"
    unfolding fields using n p by (cases "prefix = []") (simp_all del: length_blit add: len512 lens)
  note h = h_def tarChecksum_def
  show "length h = 512" unfolding h using l512 sum by simp
  have keep: "sub i j h = sub i j (tarFields name prefix e)" if "j \<le> 148 \<or> 156 \<le> i" for i j
    unfolding h using that l512 sum by (auto simp: sub_blit_other)
  show "sub 0 100 h = utf8_encode name @ replicate (100 - length (utf8_encode name)) 0"
    using n p by (simp del: length_blit add: len512 keep fields lens sub_blit_other sub_blit_prefix sub_replicate)
  show "sub 100 108 h = map ucast (octal_field 7 m) @ [0]"
    using n p by (simp del: length_blit add: len512 keep fields lens sub_blit_other sub_blit_same)
  show "sub 124 136 h = map ucast (octal_field 11 (length (se_data e))) @ [0]"
    using n p by (simp del: length_blit add: len512 keep fields lens sub_blit_other sub_blit_same)
  show "sub 136 148 h = map ucast (octal_field 11 t) @ [0]"
    using n p by (simp del: length_blit add: len512 keep fields lens sub_blit_other sub_blit_same)
  show "sub 156 157 h = [0x30]"
    using n p by (simp del: length_blit add: len512 keep fields lens sub_blit_other sub_blit_same)
  show "sub 257 262 h = [0x75, 0x73, 0x74, 0x61, 0x72]"
    using n p by (simp del: length_blit add: len512 keep fields lens sub_blit_other sub_blit_same)
  show "sub 345 500 h = utf8_encode prefix @ replicate (155 - length (utf8_encode prefix)) 0"
    using n p by (cases "prefix = []")
      (simp_all del: length_blit add: len512 keep fields lens sub_blit_other sub_blit_prefix sub_replicate empty)
qed

lemma utf8_of_nonzero: "scalar c \<Longrightarrow> c \<noteq> 0 \<Longrightarrow> 0 \<notin> set (utf8_of c)"
proof -
  assume c: "scalar c" "c \<noteq> 0"
  have b: "byte_of n \<noteq> 0" if "0 < n" "n < 0x100" for n
    using unat8 [OF that(2)] that(1) by auto
  have m: "c mod 0x40 < 0x40" "c div 0x40 mod 0x40 < 0x40" "c div 0x1000 mod 0x40 < 0x40" by simp_all
  then have r: "byte_of (0x80 + c mod 0x40) \<noteq> 0" "byte_of (0x80 + c div 0x40 mod 0x40) \<noteq> 0"
    "byte_of (0x80 + c div 0x1000 mod 0x40) \<noteq> 0"
    by (intro b; linarith)+
  have top: "c < 0x110000" using c(1) by (simp add: scalar_def)
  consider "c < 0x80" | "0x80 \<le> c" "c < 0x800" | "0x800 \<le> c" "c < 0x10000" | "0x10000 \<le> c"
    by linarith
  then show ?thesis
  proof cases
    case 1
    then have "utf8_of c = [byte_of c]" by (simp add: utf8_of_def)
    then show ?thesis using b [of c] c(2) 1 by simp
  next
    case 2
    then have "byte_of (0xC0 + c div 0x40) \<noteq> 0" by (intro b; linarith)
    moreover have "utf8_of c = [byte_of (0xC0 + c div 0x40), byte_of (0x80 + c mod 0x40)]"
      using 2 by (simp add: utf8_of_def)
    ultimately show ?thesis using r by simp
  next
    case 3
    then have "byte_of (0xE0 + c div 0x1000) \<noteq> 0" by (intro b; linarith)
    moreover have "utf8_of c = [byte_of (0xE0 + c div 0x1000),
        byte_of (0x80 + c div 0x40 mod 0x40), byte_of (0x80 + c mod 0x40)]"
      using 3 by (simp add: utf8_of_def)
    ultimately show ?thesis using r by simp
  next
    case 4
    then have "byte_of (0xF0 + c div 0x40000) \<noteq> 0" using top by (intro b; linarith)
    moreover have "utf8_of c = [byte_of (0xF0 + c div 0x40000), byte_of (0x80 + c div 0x1000 mod 0x40),
        byte_of (0x80 + c div 0x40 mod 0x40), byte_of (0x80 + c mod 0x40)]"
      using 4 by (simp add: utf8_of_def)
    ultimately show ?thesis using r by simp
  qed
qed

lemma code_points_nonzero: "0 \<notin> set s \<Longrightarrow> 0 \<notin> set (code_points s)"
proof (induction s rule: code_points.induct)
  case (2 u)
  then show ?case by (auto simp: unat_gt_0)
next
  case (3 u v s)
  then show ?case by (auto simp: unat_gt_0)
qed simp

lemma utf8_nonzero: "0 \<notin> set s \<Longrightarrow> 0 \<notin> set (utf8_encode s)"
  using utf8_of_nonzero code_points_scalar code_points_nonzero
  by (fastforce simp: utf8_encode_def)

text \<open>A text that a NUL-terminated field can hold.\<close>

definition field_text :: "js_text \<Rightarrow> bool" where
  "field_text s \<longleftrightarrow> well_formed s \<and> 0 \<notin> set s"

lemma read_text:
  assumes "sub start (start + len) buf = utf8_encode s @ replicate k 0" "field_text s"
  shows "readNullTerminated buf start len = s"
  using assms utf8_nonzero takeWhile_bytes utf8_roundtrip
  by (simp add: readNullTerminated_def field_text_def)

lemma readTarEntry_written:
  assumes m: "nullish (se_mode e) 420 = int m" "m < 8 ^ 7"
    and d: "length (se_data e) < 8 ^ 11"
    and t: "nullish (se_mtime e) 0 div 1000 = int t" "t < 8 ^ 11"
    and n: "length (utf8_encode name) \<le> 100" and p: "length (utf8_encode prefix) \<le> 155"
    and texts: "field_text name" "field_text prefix"
    and buf: "sub offset (offset + 512) buf = tarChecksum (tarFields name prefix e)"
      "sub (offset + 512) (offset + 512 + length (se_data e)) buf = se_data e"
      "offset + 512 + length (se_data e) \<le> length buf"
  shows "readTarEntry buf offset =
    then_do (normalizeArchivePath (if prefix \<noteq> [] then prefix @ slash # name else name)) (\<lambda>logicalPath.
      Inr ([\<lparr>se_data = se_data e, se_logicalPath = logicalPath, se_mode = Some (int m),
              se_mtime = Some (int t * 1000)\<rparr>],
           offset + 512 + padLength (length (se_data e)) 512))"
proof -
  let ?h = "tarChecksum (tarFields name prefix e)"
  note h = tar_header [OF m d t n p]
  have name: "readNullTerminated ?h 0 100 = name"
    by (rule read_text [OF _ texts(1)]) (simp add: h(2))
  have prefix: "readNullTerminated ?h 345 155 = prefix"
    by (rule read_text [OF _ texts(2)]) (simp add: h(8))
  have f: "parseTarOctal b s (Suc (Suc k)) = Inr j"
    if "sub s (s + Suc (Suc k)) b = map ucast (octal_field (Suc k) j) @ [0]" "j < 8 ^ Suc k" for b s k j
    using read_octal [OF that(1)] octal_field_facts [OF that(2)] by simp
  have mode: "parseTarOctal ?h 100 8 = Inr m" using f [of 100 6 ?h m] h(3) m(2) by simp
  have size: "parseTarOctal ?h 124 12 = Inr (length (se_data e))"
    using f [of 124 10 ?h "length (se_data e)"] h(4) d by simp
  have mtime: "parseTarOctal ?h 136 12 = Inr t" using f [of 136 10 ?h t] h(5) t(2) by simp
  have flag: "?h ! 156 = 0x30" using nth_sub [of 156 ?h] h(1,6) by simp
  show ?thesis
    unfolding readTarEntry_def Let_def buf(1) name prefix mode size mtime flag
    using buf(2,3) by (simp add: then_do_def split: sum.splits)
qed

section \<open>Round trip of the loop\<close>

definition tar_fits :: "split_entry \<Rightarrow> bool" where
  "tar_fits e \<longleftrightarrow> safe_path (se_logicalPath e) \<and> field_text (se_logicalPath e) \<and>
     length (utf8_encode (se_logicalPath e)) \<le> 100 \<and> tar_values e"

text \<open>What a tar keeps of an entry: a mode is always there, and the time is cut to seconds.\<close>

definition tar_stored :: "split_entry \<Rightarrow> split_entry" where
  "tar_stored e = e\<lparr>se_mode := Some (nullish (se_mode e) 420),
     se_mtime := Some (nullish (se_mtime e) 0 div 1000 * 1000)\<rparr>"

lemma tar_valuesE:
  assumes "tar_values e"
  obtains m t where "nullish (se_mode e) 420 = int m" "m < 8 ^ 7" "length (se_data e) < 8 ^ 11"
    "nullish (se_mtime e) 0 div 1000 = int t" "t < 8 ^ 11"
proof
  show "nullish (se_mode e) 420 = int (nat (nullish (se_mode e) 420))"
    "nullish (se_mtime e) 0 div 1000 = int (nat (nullish (se_mtime e) 0 div 1000))"
    "length (se_data e) < 8 ^ 11"
    using assms by (simp_all add: tar_values_def)
  show "nat (nullish (se_mode e) 420) < 8 ^ 7" "nat (nullish (se_mtime e) 0 div 1000) < 8 ^ 11"
    using assms by (simp_all add: tar_values_def nat_less_iff)
qed

lemma writeTarHeader_fits:
  assumes "tar_fits e"
  shows "writeTarHeader skip e = Inr (tarChecksum (tarFields (se_logicalPath e) [] e))"
  using assms by (simp add: writeTarHeader_def tar_fits_def safe_normalize utf8_encode_def)

lemma padLength_ge: "len \<le> padLength len 512" "padLength len 512 mod 512 = 0"
proof -
  have "(len + 511) mod 512 < 512" by simp
  then show "len \<le> padLength len 512"
    using div_mult_mod_eq [of "len + 511" 512] by (simp add: padLength_def)
  show "padLength len 512 mod 512 = 0" by (simp add: padLength_def)
qed

lemma set_sub: "set (sub i j xs) \<subseteq> set xs"
  by (auto simp: sub_def dest: in_set_takeD in_set_dropD)

text \<open>The bytes of one entry: its header, its data, and zeros up to the next block.\<close>

definition tar_block :: "js_text \<Rightarrow> js_text \<Rightarrow> split_entry \<Rightarrow> buffer" where
  "tar_block name prefix e = tarChecksum (tarFields name prefix e) @ se_data e @
     replicate (padLength (length (se_data e)) 512 - length (se_data e)) 0"

lemma tarLoop_block:
  fixes name prefix :: js_text
  assumes vals: "tar_values e"
    and n: "length (utf8_encode name) \<le> 100" and p: "length (utf8_encode prefix) \<le> 155"
    and texts: "field_text name" "field_text prefix"
    and norm: "normalizeArchivePath (if prefix \<noteq> [] then prefix @ slash # name else name) = Inr q"
    and rest: "tarLoop ((pre @ tar_block name prefix e) @ rest) (length (pre @ tar_block name prefix e)) =
      Some r"
  shows "tarLoop (pre @ tar_block name prefix e @ rest) (length pre) =
      Some (then_do r (\<lambda>es. Inr ((tar_stored e)\<lparr>se_logicalPath := q\<rparr> # es)))"
    "length (tar_block name prefix e) = 512 + padLength (length (se_data e)) 512"
    "sub 257 262 (tar_block name prefix e @ rest) = [0x75, 0x73, 0x74, 0x61, 0x72]"
proof -
  obtain m t where v: "nullish (se_mode e) 420 = int m" "m < 8 ^ 7" "length (se_data e) < 8 ^ 11"
    "nullish (se_mtime e) 0 div 1000 = int t" "t < 8 ^ 11"
    using tar_valuesE [OF vals] by blast
  let ?d = "se_data e" and ?h = "tarChecksum (tarFields name prefix e)"
  let ?zeros = "replicate (padLength (length ?d) 512 - length ?d) 0 :: buffer"
  let ?buf = "pre @ tar_block name prefix e @ rest"
  note h = tar_header [OF v n p]
  have pad: "length ?d \<le> padLength (length ?d) 512" by (rule padLength_ge(1))
  show len: "length (tar_block name prefix e) = 512 + padLength (length ?d) 512"
    using pad h(1) by (simp add: tar_block_def)
  show "sub 257 262 (tar_block name prefix e @ rest) = [0x75, 0x73, 0x74, 0x61, 0x72]"
    using h(1,7) by (simp add: tar_block_def sub_append_left)
  have buf: "?buf = pre @ ?h @ ?d @ ?zeros @ rest" by (simp add: tar_block_def)
  have s1: "sub (length pre) (length pre + 512) ?buf = ?h"
    unfolding buf using sub_append_right [of pre 0 512 "?h @ ?d @ ?zeros @ rest"] h(1)
    by (simp add: sub_def)
  have s2: "sub (length pre + 512) (length pre + 512 + length ?d) ?buf = ?d"
    unfolding buf using sub_append_right [of "pre @ ?h" 0 "length ?d" "?d @ ?zeros @ rest"] h(1)
    by (simp add: sub_def)
  have room: "length pre + 512 + length ?d \<le> length ?buf" using len pad by simp
  have "0x30 \<in> set ?h" using h(6) set_sub [of 156 157 ?h] by simp
  then have nz: "\<not> isZeroBlock ?h"
    by (auto simp: isZeroBlock_def list_all_iff intro!: bexI [of _ "0x30"])
  have "readTarEntry ?buf (length pre) =
      Inr ([(tar_stored e)\<lparr>se_logicalPath := q\<rparr>], length pre + 512 + padLength (length ?d) 512)"
    unfolding readTarEntry_written [OF v n p texts s1 s2 room] norm
    using v(1,4) by (simp add: tar_stored_def)
  moreover have "tarLoop ?buf (length pre + 512 + padLength (length ?d) 512) = Some r"
    using rest len by (simp add: add.assoc)
  moreover have "length pre + 512 \<le> length ?buf" using room by simp
  moreover have "\<not> isZeroBlock (sub (length pre) (length pre + 512) ?buf)" using nz s1 by simp
  ultimately have "tarLoop ?buf (length pre) =
      Some (then_do r (\<lambda>es. Inr ([(tar_stored e)\<lparr>se_logicalPath := q\<rparr>] @ es)))"
    using tarLoop_step by blast
  then show "tarLoop ?buf (length pre) =
      Some (then_do r (\<lambda>es. Inr ((tar_stored e)\<lparr>se_logicalPath := q\<rparr> # es)))" by simp
qed

lemma tarLoop_end: "tarLoop (pre @ replicate 1024 0) (length pre) = Some (Inr [])"
  using sub_append_right [of pre 0 512 "replicate 1024 0"]
  by (subst tarLoop.simps) (simp add: sub_replicate isZeroBlock_def list_all_iff)

lemma packTar_fits:
  assumes "\<forall>e\<in>set es. tar_fits e"
  shows "\<exists>tar. packTar skip es = Inr tar \<and> length tar mod 512 = 0 \<and> 1024 \<le> length tar \<and>
    (if es = [] then isZeroBlock (sub 0 512 tar)
     else sub 257 262 tar = [0x75, 0x73, 0x74, 0x61, 0x72]) \<and>
    (\<forall>pre. tarLoop (pre @ tar) (length pre) = Some (Inr (map tar_stored es)))"
  using assms
proof (induction es)
  case Nil
  then show ?case using tarLoop_end by (simp add: sub_replicate isZeroBlock_def list_all_iff)
next
  case (Cons e es)
  obtain rest where rest: "packTar skip es = Inr rest" "length rest mod 512 = 0" "1024 \<le> length rest"
    "\<And>pre. tarLoop (pre @ rest) (length pre) = Some (Inr (map tar_stored es))"
    using Cons by auto
  let ?p = "se_logicalPath e" and ?d = "se_data e"
  let ?tar = "tar_block ?p [] e @ rest"
  have fits: "tar_fits e" using Cons(2) by simp
  then have f: "tar_values e" "length (utf8_encode ?p) \<le> 100" "field_text ?p" "safe_path ?p"
    by (simp_all add: tar_fits_def)
  have empty: "length (utf8_encode []) \<le> 155" "field_text []"
    by (simp_all add: utf8_encode_def field_text_def)
  have norm: "normalizeArchivePath (if [] \<noteq> ([] :: js_text) then [] @ slash # ?p else ?p) = Inr ?p"
    using safe_normalize [OF f(4)] by simp
  note block = tarLoop_block [OF f(1,2) empty(1) f(3) empty(2) norm rest(4)]
  have tar: "packTar skip (e # es) = Inr ?tar"
    using writeTarHeader_fits [OF fits, of skip] rest(1) by (simp add: tar_block_def)
  have "(tar_stored e)\<lparr>se_logicalPath := ?p\<rparr> = tar_stored e" by (simp add: tar_stored_def)
  then have "tarLoop (pre @ ?tar) (length pre) = Some (Inr (map tar_stored (e # es)))" for pre
    using block(1) by simp
  moreover have "512 dvd 512 + padLength (length ?d) 512 + length rest"
    using rest(2) padLength_ge(2) by (intro dvd_add) (simp_all add: mod_eq_0_iff_dvd)
  then have "length ?tar mod 512 = 0" using block(2) by (simp only: mod_eq_0_iff_dvd length_append)
  moreover have "1024 \<le> length ?tar" using rest(3) by simp
  ultimately show ?case using tar block(3)
    by (intro exI [of _ ?tar]) (simp only: list.distinct if_False simp_thms)
qed

end
