(* ===== verification/Zip_Archive.thy ===== *)
theory Zip_Archive
  imports Split_Archive Calendar
begin

text \<open>
  The zip half of \<open>packages/storage/src/split-artifact-adapters.ts\<close>: \<open>crc32\<close>, \<open>unpackZip\<close> and
  \<open>packZip\<close>. The deflate and inflate of zlib are parameters; what is used of them is that inflating
  undoes deflating. Reads and writes outside a buffer, and numbers that do not fit a field, raise
  a \<open>RangeError\<close> (\<open>OutOfRange\<close>).
\<close>

section \<open>CRC-32\<close>

definition crcShift :: "32 word \<Rightarrow> 32 word" where
  "crcShift v = (if v AND 1 \<noteq> 0 then 0xEDB88320 XOR drop_bit 1 v else drop_bit 1 v)"

definition crc32Table :: "32 word list" where
  "crc32Table = map (\<lambda>index. (crcShift ^^ 8) (of_nat index)) [0..<256]"

definition crcByte :: "32 word \<Rightarrow> 8 word \<Rightarrow> 32 word" where
  "crcByte crc byte = crc32Table ! unat ((crc XOR ucast byte) AND 0xFF) XOR drop_bit 8 crc"

definition crc32 :: "buffer \<Rightarrow> 32 word" where
  "crc32 buf = foldl crcByte 0xFFFFFFFF buf XOR 0xFFFFFFFF"

section \<open>Little-endian fields\<close>

definition le16 :: "nat \<Rightarrow> buffer" where
  "le16 n = [byte_of (n mod 0x100), byte_of (n div 0x100 mod 0x100)]"

definition le32 :: "nat \<Rightarrow> buffer" where
  "le32 n = [byte_of (n mod 0x100), byte_of (n div 0x100 mod 0x100),
             byte_of (n div 0x10000 mod 0x100), byte_of (n div 0x1000000 mod 0x100)]"

fun le_value :: "buffer \<Rightarrow> nat" where
  "le_value [] = 0"
| "le_value (b # bs) = unat b + 0x100 * le_value bs"

definition readLE :: "nat \<Rightarrow> buffer \<Rightarrow> nat \<Rightarrow> archive_error + nat" where
  "readLE width buf offset =
     (if offset + width \<le> length buf then Inr (le_value (sub offset (offset + width) buf))
      else Inl OutOfRange)"

definition readUInt16LE :: "buffer \<Rightarrow> nat \<Rightarrow> archive_error + nat" where
  "readUInt16LE = readLE 2"

definition readUInt32LE :: "buffer \<Rightarrow> nat \<Rightarrow> archive_error + nat" where
  "readUInt32LE = readLE 4"

section \<open>Reading a zip\<close>

definition zipSignature :: nat where "zipSignature = 0x04034b50"
definition zipCentralDirectorySignature :: nat where "zipCentralDirectorySignature = 0x02014b50"
definition zipEndOfCentralDirectorySignature :: nat where
  "zipEndOfCentralDirectorySignature = 0x06054b50"

text \<open>The search runs from the last place an end record fits back to where a comment of the greatest
  length would begin.\<close>

definition findZipEndOfCentralDirectory :: "buffer \<Rightarrow> nat option" where
  "findZipEndOfCentralDirectory buf =
     (if length buf < 22 then None
      else List.find
        (\<lambda>offset. readUInt32LE buf offset = Inr zipEndOfCentralDirectorySignature)
        (rev [length buf - 65557..<length buf - 21]))"

definition inflateData ::
  "(buffer \<Rightarrow> buffer option) \<Rightarrow> nat \<Rightarrow> js_text \<Rightarrow> buffer \<Rightarrow> archive_error + buffer" where
  "inflateData inflateRaw compression logicalPath compressed =
     (if compression = 0 then Inr compressed
      else if compression = 8 then
        (case inflateRaw compressed of None \<Rightarrow> Inl CorruptStream | Some bytes \<Rightarrow> Inr bytes)
      else Inl (UnsupportedCompression compression logicalPath))"

text \<open>One round of the loop: the entry, if it is not a directory, and the next offset.\<close>

definition readZipEntry ::
  "(buffer \<Rightarrow> buffer option) \<Rightarrow> buffer \<Rightarrow> nat \<Rightarrow> archive_error + split_entry list \<times> nat" where
  "readZipEntry inflateRaw buf offset =
     then_do (readUInt32LE buf offset) (\<lambda>sig.
     if sig \<noteq> zipCentralDirectorySignature then Inl InvalidDirectoryEntry
     else
     then_do (readUInt16LE buf (offset + 8)) (\<lambda>flags.
     then_do (readUInt16LE buf (offset + 10)) (\<lambda>compression.
     then_do (readUInt32LE buf (offset + 16)) (\<lambda>crc.
     then_do (readUInt32LE buf (offset + 20)) (\<lambda>compressedSize.
     then_do (readUInt32LE buf (offset + 24)) (\<lambda>uncompressedSize.
     then_do (readUInt16LE buf (offset + 28)) (\<lambda>nameLength.
     then_do (readUInt16LE buf (offset + 30)) (\<lambda>extraLength.
     then_do (readUInt16LE buf (offset + 32)) (\<lambda>commentLength.
     then_do (readUInt32LE buf (offset + 42)) (\<lambda>localHeaderOffset.
     let rawName = utf8_decode (sub (offset + 46) (offset + 46 + nameLength) buf);
         nxt = offset + (46 + nameLength + extraLength + commentLength) in
     then_do (normalizeArchivePath rawName) (\<lambda>logicalPath.
     if odd flags then Inl (EncryptedEntry logicalPath)
     else if rawName \<noteq> [] \<and> last rawName = slash then Inr ([], nxt)
     else
     then_do (readUInt32LE buf localHeaderOffset) (\<lambda>sig.
     if sig \<noteq> zipSignature then Inl (InvalidLocalHeader logicalPath)
     else
     then_do (readUInt16LE buf (localHeaderOffset + 26)) (\<lambda>localNameLength.
     then_do (readUInt16LE buf (localHeaderOffset + 28)) (\<lambda>localExtraLength.
     let dataStart = localHeaderOffset + 30 + localNameLength + localExtraLength in
     then_do (inflateData inflateRaw compression logicalPath
                (sub dataStart (dataStart + compressedSize) buf)) (\<lambda>bytes.
     if length bytes \<noteq> uncompressedSize \<or> unat (crc32 bytes) \<noteq> crc
     then Inl (FailedValidation logicalPath)
     else Inr ([\<lparr>se_data = bytes, se_logicalPath = logicalPath, se_mode = None,
                 se_mtime = None\<rparr>], nxt))))))))))))))))"

fun zipLoop ::
  "(buffer \<Rightarrow> buffer option) \<Rightarrow> buffer \<Rightarrow> nat \<Rightarrow> nat \<Rightarrow> archive_error + split_entry list" where
  "zipLoop inflateRaw buf 0 offset = Inr []"
| "zipLoop inflateRaw buf (Suc left) offset =
     then_do (readZipEntry inflateRaw buf offset) (\<lambda>(entries, nxt).
       then_do (zipLoop inflateRaw buf left nxt) (\<lambda>rest. Inr (entries @ rest)))"

definition unpackZip ::
  "(buffer \<Rightarrow> buffer option) \<Rightarrow> buffer \<Rightarrow> split_limits \<Rightarrow> archive_error + split_entry list" where
  "unpackZip inflateRaw buf limits =
     (case findZipEndOfCentralDirectory buf of
        None \<Rightarrow> Inl MissingEndOfDirectory
      | Some eocdOffset \<Rightarrow>
          then_do (readUInt16LE buf (eocdOffset + 10)) (\<lambda>entryCount.
          then_do (readUInt32LE buf (eocdOffset + 16)) (\<lambda>centralDirectoryOffset.
          then_do (zipLoop inflateRaw buf entryCount centralDirectoryOffset)
            (validateEntries False limits))))"

section \<open>Writing a zip\<close>

definition dosDateTime :: "int option \<Rightarrow> nat \<times> nat" where
  "dosDateTime date =
     (let value = nullish date 315532800000;
          (y, month, day) = civil (value div 86400000);
          year = max 1980 y;
          secs = value div 1000 mod 86400 in
      (nat (push_bit 9 (year - 1980) OR push_bit 5 month OR day),
       nat (push_bit 11 (secs div 3600) OR push_bit 5 (secs div 60 mod 60) OR secs mod 60 div 2)))"

definition zipLocal :: "buffer \<Rightarrow> nat \<times> nat \<Rightarrow> nat \<Rightarrow> nat \<Rightarrow> nat \<Rightarrow> buffer" where
  "zipLocal name timestamps crc compressedSize fullSize =
     (let h = replicate (30 + length name) 0;
          h = blit 0 (le32 zipSignature) h;
          h = blit 4 (le16 20) h;
          h = blit 6 (le16 0) h;
          h = blit 8 (le16 8) h;
          h = blit 10 (le16 (snd timestamps)) h;
          h = blit 12 (le16 (fst timestamps)) h;
          h = blit 14 (le32 crc) h;
          h = blit 18 (le32 compressedSize) h;
          h = blit 22 (le32 fullSize) h;
          h = blit 26 (le16 (length name)) h;
          h = blit 28 (le16 0) h in
      blit 30 name h)"

definition zipCentral :: "buffer \<Rightarrow> nat \<times> nat \<Rightarrow> nat \<Rightarrow> nat \<Rightarrow> nat \<Rightarrow> nat \<Rightarrow> buffer" where
  "zipCentral name timestamps crc compressedSize fullSize offset =
     (let h = replicate (46 + length name) 0;
          h = blit 0 (le32 zipCentralDirectorySignature) h;
          h = blit 4 (le16 20) h;
          h = blit 6 (le16 20) h;
          h = blit 8 (le16 0) h;
          h = blit 10 (le16 8) h;
          h = blit 12 (le16 (snd timestamps)) h;
          h = blit 14 (le16 (fst timestamps)) h;
          h = blit 16 (le32 crc) h;
          h = blit 20 (le32 compressedSize) h;
          h = blit 24 (le32 fullSize) h;
          h = blit 28 (le16 (length name)) h;
          h = blit 30 (le16 0) h;
          h = blit 32 (le16 0) h;
          h = blit 34 (le16 0) h;
          h = blit 36 (le16 0) h;
          h = blit 38 (le32 0) h;
          h = blit 42 (le32 offset) h in
      blit 46 name h)"

fun packZipLoop ::
  "(buffer \<Rightarrow> buffer) \<Rightarrow> nat \<Rightarrow> split_entry list \<Rightarrow> archive_error + buffer \<times> buffer" where
  "packZipLoop deflateRaw offset [] = Inr ([], [])"
| "packZipLoop deflateRaw offset (e # es) =
     then_do (normalizeArchivePath (se_logicalPath e)) (\<lambda>logicalPath.
       let name = utf8_encode logicalPath; compressed = deflateRaw (se_data e);
           crc = unat (crc32 (se_data e)); timestamps = dosDateTime (se_mtime e);
           local = zipLocal name timestamps crc (length compressed) (length (se_data e));
           central =
             zipCentral name timestamps crc (length compressed) (length (se_data e)) offset in
       if fst timestamps \<ge> 0x10000 \<or> snd timestamps \<ge> 0x10000 \<or> length name \<ge> 0x10000 \<or>
          length compressed \<ge> 0x100000000 \<or> length (se_data e) \<ge> 0x100000000 \<or>
          offset \<ge> 0x100000000
       then Inl OutOfRange
       else
         then_do (packZipLoop deflateRaw (offset + length local + length compressed) es)
           (\<lambda>(locals, centrals). Inr (local @ compressed @ locals, central @ centrals)))"

definition zipEnd :: "nat \<Rightarrow> nat \<Rightarrow> nat \<Rightarrow> buffer" where
  "zipEnd entryCount directoryLength offset =
     (let h = replicate 22 0;
          h = blit 0 (le32 zipEndOfCentralDirectorySignature) h;
          h = blit 4 (le16 0) h;
          h = blit 6 (le16 0) h;
          h = blit 8 (le16 entryCount) h;
          h = blit 10 (le16 entryCount) h;
          h = blit 12 (le32 directoryLength) h;
          h = blit 16 (le32 offset) h in
      blit 20 (le16 0) h)"

definition packZip :: "(buffer \<Rightarrow> buffer) \<Rightarrow> split_entry list \<Rightarrow> archive_error + buffer" where
  "packZip deflateRaw entries =
     then_do (packZipLoop deflateRaw 0 entries) (\<lambda>(locals, centrals).
       if length entries \<ge> 0x10000 \<or> length centrals \<ge> 0x100000000 \<or>
          length locals \<ge> 0x100000000
       then Inl OutOfRange
       else Inr (locals @ centrals @ zipEnd (length entries) (length centrals) (length locals)))"

section \<open>The table computes the serial CRC\<close>

text \<open>The reference: a shift register with the reversed polynomial that takes one bit at a time,
  each byte from its lowest bit.\<close>

definition serialStep :: "32 word \<Rightarrow> bool \<Rightarrow> 32 word" where
  "serialStep crc b = (if bit crc 0 \<noteq> b then 0xEDB88320 XOR drop_bit 1 crc else drop_bit 1 crc)"

definition byte_bits :: "8 word \<Rightarrow> bool list" where
  "byte_bits b = map (bit b) [0..<8]"

definition serialCrc :: "bool list \<Rightarrow> 32 word" where
  "serialCrc bits = foldl serialStep 0xFFFFFFFF bits XOR 0xFFFFFFFF"

lemma and_one_iff: "v AND 1 \<noteq> (0 :: 32 word) \<longleftrightarrow> bit v 0"
  by (metis bit_0 and_one_eq odd_iff_mod_2_eq_one even_iff_mod_2_eq_zero)

lemma crcShift_xor: "crcShift (x XOR y) = crcShift x XOR crcShift y"
  unfolding crcShift_def and_one_iff
  by (auto simp: bit_xor_iff ac_simps xor.left_commute xor_self_eq intro!: bit_eqI)

lemma crcShifts_xor: "(crcShift ^^ k) (x XOR y) = (crcShift ^^ k) x XOR (crcShift ^^ k) y"
  by (induction k) (simp_all add: crcShift_xor)

lemma crcShifts_low_zero: "\<forall>i<k. \<not> bit x i \<Longrightarrow> (crcShift ^^ k) x = drop_bit k x"
proof (induction k arbitrary: x)
  case (Suc k)
  have "crcShift x = drop_bit 1 x" using Suc(2) by (simp add: crcShift_def and_one_iff)
  moreover have "(crcShift ^^ k) (drop_bit 1 x) = drop_bit k (drop_bit 1 x)"
    using Suc(2) by (intro Suc(1)) (simp add: bit_drop_bit_eq)
  ultimately show ?case by (simp add: funpow_swap1 del: funpow.simps(2)) (simp add: funpow_swap1)
qed simp

lemma byte_index: "unat (x AND 0xFF :: 32 word) < 256" "(x AND 0xFF :: 32 word) = take_bit 8 x"
proof -
  have m: "(0xFF :: 32 word) = mask 8" by (simp add: mask_eq_exp_minus_1)
  show t: "(x AND 0xFF :: 32 word) = take_bit 8 x" unfolding m by (simp add: take_bit_eq_mask)
  show "unat (x AND 0xFF) < 256" unfolding t unsigned_take_bit_eq using take_bit_nat_less_exp [of 8 "unat x"] by simp
qed

lemma crcByte_shift: "crcByte crc b = (crcShift ^^ 8) (crc XOR ucast b)"
proof -
  let ?x = "crc XOR ucast b"
  have split: "?x = take_bit 8 ?x XOR (?x AND NOT (mask 8))"
    by (rule bit_eqI) (auto simp: bit_simps)
  have "crc32Table ! unat (?x AND 0xFF) = (crcShift ^^ 8) (take_bit 8 ?x)"
    using byte_index [of ?x] by (simp add: crc32Table_def)
  moreover have "(crcShift ^^ 8) (?x AND NOT (mask 8)) = drop_bit 8 (?x AND NOT (mask 8))"
    by (rule crcShifts_low_zero) (auto simp: bit_simps)
  moreover have "drop_bit 8 (?x AND NOT (mask 8)) = drop_bit 8 crc"
    by (rule bit_eqI) (auto simp: bit_simps dest: bit_imp_le_length)
  ultimately show ?thesis
    unfolding crcByte_def by (subst (2) split) (simp only: crcShifts_xor)
qed

lemma serialStep_xor: "serialStep crc t = crcShift (crc XOR of_bool t)"
proof -
  have "drop_bit 1 (crc XOR 1) = drop_bit 1 crc"
    by (rule bit_eqI) (auto simp: bit_simps)
  then show ?thesis by (auto simp: serialStep_def crcShift_def and_one_iff bit_simps)
qed

lemma serial_steps:
  "k \<le> 8 \<Longrightarrow> foldl serialStep crc (map (bit b) [0..<k]) =
    (crcShift ^^ k) (crc XOR take_bit k (ucast (b :: 8 word)))"
proof (induction k)
  case (Suc k)
  let ?B = "ucast b :: 32 word" and ?t = "of_bool (bit b k) :: 32 word"
  have k: "k < 8" using Suc(2) by simp
  have low: "(crcShift ^^ k) (push_bit k ?t) = drop_bit k (push_bit k ?t)"
    by (rule crcShifts_low_zero) (auto simp: bit_simps)
  have t: "drop_bit k (push_bit k ?t) = ?t"
    using k by (intro bit_eqI) (auto simp: bit_simps)
  have take: "take_bit (Suc k) ?B = take_bit k ?B XOR push_bit k ?t"
    using k by (intro bit_eqI) (auto simp: bit_simps less_Suc_eq)
  have "foldl serialStep crc (map (bit b) [0..<Suc k]) =
      crcShift ((crcShift ^^ k) (crc XOR take_bit k ?B) XOR ?t)"
  proof -
    have "foldl serialStep crc (map (bit b) [0..<k]) = (crcShift ^^ k) (crc XOR take_bit k ?B)"
      using Suc by simp
    then show ?thesis by (simp only: upt_Suc_append map_append foldl_append list.map foldl_Cons
        foldl_Nil serialStep_xor le0)
  qed
  also have "\<dots> = crcShift ((crcShift ^^ k) ((crc XOR take_bit k ?B) XOR push_bit k ?t))"
    unfolding crcShifts_xor [of k "crc XOR take_bit k ?B"] low t ..
  also have "\<dots> = (crcShift ^^ Suc k) (crc XOR take_bit (Suc k) ?B)"
    unfolding take by (simp add: ac_simps)
  finally show ?case .
qed simp

lemma serial_byte: "foldl serialStep crc (byte_bits b) = crcByte crc b"
proof -
  have "take_bit 8 (ucast b :: 32 word) = ucast b"
    by (rule bit_eqI) (auto simp: bit_simps dest: bit_imp_le_length)
  then show ?thesis using serial_steps [of 8 crc b] by (simp add: byte_bits_def crcByte_shift)
qed

lemma serial_bytes: "foldl serialStep crc (concat (map byte_bits buf)) = foldl crcByte crc buf"
  by (induction buf arbitrary: crc) (simp_all add: serial_byte)

section \<open>Reading back what was written\<close>

lemma le_value_16: "n < 0x10000 \<Longrightarrow> le_value (le16 n) = n"
  by (simp add: le16_def unat8 less_mult_imp_div_less)

lemma le_value_32: "n < 0x100000000 \<Longrightarrow> le_value (le32 n) = n"
proof -
  assume "n < 0x100000000"
  then have d: "n div 0x1000000 < 0x100" by (simp add: less_mult_imp_div_less)
  have "n div 0x10000 = n div 0x100 div 0x100" "n div 0x1000000 = n div 0x10000 div 0x100"
    by (simp_all add: div_mult2_eq [symmetric])
  then have "n = n mod 0x100 + 0x100 * (n div 0x100 mod 0x100 + 0x100 * (n div 0x10000 mod 0x100 +
      0x100 * (n div 0x1000000)))"
    by (metis mod_mult_div_eq)
  then show ?thesis using d by (simp add: le32_def unat8)
qed

lemma length_le [simp]: "length (le16 n) = 2" "length (le32 n) = 4"
  by (simp_all add: le16_def le32_def)

text \<open>A field of a part of a buffer.\<close>

lemma readLE_part:
  assumes "buf = pre @ part @ post" "base = length pre" "k + width \<le> length part"
  shows "readLE width buf (base + k) = Inr (le_value (sub k (k + width) part))"
proof -
  have "sub (length pre + k) (length pre + (k + width)) (pre @ part @ post) = sub k (k + width) part"
    unfolding sub_append_right by (rule sub_append_left [OF assms(3)])
  then show ?thesis using assms by (simp add: readLE_def add.assoc)
qed

lemma sub_part:
  assumes "buf = pre @ part @ post" "base = length pre" "j \<le> length part"
  shows "sub (base + i) (base + j) buf = sub i j part"
  unfolding assms(1,2) sub_append_right by (rule sub_append_left [OF assms(3)])

lemma zipLocal_fields:
  fixes name :: buffer and ts :: "nat \<times> nat" and crc cs fs :: nat
  defines "h \<equiv> zipLocal name ts crc cs fs"
  shows "length h = 30 + length name" "sub 0 4 h = le32 zipSignature"
    "sub 26 28 h = le16 (length name)" "sub 28 30 h = le16 0"
proof -
  let ?n = "30 + length name"
  have len: "length (blit off src buf) = ?n" if "length buf = ?n" "off + length src \<le> ?n"
    for off src and buf :: buffer using that by simp
  note h = h_def zipLocal_def
  show "length h = ?n" unfolding h by (simp del: length_blit add: len Let_def)
  show "sub 0 4 h = le32 zipSignature"
    unfolding h by (simp del: length_blit add: len Let_def sub_blit_other sub_blit_same)
  show "sub 26 28 h = le16 (length name)"
    unfolding h by (simp del: length_blit add: len Let_def sub_blit_other sub_blit_same)
  show "sub 28 30 h = le16 0"
    unfolding h by (simp del: length_blit add: len Let_def sub_blit_other sub_blit_same)
qed

lemma zipCentral_fields:
  fixes name :: buffer and ts :: "nat \<times> nat" and crc cs fs offset :: nat
  defines "h \<equiv> zipCentral name ts crc cs fs offset"
  shows "length h = 46 + length name" "sub 0 4 h = le32 zipCentralDirectorySignature"
    "sub 8 10 h = le16 0" "sub 10 12 h = le16 8" "sub 16 20 h = le32 crc" "sub 20 24 h = le32 cs"
    "sub 24 28 h = le32 fs" "sub 28 30 h = le16 (length name)" "sub 30 32 h = le16 0"
    "sub 32 34 h = le16 0" "sub 42 46 h = le32 offset" "sub 46 (46 + length name) h = name"
proof -
  let ?n = "46 + length name"
  have len: "length (blit off src buf) = ?n" if "length buf = ?n" "off + length src \<le> ?n"
    for off src and buf :: buffer using that by simp
  note h = h_def zipCentral_def
  show "length h = ?n" unfolding h by (simp del: length_blit add: len Let_def)
  show "sub 0 4 h = le32 zipCentralDirectorySignature"
    unfolding h by (simp del: length_blit add: len Let_def sub_blit_other sub_blit_same)
  show "sub 8 10 h = le16 0"
    unfolding h by (simp del: length_blit add: len Let_def sub_blit_other sub_blit_same)
  show "sub 10 12 h = le16 8"
    unfolding h by (simp del: length_blit add: len Let_def sub_blit_other sub_blit_same)
  show "sub 16 20 h = le32 crc"
    unfolding h by (simp del: length_blit add: len Let_def sub_blit_other sub_blit_same)
  show "sub 20 24 h = le32 cs"
    unfolding h by (simp del: length_blit add: len Let_def sub_blit_other sub_blit_same)
  show "sub 24 28 h = le32 fs"
    unfolding h by (simp del: length_blit add: len Let_def sub_blit_other sub_blit_same)
  show "sub 28 30 h = le16 (length name)"
    unfolding h by (simp del: length_blit add: len Let_def sub_blit_other sub_blit_same)
  show "sub 30 32 h = le16 0"
    unfolding h by (simp del: length_blit add: len Let_def sub_blit_other sub_blit_same)
  show "sub 32 34 h = le16 0"
    unfolding h by (simp del: length_blit add: len Let_def sub_blit_other sub_blit_same)
  show "sub 42 46 h = le32 offset"
    unfolding h by (simp del: length_blit add: len Let_def sub_blit_other sub_blit_same)
  show "sub 46 (46 + length name) h = name"
    unfolding h by (simp del: length_blit add: len Let_def sub_blit_other sub_blit_same)
qed

lemma zipEnd_fields:
  fixes n dl offset :: nat
  defines "h \<equiv> zipEnd n dl offset"
  shows "length h = 22" "sub 0 4 h = le32 zipEndOfCentralDirectorySignature"
    "sub 10 12 h = le16 n" "sub 16 20 h = le32 offset"
proof -
  have len: "length (blit off src buf) = 22" if "length buf = 22" "off + length src \<le> 22"
    for off src and buf :: buffer using that by simp
  note h = h_def zipEnd_def
  show "length h = 22" unfolding h by (simp del: length_blit add: len Let_def)
  show "sub 0 4 h = le32 zipEndOfCentralDirectorySignature"
    unfolding h by (simp del: length_blit add: len Let_def sub_blit_other sub_blit_same)
  show "sub 10 12 h = le16 n"
    unfolding h by (simp del: length_blit add: len Let_def sub_blit_other sub_blit_same)
  show "sub 16 20 h = le32 offset"
    unfolding h by (simp del: length_blit add: len Let_def sub_blit_other sub_blit_same)
qed

lemma signatures:
  "zipSignature < 0x100000000" "zipCentralDirectorySignature < 0x100000000"
  "zipEndOfCentralDirectorySignature < 0x100000000"
  by (simp_all add: zipSignature_def zipCentralDirectorySignature_def
      zipEndOfCentralDirectorySignature_def)

text \<open>What a zip keeps of an entry.\<close>

definition zip_stored :: "split_entry \<Rightarrow> split_entry" where
  "zip_stored e = e\<lparr>se_mode := None, se_mtime := None\<rparr>"

lemma safe_last: "safe_path p \<Longrightarrow> p \<noteq> [] \<and> last p \<noteq> slash"
proof -
  assume s: "safe_path p"
  then have ne: "p \<noteq> []" by (simp add: safe_path_def)
  have "last p \<noteq> slash"
  proof
    assume "last p = slash"
    then have "p = butlast p @ [slash]" using ne by (metis append_butlast_last_id)
    then have "js_split slash p = js_split slash (butlast p) @ [[]]"
      using js_split_snoc [of slash "butlast p"] by simp
    then show False using s by (simp add: safe_path_def)
  qed
  then show ?thesis using ne by simp
qed

lemma readZipEntry_written:
  assumes law: "\<And>x. inflateRaw (deflateRaw x) = Some x"
    and path: "safe_path p" "well_formed p"
    and fits: "length (utf8_encode p) < 0x10000" "length (deflateRaw bytes) < 0x100000000"
      "length bytes < 0x100000000" "at < 0x100000000"
    and loc: "local = zipLocal (utf8_encode p) ts (unat (crc32 bytes)) (length (deflateRaw bytes)) (length bytes)"
      "buf = pre @ (local @ deflateRaw bytes) @ post" "at = length pre"
    and cen: "central = zipCentral (utf8_encode p) ts (unat (crc32 bytes)) (length (deflateRaw bytes))
        (length bytes) at"
      "buf = cpre @ central @ cpost" "offset = length cpre"
  shows "readZipEntry inflateRaw buf offset =
    Inr ([\<lparr>se_data = bytes, se_logicalPath = p, se_mode = None, se_mtime = None\<rparr>],
         offset + length central)"
proof -
  have crc: "unat (crc32 bytes) < 0x100000000" using unsigned_less [of "crc32 bytes"] by simp
  note cf = zipCentral_fields [of "utf8_encode p" ts "unat (crc32 bytes)" "length (deflateRaw bytes)"
      "length bytes" at, folded cen(1)]
  note lf = zipLocal_fields [of "utf8_encode p" ts "unat (crc32 bytes)" "length (deflateRaw bytes)"
      "length bytes", folded loc(1)]
  have c16: "readUInt16LE buf (offset + k) = Inr n"
    if "sub k (k + 2) central = le16 n" "n < 0x10000" "k + 2 \<le> length central" for k n
    using readLE_part [OF cen(2,3) that(3)] that(1) le_value_16 [OF that(2)]
    by (simp add: readUInt16LE_def)
  have c32: "readUInt32LE buf (offset + k) = Inr n"
    if "sub k (k + 4) central = le32 n" "n < 0x100000000" "k + 4 \<le> length central" for k n
    using readLE_part [OF cen(2,3) that(3)] that(1) le_value_32 [OF that(2)]
    by (simp add: readUInt32LE_def)
  have l16: "readUInt16LE buf (at + k) = Inr n"
    if "sub k (k + 2) local = le16 n" "n < 0x10000" "k + 2 \<le> length local" for k n
  proof -
    have "sub k (k + 2) (local @ deflateRaw bytes) = le16 n"
      using that(1) sub_append_left [OF that(3)] by metis
    then show ?thesis using readLE_part [OF loc(2,3), of k 2] that(3) le_value_16 [OF that(2)]
      by (simp add: readUInt16LE_def)
  qed
  have l32: "readUInt32LE buf (at + k) = Inr n"
    if "sub k (k + 4) local = le32 n" "n < 0x100000000" "k + 4 \<le> length local" for k n
  proof -
    have "sub k (k + 4) (local @ deflateRaw bytes) = le32 n"
      using that(1) sub_append_left [OF that(3)] by metis
    then show ?thesis using readLE_part [OF loc(2,3), of k 4] that(3) le_value_32 [OF that(2)]
      by (simp add: readUInt32LE_def)
  qed
  have reads: "readUInt32LE buf offset = Inr zipCentralDirectorySignature"
    "readUInt16LE buf (offset + 8) = Inr 0" "readUInt16LE buf (offset + 10) = Inr 8"
    "readUInt32LE buf (offset + 16) = Inr (unat (crc32 bytes))"
    "readUInt32LE buf (offset + 20) = Inr (length (deflateRaw bytes))"
    "readUInt32LE buf (offset + 24) = Inr (length bytes)"
    "readUInt16LE buf (offset + 28) = Inr (length (utf8_encode p))"
    "readUInt16LE buf (offset + 30) = Inr 0" "readUInt16LE buf (offset + 32) = Inr 0"
    "readUInt32LE buf (offset + 42) = Inr at"
    using c32 [of 0 zipCentralDirectorySignature] c16 [of 8 0] c16 [of 10 8] c32 [of 16] c32 [of 20]
      c32 [of 24] c16 [of 28] c16 [of 30 0] c16 [of 32 0] c32 [of 42] cf crc fits signatures
    by simp_all
  have localReads: "readUInt32LE buf at = Inr zipSignature"
    "readUInt16LE buf (at + 26) = Inr (length (utf8_encode p))" "readUInt16LE buf (at + 28) = Inr 0"
    using l32 [of 0 zipSignature] l16 [of 26] l16 [of 28 0] lf fits signatures by simp_all
  have name: "sub (offset + 46) (offset + 46 + length (utf8_encode p)) buf = utf8_encode p"
    using sub_part [OF cen(2,3), of "46 + length (utf8_encode p)" 46] cf(1,12) by (simp add: add.assoc)
  have stream: "sub (at + 30 + length (utf8_encode p))
      (at + 30 + length (utf8_encode p) + length (deflateRaw bytes)) buf = deflateRaw bytes"
  proof -
    have "sub (length local) (length local + length (deflateRaw bytes)) (local @ deflateRaw bytes) =
        deflateRaw bytes"
      using sub_append_right [of local 0 "length (deflateRaw bytes)" "deflateRaw bytes"]
      by (simp add: sub_def)
    then show ?thesis
      using sub_part [OF loc(2,3), of "length local + length (deflateRaw bytes)" "length local"] lf(1)
      by (simp add: add.assoc)
  qed
  have inflate: "inflateData inflateRaw 8 p (deflateRaw bytes) = Inr bytes"
    by (simp add: inflateData_def law)
  show ?thesis
    unfolding readZipEntry_def Let_def reads localReads then_do_simps name utf8_roundtrip [OF path(2)]
      safe_normalize [OF path(1)]
    using safe_last [OF path(1)] cf(1)
    by (simp add: localReads stream inflate)
qed

lemma packZipLoop_ok:
  assumes "packZipLoop deflateRaw at (e # es) = Inr (locals, centrals)" "safe_path (se_logicalPath e)"
  defines "name \<equiv> utf8_encode (se_logicalPath e)" and "compressed \<equiv> deflateRaw (se_data e)"
  defines "local \<equiv> zipLocal name (dosDateTime (se_mtime e)) (unat (crc32 (se_data e)))
      (length compressed) (length (se_data e))"
  defines "central \<equiv> zipCentral name (dosDateTime (se_mtime e)) (unat (crc32 (se_data e)))
      (length compressed) (length (se_data e)) at"
  obtains ls cs where "locals = local @ compressed @ ls" "centrals = central @ cs"
    "packZipLoop deflateRaw (at + length local + length compressed) es = Inr (ls, cs)"
    "length name < 0x10000" "length compressed < 0x100000000" "length (se_data e) < 0x100000000"
    "at < 0x100000000"
  using assms(1) unfolding packZipLoop.simps safe_normalize [OF assms(2)] then_do_simps Let_def
    name_def [symmetric] compressed_def [symmetric] local_def [symmetric] central_def [symmetric]
  by (auto simp: then_do_ok split: if_splits prod.splits)

lemma zipLoop_packed:
  assumes law: "\<And>x. inflateRaw (deflateRaw x) = Some x"
  shows "packZipLoop deflateRaw (length pre) es = Inr (locals, centrals) \<Longrightarrow>
    \<forall>e\<in>set es. safe_path (se_logicalPath e) \<and> well_formed (se_logicalPath e) \<Longrightarrow>
    buf = (pre @ locals) @ (cpre @ centrals) @ post \<Longrightarrow>
    zipLoop inflateRaw buf (length es) (length (pre @ locals) + length cpre) =
      Inr (map zip_stored es)"
proof (induction es arbitrary: pre cpre locals centrals)
  case (Cons e es)
  let ?name = "utf8_encode (se_logicalPath e)" and ?z = "deflateRaw (se_data e)"
  let ?local = "zipLocal ?name (dosDateTime (se_mtime e)) (unat (crc32 (se_data e))) (length ?z)
      (length (se_data e))"
  let ?central = "zipCentral ?name (dosDateTime (se_mtime e)) (unat (crc32 (se_data e))) (length ?z)
      (length (se_data e)) (length pre)"
  have path: "safe_path (se_logicalPath e)" "well_formed (se_logicalPath e)" using Cons(3) by simp_all
  from Cons(2) path(1) obtain ls cs where p: "locals = ?local @ ?z @ ls" "centrals = ?central @ cs"
    "packZipLoop deflateRaw (length pre + length ?local + length ?z) es = Inr (ls, cs)"
    and fits: "length ?name < 0x10000" "length ?z < 0x100000000" "length (se_data e) < 0x100000000"
      "length pre < 0x100000000"
    by (rule packZipLoop_ok)
  have b1: "buf = pre @ (?local @ ?z) @ (ls @ cpre @ centrals @ post)" using Cons(4) p(1) by simp
  have b2: "buf = (pre @ locals @ cpre) @ ?central @ (cs @ post)" using Cons(4) p(2) by simp
  have o: "length (pre @ locals) + length cpre = length (pre @ locals @ cpre)" by simp
  have read: "readZipEntry inflateRaw buf (length (pre @ locals) + length cpre) =
      Inr ([zip_stored e], length (pre @ locals) + length cpre + length ?central)"
    using readZipEntry_written [OF law path fits refl b1 refl refl b2 o]
    by (simp add: zip_stored_def)
  have "zipLoop inflateRaw buf (length es) (length ((pre @ ?local @ ?z) @ ls) + length (cpre @ ?central)) =
      Inr (map zip_stored es)"
  proof (rule Cons(1))
    show "packZipLoop deflateRaw (length (pre @ ?local @ ?z)) es = Inr (ls, cs)"
      using p(3) by (simp add: add.assoc)
    show "\<forall>e\<in>set es. safe_path (se_logicalPath e) \<and> well_formed (se_logicalPath e)"
      using Cons(3) by simp
    show "buf = ((pre @ ?local @ ?z) @ ls) @ ((cpre @ ?central) @ cs) @ post"
      using Cons(4) p(1,2) by simp
  qed
  moreover have "length ((pre @ ?local @ ?z) @ ls) + length (cpre @ ?central) =
      length (pre @ locals) + length cpre + length ?central"
    using p(1) by simp
  ultimately have rest: "zipLoop inflateRaw buf (length es)
      (length (pre @ locals) + length cpre + length ?central) = Inr (map zip_stored es)"
    by (simp only:)
  show ?case
    unfolding list.size(4) add_Suc_right add_0_right zipLoop.simps(2) read then_do_simps split_conv rest
    by simp
qed simp

lemma find_end:
  assumes "buf = pre @ zipEnd n dl offset"
  shows "findZipEndOfCentralDirectory buf = Some (length pre)"
proof -
  have l: "length buf = length pre + 22" using zipEnd_fields(1) assms by simp
  have "readUInt32LE buf (length pre + 0) = Inr zipEndOfCentralDirectorySignature"
    using readLE_part [of buf pre "zipEnd n dl offset" "[]" "length pre" 0 4] assms
      zipEnd_fields(1,2) [of n dl offset] le_value_32 [OF signatures(3)]
    by (simp add: readUInt32LE_def)
  moreover have "rev [length buf - 65557..<length buf - 21] =
      length pre # rev [length buf - 65557..<length pre]"
    unfolding l by (simp add: upt_Suc_append)
  ultimately show ?thesis using l by (simp add: findZipEndOfCentralDirectory_def)
qed

lemma unpackZip_packed:
  assumes law: "\<And>x. inflateRaw (deflateRaw x) = Some x"
    and pack: "packZip deflateRaw es = Inr buf"
    and paths: "\<forall>e\<in>set es. safe_path (se_logicalPath e) \<and> well_formed (se_logicalPath e)"
  shows "findZipEndOfCentralDirectory buf \<noteq> None"
    "unpackZip inflateRaw buf limits = validateEntries False limits (map zip_stored es)"
proof -
  obtain locals centrals where p: "packZipLoop deflateRaw 0 es = Inr (locals, centrals)"
    "length es < 0x10000" "length locals < 0x100000000"
    "buf = locals @ centrals @ zipEnd (length es) (length centrals) (length locals)"
    using pack by (auto simp: packZip_def then_do_ok split: if_splits prod.splits)
  let ?tail = "zipEnd (length es) (length centrals) (length locals)"
  have b: "buf = (locals @ centrals) @ ?tail" using p(4) by simp
  have e: "findZipEndOfCentralDirectory buf = Some (length (locals @ centrals))"
    by (rule find_end [OF b])
  then show "findZipEndOfCentralDirectory buf \<noteq> None" by simp
  note f = zipEnd_fields [of "length es" "length centrals" "length locals"]
  have b': "buf = (locals @ centrals) @ ?tail @ []" using b by simp
  have "readUInt16LE buf (length (locals @ centrals) + 10) = Inr (length es)"
    using readLE_part [OF b' refl, of 10 2] f le_value_16 [OF p(2)] by (simp add: readUInt16LE_def)
  moreover have "readUInt32LE buf (length (locals @ centrals) + 16) = Inr (length locals)"
    using readLE_part [OF b' refl, of 16 4] f le_value_32 [OF p(3)] by (simp add: readUInt32LE_def)
  moreover have "zipLoop inflateRaw buf (length es) (length ([] @ locals) + length ([] :: buffer)) =
      Inr (map zip_stored es)"
  proof (rule zipLoop_packed [where deflateRaw = deflateRaw, OF law])
    show "packZipLoop deflateRaw (length []) es = Inr (locals, centrals)" using p(1) by simp
    show "buf = ([] @ locals) @ ([] @ centrals) @ ?tail" using p(4) by simp
  qed (rule paths)
  ultimately show "unpackZip inflateRaw buf limits = validateEntries False limits (map zip_stored es)"
    by (simp add: unpackZip_def e)
qed

end
