(* ===== verification/Split_Artifacts.thy ===== *)
theory Split_Artifacts
  imports Zip_Archive
begin

text \<open>
  The exported functions of \<open>packages/storage/src/split-artifact-adapters.ts\<close>: detection of a format,
  splitting and repacking an archive, its manifest, the comparison of digest trees and the plan of
  a split history. gzip, deflate and SHA-256 are parameters.
\<close>

datatype split_format = format_gzip_tar | format_tar | format_unitypackage | format_zip

record archive_codecs =
  ac_gzip :: "buffer \<Rightarrow> buffer"
  ac_gunzip :: "buffer \<Rightarrow> buffer option"
  ac_deflateRaw :: "buffer \<Rightarrow> buffer"
  ac_inflateRaw :: "buffer \<Rightarrow> buffer option"

text \<open>What is used of zlib: decompressing undoes compressing, and a gzip stream begins with its two
  identification bytes (RFC 1952).\<close>

definition codec_laws :: "archive_codecs \<Rightarrow> bool" where
  "codec_laws c \<longleftrightarrow>
     (\<forall>x. ac_gunzip c (ac_gzip c x) = Some x \<and> ac_inflateRaw c (ac_deflateRaw c x) = Some x \<and>
        take 2 (ac_gzip c x) = [0x1F, 0x8B])"

section \<open>Detection\<close>

text \<open>\<open>toLowerCase\<close>, as far as ASCII letters are produced: of the letters outside ASCII only the Kelvin
  sign and the dotted capital I have one in their lower case.\<close>

definition lower_unit :: "16 word \<Rightarrow> js_text" where
  "lower_unit u =
     (if 0x41 \<le> u \<and> u \<le> 0x5A then [u + 0x20]
      else if u = 0x212A then [0x6B]
      else if u = 0x130 then [0x69, 0x307]
      else [u])"

definition lower_text :: "js_text \<Rightarrow> js_text" where
  "lower_text s = concat (map lower_unit s)"

definition endsWith :: "string \<Rightarrow> js_text \<Rightarrow> bool" where
  "endsWith suffix s \<longleftrightarrow>
     length suffix \<le> length s \<and> drop (length s - length suffix) s = lit suffix"

definition looksLikeTar :: "buffer \<Rightarrow> bool" where
  "looksLikeTar buf \<longleftrightarrow> \<not> (length buf < 1024 \<or> length buf mod 512 \<noteq> 0) \<and>
     (take 5 (map (\<lambda>b. unat b mod 0x80) (sub 257 263 buf)) = [0x75, 0x73, 0x74, 0x61, 0x72] \<or>
      isZeroBlock (sub 0 512 buf))"

definition looksLikeGzipTar :: "archive_codecs \<Rightarrow> buffer \<Rightarrow> bool" where
  "looksLikeGzipTar c buf \<longleftrightarrow>
     (if length buf < 2 \<or> buf ! 0 \<noteq> 0x1F \<or> buf ! 1 \<noteq> 0x8B then False
      else (case ac_gunzip c buf of None \<Rightarrow> False | Some tar \<Rightarrow> looksLikeTar tar))"

definition looksLikeZip :: "buffer \<Rightarrow> bool" where
  "looksLikeZip buf \<longleftrightarrow> findZipEndOfCentralDirectory buf \<noteq> None"

definition detectSplitArtifactFormat ::
  "archive_codecs \<Rightarrow> js_text \<Rightarrow> buffer \<Rightarrow> split_format option" where
  "detectSplitArtifactFormat c filename archive =
     (let lower = lower_text filename in
      if endsWith ''.unitypackage'' lower then
        (if looksLikeGzipTar c archive then Some format_unitypackage else None)
      else if endsWith ''.tar.gz'' lower \<or> endsWith ''.tgz'' lower then
        (if looksLikeGzipTar c archive then Some format_gzip_tar else None)
      else if endsWith ''.tar'' lower then
        (if looksLikeTar archive then Some format_tar else None)
      else if endsWith ''.zip'' lower then
        (if looksLikeZip archive then Some format_zip else None)
      else None)"

definition isSplitArtifactEligibleFilename :: "js_text \<Rightarrow> bool" where
  "isSplitArtifactEligibleFilename filename \<longleftrightarrow>
     (let lower = lower_text filename in
      endsWith ''.zip'' lower \<or> endsWith ''.tar'' lower \<or> endsWith ''.tar.gz'' lower \<or>
      endsWith ''.tgz'' lower \<or> endsWith ''.unitypackage'' lower)"

section \<open>Splitting and repacking\<close>

record partial_limits =
  ql_maxEntryCount :: "int option"
  ql_maxEntryByteLength :: "int option"
  ql_maxTotalUnpackedByteLength :: "int option"

definition resolveLimits :: "partial_limits option \<Rightarrow> split_limits" where
  "resolveLimits limits =
     (case limits of
        None \<Rightarrow> defaultLimits
      | Some q \<Rightarrow>
          \<lparr>sl_maxEntryCount = nullish (ql_maxEntryCount q) (sl_maxEntryCount defaultLimits),
           sl_maxEntryByteLength =
             nullish (ql_maxEntryByteLength q) (sl_maxEntryByteLength defaultLimits),
           sl_maxTotalUnpackedByteLength =
             nullish (ql_maxTotalUnpackedByteLength q)
               (sl_maxTotalUnpackedByteLength defaultLimits)\<rparr>)"

record split_result =
  sr_entries :: "split_entry list"
  sr_format :: split_format
  sr_originalLogicalByteLength :: nat

definition splitArtifactArchive ::
  "archive_codecs \<Rightarrow> js_text \<Rightarrow> buffer \<Rightarrow> partial_limits option
     \<Rightarrow> (archive_error + split_result) option" where
  "splitArtifactArchive c filename archive givenLimits =
     (case detectSplitArtifactFormat c filename archive of
        None \<Rightarrow> Some (Inl (UnsupportedSplitArtifactError filename))
      | Some detected \<Rightarrow>
          (let limits = resolveLimits givenLimits in
           map_option
             (\<lambda>r. then_do r (\<lambda>entries.
                Inr \<lparr>sr_entries = entries, sr_format = detected,
                     sr_originalLogicalByteLength = length archive\<rparr>))
             (if detected = format_zip then Some (unpackZip (ac_inflateRaw c) archive limits)
              else if detected = format_tar then unpackTar archive limits
              else
                (case ac_gunzip c archive of
                   None \<Rightarrow> Some (Inl CorruptStream)
                 | Some tar \<Rightarrow> unpackTar tar limits))))"

definition createSplitArtifactArchive ::
  "archive_codecs \<Rightarrow> bool \<Rightarrow> split_format \<Rightarrow> split_entry list \<Rightarrow> archive_error + buffer" where
  "createSplitArtifactArchive c skip format entries =
     then_do (validateEntries skip defaultLimits entries) (\<lambda>entries.
       if format = format_zip then packZip (ac_deflateRaw c) entries
       else
         then_do (packTar skip entries) (\<lambda>tar.
           Inr (if format = format_tar then tar else ac_gzip c tar)))"

section \<open>Manifest and comparison\<close>

record split_manifest_entry =
  sm_index :: nat
  sm_logicalPath :: js_text
  sm_mode :: "int option"
  sm_mtime :: "string option"
  sm_sha256 :: string
  sm_size :: nat

record split_manifest =
  sx_assetId :: string
  sx_entries :: "split_manifest_entry list"
  sx_format :: split_format
  sx_filename :: js_text
  sx_logicalByteLength :: nat
  sx_sha256 :: string
  sx_totalEntryByteLength :: nat

definition createSplitArtifactManifest ::
  "(buffer \<Rightarrow> string) \<Rightarrow> string \<Rightarrow> buffer \<Rightarrow> js_text \<Rightarrow> split_result \<Rightarrow> split_manifest" where
  "createSplitArtifactManifest sha256Hex assetId originalArchive originalFilename split =
     \<lparr>sx_assetId = assetId,
      sx_entries =
        map (\<lambda>(index, entry).
          \<lparr>sm_index = index, sm_logicalPath = se_logicalPath entry, sm_mode = se_mode entry,
           sm_mtime = map_option toISOString (se_mtime entry),
           sm_sha256 = sha256Hex (se_data entry), sm_size = length (se_data entry)\<rparr>)
          (enumerate 0 (sr_entries split)),
      sx_format = sr_format split, sx_filename = originalFilename,
      sx_logicalByteLength = length originalArchive, sx_sha256 = sha256Hex originalArchive,
      sx_totalEntryByteLength = fold (\<lambda>entry sofar. sofar + length (se_data entry)) (sr_entries split) 0\<rparr>"

fun digestTree ::
  "(buffer \<Rightarrow> string) \<Rightarrow> split_entry list \<Rightarrow> archive_error + (js_text \<times> string) list" where
  "digestTree sha256Hex [] = Inr []"
| "digestTree sha256Hex (e # es) =
     then_do (normalizeArchivePath (se_logicalPath e)) (\<lambda>path.
       then_do (digestTree sha256Hex es) (\<lambda>rest. Inr ((path, sha256Hex (se_data e)) # rest)))"

text \<open>The trees are compared as JSON texts, which are equal exactly when the sorted lists of pairs
  are.\<close>

definition compareSplitEntryDigestTrees ::
  "(js_text \<Rightarrow> js_text \<Rightarrow> int) \<Rightarrow> (buffer \<Rightarrow> string) \<Rightarrow> split_entry list \<Rightarrow> split_entry list
     \<Rightarrow> archive_error + bool" where
  "compareSplitEntryDigestTrees localeCompare sha256Hex leftEntries rightEntries =
     (let tree = (\<lambda>es. then_do (digestTree sha256Hex es)
        (\<lambda>pairs. Inr (js_sort (\<lambda>l r. localeCompare (fst l) (fst r)) pairs))) in
      then_do (tree leftEntries) (\<lambda>left.
        then_do (tree rightEntries) (\<lambda>right. Inr (left = right))))"

section \<open>The plan of a split history\<close>

datatype split_representation = repr_split | repr_whole

datatype split_status =
  split_complete | split_failed_retryable | split_failed_terminal | split_pending | split_running

record split_candidate =
  sc_filename :: js_text
  sc_representation :: split_representation
  sc_splitStatus :: "split_status option"
  sc_versionId :: string

record split_plan =
  sp_currentVersionId :: string
  sp_demoteVersionIds :: "string list"
  sp_skippedVersionIds :: "string list"

definition demotable :: "string \<Rightarrow> split_candidate \<Rightarrow> bool" where
  "demotable currentVersionId version \<longleftrightarrow> sc_versionId version \<noteq> currentVersionId \<and>
     sc_representation version = repr_whole \<and> isSplitArtifactEligibleFilename (sc_filename version)"

definition planSplitHistoryDemotion :: "string \<Rightarrow> bool \<Rightarrow> split_candidate list \<Rightarrow> split_plan" where
  "planSplitHistoryDemotion currentVersionId policyEnabled versions =
     (if \<not> policyEnabled then
        \<lparr>sp_currentVersionId = currentVersionId, sp_demoteVersionIds = [],
         sp_skippedVersionIds = map sc_versionId versions\<rparr>
      else
        \<lparr>sp_currentVersionId = currentVersionId,
         sp_demoteVersionIds = map sc_versionId (filter (demotable currentVersionId) versions),
         sp_skippedVersionIds =
           map sc_versionId (filter (\<lambda>v. \<not> demotable currentVersionId v) versions)\<rparr>)"

section \<open>Properties\<close>

text \<open>The format that a file name announces.\<close>

definition announcedFormat :: "js_text \<Rightarrow> split_format option" where
  "announcedFormat filename =
     (let lower = lower_text filename in
      if endsWith ''.unitypackage'' lower then Some format_unitypackage
      else if endsWith ''.tar.gz'' lower \<or> endsWith ''.tgz'' lower then Some format_gzip_tar
      else if endsWith ''.tar'' lower then Some format_tar
      else if endsWith ''.zip'' lower then Some format_zip
      else None)"

lemma detect_announced:
  assumes "announcedFormat filename = Some format"
    and "format = format_zip \<Longrightarrow> looksLikeZip archive"
    and "format = format_tar \<Longrightarrow> looksLikeTar archive"
    and "format \<noteq> format_zip \<Longrightarrow> format \<noteq> format_tar \<Longrightarrow> looksLikeGzipTar c archive"
  shows "detectSplitArtifactFormat c filename archive = Some format"
  using assms by (auto simp: announcedFormat_def detectSplitArtifactFormat_def Let_def split: if_splits)

lemma validate_same:
  "\<forall>e\<in>set es. safe_path (se_logicalPath e) \<Longrightarrow>
    validateLoop skip limits seen unpacked es = Inr es' \<Longrightarrow> es' = es"
proof (induction es arbitrary: seen unpacked es')
  case (Cons e es)
  then show ?case
    by (auto simp: then_do_ok safe_normalize split: if_splits)
qed simp

text \<open>Entries that passed validation once pass it again, whatever else of them changed.\<close>

lemma validate_again:
  assumes safe: "\<forall>e\<in>set es. safe_path (se_logicalPath e)"
    and once: "validateEntries skip limits es = Inr es'"
    and keep: "\<And>e. se_logicalPath (g e) = se_logicalPath e \<and> se_data (g e) = se_data e"
    and nonneg: "0 \<le> sl_maxTotalUnpackedByteLength limits"
  shows "es' = es" "validateEntries False limits (map g es) = Inr (map g es)"
proof -
  have l: "validateLoop skip limits [] 0 es = Inr es'" "int (length es) \<le> sl_maxEntryCount limits"
    using once by (auto simp: validateEntries_def split: if_splits)
  show same: "es' = es" by (rule validate_same [OF safe l(1)])
  note v = validateLoop_ok [OF l(1), unfolded same]
  have m: "map (se_logicalPath \<circ> g) es = map se_logicalPath es" using keep by simp
  have "validateLoop False limits [] 0 (map g es) = Inr (map g es)"
  proof (rule validateLoop_fixed)
    show "\<forall>e\<in>set (map g es). safe_path (se_logicalPath e) \<and>
        int (length (se_data e)) \<le> sl_maxEntryByteLength limits"
      using safe v(4) keep by auto
    show "distinct (map se_logicalPath (map g es))" using v(2) m by (metis map_map)
    show "int (0 + (\<Sum>e\<leftarrow>map g es. length (se_data e))) \<le> sl_maxTotalUnpackedByteLength limits"
    proof -
      have "(\<Sum>e\<leftarrow>map g es. length (se_data e)) = (\<Sum>e\<leftarrow>es. length (se_data e))"
        using keep by (simp add: comp_def)
      then show ?thesis using v(5) nonneg by (cases "es = []") simp_all
    qed
  qed simp
  then show "validateEntries False limits (map g es) = Inr (map g es)"
    using l(2) by (simp add: validateEntries_def)
qed

lemma looksLikeTar_packed:
  assumes "length tar mod 512 = 0" "1024 \<le> length tar"
    and "if es = [] then isZeroBlock (sub 0 512 tar)
      else sub 257 262 tar = [0x75, 0x73, 0x74, 0x61, 0x72]"
  shows "looksLikeTar tar"
proof (cases "es = []")
  case False
  have "take 5 (sub 257 263 tar) = sub 257 262 tar" by (simp add: sub_def)
  then have five: "take 5 (sub 257 263 tar) = [0x75, 0x73, 0x74, 0x61, 0x72]"
    using assms(3) False by (simp only: if_False)
  have "take 5 (map (\<lambda>b. unat b mod 0x80) (sub 257 263 tar)) = [0x75, 0x73, 0x74, 0x61, 0x72]"
    unfolding take_map five by simp
  then show ?thesis using assms(1,2) by (simp add: looksLikeTar_def)
qed (use assms in \<open>simp add: looksLikeTar_def\<close>)

lemma looksLikeGzipTar_packed:
  assumes "codec_laws c" "looksLikeTar tar"
  shows "looksLikeGzipTar c (ac_gzip c tar)"
proof -
  have t: "take 2 (ac_gzip c tar) = [0x1F, 0x8B]" "ac_gunzip c (ac_gzip c tar) = Some tar"
    using assms(1) by (simp_all add: codec_laws_def)
  then obtain rest where "ac_gzip c tar = 0x1F # 0x8B # rest"
    by (metis append_take_drop_id append_Cons append_Nil)
  then show ?thesis using t(2) assms(2) by (simp add: looksLikeGzipTar_def)
qed

text \<open>C36. A tar archive reads back: when \<open>createSplitArtifactArchive\<close> packs entries as tar, gzipped tar
  or unitypackage and returns an archive, \<open>splitArtifactArchive\<close> of that archive under a file name
  of the same kind returns, and gives the entries in their order, with their bytes and paths, a
  mode, and the time cut to seconds. The paths are safe and at most 100 UTF-8 bytes long; modes and
  times fit their fields.\<close>

theorem tar_archive_roundtrip:
  assumes "codec_laws c" "format \<noteq> format_zip" "announcedFormat filename = Some format"
    and "\<forall>e\<in>set entries. tar_fits e"
    and "createSplitArtifactArchive c skip format entries = Inr archive"
  shows "splitArtifactArchive c filename archive None =
    Some (Inr \<lparr>sr_entries = map tar_stored entries, sr_format = format,
               sr_originalLogicalByteLength = length archive\<rparr>)"
proof -
  have safe: "\<forall>e\<in>set entries. safe_path (se_logicalPath e)" using assms(4) by (simp add: tar_fits_def)
  obtain es where es: "validateEntries skip defaultLimits entries = Inr es"
    using assms(5) by (auto simp: createSplitArtifactArchive_def then_do_ok)
  note v = validate_again [where g = tar_stored, OF safe es]
  have limit: "0 \<le> sl_maxTotalUnpackedByteLength defaultLimits" by (simp add: defaultLimits_def)
  have es': "es = entries" by (rule v(1)) (simp_all add: tar_stored_def limit)
  have again: "validateEntries False defaultLimits (map tar_stored entries) = Inr (map tar_stored entries)"
    by (rule v(2)) (simp_all add: tar_stored_def limit)
  obtain tar where tar: "packTar skip entries = Inr tar" "length tar mod 512 = 0" "1024 \<le> length tar"
    "if entries = [] then isZeroBlock (sub 0 512 tar)
     else sub 257 262 tar = [0x75, 0x73, 0x74, 0x61, 0x72]"
    "\<forall>pre. tarLoop (pre @ tar) (length pre) = Some (Inr (map tar_stored entries))"
    using packTar_fits [OF assms(4), of skip] by (elim exE conjE) (rule that)
  have archive: "archive = (if format = format_tar then tar else ac_gzip c tar)"
    using assms(2,5) es tar(1) unfolding es' by (simp add: createSplitArtifactArchive_def)
  have "looksLikeTar tar" by (rule looksLikeTar_packed [OF tar(2-4)])
  then have det: "detectSplitArtifactFormat c filename archive = Some format"
    using assms(2) archive looksLikeGzipTar_packed [OF assms(1)]
    by (intro detect_announced [OF assms(3)]) simp_all
  have "unpackTar tar defaultLimits = Some (Inr (map tar_stored entries))"
    using tar(5) [rule_format, of "[]"] again by (simp add: unpackTar_def)
  moreover have "ac_gunzip c (ac_gzip c tar) = Some tar" using assms(1) by (simp add: codec_laws_def)
  ultimately show ?thesis
    using assms(2) det archive by (simp add: splitArtifactArchive_def resolveLimits_def)
qed

text \<open>Two codecs that satisfy the laws: identification bytes only, and nothing at all.\<close>

definition exampleCodecs :: archive_codecs where
  "exampleCodecs =
     \<lparr>ac_gzip = (\<lambda>x. 0x1F # 0x8B # x), ac_gunzip = (\<lambda>x. Some (drop 2 x)),
      ac_deflateRaw = (\<lambda>x. x), ac_inflateRaw = Some\<rparr>"

lemma exampleCodecs_laws: "codec_laws exampleCodecs"
  by (simp add: codec_laws_def exampleCodecs_def)

definition exampleEntry :: split_entry where
  "exampleEntry = \<lparr>se_data = [1, 2, 3], se_logicalPath = lit ''Assets/a.png'', se_mode = None,
     se_mtime = Some 86400500\<rparr>"

lemma exampleEntry_path:
  "se_logicalPath exampleEntry =
     [0x41, 0x73, 0x73, 0x65, 0x74, 0x73, 0x2F, 0x61, 0x2E, 0x70, 0x6E, 0x67]"
  by (simp add: exampleEntry_def lit_def)

lemma exampleEntry_safe: "safe_path (se_logicalPath exampleEntry)"
  by (simp add: safe_path_def exampleEntry_path letter_def)

lemma exampleEntry_fits: "tar_fits exampleEntry"
proof -
  have "ascii (se_logicalPath exampleEntry)" by (simp add: ascii_def exampleEntry_path)
  then show ?thesis
    using exampleEntry_safe ascii_well_formed utf8_encode_ascii
    by (simp add: tar_fits_def field_text_def tar_values_def)
      (simp add: exampleEntry_path, simp add: exampleEntry_def)
qed

lemma exampleEntry_valid: "validateEntries skip defaultLimits [exampleEntry] = Inr [exampleEntry]"
  using exampleEntry_safe safe_normalize
  by (simp add: validateEntries_def defaultLimits_def) (simp add: exampleEntry_def)

theorem tar_archive_roundtrip_witness:
  "\<exists>archive.
     createSplitArtifactArchive exampleCodecs False format_gzip_tar [exampleEntry] = Inr archive \<and>
     splitArtifactArchive exampleCodecs (lit ''a.TGZ'') archive None =
       Some (Inr \<lparr>sr_entries = [exampleEntry\<lparr>se_mode := Some 420, se_mtime := Some 86400000\<rparr>],
                  sr_format = format_gzip_tar, sr_originalLogicalByteLength = length archive\<rparr>)"
proof -
  have fits: "\<forall>e\<in>set [exampleEntry]. tar_fits e" using exampleEntry_fits by simp
  obtain archive where a:
    "createSplitArtifactArchive exampleCodecs False format_gzip_tar [exampleEntry] = Inr archive"
    using packTar_fits [OF fits, of False] exampleEntry_valid [of False]
    by (auto simp: createSplitArtifactArchive_def)
  have n: "announcedFormat (lit ''a.TGZ'') = Some format_gzip_tar"
    by (simp add: announcedFormat_def endsWith_def lower_text_def lower_unit_def lit_def)
  have s: "tar_stored exampleEntry = exampleEntry\<lparr>se_mode := Some 420, se_mtime := Some 86400000\<rparr>"
    by (simp add: tar_stored_def exampleEntry_def)
  show ?thesis
    using a tar_archive_roundtrip [OF exampleCodecs_laws _ n fits a] s by simp
qed

text \<open>C37. A zip archive reads back: when \<open>createSplitArtifactArchive\<close> packs entries with safe paths as
  zip and returns an archive, \<open>splitArtifactArchive\<close> of it under a zip file name gives the entries in
  their order with their bytes and paths, and without modes and times.\<close>

theorem zip_archive_roundtrip:
  assumes "codec_laws c" "announcedFormat filename = Some format_zip"
    and "\<forall>e\<in>set entries. safe_path (se_logicalPath e) \<and> well_formed (se_logicalPath e)"
    and "createSplitArtifactArchive c skip format_zip entries = Inr archive"
  shows "splitArtifactArchive c filename archive None =
    Some (Inr \<lparr>sr_entries = map zip_stored entries, sr_format = format_zip,
               sr_originalLogicalByteLength = length archive\<rparr>)"
proof -
  have safe: "\<forall>e\<in>set entries. safe_path (se_logicalPath e)" using assms(3) by simp
  obtain es where es: "validateEntries skip defaultLimits entries = Inr es"
    using assms(4) by (auto simp: createSplitArtifactArchive_def then_do_ok)
  note v = validate_again [where g = zip_stored, OF safe es]
  have limit: "0 \<le> sl_maxTotalUnpackedByteLength defaultLimits" by (simp add: defaultLimits_def)
  have es': "es = entries" by (rule v(1)) (simp_all add: zip_stored_def limit)
  have again: "validateEntries False defaultLimits (map zip_stored entries) = Inr (map zip_stored entries)"
    by (rule v(2)) (simp_all add: zip_stored_def limit)
  have pack: "packZip (ac_deflateRaw c) entries = Inr archive"
    using assms(4) es unfolding es' by (simp add: createSplitArtifactArchive_def)
  have law: "ac_inflateRaw c (ac_deflateRaw c x) = Some x" for x
    using assms(1) by (simp add: codec_laws_def)
  note u = unpackZip_packed [OF law pack assms(3)]
  have "detectSplitArtifactFormat c filename archive = Some format_zip"
    using u(1) by (intro detect_announced [OF assms(2)]) (simp_all add: looksLikeZip_def)
  then show ?thesis using u(2) again by (simp add: splitArtifactArchive_def resolveLimits_def)
qed

lemma exampleEntry_zip: "\<exists>archive. packZip (ac_deflateRaw exampleCodecs) [exampleEntry] = Inr archive"
proof -
  have "fst (dosDateTime (Some 86400500)) < 0x10000 \<and> snd (dosDateTime (Some 86400500)) < 0x10000"
  proof -
    have "civil 1 = (1970, 1, 2)" by (simp add: civil_defs)
    then show ?thesis by (simp add: dosDateTime_def)
  qed
  moreover have "length (utf8_encode (se_logicalPath exampleEntry)) \<le> 100"
    using exampleEntry_fits by (simp add: tar_fits_def)
  moreover have "length (se_data exampleEntry) = 3" "se_mtime exampleEntry = Some 86400500"
    by (simp_all add: exampleEntry_def)
  ultimately show ?thesis
    by (simp add: packZip_def safe_normalize [OF exampleEntry_safe] Let_def exampleCodecs_def
        zipLocal_fields(1) zipCentral_fields(1))
qed

theorem zip_archive_roundtrip_witness:
  "\<exists>archive.
     createSplitArtifactArchive exampleCodecs False format_zip [exampleEntry] = Inr archive \<and>
     splitArtifactArchive exampleCodecs (lit ''a.Zip'') archive None =
       Some (Inr \<lparr>sr_entries = [exampleEntry\<lparr>se_mode := None, se_mtime := None\<rparr>],
                  sr_format = format_zip, sr_originalLogicalByteLength = length archive\<rparr>)"
proof -
  obtain archive where a:
    "createSplitArtifactArchive exampleCodecs False format_zip [exampleEntry] = Inr archive"
    using exampleEntry_zip exampleEntry_valid [of False] by (auto simp: createSplitArtifactArchive_def)
  have n: "announcedFormat (lit ''a.Zip'') = Some format_zip"
    by (simp add: announcedFormat_def endsWith_def lower_text_def lower_unit_def lit_def)
  have p: "\<forall>e\<in>set [exampleEntry]. safe_path (se_logicalPath e) \<and> well_formed (se_logicalPath e)"
    using exampleEntry_fits by (simp add: tar_fits_def field_text_def)
  show ?thesis
    using a zip_archive_roundtrip [OF exampleCodecs_laws n p a] by (simp add: zip_stored_def)
qed

text \<open>The entries of an archive that was split passed validation.\<close>

lemma split_validated:
  assumes "splitArtifactArchive c filename archive limits = Some (Inr r)"
  shows "\<exists>es. validateEntries False (resolveLimits limits) es = Inr (sr_entries r)"
  using assms
  by (auto simp: splitArtifactArchive_def unpackZip_def unpackTar_def Let_def then_do_ok
      split: option.splits if_splits)

text \<open>C38. Whatever bytes an archive holds, the entries that \<open>splitArtifactArchive\<close> returns stay within
  the limits in number, size and total size, have different paths, and every path is relative,
  without backslashes and drive letters, and without empty, \<open>.\<close> and \<open>..\<close> segments: nothing is written
  outside the directory they are unpacked to.\<close>

theorem split_entries_safe:
  assumes "splitArtifactArchive c filename archive limits = Some (Inr r)"
  shows "int (length (sr_entries r)) \<le> sl_maxEntryCount (resolveLimits limits) \<and>
    (\<forall>e\<in>set (sr_entries r). safe_path (se_logicalPath e) \<and>
       int (length (se_data e)) \<le> sl_maxEntryByteLength (resolveLimits limits)) \<and>
    distinct (map se_logicalPath (sr_entries r)) \<and>
    (sr_entries r = [] \<or> int (\<Sum>e\<leftarrow>sr_entries r. length (se_data e)) \<le>
       sl_maxTotalUnpackedByteLength (resolveLimits limits))"
proof -
  obtain es where "validateEntries False (resolveLimits limits) es = Inr (sr_entries r)"
    using split_validated [OF assms] by blast
  then have v: "validateLoop False (resolveLimits limits) [] 0 es = Inr (sr_entries r)"
    "int (length es) \<le> sl_maxEntryCount (resolveLimits limits)"
    by (auto simp: validateEntries_def split: if_splits)
  note facts = validateLoop_ok [OF v(1)]
  have "length (sr_entries r) = length es" using list_all2_lengthD [OF facts(1)] by simp
  then have "int (length (sr_entries r)) \<le> sl_maxEntryCount (resolveLimits limits)" using v(2) by simp
  moreover have "\<forall>e\<in>set (sr_entries r). safe_path (se_logicalPath e)" using facts(6) by blast
  moreover have "sr_entries r = [] \<or> int (\<Sum>e\<leftarrow>sr_entries r. length (se_data e)) \<le>
      sl_maxTotalUnpackedByteLength (resolveLimits limits)"
    using facts(5) by (cases "sr_entries r = []") (simp_all only: add_0 simp_thms)
  ultimately show ?thesis using facts(2,4) by blast
qed

theorem split_entries_safe_witness:
  "\<exists>archive r. splitArtifactArchive exampleCodecs (lit ''a.zip'') archive None = Some (Inr r) \<and>
     map se_logicalPath (sr_entries r) = [lit ''Assets/a.png''] \<and>
     (\<forall>e\<in>set (sr_entries r). safe_path (se_logicalPath e))"
proof -
  obtain archive where a: "packZip (ac_deflateRaw exampleCodecs) [exampleEntry] = Inr archive"
    using exampleEntry_zip by blast
  have law: "ac_inflateRaw exampleCodecs (ac_deflateRaw exampleCodecs x) = Some x" for x
    by (simp add: exampleCodecs_def)
  have p: "\<forall>e\<in>set [exampleEntry]. safe_path (se_logicalPath e) \<and> well_formed (se_logicalPath e)"
    using exampleEntry_fits by (simp add: tar_fits_def field_text_def)
  note u = unpackZip_packed [OF law a p]
  have n: "announcedFormat (lit ''a.zip'') = Some format_zip"
    by (simp add: announcedFormat_def endsWith_def lower_text_def lower_unit_def lit_def)
  have "detectSplitArtifactFormat exampleCodecs (lit ''a.zip'') archive = Some format_zip"
    using u(1) by (intro detect_announced [OF n]) (simp_all add: looksLikeZip_def)
  moreover have "validateEntries False defaultLimits [zip_stored exampleEntry] = Inr [zip_stored exampleEntry]"
    using exampleEntry_safe safe_normalize
    by (simp add: validateEntries_def defaultLimits_def zip_stored_def) (simp add: exampleEntry_def)
  ultimately have split: "splitArtifactArchive exampleCodecs (lit ''a.zip'') archive None =
      Some (Inr \<lparr>sr_entries = [zip_stored exampleEntry], sr_format = format_zip,
                 sr_originalLogicalByteLength = length archive\<rparr>)"
    using u(2) by (simp add: splitArtifactArchive_def resolveLimits_def)
  have "map se_logicalPath [zip_stored exampleEntry] = [lit ''Assets/a.png'']"
    by (simp add: zip_stored_def exampleEntry_def)
  moreover have "\<forall>e\<in>set [zip_stored exampleEntry]. safe_path (se_logicalPath e)"
    using split_entries_safe [OF split] unfolding split_result.simps by blast
  ultimately show ?thesis using split by (intro exI conjI) (assumption, simp_all only: split_result.simps)
qed

text \<open>C39. Splitting always returns: on every input the loops of \<open>splitArtifactArchive\<close> end, with an error
  or with entries, and the entries read from a tar number at most one for every 512 bytes of it.\<close>

theorem split_always_returns:
  "(\<exists>r. splitArtifactArchive c filename archive limits = Some r) \<and>
   (\<exists>r. unpackTar archive resolved = Some r \<and>
      (case r of Inl _ \<Rightarrow> True | Inr entries \<Rightarrow> length entries * 512 \<le> length archive))"
proof -
  have "\<exists>r. splitArtifactArchive c filename archive limits = Some r"
    using unpackTar_returns
    by (auto simp: splitArtifactArchive_def Let_def split: option.splits)
  moreover obtain r where r: "tarLoop archive 0 = Some r"
    "\<forall>es. r = Inr es \<longrightarrow> length es * 512 \<le> length archive - 0"
    using tarLoop_returns by blast
  moreover have "length es' * 512 \<le> length archive"
    if v: "then_do r (validateEntries False resolved) = Inr es'" for es'
  proof -
    obtain es where es: "r = Inr es" "validateEntries False resolved es = Inr es'"
      using v by (auto simp: then_do_ok)
    then have "validateLoop False resolved [] 0 es = Inr es'"
      by (auto simp: validateEntries_def split: if_splits)
    from validateLoop_ok(1) [OF this] have "length es' = length es" by (metis list_all2_lengthD)
    then show ?thesis using r(2) es(1) by simp
  qed
  ultimately show ?thesis by (auto simp: unpackTar_def split: sum.splits)
qed

text \<open>\<open>crc32\<close> computes CRC-32: the table of 256 entries, indexed by the low byte of the register,
  gives for every buffer the remainder that a shift register with the reversed polynomial
  \<open>0xEDB88320\<close> holds after taking the bits of the buffer one by one.\<close>

theorem crc32_is_serial: "crc32 buf = serialCrc (concat (map byte_bits buf))"
  by (simp add: crc32_def serialCrc_def serial_bytes)

text \<open>The path under which a long path comes back: the separator that a reader puts between prefix and
  name replaces the character before the last hundred.\<close>

definition long_path_read :: "js_text \<Rightarrow> js_text" where
  "long_path_read p = take (length p - 101) p @ slash # drop (length p - 100) p"

lemma ascii_parts: "ascii s \<Longrightarrow> ascii (take n s)" "ascii s \<Longrightarrow> ascii (drop n s)"
  by (auto simp: ascii_def dest: in_set_takeD in_set_dropD)

lemma ascii_field: "ascii s \<Longrightarrow> 0 \<notin> set s \<Longrightarrow> field_text s \<and> length (utf8_encode s) = length s"
  by (simp add: field_text_def ascii_well_formed utf8_encode_ascii)

text \<open>A long path does not survive a tar. A safe ASCII path of 102 to 256 characters is cut into a name
  of its last 100 characters and a prefix that leaves out the character before them, whatever it
  is. The archive is written without an error, and where the path with a slash at that place is safe as
  well, the entry comes back under it: under the path it had only if there was a slash.\<close>

theorem long_tar_path_altered:
  assumes "announcedFormat filename = Some format_tar"
    and "safe_path p" "ascii p" "0 \<notin> set p" "102 \<le> length p" "length p \<le> 256"
    and "safe_path (long_path_read p)"
    and "se_logicalPath e = p" "tar_values e" "length (se_data e) \<le> 1024 * 1024 * 1024"
  shows "\<exists>archive. createSplitArtifactArchive c False format_tar [e] = Inr archive \<and>
    splitArtifactArchive c filename archive None =
      Some (Inr \<lparr>sr_entries = [(tar_stored e)\<lparr>se_logicalPath := long_path_read p\<rparr>],
                 sr_format = format_tar, sr_originalLogicalByteLength = length archive\<rparr>) \<and>
    (long_path_read p = p \<longleftrightarrow> p ! (length p - 101) = slash)"
proof -
  let ?n = "length p" and ?d = "se_data e"
  let ?name = "drop (?n - 100) p" and ?prefix = "take (?n - 101) p"
  let ?e = "(tar_stored e)\<lparr>se_logicalPath := long_path_read p\<rparr>"
  let ?tar = "tar_block ?name ?prefix e @ replicate 1024 0"
  have enc: "length (utf8_encode p) = ?n" using ascii_field assms(3,4) by blast
  have parts: "ascii ?name" "ascii ?prefix" "0 \<notin> set ?name" "0 \<notin> set ?prefix"
    using ascii_parts [OF assms(3)] assms(4) by (auto dest: in_set_takeD in_set_dropD)
  have name: "field_text ?name" "length (utf8_encode ?name) = 100"
    using ascii_field [OF parts(1,3)] assms(5) by simp_all
  have prefix: "field_text ?prefix" "length (utf8_encode ?prefix) \<le> 155" "?prefix \<noteq> []"
    using ascii_field [OF parts(2,4)] assms(5,6) by auto
  have norm: "normalizeArchivePath (if ?prefix \<noteq> [] then ?prefix @ slash # ?name else ?name) =
      Inr (long_path_read p)"
    using prefix(3) safe_normalize [OF assms(7)] by (simp add: long_path_read_def)
  have name_le: "length (utf8_encode ?name) \<le> 100" using name(2) by simp
  note block = tarLoop_block [where pre = "[]" and rest = "replicate 1024 0",
      OF assms(9) name_le prefix(2) name(1) prefix(1) norm tarLoop_end]
  have "last_n 100 p = ?name" "?n - length ?name - 1 = ?n - 101"
    using assms(5) by (simp_all add: last_n_def)
  then have "writeTarHeader False e = Inr (tarChecksum (tarFields ?name ?prefix e))"
    using assms(5,8) enc name prefix(2) safe_normalize [OF assms(2)]
    by (simp add: writeTarHeader_def Let_def)
  then have pack: "packTar False [e] = Inr ?tar" by (simp add: tar_block_def)
  have valid: "validateEntries False defaultLimits [x] = Inr [x]"
    if "safe_path (se_logicalPath x)" "se_data x = ?d" for x
    using that(2) assms(10) safe_normalize [OF that(1)]
    by (simp add: validateEntries_def defaultLimits_def)
  have e: "se_logicalPath ?e = long_path_read p" "se_data ?e = ?d" by (simp_all add: tar_stored_def)
  have "createSplitArtifactArchive c False format_tar [e] = Inr ?tar"
    using valid [of e] assms(2,8) pack by (simp add: createSplitArtifactArchive_def)
  moreover have "looksLikeTar ?tar"
  proof (rule looksLikeTar_packed)
    have "512 dvd 512 + padLength (length ?d) 512 + 1024"
      using padLength_ge(2) [of "length ?d"] by (intro dvd_add) (simp_all add: mod_eq_0_iff_dvd)
    then show "length ?tar mod 512 = 0"
      using block(2) by (simp only: mod_eq_0_iff_dvd length_append length_replicate)
    show "if [e] = [] then isZeroBlock (sub 0 512 ?tar)
      else sub 257 262 ?tar = [0x75, 0x73, 0x74, 0x61, 0x72]" using block(3) by simp
  qed simp
  then have "detectSplitArtifactFormat c filename ?tar = Some format_tar"
    by (intro detect_announced [OF assms(1)]) simp_all
  moreover have "unpackTar ?tar defaultLimits = Some (Inr [?e])"
    using block(1) valid [of ?e] assms(7) e by (simp add: unpackTar_def)
  moreover have "long_path_read p = p \<longleftrightarrow> p ! (?n - 101) = slash"
  proof -
    have "p = ?prefix @ p ! (?n - 101) # ?name"
    proof -
      have "Suc (?n - 101) = ?n - 100" using assms(5) by linarith
      then show ?thesis using id_take_nth_drop [of "?n - 101" p] assms(5) by simp
    qed
    then have "(?prefix @ slash # ?name = p) =
        (?prefix @ slash # ?name = ?prefix @ p ! (?n - 101) # ?name)"
      by (rule arg_cong [where f = "\<lambda>z. ?prefix @ slash # ?name = z"])
    then show ?thesis by (auto simp: long_path_read_def)
  qed
  ultimately show ?thesis
    by (intro exI [of _ ?tar]) (simp add: splitArtifactArchive_def resolveLimits_def)
qed

lemma plain_path:
  "safe_path (replicate (Suc (Suc (Suc k))) 0x61)"
  "safe_path (0x61 # slash # replicate (Suc (Suc (Suc k))) 0x61)"
  by (simp_all add: safe_path_def js_split_plain letter_def)

theorem long_tar_path_altered_witness:
  "\<exists>archive r. createSplitArtifactArchive exampleCodecs False format_tar
      [exampleEntry\<lparr>se_logicalPath := replicate 102 0x61\<rparr>] = Inr archive \<and>
    splitArtifactArchive exampleCodecs (lit ''a.tar'') archive None = Some (Inr r) \<and>
    map se_logicalPath (sr_entries r) = [0x61 # slash # replicate 100 0x61]"
proof -
  let ?p = "replicate 102 0x61 :: js_text" and ?e = "exampleEntry\<lparr>se_logicalPath := replicate 102 0x61\<rparr>"
  have n: "announcedFormat (lit ''a.tar'') = Some format_tar"
    by (simp add: announcedFormat_def endsWith_def lower_text_def lower_unit_def lit_def)
  have read: "long_path_read ?p = 0x61 # slash # replicate 100 0x61"
  proof -
    have "?p = 0x61 # 0x61 # replicate 100 0x61" "length ?p - 101 = 1" "length ?p - 100 = 2"
      by (simp_all add: numeral_eq_Suc)
    then show ?thesis by (simp add: long_path_read_def numeral_2_eq_2)
  qed
  have three: "(102 :: nat) = Suc (Suc (Suc 99))" "(100 :: nat) = Suc (Suc (Suc 97))" by simp_all
  have "safe_path ?p" unfolding three(1) by (rule plain_path(1))
  moreover have "ascii ?p" "0 \<notin> set ?p" by (simp_all add: ascii_def)
  moreover have "safe_path (long_path_read ?p)" unfolding read three(2) by (rule plain_path(2))
  moreover have "tar_values ?e" by (simp add: tar_values_def exampleEntry_def)
  moreover have "length (se_data ?e) \<le> 1024 * 1024 * 1024" by (simp add: exampleEntry_def)
  ultimately show ?thesis
    using long_tar_path_altered [OF n, of ?p ?e exampleCodecs] read by fastforce
qed

end
