(* ===== verification/Source_Paths.thy ===== *)
theory Source_Paths
  imports Canonical_Evidence "HOL-Library.Sublist"
begin

text \<open>
  Where canonical sources are restored to: safe file names and the destination below a root, of
  \<open>packages/storage/src/source-materialization.ts\<close>, and its use by the workers
  (\<open>apps/workers/src/source-materialization.ts\<close>).
  \<open>resolve\<close>, \<open>relative\<close> and \<open>isAbsolute\<close> of \<open>node:path\<close> are those of POSIX; \<open>cwd\<close> is
  \<open>process.cwd()\<close>, an absolute path.
\<close>

section \<open>Paths\<close>

abbreviation (input) slash_char :: char where "slash_char \<equiv> CHR 0x2F"
abbreviation (input) backslash_char :: char where "backslash_char \<equiv> CHR 0x5C"

definition plain_segment :: "string \<Rightarrow> bool" where
  "plain_segment s \<longleftrightarrow> s \<noteq> [] \<and> s \<noteq> ''.'' \<and> s \<noteq> ''..'' \<and> slash_char \<notin> set s"

definition isAbsolute :: "string \<Rightarrow> bool" where
  "isAbsolute p \<longleftrightarrow> p \<noteq> [] \<and> hd p = slash_char"

text \<open>\<open>resolve\<close> joins its arguments from the last one back to the first absolute one, and then
  removes empty segments, \<open>.\<close> and \<open>..\<close> (which stops at the root).\<close>

fun resolveText :: "string list \<Rightarrow> string \<Rightarrow> string" where
  "resolveText [] acc = acc"
| "resolveText (p # ps) acc =
     (if p = [] then resolveText ps acc
      else if hd p = slash_char then p @ slash_char # acc
      else resolveText ps (p @ slash_char # acc))"

fun normalizeSegments :: "string list \<Rightarrow> string list \<Rightarrow> string list" where
  "normalizeSegments acc [] = rev acc"
| "normalizeSegments acc (s # ss) =
     (if s = [] \<or> s = ''.'' then normalizeSegments acc ss
      else if s = ''..'' then normalizeSegments (tl acc) ss
      else normalizeSegments (s # acc) ss)"

definition resolveSegments :: "string \<Rightarrow> string list \<Rightarrow> string list" where
  "resolveSegments cwd paths =
     normalizeSegments [] (js_split slash_char (resolveText (rev (cwd # paths)) []))"

definition absolute_path :: "string list \<Rightarrow> string" where
  "absolute_path segments = slash_char # js_join [slash_char] segments"

definition pathResolve :: "string \<Rightarrow> string list \<Rightarrow> string" where
  "pathResolve cwd paths = absolute_path (resolveSegments cwd paths)"

text \<open>\<open>relative\<close>: one \<open>..\<close> for each segment of the first path below the common part, and the
  remainder of the second path.\<close>

definition relativeSegments :: "string list \<Rightarrow> string list \<Rightarrow> string list" where
  "relativeSegments fr to =
     (let n = length (longest_common_prefix fr to) in
      replicate (length fr - n) ''..'' @ drop n to)"

definition pathRelative :: "string \<Rightarrow> string \<Rightarrow> string \<Rightarrow> string" where
  "pathRelative cwd fr to =
     js_join [slash_char] (relativeSegments (resolveSegments cwd [fr]) (resolveSegments cwd [to]))"

section \<open>File names\<close>

definition invalidMaterializedFilenameCharacter :: "char \<Rightarrow> bool" where
  "invalidMaterializedFilenameCharacter c \<longleftrightarrow> (of_char c :: nat) < 32 \<or> c \<in> set ''<>:\"|?*''"

definition takeLastPathSegment :: "string \<Rightarrow> string" where
  "takeLastPathSegment candidate =
     (let segments = filter (\<lambda>s. s \<noteq> [])
            (js_split slash_char (map (\<lambda>c. if c = backslash_char then slash_char else c) candidate)) in
      if segments = [] then [] else last segments)"

definition dropTrailing :: "(char \<Rightarrow> bool) \<Rightarrow> string \<Rightarrow> string" where
  "dropTrailing P s = rev (dropWhile P (rev s))"

definition dot_or_space :: "char \<Rightarrow> bool" where
  "dot_or_space c \<longleftrightarrow> c = CHR ''.'' \<or> c = CHR '' ''"

definition sanitizeMaterializedFilename :: "string \<Rightarrow> string" where
  "sanitizeMaterializedFilename candidate =
     dropTrailing dot_or_space
       (map (\<lambda>c. if invalidMaterializedFilenameCharacter c then CHR ''-'' else c)
         (takeLastPathSegment (js_trim candidate)))"

definition isUnsafeMaterializedFilename :: "string \<Rightarrow> bool" where
  "isUnsafeMaterializedFilename filename \<longleftrightarrow>
     filename = [] \<or> filename = ''.'' \<or> filename = ''..''"

definition isSafeSourceFilename :: "string \<Rightarrow> bool" where
  "isSafeSourceFilename filename =
     (let trimmedName = js_trim filename in
      if trimmedName = [] then False
      else
        (let sanitized = sanitizeMaterializedFilename trimmedName in
         \<not> isUnsafeMaterializedFilename sanitized \<and> sanitized = trimmedName))"

record filename_input =
  fi_sourceFilename :: "string option"
  fi_canonicalLogicalPath :: "string option"
  fi_fallbackBaseName :: "string option"

fun firstSafeFilename :: "string option list \<Rightarrow> string option" where
  "firstSafeFilename [] = None"
| "firstSafeFilename (candidate # candidates) =
     (if \<not> truthy_str candidate then firstSafeFilename candidates
      else
        (let sanitized = sanitizeMaterializedFilename (the candidate) in
         if \<not> isUnsafeMaterializedFilename sanitized then Some sanitized
         else firstSafeFilename candidates))"

definition resolveMaterializedSourceFilename :: "filename_input \<Rightarrow> string" where
  "resolveMaterializedSourceFilename inp =
     (let trimmedFallback = map_option js_trim (fi_fallbackBaseName inp);
          fallbackBaseName = (if truthy_str trimmedFallback then trimmedFallback
                              else Some ''source.bin'') in
      nullish
        (firstSafeFilename [fi_sourceFilename inp, fi_canonicalLogicalPath inp, fallbackBaseName])
        ''source.bin'')"

section \<open>The destination of a source\<close>

datatype destination_error = DestinationOutsideRoot

definition buildMaterializedSourcePath ::
  "string \<Rightarrow> string \<Rightarrow> string list \<Rightarrow> filename_input \<Rightarrow> destination_error + string" where
  "buildMaterializedSourcePath cwd rootPath pathSegments inp =
     (let resolvedRootPath = pathResolve cwd [rootPath];
          destinationPath = pathResolve cwd
            ([resolvedRootPath] @ pathSegments @ [resolveMaterializedSourceFilename inp]);
          relativeDestinationPath = pathRelative cwd resolvedRootPath destinationPath in
      if relativeDestinationPath = [] \<or> relativeDestinationPath = ''..'' \<or>
         prefix [CHR ''.'', CHR ''.'', backslash_char] relativeDestinationPath \<or>
         prefix ''../'' relativeDestinationPath \<or> isAbsolute relativeDestinationPath
      then Inl DestinationOutsideRoot
      else Inr destinationPath)"

text \<open>The source of a restore is persisted evidence or a snapshot; the repository is a parameter.\<close>

record restore_request =
  rq_canonicalSourceId :: string
  rq_destinationPath :: string
  rq_snapshot :: snapshot_result

definition materializeCanonicalSourceToPath ::
  "(restore_request \<Rightarrow> 'w \<Rightarrow> 'w \<times> ('e + 'r)) \<Rightarrow> source_evidence + snapshot_result \<Rightarrow> string
     \<Rightarrow> 'w \<Rightarrow> 'w \<times> ('e + 'r)" where
  "materializeCanonicalSourceToPath restoreToPath canonicalSource destinationPath =
     (let snapshot = (case canonicalSource of
                        Inl evidence \<Rightarrow> canonicalSourceEvidenceToSnapshotResult evidence
                      | Inr snapshot \<Rightarrow> snapshot) in
      restoreToPath
        \<lparr>rq_canonicalSourceId = sn_canonicalSourceId snapshot,
         rq_destinationPath = destinationPath, rq_snapshot = snapshot\<rparr>)"

text \<open>The worker makes the directory of the destination (\<open>mkdir\<close>, a parameter) and restores there.\<close>

record worker_source_request =
  wq_assetId :: string
  wq_canonicalSourceEvidence :: source_evidence
  wq_sourceFilename :: "string option"
  wq_versionId :: string

definition buildWorkerSourceMaterializationPath ::
  "string \<Rightarrow> string \<Rightarrow> worker_source_request \<Rightarrow> destination_error + string" where
  "buildWorkerSourceMaterializationPath cwd rootPath inp =
     buildMaterializedSourcePath cwd rootPath [wq_assetId inp, wq_versionId inp]
       \<lparr>fi_sourceFilename = keep_str (wq_sourceFilename inp),
        fi_canonicalLogicalPath =
          Some (ev_canonicalLogicalPath (wq_canonicalSourceEvidence inp)),
        fi_fallbackBaseName = None\<rparr>"

definition pathDirname :: "string \<Rightarrow> string" where
  "pathDirname p = absolute_path (butlast (resolveSegments [] [p]))"

definition materializeVersion ::
  "(string \<Rightarrow> 'w \<Rightarrow> 'w \<times> ('e + unit)) \<Rightarrow> (restore_request \<Rightarrow> 'w \<Rightarrow> 'w \<times> ('e + 'r)) \<Rightarrow>
     (destination_error \<Rightarrow> 'e) \<Rightarrow> string \<Rightarrow> string \<Rightarrow> worker_source_request \<Rightarrow> 'w \<Rightarrow> 'w \<times> ('e + 'r)" where
  "materializeVersion mkdir restoreToPath asError cwd rootPath inp world =
     (case buildWorkerSourceMaterializationPath cwd rootPath inp of
        Inl e \<Rightarrow> throw world (asError e)
      | Inr destinationPath \<Rightarrow>
          and_then (mkdir (pathDirname destinationPath) world) (\<lambda>world _.
            materializeCanonicalSourceToPath restoreToPath (Inl (wq_canonicalSourceEvidence inp))
              destinationPath world))"

section \<open>Lemmas on paths\<close>

lemma normalize_append:
  "normalizeSegments acc (xs @ ys) = normalizeSegments (rev (normalizeSegments acc xs)) ys"
  by (induction acc xs rule: normalizeSegments.induct) auto

lemma normalize_plain:
  "list_all plain_segment ss \<Longrightarrow> normalizeSegments acc ss = rev acc @ ss"
  by (induction ss arbitrary: acc) (auto simp: plain_segment_def)

lemma normalize_result:
  "list_all plain_segment acc \<Longrightarrow> (\<And>s. s \<in> set ss \<Longrightarrow> slash_char \<notin> set s) \<Longrightarrow>
     list_all plain_segment (normalizeSegments acc ss)"
proof (induction acc ss rule: normalizeSegments.induct)
  case (2 acc s ss)
  have "list_all plain_segment (tl acc)" using 2(4) by (cases acc) auto
  moreover have "s = [] \<or> s = ''.'' \<or> s = ''..'' \<or> plain_segment s"
    using 2(5) [of s] by (auto simp: plain_segment_def)
  ultimately show ?case using 2 by auto
qed simp

lemma resolve_plain: "list_all plain_segment (resolveSegments cwd paths)"
  unfolding resolveSegments_def by (rule normalize_result) (auto dest: js_split_no_sep)

lemma js_split_absolute:
  assumes "list_all plain_segment segs"
  shows "normalizeSegments [] (js_split slash_char (absolute_path segs @ [slash_char])) = segs"
proof -
  have no: "slash_char \<notin> set s" if "s \<in> set segs" for s
    using assms that by (auto simp: list_all_iff plain_segment_def)
  have "js_split slash_char (absolute_path segs @ [slash_char]) =
        [] # js_split slash_char (js_join [slash_char] segs) @ [[]]"
    using js_split_at [of slash_char "slash_char # js_join [slash_char] segs" "[]"]
    by (simp add: absolute_path_def)
  also have "\<dots> = [] # (if segs = [] then [[]] else segs) @ [[]]"
    using no by (simp add: js_split_join)
  finally show ?thesis
    using assms by (simp add: normalize_append normalize_plain)
qed

lemma resolve_absolute:
  "list_all plain_segment segs \<Longrightarrow> resolveSegments cwd [absolute_path segs] = segs"
  using js_split_absolute [of segs] by (simp add: resolveSegments_def absolute_path_def)

lemma resolve_again: "resolveSegments cwd [pathResolve cwd' paths] = resolveSegments cwd' paths"
  unfolding pathResolve_def by (rule resolve_absolute) (rule resolve_plain)

lemma resolveText_shape:
  "\<exists>q. (q = [] \<or> (\<exists>r. q = r @ [slash_char])) \<and> (\<forall>acc. resolveText ps acc = q @ acc)"
proof (induction ps)
  case (Cons p ps)
  then obtain q where q: "q = [] \<or> (\<exists>r. q = r @ [slash_char])" "\<forall>acc. resolveText ps acc = q @ acc"
    by blast
  show ?case
    by (rule exI [of _ "if p = [] then q else if hd p = slash_char then p @ [slash_char]
                        else q @ p @ [slash_char]"])
       (use q in auto)
qed simp

lemma resolve_ends_with:
  assumes "plain_segment f"
  shows "\<exists>dirs. resolveSegments cwd (paths @ [f]) = dirs @ [f]"
proof -
  obtain q where q: "q = [] \<or> (\<exists>r. q = r @ [slash_char])"
    "\<forall>acc. resolveText (rev (cwd # paths)) acc = q @ acc"
    using resolveText_shape by blast
  have f: "f \<noteq> []" "hd f \<noteq> slash_char" "slash_char \<notin> set f"
    using assms by (cases f; auto simp: plain_segment_def)+
  have full: "resolveText (rev (cwd # paths @ [f])) [] = q @ f @ [slash_char]"
    using q(2) f by simp
  have tail: "normalizeSegments acc (js_split slash_char (f @ [slash_char])) = rev acc @ [f]" for acc
    using assms f(3) js_split_at [of slash_char f "[]"]
    by (simp add: js_split_plain plain_segment_def)
  show ?thesis
  proof (cases "q = []")
    case True
    then show ?thesis using full tail [of "[]"] by (simp add: resolveSegments_def)
  next
    case False
    then obtain r where "q = r @ [slash_char]" using q(1) by blast
    then have "resolveSegments cwd (paths @ [f]) =
        normalizeSegments [] (js_split slash_char r) @ [f]"
      unfolding resolveSegments_def using full tail
      by (simp add: js_split_at normalize_append)
    then show ?thesis by blast
  qed
qed

lemma absolute_path_inj:
  assumes "absolute_path xs = absolute_path ys" "list_all plain_segment xs" "list_all plain_segment ys"
  shows "xs = ys"
  using assms resolve_absolute by metis

section \<open>Paths below the root\<close>

definition climbs :: "string \<Rightarrow> bool" where
  "climbs s \<longleftrightarrow> prefix [CHR ''.'', CHR ''.'', backslash_char] s"

lemma js_join_Cons:
  "js_join sep (x # xs) = x @ (if xs = [] then [] else sep @ js_join sep xs)"
  by (cases xs) auto

lemma plain_relative_text:
  assumes "plain_segment b" and "r = [] \<or> (\<exists>r'. r = slash_char # r')"
  shows "b @ r \<noteq> []" "b @ r \<noteq> ''..''" "\<not> prefix ''../'' (b @ r)" "\<not> isAbsolute (b @ r)"
    "climbs (b @ r) = climbs b"
proof -
  obtain c bs where "b = c # bs" using assms(1) by (cases b) (auto simp: plain_segment_def)
  then show "b @ r \<noteq> []" "b @ r \<noteq> ''..''" "\<not> prefix ''../'' (b @ r)" "\<not> isAbsolute (b @ r)"
    "climbs (b @ r) = climbs b"
    using assms
    by (cases bs; cases "tl bs"; auto simp: plain_segment_def isAbsolute_def climbs_def)+
qed

lemma relative_accepted:
  assumes plain: "list_all plain_segment fr" "list_all plain_segment to"
  defines "rel \<equiv> js_join [slash_char] (relativeSegments fr to)"
  shows "(rel = [] \<or> rel = ''..'' \<or> climbs rel \<or> prefix ''../'' rel \<or> isAbsolute rel) \<longleftrightarrow>
     \<not> (\<exists>d ds. to = fr @ d # ds \<and> \<not> climbs d)"
proof -
  define p where "p = longest_common_prefix fr to"
  obtain a where a: "fr = p @ a"
    using longest_common_prefix_prefix1 [of fr to] unfolding p_def prefix_def by blast
  obtain b where b: "to = p @ b"
    using longest_common_prefix_prefix2 [of fr to] unfolding p_def prefix_def by blast
  note p = p_def a b
  have rel: "rel = js_join [slash_char] (replicate (length a) ''..'' @ b)"
    unfolding rel_def relativeSegments_def Let_def p(1) [symmetric]
    unfolding a b by simp
  show ?thesis
  proof (cases a)
    case (Cons x a')
    have "\<not> (\<exists>d ds. to = fr @ d # ds)"
    proof
      assume "\<exists>d ds. to = fr @ d # ds"
      then have "prefix fr to" by (auto simp: prefix_def)
      then have "prefix fr (longest_common_prefix fr to)"
        by (intro longest_common_prefix_max_prefix) auto
      then have "prefix fr p" unfolding p_def .
      then show False unfolding a Cons by (auto simp: prefix_def)
    qed
    moreover have "rel = ''..'' \<or> prefix ''../'' rel"
      using rel Cons by (auto simp: js_join_Cons)
    ultimately show ?thesis by blast
  next
    case Nil
    then have to: "to = fr @ b" and rel': "rel = js_join [slash_char] b" using p rel by simp_all
    show ?thesis
    proof (cases b)
      case Nil
      then show ?thesis using to rel' by simp
    next
      case (Cons d ds)
      have d: "plain_segment d" using plain to Cons by simp
      have "rel = d @ (if ds = [] then [] else [slash_char] @ js_join [slash_char] ds)"
        using rel' Cons by (simp only: js_join_Cons)
      then show ?thesis
        using plain_relative_text [OF d, of "if ds = [] then [] else [slash_char] @ js_join [slash_char] ds"]
          to Cons by auto
    qed
  qed
qed

section \<open>File names are safe\<close>

definition safe_filename :: "string \<Rightarrow> bool" where
  "safe_filename f \<longleftrightarrow>
     plain_segment f \<and> backslash_char \<notin> set f \<and>
     list_all (\<lambda>c. \<not> invalidMaterializedFilenameCharacter c) f \<and> \<not> dot_or_space (last f)"

lemma take_last_segment:
  "slash_char \<notin> set (takeLastPathSegment s)" "backslash_char \<notin> set (takeLastPathSegment s)"
proof -
  let ?m = "map (\<lambda>c. if c = backslash_char then slash_char else c) s"
  let ?f = "filter (\<lambda>s. s \<noteq> []) (js_split slash_char ?m)"
  have "slash_char \<notin> set w \<and> backslash_char \<notin> set w" if "w \<in> set (js_split slash_char ?m)" for w
    using js_split_no_sep [OF that] js_split_set [OF that] by auto
  moreover have "last ?f \<in> set (js_split slash_char ?m)" if "?f \<noteq> []"
    using last_in_set [OF that] by simp
  ultimately show "slash_char \<notin> set (takeLastPathSegment s)"
    "backslash_char \<notin> set (takeLastPathSegment s)"
    unfolding takeLastPathSegment_def Let_def by (cases "?f = []"; simp)+
qed

lemma dropTrailing_set: "set (dropTrailing P s) \<subseteq> set s"
  by (auto simp: dropTrailing_def dest: set_dropWhileD)

lemma dropTrailing_last: "dropTrailing P s \<noteq> [] \<Longrightarrow> \<not> P (last (dropTrailing P s))"
  using hd_dropWhile [of P "rev s"] by (auto simp: dropTrailing_def last_rev)

lemma dropTrailing_id: "s = [] \<or> \<not> P (last s) \<Longrightarrow> dropTrailing P s = s"
  by (auto simp: dropTrailing_def dropWhile_hd hd_rev)

lemma sanitize_safe:
  assumes "\<not> isUnsafeMaterializedFilename (sanitizeMaterializedFilename c)"
  shows "safe_filename (sanitizeMaterializedFilename c)"
proof -
  let ?m = "map (\<lambda>c. if invalidMaterializedFilenameCharacter c then CHR ''-'' else c)
              (takeLastPathSegment (js_trim c))"
  have s: "sanitizeMaterializedFilename c = dropTrailing dot_or_space ?m"
    by (simp add: sanitizeMaterializedFilename_def)
  have "\<not> invalidMaterializedFilenameCharacter CHR ''-''"
    by (simp add: invalidMaterializedFilenameCharacter_def)
  then have "\<forall>x \<in> set ?m. x \<noteq> slash_char \<and> x \<noteq> backslash_char \<and>
      \<not> invalidMaterializedFilenameCharacter x"
    using take_last_segment [of "js_trim c"] by auto
  then have "\<forall>x \<in> set (dropTrailing dot_or_space ?m). x \<noteq> slash_char \<and> x \<noteq> backslash_char \<and>
      \<not> invalidMaterializedFilenameCharacter x"
    using dropTrailing_set [of dot_or_space ?m] by blast
  moreover have "dropTrailing dot_or_space ?m \<noteq> []"
    using assms s by (auto simp: isUnsafeMaterializedFilename_def)
  ultimately show ?thesis
    using assms dropTrailing_last [of dot_or_space ?m] unfolding s
    by (auto simp: safe_filename_def plain_segment_def isUnsafeMaterializedFilename_def list_all_iff)
qed

lemma first_safe: "firstSafeFilename cs = Some f \<Longrightarrow> safe_filename f"
  by (induction cs) (auto simp: Let_def sanitize_safe split: if_splits)

lemma safe_source_bin: "safe_filename ''source.bin''"
  by (simp add: safe_filename_def plain_segment_def dot_or_space_def
      invalidMaterializedFilenameCharacter_def)

lemma resolved_filename_safe: "safe_filename (resolveMaterializedSourceFilename inp)"
  unfolding resolveMaterializedSourceFilename_def Let_def
  by (cases "firstSafeFilename [fi_sourceFilename inp, fi_canonicalLogicalPath inp,
        if truthy_str (map_option js_trim (fi_fallbackBaseName inp))
        then map_option js_trim (fi_fallbackBaseName inp) else Some ''source.bin'']")
     (auto simp: safe_source_bin simp del: firstSafeFilename.simps intro: first_safe)

lemma accepted_filename_kept:
  assumes "isSafeSourceFilename name" "fi_sourceFilename inp = Some (js_trim name)"
  shows "resolveMaterializedSourceFilename inp = js_trim name"
  using assms by (auto simp: isSafeSourceFilename_def resolveMaterializedSourceFilename_def Let_def
      split: if_splits)

section \<open>Destinations stay below the root\<close>

lemma safe_not_climbing: "safe_filename f \<Longrightarrow> \<not> climbs f"
  by (auto simp: safe_filename_def climbs_def prefix_def)

lemma destination_decided:
  fixes cwd rootPath segments inp
  defines "root \<equiv> resolveSegments cwd [rootPath]"
    and "target \<equiv> resolveSegments cwd
           (pathResolve cwd [rootPath] # segments @ [resolveMaterializedSourceFilename inp])"
  shows "buildMaterializedSourcePath cwd rootPath segments inp =
     (if \<exists>d ds. target = root @ d # ds \<and> \<not> climbs d then Inr (absolute_path target)
      else Inl DestinationOutsideRoot)"
proof -
  have r: "pathRelative cwd (pathResolve cwd [rootPath]) (absolute_path target) =
        js_join [slash_char] (relativeSegments root target)"
    unfolding pathRelative_def root_def target_def
    by (simp only: resolve_again resolve_absolute [OF resolve_plain])
  have d: "pathResolve cwd
       ([pathResolve cwd [rootPath]] @ segments @ [resolveMaterializedSourceFilename inp]) =
        absolute_path target"
    by (simp add: pathResolve_def target_def)
  have acc: "list_all plain_segment root" "list_all plain_segment target"
    unfolding root_def target_def by (rule resolve_plain)+
  show ?thesis
    unfolding buildMaterializedSourcePath_def Let_def d r climbs_def [symmetric]
    using relative_accepted [OF acc] by simp
qed

lemma resolve_plain_below:
  assumes "list_all plain_segment root" "list_all plain_segment names"
  shows "resolveSegments cwd (absolute_path root # names) = root @ names"
  using assms(2)
proof (induction names rule: rev_induct)
  case Nil
  then show ?case using assms(1) by (simp add: resolve_absolute)
next
  case (snoc f names)
  have f: "f \<noteq> []" "hd f \<noteq> slash_char" "slash_char \<notin> set f" "plain_segment f"
    using snoc(2) by (cases f; auto simp: plain_segment_def)+
  obtain q where q: "q = [] \<or> (\<exists>r. q = r @ [slash_char])"
    "\<forall>acc. resolveText (rev (cwd # absolute_path root # names)) acc = q @ acc"
    using resolveText_shape by blast
  have IH: "normalizeSegments [] (js_split slash_char q) = root @ names"
    using snoc q(2) by (simp add: resolveSegments_def)
  show ?case
    using IH q f js_split_at [of slash_char f "[]"]
    by (auto simp: resolveSegments_def js_split_at js_split_plain normalize_append plain_segment_def)
qed

lemma plain_destination:
  assumes "list_all plain_segment names" "names \<noteq> []" "\<not> climbs (hd names)"
  shows "buildMaterializedSourcePath cwd rootPath names inp =
     Inr (absolute_path (resolveSegments cwd [rootPath] @ names @
            [resolveMaterializedSourceFilename inp]))"
proof -
  have f: "plain_segment (resolveMaterializedSourceFilename inp)"
    using resolved_filename_safe by (simp add: safe_filename_def)
  have "resolveSegments cwd
       (pathResolve cwd [rootPath] # names @ [resolveMaterializedSourceFilename inp]) =
        resolveSegments cwd [rootPath] @ names @ [resolveMaterializedSourceFilename inp]"
    unfolding pathResolve_def
    by (rule resolve_plain_below) (use resolve_plain assms(1) f in auto)
  then show ?thesis
    using assms(2,3) by (cases names) (auto simp: destination_decided)
qed

lemma destination_examples:
  "buildMaterializedSourcePath ''/srv'' ''data'' [''ast_1'', ''ver_1'']
     \<lparr>fi_sourceFilename = Some '' ../hero<1>.png. '', fi_canonicalLogicalPath = None,
      fi_fallbackBaseName = None\<rparr> = Inr ''/srv/data/ast_1/ver_1/hero-1-.png''"
  "buildMaterializedSourcePath ''/srv'' ''data'' [''..'', ''ver_1'']
     \<lparr>fi_sourceFilename = None, fi_canonicalLogicalPath = None, fi_fallbackBaseName = None\<rparr> =
     Inl DestinationOutsideRoot"
  by code_simp+

text \<open>C31. A source is restored exactly at \<open>resolve(root, segments, file name)\<close>, and only when that path is
  below the root: the segments of the root, then proper directory names (never empty, \<open>.\<close> or \<open>..\<close>),
  then a safe file name, with no name that reads as a climb on another platform right below the root.
  Every other destination is refused.\<close>

theorem destination_stays_below_root:
  "buildMaterializedSourcePath cwd rootPath pathSegments inp = Inr p \<longleftrightarrow>
     p = pathResolve cwd ([pathResolve cwd [rootPath]] @ pathSegments @
           [resolveMaterializedSourceFilename inp]) \<and>
     (\<exists>dirs. p = absolute_path (resolveSegments cwd [rootPath] @ dirs @
                   [resolveMaterializedSourceFilename inp]) \<and>
        list_all plain_segment dirs \<and>
        safe_filename (resolveMaterializedSourceFilename inp) \<and>
        \<not> climbs (hd (dirs @ [resolveMaterializedSourceFilename inp])))"
proof -
  let ?f = "resolveMaterializedSourceFilename inp"
  let ?root = "resolveSegments cwd [rootPath]"
  let ?target = "resolveSegments cwd (pathResolve cwd [rootPath] # pathSegments @ [?f])"
  have safe: "safe_filename ?f" by (rule resolved_filename_safe)
  then have f: "plain_segment ?f" by (simp add: safe_filename_def)
  obtain ts where ts: "?target = ts @ [?f]"
    using resolve_ends_with [OF f, of cwd "pathResolve cwd [rootPath] # pathSegments"] by auto
  have plain: "list_all plain_segment ?root" "list_all plain_segment ?target"
    by (rule resolve_plain)+
  have "(\<exists>d ds. ?target = ?root @ d # ds \<and> \<not> climbs d) \<longleftrightarrow>
     (\<exists>dirs. ?target = ?root @ dirs @ [?f] \<and> \<not> climbs (hd (dirs @ [?f])))" (is "?L \<longleftrightarrow> ?R")
  proof
    assume ?L
    then obtain d ds where d: "?target = ?root @ d # ds" "\<not> climbs d" by blast
    have "?target = ?root @ butlast (d # ds) @ [?f]"
      using d(1) ts by (metis append_butlast_last_id append_assoc last_appendR last_snoc list.discI)
    moreover have "hd (butlast (d # ds) @ [?f]) = d"
      using d(1) ts by (cases ds) auto
    ultimately show ?R using d(2) by metis
  next
    assume ?R
    then obtain dirs where "?target = ?root @ dirs @ [?f]" "\<not> climbs (hd (dirs @ [?f]))" by blast
    then show ?L by (cases dirs) auto
  qed
  moreover have "absolute_path ?target = absolute_path (?root @ dirs @ [?f]) \<and>
      list_all plain_segment dirs \<longleftrightarrow> ?target = ?root @ dirs @ [?f]" for dirs
    using plain f absolute_path_inj [of ?target "?root @ dirs @ [?f]"] by auto
  ultimately show ?thesis
    using safe by (auto simp: destination_decided pathResolve_def)
qed

lemma destination_stays_below_root_witness:
  "\<exists>dirs. ''/srv/data/ast_1/ver_1/hero-1-.png'' =
     absolute_path (resolveSegments ''/srv'' [''data''] @ dirs @ [resolveMaterializedSourceFilename
       \<lparr>fi_sourceFilename = Some '' ../hero<1>.png. '', fi_canonicalLogicalPath = None,
        fi_fallbackBaseName = None\<rparr>]) \<and> list_all plain_segment dirs"
  using destination_stays_below_root
    [THEN iffD1, OF destination_examples(1)] by blast

end
