(* ===== verification/Storage_Config.thy ===== *)
theory Storage_Config
  imports Json_Text
begin

text \<open>
  The deployment's storage: the bucket and prefix of each storage role
  (\<open>packages/storage/src/storage-role-config.ts\<close>) and the environment variables they and the
  source repository are read from (\<open>packages/storage/src/runtime-storage-config.ts\<close>). The
  environment is a map of strings; \<open>number\<close> is the conversion \<open>Number(text)\<close>, \<open>None\<close> when
  the result is not an integer, and \<open>parseJson\<close> is \<open>JSON.parse\<close>.
\<close>

section \<open>Storage roles\<close>

datatype storage_role = role_ingest | role_source | role_derived | role_exports

definition storageRoles :: "storage_role list" where
  "storageRoles = [role_ingest, role_source, role_derived, role_exports]"

datatype storage_layout =
  OneBucket string "storage_role \<Rightarrow> string"
| MultiBucket "storage_role \<Rightarrow> string" "(storage_role \<Rightarrow> string option) option"

record role_target =
  sr_role :: storage_role
  sr_bucket :: string
  sr_prefix :: string
  sr_targetKey :: string

datatype storage_topology_error =
  EmptyRolePrefix | EmptyRoleBucket | SameRoleTarget storage_role storage_role string

definition stripSlashes :: "string \<Rightarrow> string" where
  "stripSlashes s =
     rev (dropWhile (\<lambda>c. c = CHR 0x2F) (rev (dropWhile (\<lambda>c. c = CHR 0x2F) s)))"

definition normalizePrefix :: "string option \<Rightarrow> storage_topology_error + string" where
  "normalizePrefix pre =
     (let trimmedPrefix = stripSlashes (js_trim (nullish pre [])) in
      if trimmedPrefix = [] then Inl EmptyRolePrefix else Inr trimmedPrefix)"

definition normalizeBucket :: "string \<Rightarrow> storage_topology_error + string" where
  "normalizeBucket bucket =
     (let trimmedBucket = js_trim bucket in
      if trimmedBucket = [] then Inl EmptyRoleBucket else Inr trimmedBucket)"

definition normalizeRoleTarget ::
  "storage_role \<Rightarrow> string \<Rightarrow> string \<Rightarrow> storage_topology_error + role_target" where
  "normalizeRoleTarget role bucket pre =
     then_do (normalizeBucket bucket) (\<lambda>normalizedBucket.
     then_do (normalizePrefix (Some pre)) (\<lambda>normalizedPrefix.
       Inr \<lparr>sr_role = role, sr_bucket = normalizedBucket, sr_prefix = normalizedPrefix,
            sr_targetKey = normalizedBucket @ ''/'' @ normalizedPrefix\<rparr>))"

fun role_name :: "storage_role \<Rightarrow> string" where
  "role_name role_ingest = ''ingest''"
| "role_name role_source = ''source''"
| "role_name role_derived = ''derived''"
| "role_name role_exports = ''exports''"

fun roleInput :: "storage_layout \<Rightarrow> storage_role \<Rightarrow> string \<times> string" where
  "roleInput (OneBucket bucket prefixes) role = (bucket, prefixes role)"
| "roleInput (MultiBucket buckets prefixes) role =
     (buckets role, nullish (Option.bind prefixes (\<lambda>p. p role)) (role_name role))"

fun normalizeRoles ::
  "storage_layout \<Rightarrow> storage_role list \<Rightarrow> storage_topology_error + (storage_role, role_target) jsmap" where
  "normalizeRoles layout [] = Inr []"
| "normalizeRoles layout (role # roles) =
     then_do (normalizeRoleTarget role (fst (roleInput layout role)) (snd (roleInput layout role)))
       (\<lambda>target. then_do (normalizeRoles layout roles) (\<lambda>rest. Inr ((role, target) # rest)))"

fun checkTargets ::
  "(string, storage_role) jsmap \<Rightarrow> (storage_role, role_target) jsmap \<Rightarrow> storage_topology_error + unit" where
  "checkTargets seen [] = Inr ()"
| "checkTargets seen ((role, target) # rest) =
     (case js_get seen (sr_targetKey target) of
        Some priorRole \<Rightarrow> Inl (SameRoleTarget priorRole role (sr_targetKey target))
      | None \<Rightarrow> checkTargets (js_set (sr_targetKey target) role seen) rest)"

definition normalizeStorageLayout ::
  "storage_layout \<Rightarrow> storage_topology_error + (storage_role, role_target) jsmap" where
  "normalizeStorageLayout layout =
     then_do (normalizeRoles layout storageRoles) (\<lambda>normalized.
     then_do (checkTargets [] normalized) (\<lambda>_. Inr normalized))"

datatype publication_kind = kind_derivative | kind_source_export

definition resolvePublicationTarget ::
  "storage_layout \<Rightarrow> publication_kind \<Rightarrow> storage_topology_error + role_target" where
  "resolvePublicationTarget layout publicationKind =
     then_do (normalizeStorageLayout layout) (\<lambda>normalized.
       Inr (the (js_get normalized
         (if publicationKind = kind_derivative then role_derived else role_exports))))"

section \<open>The environment\<close>

type_synonym environment = "(string, string) jsmap"

datatype runtime_config_error =
  NotAllowed string "string option"
| RequiredValue string
| EmptyWhenProvided string
| NotPositiveInteger string string
| NotJson string
| NotStringArray string
| XetNotConfigured
| Topology storage_topology_error

abbreviation (input) env_trimmed :: "environment \<Rightarrow> string \<Rightarrow> string option" where
  "env_trimmed environment key \<equiv> map_option js_trim (js_get environment key)"

text \<open>\<open>value || fallback\<close> on strings.\<close>

definition or_text :: "string option \<Rightarrow> string \<Rightarrow> string" where
  "or_text x d = (if truthy_str x then the x else d)"

definition readEnumValue ::
  "string \<Rightarrow> string option \<Rightarrow> string list \<Rightarrow> string \<Rightarrow> runtime_config_error + string" where
  "readEnumValue key rawValue allowedValues fallback =
     (let candidate = or_text (map_option js_trim rawValue) fallback in
      if candidate \<in> set allowedValues then Inr candidate else Inl (NotAllowed key rawValue))"

definition readRequiredValue :: "environment \<Rightarrow> string \<Rightarrow> runtime_config_error + string" where
  "readRequiredValue environment key =
     (let v = env_trimmed environment key in
      if \<not> truthy_str v then Inl (RequiredValue key) else Inr (the v))"

definition readOptionalValue :: "environment \<Rightarrow> string \<Rightarrow> runtime_config_error + string option" where
  "readOptionalValue environment key =
     (if key \<notin> set (map fst environment) then Inr None
      else
        (let v = env_trimmed environment key in
         if \<not> truthy_str v then Inl (EmptyWhenProvided key) else Inr v))"

definition readPrefix :: "environment \<Rightarrow> string \<Rightarrow> string \<Rightarrow> string" where
  "readPrefix environment key fallback = or_text (env_trimmed environment key) fallback"

definition readPositiveInteger ::
  "(string \<Rightarrow> int option) \<Rightarrow> environment \<Rightarrow> string \<Rightarrow> int \<Rightarrow> runtime_config_error + int" where
  "readPositiveInteger number environment key fallback =
     (let rawValue = env_trimmed environment key in
      if \<not> truthy_str rawValue then Inr fallback
      else
        (case number (the rawValue) of
           None \<Rightarrow> Inl (NotPositiveInteger key (the rawValue))
         | Some parsed \<Rightarrow>
             if parsed \<le> 0 then Inl (NotPositiveInteger key (the rawValue)) else Inr parsed))"

fun json_text :: "json \<Rightarrow> string option" where
  "json_text (JStr s) = (if s = [] then None else Some s)"
| "json_text _ = None"

definition readStringArrayValue ::
  "(string \<Rightarrow> json option) \<Rightarrow> environment \<Rightarrow> string \<Rightarrow> runtime_config_error + string list" where
  "readStringArrayValue parseJson environment key =
     (let rawValue = env_trimmed environment key in
      if \<not> truthy_str rawValue then Inr []
      else
        (case parseJson (the rawValue) of
           None \<Rightarrow> Inl (NotJson key)
         | Some (JArr vs) \<Rightarrow>
             if list_ex (\<lambda>v. json_text v = None) vs then Inl (NotStringArray key)
             else Inr (map (\<lambda>v. the (json_text v)) vs)
         | Some _ \<Rightarrow> Inl (NotStringArray key)))"

section \<open>The source repository\<close>

datatype runtime_engine = run_xet | run_kopia | run_object_store

record xet_command_config =
  xc_args :: "string list"
  xc_command :: string
  xc_cwd :: "string option"

record xet_service_config =
  xs_authToken :: "string option"
  xs_endpoint :: string

record xet_config =
  xt_command :: "xet_command_config option"
  xt_service :: "xet_service_config option"
  xt_timeoutMs :: int
  xt_workspacePath :: "string option"

record kopia_config =
  kp_cwd :: "string option"
  kp_executable :: string
  kp_timeoutMs :: int

record source_repository_config =
  rc_engine :: runtime_engine
  rc_kopia :: kopia_config
  rc_xet :: xet_config

definition asEngine :: "string \<Rightarrow> runtime_engine" where
  "asEngine s = (if s = ''xet'' then run_xet else if s = ''kopia'' then run_kopia else run_object_store)"

definition resolveSourceRepositoryEngineFromEnvironment ::
  "environment \<Rightarrow> runtime_config_error + runtime_engine" where
  "resolveSourceRepositoryEngineFromEnvironment environment =
     then_do (readEnumValue ''CDNGINE_SOURCE_ENGINE'' (js_get environment ''CDNGINE_SOURCE_ENGINE'')
         [''xet'', ''kopia'', ''object-store''] ''xet'')
       (\<lambda>engine. Inr (asEngine engine))"

text \<open>The command and the service of xet, each present when its variable is set.\<close>

definition readXetCommand ::
  "(string \<Rightarrow> json option) \<Rightarrow> environment \<Rightarrow> string option \<Rightarrow> string option
     \<Rightarrow> runtime_config_error + xet_command_config option" where
  "readXetCommand parseJson environment xetCommand xetWorkingDirectory =
     (case keep_str xetCommand of
        None \<Rightarrow> Inr None
      | Some command \<Rightarrow>
          then_do (readStringArrayValue parseJson environment ''CDNGINE_XET_COMMAND_ARGS_JSON'')
            (\<lambda>args. Inr (Some \<lparr>xc_args = args, xc_command = command,
                               xc_cwd = keep_str xetWorkingDirectory\<rparr>)))"

definition xetService :: "string option \<Rightarrow> string option \<Rightarrow> xet_service_config option" where
  "xetService xetServiceEndpoint xetAuthToken =
     map_option (\<lambda>endpoint. \<lparr>xs_authToken = keep_str xetAuthToken, xs_endpoint = endpoint\<rparr>)
       (keep_str xetServiceEndpoint)"

definition readXetConfig ::
  "(string \<Rightarrow> int option) \<Rightarrow> (string \<Rightarrow> json option) \<Rightarrow> environment
     \<Rightarrow> runtime_config_error + xet_config" where
  "readXetConfig number parseJson environment =
     then_do (readOptionalValue environment ''CDNGINE_XET_COMMAND'') (\<lambda>xetCommand.
     then_do (readOptionalValue environment ''CDNGINE_XET_SERVICE_ENDPOINT'') (\<lambda>xetServiceEndpoint.
     then_do (readOptionalValue environment ''CDNGINE_XET_WORKSPACE_PATH'') (\<lambda>xetWorkspacePath.
     then_do (readOptionalValue environment ''CDNGINE_XET_WORKING_DIRECTORY'') (\<lambda>xetWorkingDirectory.
     then_do (readOptionalValue environment ''CDNGINE_XET_AUTH_TOKEN'') (\<lambda>xetAuthToken.
     then_do (readPositiveInteger number environment ''CDNGINE_XET_TIMEOUT_MS'' 30000) (\<lambda>timeoutMs.
     then_do (readXetCommand parseJson environment xetCommand xetWorkingDirectory) (\<lambda>command.
       Inr \<lparr>xt_command = command, xt_service = xetService xetServiceEndpoint xetAuthToken,
            xt_timeoutMs = timeoutMs, xt_workspacePath = keep_str xetWorkspacePath\<rparr>)))))))"

definition readKopiaConfig ::
  "(string \<Rightarrow> int option) \<Rightarrow> environment \<Rightarrow> runtime_config_error + kopia_config" where
  "readKopiaConfig number environment =
     then_do (readOptionalValue environment ''CDNGINE_KOPIA_WORKING_DIRECTORY'') (\<lambda>kopiaWorkingDirectory.
     then_do (readOptionalValue environment ''CDNGINE_KOPIA_EXECUTABLE'') (\<lambda>executable.
     then_do (readPositiveInteger number environment ''CDNGINE_KOPIA_TIMEOUT_MS'' 30000) (\<lambda>timeoutMs.
       Inr \<lparr>kp_cwd = keep_str kopiaWorkingDirectory, kp_executable = nullish executable ''kopia'',
            kp_timeoutMs = timeoutMs\<rparr>)))"

definition loadSourceRepositoryRuntimeConfigFromEnvironment ::
  "(string \<Rightarrow> int option) \<Rightarrow> (string \<Rightarrow> json option) \<Rightarrow> environment
     \<Rightarrow> runtime_config_error + source_repository_config" where
  "loadSourceRepositoryRuntimeConfigFromEnvironment number parseJson environment =
     then_do (resolveSourceRepositoryEngineFromEnvironment environment) (\<lambda>engine.
     then_do (readXetConfig number parseJson environment) (\<lambda>xet.
       if engine = run_xet \<and> xt_command xet = None \<and> xt_service xet = None
       then Inl XetNotConfigured
       else
         then_do (readKopiaConfig number environment) (\<lambda>kopia.
           Inr \<lparr>rc_engine = engine, rc_kopia = kopia, rc_xet = xet\<rparr>)))"

section \<open>The whole storage configuration\<close>

record storage_defaults =
  sd_hotReadLayer :: string
  sd_sourceDeliveryMode :: string
  sd_tieringSubstrate :: string

record storage_runtime_config =
  sc_defaults :: storage_defaults
  sc_layout :: storage_layout
  sc_normalized :: "(storage_role, role_target) jsmap"
  sc_sourceRepository :: source_repository_config

definition readPrefixes :: "environment \<Rightarrow> storage_role \<Rightarrow> string" where
  "readPrefixes environment role =
     (case role of
        role_ingest \<Rightarrow> readPrefix environment ''CDNGINE_INGEST_PREFIX'' ''ingest''
      | role_source \<Rightarrow> readPrefix environment ''CDNGINE_SOURCE_PREFIX'' ''source''
      | role_derived \<Rightarrow> readPrefix environment ''CDNGINE_DERIVED_PREFIX'' ''derived''
      | role_exports \<Rightarrow> readPrefix environment ''CDNGINE_EXPORTS_PREFIX'' ''exports'')"

definition readDefaults :: "environment \<Rightarrow> runtime_config_error + storage_defaults" where
  "readDefaults environment =
     then_do (readEnumValue ''CDNGINE_HOT_READ_LAYER'' (js_get environment ''CDNGINE_HOT_READ_LAYER'')
         [''none'', ''nydus'', ''alluxio''] ''none'') (\<lambda>hotReadLayer.
     then_do (readEnumValue ''CDNGINE_SOURCE_DELIVERY_MODE''
         (js_get environment ''CDNGINE_SOURCE_DELIVERY_MODE'')
         [''proxy'', ''materialized-export'', ''lazy-read''] ''proxy'') (\<lambda>sourceDeliveryMode.
     then_do (readEnumValue ''CDNGINE_TIERING_SUBSTRATE''
         (js_get environment ''CDNGINE_TIERING_SUBSTRATE'') [''rustfs'', ''seaweedfs''] ''rustfs'')
       (\<lambda>tieringSubstrate.
       Inr \<lparr>sd_hotReadLayer = hotReadLayer, sd_sourceDeliveryMode = sourceDeliveryMode,
            sd_tieringSubstrate = tieringSubstrate\<rparr>)))"

definition multi_buckets :: "string \<Rightarrow> string \<Rightarrow> string \<Rightarrow> string \<Rightarrow> storage_role \<Rightarrow> string" where
  "multi_buckets ingest source derived exports role =
     (case role of
        role_ingest \<Rightarrow> ingest | role_source \<Rightarrow> source | role_derived \<Rightarrow> derived
      | role_exports \<Rightarrow> exports)"

definition readLayout :: "environment \<Rightarrow> string \<Rightarrow> runtime_config_error + storage_layout" where
  "readLayout environment layoutMode =
     (if layoutMode = ''one-bucket''
      then then_do (readRequiredValue environment ''CDNGINE_STORAGE_BUCKET'') (\<lambda>bucket.
             Inr (OneBucket bucket (readPrefixes environment)))
      else
        then_do (readRequiredValue environment ''CDNGINE_INGEST_BUCKET'') (\<lambda>ingest.
        then_do (readRequiredValue environment ''CDNGINE_SOURCE_BUCKET'') (\<lambda>source.
        then_do (readRequiredValue environment ''CDNGINE_DERIVED_BUCKET'') (\<lambda>derived.
        then_do (readRequiredValue environment ''CDNGINE_EXPORTS_BUCKET'') (\<lambda>exports.
          Inr (MultiBucket (multi_buckets ingest source derived exports)
                 (Some (\<lambda>role. Some (readPrefixes environment role)))))))))"

definition loadStorageRuntimeConfigFromEnvironment ::
  "(string \<Rightarrow> int option) \<Rightarrow> (string \<Rightarrow> json option) \<Rightarrow> environment
     \<Rightarrow> runtime_config_error + storage_runtime_config" where
  "loadStorageRuntimeConfigFromEnvironment number parseJson environment =
     then_do (readEnumValue ''CDNGINE_STORAGE_LAYOUT_MODE''
         (js_get environment ''CDNGINE_STORAGE_LAYOUT_MODE'')
         [''one-bucket'', ''multi-bucket''] ''multi-bucket'') (\<lambda>layoutMode.
     then_do (readDefaults environment) (\<lambda>defaults'.
     then_do (readLayout environment layoutMode) (\<lambda>layout.
     then_do (map_sum Topology id (normalizeStorageLayout layout)) (\<lambda>normalized.
     then_do (loadSourceRepositoryRuntimeConfigFromEnvironment number parseJson environment)
       (\<lambda>sourceRepository.
         Inr \<lparr>sc_defaults = defaults', sc_layout = layout, sc_normalized = normalized,
              sc_sourceRepository = sourceRepository\<rparr>)))))"

section \<open>What a configuration that loads guarantees\<close>

definition well_formed_target :: "storage_role \<Rightarrow> role_target \<Rightarrow> bool" where
  "well_formed_target role t \<longleftrightarrow>
     sr_role t = role \<and> trimmed (sr_bucket t) \<and> sr_bucket t \<noteq> [] \<and>
     sr_prefix t \<noteq> [] \<and> hd (sr_prefix t) \<noteq> CHR ''/'' \<and> last (sr_prefix t) \<noteq> CHR ''/'' \<and>
     sr_targetKey t = sr_bucket t @ ''/'' @ sr_prefix t"

definition well_formed_roles :: "(storage_role, role_target) jsmap \<Rightarrow> bool" where
  "well_formed_roles n \<longleftrightarrow>
     map fst n = storageRoles \<and> list_all (\<lambda>(role, t). well_formed_target role t) n \<and>
     distinct (map (\<lambda>(role, t). sr_targetKey t) n)"

lemma stripSlashes_ends:
  "stripSlashes s \<noteq> [] \<Longrightarrow> hd (stripSlashes s) \<noteq> CHR ''/'' \<and> last (stripSlashes s) \<noteq> CHR ''/''"
proof -
  let ?P = "\<lambda>c. c = CHR 0x2F"
  let ?t = "dropWhile ?P s"
  let ?r = "dropWhile ?P (rev ?t)"
  assume "stripSlashes s \<noteq> []"
  then have r: "?r \<noteq> []" by (simp add: stripSlashes_def)
  then have t: "?t \<noteq> []" by (cases "?t") auto
  have "\<not> ?P (hd ?t)" using t by (rule hd_dropWhile)
  moreover have "last ?r = hd ?t" using r t by (simp add: dropWhile_last last_rev)
  moreover have "\<not> ?P (hd ?r)" using r by (rule hd_dropWhile)
  ultimately show ?thesis using r by (simp add: stripSlashes_def hd_rev last_rev)
qed

lemma normalized_target:
  "normalizeRoleTarget role bucket pre = Inr t \<Longrightarrow> well_formed_target role t"
  using trimmed_js_trim stripSlashes_ends
  by (auto simp: normalizeRoleTarget_def normalizeBucket_def normalizePrefix_def Let_def
      well_formed_target_def then_do_ok split: if_splits)

lemma normalized_roles:
  "normalizeRoles layout roles = Inr n \<Longrightarrow>
     map fst n = roles \<and> list_all (\<lambda>(role, t). well_formed_target role t) n"
  by (induction roles arbitrary: n) (auto simp: then_do_ok normalized_target)

lemma checked_targets:
  "checkTargets seen n = Inr () \<longleftrightarrow>
     distinct (map (\<lambda>(role, t). sr_targetKey t) n) \<and>
     (\<forall>(role, t) \<in> set n. js_get seen (sr_targetKey t) = None)"
proof (induction n arbitrary: seen)
  case (Cons entry n)
  obtain role t where entry: "entry = (role, t)" by (cases entry)
  show ?case
    by (cases "js_get seen (sr_targetKey t)")
      (auto simp: entry Cons.IH image_iff split: if_splits prod.splits)
qed simp

lemma normalized_layout:
  "normalizeStorageLayout layout = Inr n \<longleftrightarrow>
     normalizeRoles layout storageRoles = Inr n \<and>
     distinct (map (\<lambda>(role, t). sr_targetKey t) n)"
  by (auto simp: normalizeStorageLayout_def then_do_ok checked_targets)

lemma well_formed_layout: "normalizeStorageLayout layout = Inr n \<Longrightarrow> well_formed_roles n"
  using normalized_roles by (auto simp: normalized_layout well_formed_roles_def)

lemma publication_target_role:
  assumes "resolvePublicationTarget layout kind = Inr t"
  shows "well_formed_target (if kind = kind_derivative then role_derived else role_exports) t"
proof -
  obtain n where n: "normalizeStorageLayout layout = Inr n"
    "t = the (js_get n (if kind = kind_derivative then role_derived else role_exports))"
    using assms by (auto simp: resolvePublicationTarget_def then_do_ok)
  then have w: "map fst n = storageRoles" "\<forall>(role, t) \<in> set n. well_formed_target role t"
    using well_formed_layout [OF n(1)] by (auto simp: well_formed_roles_def list_all_iff)
  have "(if kind = kind_derivative then role_derived else role_exports) \<in> fst ` set n"
    using arg_cong [OF w(1), of set] by (auto simp: storageRoles_def)
  then obtain t' where "js_get n (if kind = kind_derivative then role_derived else role_exports) = Some t'"
    using map_of_eq_None_iff by (metis not_None_eq)
  moreover from this have "well_formed_target
      (if kind = kind_derivative then role_derived else role_exports) t'"
    using w(2) map_of_SomeD by fast
  ultimately show ?thesis using n(2) by simp
qed

lemma stripped_white_space: "normalizePrefix (Some ''/ /'') = Inr '' ''"
  by code_simp

definition usable_repository :: "source_repository_config \<Rightarrow> bool" where
  "usable_repository c \<longleftrightarrow>
     0 < xt_timeoutMs (rc_xet c) \<and> 0 < kp_timeoutMs (rc_kopia c) \<and>
     kp_executable (rc_kopia c) \<noteq> [] \<and>
     (rc_engine c = run_xet \<longrightarrow> xt_command (rc_xet c) \<noteq> None \<or> xt_service (rc_xet c) \<noteq> None) \<and>
     (case xt_command (rc_xet c) of
        None \<Rightarrow> True
      | Some command \<Rightarrow> xc_command command \<noteq> [] \<and> [] \<notin> set (xc_args command)) \<and>
     (case xt_service (rc_xet c) of None \<Rightarrow> True | Some service \<Rightarrow> xs_endpoint service \<noteq> [])"

definition usable_defaults :: "storage_defaults \<Rightarrow> bool" where
  "usable_defaults d \<longleftrightarrow>
     sd_hotReadLayer d \<in> set [''none'', ''nydus'', ''alluxio''] \<and>
     sd_sourceDeliveryMode d \<in> set [''proxy'', ''materialized-export'', ''lazy-read''] \<and>
     sd_tieringSubstrate d \<in> set [''rustfs'', ''seaweedfs'']"

definition usable_storage :: "storage_runtime_config \<Rightarrow> bool" where
  "usable_storage c \<longleftrightarrow>
     well_formed_roles (sc_normalized c) \<and>
     normalizeStorageLayout (sc_layout c) = Inr (sc_normalized c) \<and>
     usable_defaults (sc_defaults c) \<and> usable_repository (sc_sourceRepository c)"

lemma read_positive:
  "readPositiveInteger number environment key fallback = Inr n \<Longrightarrow> 0 < fallback \<Longrightarrow> 0 < n"
  by (auto simp: readPositiveInteger_def Let_def split: if_splits option.splits)

lemma read_enum:
  "readEnumValue key rawValue allowed fallback = Inr v \<Longrightarrow> v \<in> set allowed"
  by (auto simp: readEnumValue_def Let_def split: if_splits)

lemma read_optional: "readOptionalValue environment key = Inr v \<Longrightarrow> v \<noteq> Some []"
  by (auto simp: readOptionalValue_def Let_def split: if_splits)

lemma json_text_nonempty: "json_text v = Some s \<Longrightarrow> s \<noteq> []"
  by (cases v) (auto split: if_splits)

lemma read_array: "readStringArrayValue parseJson environment key = Inr vs \<Longrightarrow> [] \<notin> set vs"
  using json_text_nonempty
  by (fastforce simp: readStringArrayValue_def Let_def list_ex_iff
      split: if_splits option.splits json.splits)

lemma keep_str_nonempty: "keep_str x = Some s \<Longrightarrow> s \<noteq> []"
  by (cases x) (auto simp: keep_str_def split: if_splits)

lemma read_command:
  "readXetCommand parseJson environment command cwd = Inr (Some c) \<Longrightarrow>
     xc_command c \<noteq> [] \<and> [] \<notin> set (xc_args c)"
  by (auto simp: readXetCommand_def then_do_ok split: option.splits
      dest: keep_str_nonempty read_array)

lemma read_service: "xetService endpoint token = Some s \<Longrightarrow> xs_endpoint s \<noteq> []"
  by (auto simp: xetService_def dest: keep_str_nonempty)

lemma read_kopia:
  assumes "readKopiaConfig number environment = Inr k"
  shows "0 < kp_timeoutMs k" "kp_executable k \<noteq> []"
proof -
  obtain executable where parts:
    "readOptionalValue environment ''CDNGINE_KOPIA_EXECUTABLE'' = Inr executable"
    "readPositiveInteger number environment ''CDNGINE_KOPIA_TIMEOUT_MS'' 30000 = Inr (kp_timeoutMs k)"
    "kp_executable k = nullish executable ''kopia''"
    using assms by (auto simp: readKopiaConfig_def then_do_ok)
  show "0 < kp_timeoutMs k" using read_positive [OF parts(2)] by simp
  show "kp_executable k \<noteq> []"
    using parts(3) read_optional [OF parts(1)] by (cases executable) auto
qed

lemma loaded_repository:
  assumes "loadSourceRepositoryRuntimeConfigFromEnvironment number parseJson environment = Inr c"
  shows "usable_repository c"
proof -
  obtain xet where xet: "readXetConfig number parseJson environment = Inr xet" "rc_xet c = xet"
    "rc_engine c = run_xet \<longrightarrow> xt_command xet \<noteq> None \<or> xt_service xet \<noteq> None"
    and kopia: "readKopiaConfig number environment = Inr (rc_kopia c)"
    using assms
    by (auto simp: loadSourceRepositoryRuntimeConfigFromEnvironment_def then_do_ok split: if_splits)
  have "0 < kp_timeoutMs (rc_kopia c)" "kp_executable (rc_kopia c) \<noteq> []"
    using kopia by (rule read_kopia)+
  moreover have "0 < xt_timeoutMs xet"
    using xet(1) by (auto simp: readXetConfig_def then_do_ok dest: read_positive)
  moreover have "xc_command command \<noteq> [] \<and> [] \<notin> set (xc_args command)"
    if "xt_command xet = Some command" for command
    using xet(1) that by (auto simp: readXetConfig_def then_do_ok dest: read_command)
  moreover have "xs_endpoint service \<noteq> []" if "xt_service xet = Some service" for service
    using xet(1) that by (auto simp: readXetConfig_def then_do_ok dest: read_service)
  ultimately show ?thesis
    using xet(2,3) by (auto simp: usable_repository_def split: option.splits)
qed

lemma read_defaults: "readDefaults environment = Inr d \<Longrightarrow> usable_defaults d"
  unfolding readDefaults_def then_do_ok usable_defaults_def
  by (elim exE conjE) (drule read_enum; drule read_enum; drule read_enum; simp only: sum.inject;
      hypsubst; simp only: storage_defaults.simps; blast)

text \<open>C32. A storage configuration that loads from the environment is well formed: each role has a
  target with a trimmed bucket and a non-empty prefix that neither starts nor ends with a slash, no
  two roles share a target, time limits are positive, the engine chosen has what it needs, and every
  choice is one of the documented values.\<close>

theorem loaded_storage_is_usable:
  assumes "loadStorageRuntimeConfigFromEnvironment number parseJson environment = Inr c"
  shows "usable_storage c"
proof -
  obtain mode where parts: "readDefaults environment = Inr (sc_defaults c)"
    "readLayout environment mode = Inr (sc_layout c)"
    "map_sum Topology id (normalizeStorageLayout (sc_layout c)) = Inr (sc_normalized c)"
    "loadSourceRepositoryRuntimeConfigFromEnvironment number parseJson environment =
       Inr (sc_sourceRepository c)"
    using assms by (auto simp: loadStorageRuntimeConfigFromEnvironment_def then_do_ok)
  have layout: "normalizeStorageLayout (sc_layout c) = Inr (sc_normalized c)"
    using parts(3) by (cases "normalizeStorageLayout (sc_layout c)") auto
  show ?thesis
    using layout well_formed_layout [OF layout] read_defaults [OF parts(1)]
      loaded_repository [OF parts(4)]
    by (simp add: usable_storage_def)
qed

definition example_environment :: environment where
  "example_environment =
     [(''CDNGINE_INGEST_BUCKET'', ''ingest''), (''CDNGINE_SOURCE_BUCKET'', ''source''),
      (''CDNGINE_DERIVED_BUCKET'', '' derived ''), (''CDNGINE_EXPORTS_BUCKET'', ''exports''),
      (''CDNGINE_EXPORTS_PREFIX'', ''/out/''), (''CDNGINE_XET_COMMAND'', ''xet'')]"

lemma example_loads:
  "\<exists>c. loadStorageRuntimeConfigFromEnvironment (\<lambda>_. None) (\<lambda>_. None) example_environment = Inr c \<and>
     map (\<lambda>(role, t). sr_targetKey t) (sc_normalized c) =
       [''ingest/ingest'', ''source/source'', ''derived/derived'', ''exports/out'']"
proof -
  have "(case loadStorageRuntimeConfigFromEnvironment (\<lambda>_. None) (\<lambda>_. None) example_environment of
      Inl _ \<Rightarrow> False
    | Inr c \<Rightarrow> map (\<lambda>(role, t). sr_targetKey t) (sc_normalized c) =
       [''ingest/ingest'', ''source/source'', ''derived/derived'', ''exports/out''])"
    by code_simp
  then show ?thesis by (auto split: sum.splits)
qed

lemma loaded_storage_is_usable_witness:
  "\<exists>c. loadStorageRuntimeConfigFromEnvironment (\<lambda>_. None) (\<lambda>_. None) example_environment = Inr c \<and>
     usable_storage c"
  using example_loads loaded_storage_is_usable by blast

end
