(* ===== verification/Operator_Control.thy ===== *)
theory Operator_Control
  imports Source_Paths "HOL-Library.Multiset"
begin

text \<open>
  Operator control: \<open>InMemoryOperatorControlStore\<close> of
  \<open>apps/api/src/operator/operator-service.ts\<close> and the action handler of \<open>operator-routes.ts\<close>.
  Reprocessing restores the canonical source first when replays are configured, and awaits the file
  system and the repository; it is modelled as \<open>beginReprocess\<close> up to the first \<open>await\<close>,
  \<open>restoreSource\<close> for the two external calls, and \<open>finishReprocess\<close> after them. Other actions run
  during the wait, and the step relation \<open>operator_step\<close> interleaves them. The other actions do not
  await. \<open>gen\<close> yields the operation identifiers by their number, \<open>now\<close> is the clock's answer.
\<close>

section \<open>Data\<close>

datatype operator_state =
  op_canonical | op_processing | op_published | op_quarantined | op_purged | op_failed_retryable

datatype operator_action = act_reprocess | act_quarantine | act_release | act_purge

record operator_request =
  oq_evidenceReference :: "string option"
  oq_reason :: string

datatype accepted_state = acc_accepted | acc_pending

record operator_accepted =
  oa_action :: operator_action
  oa_operationId :: string
  oa_state :: accepted_state
  oa_workflowId :: "string option"

record operator_publication =
  opb_derivativeCount :: "int option"
  opb_manifestType :: "string option"

record operator_restore =
  ors_repositoryEngine :: repository_engine
  ors_restoredPath :: string

record operator_workflow =
  ow_state :: string
  ow_workflowId :: "string option"

record version_diagnostics =
  vd_assetId :: string
  vd_lifecycleState :: operator_state
  vd_publication :: "operator_publication option"
  vd_sourceRestore :: "operator_restore option"
  vd_versionId :: string
  vd_workflow :: operator_workflow

record operator_version = version_diagnostics +
  ov_canonicalSourceEvidence :: "source_evidence option"
  ov_sourceFilename :: "string option"

record audit_event =
  ae_action :: operator_action
  ae_actorSubject :: string
  ae_assetId :: string
  ae_evidenceReference :: "string option"
  ae_operationId :: string
  ae_reason :: string
  ae_recordedAt :: int
  ae_versionId :: string
  ae_workflowId :: "string option"

record seed_operator_version =
  sv_assetId :: string
  sv_canonicalSourceEvidence :: "source_evidence option"
  sv_derivativeCount :: "int option"
  sv_lifecycleState :: operator_state
  sv_manifestType :: "string option"
  sv_sourceFilename :: "string option"
  sv_versionId :: string
  sv_workflowId :: "string option"
  sv_workflowState :: string

record operator_store =
  os_auditEvents :: "(string, audit_event list) jsmap"
  os_versions :: "(string, operator_version) jsmap"
  os_issuedIds :: nat

datatype 'e operator_error =
  OperatorVersionNotFound string string
| OperatorActionRejected operator_action string string operator_state
| OperatorDestination destination_error
| OperatorReplay 'e

section \<open>Reading\<close>

definition cloneAuditEvent :: "audit_event \<Rightarrow> audit_event" where
  "cloneAuditEvent event =
     \<lparr>ae_action = ae_action event, ae_actorSubject = ae_actorSubject event,
      ae_assetId = ae_assetId event, ae_evidenceReference = keep_str (ae_evidenceReference event),
      ae_operationId = ae_operationId event, ae_reason = ae_reason event,
      ae_recordedAt = ae_recordedAt event, ae_versionId = ae_versionId event,
      ae_workflowId = keep_str (ae_workflowId event)\<rparr>"

definition cloneDiagnostics :: "operator_version \<Rightarrow> version_diagnostics" where
  "cloneDiagnostics r =
     \<lparr>vd_assetId = vd_assetId r, vd_lifecycleState = vd_lifecycleState r,
      vd_publication =
        map_option (\<lambda>p. \<lparr>opb_derivativeCount = opb_derivativeCount p,
                         opb_manifestType = keep_str (opb_manifestType p)\<rparr>) (vd_publication r),
      vd_sourceRestore =
        map_option (\<lambda>x. \<lparr>ors_repositoryEngine = ors_repositoryEngine x,
                         ors_restoredPath = ors_restoredPath x\<rparr>) (vd_sourceRestore r),
      vd_versionId = vd_versionId r,
      vd_workflow = \<lparr>ow_state = ow_state (vd_workflow r),
                     ow_workflowId = keep_str (ow_workflowId (vd_workflow r))\<rparr>\<rparr>"

definition operatorKey :: "string \<Rightarrow> string \<Rightarrow> string" where
  "operatorKey assetId versionId = assetId @ '':'' @ versionId"

text \<open>A count is truthy when it is not zero.\<close>

definition seededVersion :: "seed_operator_version \<Rightarrow> operator_version" where
  "seededVersion v =
     \<lparr>vd_assetId = sv_assetId v, vd_lifecycleState = sv_lifecycleState v,
      vd_publication =
        (if nullish (sv_derivativeCount v) 0 \<noteq> 0 \<or> truthy_str (sv_manifestType v)
         then Some \<lparr>opb_derivativeCount = sv_derivativeCount v,
                    opb_manifestType = keep_str (sv_manifestType v)\<rparr>
         else None),
      vd_sourceRestore = None, vd_versionId = sv_versionId v,
      vd_workflow = \<lparr>ow_state = sv_workflowState v, ow_workflowId = keep_str (sv_workflowId v)\<rparr>,
      ov_canonicalSourceEvidence =
        map_option clonePersistedCanonicalSourceEvidence (sv_canonicalSourceEvidence v),
      ov_sourceFilename = keep_str (sv_sourceFilename v)\<rparr>"

definition newOperatorStore :: "seed_operator_version list \<Rightarrow> operator_store" where
  "newOperatorStore seeds =
     \<lparr>os_auditEvents = [],
      os_versions = foldl (\<lambda>m v. js_set (operatorKey (sv_assetId v) (sv_versionId v))
                                   (seededVersion v) m) [] seeds,
      os_issuedIds = 0\<rparr>"

definition getAuditEvents :: "string \<Rightarrow> string \<Rightarrow> operator_store \<Rightarrow> audit_event list" where
  "getAuditEvents assetId versionId s =
     map cloneAuditEvent (nullish (js_get (os_auditEvents s) (operatorKey assetId versionId)) [])"

definition getDiagnostics :: "string \<Rightarrow> string \<Rightarrow> operator_store \<Rightarrow> version_diagnostics option" where
  "getDiagnostics assetId versionId s =
     map_option cloneDiagnostics (js_get (os_versions s) (operatorKey assetId versionId))"

section \<open>Actions\<close>

definition getMutableOperatorVersion ::
  "string \<Rightarrow> string \<Rightarrow> operator_store \<Rightarrow> 'e operator_error + operator_version" where
  "getMutableOperatorVersion assetId versionId s =
     (case js_get (os_versions s) (operatorKey assetId versionId) of
        None \<Rightarrow> Inl (OperatorVersionNotFound assetId versionId)
      | Some r \<Rightarrow> Inr r)"

text \<open>The record is mutated in place; the map holds it under its key.\<close>

definition mutateVersion ::
  "string \<Rightarrow> string \<Rightarrow> operator_version \<Rightarrow> operator_store \<Rightarrow> operator_store" where
  "mutateVersion assetId versionId r s =
     s\<lparr>os_versions := js_set (operatorKey assetId versionId) r (os_versions s)\<rparr>"

definition recordAudit ::
  "operator_action \<Rightarrow> string \<Rightarrow> string \<Rightarrow> string \<Rightarrow> operator_request \<Rightarrow> string \<Rightarrow> string option \<Rightarrow> int
     \<Rightarrow> operator_store \<Rightarrow> operator_store" where
  "recordAudit action assetId versionId actorSubject request operationId workflowId now s =
     (let key = operatorKey assetId versionId;
          events = nullish (js_get (os_auditEvents s) key) [] in
      s\<lparr>os_auditEvents := js_set key
          (events @
           [\<lparr>ae_action = action, ae_actorSubject = actorSubject, ae_assetId = assetId,
             ae_evidenceReference = keep_str (oq_evidenceReference request),
             ae_operationId = operationId, ae_reason = oq_reason request, ae_recordedAt = now,
             ae_versionId = versionId, ae_workflowId = keep_str workflowId\<rparr>])
          (os_auditEvents s)\<rparr>)"

definition takeOperationId :: "(nat \<Rightarrow> string) \<Rightarrow> operator_store \<Rightarrow> operator_store \<times> string" where
  "takeOperationId gen s = (s\<lparr>os_issuedIds := Suc (os_issuedIds s)\<rparr>, gen (os_issuedIds s))"

datatype 'e reprocess_step =
  ReprocessRefused "'e operator_error"
| ReprocessReady
| ReprocessAwait string source_evidence

definition beginReprocess ::
  "string \<Rightarrow> string option \<Rightarrow> string \<Rightarrow> string \<Rightarrow> operator_store \<Rightarrow> 'e reprocess_step" where
  "beginReprocess cwd materializationRootPath assetId versionId s =
     (case getMutableOperatorVersion assetId versionId s of
        Inl e \<Rightarrow> ReprocessRefused e
      | Inr r \<Rightarrow>
          if vd_lifecycleState r \<notin> {op_canonical, op_published, op_failed_retryable}
          then ReprocessRefused
                 (OperatorActionRejected act_reprocess assetId versionId (vd_lifecycleState r))
          else
            (case (materializationRootPath, ov_canonicalSourceEvidence r) of
               (Some rootPath, Some evidence) \<Rightarrow>
                 (case buildMaterializedSourcePath cwd rootPath [assetId, versionId]
                         \<lparr>fi_sourceFilename = keep_str (ov_sourceFilename r),
                          fi_canonicalLogicalPath = Some (ev_canonicalLogicalPath evidence),
                          fi_fallbackBaseName = None\<rparr> of
                    Inl e \<Rightarrow> ReprocessRefused (OperatorDestination e)
                  | Inr destinationPath \<Rightarrow> ReprocessAwait destinationPath evidence)
             | _ \<Rightarrow> ReprocessReady))"

definition restoreSource ::
  "(string \<Rightarrow> 'w \<Rightarrow> 'w \<times> ('e + unit)) \<Rightarrow> (restore_request \<Rightarrow> 'w \<Rightarrow> 'w \<times> ('e + string)) \<Rightarrow> string
     \<Rightarrow> source_evidence \<Rightarrow> 'w \<Rightarrow> 'w \<times> ('e + operator_restore)" where
  "restoreSource mkdir restoreToPath destinationPath evidence world =
     and_then (mkdir (pathDirname destinationPath) world) (\<lambda>world _.
     and_then (materializeCanonicalSourceToPath restoreToPath (Inl evidence) destinationPath world)
       (\<lambda>world restoredPath.
         ok world \<lparr>ors_repositoryEngine = ev_repositoryEngine evidence,
                   ors_restoredPath = restoredPath\<rparr>))"

definition finishReprocess ::
  "(nat \<Rightarrow> string) \<Rightarrow> int \<Rightarrow> string \<Rightarrow> string \<Rightarrow> string \<Rightarrow> operator_request \<Rightarrow> operator_restore option
     \<Rightarrow> operator_store \<Rightarrow> operator_store \<times> operator_accepted" where
  "finishReprocess gen now assetId versionId actorSubject request restored s =
     (let r = the (js_get (os_versions s) (operatorKey assetId versionId));
          r1 = (case restored of None \<Rightarrow> r | Some x \<Rightarrow> r\<lparr>vd_sourceRestore := Some x\<rparr>);
          (s1, operationId) = takeOperationId gen s;
          workflowId = assetId @ '':'' @ versionId @ '':reprocess:'' @ operationId;
          s2 = mutateVersion assetId versionId
                 (r1\<lparr>vd_lifecycleState := op_processing,
                     vd_workflow := \<lparr>ow_state = ''queued'', ow_workflowId = Some workflowId\<rparr>\<rparr>) s1 in
      (recordAudit act_reprocess assetId versionId actorSubject request operationId
         (Some workflowId) now s2,
       \<lparr>oa_action = act_reprocess, oa_operationId = operationId, oa_state = acc_accepted,
        oa_workflowId = Some workflowId\<rparr>))"

text \<open>The whole action, run without a pause.\<close>

definition reprocessVersion ::
  "(string \<Rightarrow> 'w \<Rightarrow> 'w \<times> ('e + unit)) \<Rightarrow> (restore_request \<Rightarrow> 'w \<Rightarrow> 'w \<times> ('e + string)) \<Rightarrow> string
     \<Rightarrow> string option \<Rightarrow> (nat \<Rightarrow> string) \<Rightarrow> int \<Rightarrow> string \<Rightarrow> string \<Rightarrow> string \<Rightarrow> operator_request
     \<Rightarrow> operator_store \<times> 'w \<Rightarrow> (operator_store \<times> 'w) \<times> ('e operator_error + operator_accepted)" where
  "reprocessVersion mkdir restoreToPath cwd rootPath gen now assetId versionId actorSubject request sw =
     (case sw of
        (s, world) \<Rightarrow>
          (case beginReprocess cwd rootPath assetId versionId s of
             ReprocessRefused e \<Rightarrow> throw (s, world) e
           | ReprocessReady \<Rightarrow>
               (case finishReprocess gen now assetId versionId actorSubject request None s of
                  (s', accepted) \<Rightarrow> ok (s', world) accepted)
           | ReprocessAwait destinationPath evidence \<Rightarrow>
               (case restoreSource mkdir restoreToPath destinationPath evidence world of
                  (world', Inl e) \<Rightarrow> throw (s, world') (OperatorReplay e)
                | (world', Inr restored) \<Rightarrow>
                    (case finishReprocess gen now assetId versionId actorSubject request
                            (Some restored) s of
                       (s', accepted) \<Rightarrow> ok (s', world') accepted))))"

definition quarantineVersion ::
  "(nat \<Rightarrow> string) \<Rightarrow> int \<Rightarrow> string \<Rightarrow> string \<Rightarrow> string \<Rightarrow> operator_request \<Rightarrow> operator_store
     \<Rightarrow> (operator_store, 'e operator_error, operator_accepted) outcome" where
  "quarantineVersion gen now assetId versionId actorSubject request s =
     (case getMutableOperatorVersion assetId versionId s of
        Inl e \<Rightarrow> throw s e
      | Inr r \<Rightarrow>
          if vd_lifecycleState r = op_quarantined \<or> vd_lifecycleState r = op_purged
          then throw s (OperatorActionRejected act_quarantine assetId versionId (vd_lifecycleState r))
          else
            (let (s1, operationId) = takeOperationId gen s;
                 s2 = mutateVersion assetId versionId
                        (r\<lparr>vd_lifecycleState := op_quarantined,
                           vd_workflow := \<lparr>ow_state = ''waiting'',
                             ow_workflowId = keep_str (ow_workflowId (vd_workflow r))\<rparr>\<rparr>) s1 in
             ok (recordAudit act_quarantine assetId versionId actorSubject request operationId None
                   now s2)
               \<lparr>oa_action = act_quarantine, oa_operationId = operationId, oa_state = acc_accepted,
                oa_workflowId = None\<rparr>))"

definition releaseVersion ::
  "(nat \<Rightarrow> string) \<Rightarrow> int \<Rightarrow> string \<Rightarrow> string \<Rightarrow> string \<Rightarrow> operator_request \<Rightarrow> operator_store
     \<Rightarrow> (operator_store, 'e operator_error, operator_accepted) outcome" where
  "releaseVersion gen now assetId versionId actorSubject request s =
     (case getMutableOperatorVersion assetId versionId s of
        Inl e \<Rightarrow> throw s e
      | Inr r \<Rightarrow>
          if vd_lifecycleState r \<noteq> op_quarantined
          then throw s (OperatorActionRejected act_release assetId versionId (vd_lifecycleState r))
          else
            (let (s1, operationId) = takeOperationId gen s;
                 workflowId = assetId @ '':'' @ versionId @ '':release:'' @ operationId;
                 s2 = mutateVersion assetId versionId
                        (r\<lparr>vd_lifecycleState := op_processing,
                           vd_workflow := \<lparr>ow_state = ''queued'',
                             ow_workflowId = Some workflowId\<rparr>\<rparr>) s1 in
             ok (recordAudit act_release assetId versionId actorSubject request operationId
                   (Some workflowId) now s2)
               \<lparr>oa_action = act_release, oa_operationId = operationId, oa_state = acc_accepted,
                oa_workflowId = Some workflowId\<rparr>))"

definition purgeVersion ::
  "(nat \<Rightarrow> string) \<Rightarrow> int \<Rightarrow> string \<Rightarrow> string \<Rightarrow> string \<Rightarrow> operator_request \<Rightarrow> operator_store
     \<Rightarrow> (operator_store, 'e operator_error, operator_accepted) outcome" where
  "purgeVersion gen now assetId versionId actorSubject request s =
     (case getMutableOperatorVersion assetId versionId s of
        Inl e \<Rightarrow> throw s e
      | Inr r \<Rightarrow>
          if vd_lifecycleState r = op_purged
          then throw s (OperatorActionRejected act_purge assetId versionId (vd_lifecycleState r))
          else
            (let (s1, operationId) = takeOperationId gen s;
                 s2 = mutateVersion assetId versionId
                        (r\<lparr>vd_lifecycleState := op_purged,
                           vd_workflow := \<lparr>ow_state = ''cancelled'',
                             ow_workflowId = keep_str (ow_workflowId (vd_workflow r))\<rparr>\<rparr>) s1 in
             ok (recordAudit act_purge assetId versionId actorSubject request operationId None now s2)
               \<lparr>oa_action = act_purge, oa_operationId = operationId, oa_state = acc_accepted,
                oa_workflowId = None\<rparr>))"

section \<open>The action handler\<close>

datatype 'e operator_reply =
  OperatorReply operator_accepted
| OperatorProblem nat string
| OperatorUnhandled "'e operator_error"

definition operatorReply :: "('e operator_error + operator_accepted) \<Rightarrow> 'e operator_reply" where
  "operatorReply r =
     (case r of
        Inr accepted \<Rightarrow> OperatorReply accepted
      | Inl (OperatorVersionNotFound _ _) \<Rightarrow> OperatorProblem 404 ''Not found''
      | Inl (OperatorActionRejected _ _ _ _) \<Rightarrow> OperatorProblem 409 ''Operator action rejected''
      | Inl e \<Rightarrow> OperatorUnhandled e)"

definition performOperatorAction ::
  "(string \<Rightarrow> 'w \<Rightarrow> 'w \<times> ('e + unit)) \<Rightarrow> (restore_request \<Rightarrow> 'w \<Rightarrow> 'w \<times> ('e + string)) \<Rightarrow> string
     \<Rightarrow> string option \<Rightarrow> (nat \<Rightarrow> string) \<Rightarrow> int \<Rightarrow> operator_action \<Rightarrow> string option \<Rightarrow> string \<Rightarrow> string
     \<Rightarrow> operator_request \<Rightarrow> operator_store \<times> 'w \<Rightarrow> (operator_store \<times> 'w) \<times> 'e operator_reply" where
  "performOperatorAction mkdir restoreToPath cwd rootPath gen now action actor assetId versionId body sw =
     (case actor of
        None \<Rightarrow> (sw, OperatorProblem 401 ''Unauthorized'')
      | Some subject \<Rightarrow>
          (case action of
             act_reprocess \<Rightarrow>
               map_prod id operatorReply
                 (reprocessVersion mkdir restoreToPath cwd rootPath gen now assetId versionId
                    subject body sw)
           | act_quarantine \<Rightarrow>
               map_prod (\<lambda>s. (s, snd sw)) operatorReply
                 (quarantineVersion gen now assetId versionId subject body (fst sw))
           | act_release \<Rightarrow>
               map_prod (\<lambda>s. (s, snd sw)) operatorReply
                 (releaseVersion gen now assetId versionId subject body (fst sw))
           | act_purge \<Rightarrow>
               map_prod (\<lambda>s. (s, snd sw)) operatorReply
                 (purgeVersion gen now assetId versionId subject body (fst sw))))"

section \<open>What an accepted action does\<close>

fun action_state :: "operator_action \<Rightarrow> operator_state" where
  "action_state act_reprocess = op_processing"
| "action_state act_quarantine = op_quarantined"
| "action_state act_release = op_processing"
| "action_state act_purge = op_purged"

fun action_allowed :: "operator_action \<Rightarrow> operator_state \<Rightarrow> bool" where
  "action_allowed act_reprocess st = (st \<in> {op_canonical, op_published, op_failed_retryable})"
| "action_allowed act_quarantine st = (st \<notin> {op_quarantined, op_purged})"
| "action_allowed act_release st = (st = op_quarantined)"
| "action_allowed act_purge st = (st \<noteq> op_purged)"

definition applied ::
  "(nat \<Rightarrow> string) \<Rightarrow> operator_action \<Rightarrow> string \<Rightarrow> string \<Rightarrow> string \<Rightarrow> operator_request \<Rightarrow> operator_store
     \<Rightarrow> operator_store \<Rightarrow> bool" where
  "applied gen act assetId versionId actor request s s' \<longleftrightarrow>
     (\<exists>r' event. vd_lifecycleState r' = action_state act \<and> ae_action event = act \<and>
        ae_assetId event = assetId \<and> ae_versionId event = versionId \<and>
        ae_actorSubject event = actor \<and> ae_reason event = oq_reason request \<and>
        ae_operationId event = gen (os_issuedIds s) \<and>
        os_versions s' = js_set (operatorKey assetId versionId) r' (os_versions s) \<and>
        os_auditEvents s' = js_set (operatorKey assetId versionId)
          (nullish (js_get (os_auditEvents s) (operatorKey assetId versionId)) [] @ [event])
          (os_auditEvents s) \<and>
        os_issuedIds s' = Suc (os_issuedIds s))"

lemma appliedI:
  assumes "vd_lifecycleState r' = action_state act"
  shows "applied gen act assetId versionId actor request s
    (recordAudit act assetId versionId actor request (gen (os_issuedIds s)) w now
       (mutateVersion assetId versionId r' (s\<lparr>os_issuedIds := Suc (os_issuedIds s)\<rparr>)))"
  unfolding applied_def recordAudit_def mutateVersion_def Let_def
  by (intro exI conjI) (use assms in simp_all)

lemma quarantine_decided:
  "quarantineVersion gen now a v actor req s = (s', Inr acc) \<Longrightarrow>
     (\<exists>r. js_get (os_versions s) (operatorKey a v) = Some r \<and>
        action_allowed act_quarantine (vd_lifecycleState r)) \<and>
     oa_operationId acc = gen (os_issuedIds s) \<and> applied gen act_quarantine a v actor req s s'"
  by (auto simp: quarantineVersion_def getMutableOperatorVersion_def takeOperationId_def Let_def
      intro!: appliedI split: option.splits if_splits)

lemma release_decided:
  "releaseVersion gen now a v actor req s = (s', Inr acc) \<Longrightarrow>
     (\<exists>r. js_get (os_versions s) (operatorKey a v) = Some r \<and>
        action_allowed act_release (vd_lifecycleState r)) \<and>
     oa_operationId acc = gen (os_issuedIds s) \<and> applied gen act_release a v actor req s s'"
  by (auto simp: releaseVersion_def getMutableOperatorVersion_def takeOperationId_def Let_def
      intro!: appliedI split: option.splits if_splits)

lemma purge_decided:
  "purgeVersion gen now a v actor req s = (s', Inr acc) \<Longrightarrow>
     (\<exists>r. js_get (os_versions s) (operatorKey a v) = Some r \<and>
        action_allowed act_purge (vd_lifecycleState r)) \<and>
     oa_operationId acc = gen (os_issuedIds s) \<and> applied gen act_purge a v actor req s s'"
  by (auto simp: purgeVersion_def getMutableOperatorVersion_def takeOperationId_def Let_def
      intro!: appliedI split: option.splits if_splits)

lemma action_refused:
  "quarantineVersion gen now a v actor req s = (s', Inl e) \<Longrightarrow> s' = s"
  "releaseVersion gen now a v actor req s = (s', Inl e) \<Longrightarrow> s' = s"
  "purgeVersion gen now a v actor req s = (s', Inl e) \<Longrightarrow> s' = s"
  by (auto simp: quarantineVersion_def releaseVersion_def purgeVersion_def Let_def case_prod_beta
      split: sum.splits if_splits)

lemma reprocess_applied:
  "finishReprocess gen now a v actor req restored s = (s', acc) \<Longrightarrow>
     applied gen act_reprocess a v actor req s s'"
  by (auto simp: finishReprocess_def takeOperationId_def Let_def intro!: appliedI
      split: option.splits)

lemma reprocess_begun:
  "beginReprocess cwd root a v s = ReprocessReady \<Longrightarrow>
     \<exists>r. js_get (os_versions s) (operatorKey a v) = Some r \<and>
        action_allowed act_reprocess (vd_lifecycleState r)"
  "beginReprocess cwd root a v s = ReprocessAwait d ev \<Longrightarrow>
     \<exists>r. js_get (os_versions s) (operatorKey a v) = Some r \<and>
        action_allowed act_reprocess (vd_lifecycleState r)"
  by (auto simp: beginReprocess_def getMutableOperatorVersion_def split: option.splits if_splits sum.splits)

section \<open>Interleaved actions\<close>

record operator_call =
  oc_assetId :: string
  oc_versionId :: string
  oc_actorSubject :: string
  oc_request :: operator_request

type_synonym operator_world = "operator_store \<times> operator_call list"

inductive operator_step ::
  "(nat \<Rightarrow> string) \<Rightarrow> string \<Rightarrow> string option \<Rightarrow> operator_world \<Rightarrow> operator_world \<Rightarrow> bool"
  for gen cwd root where
  step_quarantine:
    "quarantineVersion gen now a v actor req s = (s', r :: unit operator_error + operator_accepted)
       \<Longrightarrow> operator_step gen cwd root (s, fl) (s', fl)"
| step_release:
    "releaseVersion gen now a v actor req s = (s', r :: unit operator_error + operator_accepted)
       \<Longrightarrow> operator_step gen cwd root (s, fl) (s', fl)"
| step_purge:
    "purgeVersion gen now a v actor req s = (s', r :: unit operator_error + operator_accepted)
       \<Longrightarrow> operator_step gen cwd root (s, fl) (s', fl)"
| step_reprocess:
    "beginReprocess cwd root a v s = (ReprocessReady :: unit reprocess_step)
       \<Longrightarrow> finishReprocess gen now a v actor req None s = (s', acc)
       \<Longrightarrow> operator_step gen cwd root (s, fl) (s', fl)"
| step_restore:
    "beginReprocess cwd root a v s = (ReprocessAwait d ev :: unit reprocess_step)
       \<Longrightarrow> operator_step gen cwd root (s, fl)
             (s, \<lparr>oc_assetId = a, oc_versionId = v, oc_actorSubject = actor, oc_request = req\<rparr> # fl)"
| step_restored:
    "finishReprocess gen now (oc_assetId c) (oc_versionId c) (oc_actorSubject c) (oc_request c)
         (Some restored) s = (s', acc)
       \<Longrightarrow> operator_step gen cwd root (s, fl1 @ c # fl2) (s', fl1 @ fl2)"
| step_restore_failed:
    "operator_step gen cwd root (s, fl1 @ c # fl2) (s, fl1 @ fl2)"

definition operator_reachable ::
  "(nat \<Rightarrow> string) \<Rightarrow> string \<Rightarrow> string option \<Rightarrow> seed_operator_version list \<Rightarrow> operator_world \<Rightarrow> bool" where
  "operator_reachable gen cwd root seeds w \<longleftrightarrow>
     (operator_step gen cwd root)\<^sup>*\<^sup>* (newOperatorStore seeds, []) w"

text \<open>Every step leaves the store as it is or applies one action, which its guard allowed unless it
  is the end of a restore.\<close>

definition allowed_at :: "operator_action \<Rightarrow> string \<Rightarrow> string \<Rightarrow> operator_store \<Rightarrow> bool" where
  "allowed_at act a v s \<longleftrightarrow>
     (\<exists>r. js_get (os_versions s) (operatorKey a v) = Some r \<and> action_allowed act (vd_lifecycleState r))"

definition step_effect ::
  "(nat \<Rightarrow> string) \<Rightarrow> operator_call list \<Rightarrow> operator_store \<Rightarrow> operator_store \<Rightarrow> bool" where
  "step_effect gen fl s s' \<longleftrightarrow>
     s' = s \<or> (\<exists>act a v actor req. applied gen act a v actor req s s' \<and> (fl \<noteq> [] \<or> allowed_at act a v s))"

lemma step_effectI: "applied gen act a v actor req s s' \<Longrightarrow> fl \<noteq> [] \<or> allowed_at act a v s \<Longrightarrow>
    step_effect gen fl s s'"
  unfolding step_effect_def by blast

lemma quarantine_effect:
  assumes "quarantineVersion gen now a v actor req s = (s', x)"
  shows "step_effect gen fl s s'"
proof (cases x)
  case (Inl e)
  then show ?thesis using assms action_refused [of gen now a v actor req s s' e]
    by (simp add: step_effect_def)
next
  case (Inr acc)
  then show ?thesis
    using quarantine_decided [OF assms [unfolded Inr]] by (intro step_effectI) (auto simp: allowed_at_def)
qed

lemma release_effect:
  assumes "releaseVersion gen now a v actor req s = (s', x)"
  shows "step_effect gen fl s s'"
proof (cases x)
  case (Inl e)
  then show ?thesis using assms action_refused [of gen now a v actor req s s' e]
    by (simp add: step_effect_def)
next
  case (Inr acc)
  then show ?thesis
    using release_decided [OF assms [unfolded Inr]] by (intro step_effectI) (auto simp: allowed_at_def)
qed

lemma purge_effect:
  assumes "purgeVersion gen now a v actor req s = (s', x)"
  shows "step_effect gen fl s s'"
proof (cases x)
  case (Inl e)
  then show ?thesis using assms action_refused [of gen now a v actor req s s' e]
    by (simp add: step_effect_def)
next
  case (Inr acc)
  then show ?thesis
    using purge_decided [OF assms [unfolded Inr]] by (intro step_effectI) (auto simp: allowed_at_def)
qed

lemma operator_step_effect:
  assumes "operator_step gen cwd root (s, fl) (s', fl')"
  shows "step_effect gen fl s s'"
  using assms
proof cases
  case (step_reprocess a v now actor req acc)
  show ?thesis
    using reprocess_applied [OF step_reprocess(3)] reprocess_begun(1) [OF step_reprocess(2)]
    by (intro step_effectI disjI2) (simp_all only: allowed_at_def)
next
  case (step_restored now c restored acc fl1 fl2)
  show ?thesis
    using reprocess_applied [OF step_restored(3)] step_restored(1) by (intro step_effectI) auto
next
  case (step_quarantine now a v actor req r)
  show ?thesis by (rule quarantine_effect) (rule step_quarantine(2))
next
  case (step_release now a v actor req r)
  show ?thesis by (rule release_effect) (rule step_release(2))
next
  case (step_purge now a v actor req r)
  show ?thesis by (rule purge_effect) (rule step_purge(2))
qed (auto simp: step_effect_def)

section \<open>The audit trail\<close>

definition audit_operations :: "operator_store \<Rightarrow> string multiset" where
  "audit_operations s = mset (map ae_operationId (concat (js_values (os_auditEvents s))))"

text \<open>
  The trail explains the store: a key without a trail holds what the seeds gave it, and a key with one
  holds a version in the state its last event leads to, every event of it naming that version.
\<close>

definition audit_explains :: "(nat \<Rightarrow> string) \<Rightarrow> seed_operator_version list \<Rightarrow> operator_store \<Rightarrow> bool" where
  "audit_explains gen seeds s \<longleftrightarrow>
     (\<forall>key. case js_get (os_auditEvents s) key of
        None \<Rightarrow> js_get (os_versions s) key = js_get (os_versions (newOperatorStore seeds)) key
      | Some events \<Rightarrow>
          events \<noteq> [] \<and>
          (\<forall>event \<in> set events. operatorKey (ae_assetId event) (ae_versionId event) = key) \<and>
          (\<exists>r. js_get (os_versions s) key = Some r \<and>
             vd_lifecycleState r = action_state (ae_action (last events)))) \<and>
     audit_operations s = mset (map gen [0..<os_issuedIds s])"

lemma values_append_event:
  "mset (concat (js_values (js_set k (nullish (js_get m k) [] @ [e]) m))) =
     add_mset e (mset (concat (js_values m)))"
  by (induction m) (auto simp: js_values_def)

lemma applied_keeps_audit:
  assumes "applied gen act a v actor req s s'" "audit_explains gen seeds s"
  shows "audit_explains gen seeds s'"
proof -
  obtain r' event where step: "vd_lifecycleState r' = action_state act" "ae_action event = act"
    "ae_assetId event = a" "ae_versionId event = v"
    "ae_operationId event = gen (os_issuedIds s)"
    "os_versions s' = js_set (operatorKey a v) r' (os_versions s)"
    "os_auditEvents s' = js_set (operatorKey a v)
       (nullish (js_get (os_auditEvents s) (operatorKey a v)) [] @ [event]) (os_auditEvents s)"
    "os_issuedIds s' = Suc (os_issuedIds s)"
    using assms(1) unfolding applied_def by blast
  let ?events = "nullish (js_get (os_auditEvents s) (operatorKey a v)) []"
  have "audit_operations s' = add_mset (ae_operationId event) (audit_operations s)"
    unfolding audit_operations_def step(7) mset_map values_append_event by simp
  then have ops: "audit_operations s' = mset (map gen [0..<os_issuedIds s'])"
    using assms(2) by (simp add: audit_explains_def step(5,8))
  have named: "\<forall>event \<in> set ?events. operatorKey (ae_assetId event) (ae_versionId event) = operatorKey a v"
    using conjunct1 [OF assms(2) [unfolded audit_explains_def], rule_format, of "operatorKey a v"]
    by (cases "js_get (os_auditEvents s) (operatorKey a v)") simp_all
  have "case js_get (os_auditEvents s') key of
      None \<Rightarrow> js_get (os_versions s') key = js_get (os_versions (newOperatorStore seeds)) key
    | Some events \<Rightarrow> events \<noteq> [] \<and>
        (\<forall>event \<in> set events. operatorKey (ae_assetId event) (ae_versionId event) = key) \<and>
        (\<exists>r. js_get (os_versions s') key = Some r \<and>
           vd_lifecycleState r = action_state (ae_action (last events)))" for key
  proof (cases "key = operatorKey a v")
    case True
    then show ?thesis using named by (simp add: step)
  next
    case False
    then have same: "js_get (os_auditEvents s') key = js_get (os_auditEvents s) key"
      "js_get (os_versions s') key = js_get (os_versions s) key" by (simp_all add: step(6,7))
    show ?thesis unfolding same
      by (rule conjunct1 [OF assms(2) [unfolded audit_explains_def], rule_format])
  qed
  then show ?thesis using ops by (simp add: audit_explains_def)
qed

lemma new_store_audit: "audit_explains gen seeds (newOperatorStore seeds)"
  by (simp add: audit_explains_def audit_operations_def newOperatorStore_def js_values_def)

text \<open>C33. However the actions and the restores they await are interleaved, and whether or not the
  restores succeed, the audit trail is complete: a version without a trail is exactly as it was seeded,
  a version with one is in the state its last event leads to, the events of a trail name its version,
  and the operation identifiers of all trails together are those that were issued, each once per
  issue.\<close>

theorem operator_audit_complete:
  assumes "operator_reachable gen cwd root seeds (s, fl)"
  shows "audit_explains gen seeds s"
proof -
  have "(operator_step gen cwd root)\<^sup>*\<^sup>* w w' \<Longrightarrow> audit_explains gen seeds (fst w) \<Longrightarrow>
      audit_explains gen seeds (fst w')" for w w'
  proof (induction rule: rtranclp_induct)
    case (step w1 w2)
    obtain s1 fl1 s2 fl2 where w: "w1 = (s1, fl1)" "w2 = (s2, fl2)" by (cases w1, cases w2)
    show ?case
      using operator_step_effect [OF step(2) [unfolded w]] step(3,4) applied_keeps_audit
      by (auto simp: w step_effect_def)
  qed
  then show ?thesis
    using assms new_store_audit unfolding operator_reachable_def by force
qed

section \<open>Purged versions\<close>

lemma no_replay_no_wait:
  "beginReprocess cwd None a v s \<noteq> ReprocessAwait d ev"
  by (auto simp: beginReprocess_def split: sum.splits option.splits)

lemma purged_blocks:
  assumes "js_get (os_versions s) k = Some r" "vd_lifecycleState r = op_purged"
    and "js_get (os_versions s) (operatorKey a v) = Some r'" "action_allowed act (vd_lifecycleState r')"
  shows "operatorKey a v \<noteq> k"
  using assms by (cases act) auto

lemma applied_elsewhere:
  assumes "applied gen act a v actor req s s'" "operatorKey a v \<noteq> k"
  shows "js_get (os_versions s') k = js_get (os_versions s) k"
    "js_get (os_auditEvents s') k = js_get (os_auditEvents s) k"
  using assms by (auto simp: applied_def)

lemma purged_step:
  assumes "operator_step gen cwd None (s, []) (s', fl)"
    and "js_get (os_versions s) k = Some r" "vd_lifecycleState r = op_purged"
  shows "fl = []" "js_get (os_versions s') k = Some r"
    "js_get (os_auditEvents s') k = js_get (os_auditEvents s) k"
proof -
  show "fl = []" using assms(1) by cases (auto simp: no_replay_no_wait)
  have "s' = s \<or> (\<exists>act a v actor req. applied gen act a v actor req s s' \<and> operatorKey a v \<noteq> k)"
    using operator_step_effect [OF assms(1)] purged_blocks [OF assms(2,3)]
    unfolding step_effect_def allowed_at_def by blast
  then show "js_get (os_versions s') k = Some r"
    "js_get (os_auditEvents s') k = js_get (os_auditEvents s) k"
    using assms(2) applied_elsewhere by auto
qed

text \<open>C34. Where replays are not configured, a purge is final: no later sequence of actions changes
  the diagnostics or the audit trail of a purged version.\<close>

theorem purge_is_final_without_replays:
  assumes "(operator_step gen cwd None)\<^sup>*\<^sup>* (s, []) (s', fl)"
    and "js_get (os_versions s) (operatorKey a v) = Some r" "vd_lifecycleState r = op_purged"
  shows "getDiagnostics a v s' = getDiagnostics a v s \<and> getAuditEvents a v s' = getAuditEvents a v s"
proof -
  have "(operator_step gen cwd None)\<^sup>*\<^sup>* w w' \<Longrightarrow> w = (s, []) \<Longrightarrow>
      snd w' = [] \<and> js_get (os_versions (fst w')) (operatorKey a v) = Some r \<and>
      js_get (os_auditEvents (fst w')) (operatorKey a v) =
        js_get (os_auditEvents s) (operatorKey a v)" for w w'
  proof (induction rule: rtranclp_induct)
    case (step w1 w2)
    obtain s1 s2 fl2 where w: "w1 = (s1, [])" "w2 = (s2, fl2)"
      using step(3,4) by (cases w1, cases w2) auto
    show ?case
      using purged_step [OF step(2) [unfolded w] _ assms(3), of "operatorKey a v"] step(3,4)
      by (simp add: w)
  qed (use assms(2) in simp)
  from this [OF assms(1)] show ?thesis
    using assms(2) by (simp add: getDiagnostics_def getAuditEvents_def)
qed

text \<open>C35. Where they are configured it is not: a reprocess that passed its guard and awaits the
  restore while the version is purged puts it back into processing when the restore answers.\<close>

theorem reprocess_revives_purged:
  fixes e :: "'e reprocess_step"
  assumes "beginReprocess cwd root a v s = (ReprocessAwait d ev :: 'e reprocess_step)"
    and "purgeVersion gen now a v actor req s =
      (s1, Inr acc :: 'e operator_error + operator_accepted)"
    and "finishReprocess gen now' a v actor' req' (Some restored) s1 = (s2, acc')"
  shows "map_option vd_lifecycleState (getDiagnostics a v s1) = Some op_purged \<and>
     map_option vd_lifecycleState (getDiagnostics a v s2) = Some op_processing \<and>
     map ae_action (getAuditEvents a v s2) =
       map ae_action (getAuditEvents a v s) @ [act_purge, act_reprocess]"
  using purge_decided [OF assms(2)] reprocess_applied [OF assms(3)]
  by (auto simp: applied_def getDiagnostics_def cloneDiagnostics_def getAuditEvents_def
      cloneAuditEvent_def)

definition example_evidence :: source_evidence where
  "example_evidence =
     \<lparr>ev_repositoryEngine = engine_xet, ev_canonicalSourceId = ''src_1'',
      ev_canonicalSnapshotId = ''snap_1'', ev_canonicalLogicalPath = ''ast_1/hero.png'',
      ev_canonicalDigestSet = [], ev_canonicalLogicalByteLength = None,
      ev_canonicalStoredByteLength = None, ev_dedupeMetrics = None,
      ev_sourceReconstructionHandles = None, ev_sourceSubstrateHints = None\<rparr>"

definition example_seed :: seed_operator_version where
  "example_seed =
     \<lparr>sv_assetId = ''ast_1'', sv_canonicalSourceEvidence = Some example_evidence,
      sv_derivativeCount = Some 2, sv_lifecycleState = op_published,
      sv_manifestType = Some ''image'', sv_sourceFilename = None, sv_versionId = ''ver_1'',
      sv_workflowId = None, sv_workflowState = ''completed''\<rparr>"

definition example_request :: operator_request where
  "example_request = \<lparr>oq_evidenceReference = None, oq_reason = ''takedown''\<rparr>"

definition example_gen :: "nat \<Rightarrow> string" where
  "example_gen n = ''op_'' @ replicate n (CHR ''x'')"

abbreviation (input) example_purge ::
  "operator_store \<Rightarrow> operator_store \<times> (unit operator_error + operator_accepted)" where
  "example_purge s \<equiv> purgeVersion example_gen 5 ''ast_1'' ''ver_1'' ''ops'' example_request s"

definition purged_example :: operator_store where
  "purged_example = fst (example_purge (newOperatorStore [example_seed]))"

lemma example_key: "operatorKey ''ast_1'' ''ver_1'' = ''ast_1:ver_1''"
  by (simp add: operatorKey_def)

lemma example_seeded:
  "js_get (os_versions (newOperatorStore [example_seed])) ''ast_1:ver_1'' =
     Some (seededVersion example_seed)"
  by (simp add: newOperatorStore_def example_seed_def operatorKey_def)

lemma example_published: "vd_lifecycleState (seededVersion example_seed) = op_published"
  by (simp add: seededVersion_def example_seed_def)

lemma example_purged:
  "\<exists>acc. example_purge (newOperatorStore [example_seed]) = (purged_example, Inr acc)"
  unfolding purged_example_def
  by (simp add: purgeVersion_def getMutableOperatorVersion_def example_key example_seeded
      example_published takeOperationId_def Let_def)

lemma example_awaits:
  "beginReprocess ''/srv'' (Some ''data'') ''ast_1'' ''ver_1'' (newOperatorStore [example_seed]) =
     (ReprocessAwait ''/srv/data/ast_1/ver_1/hero.png'' example_evidence :: unit reprocess_step)"
  by code_simp

lemma operator_audit_complete_witness:
  "\<exists>fl. operator_reachable example_gen ''/srv'' (Some ''data'') [example_seed] (purged_example, fl) \<and>
     audit_explains example_gen [example_seed] purged_example"
proof -
  have "operator_step example_gen ''/srv'' (Some ''data'') (newOperatorStore [example_seed], [])
      (purged_example, [])"
    using example_purged step_purge by blast
  then have "operator_reachable example_gen ''/srv'' (Some ''data'') [example_seed] (purged_example, [])"
    unfolding operator_reachable_def by (rule r_into_rtranclp)
  then show ?thesis using operator_audit_complete by blast
qed

lemma purge_is_final_without_replays_witness:
  "\<exists>s'. (operator_step example_gen ''/srv'' None)\<^sup>*\<^sup>* (purged_example, []) (s', []) \<and>
     getDiagnostics ''ast_1'' ''ver_1'' s' = getDiagnostics ''ast_1'' ''ver_1'' purged_example"
proof -
  obtain acc where "example_purge (newOperatorStore [example_seed]) = (purged_example, Inr acc)"
    using example_purged by blast
  then have "\<exists>r. js_get (os_versions purged_example) (operatorKey ''ast_1'' ''ver_1'') = Some r \<and>
      vd_lifecycleState r = op_purged"
    by (auto dest!: purge_decided simp: applied_def)
  then obtain r where r: "js_get (os_versions purged_example) (operatorKey ''ast_1'' ''ver_1'') = Some r"
    "vd_lifecycleState r = op_purged" by blast
  obtain s' and x :: "unit operator_error + operator_accepted" where
    s': "releaseVersion example_gen 6 ''ast_1'' ''ver_1'' ''ops'' example_request purged_example = (s', x)"
    by (cases "releaseVersion example_gen 6 ''ast_1'' ''ver_1'' ''ops'' example_request purged_example
          :: operator_store \<times> (unit operator_error + operator_accepted)")
  then have step: "(operator_step example_gen ''/srv'' None)\<^sup>*\<^sup>* (purged_example, []) (s', [])"
    by (intro r_into_rtranclp step_release)
  from purge_is_final_without_replays [OF step r] step show ?thesis by blast
qed

lemma reprocess_revives_purged_witness:
  "\<exists>s2. map_option vd_lifecycleState (getDiagnostics ''ast_1'' ''ver_1'' purged_example) = Some op_purged \<and>
     map_option vd_lifecycleState (getDiagnostics ''ast_1'' ''ver_1'' s2) = Some op_processing"
proof -
  obtain acc where p: "example_purge (newOperatorStore [example_seed]) = (purged_example, Inr acc)"
    using example_purged by blast
  obtain s2 acc' where f: "finishReprocess example_gen 7 ''ast_1'' ''ver_1'' ''ops'' example_request
      (Some \<lparr>ors_repositoryEngine = engine_xet, ors_restoredPath = ''/srv''\<rparr>) purged_example = (s2, acc')"
    by (cases "finishReprocess example_gen 7 ''ast_1'' ''ver_1'' ''ops'' example_request
      (Some \<lparr>ors_repositoryEngine = engine_xet, ors_restoredPath = ''/srv''\<rparr>) purged_example")
  from reprocess_revives_purged [OF example_awaits p f] show ?thesis by blast
qed

end
