(* ===== verification/Public_Delivery.thy ===== *)
theory Public_Delivery
  imports Source_Paths Json_Text
begin

text \<open>
  Public reads and download links: \<open>InMemoryPublicVersionReadStore\<close> of
  \<open>apps/api/src/public/delivery-service.ts\<close>. \<open>authorizeSource\<close> awaits the export of the source
  between its check of the version and the issue of a link; it is modelled as
  \<open>beginAuthorizeSource\<close>, \<open>authorizeMaterializedSource\<close> (the external calls) and
  \<open>finishAuthorizeSource\<close>. \<open>gen\<close> yields the link tokens by their number. Dates are milliseconds.
\<close>

section \<open>Data\<close>

datatype authorization_mode = mode_public | mode_signed_url

datatype resolved_origin =
  org_cdn_derived | org_origin_derived | org_source_export | org_source_proxy | org_lazy_read_cache

datatype public_state =
  plc_canonical | plc_processing | plc_published | plc_quarantined | plc_purged | plc_failed_retryable

datatype disposition = dsp_attachment | dsp_inline

datatype source_delivery_mode = sdm_proxy | sdm_materialized_export | sdm_lazy_read

record public_source =
  psrc_byteLength :: int
  psrc_contentType :: string
  psrc_filename :: string

record public_version =
  pvr_assetId :: string
  pvr_assetOwner :: string
  pvr_canonicalSourceEvidence :: "source_evidence option"
  pvr_defaultManifestType :: "string option"
  pvr_lifecycleState :: public_state
  pvr_serviceNamespaceId :: string
  pvr_source :: public_source
  pvr_tenantId :: "string option"
  pvr_versionId :: string
  pvr_versionNumber :: int
  pvr_workflowState :: string

record public_derivative =
  pdr_assetId :: string
  pdr_byteLength :: int
  pdr_contentType :: string
  pdr_deliveryScopeId :: string
  pdr_deterministicKey :: string
  pdr_derivativeId :: string
  pdr_recipeId :: string
  pdr_storageKey :: string
  pdr_variant :: string
  pdr_versionId :: string

record public_manifest =
  pmr_assetId :: string
  pmr_deliveryScopeId :: string
  pmr_manifestPayload :: json_record
  pmr_manifestType :: string
  pmr_objectKey :: string
  pmr_versionId :: string

record source_authorization =
  sau_assetId :: string
  sau_authorizationMode :: authorization_mode
  sau_expiresAt :: int
  sau_oneTime :: "bool option"
  sau_remainingUses :: "int option"
  sau_resolvedOrigin :: resolved_origin
  sau_tenantId :: "string option"
  sau_url :: string
  sau_versionId :: string

record delivery_authorization =
  dau_assetId :: string
  dau_authorizationMode :: authorization_mode
  dau_deliveryScopeId :: string
  dau_expiresAt :: int
  dau_oneTime :: "bool option"
  dau_remainingUses :: "int option"
  dau_resolvedOrigin :: resolved_origin
  dau_url :: string
  dau_versionId :: string

record authorization_request =
  arq_callerScopeKey :: string
  arq_idempotencyKey :: string
  arq_now :: int
  arq_oneTime :: "bool option"

record download_link =
  lnk_expiresAt :: int
  lnk_token :: string
  lnk_url :: string

text \<open>A seeded source authorization has no asset and version of its own.\<close>

record source_grant =
  sgr_authorizationMode :: authorization_mode
  sgr_expiresAt :: int
  sgr_resolvedOrigin :: resolved_origin
  sgr_tenantId :: "string option"
  sgr_url :: string

record seed_public_version = public_version +
  spv_deliveries :: "public_derivative list option"
  spv_manifests :: "public_manifest list option"
  spv_sourceAuthorization :: "source_grant option"

record delivery_store =
  dst_deliveryAuthorizations :: "(string, delivery_authorization) jsmap"
  dst_downloadLinks :: "(string, download_link) jsmap"
  dst_derivatives :: "(string, public_derivative list) jsmap"
  dst_manifests :: "(string, public_manifest) jsmap"
  dst_sourceAuthorizationsByRequest :: "(string, source_authorization) jsmap"
  dst_sourceAuthorizations :: "(string, source_grant) jsmap"
  dst_versions :: "(string, public_version) jsmap"
  dst_issuedTokens :: nat

datatype 'e delivery_error =
  PublicVersionNotFound string string
| PublicVersionNotReady string string public_state
| DownloadLinkNotFound string
| DeliveryDestination destination_error
| SourceReads 'e

section \<open>Copies\<close>

definition cloneVersion :: "('a) public_version_scheme \<Rightarrow> public_version" where
  "cloneVersion r =
     \<lparr>pvr_assetId = pvr_assetId r, pvr_assetOwner = pvr_assetOwner r,
      pvr_canonicalSourceEvidence =
        map_option clonePersistedCanonicalSourceEvidence (pvr_canonicalSourceEvidence r),
      pvr_defaultManifestType = keep_str (pvr_defaultManifestType r),
      pvr_lifecycleState = pvr_lifecycleState r,
      pvr_serviceNamespaceId = pvr_serviceNamespaceId r,
      pvr_source = \<lparr>psrc_byteLength = psrc_byteLength (pvr_source r),
                    psrc_contentType = psrc_contentType (pvr_source r),
                    psrc_filename = psrc_filename (pvr_source r)\<rparr>,
      pvr_tenantId = keep_str (pvr_tenantId r), pvr_versionId = pvr_versionId r,
      pvr_versionNumber = pvr_versionNumber r, pvr_workflowState = pvr_workflowState r\<rparr>"

definition clonePublicDerivative :: "public_derivative \<Rightarrow> public_derivative" where
  "clonePublicDerivative r =
     \<lparr>pdr_assetId = pdr_assetId r, pdr_byteLength = pdr_byteLength r,
      pdr_contentType = pdr_contentType r, pdr_deliveryScopeId = pdr_deliveryScopeId r,
      pdr_deterministicKey = pdr_deterministicKey r, pdr_derivativeId = pdr_derivativeId r,
      pdr_recipeId = pdr_recipeId r, pdr_storageKey = pdr_storageKey r, pdr_variant = pdr_variant r,
      pdr_versionId = pdr_versionId r\<rparr>"

definition clonePublicManifest :: "public_manifest \<Rightarrow> public_manifest" where
  "clonePublicManifest r =
     \<lparr>pmr_assetId = pmr_assetId r, pmr_deliveryScopeId = pmr_deliveryScopeId r,
      pmr_manifestPayload = pmr_manifestPayload r, pmr_manifestType = pmr_manifestType r,
      pmr_objectKey = pmr_objectKey r, pmr_versionId = pmr_versionId r\<rparr>"

text \<open>\<open>...(flag ? \<lbrace>oneTime: true\<rbrace> : \<lbrace>\<rbrace>)\<close>.\<close>

definition keep_true :: "bool option \<Rightarrow> bool option" where
  "keep_true x = (if x = Some True then Some True else None)"

definition cloneSourceAuthorization :: "source_authorization \<Rightarrow> source_authorization" where
  "cloneSourceAuthorization r =
     \<lparr>sau_assetId = sau_assetId r, sau_authorizationMode = sau_authorizationMode r,
      sau_expiresAt = sau_expiresAt r, sau_oneTime = keep_true (sau_oneTime r),
      sau_remainingUses = sau_remainingUses r, sau_resolvedOrigin = sau_resolvedOrigin r,
      sau_tenantId = keep_str (sau_tenantId r), sau_url = sau_url r,
      sau_versionId = sau_versionId r\<rparr>"

definition cloneDeliveryAuthorization :: "delivery_authorization \<Rightarrow> delivery_authorization" where
  "cloneDeliveryAuthorization r =
     \<lparr>dau_assetId = dau_assetId r, dau_authorizationMode = dau_authorizationMode r,
      dau_deliveryScopeId = dau_deliveryScopeId r, dau_expiresAt = dau_expiresAt r,
      dau_oneTime = keep_true (dau_oneTime r), dau_remainingUses = dau_remainingUses r,
      dau_resolvedOrigin = dau_resolvedOrigin r, dau_url = dau_url r,
      dau_versionId = dau_versionId r\<rparr>"

section \<open>The store\<close>

definition readKey :: "string \<Rightarrow> string \<Rightarrow> string" where
  "readKey assetId versionId = assetId @ '':'' @ versionId"

definition buildDeliveryAuthorizationKey ::
  "string \<Rightarrow> string \<Rightarrow> string \<Rightarrow> string \<Rightarrow> string \<Rightarrow> string" where
  "buildDeliveryAuthorizationKey assetId versionId deliveryScopeId variant idempotencyKey =
     ''delivery:'' @ readKey assetId versionId @ '':'' @ deliveryScopeId @ '':'' @ variant @ '':'' @
     idempotencyKey"

fun disposition_name :: "disposition option \<Rightarrow> string" where
  "disposition_name None = ''default''"
| "disposition_name (Some dsp_attachment) = ''attachment''"
| "disposition_name (Some dsp_inline) = ''inline''"

definition buildSourceAuthorizationKey ::
  "string \<Rightarrow> string \<Rightarrow> disposition option \<Rightarrow> string \<Rightarrow> string" where
  "buildSourceAuthorizationKey assetId versionId preferredDisposition idempotencyKey =
     ''source:'' @ readKey assetId versionId @ '':'' @ disposition_name preferredDisposition @ '':'' @
     idempotencyKey"

definition emptyDeliveryStore :: delivery_store where
  "emptyDeliveryStore =
     \<lparr>dst_deliveryAuthorizations = [], dst_downloadLinks = [], dst_derivatives = [],
      dst_manifests = [], dst_sourceAuthorizationsByRequest = [], dst_sourceAuthorizations = [],
      dst_versions = [], dst_issuedTokens = 0\<rparr>"

definition seedPublicVersion :: "delivery_store \<Rightarrow> seed_public_version \<Rightarrow> delivery_store" where
  "seedPublicVersion s v =
     (let key = readKey (pvr_assetId v) (pvr_versionId v) in
      s\<lparr>dst_versions := js_set key (cloneVersion v) (dst_versions s),
        dst_derivatives :=
          js_set key (map clonePublicDerivative (nullish (spv_deliveries v) [])) (dst_derivatives s),
        dst_manifests :=
          foldl (\<lambda>m manifest. js_set (key @ '':'' @ pmr_manifestType manifest)
                                (clonePublicManifest manifest) m)
            (dst_manifests s) (nullish (spv_manifests v) []),
        dst_sourceAuthorizations :=
          (case spv_sourceAuthorization v of
             None \<Rightarrow> dst_sourceAuthorizations s
           | Some a \<Rightarrow>
               js_set key \<lparr>sgr_authorizationMode = sgr_authorizationMode a,
                           sgr_expiresAt = sgr_expiresAt a,
                           sgr_resolvedOrigin = sgr_resolvedOrigin a,
                           sgr_tenantId = keep_str (sgr_tenantId a), sgr_url = sgr_url a\<rparr>
                 (dst_sourceAuthorizations s))\<rparr>)"

definition newDeliveryStore :: "seed_public_version list \<Rightarrow> delivery_store" where
  "newDeliveryStore versions = foldl seedPublicVersion emptyDeliveryStore versions"

definition getRequiredVersion ::
  "string \<Rightarrow> string \<Rightarrow> delivery_store \<Rightarrow> 'e delivery_error + public_version" where
  "getRequiredVersion assetId versionId s =
     (case js_get (dst_versions s) (readKey assetId versionId) of
        None \<Rightarrow> Inl (PublicVersionNotFound assetId versionId)
      | Some version \<Rightarrow> Inr version)"

definition assertPublished ::
  "string \<Rightarrow> string \<Rightarrow> delivery_store \<Rightarrow> 'e delivery_error + unit" where
  "assertPublished assetId versionId s =
     then_do (getRequiredVersion assetId versionId s) (\<lambda>version.
       if pvr_lifecycleState version \<noteq> plc_published
       then Inl (PublicVersionNotReady assetId versionId (pvr_lifecycleState version))
       else Inr ())"

definition getPublicVersion :: "string \<Rightarrow> string \<Rightarrow> delivery_store \<Rightarrow> public_version option" where
  "getPublicVersion assetId versionId s =
     map_option cloneVersion (js_get (dst_versions s) (readKey assetId versionId))"

definition getManifest ::
  "string \<Rightarrow> string \<Rightarrow> string \<Rightarrow> delivery_store \<Rightarrow> 'e delivery_error + public_manifest option" where
  "getManifest assetId versionId manifestType s =
     then_do (assertPublished assetId versionId s) (\<lambda>_.
       Inr (map_option clonePublicManifest
              (js_get (dst_manifests s) (readKey assetId versionId @ '':'' @ manifestType))))"

definition listDerivatives ::
  "string \<Rightarrow> string \<Rightarrow> delivery_store \<Rightarrow> 'e delivery_error + public_derivative list" where
  "listDerivatives assetId versionId s =
     then_do (assertPublished assetId versionId s) (\<lambda>_.
       Inr (map clonePublicDerivative
              (nullish (js_get (dst_derivatives s) (readKey assetId versionId)) [])))"

section \<open>Authorization\<close>

definition fifteen_minutes :: int where
  "fifteen_minutes = 15 * 60000"

definition link_url :: "string \<Rightarrow> string" where
  "link_url token = ''https://api.cdngine.local/download-links/'' @ token"

definition authorizeDelivery ::
  "(nat \<Rightarrow> string) \<Rightarrow> string \<Rightarrow> string \<Rightarrow> string \<Rightarrow> string \<Rightarrow> authorization_request \<Rightarrow> delivery_store
     \<Rightarrow> (delivery_store, 'e delivery_error, delivery_authorization) outcome" where
  "authorizeDelivery gen assetId versionId deliveryScopeId variant request s =
     (case getRequiredVersion assetId versionId s of
        Inl e \<Rightarrow> throw s e
      | Inr version \<Rightarrow>
          if pvr_lifecycleState version \<noteq> plc_published
          then throw s (PublicVersionNotReady assetId versionId (pvr_lifecycleState version))
          else
            (case List.find (\<lambda>c. pdr_deliveryScopeId c = deliveryScopeId \<and> pdr_variant c = variant)
                    (nullish (js_get (dst_derivatives s) (readKey assetId versionId)) []) of
               None \<Rightarrow> throw s (PublicVersionNotFound assetId versionId)
             | Some derivative \<Rightarrow>
                 let authorization =
                       \<lparr>dau_assetId = assetId, dau_authorizationMode = mode_signed_url,
                        dau_deliveryScopeId = deliveryScopeId,
                        dau_expiresAt = arq_now request + fifteen_minutes, dau_oneTime = None,
                        dau_remainingUses = None, dau_resolvedOrigin = org_cdn_derived,
                        dau_url = ''https://cdn.cdngine.local/'' @ deliveryScopeId @ ''/'' @
                          pdr_variant derivative,
                        dau_versionId = versionId\<rparr> in
                 if arq_oneTime request \<noteq> Some True then ok s authorization
                 else
                   (let requestKey = buildDeliveryAuthorizationKey assetId versionId deliveryScopeId
                          variant (arq_idempotencyKey request) in
                    case js_get (dst_deliveryAuthorizations s) requestKey of
                      Some existing \<Rightarrow> ok s (cloneDeliveryAuthorization existing)
                    | None \<Rightarrow>
                        let token = gen (dst_issuedTokens s);
                            oneTimeAuthorization = authorization
                              \<lparr>dau_oneTime := Some True, dau_remainingUses := Some 1,
                               dau_url := link_url token\<rparr> in
                        ok (s\<lparr>dst_issuedTokens := Suc (dst_issuedTokens s),
                              dst_downloadLinks := js_set token
                                \<lparr>lnk_expiresAt = dau_expiresAt oneTimeAuthorization,
                                 lnk_token = token, lnk_url = dau_url authorization\<rparr>
                                (dst_downloadLinks s),
                              dst_deliveryAuthorizations := js_set requestKey oneTimeAuthorization
                                (dst_deliveryAuthorizations s)\<rparr>)
                           (cloneDeliveryAuthorization oneTimeAuthorization))))"

text \<open>The part of \<open>authorizeSource\<close> before its \<open>await\<close>.\<close>

definition beginAuthorizeSource ::
  "string \<Rightarrow> string \<Rightarrow> delivery_store \<Rightarrow> 'e delivery_error + public_version" where
  "beginAuthorizeSource assetId versionId s =
     then_do (getRequiredVersion assetId versionId s) (\<lambda>version.
       if pvr_lifecycleState version = plc_quarantined \<or> pvr_lifecycleState version = plc_purged
       then Inl (PublicVersionNotReady assetId versionId (pvr_lifecycleState version))
       else Inr version)"

record export_publication =
  exp_bodyPath :: string
  exp_byteLength :: int
  exp_checksum :: "object_checksum option"
  exp_contentType :: string
  exp_objectKey :: string

text \<open>The services that \<open>sourceReads\<close> brings: the file system, the repository and the exports store.\<close>

record ('w, 'e) source_reads =
  srd_materializationRootPath :: string
  srd_sourceDeliveryMode :: source_delivery_mode
  srd_mkdir :: "string \<Rightarrow> 'w \<Rightarrow> 'w \<times> ('e + unit)"
  srd_restoreToPath :: "restore_request \<Rightarrow> 'w \<Rightarrow> 'w \<times> ('e + string)"
  srd_fileSize :: "string \<Rightarrow> 'w \<Rightarrow> 'w \<times> ('e + int)"
  srd_publishExport :: "export_publication \<Rightarrow> 'w \<Rightarrow> 'w \<times> ('e + unit)"
  srd_issueSignedReadUrl :: "string \<Rightarrow> int \<Rightarrow> 'w \<Rightarrow> 'w \<times> ('e + int \<times> string)"

definition filename_of :: "public_version \<Rightarrow> source_evidence \<Rightarrow> filename_input" where
  "filename_of version evidence =
     \<lparr>fi_sourceFilename = Some (psrc_filename (pvr_source version)),
      fi_canonicalLogicalPath = Some (ev_canonicalLogicalPath evidence),
      fi_fallbackBaseName = None\<rparr>"

definition exportObjectKey :: "public_version \<Rightarrow> string \<Rightarrow> string" where
  "exportObjectKey version fileName =
     js_join ''/'' [''source-downloads'', pvr_serviceNamespaceId version, pvr_assetId version,
       pvr_versionId version, fileName]"

text \<open>Restore, publish and sign, in this order.\<close>

definition exportSource ::
  "('w, 'e) source_reads \<Rightarrow> public_version \<Rightarrow> source_evidence \<Rightarrow> string \<Rightarrow> authorization_request \<Rightarrow> 'w
     \<Rightarrow> 'w \<times> ('e + source_authorization)" where
  "exportSource reads version evidence destinationPath request world =
     (let objectKey = exportObjectKey version
            (resolveMaterializedSourceFilename (filename_of version evidence)) in
      and_then (srd_mkdir reads (pathDirname destinationPath) world) (\<lambda>world _.
      and_then (materializeCanonicalSourceToPath (srd_restoreToPath reads) (Inl evidence)
                  destinationPath world) (\<lambda>world restoredPath.
      and_then (srd_fileSize reads restoredPath world) (\<lambda>world restoredSize.
      and_then (srd_publishExport reads
                  \<lparr>exp_bodyPath = restoredPath, exp_byteLength = restoredSize,
                   exp_checksum = (case ev_canonicalDigestSet evidence of [] \<Rightarrow> None | d # _ \<Rightarrow> Some d),
                   exp_contentType = psrc_contentType (pvr_source version),
                   exp_objectKey = objectKey\<rparr> world) (\<lambda>world _.
      and_then (srd_issueSignedReadUrl reads objectKey (arq_now request + fifteen_minutes) world)
        (\<lambda>world signed.
           ok world
             \<lparr>sau_assetId = pvr_assetId version, sau_authorizationMode = mode_signed_url,
              sau_expiresAt = fst signed, sau_oneTime = None, sau_remainingUses = None,
              sau_resolvedOrigin = org_source_export,
              sau_tenantId = keep_str (pvr_tenantId version), sau_url = snd signed,
              sau_versionId = pvr_versionId version\<rparr>))))))"

definition authorizeMaterializedSource ::
  "string \<Rightarrow> ('w, 'e) source_reads option \<Rightarrow> public_version \<Rightarrow> authorization_request \<Rightarrow> 'w
     \<Rightarrow> 'w \<times> ('e delivery_error + source_authorization option)" where
  "authorizeMaterializedSource cwd sourceReads version request world =
     (case (sourceReads, pvr_canonicalSourceEvidence version) of
        (Some reads, Some evidence) \<Rightarrow>
          if srd_sourceDeliveryMode reads \<noteq> sdm_materialized_export then ok world None
          else
            (case buildMaterializedSourcePath cwd (srd_materializationRootPath reads)
                    [pvr_assetId version, pvr_versionId version] (filename_of version evidence) of
               Inl e \<Rightarrow> throw world (DeliveryDestination e)
             | Inr destinationPath \<Rightarrow>
                 map_prod id (map_sum SourceReads Some)
                   (exportSource reads version evidence destinationPath request world))
      | _ \<Rightarrow> ok world None)"

text \<open>The part of \<open>authorizeSource\<close> after its \<open>await\<close>.\<close>

definition baseSourceAuthorization ::
  "string \<Rightarrow> string \<Rightarrow> authorization_request \<Rightarrow> source_authorization option \<Rightarrow> delivery_store
     \<Rightarrow> source_authorization" where
  "baseSourceAuthorization assetId versionId request materializedAuthorization s =
     (case materializedAuthorization of
        Some m \<Rightarrow> m
      | None \<Rightarrow>
          (case js_get (dst_sourceAuthorizations s) (readKey assetId versionId) of
             Some a \<Rightarrow>
               \<lparr>sau_assetId = assetId, sau_authorizationMode = sgr_authorizationMode a,
                sau_expiresAt = arq_now request + fifteen_minutes, sau_oneTime = None,
                sau_remainingUses = None, sau_resolvedOrigin = sgr_resolvedOrigin a,
                sau_tenantId = keep_str (sgr_tenantId a), sau_url = sgr_url a,
                sau_versionId = versionId\<rparr>
           | None \<Rightarrow>
               \<lparr>sau_assetId = assetId, sau_authorizationMode = mode_signed_url,
                sau_expiresAt = arq_now request + fifteen_minutes, sau_oneTime = None,
                sau_remainingUses = None, sau_resolvedOrigin = org_source_proxy,
                sau_tenantId = None,
                sau_url = ''https://api.cdngine.local/v1/assets/'' @ assetId @ ''/versions/'' @
                  versionId @ ''/source/proxy'',
                sau_versionId = versionId\<rparr>))"

definition finishAuthorizeSource ::
  "(nat \<Rightarrow> string) \<Rightarrow> string \<Rightarrow> string \<Rightarrow> disposition option \<Rightarrow> authorization_request
     \<Rightarrow> source_authorization option \<Rightarrow> delivery_store \<Rightarrow> delivery_store \<times> source_authorization" where
  "finishAuthorizeSource gen assetId versionId preferredDisposition request materialized s =
     (let baseAuthorization = baseSourceAuthorization assetId versionId request materialized s in
      if arq_oneTime request \<noteq> Some True then (s, baseAuthorization)
      else
        (let requestKey = buildSourceAuthorizationKey assetId versionId preferredDisposition
               (arq_idempotencyKey request) in
         case js_get (dst_sourceAuthorizationsByRequest s) requestKey of
           Some existing \<Rightarrow> (s, cloneSourceAuthorization existing)
         | None \<Rightarrow>
             let token = gen (dst_issuedTokens s);
                 oneTimeAuthorization = baseAuthorization
                   \<lparr>sau_oneTime := Some True, sau_remainingUses := Some 1,
                    sau_url := link_url token\<rparr> in
             (s\<lparr>dst_issuedTokens := Suc (dst_issuedTokens s),
                dst_downloadLinks := js_set token
                  \<lparr>lnk_expiresAt = sau_expiresAt oneTimeAuthorization, lnk_token = token,
                   lnk_url = sau_url baseAuthorization\<rparr> (dst_downloadLinks s),
                dst_sourceAuthorizationsByRequest := js_set requestKey oneTimeAuthorization
                  (dst_sourceAuthorizationsByRequest s)\<rparr>,
              cloneSourceAuthorization oneTimeAuthorization)))"

text \<open>The whole operation, run without a pause.\<close>

definition authorizeSource ::
  "(nat \<Rightarrow> string) \<Rightarrow> string \<Rightarrow> ('w, 'e) source_reads option \<Rightarrow> string \<Rightarrow> string \<Rightarrow> disposition option
     \<Rightarrow> authorization_request \<Rightarrow> delivery_store \<times> 'w
     \<Rightarrow> (delivery_store \<times> 'w) \<times> ('e delivery_error + source_authorization)" where
  "authorizeSource gen cwd sourceReads assetId versionId preferredDisposition request sw =
     (case beginAuthorizeSource assetId versionId (fst sw) of
        Inl e \<Rightarrow> throw sw e
      | Inr version \<Rightarrow>
          (case authorizeMaterializedSource cwd sourceReads version request (snd sw) of
             (world, Inl e) \<Rightarrow> throw (fst sw, world) e
           | (world, Inr materialized) \<Rightarrow>
               (case finishAuthorizeSource gen assetId versionId preferredDisposition request
                       materialized (fst sw) of
                  (s', a) \<Rightarrow> ok (s', world) a)))"

definition consumeDownloadLink ::
  "string \<Rightarrow> int \<Rightarrow> delivery_store \<Rightarrow> (delivery_store, 'e delivery_error, download_link) outcome" where
  "consumeDownloadLink token now s =
     (case js_get (dst_downloadLinks s) token of
        None \<Rightarrow> throw s (DownloadLinkNotFound token)
      | Some link \<Rightarrow>
          if lnk_expiresAt link \<le> now then throw s (DownloadLinkNotFound token)
          else
            ok (s\<lparr>dst_downloadLinks := js_delete token (dst_downloadLinks s)\<rparr>)
              \<lparr>lnk_expiresAt = lnk_expiresAt link, lnk_token = lnk_token link,
               lnk_url = lnk_url link\<rparr>)"

section \<open>Interleaved requests\<close>

text \<open>A request for a source may come back from its \<open>await\<close> in any later store.\<close>

inductive delivery_step :: "(nat \<Rightarrow> string) \<Rightarrow> delivery_store \<Rightarrow> delivery_store \<Rightarrow> bool" for gen where
  step_delivery:
    "authorizeDelivery gen a v scope variant request s =
       (s', r :: unit delivery_error + delivery_authorization) \<Longrightarrow> delivery_step gen s s'"
| step_source:
    "finishAuthorizeSource gen a v disposition request materialized s = (s', auth)
       \<Longrightarrow> delivery_step gen s s'"
| step_consume:
    "consumeDownloadLink token now s = (s', x :: unit delivery_error + download_link)
       \<Longrightarrow> delivery_step gen s s'"

text \<open>What a step may do: nothing, add one link under the next token, or remove one link.\<close>

definition link_issued :: "(nat \<Rightarrow> string) \<Rightarrow> delivery_store \<Rightarrow> delivery_store \<Rightarrow> bool" where
  "link_issued gen s s' \<longleftrightarrow>
     dst_versions s' = dst_versions s \<and> dst_derivatives s' = dst_derivatives s \<and>
     dst_issuedTokens s' = Suc (dst_issuedTokens s) \<and>
     (\<exists>link. dst_downloadLinks s' = js_set (gen (dst_issuedTokens s)) link (dst_downloadLinks s)) \<and>
     (\<forall>k d. js_get (dst_deliveryAuthorizations s) k = Some d \<longrightarrow>
        js_get (dst_deliveryAuthorizations s') k = Some d)"

definition link_removed :: "delivery_store \<Rightarrow> delivery_store \<Rightarrow> bool" where
  "link_removed s s' \<longleftrightarrow> (\<exists>t. s' = s\<lparr>dst_downloadLinks := js_delete t (dst_downloadLinks s)\<rparr>)"

lemma delivery_effect:
  assumes "authorizeDelivery gen a v scope variant request s = (s', r)"
  shows "s' = s \<or> link_issued gen s s'"
  using assms by (auto simp: authorizeDelivery_def Let_def link_issued_def split: sum.splits
      if_splits option.splits)

lemma source_effect:
  assumes "finishAuthorizeSource gen a v disposition request materialized s = (s', auth)"
  shows "s' = s \<or> link_issued gen s s'"
  using assms by (auto simp: finishAuthorizeSource_def Let_def link_issued_def
      split: if_splits option.splits)

lemma consume_effect:
  "consumeDownloadLink token now s = (s', Inl e) \<Longrightarrow> s' = s"
  "consumeDownloadLink token now s = (s', Inr link) \<Longrightarrow>
     js_get (dst_downloadLinks s) token = Some link \<and> now < lnk_expiresAt link \<and>
     s' = s\<lparr>dst_downloadLinks := js_delete token (dst_downloadLinks s)\<rparr>"
  by (auto simp: consumeDownloadLink_def split: option.splits if_splits)

lemma delivery_step_effect:
  assumes "delivery_step gen s s'"
  shows "s' = s \<or> link_issued gen s s' \<or> link_removed s s'"
  using assms
proof cases
  case (step_delivery a v scope variant request r)
  show ?thesis using delivery_effect [OF step_delivery] by blast
next
  case (step_source a v disposition request materialized auth)
  show ?thesis using source_effect [OF step_source] by blast
next
  case (step_consume token now x)
  then show ?thesis
    by (cases x) (auto simp: link_removed_def dest: consume_effect)
qed

section \<open>Links are used once\<close>

definition tokens_known :: "(nat \<Rightarrow> string) \<Rightarrow> delivery_store \<Rightarrow> bool" where
  "tokens_known gen s \<longleftrightarrow>
     (\<forall>t link. js_get (dst_downloadLinks s) t = Some link \<longrightarrow> (\<exists>n < dst_issuedTokens s. t = gen n))"

lemma tokens_known_new: "tokens_known gen (newDeliveryStore versions)"
proof -
  have "dst_downloadLinks (foldl seedPublicVersion s versions) = dst_downloadLinks s" for s
    by (induction versions arbitrary: s) (auto simp: seedPublicVersion_def Let_def)
  then show ?thesis
    by (simp add: newDeliveryStore_def tokens_known_def emptyDeliveryStore_def)
qed

lemma tokens_known_step:
  assumes "delivery_step gen s s'" "tokens_known gen s"
  shows "tokens_known gen s'" "dst_issuedTokens s \<le> dst_issuedTokens s'"
proof -
  consider "s' = s" | "link_issued gen s s'" | "link_removed s s'"
    using delivery_step_effect [OF assms(1)] by blast
  then have "tokens_known gen s' \<and> dst_issuedTokens s \<le> dst_issuedTokens s'"
  proof cases
    case 2
    then obtain link where link: "dst_issuedTokens s' = Suc (dst_issuedTokens s)"
      "dst_downloadLinks s' = js_set (gen (dst_issuedTokens s)) link (dst_downloadLinks s)"
      unfolding link_issued_def by blast
    have "\<exists>n < Suc (dst_issuedTokens s). t = gen n"
      if "js_get (dst_downloadLinks s') t = Some l" for t l
      using that assms(2) unfolding link tokens_known_def
      by (cases "t = gen (dst_issuedTokens s)") (auto intro: less_SucI)
    then show ?thesis unfolding tokens_known_def link(1) by auto
  qed (use assms(2) in \<open>auto simp: link_removed_def tokens_known_def split: if_splits\<close>)
  then show "tokens_known gen s'" "dst_issuedTokens s \<le> dst_issuedTokens s'" by auto
qed

lemma tokens_known_reachable:
  "(delivery_step gen)\<^sup>*\<^sup>* s s' \<Longrightarrow> tokens_known gen s \<Longrightarrow> tokens_known gen s'"
  by (induction rule: rtranclp_induct) (auto dest: tokens_known_step)

lemma link_stays_gone:
  assumes "inj gen" "(delivery_step gen)\<^sup>*\<^sup>* s s'" "n < dst_issuedTokens s"
    and "js_get (dst_downloadLinks s) (gen n) = None"
  shows "n < dst_issuedTokens s' \<and> js_get (dst_downloadLinks s') (gen n) = None"
  using assms(2)
proof (induction rule: rtranclp_induct)
  case (step s1 s2)
  consider "s2 = s1" | "link_issued gen s1 s2" | "link_removed s1 s2"
    using delivery_step_effect [OF step(2)] by blast
  then show ?case
  proof cases
    case 2
    moreover have "gen n \<noteq> gen (dst_issuedTokens s1)"
      using assms(1) step(3) by (auto dest: injD)
    ultimately show ?thesis using step(3) by (auto simp: link_issued_def)
  qed (use step(3) in \<open>auto simp: link_removed_def\<close>)
qed (use assms(3,4) in simp)

text \<open>C30. A download link is used at most once, before it expires: after any interleaving of requests, a
  token whose link was handed out is refused for ever, because no token is issued twice.\<close>

theorem download_link_single_use:
  assumes "inj gen" "(delivery_step gen)\<^sup>*\<^sup>* (newDeliveryStore versions) s"
    and "consumeDownloadLink token now s = (s1, Inr link :: unit delivery_error + download_link)"
    and "(delivery_step gen)\<^sup>*\<^sup>* s1 s2"
  shows "now < lnk_expiresAt link \<and>
     consumeDownloadLink token now' s2 =
       (s2, Inl (DownloadLinkNotFound token) :: 'e delivery_error + download_link)"
proof -
  have s1: "js_get (dst_downloadLinks s) token = Some link" "now < lnk_expiresAt link"
    "s1 = s\<lparr>dst_downloadLinks := js_delete token (dst_downloadLinks s)\<rparr>"
    using consume_effect(2) [OF assms(3)] by auto
  have "tokens_known gen s"
    using tokens_known_reachable [OF assms(2) tokens_known_new] .
  then obtain n where n: "n < dst_issuedTokens s" "token = gen n"
    using s1(1) unfolding tokens_known_def by blast
  have "js_get (dst_downloadLinks s2) token = None"
    using link_stays_gone [OF assms(1,4), of n] n s1(3) by simp
  then show ?thesis using s1(2) by (simp add: consumeDownloadLink_def)
qed

text \<open>Retries.\<close>

lemma grant_stays:
  assumes "(delivery_step gen)\<^sup>*\<^sup>* s s'"
  shows "dst_versions s' = dst_versions s \<and> dst_derivatives s' = dst_derivatives s \<and>
     (\<forall>k d. js_get (dst_deliveryAuthorizations s) k = Some d \<longrightarrow>
        js_get (dst_deliveryAuthorizations s') k = Some d)"
  using assms
proof (induction rule: rtranclp_induct)
  case (step s1 s2)
  then show ?case using delivery_step_effect [OF step(2)]
    by (auto simp: link_issued_def link_removed_def)
qed simp

lemma clone_one_time: "cloneDeliveryAuthorization (d\<lparr>dau_oneTime := Some True\<rparr>) = d\<lparr>dau_oneTime := Some True\<rparr>"
  by (simp add: cloneDeliveryAuthorization_def keep_true_def)

lemma one_time_recorded:
  assumes "authorizeDelivery gen a v scope variant request s = (s1, Inr d)"
    and "arq_oneTime request = Some True"
  shows "\<exists>version c e. js_get (dst_versions s1) (readKey a v) = Some version \<and>
     pvr_lifecycleState version = plc_published \<and>
     List.find (\<lambda>c. pdr_deliveryScopeId c = scope \<and> pdr_variant c = variant)
       (nullish (js_get (dst_derivatives s1) (readKey a v)) []) = Some c \<and>
     js_get (dst_deliveryAuthorizations s1)
       (buildDeliveryAuthorizationKey a v scope variant (arq_idempotencyKey request)) = Some e \<and>
     d = cloneDeliveryAuthorization e"
  using assms
  by (auto simp: authorizeDelivery_def getRequiredVersion_def Let_def
      split: sum.splits if_splits option.splits)

text \<open>A one-time delivery is granted once per idempotency key: whatever happened in between, the same
  request gets the first answer again and the store is unchanged. The caller is not part of the
  key, and the answer is the same when its link has been used or has expired.\<close>

theorem one_time_delivery_replayed:
  assumes "authorizeDelivery gen a v scope variant request s = (s1, Inr d)"
    and "arq_oneTime request = Some True" "arq_oneTime request' = Some True"
    and "arq_idempotencyKey request' = arq_idempotencyKey request"
    and "(delivery_step gen)\<^sup>*\<^sup>* s1 s2"
  shows "authorizeDelivery gen a v scope variant request' s2 = (s2, Inr d)"
proof -
  obtain version c e where "js_get (dst_versions s2) (readKey a v) = Some version"
     "pvr_lifecycleState version = plc_published"
     "List.find (\<lambda>c. pdr_deliveryScopeId c = scope \<and> pdr_variant c = variant)
       (nullish (js_get (dst_derivatives s2) (readKey a v)) []) = Some c"
     "js_get (dst_deliveryAuthorizations s2)
       (buildDeliveryAuthorizationKey a v scope variant (arq_idempotencyKey request)) = Some e"
     "d = cloneDeliveryAuthorization e"
    using one_time_recorded [OF assms(1,2)] grant_stays [OF assms(5)] by auto
  then show ?thesis
    using assms(3,4) by (simp add: authorizeDelivery_def getRequiredVersion_def Let_def)
qed

section \<open>Examples\<close>

definition example_public_version :: seed_public_version where
  "example_public_version =
     \<lparr>pvr_assetId = ''ast_1'', pvr_assetOwner = ''team'', pvr_canonicalSourceEvidence = None,
      pvr_defaultManifestType = None, pvr_lifecycleState = plc_published,
      pvr_serviceNamespaceId = ''media'',
      pvr_source = \<lparr>psrc_byteLength = 10, psrc_contentType = ''image/png'',
                    psrc_filename = ''hero.png''\<rparr>,
      pvr_tenantId = None, pvr_versionId = ''ver_1'', pvr_versionNumber = 1,
      pvr_workflowState = ''completed'',
      spv_deliveries = Some
        [\<lparr>pdr_assetId = ''ast_1'', pdr_byteLength = 5, pdr_contentType = ''image/webp'',
          pdr_deliveryScopeId = ''eu'', pdr_deterministicKey = ''k'', pdr_derivativeId = ''drv_1'',
          pdr_recipeId = ''webp'', pdr_storageKey = ''k'', pdr_variant = ''thumb'',
          pdr_versionId = ''ver_1''\<rparr>],
      spv_manifests = None, spv_sourceAuthorization = None\<rparr>"

definition example_authorization :: authorization_request where
  "example_authorization =
     \<lparr>arq_callerScopeKey = ''public:alice'', arq_idempotencyKey = ''idem-1'', arq_now = 0,
      arq_oneTime = Some True\<rparr>"

definition example_token :: "nat \<Rightarrow> string" where
  "example_token n = replicate n (CHR ''t'')"

lemma inj_example_token: "inj example_token"
  by (rule injI) (simp add: example_token_def)

abbreviation (input) example_authorize ::
  "authorization_request \<Rightarrow> delivery_store
     \<Rightarrow> delivery_store \<times> (unit delivery_error + delivery_authorization)" where
  "example_authorize request s \<equiv>
     authorizeDelivery example_token ''ast_1'' ''ver_1'' ''eu'' ''thumb'' request s"

definition authorized_example :: delivery_store where
  "authorized_example =
     fst (example_authorize example_authorization (newDeliveryStore [example_public_version]))"

definition example_link :: download_link where
  "example_link = \<lparr>lnk_expiresAt = 900000, lnk_token = [],
     lnk_url = ''https://cdn.cdngine.local/eu/thumb''\<rparr>"

lemma example_authorized:
  "example_authorize example_authorization (newDeliveryStore [example_public_version]) =
     (authorized_example,
      Inr \<lparr>dau_assetId = ''ast_1'', dau_authorizationMode = mode_signed_url,
           dau_deliveryScopeId = ''eu'', dau_expiresAt = 900000, dau_oneTime = Some True,
           dau_remainingUses = Some 1, dau_resolvedOrigin = org_cdn_derived,
           dau_url = link_url [], dau_versionId = ''ver_1''\<rparr>)"
  unfolding authorized_example_def prod_eq_iff by (rule conjI, simp, code_simp)

lemma example_consumed:
  "consumeDownloadLink [] 1 authorized_example =
     (authorized_example\<lparr>dst_downloadLinks := []\<rparr>,
      Inr example_link :: unit delivery_error + download_link)"
  unfolding authorized_example_def by code_simp

lemma example_delivery_step:
  "delivery_step example_token (newDeliveryStore [example_public_version]) authorized_example"
  by (rule step_delivery) (rule example_authorized)

lemma download_link_single_use_witness:
  "consumeDownloadLink [] 2 (authorized_example\<lparr>dst_downloadLinks := []\<rparr>) =
     (authorized_example\<lparr>dst_downloadLinks := []\<rparr>,
      Inl (DownloadLinkNotFound []) :: unit delivery_error + download_link)"
proof -
  have "(delivery_step example_token)\<^sup>*\<^sup>* (newDeliveryStore [example_public_version])
      authorized_example"
    by (rule r_into_rtranclp) (rule example_delivery_step)
  from download_link_single_use [OF inj_example_token this example_consumed rtranclp.rtrancl_refl]
  show ?thesis by blast
qed

lemma one_time_delivery_replayed_witness:
  "\<exists>d. example_authorize (example_authorization\<lparr>arq_callerScopeKey := ''public:mallory'', arq_now := 5\<rparr>)
         (authorized_example\<lparr>dst_downloadLinks := []\<rparr>) =
       (authorized_example\<lparr>dst_downloadLinks := []\<rparr>, Inr d) \<and> dau_url d = link_url []"
proof -
  have "delivery_step example_token authorized_example (authorized_example\<lparr>dst_downloadLinks := []\<rparr>)"
    by (rule step_consume) (rule example_consumed)
  then have step: "(delivery_step example_token)\<^sup>*\<^sup>* authorized_example
      (authorized_example\<lparr>dst_downloadLinks := []\<rparr>)"
    by (rule r_into_rtranclp)
  show ?thesis
    by (rule exI, rule conjI, rule one_time_delivery_replayed [OF example_authorized _ _ _ step])
       (simp_all add: example_authorization_def)
qed

end
