(* ===== verification/Durable_Delivery.thy ===== *)
theory Durable_Delivery
  imports Durable_Publication Public_Delivery Calendar
begin

text \<open>
  Public reads and download links over the registry: \<open>PrismaPublicVersionReadStore\<close> of
  \<open>packages/registry/src/prisma-public-version-read-store.ts\<close>. Its records are those of
  \<open>Public_Delivery\<close>. The rows are those of \<open>Registry_Tables\<close> with the further columns this store
  reads, and three tables it writes: idempotency records, source access grants and the audit of
  delivery authorizations. Other requests run between the reads of an operation and its writes, so
  each writing operation is modelled in two parts, before and after that point. \<open>uuid\<close> is the answer
  of \<open>randomUUID\<close>, \<open>sha256Hex\<close> the digest of a text, \<open>lc\<close> is \<open>localeCompare\<close>, and \<open>parseDate\<close> the
  time of \<open>new Date(text)\<close>.
\<close>

section \<open>Rows\<close>

record read_version_row = version_row +
  rvw_assetOwner :: string
  rvw_externalTenantId :: "string option"

record read_derivative_row = derivative_row +
  rdw_id :: string

record read_manifest_row = manifest_row +
  rmw_createdAt :: int

record read_scope_row = scope_row +
  rsw_hostname :: string
  rsw_pathPrefix :: "string option"

record idempotency_row =
  iw_apiSurface :: string
  iw_callerScopeKey :: string
  iw_operationKey :: string
  iw_idempotencyKey :: string
  iw_normalizedOperationKey :: string
  iw_normalizedRequestHash :: "string option"
  iw_responsePayload :: "json option"
  iw_isTerminal :: bool
  iw_completedAt :: "int option"

datatype row_authorization_mode =
  rmode_public | rmode_signed_url | rmode_signed_cookie | rmode_proxy_url | rmode_internal_handle

datatype authorization_family = fam_delivery | fam_source

record grant_row =
  gw_id :: string
  gw_assetVersionId :: string
  gw_authorizationMode :: row_authorization_mode
  gw_resolvedOrigin :: resolved_origin
  gw_actorScopeKey :: string
  gw_exportObjectKey :: "string option"
  gw_proxyPath :: "string option"
  gw_expiresAt :: int

record authorization_audit_row =
  aaw_id :: string
  aaw_assetVersionId :: string
  aaw_deliveryScopeId :: "string option"
  aaw_sourceAccessGrantId :: "string option"
  aaw_authorizationFamily :: authorization_family
  aaw_authorizationMode :: row_authorization_mode
  aaw_resolvedOrigin :: resolved_origin
  aaw_actorScopeKey :: string
  aaw_grantId :: "string option"
  aaw_requestMetadata :: "json option"
  aaw_grantedAt :: int
  aaw_expiresAt :: "int option"

record read_db =
  rb_versions :: "read_version_row list"
  rb_derivatives :: "read_derivative_row list"
  rb_manifests :: "read_manifest_row list"
  rb_scopes :: "read_scope_row list"
  rb_dispatches :: "dispatch_row list"
  rb_runs :: "run_row list"
  rb_idempotency :: "idempotency_row list"
  rb_grants :: "grant_row list"
  rb_audits :: "authorization_audit_row list"

definition idempotencyKeys :: "idempotency_row row_constraint" where
  "idempotencyKeys r =
     Some [iw_apiSurface r, iw_callerScopeKey r, iw_operationKey r, iw_idempotencyKey r]"

definition grantKeys :: "grant_row row_constraint" where
  "grantKeys r = Some [gw_id r]"

definition auditKeys :: "authorization_audit_row row_constraint" where
  "auditKeys r = Some [aaw_id r]"

text \<open>\<open>rn_newAudit\<close> is the identifier and the time that the database generates for a new audit row.\<close>

record read_engine =
  rn_idempotency :: "idempotency_row table_ops"
  rn_grants :: "grant_row table_ops"
  rn_audits :: "authorization_audit_row table_ops"
  rn_newAudit :: "authorization_audit_row list \<Rightarrow> string \<times> int"

definition read_laws :: "read_engine \<Rightarrow> bool" where
  "read_laws e \<longleftrightarrow>
     table_laws [idempotencyKeys] (rn_idempotency e) \<and> table_laws [grantKeys] (rn_grants e) \<and>
     table_laws [auditKeys] (rn_audits e) \<and>
     (\<forall>rows. fst (rn_newAudit e rows) \<notin> aaw_id ` set rows)"

definition read_ok :: "read_db \<Rightarrow> bool" where
  "read_ok db \<longleftrightarrow>
     satisfies [idempotencyKeys] (rb_idempotency db) \<and> satisfies [grantKeys] (rb_grants db) \<and>
     satisfies [auditKeys] (rb_audits db)"

datatype durable_read_error =
  RegistryVersionNotFound string string
| RegistryVersionNotReady string string public_state
| RegistryLinkNotFound string
| RegistryIdempotencyConflict string
| MissingReplayPayload
| MissingReplayField string
| RegistryDb db_error

section \<open>JSON values\<close>

fun toInputJsonValue :: "json \<Rightarrow> json" where
  "toInputJsonValue JNull = JStr ''null''"
| "toInputJsonValue (JStr s) = JStr s"
| "toInputJsonValue (JBool b) = JBool b"
| "toInputJsonValue (JNum i) = JNum i"
| "toInputJsonValue (JArr vs) = JArr (map toInputJsonValue vs)"
| "toInputJsonValue (JObj kvs) = JObj (map (\<lambda>(k, v). (k, toInputJsonValue v)) kvs)"

text \<open>The comparison reads the names only, so the texts of the values can be formed first.\<close>

fun stableJson :: "(string \<Rightarrow> string \<Rightarrow> int) \<Rightarrow> json \<Rightarrow> string" where
  "stableJson lc JNull = ''null''"
| "stableJson lc (JStr s) = string_text s"
| "stableJson lc (JBool b) = (if b then ''true'' else ''false'')"
| "stableJson lc (JNum i) = int_text i"
| "stableJson lc (JArr vs) = ''['' @ js_join '','' (map (stableJson lc) vs) @ '']''"
| "stableJson lc (JObj kvs) =
     ''{'' @ js_join '',''
       (map (\<lambda>(k, t). string_text k @ '':'' @ t)
         (js_sort (\<lambda>l r. lc (fst l) (fst r)) (map (\<lambda>(k, v). (k, stableJson lc v)) kvs))) @ ''}''"

definition hashAuthorizationRequest ::
  "(string \<Rightarrow> string) \<Rightarrow> (string \<Rightarrow> string \<Rightarrow> int) \<Rightarrow> json_record \<Rightarrow> string" where
  "hashAuthorizationRequest sha256Hex lc value = sha256Hex (stableJson lc (JObj value))"

section \<open>Keys and replays\<close>

definition buildDeliveryAuthorizationOperationKey :: "string \<Rightarrow> string \<Rightarrow> string \<Rightarrow> string" where
  "buildDeliveryAuthorizationOperationKey assetId versionId deliveryScopeId =
     ''delivery:authorize:'' @ assetId @ '':'' @ versionId @ '':'' @ deliveryScopeId"

definition buildSourceAuthorizationOperationKey :: "string \<Rightarrow> string \<Rightarrow> string" where
  "buildSourceAuthorizationOperationKey assetId versionId =
     ''source:authorize:'' @ assetId @ '':'' @ versionId"

fun mode_text :: "authorization_mode \<Rightarrow> string" where
  "mode_text mode_public = ''public''"
| "mode_text mode_signed_url = ''signed-url''"

fun origin_text :: "resolved_origin \<Rightarrow> string" where
  "origin_text org_cdn_derived = ''cdn-derived''"
| "origin_text org_origin_derived = ''origin-derived''"
| "origin_text org_source_export = ''source-export''"
| "origin_text org_source_proxy = ''source-proxy''"
| "origin_text org_lazy_read_cache = ''lazy-read-cache''"

text \<open>The casts of a replayed text; only texts that \<open>mode_text\<close> and \<open>origin_text\<close> wrote are read.\<close>

definition as_mode :: "string \<Rightarrow> authorization_mode" where
  "as_mode t = (if t = ''public'' then mode_public else mode_signed_url)"

definition as_origin :: "string \<Rightarrow> resolved_origin" where
  "as_origin t =
     (if t = ''cdn-derived'' then org_cdn_derived
      else if t = ''origin-derived'' then org_origin_derived
      else if t = ''source-export'' then org_source_export
      else if t = ''source-proxy'' then org_source_proxy else org_lazy_read_cache)"

definition optional_json :: "string \<Rightarrow> ('a \<Rightarrow> json) \<Rightarrow> 'a option \<Rightarrow> json_record" where
  "optional_json name f x = (case x of None \<Rightarrow> [] | Some v \<Rightarrow> [(name, f v)])"

definition deliveryResponsePayload :: "delivery_authorization \<Rightarrow> json_record" where
  "deliveryResponsePayload r =
     [(''assetId'', JStr (dau_assetId r)),
      (''authorizationMode'', JStr (mode_text (dau_authorizationMode r))),
      (''deliveryScopeId'', JStr (dau_deliveryScopeId r)),
      (''expiresAt'', JStr (toISOString (dau_expiresAt r)))] @
     optional_json ''oneTime'' JBool (dau_oneTime r) @
     optional_json ''remainingUses'' JNum (dau_remainingUses r) @
     [(''resolvedOrigin'', JStr (origin_text (dau_resolvedOrigin r))),
      (''url'', JStr (dau_url r)), (''versionId'', JStr (dau_versionId r))]"

definition sourceResponsePayload :: "source_authorization \<Rightarrow> json_record" where
  "sourceResponsePayload r =
     [(''assetId'', JStr (sau_assetId r)),
      (''authorizationMode'', JStr (mode_text (sau_authorizationMode r))),
      (''expiresAt'', JStr (toISOString (sau_expiresAt r)))] @
     optional_json ''oneTime'' JBool (sau_oneTime r) @
     optional_json ''remainingUses'' JNum (sau_remainingUses r) @
     [(''resolvedOrigin'', JStr (origin_text (sau_resolvedOrigin r)))] @
     optional_json ''tenantId'' JStr (sau_tenantId r) @
     [(''url'', JStr (sau_url r)), (''versionId'', JStr (sau_versionId r))]"

fun readReplayRecord :: "json option \<Rightarrow> json_record option" where
  "readReplayRecord (Some (JObj kvs)) = Some kvs"
| "readReplayRecord _ = None"

definition readReplayString :: "json_record \<Rightarrow> string \<Rightarrow> durable_read_error + string" where
  "readReplayString r key =
     (case js_get r key of
        Some (JStr s) \<Rightarrow> if s = [] then Inl (MissingReplayField key) else Inr s
      | _ \<Rightarrow> Inl (MissingReplayField key))"

definition readReplayBoolean :: "json_record \<Rightarrow> string \<Rightarrow> bool option" where
  "readReplayBoolean r key = (if js_get r key = Some (JBool True) then Some True else None)"

definition readReplayNumber :: "json_record \<Rightarrow> string \<Rightarrow> int option" where
  "readReplayNumber r key = (case js_get r key of Some (JNum i) \<Rightarrow> Some i | _ \<Rightarrow> None)"

definition readReplayText :: "json_record \<Rightarrow> string \<Rightarrow> string option" where
  "readReplayText r key = (case js_get r key of Some (JStr s) \<Rightarrow> Some s | _ \<Rightarrow> None)"

definition buildDeliveryAuthorizationReplay ::
  "(string \<Rightarrow> int) \<Rightarrow> json option \<Rightarrow> durable_read_error + delivery_authorization" where
  "buildDeliveryAuthorizationReplay parseDate payload =
     (case readReplayRecord payload of
        None \<Rightarrow> Inl MissingReplayPayload
      | Some r \<Rightarrow>
          then_do (readReplayString r ''assetId'') (\<lambda>assetId.
          then_do (readReplayString r ''authorizationMode'') (\<lambda>authorizationMode.
          then_do (readReplayString r ''deliveryScopeId'') (\<lambda>deliveryScopeId.
          then_do (readReplayString r ''expiresAt'') (\<lambda>expiresAt.
          then_do (readReplayString r ''resolvedOrigin'') (\<lambda>resolvedOrigin.
          then_do (readReplayString r ''url'') (\<lambda>url.
          then_do (readReplayString r ''versionId'') (\<lambda>versionId.
            Inr \<lparr>dau_assetId = assetId, dau_authorizationMode = as_mode authorizationMode,
                 dau_deliveryScopeId = deliveryScopeId, dau_expiresAt = parseDate expiresAt,
                 dau_oneTime = readReplayBoolean r ''oneTime'',
                 dau_remainingUses = readReplayNumber r ''remainingUses'',
                 dau_resolvedOrigin = as_origin resolvedOrigin, dau_url = url,
                 dau_versionId = versionId\<rparr>))))))))"

definition buildSourceAuthorizationReplay ::
  "(string \<Rightarrow> int) \<Rightarrow> json option \<Rightarrow> durable_read_error + source_authorization" where
  "buildSourceAuthorizationReplay parseDate payload =
     (case readReplayRecord payload of
        None \<Rightarrow> Inl MissingReplayPayload
      | Some r \<Rightarrow>
          then_do (readReplayString r ''assetId'') (\<lambda>assetId.
          then_do (readReplayString r ''authorizationMode'') (\<lambda>authorizationMode.
          then_do (readReplayString r ''expiresAt'') (\<lambda>expiresAt.
          then_do (readReplayString r ''resolvedOrigin'') (\<lambda>resolvedOrigin.
          then_do (readReplayString r ''url'') (\<lambda>url.
          then_do (readReplayString r ''versionId'') (\<lambda>versionId.
            Inr \<lparr>sau_assetId = assetId, sau_authorizationMode = as_mode authorizationMode,
                 sau_expiresAt = parseDate expiresAt,
                 sau_oneTime = readReplayBoolean r ''oneTime'',
                 sau_remainingUses = readReplayNumber r ''remainingUses'',
                 sau_resolvedOrigin = as_origin resolvedOrigin,
                 sau_tenantId = readReplayText r ''tenantId'', sau_url = url,
                 sau_versionId = versionId\<rparr>)))))))"

fun mapLifecycleState :: "row_state \<Rightarrow> public_state" where
  "mapLifecycleState row_canonical = plc_canonical"
| "mapLifecycleState row_published = plc_published"
| "mapLifecycleState row_quarantined = plc_quarantined"
| "mapLifecycleState row_purged = plc_purged"
| "mapLifecycleState row_failed_retryable = plc_failed_retryable"
| "mapLifecycleState row_failed_validation = plc_failed_retryable"
| "mapLifecycleState _ = plc_processing"

fun extractUrlFromMetadata :: "json option \<Rightarrow> string option" where
  "extractUrlFromMetadata (Some (JObj kvs)) =
     (case js_get kvs ''url'' of Some (JStr url) \<Rightarrow> if url = [] then None else Some url | _ \<Rightarrow> None)"
| "extractUrlFromMetadata _ = None"

section \<open>Reads\<close>

definition readEvidence :: "read_version_row \<Rightarrow> source_evidence option" where
  "readEvidence r =
     (case (keep_str (vw_canonicalSourceId r), keep_str (vw_canonicalSnapshotId r),
            keep_str (vw_canonicalLogicalPath r), vw_repositoryEngine r) of
        (Some sourceId, Some snapshotId, Some path, Some engine) \<Rightarrow>
          Some \<lparr>ev_repositoryEngine = engine, ev_canonicalSourceId = sourceId,
                ev_canonicalSnapshotId = snapshotId, ev_canonicalLogicalPath = path,
                ev_canonicalDigestSet = nullish (vw_canonicalDigestSet r) [],
                ev_canonicalLogicalByteLength = vw_canonicalLogicalByteLength r,
                ev_canonicalStoredByteLength = vw_canonicalStoredByteLength r,
                ev_dedupeMetrics = vw_dedupeMetrics r,
                ev_sourceReconstructionHandles = vw_sourceReconstructionHandles r,
                ev_sourceSubstrateHints = vw_sourceSubstrateHints r\<rparr>
      | _ \<Rightarrow> None)"

fun dispatch_text :: "dispatch_state \<Rightarrow> string" where
  "dispatch_text disp_pending = ''pending''"
| "dispatch_text disp_starting = ''starting''"
| "dispatch_text disp_started = ''started''"
| "dispatch_text disp_duplicate = ''duplicate''"
| "dispatch_text disp_failed_retryable = ''failed_retryable''"
| "dispatch_text disp_failed_terminal = ''failed_terminal''"

fun run_text :: "run_state \<Rightarrow> string" where
  "run_text run_queued = ''queued''"
| "run_text run_running = ''running''"
| "run_text run_waiting = ''waiting''"
| "run_text run_cancelled = ''cancelled''"
| "run_text run_failed = ''failed''"
| "run_text run_completed = ''completed''"

text \<open>\<open>orderBy\<close> and \<open>take: 1\<close>: the first row in the order of an integer column.\<close>

definition first_by :: "('r \<Rightarrow> int) \<Rightarrow> 'r list \<Rightarrow> 'r option" where
  "first_by f rows = (case js_sort (\<lambda>a b. f a - f b) rows of [] \<Rightarrow> None | r # _ \<Rightarrow> Some r)"

definition readVersion :: "string \<Rightarrow> string \<Rightarrow> read_db \<Rightarrow> public_version option" where
  "readVersion assetId versionId db =
     map_option (\<lambda>r.
       \<lparr>pvr_assetId = assetId, pvr_assetOwner = rvw_assetOwner r,
        pvr_canonicalSourceEvidence = readEvidence r,
        pvr_defaultManifestType =
          map_option mw_manifestType
            (first_by rmw_createdAt
              (filter (\<lambda>m. mw_assetVersionId m = versionId) (rb_manifests db))),
        pvr_lifecycleState = mapLifecycleState (vw_lifecycleState r),
        pvr_serviceNamespaceId = vw_serviceNamespaceId r,
        pvr_source = \<lparr>psrc_byteLength = vw_sourceByteLength r,
                      psrc_contentType = vw_detectedContentType r,
                      psrc_filename = vw_sourceFilename r\<rparr>,
        pvr_tenantId = rvw_externalTenantId r, pvr_versionId = versionId,
        pvr_versionNumber = vw_versionNumber r,
        pvr_workflowState =
          nullish
            (or_else
              (map_option (run_text \<circ> r_state)
                (first_by (\<lambda>x. - r_createdAt x)
                  (filter (\<lambda>x. r_assetVersionId x = versionId) (rb_runs db))))
              (map_option (dispatch_text \<circ> d_dispatchState)
                (first_by (\<lambda>x. - d_createdAt x)
                  (filter (\<lambda>x. d_assetVersionId x = versionId) (rb_dispatches db)))))
            ''pending''\<rparr>)
       (List.find (\<lambda>r. vw_assetId r = assetId \<and> vw_id r = versionId) (rb_versions db))"

definition readRequiredVersion ::
  "string \<Rightarrow> string \<Rightarrow> read_db \<Rightarrow> durable_read_error + public_version" where
  "readRequiredVersion assetId versionId db =
     (case readVersion assetId versionId db of
        None \<Rightarrow> Inl (RegistryVersionNotFound assetId versionId)
      | Some version \<Rightarrow> Inr version)"

definition assertVersionPublished ::
  "string \<Rightarrow> string \<Rightarrow> read_db \<Rightarrow> durable_read_error + unit" where
  "assertVersionPublished assetId versionId db =
     then_do (readRequiredVersion assetId versionId db) (\<lambda>version.
       if pvr_lifecycleState version \<noteq> plc_published
       then Inl (RegistryVersionNotReady assetId versionId (pvr_lifecycleState version))
       else Inr ())"

definition version_of_asset :: "read_db \<Rightarrow> string \<Rightarrow> string \<Rightarrow> bool" where
  "version_of_asset db assetId versionId \<longleftrightarrow>
     list_ex (\<lambda>r. vw_id r = versionId \<and> vw_assetId r = assetId) (rb_versions db)"

definition readPublicManifest ::
  "string \<Rightarrow> string \<Rightarrow> string \<Rightarrow> read_db \<Rightarrow> durable_read_error + public_manifest option" where
  "readPublicManifest assetId versionId manifestType db =
     then_do (assertVersionPublished assetId versionId db) (\<lambda>_.
       Inr (map_option (\<lambda>m.
              \<lparr>pmr_assetId = assetId, pmr_deliveryScopeId = mw_deliveryScopeId m,
               pmr_manifestPayload =
                 (case mw_manifestPayload m of JObj kvs \<Rightarrow> kvs | _ \<Rightarrow> []),
               pmr_manifestType = mw_manifestType m, pmr_objectKey = mw_objectKey m,
               pmr_versionId = versionId\<rparr>)
         (List.find (\<lambda>m. mw_assetVersionId m = versionId \<and> mw_manifestType m = manifestType \<and>
              version_of_asset db assetId versionId) (rb_manifests db))))"

definition readDerivatives ::
  "(string \<Rightarrow> string \<Rightarrow> int) \<Rightarrow> string \<Rightarrow> string \<Rightarrow> read_db
     \<Rightarrow> durable_read_error + public_derivative list" where
  "readDerivatives dbOrder assetId versionId db =
     then_do (assertVersionPublished assetId versionId db) (\<lambda>_.
       Inr (map (\<lambda>d.
              \<lparr>pdr_assetId = assetId, pdr_byteLength = dw_byteLength d,
               pdr_contentType = dw_contentType d, pdr_deliveryScopeId = dw_deliveryScopeId d,
               pdr_deterministicKey = dw_deterministicKey d, pdr_derivativeId = rdw_id d,
               pdr_recipeId = dw_recipeId d, pdr_storageKey = nullish (dw_storageKey d) [],
               pdr_variant = dw_variantKey d, pdr_versionId = versionId\<rparr>)
         (js_sort (\<lambda>a b. dbOrder (dw_deterministicKey a) (dw_deterministicKey b))
           (filter (\<lambda>d. dw_assetVersionId d = versionId \<and> version_of_asset db assetId versionId)
             (rb_derivatives db)))))"

definition strip_leading :: "string \<Rightarrow> string" where
  "strip_leading s = dropWhile (\<lambda>c. c = CHR 0x2F) s"

definition strip_both :: "string \<Rightarrow> string" where
  "strip_both s = rev (strip_leading (rev (strip_leading s)))"

definition buildDeliveryUrl :: "read_scope_row \<Rightarrow> string option \<Rightarrow> string" where
  "buildDeliveryUrl scope storageKey =
     (let normalizedPrefix =
            (case keep_str (rsw_pathPrefix scope) of
               None \<Rightarrow> []
             | Some pathPrefix \<Rightarrow> ''/'' @ strip_both pathPrefix) in
      ''https://'' @ rsw_hostname scope @ normalizedPrefix @ ''/'' @
      strip_leading (nullish storageKey []))"

section \<open>Idempotency\<close>

record idempotency_lookup =
  il_callerScopeKey :: string
  il_idempotencyKey :: string
  il_normalizedRequestHash :: string
  il_operationKey :: string

definition loadReplay ::
  "(json option \<Rightarrow> durable_read_error + 'a) \<Rightarrow> idempotency_lookup \<Rightarrow> read_db
     \<Rightarrow> durable_read_error + 'a option" where
  "loadReplay build inp db =
     (case row_at idempotencyKeys (rb_idempotency db)
             [''public'', il_callerScopeKey inp, il_operationKey inp, il_idempotencyKey inp] of
        None \<Rightarrow> Inr None
      | Some replayRecord \<Rightarrow>
          if iw_normalizedRequestHash replayRecord \<noteq> Some (il_normalizedRequestHash inp)
          then Inl (RegistryIdempotencyConflict (il_idempotencyKey inp))
          else map_sum id Some (build (iw_responsePayload replayRecord)))"

definition loadDeliveryAuthorizationReplay where
  "loadDeliveryAuthorizationReplay parseDate = loadReplay (buildDeliveryAuthorizationReplay parseDate)"

definition loadSourceAuthorizationReplay where
  "loadSourceAuthorizationReplay parseDate = loadReplay (buildSourceAuthorizationReplay parseDate)"

definition onIdempotency where
  "onIdempotency f db =
     (case f (rb_idempotency db) of
        Inl x \<Rightarrow> throw db (RegistryDb x) | Inr rows \<Rightarrow> ok (db\<lparr>rb_idempotency := rows\<rparr>) ())"

definition onGrants where
  "onGrants f db =
     (case f (rb_grants db) of
        Inl x \<Rightarrow> throw db (RegistryDb x) | Inr rows \<Rightarrow> ok (db\<lparr>rb_grants := rows\<rparr>) ())"

definition onAuthorizationAudits where
  "onAuthorizationAudits f db =
     (case f (rb_audits db) of
        Inl x \<Rightarrow> throw db (RegistryDb x) | Inr rows \<Rightarrow> ok (db\<lparr>rb_audits := rows\<rparr>) ())"

definition persistAuthorizationIdempotencyRecord ::
  "read_engine \<Rightarrow> idempotency_lookup \<Rightarrow> string \<Rightarrow> int \<Rightarrow> json_record \<Rightarrow> read_db
     \<Rightarrow> (read_db, durable_read_error, unit) outcome" where
  "persistAuthorizationIdempotencyRecord e inp normalizedOperationKey completedAt responsePayload =
     onIdempotency (to_create (rn_idempotency e)
       \<lparr>iw_apiSurface = ''public'', iw_callerScopeKey = il_callerScopeKey inp,
        iw_operationKey = il_operationKey inp, iw_idempotencyKey = il_idempotencyKey inp,
        iw_normalizedOperationKey = normalizedOperationKey,
        iw_normalizedRequestHash = Some (il_normalizedRequestHash inp),
        iw_responsePayload = Some (toInputJsonValue (JObj responsePayload)),
        iw_isTerminal = True, iw_completedAt = Some completedAt\<rparr>)"

definition one_time :: "authorization_request \<Rightarrow> bool" where
  "one_time request \<longleftrightarrow> arq_oneTime request = Some True"

definition one_time_suffix :: "authorization_request \<Rightarrow> string" where
  "one_time_suffix request = (if one_time request then ''one-time'' else ''reusable'')"

section \<open>Authorization of a delivery\<close>

definition deliveryLookup ::
  "(string \<Rightarrow> string) \<Rightarrow> (string \<Rightarrow> string \<Rightarrow> int) \<Rightarrow> string \<Rightarrow> string \<Rightarrow> string \<Rightarrow> string
     \<Rightarrow> authorization_request \<Rightarrow> idempotency_lookup" where
  "deliveryLookup sha256Hex lc assetId versionId deliveryScopeId variant request =
     \<lparr>il_callerScopeKey = arq_callerScopeKey request,
      il_idempotencyKey = arq_idempotencyKey request,
      il_normalizedRequestHash = hashAuthorizationRequest sha256Hex lc
        [(''assetId'', JStr assetId), (''authorizationFamily'', JStr ''delivery''),
         (''deliveryScopeId'', JStr deliveryScopeId), (''oneTime'', JBool (one_time request)),
         (''variant'', JStr variant), (''versionId'', JStr versionId)],
      il_operationKey = buildDeliveryAuthorizationOperationKey assetId versionId deliveryScopeId\<rparr>"

definition normalizedDeliveryOperation ::
  "string \<Rightarrow> string \<Rightarrow> string \<Rightarrow> string \<Rightarrow> authorization_request \<Rightarrow> string" where
  "normalizedDeliveryOperation assetId versionId deliveryScopeId variant request =
     buildDeliveryAuthorizationOperationKey assetId versionId deliveryScopeId @ '':'' @ variant @
     '':'' @ one_time_suffix request"

text \<open>The published derivative, with the delivery scope its foreign key names.\<close>

definition findPublishedDerivative ::
  "string \<Rightarrow> string \<Rightarrow> string \<Rightarrow> string \<Rightarrow> read_db \<Rightarrow> (read_derivative_row \<times> read_scope_row) option" where
  "findPublishedDerivative assetId versionId deliveryScopeId variant db =
     Option.bind
       (List.find (\<lambda>d. dw_assetVersionId d = versionId \<and>
            list_ex (\<lambda>r. vw_id r = versionId \<and> vw_assetId r = assetId \<and>
              vw_lifecycleState r = row_published) (rb_versions db) \<and>
            dw_deliveryScopeId d = deliveryScopeId \<and> dw_variantKey d = variant) (rb_derivatives db))
       (\<lambda>d. map_option (\<lambda>scope. (d, scope))
          (List.find (\<lambda>scope. sw_id scope = dw_deliveryScopeId d) (rb_scopes db)))"

text \<open>Before the writes: a replayed answer (\<open>Inl\<close>), or the direct URL to grant (\<open>Inr\<close>).\<close>

definition beginDurableDelivery ::
  "(string \<Rightarrow> string) \<Rightarrow> (string \<Rightarrow> string \<Rightarrow> int) \<Rightarrow> (string \<Rightarrow> int) \<Rightarrow> string \<Rightarrow> string \<Rightarrow> string \<Rightarrow> string
     \<Rightarrow> authorization_request \<Rightarrow> read_db \<Rightarrow> durable_read_error + delivery_authorization + string" where
  "beginDurableDelivery sha256Hex lc parseDate assetId versionId deliveryScopeId variant request db =
     then_do (loadDeliveryAuthorizationReplay parseDate
         (deliveryLookup sha256Hex lc assetId versionId deliveryScopeId variant request) db)
       (\<lambda>replay.
          case replay of
            Some r \<Rightarrow> Inr (Inl r)
          | None \<Rightarrow>
              (case findPublishedDerivative assetId versionId deliveryScopeId variant db of
                 None \<Rightarrow>
                   then_do (assertVersionPublished assetId versionId db)
                     (\<lambda>_. Inl (RegistryVersionNotFound assetId versionId))
               | Some (derivative, scope) \<Rightarrow>
                   Inr (Inr (buildDeliveryUrl scope (dw_storageKey derivative)))))"

definition issuedDelivery ::
  "string \<Rightarrow> string \<Rightarrow> string \<Rightarrow> authorization_request \<Rightarrow> string \<Rightarrow> string \<Rightarrow> delivery_authorization" where
  "issuedDelivery assetId versionId deliveryScopeId request uuid directUrl =
     \<lparr>dau_assetId = assetId, dau_authorizationMode = mode_signed_url,
      dau_deliveryScopeId = deliveryScopeId, dau_expiresAt = arq_now request + fifteen_minutes,
      dau_oneTime = (if one_time request then Some True else None),
      dau_remainingUses = (if one_time request then Some 1 else None),
      dau_resolvedOrigin = org_cdn_derived,
      dau_url = (if one_time request then ''/download-links/'' @ uuid else directUrl),
      dau_versionId = versionId\<rparr>"

definition deliveryAudit ::
  "read_engine \<Rightarrow> string \<Rightarrow> string \<Rightarrow> string \<Rightarrow> authorization_request \<Rightarrow> string \<Rightarrow> string \<Rightarrow> read_db
     \<Rightarrow> authorization_audit_row" where
  "deliveryAudit e versionId deliveryScopeId variant request uuid directUrl db =
     \<lparr>aaw_id = fst (rn_newAudit e (rb_audits db)), aaw_assetVersionId = versionId,
      aaw_deliveryScopeId = Some deliveryScopeId, aaw_sourceAccessGrantId = None,
      aaw_authorizationFamily = fam_delivery, aaw_authorizationMode = rmode_signed_url,
      aaw_resolvedOrigin = org_cdn_derived, aaw_actorScopeKey = arq_callerScopeKey request,
      aaw_grantId = (if one_time request then Some uuid else None),
      aaw_requestMetadata = Some (toInputJsonValue (JObj
        [(''idempotencyKey'', JStr (arq_idempotencyKey request)),
         (''oneTime'', JBool (nullish (arq_oneTime request) False)),
         (''url'', JStr directUrl), (''variant'', JStr variant)])),
      aaw_grantedAt = snd (rn_newAudit e (rb_audits db)),
      aaw_expiresAt = Some (arq_now request + fifteen_minutes)\<rparr>"

text \<open>The catch of a unique violation reads the answer of the request that came first.\<close>

definition replayOnConflict ::
  "(read_db \<Rightarrow> durable_read_error + 'a option) \<Rightarrow> 'a \<Rightarrow> (read_db, durable_read_error, unit) outcome
     \<Rightarrow> (read_db, durable_read_error, 'a) outcome" where
  "replayOnConflict load authorization result =
     (case result of
        (db', Inr _) \<Rightarrow> ok db' authorization
      | (db', Inl x) \<Rightarrow>
          if x = RegistryDb UniqueViolation
          then (case load db' of
                  Inl y \<Rightarrow> throw db' y
                | Inr (Some concurrentReplay) \<Rightarrow> ok db' concurrentReplay
                | Inr None \<Rightarrow> throw db' x)
          else throw db' x)"

definition finishDurableDelivery ::
  "((read_db \<Rightarrow> (read_db, durable_read_error, unit) outcome) \<Rightarrow> read_db
      \<Rightarrow> (read_db, durable_read_error, unit) outcome) \<Rightarrow> read_engine
     \<Rightarrow> (string \<Rightarrow> string) \<Rightarrow> (string \<Rightarrow> string \<Rightarrow> int) \<Rightarrow> (string \<Rightarrow> int) \<Rightarrow> string \<Rightarrow> string \<Rightarrow> string \<Rightarrow> string
     \<Rightarrow> authorization_request \<Rightarrow> string \<Rightarrow> string \<Rightarrow> read_db
     \<Rightarrow> (read_db, durable_read_error, delivery_authorization) outcome" where
  "finishDurableDelivery tx e sha256Hex lc parseDate assetId versionId deliveryScopeId variant request
       uuid directUrl db =
     (let inp = deliveryLookup sha256Hex lc assetId versionId deliveryScopeId variant request;
          authorization = issuedDelivery assetId versionId deliveryScopeId request uuid directUrl in
      replayOnConflict (loadDeliveryAuthorizationReplay parseDate inp) authorization
        (tx (\<lambda>db.
           and_then
             (onAuthorizationAudits
               (to_create (rn_audits e)
                 (deliveryAudit e versionId deliveryScopeId variant request uuid directUrl db)) db)
             (\<lambda>db _.
                persistAuthorizationIdempotencyRecord e inp
                  (normalizedDeliveryOperation assetId versionId deliveryScopeId variant request)
                  (arq_now request) (deliveryResponsePayload authorization) db))
          db))"

definition durableAuthorizeDelivery where
  "durableAuthorizeDelivery tx e sha256Hex lc parseDate assetId versionId deliveryScopeId variant
       request uuid db =
     (case beginDurableDelivery sha256Hex lc parseDate assetId versionId deliveryScopeId variant
             request db of
        Inl x \<Rightarrow> throw db x
      | Inr (Inl replay) \<Rightarrow> ok db replay
      | Inr (Inr directUrl) \<Rightarrow>
          finishDurableDelivery tx e sha256Hex lc parseDate assetId versionId deliveryScopeId variant
            request uuid directUrl db)"

section \<open>Authorization of a source\<close>

definition sourceLookup ::
  "(string \<Rightarrow> string) \<Rightarrow> (string \<Rightarrow> string \<Rightarrow> int) \<Rightarrow> string \<Rightarrow> string \<Rightarrow> disposition option
     \<Rightarrow> authorization_request \<Rightarrow> idempotency_lookup" where
  "sourceLookup sha256Hex lc assetId versionId preferredDisposition request =
     \<lparr>il_callerScopeKey = arq_callerScopeKey request,
      il_idempotencyKey = arq_idempotencyKey request,
      il_normalizedRequestHash = hashAuthorizationRequest sha256Hex lc
        [(''assetId'', JStr assetId), (''authorizationFamily'', JStr ''source''),
         (''oneTime'', JBool (one_time request)),
         (''preferredDisposition'', JStr (disposition_name preferredDisposition)),
         (''versionId'', JStr versionId)],
      il_operationKey = buildSourceAuthorizationOperationKey assetId versionId\<rparr>"

definition normalizedSourceOperation ::
  "string \<Rightarrow> string \<Rightarrow> disposition option \<Rightarrow> authorization_request \<Rightarrow> string" where
  "normalizedSourceOperation assetId versionId preferredDisposition request =
     buildSourceAuthorizationOperationKey assetId versionId @ '':'' @
     disposition_name preferredDisposition @ '':'' @ one_time_suffix request"

definition beginDurableSource ::
  "(string \<Rightarrow> string) \<Rightarrow> (string \<Rightarrow> string \<Rightarrow> int) \<Rightarrow> (string \<Rightarrow> int) \<Rightarrow> string \<Rightarrow> string \<Rightarrow> disposition option
     \<Rightarrow> authorization_request \<Rightarrow> read_db
     \<Rightarrow> durable_read_error + source_authorization + public_version" where
  "beginDurableSource sha256Hex lc parseDate assetId versionId preferredDisposition request db =
     then_do (loadSourceAuthorizationReplay parseDate
         (sourceLookup sha256Hex lc assetId versionId preferredDisposition request) db)
       (\<lambda>replay.
          case replay of
            Some r \<Rightarrow> Inr (Inl r)
          | None \<Rightarrow>
              then_do (readRequiredVersion assetId versionId db) (\<lambda>version.
                if pvr_lifecycleState version = plc_quarantined \<or>
                   pvr_lifecycleState version = plc_purged
                then Inl (RegistryVersionNotReady assetId versionId (pvr_lifecycleState version))
                else Inr (Inr version)))"

definition sourceProxyPath :: "string \<Rightarrow> string \<Rightarrow> string \<Rightarrow> disposition option \<Rightarrow> string" where
  "sourceProxyPath assetId versionId grantId preferredDisposition =
     ''/v1/assets/'' @ assetId @ ''/versions/'' @ versionId @ ''/source/proxy?grantId='' @ grantId @
     (case preferredDisposition of
        None \<Rightarrow> [] | Some d \<Rightarrow> ''&disposition='' @ disposition_name (Some d))"

definition issuedSource ::
  "string \<Rightarrow> string \<Rightarrow> disposition option \<Rightarrow> authorization_request \<Rightarrow> string \<Rightarrow> public_version
     \<Rightarrow> source_authorization" where
  "issuedSource assetId versionId preferredDisposition request grantId version =
     \<lparr>sau_assetId = assetId, sau_authorizationMode = mode_signed_url,
      sau_expiresAt = arq_now request + fifteen_minutes,
      sau_oneTime = (if one_time request then Some True else None),
      sau_remainingUses = (if one_time request then Some 1 else None),
      sau_resolvedOrigin = org_source_proxy, sau_tenantId = keep_str (pvr_tenantId version),
      sau_url = (if one_time request then ''/download-links/'' @ grantId
                 else sourceProxyPath assetId versionId grantId preferredDisposition),
      sau_versionId = versionId\<rparr>"

definition sourceGrantRow ::
  "string \<Rightarrow> string \<Rightarrow> disposition option \<Rightarrow> authorization_request \<Rightarrow> string \<Rightarrow> grant_row" where
  "sourceGrantRow assetId versionId preferredDisposition request grantId =
     \<lparr>gw_id = grantId, gw_assetVersionId = versionId, gw_authorizationMode = rmode_proxy_url,
      gw_resolvedOrigin = org_source_proxy, gw_actorScopeKey = arq_callerScopeKey request,
      gw_exportObjectKey = None,
      gw_proxyPath = Some (sourceProxyPath assetId versionId grantId preferredDisposition),
      gw_expiresAt = arq_now request + fifteen_minutes\<rparr>"

definition sourceAudit ::
  "read_engine \<Rightarrow> string \<Rightarrow> disposition option \<Rightarrow> authorization_request \<Rightarrow> string \<Rightarrow> string \<Rightarrow> read_db
     \<Rightarrow> authorization_audit_row" where
  "sourceAudit e versionId preferredDisposition request grantId url db =
     \<lparr>aaw_id = fst (rn_newAudit e (rb_audits db)), aaw_assetVersionId = versionId,
      aaw_deliveryScopeId = None, aaw_sourceAccessGrantId = Some grantId,
      aaw_authorizationFamily = fam_source, aaw_authorizationMode = rmode_proxy_url,
      aaw_resolvedOrigin = org_source_proxy, aaw_actorScopeKey = arq_callerScopeKey request,
      aaw_grantId = Some grantId,
      aaw_requestMetadata = Some (toInputJsonValue (JObj
        [(''idempotencyKey'', JStr (arq_idempotencyKey request)),
         (''preferredDisposition'', JStr (disposition_name preferredDisposition)),
         (''url'', JStr url)])),
      aaw_grantedAt = snd (rn_newAudit e (rb_audits db)),
      aaw_expiresAt = Some (arq_now request + fifteen_minutes)\<rparr>"

definition finishDurableSource ::
  "((read_db \<Rightarrow> (read_db, durable_read_error, unit) outcome) \<Rightarrow> read_db
      \<Rightarrow> (read_db, durable_read_error, unit) outcome) \<Rightarrow> read_engine
     \<Rightarrow> (string \<Rightarrow> string) \<Rightarrow> (string \<Rightarrow> string \<Rightarrow> int) \<Rightarrow> (string \<Rightarrow> int) \<Rightarrow> string \<Rightarrow> string
     \<Rightarrow> disposition option \<Rightarrow> authorization_request \<Rightarrow> string \<Rightarrow> public_version \<Rightarrow> read_db
     \<Rightarrow> (read_db, durable_read_error, source_authorization) outcome" where
  "finishDurableSource tx e sha256Hex lc parseDate assetId versionId preferredDisposition request
       grantId version db =
     (let inp = sourceLookup sha256Hex lc assetId versionId preferredDisposition request;
          authorization = issuedSource assetId versionId preferredDisposition request grantId version in
      replayOnConflict (loadSourceAuthorizationReplay parseDate inp) authorization
        (tx (\<lambda>db.
           and_then
             (onGrants (to_create (rn_grants e)
               (sourceGrantRow assetId versionId preferredDisposition request grantId)) db)
             (\<lambda>db _. and_then
               (onAuthorizationAudits (to_create (rn_audits e)
                 (sourceAudit e versionId preferredDisposition request grantId
                    (sau_url authorization) db)) db)
               (\<lambda>db _.
                  persistAuthorizationIdempotencyRecord e inp
                    (normalizedSourceOperation assetId versionId preferredDisposition request)
                    (arq_now request) (sourceResponsePayload authorization) db)))
          db))"

definition durableAuthorizeSource where
  "durableAuthorizeSource tx e sha256Hex lc parseDate assetId versionId preferredDisposition request
       grantId db =
     (case beginDurableSource sha256Hex lc parseDate assetId versionId preferredDisposition request db of
        Inl x \<Rightarrow> throw db x
      | Inr (Inl replay) \<Rightarrow> ok db replay
      | Inr (Inr version) \<Rightarrow>
          finishDurableSource tx e sha256Hex lc parseDate assetId versionId preferredDisposition
            request grantId version db)"

section \<open>Use of a link\<close>

datatype consumption =
  ConsumeGrant grant_row
| ConsumeAudit authorization_audit_row int string

text \<open>The reads of \<open>consumeDownloadLink\<close>, and the write that ends it; they are no transaction.\<close>

definition findDownloadLink :: "string \<Rightarrow> int \<Rightarrow> read_db \<Rightarrow> durable_read_error + consumption" where
  "findDownloadLink token now db =
     (case List.find (\<lambda>g. now < gw_expiresAt g \<and> gw_id g = token) (rb_grants db) of
        Some sourceGrant \<Rightarrow> Inr (ConsumeGrant sourceGrant)
      | None \<Rightarrow>
          (case first_by (\<lambda>a. - aaw_grantedAt a)
                  (filter (\<lambda>a. (case aaw_expiresAt a of None \<Rightarrow> False | Some t \<Rightarrow> now < t) \<and>
                     aaw_grantId a = Some token) (rb_audits db)) of
             None \<Rightarrow> Inl (RegistryLinkNotFound token)
           | Some deliveryGrant \<Rightarrow>
               (case (aaw_expiresAt deliveryGrant,
                      extractUrlFromMetadata (aaw_requestMetadata deliveryGrant)) of
                  (Some expiresAt, Some url) \<Rightarrow> Inr (ConsumeAudit deliveryGrant expiresAt url)
                | _ \<Rightarrow> Inl (RegistryLinkNotFound token))))"

definition metadata_record :: "json option \<Rightarrow> json_record" where
  "metadata_record m = (case m of Some (JObj kvs) \<Rightarrow> kvs | _ \<Rightarrow> [])"

definition consumedMetadata :: "json option \<Rightarrow> int \<Rightarrow> string \<Rightarrow> json" where
  "consumedMetadata m now url =
     toInputJsonValue (JObj (js_set ''url'' (JStr url)
       (js_set ''consumedAt'' (JStr (toISOString now)) (metadata_record m))))"

definition applyConsumption ::
  "read_engine \<Rightarrow> string \<Rightarrow> int \<Rightarrow> consumption \<Rightarrow> read_db
     \<Rightarrow> (read_db, durable_read_error, download_link) outcome" where
  "applyConsumption e token now c db =
     (case c of
        ConsumeGrant g \<Rightarrow>
          and_then
            (onGrants (to_update (rn_grants e) (\<lambda>r. gw_id r = gw_id g)
               (\<lambda>r. r\<lparr>gw_expiresAt := now\<rparr>)) db)
            (\<lambda>db _. ok db
               \<lparr>lnk_expiresAt = gw_expiresAt g, lnk_token = token,
                lnk_url = nullish (or_else (gw_proxyPath g) (gw_exportObjectKey g))
                  (''/v1/assets/'' @ gw_assetVersionId g @ ''/source'')\<rparr>)
      | ConsumeAudit a expiresAt url \<Rightarrow>
          and_then
            (onAuthorizationAudits (to_update (rn_audits e) (\<lambda>r. aaw_id r = aaw_id a)
               (\<lambda>r. r\<lparr>aaw_expiresAt := Some now,
                       aaw_requestMetadata :=
                         Some (consumedMetadata (aaw_requestMetadata a) now url)\<rparr>)) db)
            (\<lambda>db _. ok db \<lparr>lnk_expiresAt = expiresAt, lnk_token = token, lnk_url = url\<rparr>))"

definition durableConsumeDownloadLink ::
  "read_engine \<Rightarrow> string \<Rightarrow> int \<Rightarrow> read_db \<Rightarrow> (read_db, durable_read_error, download_link) outcome" where
  "durableConsumeDownloadLink e token now db =
     (case findDownloadLink token now db of
        Inl x \<Rightarrow> throw db x
      | Inr c \<Rightarrow> applyConsumption e token now c db)"

end
