(* ===== verification/Durable_Links.thy ===== *)
theory Durable_Links
  imports Durable_Delivery
begin

text \<open>
  What the public read store over the registry guarantees, and where its one-time links fail:
  concurrent requests for one delivery share one grant, but a source link works twice, and two
  consumers that read before either writes are both served.
\<close>

section \<open>Lemmas on the tables\<close>

lemma onIdempotency_simps:
  "f (rb_idempotency db) = Inl x \<Longrightarrow> onIdempotency f db = throw db (RegistryDb x)"
  "f (rb_idempotency db) = Inr rows \<Longrightarrow> onIdempotency f db = ok (db\<lparr>rb_idempotency := rows\<rparr>) ()"
  by (simp_all add: onIdempotency_def)

lemma onGrants_simps:
  "f (rb_grants db) = Inr rows \<Longrightarrow> onGrants f db = ok (db\<lparr>rb_grants := rows\<rparr>) ()"
  by (simp add: onGrants_def)

lemma onAuthorizationAudits_simps:
  "f (rb_audits db) = Inr rows \<Longrightarrow> onAuthorizationAudits f db = ok (db\<lparr>rb_audits := rows\<rparr>) ()"
  by (simp add: onAuthorizationAudits_def)

lemma deliveryAudit_id:
  "aaw_id (deliveryAudit e v scope variant request uuid url db) = fst (rn_newAudit e (rb_audits db))"
  by (simp add: deliveryAudit_def)

text \<open>A row with a fresh key is created; a second row with a key in use is refused.\<close>

lemma create_fresh:
  assumes "table_laws [c] ops" "satisfies [c] rows" "c new = Some k" "row_at c rows k = None"
  obtains rows' where "to_create ops new rows = Inr rows'" "satisfies [c] rows'"
    "set rows' = insert new (set rows)" "row_at c rows' k = Some new"
proof -
  obtain rows' where r: "to_create ops new rows = Inr rows'" "satisfies [c] rows'"
    using create_single [OF assms] by blast
  moreover have s: "set rows' = insert new (set rows)"
    by (rule create_result(2) [OF assms(1,2) r(1)])
  moreover have "row_at c rows' k = Some new"
    using row_at_Some [OF r(2), of c k new] s assms(3) by simp
  ultimately show ?thesis by (rule that)
qed

lemma create_taken:
  assumes "table_laws [c] ops" "satisfies [c] rows" "c new = Some k" "row_at c rows k = Some r"
  shows "to_create ops new rows = Inl UniqueViolation"
proof -
  have "r \<in> set rows" "c r = Some k"
    using row_at_Some [OF assms(2), of c k r] assms(4) by auto
  then have "k \<in> set (List.map_filter c rows)" by (force simp: List.map_filter_def)
  then have "\<not> satisfies [c] (new # rows)"
    using assms(3) by (simp add: satisfies_def List.map_filter_simps)
  moreover have "written [c] (new # rows) (to_create ops new rows)"
    using assms(1,2) unfolding table_laws_def by blast
  ultimately show ?thesis by (simp add: written_def)
qed

lemma audit_created:
  assumes "read_laws e" "satisfies [auditKeys] rows" "aaw_id a = fst (rn_newAudit e rows)"
  obtains rows' where "to_create (rn_audits e) a rows = Inr rows'" "satisfies [auditKeys] rows'"
    "set rows' = insert a (set rows)"
proof -
  have "fst (rn_newAudit e rows) \<notin> aaw_id ` set rows" "table_laws [auditKeys] (rn_audits e)"
    using assms(1) unfolding read_laws_def by blast+
  then have "row_at auditKeys rows [aaw_id a] = None"
    using assms(3) by (force simp: row_at_None auditKeys_def)
  then show ?thesis
    using create_fresh [of auditKeys "rn_audits e" rows a "[aaw_id a]"] that assms(2)
      \<open>table_laws [auditKeys] (rn_audits e)\<close> by (auto simp: auditKeys_def)
qed

section \<open>Replays\<close>

lemma json_payload_kept:
  "toInputJsonValue (JObj (deliveryResponsePayload r)) = JObj (deliveryResponsePayload r)"
  "toInputJsonValue (JObj (sourceResponsePayload s)) = JObj (sourceResponsePayload s)"
  by (simp_all add: deliveryResponsePayload_def sourceResponsePayload_def optional_json_def
      split: option.splits)

lemma iso_nonempty: "toISOString t \<noteq> []"
  by (simp add: toISOString_def Let_def split: prod.splits)

lemma mode_text_inverse [simp]: "as_mode (mode_text m) = m" "mode_text m \<noteq> []"
  by (cases m; simp add: as_mode_def)+

lemma origin_text_inverse [simp]: "as_origin (origin_text m) = m" "origin_text m \<noteq> []"
  by (cases m; simp add: as_origin_def)+

definition replayable :: "delivery_authorization \<Rightarrow> bool" where
  "replayable d \<longleftrightarrow>
     dau_assetId d \<noteq> [] \<and> dau_versionId d \<noteq> [] \<and> dau_deliveryScopeId d \<noteq> [] \<and> dau_url d \<noteq> [] \<and>
     dau_oneTime d \<noteq> Some False"

lemma delivery_replay:
  assumes "replayable d"
  shows "buildDeliveryAuthorizationReplay parseDate
       (Some (toInputJsonValue (JObj (deliveryResponsePayload d)))) =
     Inr (d\<lparr>dau_expiresAt := parseDate (toISOString (dau_expiresAt d))\<rparr>)"
  using assms iso_nonempty
  unfolding buildDeliveryAuthorizationReplay_def json_payload_kept
  by (cases "dau_oneTime d"; cases "dau_remainingUses d")
    (auto simp: deliveryResponsePayload_def optional_json_def readReplayString_def
      readReplayBoolean_def readReplayNumber_def replayable_def)

lemma issued_replayable:
  assumes "assetId \<noteq> []" "versionId \<noteq> []" "deliveryScopeId \<noteq> []" "directUrl \<noteq> []"
  shows "replayable (issuedDelivery assetId versionId deliveryScopeId request uuid directUrl)"
  using assms by (simp add: replayable_def issuedDelivery_def)

section \<open>Concurrent requests for a delivery\<close>

definition lookup_key :: "idempotency_lookup \<Rightarrow> string list" where
  "lookup_key inp =
     [''public'', il_callerScopeKey inp, il_operationKey inp, il_idempotencyKey inp]"

definition idempotency_entry ::
  "idempotency_lookup \<Rightarrow> string \<Rightarrow> int \<Rightarrow> json_record \<Rightarrow> idempotency_row" where
  "idempotency_entry inp op at payload =
     \<lparr>iw_apiSurface = ''public'', iw_callerScopeKey = il_callerScopeKey inp,
      iw_operationKey = il_operationKey inp, iw_idempotencyKey = il_idempotencyKey inp,
      iw_normalizedOperationKey = op,
      iw_normalizedRequestHash = Some (il_normalizedRequestHash inp),
      iw_responsePayload = Some (toInputJsonValue (JObj payload)),
      iw_isTerminal = True, iw_completedAt = Some at\<rparr>"

lemma persist_entry:
  "persistAuthorizationIdempotencyRecord e inp op at payload =
     onIdempotency (to_create (rn_idempotency e) (idempotency_entry inp op at payload))"
  by (simp add: persistAuthorizationIdempotencyRecord_def idempotency_entry_def)

lemma entry_key: "idempotencyKeys (idempotency_entry inp op at payload) = Some (lookup_key inp)"
  by (simp add: idempotencyKeys_def idempotency_entry_def lookup_key_def)

lemma finish_delivery_first:
  assumes "transactional tx" "read_laws e" "read_ok db"
    and "row_at idempotencyKeys (rb_idempotency db)
      (lookup_key (deliveryLookup sha lc a v scope variant request)) = None"
  obtains db1 op where
    "finishDurableDelivery tx e sha lc parseDate a v scope variant request uuid url db =
       (db1, Inr (issuedDelivery a v scope request uuid url))"
    "read_ok db1" "rb_grants db1 = rb_grants db"
    "row_at idempotencyKeys (rb_idempotency db1)
       (lookup_key (deliveryLookup sha lc a v scope variant request)) =
     Some (idempotency_entry (deliveryLookup sha lc a v scope variant request) op (arq_now request)
       (deliveryResponsePayload (issuedDelivery a v scope request uuid url)))"
    "set (rb_audits db1) =
       insert (deliveryAudit e v scope variant request uuid url db) (set (rb_audits db))"
proof -
  let ?inp = "deliveryLookup sha lc a v scope variant request"
  let ?op = "normalizedDeliveryOperation a v scope variant request"
  let ?auth = "issuedDelivery a v scope request uuid url"
  let ?row = "idempotency_entry ?inp ?op (arq_now request) (deliveryResponsePayload ?auth)"
  have laws: "table_laws [idempotencyKeys] (rn_idempotency e)" using assms(2) by (simp add: read_laws_def)
  have ok: "satisfies [idempotencyKeys] (rb_idempotency db)" "satisfies [auditKeys] (rb_audits db)"
    "satisfies [grantKeys] (rb_grants db)" using assms(3) by (simp_all add: read_ok_def)
  obtain audits where audits:
    "to_create (rn_audits e) (deliveryAudit e v scope variant request uuid url db) (rb_audits db) = Inr audits"
    "satisfies [auditKeys] audits"
    "set audits = insert (deliveryAudit e v scope variant request uuid url db) (set (rb_audits db))"
    by (rule audit_created [OF assms(2) ok(2) deliveryAudit_id])
  obtain rows where rows: "to_create (rn_idempotency e) ?row (rb_idempotency db) = Inr rows"
    "satisfies [idempotencyKeys] rows" "row_at idempotencyKeys rows (lookup_key ?inp) = Some ?row"
    using create_fresh [OF laws ok(1) entry_key assms(4)] by metis
  let ?db1 = "db\<lparr>rb_audits := audits, rb_idempotency := rows\<rparr>"
  have "finishDurableDelivery tx e sha lc parseDate a v scope variant request uuid url db =
      (?db1, Inr ?auth)"
    unfolding finishDurableDelivery_def Let_def
    by (subst tx_committed [OF assms(1), where db' = ?db1 and v = "()"])
      (simp_all add: onAuthorizationAudits_def audits(1) persist_entry onIdempotency_def rows(1)
        replayOnConflict_def)
  then show ?thesis
    by (rule that) (simp_all add: read_ok_def audits rows ok(3))
qed

lemma finish_delivery_second:
  assumes "transactional tx" "read_laws e" "read_ok db"
    and "row_at idempotencyKeys (rb_idempotency db)
      (lookup_key (deliveryLookup sha lc a v scope variant request)) = Some row"
  shows "finishDurableDelivery tx e sha lc parseDate a v scope variant request uuid url db =
     (db, if iw_normalizedRequestHash row =
             Some (il_normalizedRequestHash (deliveryLookup sha lc a v scope variant request))
          then buildDeliveryAuthorizationReplay parseDate (iw_responsePayload row)
          else Inl (RegistryIdempotencyConflict (arq_idempotencyKey request)))"
proof -
  let ?inp = "deliveryLookup sha lc a v scope variant request"
  have laws: "table_laws [idempotencyKeys] (rn_idempotency e)" using assms(2) by (simp add: read_laws_def)
  have ok: "satisfies [idempotencyKeys] (rb_idempotency db)" "satisfies [auditKeys] (rb_audits db)"
    using assms(3) by (simp_all add: read_ok_def)
  obtain audits where audits:
    "to_create (rn_audits e) (deliveryAudit e v scope variant request uuid url db) (rb_audits db) = Inr audits"
    by (rule audit_created [OF assms(2) ok(2) deliveryAudit_id])
  have taken: "to_create (rn_idempotency e) (idempotency_entry ?inp op at payload)
      (rb_idempotency db) = Inl UniqueViolation" for op at payload
    by (rule create_taken [OF laws ok(1) entry_key assms(4)])
  have load: "loadDeliveryAuthorizationReplay parseDate ?inp db =
      (if iw_normalizedRequestHash row = Some (il_normalizedRequestHash ?inp)
       then map_sum id Some (buildDeliveryAuthorizationReplay parseDate (iw_responsePayload row))
       else Inl (RegistryIdempotencyConflict (arq_idempotencyKey request)))"
    using assms(4) by (simp add: loadDeliveryAuthorizationReplay_def loadReplay_def lookup_key_def
        deliveryLookup_def)
  show ?thesis
    unfolding finishDurableDelivery_def Let_def
    by (subst tx_aborted [OF assms(1), where db' = "db\<lparr>rb_audits := audits\<rparr>"
            and e = "RegistryDb UniqueViolation"],
        simp add: onAuthorizationAudits_def audits persist_entry onIdempotency_def taken,
        cases "buildDeliveryAuthorizationReplay parseDate (iw_responsePayload row)")
      (simp_all add: replayOnConflict_def load)
qed

lemma no_empty_replay: "map_sum id Some x \<noteq> Inr None"
  by (cases x) simp_all

lemma loadReplay_none:
  "loadReplay build inp db = Inr None \<longleftrightarrow> row_at idempotencyKeys (rb_idempotency db) (lookup_key inp) = None"
  by (simp add: loadReplay_def lookup_key_def no_empty_replay split: option.splits)

lemma delivery_proceeds:
  assumes "beginDurableDelivery sha lc parseDate a v scope variant request db = Inr (Inr url)"
  shows "row_at idempotencyKeys (rb_idempotency db)
      (lookup_key (deliveryLookup sha lc a v scope variant request)) = None" "url \<noteq> []"
proof -
  obtain replay where load: "loadDeliveryAuthorizationReplay parseDate
      (deliveryLookup sha lc a v scope variant request) db = Inr replay"
    and rest: "replay = None" "\<exists>storageKey scope'. url = buildDeliveryUrl scope' storageKey"
    using assms by (auto simp: beginDurableDelivery_def then_do_ok split: option.splits prod.splits)
  show "url \<noteq> []" using rest(2) by (auto simp: buildDeliveryUrl_def Let_def)
  show "row_at idempotencyKeys (rb_idempotency db)
      (lookup_key (deliveryLookup sha lc a v scope variant request)) = None"
    using load rest(1) by (simp add: loadDeliveryAuthorizationReplay_def loadReplay_none)
qed


section \<open>Use of links\<close>

lemma find_the_only:
  assumes "r \<in> set rows" "P r" "\<And>r'. r' \<in> set rows \<Longrightarrow> P r' \<Longrightarrow> r' = r"
  shows "List.find P rows = Some r"
proof (cases "List.find P rows")
  case None
  then show ?thesis using assms(1,2) by (auto simp: find_None_iff)
next
  case (Some x)
  then have "x \<in> set rows" "P x" by (auto simp: find_Some_iff)
  then show ?thesis using Some assms(3) by blast
qed

lemma first_by_none: "first_by f [] = None"
  by (simp add: first_by_def)

lemma first_by_in: "xs \<noteq> [] \<Longrightarrow> \<exists>r \<in> set xs. first_by f xs = Some r"
proof -
  assume "xs \<noteq> []"
  then obtain r rs where r: "js_sort (\<lambda>a b. f a - f b) xs = r # rs"
    by (metis length_0_conv length_js_sort list.exhaust)
  then have "r \<in> set xs" using set_js_sort by (metis list.set_intros(1))
  then show ?thesis using r by (auto simp: first_by_def)
qed

lemma first_by_only:
  assumes "xs \<noteq> []" "\<And>x. x \<in> set xs \<Longrightarrow> x = r"
  shows "first_by f xs = Some r"
  using first_by_in [OF assms(1), of f] assms(2) by auto

definition consumption_link :: "string \<Rightarrow> consumption \<Rightarrow> download_link" where
  "consumption_link token c =
     (case c of
        ConsumeGrant g \<Rightarrow>
          \<lparr>lnk_expiresAt = gw_expiresAt g, lnk_token = token,
           lnk_url = nullish (or_else (gw_proxyPath g) (gw_exportObjectKey g))
             (''/v1/assets/'' @ gw_assetVersionId g @ ''/source'')\<rparr>
      | ConsumeAudit a expiresAt url \<Rightarrow>
          \<lparr>lnk_expiresAt = expiresAt, lnk_token = token, lnk_url = url\<rparr>)"

fun held :: "consumption \<Rightarrow> read_db \<Rightarrow> bool" where
  "held (ConsumeGrant g) db = (gw_id g \<in> gw_id ` set (rb_grants db))"
| "held (ConsumeAudit a expiresAt url) db = (aaw_id a \<in> aaw_id ` set (rb_audits db))"

lemma found_held:
  assumes "findDownloadLink token now db = Inr c"
  shows "held c db"
proof (cases "List.find (\<lambda>g. now < gw_expiresAt g \<and> gw_id g = token) (rb_grants db)")
  case (Some g)
  then have "g \<in> set (rb_grants db)" by (auto simp: find_Some_iff)
  then show ?thesis using assms Some by (auto simp: findDownloadLink_def)
next
  case None
  let ?xs = "filter (\<lambda>a. (case aaw_expiresAt a of None \<Rightarrow> False | Some t \<Rightarrow> now < t) \<and>
      aaw_grantId a = Some token) (rb_audits db)"
  obtain a t url where a: "first_by (\<lambda>a. - aaw_grantedAt a) ?xs = Some a" "c = ConsumeAudit a t url"
    using assms None by (auto simp: findDownloadLink_def split: option.splits)
  then have "?xs \<noteq> []" by (intro notI) (simp add: first_by_none)
  then have "a \<in> set (rb_audits db)" using first_by_in [of ?xs "\<lambda>a. - aaw_grantedAt a"] a(1) by auto
  then show ?thesis using a(2) by auto
qed

lemma image_changed:
  assumes "\<And>r. g (f r) = g r"
  shows "g ` (\<lambda>r. if P r then f r else r) ` S = g ` S"
  unfolding image_image by (rule image_cong) (simp_all add: assms)

lemma consumption_applies:
  assumes "read_laws e" "read_ok db" "held c db"
  obtains db' where "applyConsumption e token now c db = (db', Inr (consumption_link token c))"
    "read_ok db'" "\<And>c'. held c' db' = held c' db"
    "rb_grants db' = rb_grants db \<or> (\<exists>g. c = ConsumeGrant g)"
    "\<And>g. c = ConsumeGrant g \<Longrightarrow>
       set (rb_grants db') = (\<lambda>r. if gw_id r = gw_id g then r\<lparr>gw_expiresAt := now\<rparr> else r) ` set (rb_grants db) \<and>
       rb_audits db' = rb_audits db"
    "\<And>a t url. c = ConsumeAudit a t url \<Longrightarrow>
       set (rb_audits db') = (\<lambda>r. if aaw_id r = aaw_id a
         then r\<lparr>aaw_expiresAt := Some now,
                aaw_requestMetadata := Some (consumedMetadata (aaw_requestMetadata a) now url)\<rparr> else r)
           ` set (rb_audits db)"
proof -
  have laws: "table_laws [grantKeys] (rn_grants e)" "table_laws [auditKeys] (rn_audits e)"
    using assms(1) by (simp_all add: read_laws_def)
  have ok: "satisfies [idempotencyKeys] (rb_idempotency db)" "satisfies [grantKeys] (rb_grants db)"
    "satisfies [auditKeys] (rb_audits db)" using assms(2) by (simp_all add: read_ok_def)
  show ?thesis
  proof (cases c)
    case (ConsumeGrant g)
    let ?w = "\<lambda>r. gw_id r = gw_id g" and ?f = "\<lambda>r. r\<lparr>gw_expiresAt := now\<rparr>"
    obtain r where r: "r \<in> set (rb_grants db)" "gw_id r = gw_id g" using assms(3) ConsumeGrant by auto
    obtain rows where rows: "to_update (rn_grants e) ?w ?f (rb_grants db) = Inr rows"
      using update_kept [OF laws(1) ok(2), of ?f r ?w] r by (auto simp: grantKeys_def)
    note up = update_result [OF laws(1) ok(2) rows]
    have ids: "gw_id ` set rows = gw_id ` set (rb_grants db)" 
      unfolding up(2) by (rule image_changed) simp
    have held: "held c' (db\<lparr>rb_grants := rows\<rparr>) = held c' db" for c'
      using ids by (cases c') simp_all
    show ?thesis
      by (rule that [OF _ _ held])
        (use ConsumeGrant ok up in
          \<open>simp_all add: applyConsumption_def onGrants_def rows consumption_link_def read_ok_def\<close>)
  next
    case (ConsumeAudit a t url)
    let ?w = "\<lambda>r. aaw_id r = aaw_id a"
      and ?f = "\<lambda>r. r\<lparr>aaw_expiresAt := Some now,
        aaw_requestMetadata := Some (consumedMetadata (aaw_requestMetadata a) now url)\<rparr>"
    obtain r where r: "r \<in> set (rb_audits db)" "aaw_id r = aaw_id a" using assms(3) ConsumeAudit by auto
    obtain rows where rows: "to_update (rn_audits e) ?w ?f (rb_audits db) = Inr rows"
      using update_kept [OF laws(2) ok(3), of ?f r ?w] r by (auto simp: auditKeys_def)
    note up = update_result [OF laws(2) ok(3) rows]
    have ids: "aaw_id ` set rows = aaw_id ` set (rb_audits db)" 
      unfolding up(2) by (rule image_changed) simp
    have held: "held c' (db\<lparr>rb_audits := rows\<rparr>) = held c' db" for c'
      using ids by (cases c') simp_all
    show ?thesis
      by (rule that [OF _ _ held])
        (use ConsumeAudit ok up in
          \<open>simp_all add: applyConsumption_def onAuthorizationAudits_def rows consumption_link_def read_ok_def\<close>)
  qed
qed

section \<open>Two uses of one link\<close>

lemma source_proceeds:
  assumes "beginDurableSource sha lc parseDate a v disposition request db = Inr (Inr version)"
  shows "row_at idempotencyKeys (rb_idempotency db)
      (lookup_key (sourceLookup sha lc a v disposition request)) = None"
proof -
  have "loadSourceAuthorizationReplay parseDate (sourceLookup sha lc a v disposition request) db =
      Inr None"
    using assms by (auto simp: beginDurableSource_def then_do_ok split: option.splits)
  then show ?thesis by (simp add: loadSourceAuthorizationReplay_def loadReplay_none)
qed

lemma sourceAudit_id:
  "aaw_id (sourceAudit e v disposition request grantId url db) = fst (rn_newAudit e (rb_audits db))"
  by (simp add: sourceAudit_def)

lemma finish_source_first:
  assumes "transactional tx" "read_laws e" "read_ok db"
    and "row_at idempotencyKeys (rb_idempotency db)
      (lookup_key (sourceLookup sha lc a v disposition request)) = None"
    and "grantId \<notin> gw_id ` set (rb_grants db)"
  obtains db1 where
    "finishDurableSource tx e sha lc parseDate a v disposition request grantId version db =
       (db1, Inr (issuedSource a v disposition request grantId version))"
    "read_ok db1"
    "set (rb_grants db1) =
       insert (sourceGrantRow a v disposition request grantId) (set (rb_grants db))"
    "\<exists>db'. rb_audits db' = rb_audits db \<and> set (rb_audits db1) =
       insert (sourceAudit e v disposition request grantId
         (sau_url (issuedSource a v disposition request grantId version)) db') (set (rb_audits db))"
proof -
  let ?inp = "sourceLookup sha lc a v disposition request"
  let ?auth = "issuedSource a v disposition request grantId version"
  let ?grant = "sourceGrantRow a v disposition request grantId"
  let ?row = "idempotency_entry ?inp (normalizedSourceOperation a v disposition request)
    (arq_now request) (sourceResponsePayload ?auth)"
  have laws: "table_laws [idempotencyKeys] (rn_idempotency e)" "table_laws [grantKeys] (rn_grants e)"
    using assms(2) by (simp_all add: read_laws_def)
  have ok: "satisfies [idempotencyKeys] (rb_idempotency db)" "satisfies [grantKeys] (rb_grants db)"
    "satisfies [auditKeys] (rb_audits db)" using assms(3) by (simp_all add: read_ok_def)
  have key: "grantKeys ?grant = Some [grantId]" by (simp add: grantKeys_def sourceGrantRow_def)
  have "row_at grantKeys (rb_grants db) [grantId] = None"
    using assms(5) by (auto simp: row_at_None grantKeys_def)
  from create_fresh [OF laws(2) ok(2) key this] obtain grants where
    grants: "to_create (rn_grants e) ?grant (rb_grants db) = Inr grants" "satisfies [grantKeys] grants"
      "set grants = insert ?grant (set (rb_grants db))"
    by metis
  let ?mid = "db\<lparr>rb_grants := grants\<rparr>"
  have ok3: "satisfies [auditKeys] (rb_audits ?mid)" using ok(3) by simp
  obtain audits where audits:
    "to_create (rn_audits e) (sourceAudit e v disposition request grantId (sau_url ?auth) ?mid)
       (rb_audits ?mid) = Inr audits" "satisfies [auditKeys] audits"
    "set audits = insert (sourceAudit e v disposition request grantId (sau_url ?auth) ?mid)
       (set (rb_audits ?mid))"
    by (rule audit_created [OF assms(2) ok3 sourceAudit_id])
  obtain rows where rows: "to_create (rn_idempotency e) ?row (rb_idempotency db) = Inr rows"
    "satisfies [idempotencyKeys] rows"
    using create_fresh [OF laws(1) ok(1) entry_key assms(4)] by metis
  let ?db1 = "db\<lparr>rb_grants := grants, rb_audits := audits, rb_idempotency := rows\<rparr>"
  have "finishDurableSource tx e sha lc parseDate a v disposition request grantId version db =
      (?db1, Inr ?auth)"
    unfolding finishDurableSource_def Let_def
    by (subst tx_committed [OF assms(1), where db' = ?db1 and v = "()"])
      (use audits(1) in \<open>simp_all add: onGrants_def grants(1) onAuthorizationAudits_def persist_entry
        onIdempotency_def rows(1) replayOnConflict_def\<close>)
  then show ?thesis
  proof (rule that)
    show "read_ok ?db1" by (simp add: read_ok_def grants(2) audits(2) rows(2))
    show "set (rb_grants ?db1) = insert ?grant (set (rb_grants db))" by (simp add: grants(3))
    show "\<exists>db'. rb_audits db' = rb_audits db \<and> set (rb_audits ?db1) =
       insert (sourceAudit e v disposition request grantId (sau_url ?auth) db') (set (rb_audits db))"
      by (rule exI [of _ ?mid]) (use audits(3) in simp)
  qed
qed

lemma finds_grant:
  assumes "satisfies [grantKeys] (rb_grants db)" "g \<in> set (rb_grants db)" "gw_id g = token"
    "now < gw_expiresAt g"
  shows "findDownloadLink token now db = Inr (ConsumeGrant g)"
proof -
  have "List.find (\<lambda>g. now < gw_expiresAt g \<and> gw_id g = token) (rb_grants db) = Some g"
    by (rule find_the_only)
      (use assms satisfies_unique [OF assms(1), of grantKeys] in \<open>auto simp: grantKeys_def\<close>)
  then show ?thesis by (simp add: findDownloadLink_def)
qed

lemma finds_audit:
  assumes "\<And>g. g \<in> set (rb_grants db) \<Longrightarrow> gw_id g = token \<Longrightarrow> \<not> now < gw_expiresAt g"
    and "a \<in> set (rb_audits db)" "aaw_grantId a = Some token" "aaw_expiresAt a = Some t" "now < t"
    and "\<And>a'. a' \<in> set (rb_audits db) \<Longrightarrow> aaw_grantId a' = Some token \<Longrightarrow> a' = a"
    and "extractUrlFromMetadata (aaw_requestMetadata a) = Some url"
  shows "findDownloadLink token now db = Inr (ConsumeAudit a t url)"
proof -
  have none: "List.find (\<lambda>g. now < gw_expiresAt g \<and> gw_id g = token) (rb_grants db) = None"
    using assms(1) by (auto simp: find_None_iff)
  let ?xs = "filter (\<lambda>a. (case aaw_expiresAt a of None \<Rightarrow> False | Some t \<Rightarrow> now < t) \<and>
      aaw_grantId a = Some token) (rb_audits db)"
  have "a \<in> set ?xs" using assms(2-5) by simp
  then have ne: "?xs \<noteq> []" by (metis empty_iff list.set(1))
  have "first_by (\<lambda>a. - aaw_grantedAt a) ?xs = Some a"
    by (rule first_by_only [OF ne]) (simp add: assms(6))
  then show ?thesis by (simp add: findDownloadLink_def none assms(4,7))
qed

lemma audit_url:
  assumes "url \<noteq> []"
  shows "extractUrlFromMetadata (aaw_requestMetadata (sourceAudit e v disposition request g url db)) = Some url"
    "extractUrlFromMetadata (aaw_requestMetadata (deliveryAudit e v scope variant request g url db)) = Some url"
  using assms by (simp_all add: sourceAudit_def deliveryAudit_def)

text \<open>C28. A one-time link to a source works twice. The first use expires the grant but not the audit row that
  carries the same grant identifier, and the second use finds that row; the URL it hands out is the link
  itself.\<close>

theorem source_link_works_twice:
  assumes "transactional tx" "read_laws e" "read_ok db" "one_time request"
    and "beginDurableSource sha lc parseDate a v disposition request db = Inr (Inr version)"
    and "grantId \<notin> gw_id ` set (rb_grants db)"
    and "Some grantId \<notin> aaw_grantId ` set (rb_audits db)"
    and "t1 \<le> t2" "t2 < arq_now request + fifteen_minutes"
  shows "\<exists>db1 db2 db3 link1 link2.
     durableAuthorizeSource tx e sha lc parseDate a v disposition request grantId db =
       (db1, Inr (issuedSource a v disposition request grantId version)) \<and>
     durableConsumeDownloadLink e grantId t1 db1 = (db2, Inr link1) \<and>
     durableConsumeDownloadLink e grantId t2 db2 = (db3, Inr link2) \<and>
     lnk_url link1 = sourceProxyPath a v grantId disposition \<and>
     lnk_url link2 = ''/download-links/'' @ grantId"
proof -
  let ?g = "sourceGrantRow a v disposition request grantId"
  let ?auth = "issuedSource a v disposition request grantId version"
  have url: "sau_url ?auth = ''/download-links/'' @ grantId" using assms(4) by (simp add: issuedSource_def)
  obtain db1 db' where db1:
    "finishDurableSource tx e sha lc parseDate a v disposition request grantId version db = (db1, Inr ?auth)"
    "read_ok db1" "set (rb_grants db1) = insert ?g (set (rb_grants db))"
    "set (rb_audits db1) = insert (sourceAudit e v disposition request grantId (sau_url ?auth) db')
       (set (rb_audits db))"
    using finish_source_first [OF assms(1,2,3) source_proceeds [OF assms(5)] assms(6)] by metis
  let ?a = "sourceAudit e v disposition request grantId (sau_url ?auth) db'"
  have gs: "gw_id ?g = grantId" "gw_expiresAt ?g = arq_now request + fifteen_minutes"
    by (simp_all add: sourceGrantRow_def)
  have one: "findDownloadLink grantId t1 db1 = Inr (ConsumeGrant ?g)"
    using db1(2,3) gs assms(8,9) by (intro finds_grant) (simp_all add: read_ok_def)
  obtain db2 where db2: "applyConsumption e grantId t1 (ConsumeGrant ?g) db1 =
      (db2, Inr (consumption_link grantId (ConsumeGrant ?g)))" "read_ok db2"
    "\<And>g. ConsumeGrant ?g = ConsumeGrant g \<Longrightarrow>
       set (rb_grants db2) = (\<lambda>r. if gw_id r = gw_id g then r\<lparr>gw_expiresAt := t1\<rparr> else r) ` set (rb_grants db1) \<and>
       rb_audits db2 = rb_audits db1"
    by (rule consumption_applies [OF assms(2) db1(2) found_held [OF one]]) (rule that, assumption+)
  have db2': "set (rb_grants db2) =
      (\<lambda>r. if gw_id r = grantId then r\<lparr>gw_expiresAt := t1\<rparr> else r) ` set (rb_grants db1)"
    "rb_audits db2 = rb_audits db1"
    using db2(3) [OF refl] gs(1) by auto
  have two: "findDownloadLink grantId t2 db2 =
      Inr (ConsumeAudit ?a (arq_now request + fifteen_minutes) (sau_url ?auth))"
  proof (rule finds_audit)
    show "\<not> t2 < gw_expiresAt g" if "g \<in> set (rb_grants db2)" "gw_id g = grantId" for g
    proof -
      note g = that
      obtain r where "g = (if gw_id r = grantId then r\<lparr>gw_expiresAt := t1\<rparr> else r)"
        using g(1) unfolding db2'(1) by blast
      then have "gw_expiresAt g = t1" using g(2) by (cases "gw_id r = grantId") simp_all
      then show ?thesis using assms(8) by simp
    qed
    show "a' = ?a" if "a' \<in> set (rb_audits db2)" "aaw_grantId a' = Some grantId" for a'
    proof -
      have "a' \<in> insert ?a (set (rb_audits db))" using that(1) unfolding db2'(2) db1(4) .
      moreover have "a' \<notin> set (rb_audits db)" using that(2) assms(7) by (metis imageI)
      ultimately show ?thesis by blast
    qed
    show "?a \<in> set (rb_audits db2)" unfolding db2'(2) db1(4) by (rule insertI1)
    show "aaw_grantId ?a = Some grantId"
      "aaw_expiresAt ?a = Some (arq_now request + fifteen_minutes)"
      by (simp_all add: sourceAudit_def)
    show "extractUrlFromMetadata (aaw_requestMetadata ?a) = Some (sau_url ?auth)"
      by (rule audit_url) (simp add: url)
  qed (rule assms(9))
  obtain db3 where db3: "applyConsumption e grantId t2
      (ConsumeAudit ?a (arq_now request + fifteen_minutes) (sau_url ?auth)) db2 =
    (db3, Inr (consumption_link grantId
      (ConsumeAudit ?a (arq_now request + fifteen_minutes) (sau_url ?auth))))"
    by (rule consumption_applies [OF assms(2) db2(2) found_held [OF two]]) (rule that)
  show ?thesis
  proof (intro exI conjI)
    show "durableAuthorizeSource tx e sha lc parseDate a v disposition request grantId db = (db1, Inr ?auth)"
      by (simp add: durableAuthorizeSource_def assms(5) db1(1))
    show "durableConsumeDownloadLink e grantId t1 db1 = (db2, Inr (consumption_link grantId (ConsumeGrant ?g)))"
      by (simp add: durableConsumeDownloadLink_def one db2(1))
    show "durableConsumeDownloadLink e grantId t2 db2 = (db3, Inr (consumption_link grantId
        (ConsumeAudit ?a (arq_now request + fifteen_minutes) (sau_url ?auth))))"
      by (simp add: durableConsumeDownloadLink_def two db3)
  qed (simp_all add: consumption_link_def sourceGrantRow_def url)
qed

text \<open>C29. A link is looked up and expired in two calls that are no transaction: two consumers that both
  look it up before either expires it are both served, with the same URL.\<close>

theorem concurrent_consumers_both_served:
  assumes "read_laws e" "read_ok db"
    and "findDownloadLink token now db = Inr c" "findDownloadLink token now' db = Inr c"
  shows "\<exists>db1 db2 link.
     applyConsumption e token now c db = (db1, Inr link) \<and>
     applyConsumption e token now' c db1 = (db2, Inr link) \<and>
     durableConsumeDownloadLink e token now db = (db1, Inr link)"
proof -
  obtain db1 where db1: "applyConsumption e token now c db = (db1, Inr (consumption_link token c))"
    "read_ok db1" "\<And>c'. held c' db1 = held c' db"
    using consumption_applies [OF assms(1,2) found_held [OF assms(3)]] by metis
  then have "held c db1" using found_held [OF assms(3)] by simp
  then obtain db2 where "applyConsumption e token now' c db1 = (db2, Inr (consumption_link token c))"
    using consumption_applies [OF assms(1) db1(2)] by metis
  then show ?thesis
    using db1(1) assms(3) by (auto simp: durableConsumeDownloadLink_def)
qed

section \<open>Examples\<close>

definition listReadEngine :: read_engine where
  "listReadEngine =
     \<lparr>rn_idempotency = listTable [idempotencyKeys], rn_grants = listTable [grantKeys],
      rn_audits = listTable [auditKeys],
      rn_newAudit = (\<lambda>rows. (replicate (Suc (sum_list (map (length \<circ> aaw_id) rows))) (CHR ''a''), 0))\<rparr>"

lemma listReadEngine_laws: "read_laws listReadEngine"
proof -
  have "length (aaw_id r) \<le> sum_list (map (length \<circ> aaw_id) rows)" if "r \<in> set rows" for r rows
    using that by (induction rows) auto
  then have fresh: "aaw_id r \<noteq> replicate (Suc (sum_list (map (length \<circ> aaw_id) rows))) c"
    if "r \<in> set rows" for r rows c
    using that by (metis Suc_n_not_le_n length_replicate)
  have "fst (rn_newAudit listReadEngine rows) \<notin> aaw_id ` set rows" for rows
  proof
    assume "fst (rn_newAudit listReadEngine rows) \<in> aaw_id ` set rows"
    then obtain r where "r \<in> set rows" "fst (rn_newAudit listReadEngine rows) = aaw_id r" by blast
    then show False using fresh [of r rows "CHR ''a''"] by (simp add: listReadEngine_def)
  qed
  then show ?thesis unfolding read_laws_def by (simp add: listReadEngine_def listTable_laws)
qed

definition exampleReadDb :: read_db where
  "exampleReadDb =
     \<lparr>rb_versions = [version_row.extend (exampleVersionRow\<lparr>vw_lifecycleState := row_published\<rparr>)
        \<lparr>rvw_assetOwner = ''team'', rvw_externalTenantId = None\<rparr>],
      rb_derivatives = [derivative_row.extend
        \<lparr>dw_assetVersionId = vw_id exampleVersionRow, dw_deliveryScopeId = ''eu'', dw_recipeId = ''webp'',
         dw_schemaVersion = ''v1'', dw_variantKey = ''thumb'', dw_deterministicKey = ''k'',
         dw_storageBucket = None, dw_storageKey = Some ''k'', dw_contentType = ''image/webp'',
         dw_byteLength = 5, dw_checksumValue = None, dw_published = True, dw_metadata = JObj [],
         dw_publishedAt = None\<rparr> \<lparr>rdw_id = ''drv_1''\<rparr>],
      rb_manifests = [],
      rb_scopes = [scope_row.extend
        \<lparr>sw_id = ''eu'', sw_serviceNamespaceId = ''ns'', sw_tenantScopeId = None, sw_scopeKey = ''eu''\<rparr>
        \<lparr>rsw_hostname = ''cdn.test'', rsw_pathPrefix = Some ''/p/''\<rparr>],
      rb_dispatches = [], rb_runs = [], rb_idempotency = [], rb_grants = [], rb_audits = []\<rparr>"

lemma exampleReadDb_ok: "read_ok exampleReadDb"
  by (simp add: read_ok_def exampleReadDb_def satisfies_def List.map_filter_simps)

abbreviation (input) example_sha :: "string \<Rightarrow> string" where "example_sha \<equiv> \<lambda>s. s"

lemma example_delivery_begins:
  "beginDurableDelivery example_sha codeUnitCompare (\<lambda>_. 0) (vw_assetId exampleVersionRow)
     (vw_id exampleVersionRow) ''eu'' ''thumb'' example_authorization exampleReadDb =
   Inr (Inr ''https://cdn.test/p/k'')"
  by code_simp

lemma example_source_begins:
  "\<exists>version. beginDurableSource example_sha codeUnitCompare (\<lambda>_. 0) (vw_assetId exampleVersionRow)
     (vw_id exampleVersionRow) None example_authorization exampleReadDb = Inr (Inr version)"
proof -
  have "(case beginDurableSource example_sha codeUnitCompare (\<lambda>_. 0) (vw_assetId exampleVersionRow)
     (vw_id exampleVersionRow) None example_authorization exampleReadDb of Inr (Inr _) \<Rightarrow> True | _ \<Rightarrow> False)"
    by code_simp
  then show ?thesis by (auto split: sum.splits)
qed


lemma source_link_works_twice_witness:
  "\<exists>version db1 db2 db3 link1 link2.
     durableAuthorizeSource listTransaction listReadEngine example_sha codeUnitCompare (\<lambda>_. 0)
       (vw_assetId exampleVersionRow) (vw_id exampleVersionRow) None example_authorization ''t1''
       exampleReadDb =
       (db1, Inr (issuedSource (vw_assetId exampleVersionRow) (vw_id exampleVersionRow) None
         example_authorization ''t1'' version)) \<and>
     durableConsumeDownloadLink listReadEngine ''t1'' 1 db1 = (db2, Inr link1) \<and>
     durableConsumeDownloadLink listReadEngine ''t1'' 2 db2 = (db3, Inr link2) \<and>
     lnk_url link2 = ''/download-links/t1''"
proof -
  obtain version where v: "beginDurableSource example_sha codeUnitCompare (\<lambda>_. 0)
      (vw_assetId exampleVersionRow) (vw_id exampleVersionRow) None example_authorization
      exampleReadDb = Inr (Inr version)"
    using example_source_begins by blast
  have facts: "one_time example_authorization" "''t1'' \<notin> gw_id ` set (rb_grants exampleReadDb)"
    "Some ''t1'' \<notin> aaw_grantId ` set (rb_audits exampleReadDb)" "(1 :: int) \<le> 2"
    "2 < arq_now example_authorization + fifteen_minutes"
    by (simp_all add: one_time_def example_authorization_def exampleReadDb_def fifteen_minutes_def)
  from source_link_works_twice [OF listTransaction_laws listReadEngine_laws exampleReadDb_ok facts(1) v
      facts(2-5)] show ?thesis by fastforce
qed

definition exampleLinkDb :: read_db where
  "exampleLinkDb = exampleReadDb\<lparr>rb_grants :=
     [sourceGrantRow ''ast'' ''ver'' None example_authorization ''t1'']\<rparr>"

lemma concurrent_consumers_both_served_witness:
  "\<exists>c db1 db2 link. findDownloadLink ''t1'' 1 exampleLinkDb = Inr c \<and>
     applyConsumption listReadEngine ''t1'' 1 c exampleLinkDb = (db1, Inr link) \<and>
     applyConsumption listReadEngine ''t1'' 1 c db1 = (db2, Inr link)"
proof -
  have ok: "read_ok exampleLinkDb"
    using exampleReadDb_ok by (simp add: exampleLinkDb_def read_ok_def satisfies_def List.map_filter_simps
        grantKeys_def)
  have found: "findDownloadLink ''t1'' 1 exampleLinkDb =
      Inr (ConsumeGrant (sourceGrantRow ''ast'' ''ver'' None example_authorization ''t1''))"
    by (rule finds_grant) (use ok in \<open>simp_all add: read_ok_def exampleLinkDb_def sourceGrantRow_def
      example_authorization_def fifteen_minutes_def\<close>)
  from concurrent_consumers_both_served [OF listReadEngine_laws ok found found] found
  show ?thesis by blast
qed

end
