(* ===== verification/Api_Access.thy ===== *)
theory Api_Access
  imports Storage_Config Text_Bytes
begin

text \<open>
  Authentication and scopes: \<open>packages/auth/src/index.ts\<close> (bearer tokens, actors, the static service
  accounts and their configuration), \<open>apps/api/src/auth.ts\<close> (surface roles and scope checks),
  \<open>request-context.ts\<close> and \<open>problem-details.ts\<close>. The SHA-256 digest of a text in hexadecimal is
  the parameter \<open>sha256\<close>, the parsers of JSON and of numbers are \<open>parseJson\<close> and \<open>number\<close>, and the
  session service of Better Auth is \<open>getSession\<close>. A service account comes as a JSON value, because
  the code reads it from one. \<open>Headers\<close> are a map from lower-case names.
\<close>

section \<open>Headers\<close>

type_synonym headers = "(string, string) jsmap"

definition http_space :: "char \<Rightarrow> bool" where
  "http_space c \<longleftrightarrow> of_char c \<in> {9, 10, 13, 32 :: nat}"

definition http_strip :: "string \<Rightarrow> string" where
  "http_strip s = rev (dropWhile http_space (rev (dropWhile http_space s)))"

text \<open>\<open>new Headers(record)\<close>: names in lower case, values joined when a name comes twice.\<close>

definition appendHeader :: "headers \<Rightarrow> string \<times> string \<Rightarrow> headers" where
  "appendHeader h nv =
     (let name = js_lower (fst nv); value = http_strip (snd nv) in
      js_set name (case js_get h name of None \<Rightarrow> value | Some w \<Rightarrow> w @ '', '' @ value) h)"

definition toHeaders :: "(string, string) jsmap \<Rightarrow> headers" where
  "toHeaders r = foldl appendHeader [] r"

definition headers_get :: "headers \<Rightarrow> string \<Rightarrow> string option" where
  "headers_get h name = js_get h (js_lower name)"

text \<open>The spread of \<open>headers\<close> follows the header and replaces it when it has the same name.\<close>

definition buildBearerHeaders :: "string \<Rightarrow> (string, string) jsmap \<Rightarrow> (string, string) jsmap" where
  "buildBearerHeaders token extra =
     foldl (\<lambda>m nv. js_set (fst nv) (snd nv) m) [(''authorization'', ''Bearer '' @ token)] extra"

definition extractBearerToken :: "headers \<Rightarrow> string \<Rightarrow> string option" where
  "extractBearerToken h scheme =
     (let authorization = headers_get h ''authorization'' in
      if \<not> truthy_str authorization then None
      else
        (let t = js_trim (the authorization);
             headerScheme = takeWhile (\<lambda>c. c \<noteq> CHR '' '') t in
         if headerScheme = [] \<or> headerScheme = t then None
         else
           (let token = js_trim (drop (Suc (length headerScheme)) t) in
            if js_lower headerScheme \<noteq> js_lower scheme \<or> token = [] then None else Some token)))"

section \<open>Actors\<close>

record authenticated_actor =
  act_subject :: string
  act_roles :: "string list"
  act_allowedServiceNamespaces :: "string list"
  act_allowedTenantIds :: "string list"

record actor_descriptor =
  dsc_subject :: "string option"
  dsc_roles :: "string list option"
  dsc_allowedServiceNamespaces :: "string list option"
  dsc_allowedTenantIds :: "string list option"

text \<open>\<open>[...new Set(xs)]\<close>: the first occurrence of every value, in order.\<close>

fun js_unique :: "'a list \<Rightarrow> 'a list" where
  "js_unique [] = []"
| "js_unique (x # xs) = x # removeAll x (js_unique xs)"

lemma set_js_unique [simp]: "set (js_unique xs) = set xs"
  by (induction xs) auto

lemma distinct_js_unique [simp]: "distinct (js_unique xs)"
  by (induction xs) (auto simp: distinct_removeAll)

lemma js_unique_id: "distinct xs \<Longrightarrow> js_unique xs = xs"
  by (induction xs) (auto simp: removeAll_id)

lemma length_js_unique: "length (js_unique xs) = length xs \<longleftrightarrow> distinct xs"
proof
  assume "length (js_unique xs) = length xs"
  moreover have "length (js_unique xs) = card (set xs)"
    using distinct_card [OF distinct_js_unique [of xs]] by simp
  ultimately show "distinct xs" by (simp add: card_distinct)
qed (simp add: js_unique_id)

definition normalizeStringArray :: "string list option \<Rightarrow> string list" where
  "normalizeStringArray values =
     js_unique (filter (\<lambda>v. v \<noteq> []) (map js_trim (nullish values [])))"

definition normalizeActorDescriptor ::
  "actor_descriptor option \<Rightarrow> string \<Rightarrow> authenticated_actor" where
  "normalizeActorDescriptor descriptor defaultSubject =
     \<lparr>act_subject =
        or_text (map_option js_trim (Option.bind descriptor dsc_subject)) defaultSubject,
      act_roles = normalizeStringArray (Option.bind descriptor dsc_roles),
      act_allowedServiceNamespaces =
        normalizeStringArray (Option.bind descriptor dsc_allowedServiceNamespaces),
      act_allowedTenantIds = normalizeStringArray (Option.bind descriptor dsc_allowedTenantIds)\<rparr>"

text \<open>A list that normalization keeps as it is.\<close>

definition normal_names :: "string list \<Rightarrow> bool" where
  "normal_names xs \<longleftrightarrow> distinct xs \<and> list_all (\<lambda>x. x \<noteq> [] \<and> trimmed x) xs"

lemma normal_names_of_normalized: "normal_names (normalizeStringArray xs)"
  by (auto simp: normal_names_def normalizeStringArray_def list_all_iff trimmed_js_trim)

lemma normalize_normal_names: "normal_names xs \<Longrightarrow> normalizeStringArray (Some xs) = xs"
proof -
  assume n: "normal_names xs"
  have "map js_trim xs = xs" using n by (auto simp: normal_names_def list_all_iff js_trim_id intro: map_idI)
  moreover have "filter (\<lambda>v. v \<noteq> []) xs = xs" using n by (auto simp: normal_names_def list_all_iff filter_id_conv)
  ultimately show ?thesis using n by (simp add: normalizeStringArray_def normal_names_def js_unique_id)
qed

lemma normalize_idem [simp]: "normalizeStringArray (Some (normalizeStringArray xs)) = normalizeStringArray xs"
  by (rule normalize_normal_names [OF normal_names_of_normalized])

section \<open>Static service accounts\<close>

datatype service_account_error =
  SubjectMissing nat
| TokenHashMalformed nat
| NotAnAccount nat
| DuplicateTokenHashes
| SingleKeysIncomplete
| BothSourcesUsed
| AccountsNotJson
| AccountsNotArray
| NoServiceAccounts
| EmptyTokenMaterial
| AccountTypeError

record service_account =
  sac_actor :: authenticated_actor
  sac_tokenDigest :: buffer
  sac_tokenSha256 :: string

text \<open>\<open>x?.trim()\<close> and \<open>(xs ?? []).map(x => x.trim())\<close> on a property of a JSON value.\<close>

fun trim_member :: "json option \<Rightarrow> service_account_error + string option" where
  "trim_member None = Inr None"
| "trim_member (Some JNull) = Inr None"
| "trim_member (Some (JStr s)) = Inr (Some (js_trim s))"
| "trim_member (Some _) = Inl AccountTypeError"

fun json_string :: "json \<Rightarrow> string option" where
  "json_string (JStr s) = Some s"
| "json_string _ = None"

fun names_member :: "json option \<Rightarrow> service_account_error + string list option" where
  "names_member None = Inr None"
| "names_member (Some JNull) = Inr None"
| "names_member (Some (JArr vs)) =
     (if list_ex (\<lambda>v. json_string v = None) vs then Inl AccountTypeError
      else Inr (Some (map (\<lambda>v. the (json_string v)) vs)))"
| "names_member (Some _) = Inl AccountTypeError"

definition hex_digit :: "char \<Rightarrow> bool" where
  "hex_digit c \<longleftrightarrow> c \<in> set ''0123456789abcdef''"

definition sha256_text :: "string \<Rightarrow> bool" where
  "sha256_text s \<longleftrightarrow> length s = 64 \<and> list_all hex_digit s"

text \<open>\<open>Buffer.from(text, 'hex')\<close>: two digits a byte, up to the first pair that is not hexadecimal.\<close>

fun hex_bytes :: "string \<Rightarrow> buffer" where
  "hex_bytes (a # b # s) =
     (case (hex_value a, hex_value b) of
        (Some x, Some y) \<Rightarrow> word_of_nat (16 * x + y) # hex_bytes s
      | _ \<Rightarrow> [])"
| "hex_bytes _ = []"

definition assertStaticServiceAccountSubject ::
  "json_record \<Rightarrow> nat \<Rightarrow> service_account_error + string" where
  "assertStaticServiceAccountSubject account index =
     then_do (trim_member (js_get account ''subject'')) (\<lambda>subject.
       if \<not> truthy_str subject then Inl (SubjectMissing index) else Inr (the subject))"

definition assertStaticServiceAccountTokenHash ::
  "json_record \<Rightarrow> nat \<Rightarrow> service_account_error + string" where
  "assertStaticServiceAccountTokenHash account index =
     then_do (trim_member (js_get account ''tokenSha256'')) (\<lambda>trimmed.
       let tokenSha256 = map_option js_lower trimmed in
       if \<not> truthy_str tokenSha256 \<or> \<not> sha256_text (the tokenSha256)
       then Inl (TokenHashMalformed index)
       else Inr (the tokenSha256))"

text \<open>\<open>normalizeActorDescriptor(account, subject)\<close> reads the four properties in this order.\<close>

definition accountDescriptor :: "json_record \<Rightarrow> service_account_error + actor_descriptor" where
  "accountDescriptor account =
     then_do (trim_member (js_get account ''subject'')) (\<lambda>subject.
     then_do (names_member (js_get account ''roles'')) (\<lambda>roles.
     then_do (names_member (js_get account ''allowedServiceNamespaces'')) (\<lambda>namespaces.
     then_do (names_member (js_get account ''allowedTenantIds'')) (\<lambda>tenants.
       Inr \<lparr>dsc_subject = subject, dsc_roles = roles,
            dsc_allowedServiceNamespaces = namespaces, dsc_allowedTenantIds = tenants\<rparr>))))"

definition normalizeStaticServiceAccount ::
  "json \<Rightarrow> nat \<Rightarrow> service_account_error + service_account" where
  "normalizeStaticServiceAccount account index =
     (case account of
        JObj members \<Rightarrow>
          then_do (assertStaticServiceAccountSubject members index) (\<lambda>subject.
          then_do (assertStaticServiceAccountTokenHash members index) (\<lambda>tokenSha256.
          then_do (accountDescriptor members) (\<lambda>descriptor.
            Inr \<lparr>sac_actor = normalizeActorDescriptor (Some descriptor) subject,
                 sac_tokenDigest = hex_bytes tokenSha256, sac_tokenSha256 = tokenSha256\<rparr>)))
      | _ \<Rightarrow> Inl (NotAnAccount index))"

text \<open>\<open>accounts.map(normalizeStaticServiceAccount)\<close> with the index of each account.\<close>

fun normalizeAccounts :: "nat \<Rightarrow> json list \<Rightarrow> service_account_error + service_account list" where
  "normalizeAccounts index [] = Inr []"
| "normalizeAccounts index (account # accounts) =
     then_do (normalizeStaticServiceAccount account index) (\<lambda>a.
     then_do (normalizeAccounts (Suc index) accounts) (\<lambda>as. Inr (a # as)))"

definition assertUniqueStaticServiceAccountTokenHashes ::
  "service_account list \<Rightarrow> service_account_error + unit" where
  "assertUniqueStaticServiceAccountTokenHashes accounts =
     (if length (js_unique (map sac_tokenSha256 accounts)) \<noteq> length accounts
      then Inl DuplicateTokenHashes else Inr ())"

definition hashBearerTokenForServiceAccount ::
  "(string \<Rightarrow> string) \<Rightarrow> string \<Rightarrow> service_account_error + string" where
  "hashBearerTokenForServiceAccount sha256 token =
     (let normalizedToken = js_trim token in
      if normalizedToken = [] then Inl EmptyTokenMaterial else Inr (sha256 normalizedToken))"

text \<open>The accounts that \<open>createStaticServiceAccountAuthenticator\<close> keeps.\<close>

definition createStaticServiceAccountAuthenticator ::
  "json list \<Rightarrow> service_account_error + service_account list" where
  "createStaticServiceAccountAuthenticator serviceAccounts =
     (if serviceAccounts = [] then Inl NoServiceAccounts
      else
        then_do (normalizeAccounts 0 serviceAccounts) (\<lambda>accounts.
        then_do (assertUniqueStaticServiceAccountTokenHashes accounts) (\<lambda>_. Inr accounts)))"

text \<open>The \<open>authenticateHeaders\<close> of the authenticator with these accounts.\<close>

definition authenticateServiceAccount ::
  "(string \<Rightarrow> string) \<Rightarrow> service_account list \<Rightarrow> headers
     \<Rightarrow> service_account_error + authenticated_actor option" where
  "authenticateServiceAccount sha256 accounts h =
     (case extractBearerToken h ''Bearer'' of
        None \<Rightarrow> Inr None
      | Some token \<Rightarrow>
          then_do (hashBearerTokenForServiceAccount sha256 token) (\<lambda>digest.
            Inr (map_option sac_actor
                   (List.find (\<lambda>a. hex_bytes digest = sac_tokenDigest a) accounts))))"

section \<open>Service accounts from the environment\<close>

fun split_where :: "('a \<Rightarrow> bool) \<Rightarrow> 'a list \<Rightarrow> 'a list list" where
  "split_where P [] = [[]]"
| "split_where P (x # xs) =
     (if P x then [] # split_where P xs
      else (case split_where P xs of [] \<Rightarrow> [[x]] | y # ys \<Rightarrow> (x # y) # ys))"

definition readOptionalRuntimeValue :: "environment \<Rightarrow> string \<Rightarrow> string option" where
  "readOptionalRuntimeValue environment key = keep_str (env_trimmed environment key)"

definition readStaticServiceAccountListValue :: "environment \<Rightarrow> string \<Rightarrow> string list" where
  "readStaticServiceAccountListValue environment key =
     (case readOptionalRuntimeValue environment key of
        None \<Rightarrow> []
      | Some rawValue \<Rightarrow>
          js_unique (filter (\<lambda>v. v \<noteq> [])
            (map js_trim (split_where (\<lambda>c. c = CHR ''|'' \<or> c = CHR '','') rawValue))))"

abbreviation (input) "key_subject \<equiv> ''CDNGINE_SERVICE_ACCOUNT_SUBJECT''"
abbreviation (input) "key_hash \<equiv> ''CDNGINE_SERVICE_ACCOUNT_TOKEN_SHA256''"
abbreviation (input) "key_roles \<equiv> ''CDNGINE_SERVICE_ACCOUNT_ROLES''"
abbreviation (input) "key_namespaces \<equiv> ''CDNGINE_SERVICE_ACCOUNT_ALLOWED_SERVICE_NAMESPACES''"
abbreviation (input) "key_tenants \<equiv> ''CDNGINE_SERVICE_ACCOUNT_ALLOWED_TENANT_IDS''"
abbreviation (input) "key_accounts \<equiv> ''CDNGINE_SERVICE_ACCOUNT_TOKENS_JSON''"

definition hasSingleStaticServiceAccountEnvironment :: "environment \<Rightarrow> bool" where
  "hasSingleStaticServiceAccountEnvironment environment \<longleftrightarrow>
     list_ex (\<lambda>key. readOptionalRuntimeValue environment key \<noteq> None)
       [key_subject, key_hash, key_roles, key_namespaces, key_tenants]"

text \<open>A registration as the JavaScript object that the code builds from an actor and a digest.\<close>

definition registration :: "authenticated_actor \<Rightarrow> string \<Rightarrow> json" where
  "registration actor tokenSha256 =
     JObj [(''allowedServiceNamespaces'', JArr (map JStr (act_allowedServiceNamespaces actor))),
           (''allowedTenantIds'', JArr (map JStr (act_allowedTenantIds actor))),
           (''roles'', JArr (map JStr (act_roles actor))),
           (''subject'', JStr (act_subject actor)),
           (''tokenSha256'', JStr tokenSha256)]"

definition loadSingleStaticServiceAccountFromEnvironment ::
  "environment \<Rightarrow> service_account_error + json option" where
  "loadSingleStaticServiceAccountFromEnvironment environment =
     (if \<not> hasSingleStaticServiceAccountEnvironment environment then Inr None
      else
        (case (readOptionalRuntimeValue environment key_subject,
               readOptionalRuntimeValue environment key_hash) of
           (Some subject, Some tokenSha256) \<Rightarrow>
             then_do (normalizeStaticServiceAccount
                 (registration
                   \<lparr>act_subject = subject,
                    act_roles = readStaticServiceAccountListValue environment key_roles,
                    act_allowedServiceNamespaces =
                      readStaticServiceAccountListValue environment key_namespaces,
                    act_allowedTenantIds =
                      readStaticServiceAccountListValue environment key_tenants\<rparr>
                   tokenSha256) 0)
               (\<lambda>a. Inr (Some (registration (sac_actor a) (sac_tokenSha256 a))))
         | _ \<Rightarrow> Inl SingleKeysIncomplete))"

definition loadStaticServiceAccountRuntimeConfigFromEnvironment ::
  "(string \<Rightarrow> json option) \<Rightarrow> environment \<Rightarrow> service_account_error + json list" where
  "loadStaticServiceAccountRuntimeConfigFromEnvironment parseJson environment =
     (let rawValue = readOptionalRuntimeValue environment key_accounts in
      then_do (loadSingleStaticServiceAccountFromEnvironment environment) (\<lambda>singleAccount.
        if rawValue \<noteq> None \<and> singleAccount \<noteq> None then Inl BothSourcesUsed
        else
          (case rawValue of
             None \<Rightarrow> Inr (case singleAccount of None \<Rightarrow> [] | Some a \<Rightarrow> [a])
           | Some text \<Rightarrow>
               (case parseJson text of
                  None \<Rightarrow> Inl AccountsNotJson
                | Some (JArr parsed) \<Rightarrow>
                    then_do (normalizeAccounts 0 parsed) (\<lambda>accounts.
                    then_do (assertUniqueStaticServiceAccountTokenHashes accounts) (\<lambda>_.
                      Inr (map (\<lambda>a. registration (sac_actor a) (sac_tokenSha256 a)) accounts)))
                | Some _ \<Rightarrow> Inl AccountsNotArray))))"

definition createStaticServiceAccountAuthenticatorFromEnvironment ::
  "(string \<Rightarrow> json option) \<Rightarrow> environment \<Rightarrow> service_account_error + service_account list" where
  "createStaticServiceAccountAuthenticatorFromEnvironment parseJson environment =
     then_do (loadStaticServiceAccountRuntimeConfigFromEnvironment parseJson environment)
       (\<lambda>serviceAccounts.
          if serviceAccounts = [] then Inl NoServiceAccounts
          else createStaticServiceAccountAuthenticator serviceAccounts)"

section \<open>Laws of the service accounts\<close>

lemma hex_digit_value:
  assumes "hex_digit c"
  shows "\<exists>x < 16. hex_value c = Some x \<and> c = hex_char x"
proof -
  have "list_all (\<lambda>c. case hex_value c of None \<Rightarrow> False | Some x \<Rightarrow> x < 16 \<and> c = hex_char x)
      ''0123456789abcdef''" by code_simp
  then show ?thesis using assms unfolding list_all_iff hex_digit_def
    by (auto split: option.splits dest!: bspec)
qed

lemma byte_inj:
  "(word_of_nat m :: 8 word) = word_of_nat n \<Longrightarrow> m < 256 \<Longrightarrow> n < 256 \<Longrightarrow> m = n"
  by (simp add: word_of_nat_eq_iff take_bit_nat_eq_self)

lemma nibbles: "16 * x + y = 16 * x' + y' \<Longrightarrow> y < 16 \<Longrightarrow> y' < 16 \<Longrightarrow> x = x' \<and> y = (y' :: nat)"
proof -
  assume e: "16 * x + y = 16 * x' + y'" and y: "y < 16" "y' < 16"
  have "(16 * x + y) div 16 = x" "(16 * x' + y') div 16 = x'" using y by simp_all
  then show ?thesis using e by simp
qed

lemma hex_bytes_inj:
  "list_all hex_digit a \<Longrightarrow> list_all hex_digit b \<Longrightarrow> length a = length b \<Longrightarrow> even (length a)
     \<Longrightarrow> hex_bytes a = hex_bytes b \<Longrightarrow> a = b"
proof (induction a arbitrary: b rule: hex_bytes.induct)
  case (1 c d s)
  obtain c' d' s' where b: "b = c' # d' # s'" using 1(4) by (metis length_Suc_conv)
  obtain x y where x: "x < 16" "hex_value c = Some x" "c = hex_char x"
    and y: "y < 16" "hex_value d = Some y" "d = hex_char y"
    using 1(2) hex_digit_value [of c] hex_digit_value [of d] by auto
  obtain x' y' where x': "x' < 16" "hex_value c' = Some x'" "c' = hex_char x'"
    and y': "y' < 16" "hex_value d' = Some y'" "d' = hex_char y'"
    using 1(3) b hex_digit_value [of c'] hex_digit_value [of d'] by auto
  have e: "(word_of_nat (16 * x + y) :: 8 word) = word_of_nat (16 * x' + y')"
    and s: "hex_bytes s = hex_bytes s'" using 1(6) b x y x' y' by simp_all
  have "16 * x + y = 16 * x' + y'"
    by (rule byte_inj [OF e]) (use x(1) y(1) x'(1) y'(1) in linarith)+
  then have "x = x'" "y = y'" using y(1) y'(1) nibbles by blast+
  moreover have "s = s'" using 1(1) [OF refl x(2) y(2)] 1(2-5) b s by simp
  ultimately show ?case using b x y x' y' by simp
qed auto

lemma sha256_bytes: "sha256_text a \<Longrightarrow> sha256_text b \<Longrightarrow> hex_bytes a = hex_bytes b \<longleftrightarrow> a = b"
  using hex_bytes_inj [of a b] by (auto simp: sha256_text_def)

lemma hex_digit_plain: "hex_digit c \<Longrightarrow> \<not> js_space c \<and> js_lower_char c = c"
  by (auto simp: hex_digit_def js_space_def js_lower_char_def)

lemma sha256_plain:
  assumes "sha256_text s"
  shows "js_trim s = s" "js_lower s = s" "s \<noteq> []"
proof -
  show s: "s \<noteq> []" using assms by (auto simp: sha256_text_def)
  then have "hd s \<in> set s" "last s \<in> set s" by simp_all
  then have "trimmed s" using assms hex_digit_plain
    by (auto simp: trimmed_def sha256_text_def list_all_iff)
  then show "js_trim s = s" by (rule js_trim_id)
  show "js_lower s = s" using assms hex_digit_plain
    by (auto simp: js_lower_def sha256_text_def list_all_iff intro!: map_idI)
qed

text \<open>An account that the code has normalized.\<close>

definition normal_actor :: "authenticated_actor \<Rightarrow> bool" where
  "normal_actor a \<longleftrightarrow> act_subject a \<noteq> [] \<and> trimmed (act_subject a) \<and> normal_names (act_roles a) \<and>
     normal_names (act_allowedServiceNamespaces a) \<and> normal_names (act_allowedTenantIds a)"

definition normal_account :: "service_account \<Rightarrow> bool" where
  "normal_account a \<longleftrightarrow> normal_actor (sac_actor a) \<and> sha256_text (sac_tokenSha256 a) \<and>
     sac_tokenDigest a = hex_bytes (sac_tokenSha256 a)"

lemma trim_member_trimmed: "trim_member v = Inr (Some s) \<Longrightarrow> trimmed s"
  by (cases v rule: trim_member.cases) (auto simp: trimmed_js_trim)

lemma normal_actor_of_descriptor:
  assumes "trimmed d" "d \<noteq> []"
  shows "normal_actor (normalizeActorDescriptor x d)"
  using assms by (cases "Option.bind x dsc_subject")
    (auto simp: normal_actor_def normalizeActorDescriptor_def normal_names_of_normalized
      or_text_def trimmed_js_trim)

lemma normalized_account_normal:
  assumes "normalizeStaticServiceAccount v i = Inr a"
  shows "normal_account a"
proof -
  obtain m subject hash d where m: "v = JObj m"
    and s: "assertStaticServiceAccountSubject m i = Inr subject"
    and h: "assertStaticServiceAccountTokenHash m i = Inr hash"
    and a: "a = \<lparr>sac_actor = normalizeActorDescriptor (Some d) subject, sac_tokenDigest = hex_bytes hash,
                 sac_tokenSha256 = hash\<rparr>"
    using assms by (auto simp: normalizeStaticServiceAccount_def then_do_ok split: json.splits)
  have "trimmed subject \<and> subject \<noteq> []"
    using s by (auto simp: assertStaticServiceAccountSubject_def then_do_ok split: if_splits
        dest: trim_member_trimmed elim!: truthy_str.elims)
  moreover have "sha256_text hash"
    using h by (auto simp: assertStaticServiceAccountTokenHash_def then_do_ok Let_def split: if_splits)
  ultimately show ?thesis by (simp add: a normal_account_def normal_actor_of_descriptor)
qed

lemma normalized_accounts_normal:
  "normalizeAccounts i vs = Inr as \<Longrightarrow> list_all normal_account as"
  by (induction vs arbitrary: i as) (auto simp: then_do_ok dest: normalized_account_normal)

lemma names_member_texts: "names_member (Some (JArr (map JStr xs))) = Inr (Some xs)"
  by (auto simp: list_ex_iff comp_def)

lemma normalize_registration:
  assumes "normal_actor actor" "sha256_text hash"
  shows "normalizeStaticServiceAccount (registration actor hash) i =
    Inr \<lparr>sac_actor = actor, sac_tokenDigest = hex_bytes hash, sac_tokenSha256 = hash\<rparr>"
proof -
  note n = assms(1) [unfolded normal_actor_def]
  note h = sha256_plain [OF assms(2)]
  have "normalizeActorDescriptor (Some \<lparr>dsc_subject = Some (act_subject actor),
      dsc_roles = Some (act_roles actor),
      dsc_allowedServiceNamespaces = Some (act_allowedServiceNamespaces actor),
      dsc_allowedTenantIds = Some (act_allowedTenantIds actor)\<rparr>) (act_subject actor) = actor"
    using n by (simp add: normalizeActorDescriptor_def normalize_normal_names js_trim_id or_text_def)
  then show ?thesis using n h assms(2)
    by (simp add: normalizeStaticServiceAccount_def registration_def js_trim_id
        assertStaticServiceAccountSubject_def assertStaticServiceAccountTokenHash_def
        accountDescriptor_def names_member_texts del: names_member.simps)
qed

lemma normalize_registrations:
  "list_all normal_account as \<Longrightarrow>
     normalizeAccounts i (map (\<lambda>a. registration (sac_actor a) (sac_tokenSha256 a)) as) = Inr as"
proof (induction as arbitrary: i)
  case (Cons a as)
  have "normalizeStaticServiceAccount (registration (sac_actor a) (sac_tokenSha256 a)) i = Inr a"
    using Cons(2) by (simp add: normalize_registration normal_account_def)
  then show ?case using Cons by simp
qed simp

section \<open>The authenticator\<close>

lemma extracted_token: "extractBearerToken h scheme = Some t \<Longrightarrow> trimmed t \<and> t \<noteq> []"
  by (auto simp: extractBearerToken_def Let_def trimmed_js_trim split: if_splits)

lemma accepted_accounts:
  assumes "createStaticServiceAccountAuthenticator vs = Inr accounts"
  shows "list_all normal_account accounts" "distinct (map sac_tokenSha256 accounts)" "accounts \<noteq> []"
proof -
  have n: "normalizeAccounts 0 vs = Inr accounts" "vs \<noteq> []"
    and u: "assertUniqueStaticServiceAccountTokenHashes accounts = Inr ()"
    using assms by (auto simp: createStaticServiceAccountAuthenticator_def then_do_ok split: if_splits)
  show "list_all normal_account accounts" by (rule normalized_accounts_normal [OF n(1)])
  show "distinct (map sac_tokenSha256 accounts)"
    using u length_js_unique [of "map sac_tokenSha256 accounts"]
    by (auto simp: assertUniqueStaticServiceAccountTokenHashes_def split: if_splits)
  show "accounts \<noteq> []" using n by (cases vs) (auto simp: then_do_ok)
qed

lemma environment_accounts:
  assumes "createStaticServiceAccountAuthenticatorFromEnvironment parseJson environment = Inr accounts"
  obtains vs where "createStaticServiceAccountAuthenticator vs = Inr accounts"
    "loadStaticServiceAccountRuntimeConfigFromEnvironment parseJson environment = Inr vs"
  using assms
  by (auto simp: createStaticServiceAccountAuthenticatorFromEnvironment_def then_do_ok split: if_splits)

lemma find_account:
  assumes "list_all normal_account accounts" "distinct (map sac_tokenSha256 accounts)" "sha256_text d"
  shows "List.find (\<lambda>a. hex_bytes d = sac_tokenDigest a) accounts = Some a \<longleftrightarrow>
    a \<in> set accounts \<and> sac_tokenSha256 a = d"
  using assms
proof (induction accounts)
  case (Cons b accounts)
  have "hex_bytes d = sac_tokenDigest b \<longleftrightarrow> d = sac_tokenSha256 b"
    using Cons(2,4) sha256_bytes by (auto simp: normal_account_def)
  then show ?case using Cons by (auto simp: image_iff)
qed simp

lemma authenticate_accounts:
  assumes "list_all normal_account accounts" "distinct (map sac_tokenSha256 accounts)"
    and sha: "\<forall>t. sha256_text (sha256 t)"
  shows "\<exists>r. authenticateServiceAccount sha256 accounts h = Inr r \<and>
    (\<forall>actor. r = Some actor \<longleftrightarrow>
      (\<exists>t a. extractBearerToken h ''Bearer'' = Some t \<and> a \<in> set accounts \<and>
         sac_tokenSha256 a = sha256 t \<and> actor = sac_actor a))"
proof (cases "extractBearerToken h ''Bearer''")
  case (Some t)
  have t: "js_trim t = t" "t \<noteq> []" using extracted_token [OF Some] js_trim_id by auto
  show ?thesis using t Some find_account [OF assms(1,2) sha [rule_format, of t]]
    by (auto simp: authenticateServiceAccount_def hashBearerTokenForServiceAccount_def)
qed (simp add: authenticateServiceAccount_def)


definition example_digest :: "string \<Rightarrow> string" where
  "example_digest t = replicate 64 (if t = ''s3cret'' then CHR ''a'' else CHR ''0'')"

definition example_account_environment :: environment where
  "example_account_environment =
     [(key_subject, '' ci-runner ''), (key_hash, replicate 64 (CHR ''A'')),
      (key_roles, ''operator | platform-admin,operator''), (key_tenants, '' , '')]"

definition example_account :: service_account where
  "example_account =
     \<lparr>sac_actor = \<lparr>act_subject = ''ci-runner'', act_roles = [''operator'', ''platform-admin''],
                    act_allowedServiceNamespaces = [], act_allowedTenantIds = []\<rparr>,
      sac_tokenDigest = hex_bytes (replicate 64 (CHR ''a'')),
      sac_tokenSha256 = replicate 64 (CHR ''a'')\<rparr>"

lemma example_digest_text: "\<forall>t. sha256_text (example_digest t)"
  by (simp add: example_digest_def sha256_text_def list_all_iff hex_digit_def)

lemma example_accounts:
  "createStaticServiceAccountAuthenticatorFromEnvironment (\<lambda>_. None) example_account_environment =
     Inr [example_account]"
  by code_simp


text \<open>A token that is sent comes back.\<close>

lemma http_space_js: "http_space c \<Longrightarrow> js_space c"
  by (auto simp: http_space_def js_space_def)

lemma bearer_roundtrip:
  assumes "trimmed t" "t \<noteq> []"
  shows "extractBearerToken (toHeaders (buildBearerHeaders t [])) ''Bearer'' = Some t"
proof -
  have l: "\<not> js_space (last t)" "\<not> js_space (hd t)" using assms by (auto simp: trimmed_def)
  obtain u x where u: "t = u @ [x]" using assms(2) by (metis rev_exhaust)
  have "http_strip (''Bearer '' @ t) = ''Bearer '' @ t"
    using l u http_space_js by (auto simp: http_strip_def http_space_def [of "CHR ''B''"])
  moreover have "js_trim (''Bearer '' @ t) = ''Bearer '' @ t"
    using l assms(2) by (intro js_trim_id) (simp add: trimmed_def js_space_def [of "CHR ''B''"])
  moreover have "js_lower ''authorization'' = ''authorization''" by code_simp
  ultimately show ?thesis using assms
    by (simp add: extractBearerToken_def Let_def buildBearerHeaders_def toHeaders_def appendHeader_def
        headers_get_def js_trim_id)
qed

section \<open>Better Auth sessions\<close>

record better_session =
  bss_subject :: "string option"
  bss_roles :: "string list option"
  bss_allowedServiceNamespaces :: "string list option"
  bss_allowedTenantIds :: "string list option"
  bss_userId :: string

record resolve_input =
  rsi_sessionId :: string
  rsi_userEmail :: string
  rsi_userId :: string
  rsi_userName :: string

text \<open>The callback of \<open>customSession\<close>: what it adds to the session of the user.\<close>

definition customSessionView ::
  "(resolve_input \<Rightarrow> actor_descriptor option) option \<Rightarrow> resolve_input \<Rightarrow> better_session" where
  "customSessionView resolveActor i =
     (let resolve = nullish resolveActor
            (\<lambda>i. Some \<lparr>dsc_subject = Some (rsi_userId i), dsc_roles = None,
                       dsc_allowedServiceNamespaces = None, dsc_allowedTenantIds = None\<rparr>);
          actor = normalizeActorDescriptor (resolve i) (rsi_userId i) in
      \<lparr>bss_subject = Some (act_subject actor), bss_roles = Some (act_roles actor),
       bss_allowedServiceNamespaces = Some (act_allowedServiceNamespaces actor),
       bss_allowedTenantIds = Some (act_allowedTenantIds actor), bss_userId = rsi_userId i\<rparr>)"

definition authenticateSession :: "better_session option \<Rightarrow> authenticated_actor option" where
  "authenticateSession session =
     map_option (\<lambda>s. normalizeActorDescriptor
       (Some \<lparr>dsc_subject = keep_str (bss_subject s), dsc_roles = bss_roles s,
              dsc_allowedServiceNamespaces = bss_allowedServiceNamespaces s,
              dsc_allowedTenantIds = bss_allowedTenantIds s\<rparr>) (bss_userId s)) session"

lemma session_actor:
  assumes "trimmed (rsi_userId i)" "rsi_userId i \<noteq> []"
  shows "authenticateSession (Some (customSessionView (Some resolve) i)) =
    Some (normalizeActorDescriptor (resolve i) (rsi_userId i))"
proof -
  let ?a = "normalizeActorDescriptor (resolve i) (rsi_userId i)"
  have "normal_actor ?a" by (rule normal_actor_of_descriptor [OF assms])
  then show ?thesis unfolding authenticateSession_def customSessionView_def Let_def
    by (simp add: normal_actor_def keep_str_def normalizeActorDescriptor_def [of "Some _"]
        normalize_normal_names js_trim_id or_text_def)
qed

datatype auth_config_error =
  AuthValueRequired string
| AuthNotPositiveInteger string string
| AuthNotBoolean string string
| AuthNotJson string
| AuthNotStringArray string

record session_config =
  ses_deferSessionRefresh :: bool
  ses_disableSessionRefresh :: bool
  ses_expiresInSeconds :: int
  ses_freshAgeSeconds :: int
  ses_updateAgeSeconds :: int

record better_auth_config =
  bac_baseURL :: string
  bac_secret :: string
  bac_session :: session_config
  bac_trustedOrigins :: "string list"

definition readRequiredRuntimeValue :: "environment \<Rightarrow> string \<Rightarrow> auth_config_error + string" where
  "readRequiredRuntimeValue environment key =
     (let v = env_trimmed environment key in
      if \<not> truthy_str v then Inl (AuthValueRequired key) else Inr (the v))"

definition readPositiveIntegerRuntimeValue ::
  "(string \<Rightarrow> int option) \<Rightarrow> environment \<Rightarrow> string \<Rightarrow> int \<Rightarrow> auth_config_error + int" where
  "readPositiveIntegerRuntimeValue number environment key fallback =
     (let rawValue = env_trimmed environment key in
      if \<not> truthy_str rawValue then Inr fallback
      else
        (case number (the rawValue) of
           None \<Rightarrow> Inl (AuthNotPositiveInteger key (the rawValue))
         | Some parsed \<Rightarrow>
             if parsed \<le> 0 then Inl (AuthNotPositiveInteger key (the rawValue)) else Inr parsed))"

definition readBooleanRuntimeValue ::
  "environment \<Rightarrow> string \<Rightarrow> bool \<Rightarrow> auth_config_error + bool" where
  "readBooleanRuntimeValue environment key fallback =
     (let rawValue = env_trimmed environment key in
      if \<not> truthy_str rawValue then Inr fallback
      else if the rawValue = ''true'' then Inr True
      else if the rawValue = ''false'' then Inr False
      else Inl (AuthNotBoolean key (the rawValue)))"

definition readJsonStringArray ::
  "(string \<Rightarrow> json option) \<Rightarrow> environment \<Rightarrow> string \<Rightarrow> auth_config_error + string list" where
  "readJsonStringArray parseJson environment key =
     (let rawValue = env_trimmed environment key in
      if \<not> truthy_str rawValue then Inr []
      else
        (case parseJson (the rawValue) of
           None \<Rightarrow> Inl (AuthNotJson key)
         | Some (JArr vs) \<Rightarrow>
             if list_ex (\<lambda>v. case json_string v of None \<Rightarrow> True | Some s \<Rightarrow> js_trim s = []) vs
             then Inl (AuthNotStringArray key)
             else Inr (js_unique (map (\<lambda>v. js_trim (the (json_string v))) vs))
         | Some _ \<Rightarrow> Inl (AuthNotStringArray key)))"

definition loadBetterAuthRuntimeConfigFromEnvironment ::
  "(string \<Rightarrow> int option) \<Rightarrow> (string \<Rightarrow> json option) \<Rightarrow> environment
     \<Rightarrow> auth_config_error + better_auth_config" where
  "loadBetterAuthRuntimeConfigFromEnvironment number parseJson environment =
     then_do (readRequiredRuntimeValue environment ''CDNGINE_AUTH_BASE_URL'') (\<lambda>baseURL.
     then_do (readRequiredRuntimeValue environment ''CDNGINE_AUTH_SECRET'') (\<lambda>secret.
     then_do (readBooleanRuntimeValue environment ''CDNGINE_AUTH_DEFER_SESSION_REFRESH'' True) (\<lambda>defer.
     then_do (readBooleanRuntimeValue environment ''CDNGINE_AUTH_DISABLE_SESSION_REFRESH'' False) (\<lambda>disable.
     then_do (readPositiveIntegerRuntimeValue number environment
                ''CDNGINE_AUTH_SESSION_EXPIRES_IN_SECONDS'' (60 * 60 * 24 * 7)) (\<lambda>expires.
     then_do (readPositiveIntegerRuntimeValue number environment
                ''CDNGINE_AUTH_SESSION_FRESH_AGE_SECONDS'' (60 * 5)) (\<lambda>fresh.
     then_do (readPositiveIntegerRuntimeValue number environment
                ''CDNGINE_AUTH_SESSION_UPDATE_AGE_SECONDS'' (60 * 60 * 24)) (\<lambda>update.
     then_do (readJsonStringArray parseJson environment ''CDNGINE_AUTH_TRUSTED_ORIGINS_JSON'') (\<lambda>origins.
       Inr \<lparr>bac_baseURL = baseURL, bac_secret = secret,
            bac_session = \<lparr>ses_deferSessionRefresh = defer, ses_disableSessionRefresh = disable,
              ses_expiresInSeconds = expires, ses_freshAgeSeconds = fresh,
              ses_updateAgeSeconds = update\<rparr>,
            bac_trustedOrigins = origins\<rparr>))))))))"

lemma loaded_auth_config:
  assumes "loadBetterAuthRuntimeConfigFromEnvironment number parseJson environment = Inr c"
  shows "bac_baseURL c \<noteq> [] \<and> bac_secret c \<noteq> [] \<and> trimmed (bac_secret c) \<and>
    0 < ses_expiresInSeconds (bac_session c) \<and> 0 < ses_freshAgeSeconds (bac_session c) \<and>
    0 < ses_updateAgeSeconds (bac_session c) \<and> normal_names (bac_trustedOrigins c)"
proof -
  have required: "v \<noteq> [] \<and> trimmed v" if "readRequiredRuntimeValue environment key = Inr v" for key v
    using that by (cases "js_get environment key")
      (auto simp: readRequiredRuntimeValue_def Let_def trimmed_js_trim split: if_splits)
  have positive: "0 < v" if "readPositiveIntegerRuntimeValue number environment key d = Inr v" "0 < d"
    for key d v
    using that by (auto simp: readPositiveIntegerRuntimeValue_def Let_def split: if_splits option.splits)
  have names: "normal_names v" if "readJsonStringArray parseJson environment key = Inr v" for key v
    using that by (fastforce simp: readJsonStringArray_def Let_def normal_names_def list_all_iff
        list_ex_iff trimmed_js_trim split: if_splits option.splits json.splits)
  show ?thesis using assms unfolding loadBetterAuthRuntimeConfigFromEnvironment_def then_do_ok
    by (elim exE conjE) (auto dest: required names intro: positive)
qed

section \<open>Problems\<close>

record problem =
  prb_type :: string
  prb_title :: string
  prb_status :: nat
  prb_detail :: string
  prb_retryable :: bool
  prb_instance :: "string option"

datatype 'e api_error = ProblemDetailError problem | ThrownError 'e

definition problem_of :: "string \<Rightarrow> string \<Rightarrow> nat \<Rightarrow> string \<Rightarrow> bool \<Rightarrow> problem" where
  "problem_of name title status detail retryable =
     \<lparr>prb_type = ''https://docs.cdngine.dev/problems/'' @ name, prb_title = title,
      prb_status = status, prb_detail = detail, prb_retryable = retryable, prb_instance = None\<rparr>"

text \<open>\<open>message\<close> gives the message of a thrown value that is an \<open>Error\<close>.\<close>

definition mapUnknownErrorToProblem :: "('e \<Rightarrow> string option) \<Rightarrow> 'e api_error \<Rightarrow> problem" where
  "mapUnknownErrorToProblem message e =
     (case e of
        ProblemDetailError p \<Rightarrow> p
      | ThrownError x \<Rightarrow>
          problem_of ''internal-error'' ''Internal error'' 500
            (nullish (message x) ''The API encountered an unexpected error.'') False)"

text \<open>The body and status of \<open>createProblemResponse\<close>.\<close>

definition createProblemResponse :: "string \<Rightarrow> problem \<Rightarrow> problem \<times> nat" where
  "createProblemResponse path p =
     (if truthy_str (prb_instance p) then p else p\<lparr>prb_instance := Some path\<rparr>, prb_status p)"

section \<open>The request context\<close>

datatype api_surface = srf_public | srf_platform_admin | srf_operator

fun surface_name :: "api_surface \<Rightarrow> string" where
  "surface_name srf_public = ''public''"
| "surface_name srf_platform_admin = ''platform-admin''"
| "surface_name srf_operator = ''operator''"

record requested_scope =
  rsc_serviceNamespaceId :: "string option"
  rsc_tenantId :: "string option"

record correlation =
  cor_requestId :: string
  cor_serviceNamespaceId :: "string option"
  cor_tenantId :: "string option"
  cor_assetId :: "string option"
  cor_versionId :: "string option"
  cor_workflowId :: "string option"

record api_context =
  ctx_actor :: "authenticated_actor option"
  ctx_surface :: "api_surface option"
  ctx_requestedScope :: requested_scope
  ctx_correlation :: correlation
  ctx_requestId :: string
  ctx_requestStartedAt :: int
  ctx_requestDeadlineAt :: int

definition readHeader :: "string option \<Rightarrow> string option" where
  "readHeader value = keep_str (map_option js_trim value)"

definition createRequestedScope :: "string option \<Rightarrow> string option \<Rightarrow> requested_scope" where
  "createRequestedScope serviceNamespaceId tenantId =
     \<lparr>rsc_serviceNamespaceId = keep_str serviceNamespaceId, rsc_tenantId = keep_str tenantId\<rparr>"

definition createCorrelation ::
  "string \<Rightarrow> string option \<Rightarrow> string option \<Rightarrow> string option \<Rightarrow> string option \<Rightarrow> string option
     \<Rightarrow> correlation" where
  "createCorrelation requestId serviceNamespaceId tenantId assetId versionId workflowId =
     \<lparr>cor_requestId = requestId, cor_serviceNamespaceId = keep_str serviceNamespaceId,
      cor_tenantId = keep_str tenantId, cor_assetId = keep_str assetId,
      cor_versionId = keep_str versionId, cor_workflowId = keep_str workflowId\<rparr>"

text \<open>The context that \<open>requestContextMiddleware\<close> has set before it calls the next handler.\<close>

definition requestContext :: "string \<Rightarrow> int \<Rightarrow> int \<Rightarrow> headers \<Rightarrow> api_context" where
  "requestContext randomUUID now timeoutMs h =
     (let read = (\<lambda>name. readHeader (headers_get h name));
          requestId = nullish (read ''x-request-id'') randomUUID;
          serviceNamespaceId = read ''x-cdngine-service-namespace'';
          tenantId = read ''x-cdngine-tenant-id'' in
      \<lparr>ctx_actor = None, ctx_surface = None,
       ctx_requestedScope = createRequestedScope serviceNamespaceId tenantId,
       ctx_correlation = createCorrelation requestId serviceNamespaceId tenantId
         (read ''x-cdngine-asset-id'') (read ''x-cdngine-version-id'')
         (read ''x-cdngine-workflow-id''),
       ctx_requestId = requestId, ctx_requestStartedAt = now,
       ctx_requestDeadlineAt = now + timeoutMs\<rparr>)"

section \<open>Roles and scopes\<close>

definition ensureSurfaceRole :: "api_surface \<Rightarrow> authenticated_actor \<Rightarrow> 'e api_error + unit" where
  "ensureSurfaceRole surface actor =
     (if surface = srf_platform_admin \<and>
         \<not> list_ex (\<lambda>role. role = ''platform-admin'' \<or> role = ''operator'') (act_roles actor)
      then Inl (ProblemDetailError (problem_of ''forbidden'' ''Forbidden'' 403
        ''The caller is not allowed to use the platform-admin surface.'' False))
      else if surface = srf_operator \<and> ''operator'' \<notin> set (act_roles actor)
      then Inl (ProblemDetailError (problem_of ''forbidden'' ''Forbidden'' 403
        ''The caller is not allowed to use the operator surface.'' False))
      else Inr ())"

text \<open>An authenticator may throw; without an authenticator there is no actor.\<close>

type_synonym 'e authenticator = "headers \<Rightarrow> 'e + authenticated_actor option"

definition authenticationMiddleware ::
  "api_surface \<Rightarrow> 'e authenticator option \<Rightarrow> headers \<Rightarrow> api_context \<Rightarrow> 'e api_error + api_context" where
  "authenticationMiddleware surface auth h ctx =
     then_do (case auth of None \<Rightarrow> Inr None | Some f \<Rightarrow> map_sum ThrownError id (f h)) (\<lambda>found.
       case found of
         None \<Rightarrow> Inl (ProblemDetailError (problem_of ''unauthorized'' ''Unauthorized'' 401
           ''A bearer token is required for this API surface.'' False))
       | Some actor \<Rightarrow>
           then_do (ensureSurfaceRole surface actor) (\<lambda>_.
             Inr (ctx\<lparr>ctx_actor := Some actor, ctx_surface := Some surface\<rparr>)))"

definition assertAuthorizedScope :: "api_context \<Rightarrow> requested_scope \<Rightarrow> 'e api_error + unit" where
  "assertAuthorizedScope ctx requestedScope =
     (case ctx_actor ctx of
        None \<Rightarrow> Inl (ProblemDetailError (problem_of ''unauthorized'' ''Unauthorized'' 401
          ''Authenticated actor context is required before scope checks can run.'' False))
      | Some actor \<Rightarrow>
          if truthy_str (rsc_serviceNamespaceId requestedScope) \<and>
             act_allowedServiceNamespaces actor \<noteq> [] \<and>
             the (rsc_serviceNamespaceId requestedScope) \<notin> set (act_allowedServiceNamespaces actor)
          then Inl (ProblemDetailError (problem_of ''scope-not-allowed'' ''Scope not allowed'' 403
            (''The caller is not allowed to act in service namespace '' @
             the (rsc_serviceNamespaceId requestedScope) @ ''.'') False))
          else if truthy_str (rsc_tenantId requestedScope) \<and> act_allowedTenantIds actor \<noteq> [] \<and>
             the (rsc_tenantId requestedScope) \<notin> set (act_allowedTenantIds actor)
          then Inl (ProblemDetailError (problem_of ''scope-not-allowed'' ''Scope not allowed'' 403
            (''The caller is not allowed to act in tenant scope '' @
             the (rsc_tenantId requestedScope) @ ''.'') False))
          else Inr ())"

definition requireRequestedScope :: "api_context \<Rightarrow> 'e api_error + requested_scope" where
  "requireRequestedScope ctx =
     then_do (assertAuthorizedScope ctx (ctx_requestedScope ctx))
       (\<lambda>_. Inr (ctx_requestedScope ctx))"

text \<open>The three surfaces: the operator and platform routes lie below \<open>/v1\<close>, so the middleware of the
  public surface runs before their own.\<close>

fun surfaceChain :: "api_surface \<Rightarrow> api_surface list" where
  "surfaceChain srf_public = [srf_public]"
| "surfaceChain s = [srf_public, s]"

fun enterSurfaces ::
  "'e authenticator option \<Rightarrow> headers \<Rightarrow> api_surface list \<Rightarrow> api_context \<Rightarrow> 'e api_error + api_context" where
  "enterSurfaces auth h [] ctx = Inr ctx"
| "enterSurfaces auth h (s # ss) ctx =
     then_do (authenticationMiddleware s auth h ctx) (enterSurfaces auth h ss)"

definition enterSurface ::
  "'e authenticator option \<Rightarrow> headers \<Rightarrow> api_surface \<Rightarrow> api_context \<Rightarrow> 'e api_error + api_context" where
  "enterSurface auth h surface ctx = enterSurfaces auth h (surfaceChain surface) ctx"

text \<open>What an actor may reach. An empty list allows everything, and a scope without a tenant is not
  checked against the tenants.\<close>

definition scope_allows :: "authenticated_actor \<Rightarrow> string option \<Rightarrow> string option \<Rightarrow> bool" where
  "scope_allows actor namespace tenant \<longleftrightarrow>
     (truthy_str namespace \<and> act_allowedServiceNamespaces actor \<noteq> []
        \<longrightarrow> the namespace \<in> set (act_allowedServiceNamespaces actor)) \<and>
     (truthy_str tenant \<and> act_allowedTenantIds actor \<noteq> []
        \<longrightarrow> the tenant \<in> set (act_allowedTenantIds actor))"

definition surface_allows :: "api_surface \<Rightarrow> authenticated_actor \<Rightarrow> bool" where
  "surface_allows surface actor \<longleftrightarrow>
     (surface = srf_platform_admin
        \<longrightarrow> ''platform-admin'' \<in> set (act_roles actor) \<or> ''operator'' \<in> set (act_roles actor)) \<and>
     (surface = srf_operator \<longrightarrow> ''operator'' \<in> set (act_roles actor))"

lemma authorized_scope_iff:
  "assertAuthorizedScope ctx scope = Inr () \<longleftrightarrow>
     (\<exists>actor. ctx_actor ctx = Some actor \<and>
        scope_allows actor (rsc_serviceNamespaceId scope) (rsc_tenantId scope))"
  by (auto simp: assertAuthorizedScope_def scope_allows_def split: option.splits)

lemma refused_scope_status:
  assumes "assertAuthorizedScope ctx scope = Inl e"
  shows "\<exists>p. e = ProblemDetailError p \<and> prb_status p = (if ctx_actor ctx = None then 401 else 403)"
  using assms by (auto simp: assertAuthorizedScope_def problem_of_def split: option.splits if_splits)

lemma surface_role_iff: "ensureSurfaceRole surface actor = Inr () \<longleftrightarrow> surface_allows surface actor"
  by (auto simp: ensureSurfaceRole_def surface_allows_def list_ex_iff)

lemma entered_surface:
  "enterSurface auth h surface ctx = Inr ctx' \<longleftrightarrow>
     (\<exists>f actor. auth = Some f \<and> f h = Inr (Some actor) \<and> surface_allows surface actor \<and>
        ctx' = ctx\<lparr>ctx_actor := Some actor, ctx_surface := Some surface\<rparr>)"
proof -
  have m: "authenticationMiddleware s auth h c = Inr c' \<longleftrightarrow>
      (\<exists>f actor. auth = Some f \<and> f h = Inr (Some actor) \<and> surface_allows s actor \<and>
         c' = c\<lparr>ctx_actor := Some actor, ctx_surface := Some s\<rparr>)" for s c c'
    by (auto simp: authenticationMiddleware_def then_do_ok surface_role_iff map_sum_def
        split: option.splits sum.splits)
  have "surface_allows srf_public actor" for actor by (simp add: surface_allows_def)
  then show ?thesis by (cases surface) (auto simp: enterSurface_def then_do_ok m)
qed

end
