(* ===== verification/Delivery_Routes.thy ===== *)
theory Delivery_Routes
  imports Api_Access Durable_Delivery
begin

text \<open>
  The public delivery API: the routes of \<open>apps/api/src/public/delivery-routes.ts\<close> behind the
  authentication of \<open>Api_Access\<close>, over the in-memory store of \<open>Public_Delivery\<close>, with the output
  workflows of \<open>output-workflow-service.ts\<close>. A route runs without a pause. The bodies are those
  that the schemas of the routes accept; \<open>message\<close> is the message of a foreign error.
\<close>

section \<open>Output workflows\<close>

datatype authorization_kind = kind_source | kind_delivery

fun kind_name :: "authorization_kind \<Rightarrow> string" where
  "kind_name kind_source = ''source''"
| "kind_name kind_delivery = ''delivery''"

record output_request =
  orq_outputWorkflowId :: string
  orq_outputParameters :: "json_record option"

record output_trigger =
  otr_assetId :: string
  otr_authorizationKind :: authorization_kind
  otr_deliveryScopeId :: "string option"
  otr_idempotencyKey :: string
  otr_now :: int
  otr_outputWorkflowId :: string
  otr_outputParameters :: "json_record option"
  otr_resolvedUrl :: string
  otr_versionId :: string

datatype output_run_state = ors_pending | ors_running | ors_complete | ors_failed

record output_run =
  orn_expiresAt :: "int option"
  orn_outputWorkflowId :: string
  orn_runId :: string
  orn_state :: output_run_state
  orn_url :: "string option"

datatype 'h output_error =
  UnknownOutputWorkflow string
| OutputWorkflowIdempotencyConflict string
| OutputHandlerFailed 'h

type_synonym 'h output_handler = "output_trigger \<Rightarrow> string \<Rightarrow> 'h + output_run"

record output_store =
  ows_runsByIdempotencyKey :: "(string, string \<times> output_run) jsmap"
  ows_issuedRunIds :: nat

text \<open>The object that is printed for the fingerprint; its names are sorted when it is printed.\<close>

definition fingerprintOutputWorkflowRequest ::
  "(string \<Rightarrow> string \<Rightarrow> int) \<Rightarrow> output_trigger \<Rightarrow> string" where
  "fingerprintOutputWorkflowRequest lc t =
     stableJson lc (JObj
       ([(''assetId'', JStr (otr_assetId t)),
         (''authorizationKind'', JStr (kind_name (otr_authorizationKind t)))] @
        (if truthy_str (otr_deliveryScopeId t)
         then [(''deliveryScopeId'', JStr (the (otr_deliveryScopeId t)))] else []) @
        [(''outputParameters'',
            (case otr_outputParameters t of None \<Rightarrow> JNull | Some p \<Rightarrow> JObj p)),
         (''outputWorkflowId'', JStr (otr_outputWorkflowId t)),
         (''versionId'', JStr (otr_versionId t))]))"

definition cloneOutputWorkflowRunRecord :: "output_run \<Rightarrow> output_run" where
  "cloneOutputWorkflowRunRecord r =
     \<lparr>orn_expiresAt = orn_expiresAt r, orn_outputWorkflowId = orn_outputWorkflowId r,
      orn_runId = orn_runId r, orn_state = orn_state r, orn_url = keep_str (orn_url r)\<rparr>"

text \<open>\<open>gen\<close> is the answer of \<open>runIdFactory\<close> by the number of its calls.\<close>

definition triggerOutputWorkflow ::
  "(string \<Rightarrow> string \<Rightarrow> int) \<Rightarrow> (string, 'h output_handler) jsmap \<Rightarrow> (nat \<Rightarrow> string) \<Rightarrow> output_trigger
     \<Rightarrow> output_store \<Rightarrow> (output_store, 'h output_error, output_run) outcome" where
  "triggerOutputWorkflow lc handlers gen t s =
     (let fingerprint = fingerprintOutputWorkflowRequest lc t in
      case js_get (ows_runsByIdempotencyKey s) (otr_idempotencyKey t) of
        Some existing \<Rightarrow>
          if fst existing \<noteq> fingerprint
          then throw s (OutputWorkflowIdempotencyConflict (otr_idempotencyKey t))
          else ok s (cloneOutputWorkflowRunRecord (snd existing))
      | None \<Rightarrow>
          (case js_get handlers (otr_outputWorkflowId t) of
             None \<Rightarrow> throw s (UnknownOutputWorkflow (otr_outputWorkflowId t))
           | Some handler \<Rightarrow>
               let runId = gen (ows_issuedRunIds s);
                   s = s\<lparr>ows_issuedRunIds := Suc (ows_issuedRunIds s)\<rparr> in
               (case handler t runId of
                  Inl e \<Rightarrow> throw s (OutputHandlerFailed e)
                | Inr r \<Rightarrow>
                    ok (s\<lparr>ows_runsByIdempotencyKey :=
                            js_set (otr_idempotencyKey t)
                              (fingerprint, cloneOutputWorkflowRunRecord r)
                              (ows_runsByIdempotencyKey s)\<rparr>)
                       (cloneOutputWorkflowRunRecord r))))"

definition createImmediateOutputWorkflowHandler ::
  "(output_trigger \<Rightarrow> string \<Rightarrow> string) \<Rightarrow> 'h output_handler" where
  "createImmediateOutputWorkflowHandler urlFactory t runId =
     Inr \<lparr>orn_expiresAt = Some (otr_now t + 15 * 60000),
          orn_outputWorkflowId = otr_outputWorkflowId t, orn_runId = runId,
          orn_state = ors_complete, orn_url = Some (urlFactory t runId)\<rparr>"

section \<open>Errors of the routes\<close>

datatype ('e, 'h) route_error =
  RouteApi "'e api_error"
| RouteRead "'e delivery_error"
| RouteOutput "'h output_error"

fun lifecycle_name :: "public_state \<Rightarrow> string" where
  "lifecycle_name plc_canonical = ''canonical''"
| "lifecycle_name plc_processing = ''processing''"
| "lifecycle_name plc_published = ''published''"
| "lifecycle_name plc_quarantined = ''quarantined''"
| "lifecycle_name plc_purged = ''purged''"
| "lifecycle_name plc_failed_retryable = ''failed_retryable''"

fun mapPublicReadError ::
  "('e, 'h) route_error \<Rightarrow> (('e, 'h) route_error) api_error" where
  "mapPublicReadError (RouteRead (PublicVersionNotFound a v)) =
     ProblemDetailError (problem_of ''not-found'' ''Not found'' 404
       (''Version '' @ quoted v @ '' for asset '' @ quoted a @ '' does not exist.'') False)"
| "mapPublicReadError (RouteRead (DownloadLinkNotFound t)) =
     ProblemDetailError (problem_of ''not-found'' ''Not found'' 404
       (''Download link '' @ quoted t @ '' is invalid, expired, or has already been used.'') False)"
| "mapPublicReadError (RouteRead (PublicVersionNotReady a v st)) =
     ProblemDetailError (problem_of ''version-not-ready'' ''Version not ready'' 409
       (''Version '' @ quoted v @ '' for asset '' @ quoted a @
        '' is not ready for this operation from state '' @ quoted (lifecycle_name st) @ ''.'') True)"
| "mapPublicReadError (RouteOutput (UnknownOutputWorkflow w)) =
     ProblemDetailError (problem_of ''output-workflow-not-found'' ''Output workflow not found'' 404
       (''Output workflow '' @ quoted w @ '' is not registered.'') False)"
| "mapPublicReadError (RouteOutput (OutputWorkflowIdempotencyConflict k)) =
     ProblemDetailError (problem_of ''idempotency-key-conflict'' ''Idempotency key conflict'' 409
       (''Idempotency key '' @ quoted k @
        '' was reused for a different output workflow request.'') False)"
| "mapPublicReadError (RouteApi (ProblemDetailError p)) = ProblemDetailError p"
| "mapPublicReadError e = ThrownError e"

section \<open>Handlers\<close>

definition getIdempotencyKey :: "headers \<Rightarrow> 'e api_error + string" where
  "getIdempotencyKey h =
     (let idempotencyKey = map_option js_trim (headers_get h ''idempotency-key'') in
      if \<not> truthy_str idempotencyKey
      then Inl (ProblemDetailError (problem_of ''invalid-request'' ''Invalid request'' 400
        ''The Idempotency-Key header is required for authorization operations.'' False))
      else Inr (the idempotencyKey))"

definition buildCallerScopeKey :: "api_context \<Rightarrow> 'e api_error + string" where
  "buildCallerScopeKey ctx =
     (case (ctx_actor ctx, ctx_surface ctx) of
        (Some actor, Some surface) \<Rightarrow> Inr (surface_name surface @ '':'' @ act_subject actor)
      | _ \<Rightarrow> Inl (ProblemDetailError (problem_of ''unauthorized'' ''Unauthorized'' 401
          ''Authenticated actor context is required before authorizing public reads.'' False)))"

definition requireScopedVersion ::
  "api_context \<Rightarrow> string \<Rightarrow> string \<Rightarrow> delivery_store \<Rightarrow> ('e, 'h) route_error + public_version" where
  "requireScopedVersion ctx assetId versionId s =
     (case getPublicVersion assetId versionId s of
        None \<Rightarrow> Inl (RouteRead (PublicVersionNotFound assetId versionId))
      | Some version \<Rightarrow>
          then_do (map_sum RouteApi id
              (requireRequestedScope (ctx\<lparr>ctx_requestedScope :=
                 \<lparr>rsc_serviceNamespaceId = Some (pvr_serviceNamespaceId version),
                  rsc_tenantId = keep_str (pvr_tenantId version)\<rparr>\<rparr>)))
            (\<lambda>_. Inr version))"

text \<open>What the routes are given: the clock's answer \<open>dep_now\<close>, the services of the store and of the
  output workflows (none when no \<open>outputWorkflowStore\<close> is configured).\<close>

record ('w, 'e, 'h) route_deps =
  dep_now :: int
  dep_tokens :: "nat \<Rightarrow> string"
  dep_cwd :: string
  dep_sourceReads :: "('w, 'e) source_reads option"
  dep_localeCompare :: "string \<Rightarrow> string \<Rightarrow> int"
  dep_outputHandlers :: "(string, 'h output_handler) jsmap option"
  dep_runIds :: "nat \<Rightarrow> string"

record 'w delivery_world =
  dwl_store :: delivery_store
  dwl_outputs :: output_store
  dwl_outside :: 'w

record source_body =
  sbd_oneTime :: "bool option"
  sbd_outputWorkflow :: "output_request option"
  sbd_preferredDisposition :: "disposition option"

record delivery_body =
  dbd_oneTime :: "bool option"
  dbd_outputWorkflow :: "output_request option"
  dbd_variant :: string

text \<open>The response: the authorization, its address that of the run when the run has one.\<close>

record 'a authorized =
  atd_authorization :: 'a
  atd_outputWorkflowRun :: "output_run option"

definition maybeRunOutputWorkflow ::
  "('w, 'e, 'h) route_deps \<Rightarrow> output_request option \<Rightarrow> output_trigger \<Rightarrow> output_store
     \<Rightarrow> (output_store, ('e, 'h) route_error, output_run option) outcome" where
  "maybeRunOutputWorkflow deps outputWorkflowRequest t s =
     (case (outputWorkflowRequest, dep_outputHandlers deps) of
        (Some req, Some handlers) \<Rightarrow>
          map_prod id (map_sum RouteOutput Some)
            (triggerOutputWorkflow (dep_localeCompare deps) handlers (dep_runIds deps)
               (t\<lparr>otr_outputWorkflowId := orq_outputWorkflowId req,
                  otr_outputParameters := orq_outputParameters req\<rparr>) s)
      | _ \<Rightarrow> ok s None)"

definition withOutputRun :: "('a \<Rightarrow> string \<Rightarrow> 'a) \<Rightarrow> 'a \<Rightarrow> output_run option \<Rightarrow> 'a authorized" where
  "withOutputRun set_url authorization outputRun =
     \<lparr>atd_authorization =
        (case outputRun of
           Some r \<Rightarrow> if truthy_str (orn_url r) then set_url authorization (the (orn_url r)) else authorization
         | None \<Rightarrow> authorization),
      atd_outputWorkflowRun = outputRun\<rparr>"

definition request_of :: "api_context \<Rightarrow> string \<Rightarrow> int \<Rightarrow> bool option \<Rightarrow> 'e api_error + authorization_request" where
  "request_of ctx idempotencyKey now oneTime =
     then_do (buildCallerScopeKey ctx) (\<lambda>callerScopeKey.
       Inr \<lparr>arq_callerScopeKey = callerScopeKey, arq_idempotencyKey = idempotencyKey, arq_now = now,
            arq_oneTime = (if oneTime = Some True then Some True else None)\<rparr>)"

text \<open>The steps of both authorization routes before the call of the store.\<close>

definition beginAuthorizeRoute ::
  "int \<Rightarrow> headers \<Rightarrow> api_context \<Rightarrow> string \<Rightarrow> string \<Rightarrow> bool option \<Rightarrow> delivery_store
     \<Rightarrow> ('e, 'h) route_error + authorization_request" where
  "beginAuthorizeRoute now h ctx assetId versionId oneTime s =
     then_do (map_sum RouteApi id (getIdempotencyKey h)) (\<lambda>idempotencyKey.
     then_do (requireScopedVersion ctx assetId versionId s) (\<lambda>_.
       map_sum RouteApi id (request_of ctx idempotencyKey now oneTime)))"

definition triggerOf ::
  "string \<Rightarrow> string \<Rightarrow> authorization_kind \<Rightarrow> string option \<Rightarrow> authorization_request \<Rightarrow> string
     \<Rightarrow> output_trigger" where
  "triggerOf assetId versionId kind deliveryScopeId request url =
     \<lparr>otr_assetId = assetId, otr_authorizationKind = kind, otr_deliveryScopeId = deliveryScopeId,
      otr_idempotencyKey = arq_idempotencyKey request, otr_now = arq_now request,
      otr_outputWorkflowId = [], otr_outputParameters = None, otr_resolvedUrl = url,
      otr_versionId = versionId\<rparr>"

definition sourceAuthorizeRoute ::
  "('w, 'e, 'h) route_deps \<Rightarrow> headers \<Rightarrow> api_context \<Rightarrow> string \<Rightarrow> string \<Rightarrow> source_body \<Rightarrow> 'w delivery_world
     \<Rightarrow> ('w delivery_world, ('e, 'h) route_error, source_authorization authorized) outcome" where
  "sourceAuthorizeRoute deps h ctx assetId versionId body w =
     (case beginAuthorizeRoute (dep_now deps) h ctx assetId versionId (sbd_oneTime body) (dwl_store w) of
        Inl e \<Rightarrow> throw w e
      | Inr request \<Rightarrow>
          (case authorizeSource (dep_tokens deps) (dep_cwd deps) (dep_sourceReads deps) assetId versionId
                  (sbd_preferredDisposition body) request (dwl_store w, dwl_outside w) of
             (sw, r) \<Rightarrow>
               (let w = w\<lparr>dwl_store := fst sw, dwl_outside := snd sw\<rparr> in
                case r of
                  Inl e \<Rightarrow> throw w (RouteRead e)
                | Inr authorization \<Rightarrow>
                    (case maybeRunOutputWorkflow deps (sbd_outputWorkflow body)
                            (triggerOf assetId versionId kind_source None request
                               (sau_url authorization)) (dwl_outputs w) of
                       (outputs, r) \<Rightarrow>
                         (w\<lparr>dwl_outputs := outputs\<rparr>,
                          map_sum id (withOutputRun (\<lambda>a u. a\<lparr>sau_url := u\<rparr>) authorization) r)))))"

definition deliveryAuthorizeRoute ::
  "('w, 'e, 'h) route_deps \<Rightarrow> headers \<Rightarrow> api_context \<Rightarrow> string \<Rightarrow> string \<Rightarrow> string \<Rightarrow> delivery_body
     \<Rightarrow> 'w delivery_world
     \<Rightarrow> ('w delivery_world, ('e, 'h) route_error, delivery_authorization authorized) outcome" where
  "deliveryAuthorizeRoute deps h ctx assetId versionId deliveryScopeId body w =
     (case beginAuthorizeRoute (dep_now deps) h ctx assetId versionId (dbd_oneTime body) (dwl_store w) of
        Inl e \<Rightarrow> throw w e
      | Inr request \<Rightarrow>
          (case authorizeDelivery (dep_tokens deps) assetId versionId deliveryScopeId (dbd_variant body)
                  request (dwl_store w) of
             (s, r) \<Rightarrow>
               (let w = w\<lparr>dwl_store := s\<rparr> in
                case r of
                  Inl e \<Rightarrow> throw w (RouteRead e)
                | Inr authorization \<Rightarrow>
                    (case maybeRunOutputWorkflow deps (dbd_outputWorkflow body)
                            (triggerOf assetId versionId kind_delivery (Some deliveryScopeId) request
                               (dau_url authorization)) (dwl_outputs w) of
                       (outputs, r) \<Rightarrow>
                         (w\<lparr>dwl_outputs := outputs\<rparr>,
                          map_sum id (withOutputRun (\<lambda>a u. a\<lparr>dau_url := u\<rparr>) authorization) r)))))"

section \<open>Reading routes\<close>

definition opt_member :: "string \<Rightarrow> string option \<Rightarrow> json_record" where
  "opt_member name v = (if truthy_str v then [(name, JStr (the v))] else [])"

definition versionBody :: "public_version \<Rightarrow> json" where
  "versionBody v =
     (let self = ''/v1/assets/'' @ pvr_assetId v @ ''/versions/'' @ pvr_versionId v in
      JObj ([(''assetId'', JStr (pvr_assetId v)),
             (''assetOwner'', JStr (pvr_assetOwner v)),
             (''lifecycleState'', JStr (lifecycle_name (pvr_lifecycleState v))),
             (''serviceNamespaceId'', JStr (pvr_serviceNamespaceId v))] @
            opt_member ''tenantId'' (pvr_tenantId v) @
            [(''versionId'', JStr (pvr_versionId v)),
             (''versionNumber'', JNum (pvr_versionNumber v)),
             (''workflowState'', JStr (pvr_workflowState v)),
             (''source'', JObj [(''byteLength'', JNum (psrc_byteLength (pvr_source v))),
                                (''contentType'', JStr (psrc_contentType (pvr_source v))),
                                (''filename'', JStr (psrc_filename (pvr_source v)))]),
             (''links'', JObj [(''self'', JStr self),
                (''derivatives'', JStr (self @ ''/derivatives'')),
                (''manifest'', JStr (self @ ''/manifests/'' @
                   nullish (pvr_defaultManifestType v) ''image-default''))])]))"

definition derivativesBody :: "string \<Rightarrow> string \<Rightarrow> public_derivative list \<Rightarrow> json" where
  "derivativesBody assetId versionId derivatives =
     JObj [(''assetId'', JStr assetId),
           (''derivatives'', JArr (map (\<lambda>d. JObj
              [(''byteLength'', JNum (pdr_byteLength d)), (''contentType'', JStr (pdr_contentType d)),
               (''derivativeId'', JStr (pdr_derivativeId d)),
               (''deterministicKey'', JStr (pdr_deterministicKey d)),
               (''recipeId'', JStr (pdr_recipeId d)), (''variant'', JStr (pdr_variant d))]) derivatives)),
           (''versionId'', JStr versionId)]"

definition versionRoute ::
  "api_context \<Rightarrow> string \<Rightarrow> string \<Rightarrow> delivery_store \<Rightarrow> ('e, 'h) route_error + json" where
  "versionRoute ctx assetId versionId s =
     then_do (requireScopedVersion ctx assetId versionId s) (\<lambda>version. Inr (versionBody version))"

definition derivativesRoute ::
  "api_context \<Rightarrow> string \<Rightarrow> string \<Rightarrow> delivery_store \<Rightarrow> ('e, 'h) route_error + json" where
  "derivativesRoute ctx assetId versionId s =
     then_do (requireScopedVersion ctx assetId versionId s) (\<lambda>_.
     then_do (map_sum RouteRead id (listDerivatives assetId versionId s)) (\<lambda>derivatives.
       Inr (derivativesBody assetId versionId derivatives)))"

definition manifestRoute ::
  "api_context \<Rightarrow> string \<Rightarrow> string \<Rightarrow> string \<Rightarrow> delivery_store \<Rightarrow> ('e, 'h) route_error + json_record" where
  "manifestRoute ctx assetId versionId manifestType s =
     then_do (requireScopedVersion ctx assetId versionId s) (\<lambda>_.
     then_do (map_sum RouteRead id (getManifest assetId versionId manifestType s)) (\<lambda>manifest.
       case manifest of
         None \<Rightarrow> Inl (RouteRead (PublicVersionNotFound assetId versionId))
       | Some m \<Rightarrow> Inr (pmr_manifestPayload m)))"

definition downloadLinkRoute ::
  "('w, 'e, 'h) route_deps \<Rightarrow> string \<Rightarrow> delivery_store
     \<Rightarrow> (delivery_store, ('e, 'h) route_error, string) outcome" where
  "downloadLinkRoute deps downloadToken s =
     map_prod id (map_sum RouteRead lnk_url) (consumeDownloadLink downloadToken (dep_now deps) s)"

section \<open>A request\<close>

datatype delivery_call =
  CallVersion string string
| CallDerivatives string string
| CallManifest string string string
| CallSource string string source_body
| CallDelivery string string string delivery_body

datatype delivery_answer =
  AnswerJson json
| AnswerManifest json_record
| AnswerSource "source_authorization authorized"
| AnswerDelivery "delivery_authorization authorized"

fun handleCall ::
  "('w, 'e, 'h) route_deps \<Rightarrow> headers \<Rightarrow> api_context \<Rightarrow> delivery_call \<Rightarrow> 'w delivery_world
     \<Rightarrow> ('w delivery_world, ('e, 'h) route_error, delivery_answer) outcome" where
  "handleCall deps h ctx (CallVersion a v) w =
     (w, map_sum id AnswerJson (versionRoute ctx a v (dwl_store w)))"
| "handleCall deps h ctx (CallDerivatives a v) w =
     (w, map_sum id AnswerJson (derivativesRoute ctx a v (dwl_store w)))"
| "handleCall deps h ctx (CallManifest a v t) w =
     (w, map_sum id AnswerManifest (manifestRoute ctx a v t (dwl_store w)))"
| "handleCall deps h ctx (CallSource a v body) w =
     map_prod id (map_sum id AnswerSource) (sourceAuthorizeRoute deps h ctx a v body w)"
| "handleCall deps h ctx (CallDelivery a v scope body) w =
     map_prod id (map_sum id AnswerDelivery) (deliveryAuthorizeRoute deps h ctx a v scope body w)"

text \<open>The public surface: authentication, then the route, errors as problems.\<close>

definition publicRequest ::
  "('w, 'e, 'h) route_deps \<Rightarrow> (('e, 'h) route_error) authenticator option \<Rightarrow> headers \<Rightarrow> api_context
     \<Rightarrow> delivery_call \<Rightarrow> 'w delivery_world
     \<Rightarrow> 'w delivery_world \<times> (('e, 'h) route_error api_error + delivery_answer)" where
  "publicRequest deps auth h ctx call w =
     (case enterSurface auth h srf_public ctx of
        Inl e \<Rightarrow> (w, Inl e)
      | Inr ctx \<Rightarrow> map_prod id (map_sum mapPublicReadError id) (handleCall deps h ctx call w))"

section \<open>Requests stay in scope\<close>

fun call_target :: "delivery_call \<Rightarrow> string \<times> string" where
  "call_target (CallVersion a v) = (a, v)"
| "call_target (CallDerivatives a v) = (a, v)"
| "call_target (CallManifest a v t) = (a, v)"
| "call_target (CallSource a v body) = (a, v)"
| "call_target (CallDelivery a v scope body) = (a, v)"

definition in_scope :: "authenticated_actor \<Rightarrow> string \<times> string \<Rightarrow> delivery_store \<Rightarrow> bool" where
  "in_scope actor target s \<longleftrightarrow>
     (\<exists>version. js_get (dst_versions s) (readKey (fst target) (snd target)) = Some version \<and>
        scope_allows actor (Some (pvr_serviceNamespaceId version)) (keep_str (pvr_tenantId version)))"

definition permitted :: "'e authenticator option \<Rightarrow> headers \<Rightarrow> delivery_call \<Rightarrow> delivery_store \<Rightarrow> bool" where
  "permitted auth h call s \<longleftrightarrow>
     (\<exists>f actor. auth = Some f \<and> f h = Inr (Some actor) \<and> in_scope actor (call_target call) s)"

lemma scoped_version_ok:
  assumes "ctx_actor ctx = Some actor"
  shows "(\<exists>version. requireScopedVersion ctx a v s = (Inr version :: ('e, 'h) route_error + public_version))
    \<longleftrightarrow> in_scope actor (a, v) s"
proof (cases "js_get (dst_versions s) (readKey a v)")
  case None
  then show ?thesis by (simp add: requireScopedVersion_def getPublicVersion_def in_scope_def)
next
  case (Some version)
  let ?scope = "\<lparr>rsc_serviceNamespaceId = Some (pvr_serviceNamespaceId version),
    rsc_tenantId = keep_str (pvr_tenantId version)\<rparr>"
  let ?ctx = "ctx\<lparr>ctx_requestedScope := ?scope\<rparr>"
  have "assertAuthorizedScope ?ctx ?scope = Inr () \<longleftrightarrow>
      scope_allows actor (Some (pvr_serviceNamespaceId version)) (keep_str (pvr_tenantId version))"
    by (simp add: authorized_scope_iff assms)
  then show ?thesis using Some
    by (cases "assertAuthorizedScope ?ctx ?scope :: 'e api_error + unit")
      (auto simp: requireScopedVersion_def getPublicVersion_def in_scope_def cloneVersion_def
        requireRequestedScope_def)
qed

lemma scoped_version_refused:
  assumes "ctx_actor ctx = Some actor" "requireScopedVersion ctx a v s = Inl e"
  shows "\<exists>p. mapPublicReadError e = ProblemDetailError p \<and> prb_status p \<in> {403, 404}"
proof (cases "getPublicVersion a v s")
  case None
  then show ?thesis using assms(2) by (auto simp: requireScopedVersion_def problem_of_def)
next
  case (Some version)
  then obtain x where e: "e = RouteApi x" and x: "assertAuthorizedScope
      (ctx\<lparr>ctx_requestedScope := \<lparr>rsc_serviceNamespaceId = Some (pvr_serviceNamespaceId version),
         rsc_tenantId = keep_str (pvr_tenantId version)\<rparr>\<rparr>)
      \<lparr>rsc_serviceNamespaceId = Some (pvr_serviceNamespaceId version),
         rsc_tenantId = keep_str (pvr_tenantId version)\<rparr> = Inl x"
    using assms(2)
    by (auto simp: requireScopedVersion_def requireRequestedScope_def then_do_def split: sum.splits)
  show ?thesis using refused_scope_status [OF x] assms(1) by (auto simp: e)
qed

lemma idempotency_key_refused:
  "getIdempotencyKey h = Inl e \<Longrightarrow> \<exists>p. e = ProblemDetailError p \<and> prb_status p = 400"
  by (auto simp: getIdempotencyKey_def Let_def problem_of_def split: if_splits)

lemma begin_route:
  fixes e :: "('e, 'h) route_error"
  assumes "ctx_actor ctx = Some actor" "ctx_surface ctx = Some surface"
  shows "beginAuthorizeRoute now h ctx a v oneTime s =
      (Inr request :: ('e, 'h) route_error + authorization_request) \<Longrightarrow> in_scope actor (a, v) s"
    and "beginAuthorizeRoute now h ctx a v oneTime s = Inl e \<Longrightarrow>
      \<exists>p. mapPublicReadError e = ProblemDetailError p \<and>
        prb_status p \<in> (if in_scope actor (a, v) s then {400} else {400, 403, 404})"
proof -
  show "in_scope actor (a, v) s" if "beginAuthorizeRoute now h ctx a v oneTime s =
      (Inr request :: ('e, 'h) route_error + authorization_request)"
    using that scoped_version_ok [OF assms(1), of a v s, where ?'e = 'e and ?'h = 'h] by (auto simp: beginAuthorizeRoute_def then_do_ok)
  show "\<exists>p. mapPublicReadError e = ProblemDetailError p \<and>
      prb_status p \<in> (if in_scope actor (a, v) s then {400} else {400, 403, 404})"
    if b: "beginAuthorizeRoute now h ctx a v oneTime s = Inl e"
  proof (cases "getIdempotencyKey h :: 'e api_error + string")
    case (Inl x)
    then show ?thesis using b idempotency_key_refused [OF Inl] by (auto simp: beginAuthorizeRoute_def)
  next
    case (Inr k)
    note k = this
    show ?thesis
    proof (cases "requireScopedVersion ctx a v s :: ('e, 'h) route_error + public_version")
      case (Inl x)
      then have "x = e" using b k by (simp add: beginAuthorizeRoute_def)
      moreover have "\<not> in_scope actor (a, v) s"
        using Inl scoped_version_ok [OF assms(1), of a v s, where ?'e = 'e and ?'h = 'h] by auto
      ultimately show ?thesis using scoped_version_refused [OF assms(1) Inl] by auto
    next
      case (Inr version)
      then show ?thesis using b k assms
        by (simp add: beginAuthorizeRoute_def request_of_def buildCallerScopeKey_def)
    qed
  qed
qed

lemma read_error_status:
  "mapPublicReadError (RouteRead e) = ProblemDetailError p \<Longrightarrow> prb_status p \<in> {404, 409}"
  by (cases e) (auto simp: problem_of_def)

lemma output_error_status:
  "mapPublicReadError (RouteOutput e) = ProblemDetailError p \<Longrightarrow> prb_status p \<in> {404, 409}"
  by (cases e) (auto simp: problem_of_def)

lemma begin_refuses:
  assumes "ctx_actor ctx = Some actor" "ctx_surface ctx = Some surface" "\<not> in_scope actor (a, v) s"
  obtains e :: "('e, 'h) route_error" and p where
    "beginAuthorizeRoute now h ctx a v oneTime s = Inl e"
    "mapPublicReadError e = ProblemDetailError p" "prb_status p \<in> {400, 403, 404}"
proof (cases "beginAuthorizeRoute now h ctx a v oneTime s :: ('e, 'h) route_error + authorization_request")
  case (Inl x)
  then show ?thesis using begin_route(2) [OF assms(1,2) Inl] assms(3) that by auto
next
  case (Inr request)
  then show ?thesis using begin_route(1) [OF assms(1,2) Inr] assms(3) by simp
qed

lemma scoped_refuses:
  assumes "ctx_actor ctx = Some actor" "\<not> in_scope actor (a, v) s"
  obtains e :: "('e, 'h) route_error" and p where
    "requireScopedVersion ctx a v s = Inl e"
    "mapPublicReadError e = ProblemDetailError p" "prb_status p \<in> {403, 404}"
proof (cases "requireScopedVersion ctx a v s :: ('e, 'h) route_error + public_version")
  case (Inl x)
  then show ?thesis using scoped_version_refused [OF assms(1) Inl] that by auto
next
  case (Inr version)
  then show ?thesis using scoped_version_ok [OF assms(1), of a v s, where ?'e = 'e and ?'h = 'h] assms(2)
    by auto
qed

lemma call_refused:
  fixes deps :: "('w, 'e, 'h) route_deps"
  assumes "ctx_actor ctx = Some actor" "ctx_surface ctx = Some surface"
    and "\<not> in_scope actor (call_target call) (dwl_store w)"
  shows "\<exists>e p. handleCall deps h ctx call w = (w, Inl e) \<and>
    mapPublicReadError e = ProblemDetailError p \<and> prb_status p \<in> {400, 403, 404}"
proof (cases call)
  case (CallVersion a v)
  then show ?thesis using assms scoped_refuses [OF assms(1), of a v "dwl_store w", where ?'e = 'e and ?'h = 'h]
    by (fastforce simp: versionRoute_def)
next
  case (CallDerivatives a v)
  then show ?thesis using assms scoped_refuses [OF assms(1), of a v "dwl_store w", where ?'e = 'e and ?'h = 'h]
    by (fastforce simp: derivativesRoute_def)
next
  case (CallManifest a v t)
  then show ?thesis using assms scoped_refuses [OF assms(1), of a v "dwl_store w", where ?'e = 'e and ?'h = 'h]
    by (fastforce simp: manifestRoute_def)
next
  case (CallSource a v body)
  then show ?thesis
    using assms begin_refuses [OF assms(1,2), of a v "dwl_store w" "dep_now deps" h "sbd_oneTime body",
        where ?'e = 'e and ?'h = 'h]
    by (fastforce simp: sourceAuthorizeRoute_def)
next
  case (CallDelivery a v scope body)
  then show ?thesis
    using assms begin_refuses [OF assms(1,2), of a v "dwl_store w" "dep_now deps" h "dbd_oneTime body",
        where ?'e = 'e and ?'h = 'h]
    by (fastforce simp: deliveryAuthorizeRoute_def)
qed

lemma output_errors:
  assumes "maybeRunOutputWorkflow deps req t s = (s', Inl e)"
  shows "\<exists>x. e = RouteOutput x"
  using assms by (auto simp: maybeRunOutputWorkflow_def map_sum_def map_prod_def
      split: option.splits sum.splits prod.splits)

lemma route_errors:
  "sourceAuthorizeRoute deps h ctx a v sbody w = (w', Inl e) \<Longrightarrow>
     beginAuthorizeRoute (dep_now deps) h ctx a v (sbd_oneTime sbody) (dwl_store w) = Inl e \<or>
     (\<exists>x. e = RouteRead x) \<or> (\<exists>x. e = RouteOutput x)"
  "deliveryAuthorizeRoute deps h ctx a v scope dbody w = (w', Inl e) \<Longrightarrow>
     beginAuthorizeRoute (dep_now deps) h ctx a v (dbd_oneTime dbody) (dwl_store w) = Inl e \<or>
     (\<exists>x. e = RouteRead x) \<or> (\<exists>x. e = RouteOutput x)"
  by (auto simp: sourceAuthorizeRoute_def deliveryAuthorizeRoute_def Let_def map_sum_def
      split: sum.splits prod.splits dest: output_errors)

lemma read_route_errors:
  fixes e :: "('e, 'h) route_error"
  assumes "ctx_actor ctx = Some actor" "in_scope actor (a, v) s"
  shows "versionRoute ctx a v s \<noteq> Inl e"
    and "derivativesRoute ctx a v s = Inl e \<Longrightarrow> \<exists>x. e = RouteRead x"
    and "manifestRoute ctx a v t s = Inl e \<Longrightarrow> \<exists>x. e = RouteRead x"
proof -
  obtain version where v: "requireScopedVersion ctx a v s = (Inr version :: ('e, 'h) route_error + _)"
    using scoped_version_ok [OF assms(1), of a v s, where ?'e = 'e and ?'h = 'h] assms(2) by auto
  show "versionRoute ctx a v s \<noteq> Inl e" by (simp add: versionRoute_def v)
  show "\<exists>x. e = RouteRead x" if "derivativesRoute ctx a v s = Inl e"
    using that by (auto simp: derivativesRoute_def v then_do_def map_sum_def split: sum.splits)
  show "\<exists>x. e = RouteRead x" if "manifestRoute ctx a v t s = Inl e"
    using that by (auto simp: manifestRoute_def v then_do_def map_sum_def split: sum.splits option.splits)
qed

lemma call_permitted:
  fixes deps :: "('w, 'e, 'h) route_deps"
  assumes "ctx_actor ctx = Some actor" "ctx_surface ctx = Some surface"
    and "in_scope actor (call_target call) (dwl_store w)"
    and "handleCall deps h ctx call w = (w', Inl e)" "mapPublicReadError e = ProblemDetailError p"
  shows "prb_status p \<in> {400, 404, 409}"
proof -
  have "prb_status p = 400 \<or> (\<exists>x. e = RouteRead x) \<or> (\<exists>x. e = RouteOutput x)"
  proof (cases call)
    case (CallVersion a v)
    then show ?thesis
      using assms(3,4) read_route_errors(1) [OF assms(1), of a v "dwl_store w", where ?'e = 'e and ?'h = 'h]
      by (auto simp: map_sum_def split: sum.splits)
  next
    case (CallDerivatives a v)
    then show ?thesis
      using assms(3,4) read_route_errors(2) [OF assms(1), of a v "dwl_store w", where ?'e = 'e and ?'h = 'h]
      by (auto simp: map_sum_def split: sum.splits)
  next
    case (CallManifest a v t)
    then show ?thesis
      using assms(3,4) read_route_errors(3) [OF assms(1), of a v "dwl_store w", where ?'e = 'e and ?'h = 'h]
      by (auto simp: map_sum_def split: sum.splits)
  next
    case (CallSource a v body)
    then have "sourceAuthorizeRoute deps h ctx a v body w = (w', Inl e)"
      using assms(4) by (auto simp: map_sum_def map_prod_def split: prod.splits sum.splits)
    from route_errors(1) [OF this] show ?thesis
      using begin_route(2) [OF assms(1,2)] assms(3,5) CallSource by fastforce
  next
    case (CallDelivery a v scope body)
    then have "deliveryAuthorizeRoute deps h ctx a v scope body w = (w', Inl e)"
      using assms(4) by (auto simp: map_sum_def map_prod_def split: prod.splits sum.splits)
    from route_errors(2) [OF this] show ?thesis
      using begin_route(2) [OF assms(1,2)] assms(3,5) CallDelivery by fastforce
  qed
  then show ?thesis using assms(5) read_error_status output_error_status by blast
qed

lemma refused_entry:
  assumes "enterSurface auth h srf_public ctx = Inl e"
  shows "case e of ProblemDetailError p \<Rightarrow> prb_status p \<in> {400, 401, 403, 404}
    | ThrownError x \<Rightarrow> \<exists>f. auth = Some f \<and> f h = Inl x"
  using assms by (auto simp: enterSurface_def authenticationMiddleware_def ensureSurfaceRole_def
      problem_of_def then_do_def map_sum_def split: sum.splits option.splits)

text \<open>C13. Public reads and authorizations stay in the caller's scope. When the request's token is not
  that of an actor who may act in the namespace and the tenant of the version (an actor without a list
  of namespaces or tenants may act in all of them, \<open>scope_allows\<close>), the request is refused
  with a problem 400, 401, 403 or 404 (or with the authenticator's own error) and nothing changes:
  no link is issued, no run is started, no external service is called. When it is, the request is
  never refused as unauthorized or forbidden: a problem it gets has the status 400, 404 or 409.\<close>

theorem public_requests_stay_in_scope:
  fixes deps :: "('w, 'e, 'h) route_deps"
  assumes "publicRequest deps auth h ctx call w = (w', r)"
  shows "if permitted auth h call (dwl_store w)
    then (\<forall>p. r = Inl (ProblemDetailError p) \<longrightarrow> prb_status p \<in> {400, 404, 409})
    else w' = w \<and> (\<exists>e. r = Inl e \<and>
      (case e of ProblemDetailError p \<Rightarrow> prb_status p \<in> {400, 401, 403, 404}
       | ThrownError x \<Rightarrow> \<exists>f. auth = Some f \<and> f h = Inl x))"
proof (cases "enterSurface auth h srf_public ctx")
  case (Inl e)
  have "\<not> permitted auth h call (dwl_store w)"
  proof
    assume "permitted auth h call (dwl_store w)"
    then obtain f actor where "auth = Some f" "f h = Inr (Some actor)" by (auto simp: permitted_def)
    then have "enterSurface auth h srf_public ctx =
        Inr (ctx\<lparr>ctx_actor := Some actor, ctx_surface := Some srf_public\<rparr>)"
      by (simp add: entered_surface surface_allows_def)
    then show False using Inl by simp
  qed
  moreover have "case e of ProblemDetailError p \<Rightarrow> prb_status p \<in> {400, 401, 403, 404}
      | ThrownError x \<Rightarrow> \<exists>f. auth = Some f \<and> f h = Inl x"
    using Inl by (rule refused_entry)
  ultimately show ?thesis using assms Inl by (auto simp: publicRequest_def)
next
  case (Inr ctx')
  then obtain f actor where f: "auth = Some f" "f h = Inr (Some actor)"
    and c: "ctx_actor ctx' = Some actor" "ctx_surface ctx' = Some srf_public"
    by (auto simp: entered_surface)
  have r: "map_prod id (map_sum mapPublicReadError id) (handleCall deps h ctx' call w) = (w', r)"
    using assms by (simp add: publicRequest_def Inr)
  have p: "permitted auth h call (dwl_store w) \<longleftrightarrow> in_scope actor (call_target call) (dwl_store w)"
    by (simp add: permitted_def f)
  show ?thesis
  proof (cases "in_scope actor (call_target call) (dwl_store w)")
    case True
    have "prb_status q \<in> {400, 404, 409}" if "r = Inl (ProblemDetailError q)" for q
      using r that call_permitted [OF c True, of deps h w']
      by (cases "handleCall deps h ctx' call w"; cases "snd (handleCall deps h ctx' call w)") auto
    then show ?thesis using True p by simp
  next
    case False
    show ?thesis using r call_refused [OF c False, of deps h] p False by fastforce
  qed
qed

definition example_deps :: "(unit, unit, unit) route_deps" where
  "example_deps =
     \<lparr>dep_now = 0, dep_tokens = example_token, dep_cwd = ''/srv'', dep_sourceReads = None,
      dep_localeCompare = codeUnitCompare,
      dep_outputHandlers = Some [(''watermark'', createImmediateOutputWorkflowHandler
        (\<lambda>_ runId. ''https://out.local/'' @ runId))],
      dep_runIds = (\<lambda>n. ''run-'' @ nat_digits n)\<rparr>"

definition example_world :: "unit delivery_world" where
  "example_world =
     \<lparr>dwl_store = newDeliveryStore [example_public_version\<lparr>pvr_tenantId := Some ''acme''\<rparr>],
      dwl_outputs = \<lparr>ows_runsByIdempotencyKey = [], ows_issuedRunIds = 0\<rparr>, dwl_outside = ()\<rparr>"

definition example_actor :: "string list \<Rightarrow> authenticated_actor" where
  "example_actor tenants =
     \<lparr>act_subject = ''alice'', act_roles = [], act_allowedServiceNamespaces = [''media''],
      act_allowedTenantIds = tenants\<rparr>"

definition example_auth :: "((unit, unit) route_error) authenticator" where
  "example_auth h =
     Inr (case extractBearerToken h ''Bearer'' of
            None \<Rightarrow> None
          | Some t \<Rightarrow> if t = ''acme'' then Some (example_actor [''acme''])
                      else Some (example_actor [''beta'']))"

definition example_headers :: "string \<Rightarrow> headers" where
  "example_headers t = toHeaders (buildBearerHeaders t [(''Idempotency-Key'', ''idem-1'')])"

definition example_call :: delivery_call where
  "example_call = CallDelivery ''ast_1'' ''ver_1'' ''eu''
     \<lparr>dbd_oneTime = Some True, dbd_outputWorkflow = None, dbd_variant = ''thumb''\<rparr>"

abbreviation (input) example_request where
  "example_request t \<equiv> publicRequest example_deps (Some example_auth) (example_headers t)
     (requestContext ''req'' 0 5000 (example_headers t)) example_call example_world"

lemma example_scopes:
  "permitted (Some example_auth) (example_headers ''acme'') example_call (dwl_store example_world)"
  "\<not> permitted (Some example_auth) (example_headers ''beta'') example_call (dwl_store example_world)"
proof -
  have "example_auth (example_headers ''acme'') = Inr (Some (example_actor [''acme'']))"
    "example_auth (example_headers ''beta'') = Inr (Some (example_actor [''beta'']))"
    "js_get (dst_versions (dwl_store example_world)) (readKey ''ast_1'' ''ver_1'') =
       Some (cloneVersion (example_public_version\<lparr>pvr_tenantId := Some ''acme''\<rparr>))"
    by code_simp+
  then show
    "permitted (Some example_auth) (example_headers ''acme'') example_call (dwl_store example_world)"
    "\<not> permitted (Some example_auth) (example_headers ''beta'') example_call (dwl_store example_world)"
    by (auto simp: permitted_def in_scope_def scope_allows_def example_call_def cloneVersion_def
        example_public_version_def example_actor_def keep_str_def)
qed

lemma example_answered:
  "is_ok (snd (example_request ''acme''))"
  by code_simp

theorem public_requests_stay_in_scope_witness:
  "is_ok (snd (example_request ''acme'')) \<and> fst (example_request ''beta'') = example_world \<and>
   \<not> is_ok (snd (example_request ''beta''))"
proof -
  obtain w' r where b: "example_request ''beta'' = (w', r)" by (cases "example_request ''beta''")
  show ?thesis using public_requests_stay_in_scope [OF b] b example_scopes(2) example_answered by auto
qed

section \<open>Runs of output workflows\<close>

inductive output_step ::
  "(string \<Rightarrow> string \<Rightarrow> int) \<Rightarrow> (string, 'h output_handler) jsmap \<Rightarrow> (nat \<Rightarrow> string)
     \<Rightarrow> output_store \<Rightarrow> output_store \<Rightarrow> bool" for lc handlers gen where
  step_trigger:
    "triggerOutputWorkflow lc handlers gen t s = (s', r :: 'h output_error + output_run)
       \<Longrightarrow> output_step lc handlers gen s s'"

lemma clone_run_idem [simp]:
  "cloneOutputWorkflowRunRecord (cloneOutputWorkflowRunRecord r) = cloneOutputWorkflowRunRecord r"
  by (simp add: cloneOutputWorkflowRunRecord_def)

lemma trigger_success:
  assumes "triggerOutputWorkflow lc handlers gen t s = (s', Inr run)"
  shows "\<exists>stored. js_get (ows_runsByIdempotencyKey s') (otr_idempotencyKey t) =
    Some (fingerprintOutputWorkflowRequest lc t, stored) \<and> run = cloneOutputWorkflowRunRecord stored"
  using assms by (auto simp: triggerOutputWorkflow_def Let_def split: option.splits if_splits sum.splits)

lemma trigger_keeps:
  assumes "triggerOutputWorkflow lc handlers gen t s = (s', r)"
    and "js_get (ows_runsByIdempotencyKey s) k = Some x"
  shows "js_get (ows_runsByIdempotencyKey s') k = Some x"
  using assms by (auto simp: triggerOutputWorkflow_def Let_def split: option.splits if_splits sum.splits)

lemma steps_keep:
  assumes "(output_step lc handlers gen)\<^sup>*\<^sup>* s s'" "js_get (ows_runsByIdempotencyKey s) k = Some x"
  shows "js_get (ows_runsByIdempotencyKey s') k = Some x"
  using assms by (induction rule: rtranclp_induct) (auto elim!: output_step.cases dest: trigger_keeps)

lemma trigger_known:
  assumes "js_get (ows_runsByIdempotencyKey s) (otr_idempotencyKey t) = Some (fp, run)"
  shows "triggerOutputWorkflow lc handlers gen t s =
    (s, if fingerprintOutputWorkflowRequest lc t = fp then Inr (cloneOutputWorkflowRunRecord run)
        else Inl (OutputWorkflowIdempotencyConflict (otr_idempotencyKey t)))"
  using assms by (auto simp: triggerOutputWorkflow_def Let_def)

text \<open>C15. A recorded run is final. Once a trigger has answered with a run, then after any triggers by
  any callers, a trigger with the same idempotency key changes nothing, calls no handler, and answers
  the same record when it asks for the same output of the same version, and a conflict otherwise.
  The record includes the state: a run that was recorded as pending or running stays so for ever, and
  a caller who polls with the same key never sees it complete.\<close>

theorem recorded_run_is_final:
  fixes handlers :: "(string, 'h output_handler) jsmap"
  assumes "triggerOutputWorkflow lc handlers gen t s0 = (s1, Inr run)"
    and "(output_step lc handlers gen)\<^sup>*\<^sup>* s1 s"
    and "otr_idempotencyKey t' = otr_idempotencyKey t"
  shows "triggerOutputWorkflow lc handlers gen t' s =
    (s, if fingerprintOutputWorkflowRequest lc t' = fingerprintOutputWorkflowRequest lc t then Inr run
        else Inl (OutputWorkflowIdempotencyConflict (otr_idempotencyKey t)))"
proof -
  obtain stored where k: "js_get (ows_runsByIdempotencyKey s1) (otr_idempotencyKey t) =
      Some (fingerprintOutputWorkflowRequest lc t, stored)" and run: "run = cloneOutputWorkflowRunRecord stored"
    using trigger_success [OF assms(1)] by blast
  have k': "js_get (ows_runsByIdempotencyKey s) (otr_idempotencyKey t') =
      Some (fingerprintOutputWorkflowRequest lc t, stored)"
    using steps_keep [OF assms(2) k] assms(3) by simp
  show ?thesis by (simp add: trigger_known [OF k'] run assms(3))
qed

definition example_trigger :: "string \<Rightarrow> int \<Rightarrow> output_trigger" where
  "example_trigger key now =
     \<lparr>otr_assetId = ''ast_1'', otr_authorizationKind = kind_source, otr_deliveryScopeId = None,
      otr_idempotencyKey = key, otr_now = now, otr_outputWorkflowId = ''slow'',
      otr_outputParameters = None, otr_resolvedUrl = ''https://cdn.local/x'', otr_versionId = ''ver_1''\<rparr>"

definition slow_handlers :: "(string, unit output_handler) jsmap" where
  "slow_handlers = [(''slow'', \<lambda>t runId. Inr
     \<lparr>orn_expiresAt = None, orn_outputWorkflowId = otr_outputWorkflowId t, orn_runId = runId,
      orn_state = (if otr_now t < 100 then ors_pending else ors_complete), orn_url = None\<rparr>)]"

abbreviation (input) example_outputs :: output_store where
  "example_outputs \<equiv> \<lparr>ows_runsByIdempotencyKey = [], ows_issuedRunIds = 0\<rparr>"

abbreviation (input) run_slow where
  "run_slow key now s \<equiv>
     triggerOutputWorkflow codeUnitCompare slow_handlers (\<lambda>n. ''run-'' @ nat_digits n)
       (example_trigger key now) s"

abbreviation (input) pending_run :: output_run where
  "pending_run \<equiv> \<lparr>orn_expiresAt = None, orn_outputWorkflowId = ''slow'', orn_runId = ''run-0'',
     orn_state = ors_pending, orn_url = None\<rparr>"

lemma slow_first: "snd (run_slow ''idem-1'' 0 example_outputs) = Inr pending_run"
  by code_simp

lemma slow_same:
  "fingerprintOutputWorkflowRequest codeUnitCompare (example_trigger ''idem-1'' 500) =
     fingerprintOutputWorkflowRequest codeUnitCompare (example_trigger ''idem-1'' 0)"
  by code_simp

theorem recorded_run_is_final_witness:
  "(let s1 = fst (run_slow ''idem-1'' 0 example_outputs); s2 = fst (run_slow ''idem-2'' 200 s1) in
    run_slow ''idem-1'' 500 s2 = (s2, Inr pending_run))"
proof -
  obtain s1 where s1: "run_slow ''idem-1'' 0 example_outputs = (s1, Inr pending_run)"
    using slow_first by (metis prod.collapse)
  obtain s2 r where s2: "run_slow ''idem-2'' 200 s1 = (s2, r)" by (cases "run_slow ''idem-2'' 200 s1")
  have "(output_step codeUnitCompare slow_handlers (\<lambda>n. ''run-'' @ nat_digits n))\<^sup>*\<^sup>* s1 s2"
    using step_trigger [OF s2] by blast
  from recorded_run_is_final [OF s1 this, of "example_trigger ''idem-1'' 500"]
  show ?thesis using s1 s2 slow_same by (simp add: example_trigger_def Let_def)
qed

end
