(* ===== verification/Durable_Upload.thy ===== *)
theory Durable_Upload
  imports Registry_Tables Upload_Session
begin

text \<open>
  Upload sessions over the registry: \<open>PrismaUploadSessionStore\<close> of
  \<open>packages/registry/src/prisma-upload-session-store.ts\<close>. Its inputs and results are the records of
  \<open>Upload_Session\<close>. The tables are those of the schema, kept apart as the schema has them; a JSON
  column holds the value it was written from. Completion is two transactions with the await of the
  canonicalizer between them. The first transaction reads, decides and writes: \<open>readPhaseOne\<close> and
  \<open>writePhaseOne\<close>. Under the isolation the store asks for (read committed, the default) other
  transactions may commit between the two. The dedupe metrics come back from their JSON column as they
  were stored, with the text of a \<open>bigint\<close> (\<open>toJsonValue\<close>); TypeScript takes them for metrics, the
  model keeps them apart (\<open>stored_metrics\<close>, \<open>dc_storedMetrics\<close>). \<open>uuid\<close> is the answer of \<open>randomUUID\<close>, \<open>now\<close> the clock's.
\<close>

section \<open>Rows\<close>

record namespace_row =
  nsw_id :: string
  nsw_serviceNamespaceId :: string

record tenant_row =
  tnw_id :: string
  tnw_serviceNamespaceId :: string
  tnw_externalTenantId :: string

record asset_row =
  asw_id :: string
  asw_assetOwner :: string
  asw_serviceNamespaceId :: string
  asw_tenantScopeId :: "string option"
  asw_lookupKey :: string
  asw_currentCanonicalVersionId :: "string option"

datatype validation_state = vst_passed | vst_failed | vst_quarantined

record stored_metrics =
  smt_chunkCount :: "int option"
  smt_dedupeRatio :: "quotient option"
  smt_reusedChunkCount :: "int option"
  smt_savingsRatio :: "quotient option"
  smt_storedByteLength :: "string option"

definition storedMetrics :: "dedupe_metrics \<Rightarrow> stored_metrics" where
  "storedMetrics m =
     \<lparr>smt_chunkCount = dm_chunkCount m, smt_dedupeRatio = dm_dedupeRatio m,
      smt_reusedChunkCount = dm_reusedChunkCount m, smt_savingsRatio = dm_savingsRatio m,
      smt_storedByteLength = map_option int_text (dm_storedByteLength m)\<rparr>"

record durable_completed = completed_session +
  dc_storedMetrics :: "stored_metrics option"

record upload_version_row =
  uvw_id :: string
  uvw_assetId :: string
  uvw_versionNumber :: int
  uvw_lifecycleState :: row_state
  uvw_sourceFilename :: string
  uvw_detectedContentType :: string
  uvw_sourceByteLength :: int
  uvw_sourceChecksum :: object_checksum
  uvw_ingestObjectKey :: "string option"
  uvw_repositoryEngine :: "repository_engine option"
  uvw_canonicalSourceId :: "string option"
  uvw_canonicalSnapshotId :: "string option"
  uvw_canonicalLogicalPath :: "string option"
  uvw_canonicalDigestSet :: "object_checksum list option"
  uvw_canonicalLogicalByteLength :: "int option"
  uvw_canonicalStoredByteLength :: "int option"
  uvw_dedupeMetrics :: "stored_metrics option"
  uvw_sourceReconstructionHandles :: "reconstruction_handle list option"
  uvw_sourceSubstrateHints :: "(string, string) jsmap option"
  uvw_validationState :: "validation_state option"

datatype session_row_state =
  srs_session_created | srs_uploading | srs_uploaded | srs_expired | srs_terminated
| srs_failed_validation

record upload_session_row =
  sew_id :: string
  sew_assetVersionId :: string
  sew_state :: session_row_state
  sew_stagedObjectKey :: "string option"
  sew_expectedByteLength :: int
  sew_expectedChecksum :: object_checksum
  sew_firstActivityAt :: "int option"
  sew_lastActivityAt :: "int option"
  sew_expiresAt :: int
  sew_completedAt :: "int option"
  sew_terminalReason :: "string option"

record replay_reference =
  rfr_assetId :: string
  rfr_uploadSessionId :: string
  rfr_versionId :: string
  rfr_workflowDispatchId :: "string option"

record upload_key_row =
  ukw_apiSurface :: string
  ukw_callerScopeKey :: string
  ukw_operationKey :: string
  ukw_idempotencyKey :: string
  ukw_normalizedOperationKey :: string
  ukw_normalizedRequestHash :: "string option"
  ukw_responseReference :: "replay_reference option"
  ukw_isTerminal :: bool
  ukw_completedAt :: "int option"

record upload_audit_row = audit_row +
  uaw_assetId :: "string option"

record validation_row =
  vlw_assetVersionId :: string
  vlw_problemType :: string
  vlw_detail :: string
  vlw_validationState :: validation_state

record upload_db =
  udb_namespaces :: "namespace_row list"
  udb_tenants :: "tenant_row list"
  udb_assets :: "asset_row list"
  udb_versions :: "upload_version_row list"
  udb_sessions :: "upload_session_row list"
  udb_keys :: "upload_key_row list"
  udb_dispatches :: "dispatch_row list"
  udb_audits :: "upload_audit_row list"
  udb_validations :: "validation_row list"

definition namespaceConstraints :: "namespace_row row_constraint list" where
  "namespaceConstraints = [\<lambda>r. Some [nsw_id r], \<lambda>r. Some [nsw_serviceNamespaceId r]]"

definition tenantConstraints :: "tenant_row row_constraint list" where
  "tenantConstraints =
     [\<lambda>r. Some [tnw_id r], \<lambda>r. Some [tnw_serviceNamespaceId r, tnw_externalTenantId r]]"

definition assetConstraints :: "asset_row row_constraint list" where
  "assetConstraints =
     [\<lambda>r. Some [asw_id r],
      \<lambda>r. map_option (\<lambda>t. [asw_serviceNamespaceId r, t, asw_lookupKey r]) (asw_tenantScopeId r)]"

definition versionIds :: "upload_version_row row_constraint" where
  "versionIds r = Some [uvw_id r]"

definition canonicalSources :: "upload_version_row row_constraint" where
  "canonicalSources r = map_option (\<lambda>s. [s]) (uvw_canonicalSourceId r)"

definition versionNumbers :: "upload_version_row row_constraint" where
  "versionNumbers r = Some [uvw_assetId r, int_text (uvw_versionNumber r)]"

definition uploadVersionConstraints :: "upload_version_row row_constraint list" where
  "uploadVersionConstraints = [versionIds, canonicalSources, versionNumbers]"

definition sessionConstraints :: "upload_session_row row_constraint list" where
  "sessionConstraints = [\<lambda>r. Some [sew_id r], \<lambda>r. Some [sew_assetVersionId r]]"

definition uploadKeys :: "upload_key_row row_constraint" where
  "uploadKeys r =
     Some [ukw_apiSurface r, ukw_callerScopeKey r, ukw_operationKey r, ukw_idempotencyKey r]"

text \<open>\<open>ung_\<close> engines; the identifiers and times of new rows are the database's.\<close>

record upload_engine =
  ung_assets :: "asset_row table_ops"
  ung_versions :: "upload_version_row table_ops"
  ung_sessions :: "upload_session_row table_ops"
  ung_keys :: "upload_key_row table_ops"
  ung_dispatches :: "dispatch_row table_ops"
  ung_audits :: "upload_audit_row table_ops"
  ung_validations :: "validation_row table_ops"
  ung_newAsset :: "asset_row list \<Rightarrow> string"
  ung_newVersion :: "upload_version_row list \<Rightarrow> string"
  ung_newSession :: "upload_session_row list \<Rightarrow> string"
  ung_newDispatch :: "dispatch_row list \<Rightarrow> string \<times> int"

definition upload_laws :: "upload_engine \<Rightarrow> bool" where
  "upload_laws e \<longleftrightarrow>
     table_laws assetConstraints (ung_assets e) \<and>
     table_laws uploadVersionConstraints (ung_versions e) \<and>
     table_laws sessionConstraints (ung_sessions e) \<and> table_laws [uploadKeys] (ung_keys e) \<and>
     table_laws dispatchConstraints (ung_dispatches e) \<and> table_laws [] (ung_audits e) \<and>
     table_laws [] (ung_validations e) \<and>
     (\<forall>rows. ung_newAsset e rows \<notin> asw_id ` set rows) \<and>
     (\<forall>rows. ung_newVersion e rows \<notin> uvw_id ` set rows) \<and>
     (\<forall>rows. ung_newSession e rows \<notin> sew_id ` set rows) \<and>
     (\<forall>rows. fst (ung_newDispatch e rows) \<notin> d_dispatchId ` set rows)"

definition upload_db_ok :: "upload_db \<Rightarrow> bool" where
  "upload_db_ok db \<longleftrightarrow>
     satisfies namespaceConstraints (udb_namespaces db) \<and>
     satisfies tenantConstraints (udb_tenants db) \<and> satisfies assetConstraints (udb_assets db) \<and>
     satisfies uploadVersionConstraints (udb_versions db) \<and>
     satisfies sessionConstraints (udb_sessions db) \<and> satisfies [uploadKeys] (udb_keys db) \<and>
     satisfies dispatchConstraints (udb_dispatches db)"

datatype durable_upload_error =
  RegistryUploadConflict string
| RegistryAssetNotFound string
| RegistrySessionNotFound string
| RegistrySessionExpired string
| RegistrySessionState string session_row_state
| RegistryVersionState string row_state
| RegistryValidationFailed string problem_type string
| RegistryCanonicalizationFailed string "string + durable_upload_error"
| MissingReplayReference
| ReplayGone string
| UploadDb db_error

section \<open>Keys\<close>

abbreviation (input) create_operation :: string where
  "create_operation \<equiv> ''upload-session:create''"

definition buildCreateNormalizedOperationKey :: "issue_input \<Rightarrow> string" where
  "buildCreateNormalizedOperationKey input =
     js_join '':'' [create_operation, ii_serviceNamespaceId input,
       nullish (ii_tenantId input) ''tenant:none'', nullish (ii_assetId input) ''asset:new'']"

definition buildCompletionOperationKey :: "string \<Rightarrow> string" where
  "buildCompletionOperationKey uploadSessionId = ''upload-session:complete:'' @ uploadSessionId"

definition findUploadKey :: "string \<Rightarrow> string \<Rightarrow> string \<Rightarrow> upload_db \<Rightarrow> upload_key_row option" where
  "findUploadKey callerScopeKey operationKey idempotencyKey db =
     row_at uploadKeys (udb_keys db) [''public'', callerScopeKey, operationKey, idempotencyKey]"

section \<open>Reads\<close>

fun sessionStateOf :: "session_row_state \<Rightarrow> session_state" where
  "sessionStateOf srs_session_created = sess_session_created"
| "sessionStateOf srs_uploading = sess_uploaded"
| "sessionStateOf srs_uploaded = sess_uploaded"
| "sessionStateOf srs_expired = sess_expired"
| "sessionStateOf srs_terminated = sess_terminated"
| "sessionStateOf srs_failed_validation = sess_failed_validation"

fun versionStateOf :: "row_state \<Rightarrow> version_state" where
  "versionStateOf row_session_created = ver_session_created"
| "versionStateOf row_uploaded = ver_uploaded"
| "versionStateOf row_canonicalizing = ver_canonicalizing"
| "versionStateOf row_canonical = ver_canonical"
| "versionStateOf row_processing = ver_processing"
| "versionStateOf row_failed_validation = ver_failed_validation"
| "versionStateOf row_failed_retryable = ver_failed_retryable"
| "versionStateOf row_quarantined = ver_quarantined"
| "versionStateOf _ = ver_processing"

fun summaryStateOf :: "dispatch_state \<Rightarrow> summary_state" where
  "summaryStateOf disp_pending = ds_pending"
| "summaryStateOf disp_starting = ds_starting"
| "summaryStateOf disp_started = ds_started"
| "summaryStateOf disp_duplicate = ds_duplicate"
| "summaryStateOf disp_failed_retryable = ds_failed_retryable"
| "summaryStateOf disp_failed_terminal = ds_failed_terminal"

text \<open>A session with the rows its \<open>include\<close> joins in, and the first dispatch of its version.\<close>

record joined_session =
  jss_session :: upload_session_row
  jss_version :: upload_version_row
  jss_asset :: asset_row
  jss_namespace :: namespace_row
  jss_tenant :: "tenant_row option"
  jss_dispatch :: "dispatch_row option"

definition firstDispatch :: "string \<Rightarrow> upload_db \<Rightarrow> dispatch_row option" where
  "firstDispatch versionId db =
     (case js_sort (\<lambda>a b. d_createdAt a - d_createdAt b)
             (filter (\<lambda>d. d_assetVersionId d = versionId) (udb_dispatches db)) of
        [] \<Rightarrow> None | d # _ \<Rightarrow> Some d)"

definition joinSession :: "string \<Rightarrow> upload_db \<Rightarrow> joined_session option" where
  "joinSession uploadSessionId db =
     Option.bind (List.find (\<lambda>r. sew_id r = uploadSessionId) (udb_sessions db)) (\<lambda>session.
     Option.bind (List.find (\<lambda>r. uvw_id r = sew_assetVersionId session) (udb_versions db)) (\<lambda>version.
     Option.bind (List.find (\<lambda>r. asw_id r = uvw_assetId version) (udb_assets db)) (\<lambda>asset.
     Option.bind (List.find (\<lambda>r. nsw_id r = asw_serviceNamespaceId asset) (udb_namespaces db)) (\<lambda>namespace.
       Some \<lparr>jss_session = session, jss_version = version, jss_asset = asset,
             jss_namespace = namespace,
             jss_tenant = Option.bind (asw_tenantScopeId asset)
               (\<lambda>t. List.find (\<lambda>r. tnw_id r = t) (udb_tenants db)),
             jss_dispatch = firstDispatch (uvw_id version) db\<rparr>))))"

definition buildUploadSessionSummaryFromRow :: "joined_session \<Rightarrow> session_summary" where
  "buildUploadSessionSummaryFromRow j =
     (let v = jss_version j; session = jss_session j in
      \<lparr>sm_assetId = asw_id (jss_asset j), sm_assetOwner = asw_assetOwner (jss_asset j),
       sm_checksum = uvw_sourceChecksum v, sm_contentType = uvw_detectedContentType v,
       sm_expiresAt = sew_expiresAt session, sm_filename = uvw_sourceFilename v,
       sm_objectKey = nullish (uvw_ingestObjectKey v) (sew_id session),
       sm_serviceNamespaceId = nsw_serviceNamespaceId (jss_namespace j),
       sm_tenantId = map_option tnw_externalTenantId (jss_tenant j),
       sm_uploadSessionId = sew_id session, sm_uploadSessionState = sessionStateOf (sew_state session),
       sm_versionId = uvw_id v, sm_versionNumber = uvw_versionNumber v,
       sm_versionState = versionStateOf (uvw_lifecycleState v),
       sm_byteLength = uvw_sourceByteLength v\<rparr>)"

definition durableGetUploadSession :: "string \<Rightarrow> upload_db \<Rightarrow> session_summary option" where
  "durableGetUploadSession uploadSessionId db =
     map_option buildUploadSessionSummaryFromRow (joinSession uploadSessionId db)"

definition loadIssuedUploadSessionReplay ::
  "replay_reference option \<Rightarrow> upload_db \<Rightarrow> durable_upload_error + issued_session" where
  "loadIssuedUploadSessionReplay reference db =
     (case reference of
        None \<Rightarrow> Inl MissingReplayReference
      | Some parsed \<Rightarrow>
          if rfr_uploadSessionId parsed = [] \<or> rfr_versionId parsed = [] \<or> rfr_assetId parsed = []
          then Inl MissingReplayReference
          else
            (case durableGetUploadSession (rfr_uploadSessionId parsed) db of
               None \<Rightarrow> Inl (ReplayGone (rfr_uploadSessionId parsed))
             | Some replay \<Rightarrow>
                 if sm_assetId replay \<noteq> rfr_assetId parsed \<or> sm_versionId replay \<noteq> rfr_versionId parsed
                 then Inl (ReplayGone (rfr_uploadSessionId parsed))
                 else Inr
                   \<lparr>is_assetId = sm_assetId replay, is_assetOwner = sm_assetOwner replay,
                    is_checksum = sm_checksum replay, is_contentType = sm_contentType replay,
                    is_expiresAt = sm_expiresAt replay, is_filename = sm_filename replay,
                    is_objectKey = sm_objectKey replay,
                    is_serviceNamespaceId = sm_serviceNamespaceId replay,
                    is_tenantId = keep_str (sm_tenantId replay),
                    is_uploadSessionId = sm_uploadSessionId replay,
                    is_versionId = sm_versionId replay,
                    is_versionNumber = sm_versionNumber replay,
                    is_byteLength = sm_byteLength replay\<rparr>))"

section \<open>Writes\<close>

definition writeUpload ::
  "(upload_db \<Rightarrow> 'row list) \<Rightarrow> ('row list \<Rightarrow> upload_db \<Rightarrow> upload_db)
     \<Rightarrow> ('row list \<Rightarrow> db_error + 'row list) \<Rightarrow> upload_db \<Rightarrow> (upload_db, durable_upload_error, unit) outcome" where
  "writeUpload get put f db =
     (case f (get db) of
        Inl x \<Rightarrow> throw db (UploadDb x) | Inr rows \<Rightarrow> ok (put rows db) ())"

abbreviation "onAssetRows \<equiv> writeUpload udb_assets (\<lambda>rows db. db\<lparr>udb_assets := rows\<rparr>)"
abbreviation "onVersionRows \<equiv> writeUpload udb_versions (\<lambda>rows db. db\<lparr>udb_versions := rows\<rparr>)"
abbreviation "onSessionRows \<equiv> writeUpload udb_sessions (\<lambda>rows db. db\<lparr>udb_sessions := rows\<rparr>)"
abbreviation "onKeyRows \<equiv> writeUpload udb_keys (\<lambda>rows db. db\<lparr>udb_keys := rows\<rparr>)"
abbreviation "onDispatchRows \<equiv> writeUpload udb_dispatches (\<lambda>rows db. db\<lparr>udb_dispatches := rows\<rparr>)"
abbreviation "onAuditRows \<equiv> writeUpload udb_audits (\<lambda>rows db. db\<lparr>udb_audits := rows\<rparr>)"
abbreviation "onValidationRows \<equiv> writeUpload udb_validations (\<lambda>rows db. db\<lparr>udb_validations := rows\<rparr>)"

section \<open>Issuance\<close>

definition resolveTenant :: "namespace_row \<Rightarrow> string option \<Rightarrow> upload_db \<Rightarrow> tenant_row option" where
  "resolveTenant namespace tenantId db =
     (if \<not> truthy_str tenantId then None
      else row_at (\<lambda>r. Some [tnw_serviceNamespaceId r, tnw_externalTenantId r]) (udb_tenants db)
             [nsw_id namespace, the tenantId])"

definition loadExistingAsset ::
  "string \<Rightarrow> namespace_row \<Rightarrow> tenant_row option \<Rightarrow> string \<Rightarrow> upload_db
     \<Rightarrow> durable_upload_error + asset_row" where
  "loadExistingAsset assetId namespace tenant assetOwner db =
     (case List.find (\<lambda>r. asw_id r = assetId \<and> asw_assetOwner r = assetOwner \<and>
              asw_serviceNamespaceId r = nsw_id namespace \<and>
              asw_tenantScopeId r = map_option tnw_id tenant) (udb_assets db) of
        None \<Rightarrow> Inl (RegistryAssetNotFound assetId)
      | Some asset \<Rightarrow> Inr asset)"

definition newAssetRow ::
  "upload_engine \<Rightarrow> issue_input \<Rightarrow> namespace_row \<Rightarrow> tenant_row option \<Rightarrow> string \<Rightarrow> upload_db \<Rightarrow> asset_row" where
  "newAssetRow e input namespace tenant uuid db =
     \<lparr>asw_id = ung_newAsset e (udb_assets db), asw_assetOwner = ii_assetOwner input,
      asw_serviceNamespaceId = nsw_id namespace, asw_tenantScopeId = map_option tnw_id tenant,
      asw_lookupKey = uuid, asw_currentCanonicalVersionId = None\<rparr>"

definition resolveAssetRow ::
  "upload_engine \<Rightarrow> issue_input \<Rightarrow> namespace_row \<Rightarrow> tenant_row option \<Rightarrow> string \<Rightarrow> upload_db
     \<Rightarrow> (upload_db, durable_upload_error, asset_row) outcome" where
  "resolveAssetRow e input namespace tenant uuid db =
     (case ii_assetId input of
        None \<Rightarrow>
          (let asset = newAssetRow e input namespace tenant uuid db in
           and_then (onAssetRows (to_create (ung_assets e) asset) db) (\<lambda>db _. ok db asset))
      | Some assetId \<Rightarrow> (db, loadExistingAsset assetId namespace tenant (ii_assetOwner input) db))"

definition nextVersionNumber :: "string \<Rightarrow> upload_db \<Rightarrow> int" where
  "nextVersionNumber assetId db =
     (case js_sort (\<lambda>a b. b - a)
             (map uvw_versionNumber (filter (\<lambda>v. uvw_assetId v = assetId) (udb_versions db))) of
        [] \<Rightarrow> 0 | n # _ \<Rightarrow> n) + 1"

definition newVersionRow :: "upload_engine \<Rightarrow> issue_input \<Rightarrow> asset_row \<Rightarrow> upload_db \<Rightarrow> upload_version_row" where
  "newVersionRow e input asset db =
     \<lparr>uvw_id = ung_newVersion e (udb_versions db), uvw_assetId = asw_id asset,
      uvw_versionNumber = nextVersionNumber (asw_id asset) db,
      uvw_lifecycleState = row_session_created, uvw_sourceFilename = ii_filename input,
      uvw_detectedContentType = ii_contentType input, uvw_sourceByteLength = ii_byteLength input,
      uvw_sourceChecksum = ii_checksum input, uvw_ingestObjectKey = Some (ii_objectKey input),
      uvw_repositoryEngine = None, uvw_canonicalSourceId = None, uvw_canonicalSnapshotId = None,
      uvw_canonicalLogicalPath = None, uvw_canonicalDigestSet = None,
      uvw_canonicalLogicalByteLength = None, uvw_canonicalStoredByteLength = None,
      uvw_dedupeMetrics = None, uvw_sourceReconstructionHandles = None,
      uvw_sourceSubstrateHints = None, uvw_validationState = None\<rparr>"

definition newSessionRow ::
  "upload_engine \<Rightarrow> issue_input \<Rightarrow> upload_version_row \<Rightarrow> int \<Rightarrow> upload_db \<Rightarrow> upload_session_row" where
  "newSessionRow e input version now db =
     \<lparr>sew_id = ung_newSession e (udb_sessions db), sew_assetVersionId = uvw_id version,
      sew_state = srs_session_created, sew_stagedObjectKey = Some (ii_objectKey input),
      sew_expectedByteLength = ii_byteLength input, sew_expectedChecksum = ii_checksum input,
      sew_firstActivityAt = Some now, sew_lastActivityAt = None, sew_expiresAt = ii_expiresAt input,
      sew_completedAt = None, sew_terminalReason = None\<rparr>"

definition createKeyRow ::
  "issue_input \<Rightarrow> int \<Rightarrow> asset_row \<Rightarrow> upload_version_row \<Rightarrow> upload_session_row \<Rightarrow> upload_key_row" where
  "createKeyRow input now asset version session =
     \<lparr>ukw_apiSurface = ''public'', ukw_callerScopeKey = ii_callerScopeKey input,
      ukw_operationKey = create_operation, ukw_idempotencyKey = ii_idempotencyKey input,
      ukw_normalizedOperationKey = buildCreateNormalizedOperationKey input,
      ukw_normalizedRequestHash = Some (ii_normalizedRequestHash input),
      ukw_responseReference = Some
        \<lparr>rfr_assetId = asw_id asset, rfr_uploadSessionId = sew_id session,
         rfr_versionId = uvw_id version, rfr_workflowDispatchId = None\<rparr>,
      ukw_isTerminal = True, ukw_completedAt = Some now\<rparr>"

definition issuedFrom ::
  "issue_input \<Rightarrow> namespace_row \<Rightarrow> tenant_row option \<Rightarrow> asset_row \<Rightarrow> upload_version_row
     \<Rightarrow> upload_session_row \<Rightarrow> issued_session" where
  "issuedFrom input namespace tenant asset version session =
     \<lparr>is_assetId = asw_id asset, is_assetOwner = ii_assetOwner input, is_checksum = ii_checksum input,
      is_contentType = ii_contentType input, is_expiresAt = ii_expiresAt input,
      is_filename = ii_filename input, is_objectKey = ii_objectKey input,
      is_serviceNamespaceId = nsw_serviceNamespaceId namespace,
      is_tenantId = map_option tnw_externalTenantId tenant, is_uploadSessionId = sew_id session,
      is_versionId = uvw_id version, is_versionNumber = uvw_versionNumber version,
      is_byteLength = ii_byteLength input\<rparr>"

text \<open>The body of the transaction.\<close>

definition issueBody ::
  "upload_engine \<Rightarrow> issue_input \<Rightarrow> int \<Rightarrow> string \<Rightarrow> upload_db
     \<Rightarrow> (upload_db, durable_upload_error, issued_session flagged) outcome" where
  "issueBody e input now uuid db =
     (case row_at (\<lambda>r. Some [nsw_serviceNamespaceId r]) (udb_namespaces db)
             [ii_serviceNamespaceId input] of
        None \<Rightarrow> throw db (RegistryAssetNotFound (nullish (ii_assetId input) (ii_serviceNamespaceId input)))
      | Some namespace \<Rightarrow>
          (let tenant = resolveTenant namespace (ii_tenantId input) db in
           and_then (resolveAssetRow e input namespace tenant uuid db) (\<lambda>db asset.
             let version = newVersionRow e input asset db;
                 session = newSessionRow e input version now db in
             and_then (onVersionRows (to_create (ung_versions e) version) db) (\<lambda>db _.
             and_then (onSessionRows (to_create (ung_sessions e) session) db) (\<lambda>db _.
             and_then (onKeyRows
                 (to_create (ung_keys e) (createKeyRow input now asset version session)) db) (\<lambda>db _.
               ok db (issuedFrom input namespace tenant asset version session, False)))))))"

definition replayIssue ::
  "issue_input \<Rightarrow> upload_key_row \<Rightarrow> upload_db \<Rightarrow> durable_upload_error + issued_session flagged" where
  "replayIssue input r db =
     (if ukw_normalizedRequestHash r \<noteq> Some (ii_normalizedRequestHash input)
      then Inl (RegistryUploadConflict (ii_idempotencyKey input))
      else map_sum id (\<lambda>x. (x, True)) (loadIssuedUploadSessionReplay (ukw_responseReference r) db))"

abbreviation (input) issue_key :: "issue_input \<Rightarrow> upload_db \<Rightarrow> upload_key_row option" where
  "issue_key input \<equiv> findUploadKey (ii_callerScopeKey input) create_operation (ii_idempotencyKey input)"

type_synonym 'a upload_tx =
  "(upload_db \<Rightarrow> (upload_db, durable_upload_error, 'a) outcome) \<Rightarrow> upload_db
     \<Rightarrow> (upload_db, durable_upload_error, 'a) outcome"

text \<open>The transaction with its catch; \<open>durableIssue\<close> reads the idempotency record before.\<close>

definition issueTransaction ::
  "issued_session flagged upload_tx \<Rightarrow> upload_engine \<Rightarrow> issue_input \<Rightarrow> int \<Rightarrow> string \<Rightarrow> upload_db
     \<Rightarrow> (upload_db, durable_upload_error, issued_session flagged) outcome" where
  "issueTransaction tx e input now uuid db =
     (case tx (issueBody e input now uuid) db of
        (db, Inr r) \<Rightarrow> ok db r
      | (db, Inl x) \<Rightarrow>
          if x = UploadDb UniqueViolation
          then (case issue_key input db of
                  Some replayRecord \<Rightarrow> (db, replayIssue input replayRecord db)
                | None \<Rightarrow> throw db x)
          else throw db x)"

definition durableIssue ::
  "issued_session flagged upload_tx \<Rightarrow> upload_engine \<Rightarrow> issue_input \<Rightarrow> int \<Rightarrow> string \<Rightarrow> upload_db
     \<Rightarrow> (upload_db, durable_upload_error, issued_session flagged) outcome" where
  "durableIssue tx e input now uuid db =
     (case issue_key input db of
        Some existing \<Rightarrow> (db, replayIssue input existing db)
      | None \<Rightarrow> issueTransaction tx e input now uuid db)"

section \<open>Completion\<close>

definition canonicalSnapshotFromRow :: "upload_version_row \<Rightarrow> snapshot_result option" where
  "canonicalSnapshotFromRow r =
     (case (uvw_repositoryEngine r, keep_str (uvw_canonicalSourceId r),
            keep_str (uvw_canonicalSnapshotId r), keep_str (uvw_canonicalLogicalPath r)) of
        (Some engine, Some sourceId, Some snapshotId, Some path) \<Rightarrow>
          Some \<lparr>sn_repositoryEngine = engine, sn_canonicalSourceId = sourceId,
                sn_snapshotId = snapshotId, sn_logicalPath = path,
                sn_digests = nullish (uvw_canonicalDigestSet r) [],
                sn_logicalByteLength = uvw_canonicalLogicalByteLength r,
                sn_storedByteLength = uvw_canonicalStoredByteLength r,
                sn_dedupeMetrics = None,
                sn_reconstructionHandles = uvw_sourceReconstructionHandles r,
                sn_substrateHints = uvw_sourceSubstrateHints r\<rparr>
      | _ \<Rightarrow> None)"

definition mapCompletionVersionState :: "row_state \<Rightarrow> version_state" where
  "mapCompletionVersionState st = (if st = row_canonical then ver_canonical else ver_processing)"

definition dispatchSummary :: "dispatch_row \<Rightarrow> dispatch_summary" where
  "dispatchSummary d =
     \<lparr>wd_dispatchId = d_dispatchId d, wd_state = summaryStateOf (d_dispatchState d),
      wd_workflowKey = d_workflowKey d\<rparr>"

definition tryBuildCompletionReplay :: "joined_session \<Rightarrow> durable_completed option" where
  "tryBuildCompletionReplay j =
     (case (jss_dispatch j, canonicalSnapshotFromRow (jss_version j)) of
        (Some dispatch, Some snapshot) \<Rightarrow>
          Some \<lparr>cs_assetId = asw_id (jss_asset j), cs_canonicalSource = snapshot,
                cs_uploadSessionId = sew_id (jss_session j), cs_versionId = uvw_id (jss_version j),
                cs_versionState = mapCompletionVersionState (uvw_lifecycleState (jss_version j)),
                cs_workflowDispatch = dispatchSummary dispatch,
                dc_storedMetrics = uvw_dedupeMetrics (jss_version j)\<rparr>
      | _ \<Rightarrow> None)"

definition loadCompletionReplay ::
  "replay_reference option \<Rightarrow> upload_db \<Rightarrow> durable_upload_error + durable_completed" where
  "loadCompletionReplay reference db =
     (case reference of
        None \<Rightarrow> Inl MissingReplayReference
      | Some parsed \<Rightarrow>
          if rfr_uploadSessionId parsed = [] then Inl MissingReplayReference
          else
            (case Option.bind (joinSession (rfr_uploadSessionId parsed) db) tryBuildCompletionReplay of
               None \<Rightarrow> Inl (ReplayGone (rfr_uploadSessionId parsed))
             | Some replay \<Rightarrow> Inr replay))"

definition completionReference :: "durable_completed \<Rightarrow> replay_reference" where
  "completionReference replay =
     \<lparr>rfr_assetId = cs_assetId replay, rfr_uploadSessionId = cs_uploadSessionId replay,
      rfr_versionId = cs_versionId replay,
      rfr_workflowDispatchId = Some (wd_dispatchId (cs_workflowDispatch replay))\<rparr>"

definition completionKeyRow :: "complete_input \<Rightarrow> int \<Rightarrow> durable_completed \<Rightarrow> upload_key_row" where
  "completionKeyRow input now replay =
     (let operationKey = buildCompletionOperationKey (cs_uploadSessionId replay) in
      \<lparr>ukw_apiSurface = ''public'', ukw_callerScopeKey = co_callerScopeKey input,
       ukw_operationKey = operationKey, ukw_idempotencyKey = co_idempotencyKey input,
       ukw_normalizedOperationKey = operationKey,
       ukw_normalizedRequestHash = Some (co_normalizedRequestHash input),
       ukw_responseReference = Some (completionReference replay),
       ukw_isTerminal = True, ukw_completedAt = Some now\<rparr>)"

definition persistCompletionIdempotencyRecord ::
  "upload_engine \<Rightarrow> complete_input \<Rightarrow> int \<Rightarrow> durable_completed \<Rightarrow> upload_db
     \<Rightarrow> (upload_db, durable_upload_error, unit) outcome" where
  "persistCompletionIdempotencyRecord e input now replay =
     (let row = completionKeyRow input now replay in
      onKeyRows (to_upsert (ung_keys e) (\<lambda>r. uploadKeys r = uploadKeys row)
        (\<lambda>r. r\<lparr>ukw_completedAt := Some now, ukw_isTerminal := True,
               ukw_normalizedOperationKey := ukw_normalizedOperationKey row,
               ukw_normalizedRequestHash := ukw_normalizedRequestHash row,
               ukw_responseReference := ukw_responseReference row\<rparr>) row))"

definition setSessionRow where
  "setSessionRow e sessionId f =
     onSessionRows (to_update (ung_sessions e) (\<lambda>r. sew_id r = sessionId) f)"

definition setVersionRow where
  "setVersionRow e versionId f =
     onVersionRows (to_update (ung_versions e) (\<lambda>r. uvw_id r = versionId) f)"

fun problem_name :: "problem_type \<Rightarrow> string" where
  "problem_name problem_checksum_mismatch = ''https://docs.cdngine.dev/problems/checksum-mismatch''"
| "problem_name problem_validation_failed = ''https://docs.cdngine.dev/problems/validation-failed''"

definition recordValidationFailure ::
  "upload_engine \<Rightarrow> string \<Rightarrow> string \<Rightarrow> problem_type \<Rightarrow> string \<Rightarrow> upload_db
     \<Rightarrow> (upload_db, durable_upload_error, durable_upload_error) outcome" where
  "recordValidationFailure e uploadSessionId versionId problemType detail db =
     and_then (setSessionRow e uploadSessionId
         (\<lambda>r. r\<lparr>sew_state := srs_failed_validation,
                sew_terminalReason := Some (problem_name problemType)\<rparr>) db) (\<lambda>db _.
     and_then (setVersionRow e versionId
         (\<lambda>r. r\<lparr>uvw_lifecycleState := row_failed_validation,
                uvw_validationState := Some vst_failed\<rparr>) db) (\<lambda>db _.
     and_then (onValidationRows (to_create (ung_validations e)
         \<lparr>vlw_assetVersionId = versionId, vlw_problemType = problem_name problemType,
          vlw_detail = detail, vlw_validationState = vst_failed\<rparr>) db) (\<lambda>db _.
       ok db (RegistryValidationFailed uploadSessionId problemType detail))))"

text \<open>What the first transaction decides from the rows it reads.\<close>

datatype phase_decision =
  DecideRefuse durable_upload_error
| DecideExpire string
| DecideReplay durable_completed
| DecideInvalid string string problem_type string
| DecideAdmit string string canonicalization_request

definition expectedObjectKey :: "joined_session \<Rightarrow> string option" where
  "expectedObjectKey j =
     or_else (sew_stagedObjectKey (jss_session j)) (uvw_ingestObjectKey (jss_version j))"

definition durableRequest :: "complete_input \<Rightarrow> joined_session \<Rightarrow> canonicalization_request" where
  "durableRequest input j =
     \<lparr>cr_assetId = asw_id (jss_asset j), cr_assetOwner = asw_assetOwner (jss_asset j),
      cr_filename = uvw_sourceFilename (jss_version j),
      cr_serviceNamespaceId = nsw_serviceNamespaceId (jss_namespace j),
      cr_tenantId = map_option tnw_externalTenantId (jss_tenant j),
      cr_uploadSessionId = sew_id (jss_session j), cr_versionId = uvw_id (jss_version j),
      cr_versionNumber = uvw_versionNumber (jss_version j),
      cr_stagedObject = co_stagedObject input\<rparr>"

text \<open>The checks of the staged object, in their order.\<close>

definition validateStaged :: "complete_input \<Rightarrow> joined_session \<Rightarrow> phase_decision" where
  "validateStaged input j =
     (let staged = co_stagedObject input; sid = co_uploadSessionId input;
          sessionId = sew_id (jss_session j); versionId = uvw_id (jss_version j);
          session = ''Upload session '' @ quoted sid in
      if Some (so_objectKey staged) \<noteq> expectedObjectKey j
      then DecideInvalid sessionId versionId problem_validation_failed
        (session @ '' expected staged object '' @ quoted (nullish (expectedObjectKey j) ''unknown'') @
         '' but received '' @ quoted (so_objectKey staged) @ ''.'')
      else if so_byteLength staged \<noteq> uvw_sourceByteLength (jss_version j)
      then DecideInvalid sessionId versionId problem_validation_failed
        (session @ '' expected '' @ int_text (uvw_sourceByteLength (jss_version j)) @
         '' byte(s) but staged validation observed '' @ int_text (so_byteLength staged) @ '' byte(s).'')
      else if checksumMismatch staged (uvw_sourceChecksum (jss_version j))
      then DecideInvalid sessionId versionId problem_checksum_mismatch
        (session @ '' did not match the expected checksum evidence.'')
      else DecideAdmit sessionId versionId (durableRequest input j))"

definition readPhaseOne :: "int \<Rightarrow> complete_input \<Rightarrow> upload_db \<Rightarrow> phase_decision" where
  "readPhaseOne now input db =
     (let sid = co_uploadSessionId input in
      case joinSession sid db of
        None \<Rightarrow> DecideRefuse (RegistrySessionNotFound sid)
      | Some j \<Rightarrow>
          if now > sew_expiresAt (jss_session j) then DecideExpire (sew_id (jss_session j))
          else
            (case tryBuildCompletionReplay j of
               Some persistedReplay \<Rightarrow> DecideReplay persistedReplay
             | None \<Rightarrow>
                 if sew_state (jss_session j) = srs_terminated \<or>
                    sew_state (jss_session j) = srs_failed_validation
                 then DecideRefuse (RegistrySessionState sid (sew_state (jss_session j)))
                 else if uvw_lifecycleState (jss_version j) \<noteq> row_session_created \<and>
                    uvw_lifecycleState (jss_version j) \<noteq> row_uploaded \<and>
                    uvw_lifecycleState (jss_version j) \<noteq> row_failed_retryable
                 then DecideRefuse (RegistryVersionState sid (uvw_lifecycleState (jss_version j)))
                 else validateStaged input j))"

datatype phase_one =
  PhaseReplay durable_completed
| PhaseInvalid durable_upload_error
| PhaseRequest canonicalization_request

definition writePhaseOne ::
  "upload_engine \<Rightarrow> int \<Rightarrow> complete_input \<Rightarrow> phase_decision \<Rightarrow> upload_db
     \<Rightarrow> (upload_db, durable_upload_error, phase_one) outcome" where
  "writePhaseOne e now input decision db =
     (case decision of
        DecideRefuse x \<Rightarrow> throw db x
      | DecideExpire sessionId \<Rightarrow>
          and_then (setSessionRow e sessionId
              (\<lambda>r. r\<lparr>sew_state := srs_expired,
                     sew_terminalReason := Some ''expired-before-completion''\<rparr>) db)
            (\<lambda>db _. throw db (RegistrySessionExpired (co_uploadSessionId input)))
      | DecideReplay replay \<Rightarrow>
          and_then (persistCompletionIdempotencyRecord e input now replay db)
            (\<lambda>db _. ok db (PhaseReplay replay))
      | DecideInvalid sessionId versionId problemType detail \<Rightarrow>
          and_then (recordValidationFailure e sessionId versionId problemType detail db)
            (\<lambda>db x. ok db (PhaseInvalid x))
      | DecideAdmit sessionId versionId request \<Rightarrow>
          and_then (setSessionRow e sessionId
              (\<lambda>r. r\<lparr>sew_completedAt := Some now, sew_lastActivityAt := Some now,
                     sew_stagedObjectKey := Some (so_objectKey (co_stagedObject input)),
                     sew_state := srs_uploaded\<rparr>) db) (\<lambda>db _.
          and_then (setVersionRow e versionId
              (\<lambda>r. r\<lparr>uvw_ingestObjectKey := Some (so_objectKey (co_stagedObject input)),
                     uvw_lifecycleState := row_canonicalizing\<rparr>) db) (\<lambda>db _.
            ok db (PhaseRequest request))))"

definition phaseOneBody ::
  "upload_engine \<Rightarrow> int \<Rightarrow> complete_input \<Rightarrow> upload_db
     \<Rightarrow> (upload_db, durable_upload_error, phase_one) outcome" where
  "phaseOneBody e now input db = writePhaseOne e now input (readPhaseOne now input db) db"

datatype durable_complete_step =
  DurableFinished "durable_upload_error + durable_completed flagged"
| DurableAwait canonicalization_request

text \<open>What follows the first transaction, up to the await.\<close>

definition afterPhaseOne ::
  "upload_db \<times> (durable_upload_error + phase_one) \<Rightarrow> upload_db \<times> durable_complete_step" where
  "afterPhaseOne res =
     (case res of
        (db, Inl x) \<Rightarrow> (db, DurableFinished (Inl x))
      | (db, Inr (PhaseReplay replay)) \<Rightarrow> (db, DurableFinished (Inr (replay, True)))
      | (db, Inr (PhaseInvalid x)) \<Rightarrow> (db, DurableFinished (Inl x))
      | (db, Inr (PhaseRequest request)) \<Rightarrow> (db, DurableAwait request))"

definition beginDurableComplete ::
  "phase_one upload_tx \<Rightarrow> upload_engine \<Rightarrow> int \<Rightarrow> complete_input \<Rightarrow> upload_db
     \<Rightarrow> upload_db \<times> durable_complete_step" where
  "beginDurableComplete tx e now input db =
     (case findUploadKey (co_callerScopeKey input)
             (buildCompletionOperationKey (co_uploadSessionId input)) (co_idempotencyKey input) db of
        Some existing \<Rightarrow>
          (db, DurableFinished
             (if ukw_normalizedRequestHash existing \<noteq> Some (co_normalizedRequestHash input)
              then Inl (RegistryUploadConflict (co_idempotencyKey input))
              else map_sum id (\<lambda>x. (x, True))
                     (loadCompletionReplay (ukw_responseReference existing) db)))
      | None \<Rightarrow> afterPhaseOne (tx (phaseOneBody e now input) db))"

text \<open>The second transaction.\<close>

definition canonicalColumns :: "snapshot_result \<Rightarrow> upload_version_row \<Rightarrow> upload_version_row" where
  "canonicalColumns s r =
     r\<lparr>uvw_canonicalDigestSet := Some (sn_digests s),
       uvw_canonicalLogicalByteLength := sn_logicalByteLength s,
       uvw_canonicalLogicalPath := Some (sn_logicalPath s),
       uvw_canonicalSnapshotId := Some (sn_snapshotId s),
       uvw_canonicalSourceId := Some (sn_canonicalSourceId s),
       uvw_canonicalStoredByteLength := sn_storedByteLength s,
       uvw_dedupeMetrics := map_option storedMetrics (sn_dedupeMetrics s),
       uvw_lifecycleState := row_canonical,
       uvw_repositoryEngine := Some (sn_repositoryEngine s),
       uvw_sourceReconstructionHandles := sn_reconstructionHandles s,
       uvw_sourceSubstrateHints := sn_substrateHints s,
       uvw_validationState := Some vst_passed\<rparr>"

definition newDispatchRow ::
  "upload_engine \<Rightarrow> string \<Rightarrow> string \<Rightarrow> string \<Rightarrow> upload_db \<Rightarrow> dispatch_row" where
  "newDispatchRow e versionId workflowKey workflowTemplate db =
     (let stamp = ung_newDispatch e (udb_dispatches db) in
      \<lparr>d_assetVersionId = versionId, d_createdAt = snd stamp, d_dispatchId = fst stamp,
       d_dispatchReason = ''upload-complete'', d_dispatchState = disp_pending,
       d_firstAttemptAt = None, d_lastAttemptAt = None, d_lastFailureClass = None,
       d_retrySummary = None, d_updatedAt = snd stamp, d_versionToken = 1,
       d_workflowKey = workflowKey, d_workflowTemplateId = workflowTemplate\<rparr>)"

definition findOrCreateDispatch ::
  "upload_engine \<Rightarrow> string \<Rightarrow> string \<Rightarrow> string \<Rightarrow> upload_db
     \<Rightarrow> (upload_db, durable_upload_error, dispatch_row) outcome" where
  "findOrCreateDispatch e versionId workflowKey workflowTemplate db =
     (case row_at (\<lambda>r. Some [d_workflowKey r]) (udb_dispatches db) [workflowKey] of
        Some d \<Rightarrow> ok db d
      | None \<Rightarrow>
          (let row = newDispatchRow e versionId workflowKey workflowTemplate db in
           and_then (onDispatchRows (to_create (ung_dispatches e) row) db) (\<lambda>db _. ok db row)))"

fun engine_text :: "repository_engine \<Rightarrow> string" where
  "engine_text engine_kopia = ''kopia''"
| "engine_text engine_xet = ''xet''"
| "engine_text engine_object_store = ''object-store''"
| "engine_text engine_restic = ''restic''"
| "engine_text engine_borg = ''borg''"
| "engine_text engine_casync = ''casync''"
| "engine_text engine_custom = ''custom''"

definition canonicalizedAudit ::
  "complete_input \<Rightarrow> snapshot_result \<Rightarrow> string \<Rightarrow> string \<Rightarrow> string \<Rightarrow> upload_audit_row" where
  "canonicalizedAudit input s assetId versionId dispatchId =
     \<lparr>aw_actorType = actor_system, aw_actorId = None, aw_assetVersionId = Some versionId,
      aw_workflowDispatchId = Some dispatchId, aw_correlationId = Some (co_idempotencyKey input),
      aw_eventType = ''asset-version-canonicalized'', aw_reason = None,
      aw_payload = JObj
        [(''canonicalSourceId'', JStr (sn_canonicalSourceId s)),
         (''repositoryEngine'', JStr (engine_text (sn_repositoryEngine s))),
         (''workflowDispatchId'', JStr dispatchId)],
      uaw_assetId = Some assetId\<rparr>"

definition phaseTwoBody ::
  "upload_engine \<Rightarrow> int \<Rightarrow> complete_input \<Rightarrow> snapshot_result \<Rightarrow> upload_db
     \<Rightarrow> (upload_db, durable_upload_error, durable_completed flagged) outcome" where
  "phaseTwoBody e now input canonicalSource db =
     (let sid = co_uploadSessionId input in
      case joinSession sid db of
        None \<Rightarrow> throw db (RegistrySessionNotFound sid)
      | Some j \<Rightarrow>
          (let version = jss_version j; asset = jss_asset j in
           case tryBuildCompletionReplay j of
             Some replay \<Rightarrow>
               and_then (persistCompletionIdempotencyRecord e input now replay db)
                 (\<lambda>db _. ok db (replay, True))
           | None \<Rightarrow>
               if uvw_lifecycleState version \<noteq> row_canonicalizing
               then throw db (RegistryVersionState sid (uvw_lifecycleState version))
               else
                 and_then (setVersionRow e (uvw_id version) (canonicalColumns canonicalSource) db) (\<lambda>db _.
                 and_then (onAssetRows (to_update (ung_assets e) (\<lambda>r. asw_id r = asw_id asset)
                     (\<lambda>r. r\<lparr>asw_currentCanonicalVersionId := Some (uvw_id version)\<rparr>)) db) (\<lambda>db _.
                 let workflowTemplate = nullish (co_workflowTemplate input) ''asset-derivation-v1'';
                     workflowKey = buildWorkflowKey (nsw_serviceNamespaceId (jss_namespace j))
                       (asw_id asset) (uvw_id version) workflowTemplate in
                 and_then (findOrCreateDispatch e (uvw_id version) workflowKey workflowTemplate db)
                   (\<lambda>db dispatch.
                 and_then (onAuditRows (to_create (ung_audits e)
                     (canonicalizedAudit input canonicalSource (asw_id asset) (uvw_id version)
                       (d_dispatchId dispatch))) db) (\<lambda>db _.
                 let completed =
                   \<lparr>cs_assetId = asw_id asset, cs_canonicalSource = canonicalSource,
                    cs_uploadSessionId = sew_id (jss_session j), cs_versionId = uvw_id version,
                    cs_versionState = ver_canonical,
                    cs_workflowDispatch = dispatchSummary dispatch, dc_storedMetrics = None\<rparr> in
                 and_then (persistCompletionIdempotencyRecord e input now completed db)
                   (\<lambda>db _. ok db (completed, False))))))))"

text \<open>The catch around the await and the second transaction.\<close>

definition failCompletion ::
  "upload_engine \<Rightarrow> complete_input \<Rightarrow> canonicalization_request \<Rightarrow> (string + durable_upload_error)
     \<Rightarrow> upload_db \<Rightarrow> (upload_db, durable_upload_error, 'a) outcome" where
  "failCompletion e input request cause db =
     and_then (setVersionRow e (cr_versionId request)
         (\<lambda>r. r\<lparr>uvw_lifecycleState := row_failed_retryable\<rparr>) db)
       (\<lambda>db _. throw db (RegistryCanonicalizationFailed (co_uploadSessionId input) cause))"

text \<open>After the await: the canonicalizer returned a snapshot, or threw (its cause is a text).\<close>

definition finishDurableComplete ::
  "durable_completed flagged upload_tx \<Rightarrow> upload_engine \<Rightarrow> int \<Rightarrow> complete_input
     \<Rightarrow> canonicalization_request \<Rightarrow> (string + snapshot_result) \<Rightarrow> upload_db
     \<Rightarrow> (upload_db, durable_upload_error, durable_completed flagged) outcome" where
  "finishDurableComplete tx e now input request answer db =
     (case answer of
        Inl cause \<Rightarrow> failCompletion e input request (Inl cause) db
      | Inr canonicalSource \<Rightarrow>
          (case tx (phaseTwoBody e now input canonicalSource) db of
             (db, Inr r) \<Rightarrow> ok db r
           | (db, Inl x) \<Rightarrow> failCompletion e input request (Inr x) db))"

text \<open>The whole call, when nothing runs during the await.\<close>

definition durableComplete ::
  "phase_one upload_tx \<Rightarrow> durable_completed flagged upload_tx \<Rightarrow> upload_engine \<Rightarrow> int \<Rightarrow> complete_input
     \<Rightarrow> (canonicalization_request \<Rightarrow> string + snapshot_result) \<Rightarrow> upload_db
     \<Rightarrow> (upload_db, durable_upload_error, durable_completed flagged) outcome" where
  "durableComplete tx1 tx2 e now input canonicalize db =
     (case beginDurableComplete tx1 e now input db of
        (db, DurableFinished r) \<Rightarrow> (db, r)
      | (db, DurableAwait request) \<Rightarrow>
          finishDurableComplete tx2 e now input request (canonicalize request) db)"

end
