(* ===== verification/Upload_Guarantees.thy ===== *)
theory Upload_Guarantees
  imports Durable_Upload Api_Access
begin

text \<open>
  What the registry's upload store guarantees, and what it does not. The first lemmas say when the
  tables accept a write; \<open>join_updated\<close>, \<open>join_rows\<close> follow the joined session through the writes, and
  \<open>admit_effect\<close>, \<open>invalid_effect\<close>, \<open>phase_two_effect\<close>, \<open>fail_completion\<close> give the effect of each
  transaction. The properties follow: what a completion records and how it is replayed, the expiry that is
  rolled back, content that two versions share, the tenant that is dropped, and completions that
  overlap or stop. The worked examples run the store on tables that are lists.
\<close>

section \<open>Accepted writes\<close>

lemma find_row_at: "List.find (\<lambda>r. f r = x) rows = row_at (\<lambda>r. Some [f r]) rows [x]"
  by (simp add: row_at_def)

lemma distinct_change_one:
  assumes "distinct (List.map_filter c rows)" "distinct (List.map_filter c0 rows)"
    and "\<And>r. w r \<Longrightarrow> c0 r = Some k0" "\<And>r. r \<in> set rows \<Longrightarrow> \<not> w r \<Longrightarrow> c r \<noteq> Some k"
    and "\<And>r. w r \<Longrightarrow> c (f r) = Some k"
  shows "distinct (List.map_filter c (change_rows w f rows))"
  using assms(1,2,4)
proof (induction rows)
  case (Cons x xs)
  show ?case
  proof (cases "w x")
    case True
    have w: "\<not> w y" if "y \<in> set xs" for y
    proof
      assume "w y"
      then have "k0 \<in> set (List.map_filter c0 xs)" using assms(3) that
        by (force simp: List.map_filter_def)
      then show False using Cons(3) assms(3) [OF True] by (simp add: List.map_filter_simps)
    qed
    then have "change_rows w f xs = xs" by (auto simp: change_rows_def intro!: map_idI)
    moreover have "k \<notin> set (List.map_filter c xs)" using Cons(4) w
      by (force simp: List.map_filter_def)
    ultimately show ?thesis using True Cons(2) assms(5) [OF True]
      by (simp add: change_rows_def List.map_filter_simps split: option.splits)
  next
    case False
    have ih: "distinct (List.map_filter c (change_rows w f xs))"
      using Cons by (simp add: List.map_filter_simps split: option.splits)
    have "m \<notin> set (List.map_filter c (change_rows w f xs))" if m: "c x = Some m" for m
    proof
      assume "m \<in> set (List.map_filter c (change_rows w f xs))"
      then obtain y where y: "y \<in> set xs" "c (if w y then f y else y) = Some m"
        by (auto simp: List.map_filter_def change_rows_def)
      show False
      proof (cases "w y")
        case True
        then show False using y m assms(5) Cons(4) [of x] False by simp
      next
        case False
        then have "m \<in> set (List.map_filter c xs)" using y by (force simp: List.map_filter_def)
        then show False using Cons(2) m by (simp add: List.map_filter_simps)
      qed
    qed
    then show ?thesis using ih False
      by (simp add: change_rows_def List.map_filter_simps split: option.splits)
  qed
qed (simp add: change_rows_def List.map_filter_simps)

lemma kept_change:
  "(\<And>r. c (f r) = c r) \<Longrightarrow> List.map_filter c (change_rows w f rows) = List.map_filter c rows"
  by (induction rows) (auto simp: change_rows_def List.map_filter_simps split: option.splits)

lemma update_accepted:
  assumes laws: "table_laws cs ops" "satisfies cs rows" "satisfies cs (change_rows w f rows)"
    and c: "c \<in> set cs" "\<And>r. c (f r) = c r" and r: "r \<in> set rows" "w r"
  obtains rows' where "to_update ops w f rows = Inr rows'" "satisfies cs rows'"
    "\<And>k. row_at c rows' k = map_option (\<lambda>r. if w r then f r else r) (row_at c rows k)"
    "set rows' = (\<lambda>r. if w r then f r else r) ` set rows"
proof -
  have wr: "written cs (change_rows w f rows) (to_update ops w f rows)"
    by (rule update_written [where w = w and f = f, OF laws(1,2) r])
  then obtain rows' where rows': "to_update ops w f rows = Inr rows'"
    and m: "mset rows' = mset (change_rows w f rows)"
    using laws(3) by (auto simp: written_def)
  note up = update_result [OF laws(1,2) rows']
  have "row_at c rows' k = map_option (\<lambda>r. if w r then f r else r) (row_at c rows k)" for k
  proof -
    have "row_at c rows' k = row_at c (change_rows w f rows) k"
      using row_at_mset [OF laws(3) c(1) m] by simp
    also have "\<dots> = map_option (\<lambda>r. if w r then f r else r) (row_at c rows k)"
      using c(2) by (induction rows) (auto simp: row_at_def change_rows_def)
    finally show ?thesis .
  qed
  then show ?thesis using that rows' up by blast
qed

lemma update_conflict:
  assumes laws: "table_laws cs ops" "satisfies cs rows"
    and c: "c \<in> set cs" "r \<in> set rows" "w r" "c (f r) = Some k"
    and other: "r' \<in> set rows" "\<not> w r'" "c r' = Some k" "f r \<noteq> r'"
  shows "to_update ops w f rows = Inl UniqueViolation"
proof (cases "to_update ops w f rows")
  case (Inl x)
  then show ?thesis using update_written [where w = w and f = f, OF laws c(2,3)] write_error by metis
next
  case (Inr rows')
  note up = update_result [OF laws Inr]
  have "f r \<in> set rows'" "r' \<in> set rows'" using up(2) c(2,3) other(1,2) by auto
  then show ?thesis using satisfies_unique [OF up(1) c(1)] c(4) other(3,4) by blast
qed

lemma create_accepted:
  assumes laws: "table_laws cs ops" "satisfies cs rows"
    and fresh: "\<And>c. c \<in> set cs \<Longrightarrow> \<forall>r\<in>set rows. c r = None \<or> c r \<noteq> c new"
  obtains rows' where "to_create ops new rows = Inr rows'" "satisfies cs rows'"
    "set rows' = insert new (set rows)"
    "\<And>c k. c \<in> set cs \<Longrightarrow> row_at c rows' k = (if c new = Some k then Some new else row_at c rows k)"
proof -
  have "distinct (List.map_filter c (new # rows))" if "c \<in> set cs" for c
  proof (cases "c new")
    case None
    then show ?thesis using laws(2) that by (simp add: satisfies_def List.map_filter_simps)
  next
    case (Some k)
    have "k \<notin> set (List.map_filter c rows)" using fresh [OF that] Some
      by (force simp: List.map_filter_def)
    then show ?thesis using Some laws(2) that by (simp add: satisfies_def List.map_filter_simps)
  qed
  then have sat: "satisfies cs (new # rows)" by (simp add: satisfies_def)
  moreover have "written cs (new # rows) (to_create ops new rows)"
    using laws unfolding table_laws_def by blast
  ultimately obtain rows' where rows': "to_create ops new rows = Inr rows'"
    and m: "mset rows' = mset (new # rows)" by (auto simp: written_def)
  note cr = create_result [OF laws rows']
  have "row_at c rows' k = (if c new = Some k then Some new else row_at c rows k)" if "c \<in> set cs" for c k
    using row_at_mset [OF sat that m] by (simp add: row_at_def)
  then show ?thesis using that rows' cr by blast
qed

abbreviation (input) sessionIds :: "upload_session_row row_constraint" where
  "sessionIds \<equiv> \<lambda>r. Some [sew_id r]"

lemma joined_rows:
  assumes "joinSession sid db = Some j"
  shows "jss_session j \<in> set (udb_sessions db)" "sew_id (jss_session j) = sid"
    "jss_version j \<in> set (udb_versions db)" "uvw_id (jss_version j) = sew_assetVersionId (jss_session j)"
    "jss_asset j \<in> set (udb_assets db)" "asw_id (jss_asset j) = uvw_assetId (jss_version j)"
    "jss_dispatch j = firstDispatch (uvw_id (jss_version j)) db"
  using assms by (auto simp: joinSession_def bind_eq_Some_conv find_Some_iff)

lemma upload_tables:
  assumes "upload_laws e" "upload_db_ok db"
  shows "table_laws assetConstraints (ung_assets e)" "satisfies assetConstraints (udb_assets db)"
    "table_laws uploadVersionConstraints (ung_versions e)"
    "satisfies uploadVersionConstraints (udb_versions db)"
    "table_laws sessionConstraints (ung_sessions e)" "satisfies sessionConstraints (udb_sessions db)"
    "table_laws [uploadKeys] (ung_keys e)" "satisfies [uploadKeys] (udb_keys db)"
    "table_laws dispatchConstraints (ung_dispatches e)" "satisfies dispatchConstraints (udb_dispatches db)"
    "table_laws [] (ung_audits e)" "table_laws [] (ung_validations e)"
  using assms by (simp_all add: upload_laws_def upload_db_ok_def)

lemma set_session_ok:
  assumes "upload_laws e" "upload_db_ok db" "session \<in> set (udb_sessions db)"
    and "\<And>r. sew_id (f r) = sew_id r \<and> sew_assetVersionId (f r) = sew_assetVersionId r"
  obtains rows where "setSessionRow e (sew_id session) f db = (db\<lparr>udb_sessions := rows\<rparr>, Inr ())"
    "satisfies sessionConstraints rows"
    "\<And>k. row_at sessionIds rows k =
       map_option (\<lambda>r. if sew_id r = sew_id session then f r else r) (row_at sessionIds (udb_sessions db) k)"
proof -
  note t = upload_tables [OF assms(1,2)]
  let ?w = "\<lambda>r. sew_id r = sew_id session"
  have sat: "satisfies sessionConstraints (change_rows ?w f (udb_sessions db))"
    using t(6) assms(4) by (simp add: satisfies_def sessionConstraints_def kept_change)
  have c: "sessionIds \<in> set sessionConstraints" by (simp add: sessionConstraints_def)
  have k: "sessionIds (f r) = sessionIds r" for r using assms(4) by simp
  have w: "?w session" by simp
  obtain rows where "to_update (ung_sessions e) ?w f (udb_sessions db) = Inr rows"
    "satisfies sessionConstraints rows"
    "\<And>k. row_at sessionIds rows k =
       map_option (\<lambda>r. if ?w r then f r else r) (row_at sessionIds (udb_sessions db) k)"
    by (rule update_accepted [where w = ?w and f = f, OF t(5,6) sat c k assms(3) w]) (rule that, assumption+)
  then show ?thesis using that [of rows] by (simp add: setSessionRow_def writeUpload_def)
qed

lemma set_version_ok:
  assumes "upload_laws e" "upload_db_ok db" "version \<in> set (udb_versions db)"
    and "\<And>r. uvw_id (f r) = uvw_id r \<and> uvw_assetId (f r) = uvw_assetId r \<and>
      uvw_versionNumber (f r) = uvw_versionNumber r"
    and "(\<forall>r. uvw_canonicalSourceId (f r) = uvw_canonicalSourceId r) \<or>
      (\<exists>source. (\<forall>r. uvw_canonicalSourceId (f r) = Some source) \<and>
        (\<forall>v \<in> set (udb_versions db). uvw_id v \<noteq> uvw_id version \<longrightarrow>
           uvw_canonicalSourceId v \<noteq> Some source))"
  obtains rows where "setVersionRow e (uvw_id version) f db = (db\<lparr>udb_versions := rows\<rparr>, Inr ())"
    "satisfies uploadVersionConstraints rows"
    "\<And>k. row_at versionIds rows k =
       map_option (\<lambda>r. if uvw_id r = uvw_id version then f r else r) (row_at versionIds (udb_versions db) k)"
    "set rows = (\<lambda>r. if uvw_id r = uvw_id version then f r else r) ` set (udb_versions db)"
proof -
  note t = upload_tables [OF assms(1,2)]
  let ?w = "\<lambda>r. uvw_id r = uvw_id version"
  have ids: "distinct (List.map_filter versionIds (udb_versions db))"
    and cs: "distinct (List.map_filter canonicalSources (udb_versions db))"
    using t(4) by (simp_all add: satisfies_def uploadVersionConstraints_def)
  have kept: "versionIds (f r) = versionIds r" "versionNumbers (f r) = versionNumbers r" for r
    using assms(4) by (simp_all add: versionIds_def versionNumbers_def)
  have "distinct (List.map_filter canonicalSources (change_rows ?w f (udb_versions db)))"
    using assms(5)
  proof
    assume "\<forall>r. uvw_canonicalSourceId (f r) = uvw_canonicalSourceId r"
    then show ?thesis using cs by (simp add: canonicalSources_def kept_change)
  next
    assume "\<exists>source. (\<forall>r. uvw_canonicalSourceId (f r) = Some source) \<and>
        (\<forall>v \<in> set (udb_versions db). uvw_id v \<noteq> uvw_id version \<longrightarrow>
           uvw_canonicalSourceId v \<noteq> Some source)"
    then show ?thesis
      by (elim exE conjE) (rule distinct_change_one [OF cs ids], auto simp: versionIds_def canonicalSources_def)
  qed
  then have sat: "satisfies uploadVersionConstraints (change_rows ?w f (udb_versions db))"
    using t(4) kept by (simp add: satisfies_def uploadVersionConstraints_def kept_change)
  have c: "versionIds \<in> set uploadVersionConstraints" by (simp add: uploadVersionConstraints_def)
  have w: "?w version" by simp
  obtain rows where "to_update (ung_versions e) ?w f (udb_versions db) = Inr rows"
    "satisfies uploadVersionConstraints rows"
    "\<And>k. row_at versionIds rows k = map_option (\<lambda>r. if ?w r then f r else r) (row_at versionIds (udb_versions db) k)"
    "set rows = (\<lambda>r. if ?w r then f r else r) ` set (udb_versions db)"
    by (rule update_accepted [where w = ?w and f = f, OF t(3,4) sat c kept(1) assms(3) w])
      (rule that, assumption+)
  then show ?thesis using that [of rows] by (simp add: setVersionRow_def writeUpload_def)
qed

section \<open>An expiry that is not recorded\<close>

text \<open>C24. A session that has expired is refused, and the state that says so is lost. The transaction
  marks the session as expired and then throws, so the mark is rolled back with it: after the refusal
  the database is as it was, although the body had written the state.\<close>

theorem durable_expiry_not_recorded:
  assumes "transactional tx" "upload_laws e" "upload_db_ok db"
    and "joinSession (co_uploadSessionId input) db = Some j" "now > sew_expiresAt (jss_session j)"
    and "findUploadKey (co_callerScopeKey input)
      (buildCompletionOperationKey (co_uploadSessionId input)) (co_idempotencyKey input) db = None"
  shows "beginDurableComplete tx e now input db =
      (db, DurableFinished (Inl (RegistrySessionExpired (co_uploadSessionId input)))) \<and>
    (\<exists>written. phaseOneBody e now input db =
        (written, Inl (RegistrySessionExpired (co_uploadSessionId input))) \<and>
      map_option sew_state (row_at sessionIds (udb_sessions written) [co_uploadSessionId input]) =
        Some srs_expired)"
proof -
  note j = joined_rows [OF assms(4)]
  let ?f = "\<lambda>r. r\<lparr>sew_state := srs_expired, sew_terminalReason := Some ''expired-before-completion''\<rparr>"
  have keeps: "sew_id (?f r) = sew_id r \<and> sew_assetVersionId (?f r) = sew_assetVersionId r" for r by simp
  obtain rows where rows: "setSessionRow e (sew_id (jss_session j)) ?f db = (db\<lparr>udb_sessions := rows\<rparr>, Inr ())"
    and at: "\<And>k. row_at sessionIds rows k =
       map_option (\<lambda>r. if sew_id r = sew_id (jss_session j) then ?f r else r)
         (row_at sessionIds (udb_sessions db) k)"
    by (rule set_session_ok [OF assms(2,3) j(1) keeps]) (rule that, assumption+)
  have body: "phaseOneBody e now input db =
      (db\<lparr>udb_sessions := rows\<rparr>, Inl (RegistrySessionExpired (co_uploadSessionId input)))"
    using rows assms(5) by (simp add: phaseOneBody_def readPhaseOne_def assms(4) writePhaseOne_def)
  have "tx (phaseOneBody e now input) db = (db, Inl (RegistrySessionExpired (co_uploadSessionId input)))"
    by (rule tx_aborted [where body = "phaseOneBody e now input" and db = db, OF assms(1) body])
  moreover have "row_at sessionIds (udb_sessions db) [co_uploadSessionId input] = Some (jss_session j)"
    using row_at_Some [OF upload_tables(6) [OF assms(2,3)], of sessionIds] j(1,2)
    by (simp add: sessionConstraints_def)
  ultimately show ?thesis using body at [of "[co_uploadSessionId input]"] assms(6) j(2)
    by (simp add: beginDurableComplete_def afterPhaseOne_def)
qed

section \<open>Content that two versions share\<close>

lemma fail_completion:
  assumes "upload_laws e" "upload_db_ok db" "version \<in> set (udb_versions db)"
    and "cr_versionId request = uvw_id version"
  obtains rows where "failCompletion e input request cause db = (db\<lparr>udb_versions := rows\<rparr>,
      Inl (RegistryCanonicalizationFailed (co_uploadSessionId input) cause))"
    "satisfies uploadVersionConstraints rows"
    "\<And>k. row_at versionIds rows k =
       map_option (\<lambda>r. if uvw_id r = uvw_id version then r\<lparr>uvw_lifecycleState := row_failed_retryable\<rparr> else r)
         (row_at versionIds (udb_versions db) k)"
    "set rows = (\<lambda>r. if uvw_id r = uvw_id version then r\<lparr>uvw_lifecycleState := row_failed_retryable\<rparr> else r)
       ` set (udb_versions db)"
proof -
  let ?f = "\<lambda>r. r\<lparr>uvw_lifecycleState := row_failed_retryable\<rparr>"
  have keeps: "uvw_id (?f r) = uvw_id r \<and> uvw_assetId (?f r) = uvw_assetId r \<and>
      uvw_versionNumber (?f r) = uvw_versionNumber r" for r by simp
  obtain rows where "setVersionRow e (uvw_id version) ?f db = (db\<lparr>udb_versions := rows\<rparr>, Inr ())"
    "satisfies uploadVersionConstraints rows"
    "\<And>k. row_at versionIds rows k =
       map_option (\<lambda>r. if uvw_id r = uvw_id version then ?f r else r) (row_at versionIds (udb_versions db) k)"
    "set rows = (\<lambda>r. if uvw_id r = uvw_id version then ?f r else r) ` set (udb_versions db)"
    by (rule set_version_ok [OF assms(1-3) keeps]) (simp, rule that, assumption+)
  then show ?thesis using that [of rows] assms(4) by (simp add: failCompletion_def)
qed

text \<open>When the canonicalizer answers with the canonical source of another version, the unique column
  rejects it: the second transaction fails and the version is left for a retry.\<close>

lemma shared_content_refused:
  assumes "transactional tx" "upload_laws e" "upload_db_ok db"
    and "joinSession (co_uploadSessionId input) db = Some j" "tryBuildCompletionReplay j = None"
    and "uvw_lifecycleState (jss_version j) = row_canonicalizing"
    and "cr_versionId request = uvw_id (jss_version j)"
    and "other \<in> set (udb_versions db)" "uvw_id other \<noteq> uvw_id (jss_version j)"
    and "uvw_canonicalSourceId other = Some (sn_canonicalSourceId snapshot)"
  shows "\<exists>db'. finishDurableComplete tx e now input request (Inr snapshot) db =
      (db', Inl (RegistryCanonicalizationFailed (co_uploadSessionId input) (Inr (UploadDb UniqueViolation)))) \<and>
    (\<exists>rows. db' = db\<lparr>udb_versions := rows\<rparr> \<and> satisfies uploadVersionConstraints rows \<and>
      other \<in> set rows \<and>
      (\<forall>k. row_at versionIds rows k =
         map_option (\<lambda>r. if uvw_id r = uvw_id (jss_version j)
             then r\<lparr>uvw_lifecycleState := row_failed_retryable\<rparr> else r)
           (row_at versionIds (udb_versions db) k)))"
proof -
  note t = upload_tables [OF assms(2,3)]
  note j = joined_rows [OF assms(4)]
  have "to_update (ung_versions e) (\<lambda>r. uvw_id r = uvw_id (jss_version j)) (canonicalColumns snapshot)
      (udb_versions db) = Inl UniqueViolation"
    by (rule update_conflict [OF t(3,4), where c = canonicalSources and r = "jss_version j" and r' = other])
      (use assms(8-10) j(3) in \<open>auto simp: uploadVersionConstraints_def canonicalSources_def canonicalColumns_def\<close>)
  then have "phaseTwoBody e now input snapshot db = (db, Inl (UploadDb UniqueViolation))"
    using assms(4-6) by (simp add: phaseTwoBody_def setVersionRow_def writeUpload_def Let_def)
  then have tx: "tx (phaseTwoBody e now input snapshot) db = (db, Inl (UploadDb UniqueViolation))"
    by (rule tx_aborted [OF assms(1)])
  obtain rows where f: "failCompletion e input request (Inr (UploadDb UniqueViolation)) db =
      (db\<lparr>udb_versions := rows\<rparr>, Inl (RegistryCanonicalizationFailed (co_uploadSessionId input)
         (Inr (UploadDb UniqueViolation))) :: durable_upload_error + durable_completed flagged)"
    "satisfies uploadVersionConstraints rows"
    "\<And>k. row_at versionIds rows k = map_option (\<lambda>r. if uvw_id r = uvw_id (jss_version j)
        then r\<lparr>uvw_lifecycleState := row_failed_retryable\<rparr> else r) (row_at versionIds (udb_versions db) k)"
    "set rows = (\<lambda>r. if uvw_id r = uvw_id (jss_version j)
        then r\<lparr>uvw_lifecycleState := row_failed_retryable\<rparr> else r) ` set (udb_versions db)"
    by (rule fail_completion [OF assms(2,3) j(3) assms(7)]) (rule that, assumption+)
  have "other \<in> set rows" using f(4) assms(8,9) by force
  then show ?thesis using f(2,3)
    by (intro exI [of _ "db\<lparr>udb_versions := rows\<rparr>"] exI [of _ rows] conjI allI)
      (simp_all add: finishDurableComplete_def tx f(1))
qed

lemma join_updated:
  assumes "\<And>k. row_at sessionIds S k = map_option F (row_at sessionIds (udb_sessions db) k)"
    and "\<And>k. row_at versionIds V k = map_option G (row_at versionIds (udb_versions db) k)"
    and "\<And>r. sew_assetVersionId (F r) = sew_assetVersionId r"
    and "\<And>r. uvw_assetId (G r) = uvw_assetId r \<and> uvw_id (G r) = uvw_id r"
  shows "joinSession sid (db\<lparr>udb_sessions := S, udb_versions := V\<rparr>) =
    map_option (\<lambda>j. j\<lparr>jss_session := F (jss_session j), jss_version := G (jss_version j)\<rparr>)
      (joinSession sid db)"
proof -
  have v: "List.find (\<lambda>r. uvw_id r = x) rows = row_at versionIds rows [x]" for x rows
    by (simp add: row_at_def versionIds_def)
  show ?thesis unfolding joinSession_def find_row_at [of sew_id] v
    by (cases "row_at sessionIds (udb_sessions db) [sid]")
      (auto simp: assms firstDispatch_def bind_eq_None_conv split: bind_splits)
qed

text \<open>A session whose version has no canonical source, and content that another version holds.\<close>

definition content_taken :: "string \<Rightarrow> string \<Rightarrow> upload_db \<Rightarrow> bool" where
  "content_taken sid source db \<longleftrightarrow> upload_db_ok db \<and>
     (\<forall>r \<in> set (udb_keys db). ukw_operationKey r \<noteq> buildCompletionOperationKey sid) \<and>
     (\<exists>j. joinSession sid db = Some j \<and> uvw_canonicalSourceId (jss_version j) = None \<and>
        (\<exists>other \<in> set (udb_versions db). uvw_id other \<noteq> uvw_id (jss_version j) \<and>
           uvw_canonicalSourceId other = Some source))"

lemma no_source_no_replay: "uvw_canonicalSourceId (jss_version j) = None \<Longrightarrow> tryBuildCompletionReplay j = None"
  by (simp add: tryBuildCompletionReplay_def canonicalSnapshotFromRow_def split: option.splits)

lemma content_taken_updated:
  assumes "content_taken sid source db" "satisfies sessionConstraints S" "satisfies uploadVersionConstraints V"
    and "\<And>k. row_at sessionIds S k = map_option F (row_at sessionIds (udb_sessions db) k)"
    and "\<And>k. row_at versionIds V k = map_option G (row_at versionIds (udb_versions db) k)"
    and "\<And>r. sew_assetVersionId (F r) = sew_assetVersionId r"
    and "\<And>r. uvw_assetId (G r) = uvw_assetId r \<and> uvw_id (G r) = uvw_id r \<and>
      uvw_canonicalSourceId (G r) = uvw_canonicalSourceId r"
  shows "content_taken sid source (db\<lparr>udb_sessions := S, udb_versions := V\<rparr>)"
proof -
  obtain j other where j: "joinSession sid db = Some j" "uvw_canonicalSourceId (jss_version j) = None"
    and o: "other \<in> set (udb_versions db)" "uvw_id other \<noteq> uvw_id (jss_version j)"
      "uvw_canonicalSourceId other = Some source"
    using assms(1) by (auto simp: content_taken_def)
  have ok: "upload_db_ok db" using assms(1) by (simp add: content_taken_def)
  have v: "versionIds \<in> set uploadVersionConstraints" by (simp add: uploadVersionConstraints_def)
  have "satisfies uploadVersionConstraints (udb_versions db)" using ok by (simp add: upload_db_ok_def)
  then have "row_at versionIds (udb_versions db) [uvw_id other] = Some other"
    using row_at_Some [OF _ v] o(1) by (simp add: versionIds_def)
  then have "row_at versionIds V [uvw_id other] = Some (G other)" by (simp add: assms(5))
  then have "G other \<in> set V" using row_at_Some [OF assms(3) v] by blast
  moreover have G: "uvw_assetId (G r) = uvw_assetId r \<and> uvw_id (G r) = uvw_id r" for r using assms(7) by simp
  have "joinSession sid (db\<lparr>udb_sessions := S, udb_versions := V\<rparr>) =
      Some (j\<lparr>jss_session := F (jss_session j), jss_version := G (jss_version j)\<rparr>)"
    using join_updated [OF assms(4,5,6) G, of sid] j(1) by simp
  ultimately show ?thesis using assms(1-3,7) ok j o
    by (auto simp: content_taken_def upload_db_ok_def intro!: bexI [of _ "G other"])
qed

lemma set_both:
  assumes "upload_laws e" "upload_db_ok db" "joinSession sid db = Some j"
    and F: "\<And>r. sew_id (F r) = sew_id r \<and> sew_assetVersionId (F r) = sew_assetVersionId r"
    and G: "\<And>r. uvw_id (G r) = uvw_id r \<and> uvw_assetId (G r) = uvw_assetId r \<and>
      uvw_versionNumber (G r) = uvw_versionNumber r \<and> uvw_canonicalSourceId (G r) = uvw_canonicalSourceId r"
  obtains S V where
    "setSessionRow e (sew_id (jss_session j)) F db = (db\<lparr>udb_sessions := S\<rparr>, Inr ())"
    "setVersionRow e (uvw_id (jss_version j)) G (db\<lparr>udb_sessions := S\<rparr>) =
       (db\<lparr>udb_sessions := S, udb_versions := V\<rparr>, Inr ())"
    "satisfies sessionConstraints S" "satisfies uploadVersionConstraints V"
    "\<And>k. row_at sessionIds S k =
       map_option (\<lambda>r. if sew_id r = sew_id (jss_session j) then F r else r) (row_at sessionIds (udb_sessions db) k)"
    "\<And>k. row_at versionIds V k =
       map_option (\<lambda>r. if uvw_id r = uvw_id (jss_version j) then G r else r) (row_at versionIds (udb_versions db) k)"
proof -
  note j = joined_rows [OF assms(3)]
  obtain S where S: "setSessionRow e (sew_id (jss_session j)) F db = (db\<lparr>udb_sessions := S\<rparr>, Inr ())"
    "satisfies sessionConstraints S"
    "\<And>k. row_at sessionIds S k =
       map_option (\<lambda>r. if sew_id r = sew_id (jss_session j) then F r else r) (row_at sessionIds (udb_sessions db) k)"
    by (rule set_session_ok [OF assms(1,2) j(1) F]) (rule that, assumption+)
  let ?db = "db\<lparr>udb_sessions := S\<rparr>"
  have ok: "upload_db_ok ?db" using assms(2) S(2) by (simp add: upload_db_ok_def)
  have v: "jss_version j \<in> set (udb_versions ?db)" using j(3) by simp
  have g: "uvw_id (G r) = uvw_id r \<and> uvw_assetId (G r) = uvw_assetId r \<and>
      uvw_versionNumber (G r) = uvw_versionNumber r" for r using G by simp
  have src: "(\<forall>r. uvw_canonicalSourceId (G r) = uvw_canonicalSourceId r) \<or> Q" for Q using G by simp
  obtain V where V: "setVersionRow e (uvw_id (jss_version j)) G ?db = (?db\<lparr>udb_versions := V\<rparr>, Inr ())"
    "satisfies uploadVersionConstraints V"
    "\<And>k. row_at versionIds V k =
       map_option (\<lambda>r. if uvw_id r = uvw_id (jss_version j) then G r else r) (row_at versionIds (udb_versions ?db) k)"
    by (rule set_version_ok [OF assms(1) ok v g src]) (rule that, assumption+)
  show ?thesis by (rule that [of S V]) (use S V in simp_all)
qed

lemma content_taken_validations [simp]:
  "content_taken sid source (db\<lparr>udb_validations := x\<rparr>) = content_taken sid source db"
  by (simp add: content_taken_def upload_db_ok_def joinSession_def firstDispatch_def)

lemma content_taken_after:
  assumes "content_taken sid source db" "joinSession sid db = Some j"
    and "satisfies sessionConstraints S" "satisfies uploadVersionConstraints V"
    and "\<And>k. row_at sessionIds S k =
       map_option (\<lambda>r. if sew_id r = sew_id (jss_session j) then F r else r) (row_at sessionIds (udb_sessions db) k)"
    and "\<And>k. row_at versionIds V k =
       map_option (\<lambda>r. if uvw_id r = uvw_id (jss_version j) then G r else r) (row_at versionIds (udb_versions db) k)"
    and F: "\<And>r. sew_id (F r) = sew_id r \<and> sew_assetVersionId (F r) = sew_assetVersionId r"
    and G: "\<And>r. uvw_id (G r) = uvw_id r \<and> uvw_assetId (G r) = uvw_assetId r \<and>
      uvw_versionNumber (G r) = uvw_versionNumber r \<and> uvw_canonicalSourceId (G r) = uvw_canonicalSourceId r"
  shows "content_taken sid source (db\<lparr>udb_sessions := S, udb_versions := V\<rparr>) \<and>
    joinSession sid (db\<lparr>udb_sessions := S, udb_versions := V\<rparr>) =
      Some (j\<lparr>jss_session := F (jss_session j), jss_version := G (jss_version j)\<rparr>)"
proof -
  let ?F = "\<lambda>r. if sew_id r = sew_id (jss_session j) then F r else r"
  let ?G = "\<lambda>r. if uvw_id r = uvw_id (jss_version j) then G r else r"
  have f: "sew_assetVersionId (?F r) = sew_assetVersionId r" for r using F by simp
  have g: "uvw_assetId (?G r) = uvw_assetId r \<and> uvw_id (?G r) = uvw_id r" for r using G by simp
  have g': "uvw_assetId (?G r) = uvw_assetId r \<and> uvw_id (?G r) = uvw_id r \<and>
      uvw_canonicalSourceId (?G r) = uvw_canonicalSourceId r" for r using G by simp
  have "content_taken sid source (db\<lparr>udb_sessions := S, udb_versions := V\<rparr>)"
    by (rule content_taken_updated [OF assms(1,3-6) f g'])
  moreover have "joinSession sid (db\<lparr>udb_sessions := S, udb_versions := V\<rparr>) =
      Some (j\<lparr>jss_session := F (jss_session j), jss_version := G (jss_version j)\<rparr>)"
    using join_updated [OF assms(5,6) f g, of sid] assms(2) by simp
  ultimately show ?thesis by blast
qed

abbreviation (input) "admitted_session now input \<equiv> \<lambda>r. r\<lparr>sew_completedAt := Some now,
  sew_lastActivityAt := Some now, sew_stagedObjectKey := Some (so_objectKey (co_stagedObject input)),
  sew_state := srs_uploaded\<rparr>"

abbreviation (input) "admitted_version input \<equiv> \<lambda>r. r\<lparr>
  uvw_ingestObjectKey := Some (so_objectKey (co_stagedObject input)),
  uvw_lifecycleState := row_canonicalizing\<rparr>"

lemma admit_effect:
  assumes "upload_laws e" "upload_db_ok db" "joinSession sid db = Some j"
  obtains S V where
    "writePhaseOne e now input (DecideAdmit (sew_id (jss_session j)) (uvw_id (jss_version j)) request) db =
       (db\<lparr>udb_sessions := S, udb_versions := V\<rparr>, Inr (PhaseRequest request))"
    "satisfies sessionConstraints S" "satisfies uploadVersionConstraints V"
    "\<And>k. row_at sessionIds S k = map_option
       (\<lambda>r. if sew_id r = sew_id (jss_session j) then admitted_session now input r else r)
       (row_at sessionIds (udb_sessions db) k)"
    "\<And>k. row_at versionIds V k = map_option
       (\<lambda>r. if uvw_id r = uvw_id (jss_version j) then admitted_version input r else r)
       (row_at versionIds (udb_versions db) k)"
proof -
  let ?F = "admitted_session now input" and ?G = "admitted_version input"
  have F: "sew_id (?F r) = sew_id r \<and> sew_assetVersionId (?F r) = sew_assetVersionId r" for r by simp
  have G: "uvw_id (?G r) = uvw_id r \<and> uvw_assetId (?G r) = uvw_assetId r \<and>
    uvw_versionNumber (?G r) = uvw_versionNumber r \<and> uvw_canonicalSourceId (?G r) = uvw_canonicalSourceId r"
    for r by simp
  show ?thesis
    by (rule set_both [OF assms F G], rule that) (simp add: writePhaseOne_def, assumption+)
qed

abbreviation (input) "invalid_session problem \<equiv>
  \<lambda>r. r\<lparr>sew_state := srs_failed_validation, sew_terminalReason := Some (problem_name problem)\<rparr>"

abbreviation (input) "invalid_version \<equiv>
  \<lambda>r. r\<lparr>uvw_lifecycleState := row_failed_validation, uvw_validationState := Some vst_failed\<rparr>"

lemma invalid_effect:
  assumes "upload_laws e" "upload_db_ok db" "joinSession sid db = Some j"
  obtains S V rows where
    "writePhaseOne e now input
       (DecideInvalid (sew_id (jss_session j)) (uvw_id (jss_version j)) problem detail) db =
       (db\<lparr>udb_sessions := S, udb_versions := V, udb_validations := rows\<rparr>,
        Inr (PhaseInvalid (RegistryValidationFailed (sew_id (jss_session j)) problem detail)))"
    "satisfies sessionConstraints S" "satisfies uploadVersionConstraints V"
    "\<And>k. row_at sessionIds S k = map_option
       (\<lambda>r. if sew_id r = sew_id (jss_session j) then invalid_session problem r else r)
       (row_at sessionIds (udb_sessions db) k)"
    "\<And>k. row_at versionIds V k = map_option
       (\<lambda>r. if uvw_id r = uvw_id (jss_version j) then invalid_version r else r)
       (row_at versionIds (udb_versions db) k)"
proof -
  let ?F = "invalid_session problem" and ?G = "invalid_version"
  have F: "sew_id (?F r) = sew_id r \<and> sew_assetVersionId (?F r) = sew_assetVersionId r" for r by simp
  have G: "uvw_id (?G r) = uvw_id r \<and> uvw_assetId (?G r) = uvw_assetId r \<and>
    uvw_versionNumber (?G r) = uvw_versionNumber r \<and> uvw_canonicalSourceId (?G r) = uvw_canonicalSourceId r"
    for r by simp
  obtain rows where rows: "to_create (ung_validations e)
      \<lparr>vlw_assetVersionId = uvw_id (jss_version j), vlw_problemType = problem_name problem,
       vlw_detail = detail, vlw_validationState = vst_failed\<rparr> (udb_validations db) = Inr rows"
    using create_unconstrained upload_tables(12) [OF assms(1,2)] by metis
  show ?thesis
    by (rule set_both [OF assms F G], rule that [where rows = rows])
      (simp add: writePhaseOne_def recordValidationFailure_def writeUpload_def rows, assumption+)
qed

text \<open>The first transaction of an attempt: it is refused, or the session waits for the canonicalizer.\<close>

lemma taken_phase_one:
  assumes "transactional tx" "upload_laws e" "content_taken sid source db" "co_uploadSessionId input = sid"
    and "beginDurableComplete tx e now input db = (db', step)"
  shows "content_taken sid source db' \<and>
    ((\<exists>x. step = DurableFinished (Inl x)) \<or>
     (\<exists>request j. step = DurableAwait request \<and> joinSession sid db' = Some j \<and>
        cr_versionId request = uvw_id (jss_version j) \<and> uvw_lifecycleState (jss_version j) = row_canonicalizing \<and>
        tryBuildCompletionReplay j = None))"
proof -
  obtain j where j: "joinSession sid db = Some j" "uvw_canonicalSourceId (jss_version j) = None"
    and ok: "upload_db_ok db" using assms(3) by (auto simp: content_taken_def)
  have key: "findUploadKey (co_callerScopeKey input) (buildCompletionOperationKey (co_uploadSessionId input))
      (co_idempotencyKey input) db = None"
    using assms(3,4) by (auto simp: content_taken_def findUploadKey_def row_at_None uploadKeys_def)
  then have step: "(db', step) = afterPhaseOne (tx (phaseOneBody e now input) db)"
    using assms(5) by (simp add: beginDurableComplete_def)
  have aborted: ?thesis if "phaseOneBody e now input db = (db1, Inl x)" for db1 x
    using step tx_aborted [where body = "phaseOneBody e now input" and db = db, OF assms(1) that] assms(3)
    by (simp add: afterPhaseOne_def)
  note replay = no_source_no_replay [OF j(2)]
  show ?thesis
  proof (cases "readPhaseOne now input db")
    case (DecideRefuse x)
    then show ?thesis by (intro aborted [of db x]) (simp add: phaseOneBody_def writePhaseOne_def)
  next
    case (DecideExpire s)
    then have "\<exists>db1 x. phaseOneBody e now input db = (db1, Inl x)"
      by (auto simp: phaseOneBody_def writePhaseOne_def and_then_def split: prod.splits sum.splits)
    then show ?thesis using aborted by blast
  next
    case (DecideReplay r)
    then show ?thesis using j(1) replay assms(4)
      by (simp add: readPhaseOne_def validateStaged_def Let_def split: if_splits)
  next
    case (DecideInvalid s v problem detail)
    then have sv: "s = sew_id (jss_session j)" "v = uvw_id (jss_version j)"
      using j(1) replay assms(4) by (simp_all add: readPhaseOne_def validateStaged_def Let_def split: if_splits)
    obtain S V rows where w: "writePhaseOne e now input
        (DecideInvalid (sew_id (jss_session j)) (uvw_id (jss_version j)) problem detail) db =
        (db\<lparr>udb_sessions := S, udb_versions := V, udb_validations := rows\<rparr>,
         Inr (PhaseInvalid (RegistryValidationFailed (sew_id (jss_session j)) problem detail)))"
      and t: "content_taken sid source (db\<lparr>udb_sessions := S, udb_versions := V\<rparr>)"
      by (rule invalid_effect [OF assms(2) ok j(1)], rule that, assumption,
          rule conjunct1 [OF content_taken_after [OF assms(3) j(1)]], assumption+) simp_all
    have "phaseOneBody e now input db = (db\<lparr>udb_sessions := S, udb_versions := V, udb_validations := rows\<rparr>,
         Inr (PhaseInvalid (RegistryValidationFailed (sew_id (jss_session j)) problem detail)))"
      using w by (simp add: phaseOneBody_def DecideInvalid sv)
    from tx_committed [where body = "phaseOneBody e now input", OF assms(1) this]
    show ?thesis using step t by (simp add: afterPhaseOne_def)
  next
    case (DecideAdmit s v request)
    then have sv: "s = sew_id (jss_session j)" "v = uvw_id (jss_version j)" "cr_versionId request = v"
      using j(1) replay assms(4)
      by (simp_all add: readPhaseOne_def validateStaged_def Let_def durableRequest_def split: if_splits)
         (auto simp: durableRequest_def)
    obtain S V where w: "writePhaseOne e now input
        (DecideAdmit (sew_id (jss_session j)) (uvw_id (jss_version j)) request) db =
        (db\<lparr>udb_sessions := S, udb_versions := V\<rparr>, Inr (PhaseRequest request))"
      and t: "content_taken sid source (db\<lparr>udb_sessions := S, udb_versions := V\<rparr>) \<and>
        joinSession sid (db\<lparr>udb_sessions := S, udb_versions := V\<rparr>) =
          Some (j\<lparr>jss_session := admitted_session now input (jss_session j),
                  jss_version := admitted_version input (jss_version j)\<rparr>)"
      by (rule admit_effect [OF assms(2) ok j(1)], rule that, assumption,
          rule content_taken_after [OF assms(3) j(1)], assumption+) simp_all
    have "phaseOneBody e now input db = (db\<lparr>udb_sessions := S, udb_versions := V\<rparr>, Inr (PhaseRequest request))"
      using w by (simp add: phaseOneBody_def DecideAdmit sv)
    from tx_committed [where body = "phaseOneBody e now input", OF assms(1) this]
    have "db' = db\<lparr>udb_sessions := S, udb_versions := V\<rparr>" "step = DurableAwait request"
      using step by (simp_all add: afterPhaseOne_def)
    then show ?thesis using t sv no_source_no_replay j(2) by auto
  qed
qed

lemma taken_attempt:
  assumes "transactional tx1" "transactional tx2" "upload_laws e" "content_taken sid source db"
    and "co_uploadSessionId input = sid"
    and "\<And>request s. canonicalize request = Inr s \<Longrightarrow> sn_canonicalSourceId s = source"
    and "durableComplete tx1 tx2 e now input canonicalize db = (db', r)"
  shows "content_taken sid source db' \<and> (\<exists>x. r = Inl x)"
proof -
  obtain db1 step where b: "beginDurableComplete tx1 e now input db = (db1, step)"
    by (cases "beginDurableComplete tx1 e now input db")
  note one = taken_phase_one [OF assms(1,3,4,5) b]
  show ?thesis
  proof (cases step)
    case (DurableFinished res)
    then show ?thesis using one assms(7) b by (auto simp: durableComplete_def)
  next
    case (DurableAwait request)
    then obtain j where t: "content_taken sid source db1" and j: "joinSession sid db1 = Some j"
      "cr_versionId request = uvw_id (jss_version j)" "uvw_lifecycleState (jss_version j) = row_canonicalizing"
      "tryBuildCompletionReplay j = None" using one by auto
    then obtain other where o: "upload_db_ok db1" "other \<in> set (udb_versions db1)"
      "uvw_id other \<noteq> uvw_id (jss_version j)" "uvw_canonicalSourceId other = Some source"
      by (auto simp: content_taken_def)
    have fin: "finishDurableComplete tx2 e now input request (canonicalize request) db1 = (db', r)"
      using assms(7) b DurableAwait by (simp add: durableComplete_def)
    let ?G = "\<lambda>r. r\<lparr>uvw_lifecycleState := row_failed_retryable\<rparr>"
    have "\<exists>V x. db' = db1\<lparr>udb_versions := V\<rparr> \<and> r = Inl x \<and> satisfies uploadVersionConstraints V \<and>
        (\<forall>k. row_at versionIds V k = map_option
          (\<lambda>r. if uvw_id r = uvw_id (jss_version j) then ?G r else r) (row_at versionIds (udb_versions db1) k))"
    proof (cases "canonicalize request")
      case (Inl cause)
      obtain V where V: "failCompletion e input request (Inl cause) db1 = (db1\<lparr>udb_versions := V\<rparr>,
          Inl (RegistryCanonicalizationFailed (co_uploadSessionId input) (Inl cause))
            :: durable_upload_error + durable_completed flagged)"
        "satisfies uploadVersionConstraints V"
        "\<And>k. row_at versionIds V k = map_option
          (\<lambda>r. if uvw_id r = uvw_id (jss_version j) then ?G r else r) (row_at versionIds (udb_versions db1) k)"
        by (rule fail_completion [OF assms(3) o(1) joined_rows(3) [OF j(1)] j(2)]) (rule that, assumption+)
      have "finishDurableComplete tx2 e now input request (Inl cause) db1 = failCompletion e input request (Inl cause) db1"
        by (simp add: finishDurableComplete_def)
      then have "db' = db1\<lparr>udb_versions := V\<rparr>"
        "r = Inl (RegistryCanonicalizationFailed (co_uploadSessionId input) (Inl cause))"
        using fin V(1) by (simp_all add: Inl)
      then show ?thesis using V(2,3) by blast
    next
      case (Inr s)
      have "joinSession (co_uploadSessionId input) db1 = Some j" using j(1) assms(5) by simp
      moreover have "uvw_canonicalSourceId other = Some (sn_canonicalSourceId s)"
        using o(4) assms(6) [OF Inr] by simp
      ultimately show ?thesis
        using shared_content_refused [OF assms(2,3) o(1) _ j(4,3,2) o(2,3), of input s now] fin Inr by auto
    qed
    then obtain V where V: "db' = db1\<lparr>udb_versions := V\<rparr>" "\<exists>x. r = Inl x" "satisfies uploadVersionConstraints V"
      "\<And>k. row_at versionIds V k = map_option
        (\<lambda>r. if uvw_id r = uvw_id (jss_version j) then ?G r else r) (row_at versionIds (udb_versions db1) k)"
      by blast
    have "content_taken sid source (db1\<lparr>udb_sessions := udb_sessions db1, udb_versions := V\<rparr>)"
    proof (rule content_taken_updated [OF t _ V(3)])
      show "satisfies sessionConstraints (udb_sessions db1)" using o(1) by (simp add: upload_db_ok_def)
      show "row_at sessionIds (udb_sessions db1) k = map_option (\<lambda>r. r) (row_at sessionIds (udb_sessions db1) k)" for k
        by (simp add: option.map_ident)
    qed (rule V(4), simp_all)
    then show ?thesis using V(1,2) by simp
  qed
qed

text \<open>An attempt: a whole completion of the session, by anyone and at any time, whose canonicalizer
  throws or answers with the content.\<close>

definition attempt ::
  "phase_one upload_tx \<Rightarrow> durable_completed flagged upload_tx \<Rightarrow> upload_engine \<Rightarrow> string \<Rightarrow> string
     \<Rightarrow> upload_db \<Rightarrow> upload_db \<times> (durable_upload_error + durable_completed flagged) \<Rightarrow> bool" where
  "attempt tx1 tx2 e sid source db res \<longleftrightarrow>
     (\<exists>now input canonicalize. co_uploadSessionId input = sid \<and>
        (\<forall>request s. canonicalize request = Inr s \<longrightarrow> sn_canonicalSourceId s = source) \<and>
        durableComplete tx1 tx2 e now input canonicalize db = res)"

text \<open>C18. Content that another version already holds can never be completed. The column of the canonical
  source is unique over all versions. Once a version holds a source, a session for the same content
  (whose repository names it by the same source) is refused by every attempt, however often and by
  whomever it is made, and its version never gets a canonical source.\<close>

theorem shared_content_never_completes:
  assumes "transactional tx1" "transactional tx2" "upload_laws e" "content_taken sid source db"
    and "(\<lambda>a b. \<exists>r. attempt tx1 tx2 e sid source a (b, r))\<^sup>*\<^sup>* db db'"
    and "attempt tx1 tx2 e sid source db' (db'', r)"
  shows "(\<exists>x. r = Inl x) \<and> content_taken sid source db''"
proof -
  have step: "content_taken sid source b \<and> (\<exists>x. res = Inl x)"
    if "content_taken sid source a" "attempt tx1 tx2 e sid source a (b, res)" for a b res
    using that taken_attempt [OF assms(1-3)] unfolding attempt_def by metis
  have "content_taken sid source db'"
    using assms(5,4) by (induction rule: rtranclp_induct) (use step in blast)+
  then show ?thesis using step assms(6) by blast
qed

section \<open>A tenant nobody registered\<close>

lemma issue_committed:
  assumes "transactional tx" "durableIssue tx e input now uuid db = (db', Inr answer)" "issue_key input db = None"
  shows "issueBody e input now uuid db = (db', Inr answer)"
proof -
  obtain db1 res where tx: "tx (issueBody e input now uuid) db = (db1, res)"
    by (cases "tx (issueBody e input now uuid) db")
  show ?thesis
    by (rule tx_cases [OF assms(1) tx])
      (use assms(2,3) in \<open>auto simp: durableIssue_def issueTransaction_def tx split: if_splits\<close>)
qed

text \<open>C21. An upload for a tenant that is not registered becomes an upload without a tenant. The lookup of
  the tenant answers nothing, which the store reads as no tenant: a new asset is created outside every
  tenant, its session says so, and an actor who may act in the namespace passes the scope check on it
  whatever tenants the actor is limited to.\<close>

theorem unknown_tenant_is_dropped:
  assumes "transactional tx" "upload_laws e" "upload_db_ok db"
    and "durableIssue tx e input now uuid db = (db', Inr (answer, dup))"
    and "ii_assetId input = None" "ii_tenantId input = Some tenant" "tenant \<noteq> []"
    and "\<forall>n \<in> set (udb_namespaces db). \<forall>t \<in> set (udb_tenants db).
      nsw_serviceNamespaceId n = ii_serviceNamespaceId input \<longrightarrow>
        tnw_serviceNamespaceId t \<noteq> nsw_id n \<or> tnw_externalTenantId t \<noteq> tenant"
    and "issue_key input db = None"
  shows "is_tenantId answer = None \<and>
    (\<exists>asset \<in> set (udb_assets db'). asw_id asset = is_assetId answer \<and> asw_tenantScopeId asset = None) \<and>
    (\<forall>actor. ii_serviceNamespaceId input \<in> set (act_allowedServiceNamespaces actor)
       \<longrightarrow> scope_allows actor (Some (ii_serviceNamespaceId input)) (is_tenantId answer))"
proof -
  have body: "issueBody e input now uuid db = (db', Inr (answer, dup))"
    by (rule issue_committed [OF assms(1,4,9)])
  obtain namespace where n: "row_at (\<lambda>r. Some [nsw_serviceNamespaceId r]) (udb_namespaces db)
      [ii_serviceNamespaceId input] = Some namespace"
    using body by (auto simp: issueBody_def split: option.splits)
  then have "namespace \<in> set (udb_namespaces db)"
    "nsw_serviceNamespaceId namespace = ii_serviceNamespaceId input"
    by (auto simp: row_at_def find_Some_iff)
  then have t: "resolveTenant namespace (ii_tenantId input) db = None"
    using assms(6-8) by (fastforce simp: resolveTenant_def row_at_None)
  let ?asset = "newAssetRow e input namespace None uuid db"
  obtain db1 where a: "onAssetRows (to_create (ung_assets e) ?asset) db = (db1, Inr ())"
    and rest: "is_tenantId answer = None" "is_assetId answer = asw_id ?asset" "udb_assets db' = udb_assets db1"
    using body assms(5) n t
    by (auto simp: issueBody_def Let_def resolveAssetRow_def and_then_ok_iff issuedFrom_def writeUpload_def
        split: sum.splits)
  have "?asset \<in> set (udb_assets db1)"
    using a create_result(2) [OF upload_tables(1,2) [OF assms(2,3)]]
    by (auto simp: writeUpload_def split: sum.splits)
  then have "\<exists>asset \<in> set (udb_assets db'). asw_id asset = is_assetId answer \<and> asw_tenantScopeId asset = None"
    using rest by (auto simp: newAssetRow_def intro!: bexI [of _ ?asset])
  then show ?thesis using rest(1) by (simp add: scope_allows_def)
qed

section \<open>The second transaction\<close>

abbreviation (input) assetIds :: "asset_row row_constraint" where
  "assetIds \<equiv> \<lambda>r. Some [asw_id r]"

lemma join_rows:
  assumes "udb_sessions db' = udb_sessions db" "udb_namespaces db' = udb_namespaces db"
    "udb_tenants db' = udb_tenants db"
    and "\<And>k. row_at versionIds (udb_versions db') k = map_option G (row_at versionIds (udb_versions db) k)"
    and "\<And>k. row_at assetIds (udb_assets db') k = map_option H (row_at assetIds (udb_assets db) k)"
    and "\<And>r. uvw_assetId (G r) = uvw_assetId r \<and> uvw_id (G r) = uvw_id r"
    and "\<And>r. asw_serviceNamespaceId (H r) = asw_serviceNamespaceId r \<and> asw_tenantScopeId (H r) = asw_tenantScopeId r"
  shows "joinSession sid db' =
    map_option (\<lambda>j. j\<lparr>jss_version := G (jss_version j), jss_asset := H (jss_asset j),
        jss_dispatch := firstDispatch (uvw_id (jss_version j)) db'\<rparr>) (joinSession sid db)"
proof -
  have v: "List.find (\<lambda>r. uvw_id r = x) rows = row_at versionIds rows [x]" for x rows
    by (simp add: row_at_def versionIds_def)
  show ?thesis unfolding joinSession_def v find_row_at [of asw_id] assms(1-3)
    by (cases "List.find (\<lambda>r. sew_id r = sid) (udb_sessions db)")
      (auto simp: assms(4-7) bind_eq_None_conv split: bind_splits)
qed

definition completedFrom ::
  "joined_session \<Rightarrow> snapshot_result \<Rightarrow> dispatch_row \<Rightarrow> durable_completed" where
  "completedFrom j snapshot dispatch =
     \<lparr>cs_assetId = asw_id (jss_asset j), cs_canonicalSource = snapshot,
      cs_uploadSessionId = sew_id (jss_session j), cs_versionId = uvw_id (jss_version j),
      cs_versionState = ver_canonical, cs_workflowDispatch = dispatchSummary dispatch,
      dc_storedMetrics = None\<rparr>"

definition completionWorkflowKey :: "complete_input \<Rightarrow> joined_session \<Rightarrow> string" where
  "completionWorkflowKey input j =
     buildWorkflowKey (nsw_serviceNamespaceId (jss_namespace j)) (asw_id (jss_asset j))
       (uvw_id (jss_version j)) (nullish (co_workflowTemplate input) ''asset-derivation-v1'')"

lemma write_ok: "writeUpload get put f db = (db', Inr u) \<longleftrightarrow> (\<exists>rows. f (get db) = Inr rows \<and> db' = put rows db)"
  by (auto simp: writeUpload_def split: sum.splits)

lemma update_by_key:
  assumes laws: "table_laws cs ops" "satisfies cs rows" and c: "c \<in> set cs" "\<And>r. c (f r) = c r"
    and res: "to_update ops w f rows = Inr rows'"
  shows "row_at c rows' k = map_option (\<lambda>r. if w r then f r else r) (row_at c rows k)"
proof -
  note up = update_result [OF laws res]
  have keep: "c (if w r then f r else r) = c r" for r using c(2) by simp
  show ?thesis
  proof (cases "row_at c rows k")
    case None
    then have "\<forall>r\<in>set rows'. c r \<noteq> Some k" using c(2) up(2) by (auto simp: row_at_None)
    then show ?thesis using None row_at_None by force
  next
    case (Some r)
    then have "r \<in> set rows" "c r = Some k" using row_at_Some [OF laws(2) c(1)] by blast+
    then have "(if w r then f r else r) \<in> set rows'" "c (if w r then f r else r) = Some k"
      using up(2) keep [of r] by (auto split: if_splits)
    then show ?thesis using Some row_at_Some [OF up(1) c(1)] by auto
  qed
qed

lemma dispatch_found:
  assumes "upload_laws e" "upload_db_ok db"
    and "findOrCreateDispatch e versionId workflowKey template db = (db', Inr dispatch)"
  shows "upload_db_ok db' \<and> dispatch \<in> set (udb_dispatches db') \<and> d_workflowKey dispatch = workflowKey \<and>
    (\<exists>rows. db' = db\<lparr>udb_dispatches := rows\<rparr>) \<and>
    set (udb_dispatches db') = insert dispatch (set (udb_dispatches db)) \<and>
    (dispatch \<in> set (udb_dispatches db) \<or>
     d_assetVersionId dispatch = versionId \<and> d_dispatchState dispatch = disp_pending)"
proof -
  note t = upload_tables [OF assms(1,2)]
  show ?thesis
  proof (cases "row_at (\<lambda>r. Some [d_workflowKey r]) (udb_dispatches db) [workflowKey]")
    case None
    let ?row = "newDispatchRow e versionId workflowKey template db"
    have "and_then (onDispatchRows (to_create (ung_dispatches e) ?row) db) (\<lambda>db _. ok db ?row) = (db', Inr dispatch)"
      using assms(3) None unfolding findOrCreateDispatch_def by (simp add: Let_def)
    then obtain rows where "to_create (ung_dispatches e) dispatch (udb_dispatches db) = Inr rows"
      "dispatch = ?row" "db' = db\<lparr>udb_dispatches := rows\<rparr>"
      unfolding and_then_ok_iff write_ok by force
    moreover from this(1) have "satisfies dispatchConstraints rows"
      "set rows = insert dispatch (set (udb_dispatches db))"
      using create_result [OF t(9,10)] by blast+
    ultimately show ?thesis using assms(2)
      by (auto simp: upload_db_ok_def newDispatchRow_def Let_def)
  next
    case (Some d)
    have "(\<lambda>r. Some [d_workflowKey r]) \<in> set dispatchConstraints" by (simp add: dispatchConstraints_def)
    from row_at_Some [OF t(10) this] Some
    have "d \<in> set (udb_dispatches db)" "d_workflowKey d = workflowKey" by simp_all
    moreover have "db' = db" "dispatch = d" using Some assms(3) by (simp_all add: findOrCreateDispatch_def)
    moreover have "\<exists>rows. db = db\<lparr>udb_dispatches := rows\<rparr>" by (intro exI [of _ "udb_dispatches db"]) simp
    ultimately show ?thesis using assms(2) insert_absorb by metis
  qed
qed

lemma persist_key:
  assumes "upload_laws e" "upload_db_ok db"
    and "persistCompletionIdempotencyRecord e input now replay db = (db', Inr u)"
  obtains K where "db' = db\<lparr>udb_keys := K\<rparr>" "satisfies [uploadKeys] K"
    "\<exists>r. row_at uploadKeys K [''public'', co_callerScopeKey input,
        buildCompletionOperationKey (cs_uploadSessionId replay), co_idempotencyKey input] = Some r \<and>
      ukw_normalizedRequestHash r = Some (co_normalizedRequestHash input) \<and>
      ukw_responseReference r = Some (completionReference replay)"
proof -
  note t = upload_tables [OF assms(1,2)]
  let ?row = "completionKeyRow input now replay"
  let ?k = "[''public'', co_callerScopeKey input, buildCompletionOperationKey (cs_uploadSessionId replay),
    co_idempotencyKey input]"
  let ?f = "\<lambda>r. r\<lparr>ukw_completedAt := Some now, ukw_isTerminal := True,
    ukw_normalizedOperationKey := ukw_normalizedOperationKey ?row,
    ukw_normalizedRequestHash := ukw_normalizedRequestHash ?row,
    ukw_responseReference := ukw_responseReference ?row\<rparr>"
  have key: "uploadKeys ?row = Some ?k" by (simp add: uploadKeys_def completionKeyRow_def Let_def)
  obtain K where K: "to_upsert (ung_keys e) (\<lambda>r. uploadKeys r = Some ?k) ?f ?row (udb_keys db) = Inr K"
    "db' = db\<lparr>udb_keys := K\<rparr>"
    using assms(3) unfolding persistCompletionIdempotencyRecord_def Let_def write_ok key by blast
  have keep: "uploadKeys (?f r) = uploadKeys r" for r by (simp add: uploadKeys_def)
  have c: "uploadKeys \<in> set [uploadKeys]" by simp
  have sat: "satisfies [uploadKeys] K"
    by (rule upsert_keyed(1) [OF t(7,8) c key _ K(1)]) (simp only: keep)
  have "row_at uploadKeys K = (row_at uploadKeys (udb_keys db))(?k \<mapsto>
      (case row_at uploadKeys (udb_keys db) ?k of Some r \<Rightarrow> ?f r | None \<Rightarrow> ?row))"
    by (rule upsert_keyed(2) [OF t(7,8) c key _ K(1)]) (simp only: keep)
  then have "row_at uploadKeys K ?k =
      Some (case row_at uploadKeys (udb_keys db) ?k of Some r \<Rightarrow> ?f r | None \<Rightarrow> ?row)" by simp
  moreover have "ukw_normalizedRequestHash ?row = Some (co_normalizedRequestHash input)"
    "ukw_responseReference ?row = Some (completionReference replay)"
    by (simp_all add: completionKeyRow_def Let_def)
  ultimately show ?thesis using that [OF K(2) sat] by (simp split: option.splits)
qed

text \<open>What a committed second transaction writes.\<close>

lemma phase_two_effect:
  assumes "upload_laws e" "upload_db_ok db" "joinSession (co_uploadSessionId input) db = Some j"
    and "tryBuildCompletionReplay j = None"
    and "phaseTwoBody e now input snapshot db = (db', Inr (completed, dup))"
  obtains V A D U K dispatch where
    "db' = db\<lparr>udb_versions := V, udb_assets := A, udb_dispatches := D, udb_audits := U, udb_keys := K\<rparr>"
    "upload_db_ok db'" "completed = completedFrom j snapshot dispatch" "\<not> dup"
    "\<And>k. row_at versionIds V k = map_option (\<lambda>r. if uvw_id r = uvw_id (jss_version j)
        then canonicalColumns snapshot r else r) (row_at versionIds (udb_versions db) k)"
    "\<And>k. row_at assetIds A k = map_option (\<lambda>r. if asw_id r = asw_id (jss_asset j)
        then r\<lparr>asw_currentCanonicalVersionId := Some (uvw_id (jss_version j))\<rparr> else r)
      (row_at assetIds (udb_assets db) k)"
    "dispatch \<in> set D" "d_workflowKey dispatch = completionWorkflowKey input j"
    "set D = insert dispatch (set (udb_dispatches db))"
    "dispatch \<in> set (udb_dispatches db) \<or>
     d_assetVersionId dispatch = uvw_id (jss_version j) \<and> d_dispatchState dispatch = disp_pending"
    "canonicalizedAudit input snapshot (asw_id (jss_asset j)) (uvw_id (jss_version j))
       (d_dispatchId dispatch) \<in> set U"
    "\<exists>r. row_at uploadKeys K [''public'', co_callerScopeKey input,
        buildCompletionOperationKey (sew_id (jss_session j)), co_idempotencyKey input] = Some r \<and>
      ukw_normalizedRequestHash r = Some (co_normalizedRequestHash input) \<and>
      ukw_responseReference r = Some (completionReference completed)"
proof -
  note t = upload_tables [OF assms(1,2)]
  let ?v = "jss_version j" and ?a = "jss_asset j"
  let ?template = "nullish (co_workflowTemplate input) ''asset-derivation-v1''"
  have state: "uvw_lifecycleState ?v = row_canonicalizing"
    using assms(3-5) by (auto simp: phaseTwoBody_def Let_def split: if_splits)
  obtain db1 db2 db3 db4 dispatch where
    s1: "setVersionRow e (uvw_id ?v) (canonicalColumns snapshot) db = (db1, Inr ())" and
    s2: "onAssetRows (to_update (ung_assets e) (\<lambda>r. asw_id r = asw_id ?a)
       (\<lambda>r. r\<lparr>asw_currentCanonicalVersionId := Some (uvw_id ?v)\<rparr>)) db1 = (db2, Inr ())" and
    s3: "findOrCreateDispatch e (uvw_id ?v) (completionWorkflowKey input j) ?template db2 = (db3, Inr dispatch)" and
    s4: "onAuditRows (to_create (ung_audits e) (canonicalizedAudit input snapshot (asw_id ?a) (uvw_id ?v)
       (d_dispatchId dispatch))) db3 = (db4, Inr ())" and
    s5: "persistCompletionIdempotencyRecord e input now (completedFrom j snapshot dispatch) db4 = (db', Inr ())" and
    res: "completed = completedFrom j snapshot dispatch" "\<not> dup"
    using assms(5) state unfolding phaseTwoBody_def
    by (simp add: assms(3,4) Let_def completionWorkflowKey_def [symmetric] completedFrom_def [symmetric]
        and_then_ok_iff) blast
  obtain V where V: "to_update (ung_versions e) (\<lambda>r. uvw_id r = uvw_id ?v) (canonicalColumns snapshot)
      (udb_versions db) = Inr V" "db1 = db\<lparr>udb_versions := V\<rparr>"
    using s1 unfolding setVersionRow_def write_ok by blast
  note okV = update_result(1) [OF t(3,4) V(1)]
  have atV: "row_at versionIds V k = map_option (\<lambda>r. if uvw_id r = uvw_id ?v
      then canonicalColumns snapshot r else r) (row_at versionIds (udb_versions db) k)" for k
    by (rule update_by_key [OF t(3,4) _ _ V(1)])
      (simp_all add: uploadVersionConstraints_def versionIds_def canonicalColumns_def)
  obtain A where A: "to_update (ung_assets e) (\<lambda>r. asw_id r = asw_id ?a)
      (\<lambda>r. r\<lparr>asw_currentCanonicalVersionId := Some (uvw_id ?v)\<rparr>) (udb_assets db) = Inr A"
      "db2 = db1\<lparr>udb_assets := A\<rparr>"
    using s2 V(2) unfolding write_ok by auto
  note okA = update_result(1) [OF t(1,2) A(1)]
  have atA: "row_at assetIds A k = map_option (\<lambda>r. if asw_id r = asw_id ?a
      then r\<lparr>asw_currentCanonicalVersionId := Some (uvw_id ?v)\<rparr> else r)
      (row_at assetIds (udb_assets db) k)" for k
    by (rule update_by_key [OF t(1,2) _ _ A(1)]) (simp_all add: assetConstraints_def)
  have ok2: "upload_db_ok db2" using assms(2) okV okA by (simp add: upload_db_ok_def A(2) V(2))
  note disp = dispatch_found [OF assms(1) ok2 s3]
  obtain D where D: "db3 = db2\<lparr>udb_dispatches := D\<rparr>" using disp by blast
  obtain U where U: "to_create (ung_audits e) (canonicalizedAudit input snapshot (asw_id ?a) (uvw_id ?v)
       (d_dispatchId dispatch)) (udb_audits db3) = Inr U" "db4 = db3\<lparr>udb_audits := U\<rparr>"
    using s4 unfolding write_ok by blast
  have "satisfies [] (udb_audits db3)" by (simp add: satisfies_def)
  note inU = create_result(2) [OF t(11) this U(1)]
  have ok4: "upload_db_ok db4" using disp by (simp add: upload_db_ok_def U(2))
  obtain K where K: "db' = db4\<lparr>udb_keys := K\<rparr>" "satisfies [uploadKeys] K"
    "\<exists>r. row_at uploadKeys K [''public'', co_callerScopeKey input,
        buildCompletionOperationKey (cs_uploadSessionId (completedFrom j snapshot dispatch)),
        co_idempotencyKey input] = Some r \<and>
      ukw_normalizedRequestHash r = Some (co_normalizedRequestHash input) \<and>
      ukw_responseReference r = Some (completionReference (completedFrom j snapshot dispatch))"
    by (rule persist_key [OF assms(1) ok4 s5])
  have db': "db' = db\<lparr>udb_versions := V, udb_assets := A, udb_dispatches := D, udb_audits := U, udb_keys := K\<rparr>"
    by (simp add: K(1) U(2) D A(2) V(2))
  have ok': "upload_db_ok db'" using ok4 K(2) by (simp add: upload_db_ok_def K(1))
  have sid: "cs_uploadSessionId (completedFrom j snapshot dispatch) = sew_id (jss_session j)"
    by (simp add: completedFrom_def)
  have inD: "dispatch \<in> set D" "d_workflowKey dispatch = completionWorkflowKey input j"
    "set D = insert dispatch (set (udb_dispatches db))"
    "dispatch \<in> set (udb_dispatches db) \<or>
     d_assetVersionId dispatch = uvw_id ?v \<and> d_dispatchState dispatch = disp_pending"
    using disp by (simp_all add: D A(2) V(2))
  show ?thesis
    by (rule that [OF db' ok' res atV atA inD])
      (use inU K(3) in \<open>simp_all add: sid res(1)\<close>)
qed

lemma joined_row_at:
  assumes "upload_db_ok db" "joinSession sid db = Some j"
  shows "row_at versionIds (udb_versions db) [uvw_id (jss_version j)] = Some (jss_version j)"
    "row_at assetIds (udb_assets db) [asw_id (jss_asset j)] = Some (jss_asset j)"
    "row_at sessionIds (udb_sessions db) [sid] = Some (jss_session j)"
  using assms(1) joined_rows [OF assms(2)]
  by (auto simp: upload_db_ok_def uploadVersionConstraints_def assetConstraints_def sessionConstraints_def
      versionIds_def intro!: row_at_Some [THEN iffD2])

lemma row_updated:
  assumes "\<And>r. row_at c T k = Some r \<Longrightarrow> [i r] = k" "row_at c T [i x] = Some x"
  shows "map_option (\<lambda>r. if i r = i x then f r else r) (row_at c T k) =
    (if k = [i x] then Some (f x) else row_at c T k)"
proof (cases "k = [i x]")
  case True
  then show ?thesis using assms(2) by simp
next
  case False
  then have "i r \<noteq> i x" if "row_at c T k = Some r" for r using assms(1) [OF that] by blast
  then show ?thesis using False by (cases "row_at c T k") simp_all
qed

text \<open>A second transaction that answers with a new completion.\<close>

lemma completed_effect:
  assumes "transactional tx" "upload_db_ok db"
    and "finishDurableComplete tx e now input request (Inr snapshot) db = (db', Inr (completed, False))"
  obtains j where "joinSession (co_uploadSessionId input) db = Some j" "tryBuildCompletionReplay j = None"
    "phaseTwoBody e now input snapshot db = (db', Inr (completed, False))"
proof -
  obtain db1 res where tx: "tx (phaseTwoBody e now input snapshot) db = (db1, res)"
    by (cases "tx (phaseTwoBody e now input snapshot) db")
  have res: "db1 = db' \<and> res = Inr (completed, False)"
  proof (cases res)
    case (Inl x)
    have "finishDurableComplete tx e now input request (Inr snapshot) db = failCompletion e input request (Inr x) db1"
      by (simp add: finishDurableComplete_def tx Inl)
    then have "failCompletion e input request (Inr x) db1 = (db', Inr (completed, False))" using assms(3) by simp
    then show ?thesis unfolding failCompletion_def and_then_ok_iff by simp
  next
    case (Inr r)
    then show ?thesis using assms(3) by (simp add: finishDurableComplete_def tx)
  qed
  have body: "phaseTwoBody e now input snapshot db = (db', Inr (completed, False))"
    by (rule tx_cases [OF assms(1) tx]) (use res in auto)
  then obtain j where j: "joinSession (co_uploadSessionId input) db = Some j"
    by (auto simp: phaseTwoBody_def Let_def split: option.splits)
  have "tryBuildCompletionReplay j = None"
  proof (rule ccontr)
    assume "tryBuildCompletionReplay j \<noteq> None"
    then show False using body j
      by (auto simp: phaseTwoBody_def Let_def and_then_ok_iff)
  qed
  then show ?thesis using that j body by blast
qed

text \<open>C16. A completion that answers with a new completion has recorded what it answers. The snapshot of the
  answer is the one the source engine returned. The row of the version is what it was with all its
  canonical columns set from that snapshot (engine, source id, snapshot id, logical path, digests, both
  lengths, dedupe metrics, reconstruction handles, substrate hints), its validation passed and its state
  \<open>canonical\<close>, and every other version row is as before; the row of the asset only points to the
  version now, and every other asset row is as before; the dispatch of the answer is in the table under
  the workflow key of the namespace, asset, version and template, and no other dispatch was added; and an
  audit row names the version, the asset and the dispatch.\<close>

theorem durable_completion_recorded:
  assumes "transactional tx" "upload_laws e" "upload_db_ok db"
    and "finishDurableComplete tx e now input request (Inr snapshot) db = (db', Inr (completed, False))"
  shows "upload_db_ok db' \<and> cs_canonicalSource completed = snapshot \<and>
    (\<exists>v. row_at versionIds (udb_versions db) [cs_versionId completed] = Some v \<and>
       (\<forall>k. row_at versionIds (udb_versions db') k =
         (if k = [cs_versionId completed]
          then Some (v\<lparr>uvw_repositoryEngine := Some (sn_repositoryEngine snapshot),
            uvw_canonicalSourceId := Some (sn_canonicalSourceId snapshot),
            uvw_canonicalSnapshotId := Some (sn_snapshotId snapshot),
            uvw_canonicalLogicalPath := Some (sn_logicalPath snapshot),
            uvw_canonicalDigestSet := Some (sn_digests snapshot),
            uvw_canonicalLogicalByteLength := sn_logicalByteLength snapshot,
            uvw_canonicalStoredByteLength := sn_storedByteLength snapshot,
            uvw_dedupeMetrics := map_option storedMetrics (sn_dedupeMetrics snapshot),
            uvw_sourceReconstructionHandles := sn_reconstructionHandles snapshot,
            uvw_sourceSubstrateHints := sn_substrateHints snapshot,
            uvw_validationState := Some vst_passed,
            uvw_lifecycleState := row_canonical\<rparr>)
          else row_at versionIds (udb_versions db) k))) \<and>
    (\<exists>a. row_at assetIds (udb_assets db) [cs_assetId completed] = Some a \<and>
       (\<forall>k. row_at assetIds (udb_assets db') k =
         (if k = [cs_assetId completed]
          then Some (a\<lparr>asw_currentCanonicalVersionId := Some (cs_versionId completed)\<rparr>)
          else row_at assetIds (udb_assets db) k)) \<and>
       (\<exists>namespace \<in> set (udb_namespaces db). nsw_id namespace = asw_serviceNamespaceId a \<and>
         wd_workflowKey (cs_workflowDispatch completed) =
           buildWorkflowKey (nsw_serviceNamespaceId namespace) (cs_assetId completed)
             (cs_versionId completed)
             (nullish (co_workflowTemplate input) ''asset-derivation-v1''))) \<and>
    (\<exists>d. dispatchSummary d = cs_workflowDispatch completed \<and>
       set (udb_dispatches db') = insert d (set (udb_dispatches db)) \<and>
       (\<exists>audit \<in> set (udb_audits db'). aw_eventType audit = ''asset-version-canonicalized'' \<and>
         aw_assetVersionId audit = Some (cs_versionId completed) \<and>
         uaw_assetId audit = Some (cs_assetId completed) \<and>
         aw_workflowDispatchId audit = Some (d_dispatchId d) \<and>
         aw_correlationId audit = Some (co_idempotencyKey input)))"
proof -
  obtain j where j: "joinSession (co_uploadSessionId input) db = Some j" "tryBuildCompletionReplay j = None"
    and body: "phaseTwoBody e now input snapshot db = (db', Inr (completed, False))"
    by (rule completed_effect [OF assms(1,3,4)])
  note rows = joined_row_at [OF assms(3) j(1)]
  let ?v = "jss_version j" and ?a = "jss_asset j"
  have keyed: "row_at versionIds rows k = Some r \<Longrightarrow> [uvw_id r] = k"
    "row_at assetIds rows' k = Some r' \<Longrightarrow> [asw_id r'] = k" for rows rows' k r r'
    by (auto simp: row_at_def find_Some_iff versionIds_def)
  have namespace: "jss_namespace j \<in> set (udb_namespaces db)"
    "nsw_id (jss_namespace j) = asw_serviceNamespaceId ?a"
    using j(1) by (auto simp: joinSession_def bind_eq_Some_conv find_Some_iff)
  show ?thesis
  proof (rule phase_two_effect [OF assms(2,3) j body])
    fix V A D U K dispatch
    assume db': "db' = db\<lparr>udb_versions := V, udb_assets := A, udb_dispatches := D, udb_audits := U, udb_keys := K\<rparr>"
      and ok: "upload_db_ok db'" and c: "completed = completedFrom j snapshot dispatch"
      and V: "\<And>k. row_at versionIds V k = map_option (\<lambda>r. if uvw_id r = uvw_id ?v
        then canonicalColumns snapshot r else r) (row_at versionIds (udb_versions db) k)"
      and A: "\<And>k. row_at assetIds A k = map_option (\<lambda>r. if asw_id r = asw_id ?a
        then r\<lparr>asw_currentCanonicalVersionId := Some (uvw_id ?v)\<rparr> else r)
        (row_at assetIds (udb_assets db) k)"
      and D: "d_workflowKey dispatch = completionWorkflowKey input j"
        "set D = insert dispatch (set (udb_dispatches db))"
      and U: "canonicalizedAudit input snapshot (asw_id ?a) (uvw_id ?v) (d_dispatchId dispatch) \<in> set U"
    have ids: "cs_versionId completed = uvw_id ?v" "cs_assetId completed = asw_id ?a"
      "cs_canonicalSource completed = snapshot" "cs_workflowDispatch completed = dispatchSummary dispatch"
      by (simp_all add: c completedFrom_def)
    have v: "row_at versionIds V k = (if k = [uvw_id ?v] then Some (canonicalColumns snapshot ?v)
        else row_at versionIds (udb_versions db) k)" for k
      unfolding V by (rule row_updated [where i = uvw_id, OF keyed(1) rows(1)])
    have a: "row_at assetIds A k = (if k = [asw_id ?a]
        then Some (?a\<lparr>asw_currentCanonicalVersionId := Some (uvw_id ?v)\<rparr>)
        else row_at assetIds (udb_assets db) k)" for k
      unfolding A by (rule row_updated [where i = asw_id, OF keyed(2) rows(2)])
    have key: "wd_workflowKey (dispatchSummary dispatch) = completionWorkflowKey input j"
      by (simp add: dispatchSummary_def D(1))
    have columns: "udb_versions db' = V" "udb_assets db' = A" "udb_dispatches db' = D" "udb_audits db' = U"
      by (simp_all add: db')
    show ?thesis
      unfolding ids columns
    proof (intro conjI)
      show "\<exists>v'. row_at versionIds (udb_versions db) [uvw_id ?v] = Some v' \<and>
         (\<forall>k. row_at versionIds V k =
           (if k = [uvw_id ?v]
            then Some (v'\<lparr>uvw_repositoryEngine := Some (sn_repositoryEngine snapshot),
              uvw_canonicalSourceId := Some (sn_canonicalSourceId snapshot),
              uvw_canonicalSnapshotId := Some (sn_snapshotId snapshot),
              uvw_canonicalLogicalPath := Some (sn_logicalPath snapshot),
              uvw_canonicalDigestSet := Some (sn_digests snapshot),
              uvw_canonicalLogicalByteLength := sn_logicalByteLength snapshot,
              uvw_canonicalStoredByteLength := sn_storedByteLength snapshot,
              uvw_dedupeMetrics := map_option storedMetrics (sn_dedupeMetrics snapshot),
              uvw_sourceReconstructionHandles := sn_reconstructionHandles snapshot,
              uvw_sourceSubstrateHints := sn_substrateHints snapshot,
              uvw_validationState := Some vst_passed,
              uvw_lifecycleState := row_canonical\<rparr>)
            else row_at versionIds (udb_versions db) k))"
        by (intro exI [of _ ?v] conjI rows(1) allI) (simp add: v canonicalColumns_def)
      show "\<exists>a'. row_at assetIds (udb_assets db) [asw_id ?a] = Some a' \<and>
         (\<forall>k. row_at assetIds A k =
           (if k = [asw_id ?a] then Some (a'\<lparr>asw_currentCanonicalVersionId := Some (uvw_id ?v)\<rparr>)
            else row_at assetIds (udb_assets db) k)) \<and>
         (\<exists>namespace \<in> set (udb_namespaces db). nsw_id namespace = asw_serviceNamespaceId a' \<and>
           wd_workflowKey (dispatchSummary dispatch) =
             buildWorkflowKey (nsw_serviceNamespaceId namespace) (asw_id ?a) (uvw_id ?v)
               (nullish (co_workflowTemplate input) ''asset-derivation-v1''))"
        by (intro exI [of _ ?a] conjI rows(2) allI a bexI [OF _ namespace(1)] namespace(2))
          (simp add: key completionWorkflowKey_def)
      show "\<exists>d. dispatchSummary d = dispatchSummary dispatch \<and>
          set D = insert d (set (udb_dispatches db)) \<and>
          (\<exists>audit \<in> set U. aw_eventType audit = ''asset-version-canonicalized'' \<and>
            aw_assetVersionId audit = Some (uvw_id ?v) \<and> uaw_assetId audit = Some (asw_id ?a) \<and>
            aw_workflowDispatchId audit = Some (d_dispatchId d) \<and>
            aw_correlationId audit = Some (co_idempotencyKey input))"
        by (intro exI [of _ dispatch] conjI D(2) refl bexI [OF _ U]) (simp_all add: canonicalizedAudit_def)
    qed (rule ok refl)+
  qed
qed

text \<open>The answer as it is read back: the dedupe metrics are those of the JSON column.\<close>

definition readBack :: "snapshot_result \<Rightarrow> durable_completed \<Rightarrow> durable_completed" where
  "readBack s c = c\<lparr>cs_canonicalSource := s\<lparr>sn_dedupeMetrics := None\<rparr>,
     dc_storedMetrics := map_option storedMetrics (sn_dedupeMetrics s)\<rparr>"

text \<open>C17. A completion that is repeated at once is answered from what it recorded. Take a new completion
  with a session id, source id, snapshot id and logical path that are not empty, of a version that had no
  dispatch before, under a workflow key no dispatch had, and let the same caller send a request for the
  same session with the same key to the database as the completion left it. If the request is the same,
  the answer is flagged as a duplicate and is the first answer but for the dedupe metrics, which are read
  from a JSON column, where a length is a text; if it is another request, the answer is a conflict. In
  both cases the database stays as it is.\<close>

theorem durable_completion_replayed:
  assumes "transactional tx" "upload_laws e" "upload_db_ok db"
    and "finishDurableComplete tx e now input request (Inr snapshot) db = (db', Inr (completed, False))"
    and "co_uploadSessionId input \<noteq> []" "sn_canonicalSourceId snapshot \<noteq> []"
      "sn_snapshotId snapshot \<noteq> []" "sn_logicalPath snapshot \<noteq> []"
    and "\<forall>d \<in> set (udb_dispatches db). d_assetVersionId d \<noteq> cs_versionId completed \<and>
      d_workflowKey d \<noteq> wd_workflowKey (cs_workflowDispatch completed)"
    and "co_uploadSessionId again = co_uploadSessionId input"
      "co_callerScopeKey again = co_callerScopeKey input" "co_idempotencyKey again = co_idempotencyKey input"
  shows "beginDurableComplete tx' e later again db' =
    (db', DurableFinished
       (if co_normalizedRequestHash again = co_normalizedRequestHash input
        then Inr (readBack snapshot completed, True)
        else Inl (RegistryUploadConflict (co_idempotencyKey input))))"
proof -
  obtain j where j: "joinSession (co_uploadSessionId input) db = Some j" "tryBuildCompletionReplay j = None"
    and body: "phaseTwoBody e now input snapshot db = (db', Inr (completed, False))"
    by (rule completed_effect [OF assms(1,3,4)])
  obtain V A D U K dispatch where
    db': "db' = db\<lparr>udb_versions := V, udb_assets := A, udb_dispatches := D, udb_audits := U, udb_keys := K\<rparr>"
    and c: "completed = completedFrom j snapshot dispatch"
    and V: "\<And>k. row_at versionIds V k = map_option (\<lambda>r. if uvw_id r = uvw_id (jss_version j)
        then canonicalColumns snapshot r else r) (row_at versionIds (udb_versions db) k)"
    and A: "\<And>k. row_at assetIds A k = map_option (\<lambda>r. if asw_id r = asw_id (jss_asset j)
        then r\<lparr>asw_currentCanonicalVersionId := Some (uvw_id (jss_version j))\<rparr> else r)
      (row_at assetIds (udb_assets db) k)"
    and D: "dispatch \<in> set D" "d_workflowKey dispatch = completionWorkflowKey input j"
      "set D = insert dispatch (set (udb_dispatches db))"
      "dispatch \<in> set (udb_dispatches db) \<or>
       d_assetVersionId dispatch = uvw_id (jss_version j) \<and> d_dispatchState dispatch = disp_pending"
    and K: "\<exists>r. row_at uploadKeys K [''public'', co_callerScopeKey input,
        buildCompletionOperationKey (sew_id (jss_session j)), co_idempotencyKey input] = Some r \<and>
      ukw_normalizedRequestHash r = Some (co_normalizedRequestHash input) \<and>
      ukw_responseReference r = Some (completionReference completed)"
    by (rule phase_two_effect [OF assms(2,3) j body]) (rule that, assumption+)
  note rows = joined_rows [OF j(1)]
  have own: "d_assetVersionId dispatch = uvw_id (jss_version j)"
    using D(4) assms(9) by (auto simp: c completedFrom_def dispatchSummary_def)
  have first: "firstDispatch (uvw_id (jss_version j)) db' = Some dispatch"
  proof -
    let ?ds = "js_sort (\<lambda>a b. d_createdAt a - d_createdAt b)
      (filter (\<lambda>d. d_assetVersionId d = uvw_id (jss_version j)) D)"
    have "set ?ds = {dispatch}" using D(3) own assms(9) by (auto simp: c completedFrom_def)
    then show ?thesis by (cases ?ds) (auto simp: firstDispatch_def db')
  qed
  have col: "uvw_assetId (if uvw_id r = x then canonicalColumns snapshot r else r) = uvw_assetId r \<and>
      uvw_id (if uvw_id r = x then canonicalColumns snapshot r else r) = uvw_id r" for r x
    by (simp add: canonicalColumns_def)
  have join: "joinSession (co_uploadSessionId input) db' = Some (j\<lparr>
      jss_version := canonicalColumns snapshot (jss_version j),
      jss_asset := (jss_asset j)\<lparr>asw_currentCanonicalVersionId := Some (uvw_id (jss_version j))\<rparr>,
      jss_dispatch := Some dispatch\<rparr>)"
    using join_rows [where db = db and db' = db', OF _ _ _ _ _ col] V A j(1) first
    by (simp add: db')
  have replay: "tryBuildCompletionReplay (j\<lparr>
      jss_version := canonicalColumns snapshot (jss_version j),
      jss_asset := (jss_asset j)\<lparr>asw_currentCanonicalVersionId := Some (uvw_id (jss_version j))\<rparr>,
      jss_dispatch := Some dispatch\<rparr>) = Some (readBack snapshot completed)"
    using assms(6-8) by (simp add: tryBuildCompletionReplay_def canonicalSnapshotFromRow_def
        canonicalColumns_def c completedFrom_def readBack_def mapCompletionVersionState_def keep_str_def)
  obtain r where r: "findUploadKey (co_callerScopeKey input)
      (buildCompletionOperationKey (co_uploadSessionId input)) (co_idempotencyKey input) db' = Some r"
    "ukw_normalizedRequestHash r = Some (co_normalizedRequestHash input)"
    "ukw_responseReference r = Some (completionReference completed)"
    using K rows(2) by (auto simp: findUploadKey_def db')
  have "rfr_uploadSessionId (completionReference completed) = co_uploadSessionId input"
    using rows(2) by (simp add: completionReference_def c completedFrom_def)
  then show ?thesis using assms(5,10-12) r join replay
    by (simp add: beginDurableComplete_def loadCompletionReplay_def)
qed

section \<open>Completions that overlap or stop\<close>

lemma admitted_state:
  assumes "upload_laws e" "upload_db_ok db" "joinSession sid db = Some j"
    and "writePhaseOne e now input (DecideAdmit (sew_id (jss_session j)) (uvw_id (jss_version j)) request) db =
      (db1, Inr step)"
  obtains S V where "db1 = db\<lparr>udb_sessions := S, udb_versions := V\<rparr>" "upload_db_ok db1"
    "joinSession sid db1 = Some (j\<lparr>jss_session := admitted_session now input (jss_session j),
       jss_version := admitted_version input (jss_version j)\<rparr>)"
proof -
  let ?F = "admitted_session now input" and ?G = "admitted_version input"
  obtain S V where w: "writePhaseOne e now input
      (DecideAdmit (sew_id (jss_session j)) (uvw_id (jss_version j)) request) db =
      (db\<lparr>udb_sessions := S, udb_versions := V\<rparr>, Inr (PhaseRequest request))"
    and sat: "satisfies sessionConstraints S" "satisfies uploadVersionConstraints V"
    and rows: "\<And>k. row_at sessionIds S k = map_option
       (\<lambda>r. if sew_id r = sew_id (jss_session j) then ?F r else r) (row_at sessionIds (udb_sessions db) k)"
      "\<And>k. row_at versionIds V k = map_option
       (\<lambda>r. if uvw_id r = uvw_id (jss_version j) then ?G r else r) (row_at versionIds (udb_versions db) k)"
    by (rule admit_effect [OF assms(1-3)]) (rule that, assumption+)
  have db1: "db1 = db\<lparr>udb_sessions := S, udb_versions := V\<rparr>"
    using w assms(4) by simp
  have ok: "upload_db_ok db1" using assms(2) sat by (simp add: upload_db_ok_def db1)
  have "joinSession sid db1 =
      Some (j\<lparr>jss_session := ?F (jss_session j), jss_version := ?G (jss_version j)\<rparr>)"
    unfolding db1 by (subst join_updated [OF rows]) (simp_all add: assms(3))
  then show ?thesis using that [OF db1 ok] by simp
qed

lemma await_effect:
  assumes "transactional tx" "upload_laws e" "upload_db_ok db"
    and "beginDurableComplete tx e now input db = (db1, DurableAwait request)"
  obtains j S V where "joinSession (co_uploadSessionId input) db = Some j" "tryBuildCompletionReplay j = None"
    "readPhaseOne now input db = DecideAdmit (sew_id (jss_session j)) (uvw_id (jss_version j)) request"
    "db1 = db\<lparr>udb_sessions := S, udb_versions := V\<rparr>" "upload_db_ok db1"
    "joinSession (co_uploadSessionId input) db1 = Some (j\<lparr>
       jss_session := admitted_session now input (jss_session j),
       jss_version := admitted_version input (jss_version j)\<rparr>)"
proof -
  have step: "afterPhaseOne (tx (phaseOneBody e now input) db) = (db1, DurableAwait request)"
    using assms(4) by (simp add: beginDurableComplete_def split: option.splits if_splits)
  obtain db2 res where tx: "tx (phaseOneBody e now input) db = (db2, res)"
    by (cases "tx (phaseOneBody e now input) db")
  have res: "db2 = db1 \<and> res = Inr (PhaseRequest request)"
    using step by (simp add: tx afterPhaseOne_def split: sum.splits phase_one.splits)
  have body: "phaseOneBody e now input db = (db1, Inr (PhaseRequest request))"
    by (rule tx_cases [OF assms(1) tx]) (use res in auto)
  then obtain s v where d: "readPhaseOne now input db = DecideAdmit s v request"
    by (cases "readPhaseOne now input db") (auto simp: phaseOneBody_def writePhaseOne_def and_then_ok_iff)
  then obtain j where j: "joinSession (co_uploadSessionId input) db = Some j" "tryBuildCompletionReplay j = None"
    "s = sew_id (jss_session j)" "v = uvw_id (jss_version j)"
    by (simp add: readPhaseOne_def validateStaged_def Let_def split: option.splits if_splits)
  have w: "writePhaseOne e now input
      (DecideAdmit (sew_id (jss_session j)) (uvw_id (jss_version j)) request) db = (db1, Inr (PhaseRequest request))"
    using body by (simp add: phaseOneBody_def d j(3,4))
  show ?thesis
    by (rule admitted_state [OF assms(2,3) j(1) w], rule that [OF j(1,2)]) (use d j(3,4) in simp_all)
qed

text \<open>A first part of a completion: any request for the session, at any time.\<close>

definition started :: "phase_one upload_tx \<Rightarrow> upload_engine \<Rightarrow> string \<Rightarrow> upload_db
    \<Rightarrow> upload_db \<times> durable_complete_step \<Rightarrow> bool" where
  "started tx e sid db res \<longleftrightarrow>
     (\<exists>now input. co_uploadSessionId input = sid \<and> beginDurableComplete tx e now input db = res)"

lemma canonicalizing_refused:
  assumes "transactional tx" "upload_laws e" "upload_db_ok db" "joinSession sid db = Some j"
    and "tryBuildCompletionReplay j = None" "uvw_lifecycleState (jss_version j) = row_canonicalizing"
    and "\<forall>r \<in> set (udb_keys db). ukw_operationKey r \<noteq> buildCompletionOperationKey sid"
    and "started tx e sid db (db', step)"
  shows "db' = db \<and> (\<exists>x. step = DurableFinished (Inl x))"
proof -
  obtain now input where i: "co_uploadSessionId input = sid"
    "beginDurableComplete tx e now input db = (db', step)" using assms(8) by (auto simp: started_def)
  have key: "findUploadKey (co_callerScopeKey input) (buildCompletionOperationKey (co_uploadSessionId input))
      (co_idempotencyKey input) db = None"
    using assms(7) i(1) by (auto simp: findUploadKey_def row_at_None uploadKeys_def)
  have "(\<exists>x. readPhaseOne now input db = DecideRefuse x) \<or>
      readPhaseOne now input db = DecideExpire (sew_id (jss_session j))"
    using assms(4-6) i(1) by (simp add: readPhaseOne_def)
  then obtain db1 x where body: "phaseOneBody e now input db = (db1, Inl x)"
  proof (elim disjE exE)
    assume "readPhaseOne now input db = DecideExpire (sew_id (jss_session j))"
    then have "\<exists>db1 x. phaseOneBody e now input db = (db1, Inl x)"
      by (auto simp: phaseOneBody_def writePhaseOne_def and_then_def split: prod.splits sum.splits)
    then show ?thesis using that by blast
  qed (use that in \<open>auto simp: phaseOneBody_def writePhaseOne_def\<close>)
  have "tx (phaseOneBody e now input) db = (db, Inl x)"
    by (rule tx_aborted [where body = "phaseOneBody e now input" and db = db, OF assms(1) body])
  then show ?thesis using i(2) key by (auto simp: beginDurableComplete_def afterPhaseOne_def)
qed

text \<open>C20. A completion that stops while it waits for the canonicalizer blocks its session. The version
  stays in the state the first transaction left, every later request is refused without changing the
  database, and nothing in the store brings the version back: only the call that stopped could have.\<close>

theorem interrupted_completion_blocks:
  assumes "transactional tx" "upload_laws e" "upload_db_ok db"
    and "\<forall>r \<in> set (udb_keys db). ukw_operationKey r \<noteq> buildCompletionOperationKey (co_uploadSessionId input)"
    and "beginDurableComplete tx e now input db = (db1, DurableAwait request)"
    and "(\<lambda>a b. \<exists>step. started tx e (co_uploadSessionId input) a (b, step))\<^sup>*\<^sup>* db1 db2"
    and "started tx e (co_uploadSessionId input) db2 (db3, step)"
  shows "db3 = db1 \<and> (\<exists>x. step = DurableFinished (Inl x)) \<and>
    map_option uvw_lifecycleState (row_at versionIds (udb_versions db3) [cr_versionId request]) =
      Some row_canonicalizing"
proof -
  let ?sid = "co_uploadSessionId input"
  obtain j S V where j: "joinSession ?sid db = Some j" "tryBuildCompletionReplay j = None"
    and d: "readPhaseOne now input db = DecideAdmit (sew_id (jss_session j)) (uvw_id (jss_version j)) request"
    and db1: "db1 = db\<lparr>udb_sessions := S, udb_versions := V\<rparr>" and ok: "upload_db_ok db1"
    and j1: "joinSession ?sid db1 = Some (j\<lparr>jss_session := admitted_session now input (jss_session j),
       jss_version := admitted_version input (jss_version j)\<rparr>)" (is "_ = Some ?j")
    by (rule await_effect [OF assms(1-3,5)]) (rule that, assumption+)
  have replay: "tryBuildCompletionReplay ?j = None"
    using j(2) by (simp add: tryBuildCompletionReplay_def canonicalSnapshotFromRow_def split: option.splits)
  have keys: "\<forall>r \<in> set (udb_keys db1). ukw_operationKey r \<noteq> buildCompletionOperationKey ?sid"
    using assms(4) by (simp add: db1)
  have stay: "b = db1 \<and> (\<exists>x. st = DurableFinished (Inl x))" if "started tx e ?sid db1 (b, st)" for b st
    by (rule canonicalizing_refused [OF assms(1,2) ok j1 replay _ keys that]) simp
  have eq: "db2 = db1" using assms(6) by (induction rule: rtranclp_induct) (use stay in blast)+
  have last: "db3 = db1" "\<exists>x. step = DurableFinished (Inl x)" using stay assms(7) unfolding eq by blast+
  have "cr_versionId request = uvw_id (jss_version ?j)"
    using d j by (auto simp: readPhaseOne_def validateStaged_def Let_def durableRequest_def split: if_splits)
  then show ?thesis using joined_row_at(1) [OF ok j1] last by simp
qed

text \<open>C19. A late failure takes a canonical version back. Two requests may both be admitted, when their
  first transactions read before either writes. When the first one then completes, the version is
  canonical; when the canonicalizer of the second one fails after that, the version is marked as failed
  although it holds the canonical source, is the current version of its asset and has its dispatch.\<close>

theorem late_failure_downgrades_canonical:
  assumes "transactional tx" "upload_laws e" "upload_db_ok db" "co_uploadSessionId b = co_uploadSessionId a"
    and "readPhaseOne now a db = DecideAdmit s v requestA" "readPhaseOne later b db = DecideAdmit s v requestB"
    and "writePhaseOne e now a (readPhaseOne now a db) db = (db1, Inr stepA)"
    and "writePhaseOne e later b (readPhaseOne later b db) db1 = (db2, Inr stepB)"
    and "finishDurableComplete tx e now' a requestA (Inr snapshot) db2 = (db3, Inr (completed, False))"
    and "finishDurableComplete tx e later' b requestB (Inl cause) db3 = (db4, r)"
  shows "r = Inl (RegistryCanonicalizationFailed (co_uploadSessionId a) (Inl cause)) \<and>
    (\<exists>row. row_at versionIds (udb_versions db4) [cs_versionId completed] = Some row \<and>
       uvw_lifecycleState row = row_failed_retryable \<and>
       uvw_canonicalSourceId row = Some (sn_canonicalSourceId snapshot)) \<and>
    map_option asw_currentCanonicalVersionId (row_at assetIds (udb_assets db4) [cs_assetId completed]) =
      Some (Some (cs_versionId completed)) \<and>
    (\<exists>d \<in> set (udb_dispatches db4). dispatchSummary d = cs_workflowDispatch completed)"
proof -
  let ?sid = "co_uploadSessionId a"
  obtain j where j: "joinSession ?sid db = Some j" "s = sew_id (jss_session j)" "v = uvw_id (jss_version j)"
    using assms(5) by (simp add: readPhaseOne_def validateStaged_def Let_def split: option.splits if_splits)
  have vid: "cr_versionId requestB = v"
    using assms(4,6) j(1) by (auto simp: readPhaseOne_def validateStaged_def Let_def durableRequest_def
        split: if_splits option.splits)
  obtain S V where db1: "db1 = db\<lparr>udb_sessions := S, udb_versions := V\<rparr>" "upload_db_ok db1"
    and j1: "joinSession ?sid db1 = Some (j\<lparr>jss_session := admitted_session now a (jss_session j),
       jss_version := admitted_version a (jss_version j)\<rparr>)" (is "_ = Some ?j1")
    by (rule admitted_state [OF assms(2,3) j(1), of now a requestA db1 stepA])
      (use assms(5,7) j(2,3) in simp, rule that, assumption+)
  obtain S' V' where ok2: "upload_db_ok db2"
    and j2: "joinSession ?sid db2 = Some (?j1\<lparr>jss_session := admitted_session later b (jss_session ?j1),
       jss_version := admitted_version b (jss_version ?j1)\<rparr>)"
    by (rule admitted_state [OF assms(2) db1(2) j1, of later b requestB db2 stepB])
      (use assms(6,8) j(2,3) in simp, rule that, assumption+)
  obtain j3 where j3: "joinSession ?sid db2 = Some j3" "tryBuildCompletionReplay j3 = None"
    and body: "phaseTwoBody e now' a snapshot db2 = (db3, Inr (completed, False))"
    by (rule completed_effect [OF assms(1) ok2 assms(9)])
  have v3: "uvw_id (jss_version j3) = v" using j2 j3(1) j(3) by auto
  note rows = joined_row_at [OF ok2 j3(1)]
  obtain V A D U K dispatch where
    db3: "db3 = db2\<lparr>udb_versions := V, udb_assets := A, udb_dispatches := D, udb_audits := U, udb_keys := K\<rparr>"
      "upload_db_ok db3" and c: "completed = completedFrom j3 snapshot dispatch"
    and V': "\<And>k. row_at versionIds V k = map_option (\<lambda>r. if uvw_id r = uvw_id (jss_version j3)
        then canonicalColumns snapshot r else r) (row_at versionIds (udb_versions db2) k)"
    and A': "\<And>k. row_at assetIds A k = map_option (\<lambda>r. if asw_id r = asw_id (jss_asset j3)
        then r\<lparr>asw_currentCanonicalVersionId := Some (uvw_id (jss_version j3))\<rparr> else r)
      (row_at assetIds (udb_assets db2) k)"
    and D: "dispatch \<in> set D"
    by (rule phase_two_effect [OF assms(2) ok2 j3 body]) (rule that, assumption+)
  have V: "row_at versionIds V [v] = Some (canonicalColumns snapshot (jss_version j3))"
    and A: "map_option asw_currentCanonicalVersionId (row_at assetIds A [asw_id (jss_asset j3)]) = Some (Some v)"
    using V' [of "[v]"] A' [of "[asw_id (jss_asset j3)]"] rows v3 by simp_all
  have row3: "canonicalColumns snapshot (jss_version j3) \<in> set (udb_versions db3)"
    "uvw_id (canonicalColumns snapshot (jss_version j3)) = v"
    using row_at_Some [of uploadVersionConstraints V versionIds] V db3
    by (auto simp: upload_db_ok_def uploadVersionConstraints_def versionIds_def)
  obtain V4 where f: "failCompletion e b requestB (Inl cause) db3 = (db3\<lparr>udb_versions := V4\<rparr>,
      Inl (RegistryCanonicalizationFailed (co_uploadSessionId b) (Inl cause))
        :: durable_upload_error + durable_completed flagged)"
    and at4: "\<And>k. row_at versionIds V4 k = map_option (\<lambda>r. if uvw_id r =
          uvw_id (canonicalColumns snapshot (jss_version j3)) then r\<lparr>uvw_lifecycleState := row_failed_retryable\<rparr> else r)
        (row_at versionIds (udb_versions db3) k)"
    by (rule fail_completion [OF assms(2) db3(2) row3(1), of requestB b "Inl cause"])
      (use row3(2) vid in simp, rule that, assumption+)
  have "finishDurableComplete tx e later' b requestB (Inl cause) db3 = failCompletion e b requestB (Inl cause) db3"
    by (simp add: finishDurableComplete_def)
  then have "db4 = db3\<lparr>udb_versions := V4\<rparr>" "r = Inl (RegistryCanonicalizationFailed ?sid (Inl cause))"
    using assms(4,10) f by simp_all
  then show ?thesis using V A D at4 [of "[v]"] row3(2) v3
    by (auto simp: db3(1) c completedFrom_def canonicalColumns_def)
qed

section \<open>Worked examples\<close>

definition freshText :: "('row \<Rightarrow> string) \<Rightarrow> 'row list \<Rightarrow> string" where
  "freshText f rows = CHR ''n'' # concat (map f rows)"

lemma freshText_fresh: "freshText f rows \<notin> f ` set rows"
proof
  assume "freshText f rows \<in> f ` set rows"
  then obtain r where r: "r \<in> set rows" "f r = freshText f rows" by auto
  have "size (f x) \<le> size (concat (map f rows))" if "x \<in> set rows" for x
    using that by (induction rows) auto
  from this [OF r(1)] show False using r(2) by (simp add: freshText_def)
qed

definition listUploadEngine :: upload_engine where
  "listUploadEngine =
     \<lparr>ung_assets = listTable assetConstraints, ung_versions = listTable uploadVersionConstraints,
      ung_sessions = listTable sessionConstraints, ung_keys = listTable [uploadKeys],
      ung_dispatches = listTable dispatchConstraints, ung_audits = listTable [],
      ung_validations = listTable [], ung_newAsset = freshText asw_id,
      ung_newVersion = freshText uvw_id, ung_newSession = freshText sew_id,
      ung_newDispatch = (\<lambda>rows. (freshText d_dispatchId rows, 1))\<rparr>"

lemma listUploadEngine_laws: "upload_laws listUploadEngine"
  by (simp add: upload_laws_def listUploadEngine_def listTable_laws freshText_fresh)

text \<open>A registry with one namespace, in which two sessions are issued and the first one is completed.\<close>

definition emptyUploads :: upload_db where
  "emptyUploads =
     \<lparr>udb_namespaces = [\<lparr>nsw_id = ''ns'', nsw_serviceNamespaceId = ''media''\<rparr>], udb_tenants = [],
      udb_assets = [], udb_versions = [], udb_sessions = [], udb_keys = [], udb_dispatches = [],
      udb_audits = [], udb_validations = []\<rparr>"

abbreviation "issueExample key \<equiv> durableIssue listTransaction listUploadEngine (exampleIssue key) 0 ''uuid''"

definition issuedUploads :: upload_db where
  "issuedUploads = fst (issueExample ''k2'' (fst (issueExample ''k1'' emptyUploads)))"

abbreviation "beginExample \<equiv> beginDurableComplete listTransaction listUploadEngine"
abbreviation "finishExample \<equiv> finishDurableComplete listTransaction listUploadEngine"

definition admittedUploads :: upload_db where
  "admittedUploads = fst (beginExample 5 (exampleComplete ''n'' ''c'') issuedUploads)"

definition exampleJoined :: joined_session where
  "exampleJoined = the (joinSession ''n'' issuedUploads)"

abbreviation "exampleUploadRequest \<equiv> durableRequest (exampleComplete ''n'' ''c'') exampleJoined"

definition completedUploads :: upload_db where
  "completedUploads =
     fst (finishExample 6 (exampleComplete ''n'' ''c'') exampleUploadRequest (Inr exampleSnapshot) admittedUploads)"

definition exampleCompleted :: durable_completed where
  "exampleCompleted = \<lparr>cs_assetId = ''n'', cs_canonicalSource = exampleSnapshot, cs_uploadSessionId = ''n'',
     cs_versionId = ''n'', cs_versionState = ver_canonical,
     cs_workflowDispatch = \<lparr>wd_dispatchId = ''n'', wd_state = ds_pending,
       wd_workflowKey = buildWorkflowKey ''media'' ''n'' ''n'' ''asset-derivation-v1''\<rparr>,
     dc_storedMetrics = None\<rparr>"

lemma issued_ok: "upload_db_ok issuedUploads"
  by code_simp

lemma issued_joined: "joinSession ''n'' issuedUploads = Some exampleJoined"
  by code_simp

lemma admitted_ok: "upload_db_ok admittedUploads"
  by code_simp

lemma example_admitted: "beginExample 5 (exampleComplete ''n'' ''c'') issuedUploads =
    (admittedUploads, DurableAwait exampleUploadRequest)"
proof (rule prod_eqI)
  show "snd (beginExample 5 (exampleComplete ''n'' ''c'') issuedUploads) = snd (admittedUploads, DurableAwait exampleUploadRequest)"
    by code_simp
qed (simp add: admittedUploads_def)

lemma example_completed: "finishExample 6 (exampleComplete ''n'' ''c'') exampleUploadRequest (Inr exampleSnapshot)
    admittedUploads = (completedUploads, Inr (exampleCompleted, False))"
proof (rule prod_eqI)
  show "snd (finishExample 6 (exampleComplete ''n'' ''c'') exampleUploadRequest (Inr exampleSnapshot) admittedUploads) =
      snd (completedUploads, Inr (exampleCompleted, False))"
    by code_simp
qed (simp add: completedUploads_def)

lemma durable_expiry_not_recorded_witness:
  "beginExample 500 (exampleComplete ''n'' ''c'') issuedUploads =
     (issuedUploads, DurableFinished (Inl (RegistrySessionExpired ''n'')))"
proof -
  have "joinSession (co_uploadSessionId (exampleComplete ''n'' ''c'')) issuedUploads = Some exampleJoined"
    by (simp add: exampleComplete_def issued_joined)
  moreover have "(500::int) > sew_expiresAt (jss_session exampleJoined)" by code_simp
  moreover have "findUploadKey (co_callerScopeKey (exampleComplete ''n'' ''c''))
      (buildCompletionOperationKey (co_uploadSessionId (exampleComplete ''n'' ''c'')))
      (co_idempotencyKey (exampleComplete ''n'' ''c'')) issuedUploads = None" by code_simp
  ultimately have "beginExample 500 (exampleComplete ''n'' ''c'') issuedUploads =
      (issuedUploads, DurableFinished (Inl (RegistrySessionExpired
        (co_uploadSessionId (exampleComplete ''n'' ''c'')))))"
    using durable_expiry_not_recorded [OF listTransaction_laws listUploadEngine_laws issued_ok] by blast
  then show ?thesis by (simp add: exampleComplete_def)
qed

lemma unknown_tenant_is_dropped_witness:
  "\<exists>answer db'. durableIssue listTransaction listUploadEngine
      ((exampleIssue ''k'')\<lparr>ii_tenantId := Some ''acme''\<rparr>) 0 ''uuid'' emptyUploads = (db', Inr (answer, False)) \<and>
    is_tenantId answer = None"
proof -
  let ?i = "(exampleIssue ''k'')\<lparr>ii_tenantId := Some ''acme''\<rparr>"
  let ?r = "durableIssue listTransaction listUploadEngine ?i 0 ''uuid'' emptyUploads"
  have r: "?r = (fst ?r, Inr (fst (projr (snd ?r)), False))"
  proof (rule prod_eqI)
    show "snd ?r = snd (fst ?r, Inr (fst (projr (snd ?r)), False))" by code_simp
  qed simp
  have ok: "upload_db_ok emptyUploads" by code_simp
  have "is_tenantId (fst (projr (snd ?r))) = None"
    using unknown_tenant_is_dropped [OF listTransaction_laws listUploadEngine_laws ok r, of "''acme''"]
    by (simp add: exampleIssue_def emptyUploads_def findUploadKey_def row_at_def)
  then show ?thesis using r by blast
qed

lemma shared_content_never_completes_witness:
  "content_taken ''nn'' ''src'' completedUploads \<and>
   attempt listTransaction listTransaction listUploadEngine ''nn'' ''src'' completedUploads
     (durableComplete listTransaction listTransaction listUploadEngine 7 (exampleComplete ''nn'' ''d'')
        (\<lambda>_. Inr exampleSnapshot) completedUploads) \<and>
   (\<exists>x. snd (durableComplete listTransaction listTransaction listUploadEngine 7 (exampleComplete ''nn'' ''d'')
        (\<lambda>_. Inr exampleSnapshot) completedUploads) = Inl x)"
proof -
  let ?r = "durableComplete listTransaction listTransaction listUploadEngine 7 (exampleComplete ''nn'' ''d'')
        (\<lambda>_. Inr exampleSnapshot) completedUploads"
  have "upload_db_ok completedUploads" by code_simp
  moreover have "\<forall>r \<in> set (udb_keys completedUploads). ukw_operationKey r \<noteq> buildCompletionOperationKey ''nn''"
    by code_simp
  moreover have "joinSession ''nn'' completedUploads = Some (the (joinSession ''nn'' completedUploads))" by code_simp
  moreover have "uvw_canonicalSourceId (jss_version (the (joinSession ''nn'' completedUploads))) = None" by code_simp
  moreover have "\<exists>other \<in> set (udb_versions completedUploads).
      uvw_id other \<noteq> uvw_id (jss_version (the (joinSession ''nn'' completedUploads))) \<and>
      uvw_canonicalSourceId other = Some ''src''" by code_simp
  ultimately have t: "content_taken ''nn'' ''src'' completedUploads" unfolding content_taken_def by blast
  have a: "attempt listTransaction listTransaction listUploadEngine ''nn'' ''src'' completedUploads ?r"
    unfolding attempt_def
    by (intro exI [of _ 7] exI [of _ "exampleComplete ''nn'' ''d''"] exI [of _ "\<lambda>_. Inr exampleSnapshot"])
      (simp add: exampleComplete_def exampleSnapshot_def)
  have a': "attempt listTransaction listTransaction listUploadEngine ''nn'' ''src'' completedUploads (fst ?r, snd ?r)"
    using a by simp
  show ?thesis
    using t a shared_content_never_completes [OF listTransaction_laws listTransaction_laws listUploadEngine_laws t
      rtranclp.rtrancl_refl a'] by blast
qed

lemma durable_completion_recorded_witness:
  "upload_db_ok completedUploads \<and>
   map_option uvw_lifecycleState (row_at versionIds (udb_versions completedUploads) [''n'']) = Some row_canonical \<and>
   map_option uvw_canonicalDigestSet (row_at versionIds (udb_versions completedUploads) [''n'']) =
     Some (Some (sn_digests exampleSnapshot))"
  using durable_completion_recorded [OF listTransaction_laws listUploadEngine_laws admitted_ok example_completed]
  by (auto simp: exampleCompleted_def)

lemma durable_completion_replayed_witness:
  "beginExample 700 (exampleComplete ''n'' ''c'') completedUploads =
     (completedUploads, DurableFinished (Inr (readBack exampleSnapshot exampleCompleted, True)))"
proof -
  have "\<forall>d \<in> set (udb_dispatches admittedUploads). d_assetVersionId d \<noteq> cs_versionId exampleCompleted \<and>
      d_workflowKey d \<noteq> wd_workflowKey (cs_workflowDispatch exampleCompleted)" by code_simp
  then have "beginExample 700 (exampleComplete ''n'' ''c'') completedUploads =
     (completedUploads, DurableFinished (if co_normalizedRequestHash (exampleComplete ''n'' ''c'') =
        co_normalizedRequestHash (exampleComplete ''n'' ''c'') then Inr (readBack exampleSnapshot exampleCompleted, True)
       else Inl (RegistryUploadConflict (co_idempotencyKey (exampleComplete ''n'' ''c'')))))"
    by (intro durable_completion_replayed [OF listTransaction_laws listUploadEngine_laws admitted_ok example_completed])
      (simp_all add: exampleComplete_def exampleSnapshot_def)
  then show ?thesis by simp
qed

lemma interrupted_completion_blocks_witness:
  "fst (beginExample 8 (exampleComplete ''n'' ''later'') admittedUploads) = admittedUploads \<and>
   (\<exists>x. snd (beginExample 8 (exampleComplete ''n'' ''later'') admittedUploads) = DurableFinished (Inl x))"
proof -
  let ?i = "exampleComplete ''n'' ''c''"
  let ?r = "beginExample 8 (exampleComplete ''n'' ''later'') admittedUploads"
  have sid: "co_uploadSessionId ?i = ''n''" by (simp add: exampleComplete_def)
  have k: "\<forall>r \<in> set (udb_keys issuedUploads). ukw_operationKey r \<noteq> buildCompletionOperationKey (co_uploadSessionId ?i)"
    by code_simp
  have s: "started listTransaction listUploadEngine (co_uploadSessionId ?i) admittedUploads (fst ?r, snd ?r)"
    unfolding started_def sid
    by (intro exI [of _ 8] exI [of _ "exampleComplete ''n'' ''later''"]) (simp add: exampleComplete_def)
  show ?thesis
    using interrupted_completion_blocks [OF listTransaction_laws listUploadEngine_laws issued_ok k example_admitted
      rtranclp.rtrancl_refl s] by blast
qed

text \<open>Two admitted requests for one session.\<close>

abbreviation "writeExample now key \<equiv> writePhaseOne listUploadEngine now (exampleComplete ''n'' key)
  (readPhaseOne now (exampleComplete ''n'' key) issuedUploads)"

lemma late_failure_downgrades_canonical_witness:
  "\<exists>db3 db4. finishExample 6 (exampleComplete ''n'' ''c'') exampleUploadRequest (Inr exampleSnapshot)
      (fst (writeExample 5 ''d'' (fst (writeExample 5 ''c'' issuedUploads)))) = (db3, Inr (exampleCompleted, False)) \<and>
    fst (finishExample 7 (exampleComplete ''n'' ''d'') exampleUploadRequest (Inl ''offline'') db3) = db4 \<and>
    (\<exists>row. row_at versionIds (udb_versions db4) [''n''] = Some row \<and> uvw_lifecycleState row = row_failed_retryable \<and>
       uvw_canonicalSourceId row = Some ''src'')"
proof -
  let ?a = "exampleComplete ''n'' ''c''" and ?b = "exampleComplete ''n'' ''d''"
  let ?db1 = "fst (writeExample 5 ''c'' issuedUploads)"
  let ?db2 = "fst (writeExample 5 ''d'' ?db1)"
  let ?f = "finishExample 6 ?a exampleUploadRequest (Inr exampleSnapshot) ?db2"
  have sid: "co_uploadSessionId ?b = co_uploadSessionId ?a" by (simp add: exampleComplete_def)
  have da: "readPhaseOne 5 ?a issuedUploads = DecideAdmit ''n'' ''n'' exampleUploadRequest" by code_simp
  have db: "readPhaseOne 5 ?b issuedUploads = DecideAdmit ''n'' ''n'' exampleUploadRequest" by code_simp
  have "snd (writeExample 5 ''c'' issuedUploads) = Inr (PhaseRequest exampleUploadRequest)" by code_simp
  then have wa: "writeExample 5 ''c'' issuedUploads = (?db1, Inr (PhaseRequest exampleUploadRequest))"
    by (intro prod_eqI) simp_all
  have "snd (writeExample 5 ''d'' ?db1) = Inr (PhaseRequest exampleUploadRequest)" by code_simp
  then have wb: "writeExample 5 ''d'' ?db1 = (?db2, Inr (PhaseRequest exampleUploadRequest))"
    by (intro prod_eqI) simp_all
  have "snd ?f = Inr (exampleCompleted, False)" by code_simp
  then have f: "?f = (fst ?f, Inr (exampleCompleted, False))" by (intro prod_eqI) simp_all
  let ?g = "finishExample 7 ?b exampleUploadRequest (Inl ''offline'') (fst ?f)"
  have g: "?g = (fst ?g, snd ?g)" by simp
  have "\<exists>row. row_at versionIds (udb_versions (fst ?g)) [cs_versionId exampleCompleted] = Some row \<and>
      uvw_lifecycleState row = row_failed_retryable \<and>
      uvw_canonicalSourceId row = Some (sn_canonicalSourceId exampleSnapshot)"
    using late_failure_downgrades_canonical [OF listTransaction_laws listUploadEngine_laws issued_ok sid da db wa wb f g]
    by blast
  then show ?thesis using f by (auto simp: exampleCompleted_def exampleSnapshot_def)
qed

end
