(* ===== verification/Object_Stores.thy ===== *)
theory Object_Stores
  imports Storage_Config Upload_Session Source_Paths
begin

text \<open>
  The stores over an S3-compatible service: \<open>packages/storage/src/s3-compatible-object-stores.ts\<close>.
  \<open>stagingHeadObject\<close>, \<open>publishObject\<close> and the others are the operations of the staging, derived and
  exports stores, which share their base class; \<open>snapshotFromPath\<close>, \<open>listSnapshots\<close> and \<open>restoreToPath\<close>
  are those of \<open>S3CompatibleSourceRepository\<close>. The service (\<open>s3_client\<close>), the file system and the signing
  of URLs are parameters; \<open>s3_laws\<close> and \<open>list_law\<close> state what the service documents. The kinds of body
  the client may return, and the URL of an upload target (\<open>buildTusUploadUrl\<close>), are left out.
\<close>

section \<open>The service\<close>

record s3_error =
  s3e_name :: string
  s3e_message :: string

record head_output =
  hdo_contentLength :: "int option"
  hdo_etag :: "string option"
  hdo_lastModified :: "int option"
  hdo_metadata :: "(string, string) jsmap option"

record put_request =
  ptr_bucket :: string
  ptr_key :: string
  ptr_body :: string
  ptr_contentType :: string
  ptr_contentLength :: int
  ptr_metadata :: "(string, string) jsmap option"

record list_page =
  lpg_contents :: "(string option \<times> int option) list"
  lpg_isTruncated :: bool
  lpg_nextContinuationToken :: "string option"

record 'w s3_client =
  s3c_head :: "string \<Rightarrow> string \<Rightarrow> 'w \<Rightarrow> s3_error + head_output"
  s3c_get :: "string \<Rightarrow> string \<Rightarrow> 'w \<Rightarrow> s3_error + string"
  s3c_list :: "string \<Rightarrow> string \<Rightarrow> string option \<Rightarrow> 'w \<Rightarrow> s3_error + list_page"
  s3c_copy :: "string \<Rightarrow> string \<Rightarrow> string \<Rightarrow> 'w \<Rightarrow> ('w, s3_error, unit) outcome"
  s3c_put :: "put_request \<Rightarrow> 'w \<Rightarrow> ('w, s3_error, string option) outcome"
  s3c_delete :: "string \<Rightarrow> string \<Rightarrow> 'w \<Rightarrow> ('w, s3_error, unit) outcome"

datatype store_error = StoreError string | ClientError s3_error | FileError string

section \<open>Keys and references\<close>

definition normalizeRelativeObjectKey :: "string \<Rightarrow> store_error + string" where
  "normalizeRelativeObjectKey objectKey =
     (let normalized = stripSlashes (js_trim objectKey) in
      if normalized = [] then Inl (StoreError ''Object keys must be non-empty after normalization.'')
      else Inr normalized)"

definition encodeCopySource :: "string \<Rightarrow> string \<Rightarrow> string" where
  "encodeCopySource bucket key = bucket @ ''/'' @ key"

definition buildS3Uri :: "string \<Rightarrow> string \<Rightarrow> string" where
  "buildS3Uri bucket key = ''s3://'' @ bucket @ ''/'' @ key"

text \<open>The expression \<open>^scheme://([^/]+)/(.+)$\<close>; a dot matches no line terminator.\<close>

definition line_terminator :: "char \<Rightarrow> bool" where
  "line_terminator c \<longleftrightarrow> c = CHR 0x0A \<or> c = CHR 0x0D"

definition matchUri :: "string \<Rightarrow> string \<Rightarrow> (string \<times> string) option" where
  "matchUri scheme uri =
     (let start = scheme @ ''://''; rest = drop (size start) uri;
          bucket = takeWhile (\<lambda>c. c \<noteq> CHR 0x2F) rest; key = drop (Suc (size bucket)) rest in
      if prefix start uri \<and> bucket \<noteq> [] \<and> key \<noteq> [] \<and> \<not> list_ex line_terminator key
      then Some (bucket, key) else None)"

definition parseS3Uri :: "string \<Rightarrow> store_error + (string \<times> string)" where
  "parseS3Uri uri =
     (case matchUri ''s3'' uri of
        None \<Rightarrow> Inl (StoreError (''S3 source repository evidence must use s3://bucket/key URIs. Received '' @
          quoted uri @ ''.''))
      | Some (bucket, key) \<Rightarrow> then_do (normalizeRelativeObjectKey key) (\<lambda>key. Inr (bucket, key)))"

definition parseStagingReference :: "string \<Rightarrow> store_error + (string \<times> string)" where
  "parseStagingReference reference =
     (case matchUri ''staging'' reference of
        None \<Rightarrow> Inl (StoreError
          ''Object-store source repository snapshots require staging:// bucket references.'')
      | Some (bucket, key) \<Rightarrow> then_do (normalizeRelativeObjectKey key) (\<lambda>key. Inr (bucket, key)))"

definition buildQualifiedObjectKey :: "role_target \<Rightarrow> string \<Rightarrow> store_error + string" where
  "buildQualifiedObjectKey target objectKey =
     then_do (normalizeRelativeObjectKey objectKey) (\<lambda>key. Inr (sr_prefix target @ ''/'' @ key))"

definition normalizeExpiresInSeconds :: "int \<Rightarrow> int \<Rightarrow> int" where
  "normalizeExpiresInSeconds now expiresAt =
     (let seconds = - ((now - expiresAt) div 1000) in if seconds > 0 then seconds else 1)"

definition isMissingObjectError :: "s3_error \<Rightarrow> bool" where
  "isMissingObjectError e \<longleftrightarrow>
     (let message = js_lower (s3e_message e) in
      s3e_name e = ''NotFound'' \<or> s3e_name e = ''NoSuchKey'' \<or>
      sublist ''not found'' message \<or> sublist ''no such key'' message)"

section \<open>Staging, derived and exports stores\<close>

record object_descriptor = staged_descriptor +
  obd_etag :: "string option"
  obd_lastModifiedAt :: "int option"

abbreviation (input) checksum_key :: string where
  "checksum_key \<equiv> ''cdngine-checksum-sha256''"

definition metadataChecksum :: "head_output \<Rightarrow> string option" where
  "metadataChecksum output = Option.bind (hdo_metadata output) (\<lambda>m. js_get m checksum_key)"

definition toStagedObjectDescriptor :: "role_target \<Rightarrow> string \<Rightarrow> head_output \<Rightarrow> object_descriptor" where
  "toStagedObjectDescriptor target key output =
     \<lparr>so_bucket = sr_bucket target, so_key = key,
      so_descriptorLength = nullish (hdo_contentLength output) 0,
      so_declaredChecksum = map_option (\<lambda>v. \<lparr>oc_algorithm = sha256, oc_value = v\<rparr>)
        (keep_str (metadataChecksum output)),
      obd_etag = keep_str (hdo_etag output), obd_lastModifiedAt = hdo_lastModified output\<rparr>"

definition headResolvedObject ::
  "'w s3_client \<Rightarrow> role_target \<Rightarrow> string \<Rightarrow> 'w \<Rightarrow> store_error + object_descriptor option" where
  "headResolvedObject c target qualifiedKey w =
     (case s3c_head c (sr_bucket target) qualifiedKey w of
        Inr result \<Rightarrow> Inr (Some (toStagedObjectDescriptor target qualifiedKey result))
      | Inl e \<Rightarrow> if isMissingObjectError e then Inr None else Inl (ClientError e))"

definition stagingHeadObject ::
  "'w s3_client \<Rightarrow> role_target \<Rightarrow> string \<Rightarrow> 'w \<Rightarrow> store_error + object_descriptor option" where
  "stagingHeadObject c target objectKey w =
     then_do (buildQualifiedObjectKey target objectKey) (\<lambda>key. headResolvedObject c target key w)"

definition deleteObject ::
  "'w s3_client \<Rightarrow> role_target \<Rightarrow> string \<Rightarrow> 'w \<Rightarrow> ('w, store_error, unit) outcome" where
  "deleteObject c target objectKey w =
     (case buildQualifiedObjectKey target objectKey of
        Inl e \<Rightarrow> throw w e
      | Inr key \<Rightarrow> map_prod id (map_sum ClientError id) (s3c_delete c (sr_bucket target) key w))"

record put_object_input =
  pbi_objectKey :: string
  pbi_contentType :: string
  pbi_byteLength :: int
  pbi_body :: string
  pbi_checksum :: "object_checksum option"

record publish_result =
  pbr_bucket :: string
  pbr_key :: string
  pbr_etag :: "string option"

definition putResolvedObject ::
  "'w s3_client \<Rightarrow> role_target \<Rightarrow> string \<Rightarrow> put_object_input \<Rightarrow> 'w \<Rightarrow> ('w, store_error, publish_result) outcome" where
  "putResolvedObject c target qualifiedKey input w =
     and_then (map_prod id (map_sum ClientError id) (s3c_put c
       \<lparr>ptr_bucket = sr_bucket target, ptr_key = qualifiedKey, ptr_body = pbi_body input,
        ptr_contentType = pbi_contentType input, ptr_contentLength = pbi_byteLength input,
        ptr_metadata = map_option (\<lambda>d. [(checksum_key, oc_value d)]) (pbi_checksum input)\<rparr> w))
       (\<lambda>w etag. ok w \<lparr>pbr_bucket = sr_bucket target, pbr_key = qualifiedKey, pbr_etag = keep_str etag\<rparr>)"

definition publishStoredObject ::
  "'w s3_client \<Rightarrow> role_target \<Rightarrow> put_object_input \<Rightarrow> 'w \<Rightarrow> ('w, store_error, publish_result) outcome" where
  "publishStoredObject c target input w =
     (case buildQualifiedObjectKey target (pbi_objectKey input) of
        Inl e \<Rightarrow> throw w e
      | Inr key \<Rightarrow> putResolvedObject c target key input w)"

text \<open>\<open>sign\<close> is the factory of signed URLs: bucket, key and seconds to a URL.\<close>

definition issueSignedReadUrl ::
  "(string \<Rightarrow> string \<Rightarrow> int \<Rightarrow> string) \<Rightarrow> int \<Rightarrow> role_target \<Rightarrow> string \<Rightarrow> int \<Rightarrow> store_error + (string \<times> int)" where
  "issueSignedReadUrl sign now target objectKey expiresAt =
     then_do (buildQualifiedObjectKey target objectKey) (\<lambda>key.
       Inr (sign (sr_bucket target) key (normalizeExpiresInSeconds now expiresAt), expiresAt))"

section \<open>The source repository\<close>

record snapshot_input =
  sfi_assetVersionId :: string
  sfi_logicalByteLength :: "int option"
  sfi_localPath :: string
  sfi_sourceFilename :: string
  sfi_sourceDigests :: "object_checksum list option"
  sfi_metadata :: "(string, string) jsmap option"

record restore_input =
  rti_canonicalSourceId :: string
  rti_destinationPath :: string
  rti_snapshot :: "snapshot_result option"

record snapshot_summary =
  ssm_canonicalSourceId :: string
  ssm_snapshotId :: string
  ssm_createdAt :: int

definition headRequiredObject :: "'w s3_client \<Rightarrow> string \<Rightarrow> string \<Rightarrow> 'w \<Rightarrow> store_error + head_output" where
  "headRequiredObject c bucket key w =
     (case s3c_head c bucket key w of
        Inr h \<Rightarrow> Inr h
      | Inl e \<Rightarrow>
          if isMissingObjectError e
          then Inl (StoreError (''Object-store source repository could not find required object '' @
            quoted (bucket @ ''/'' @ key) @ ''.''))
          else Inl (ClientError e))"

definition objectStoreSnapshot ::
  "role_target \<Rightarrow> role_target \<Rightarrow> snapshot_input \<Rightarrow> string \<Rightarrow> head_output \<Rightarrow> head_output \<Rightarrow> snapshot_result" where
  "objectStoreSnapshot ingestTarget sourceTarget input sourceKey sourceHead stagedHead =
     (let canonicalUri = buildS3Uri (sr_bucket sourceTarget) sourceKey;
          checksum = or_else (metadataChecksum sourceHead) (metadataChecksum stagedHead);
          digests = nullish (sfi_sourceDigests input) [] in
      \<lparr>sn_repositoryEngine = engine_object_store, sn_canonicalSourceId = canonicalUri,
       sn_snapshotId = canonicalUri, sn_logicalPath = sourceKey,
       sn_digests =
         (if digests \<noteq> [] then digests
          else if truthy_str checksum then [\<lparr>oc_algorithm = sha256, oc_value = the checksum\<rparr>] else []),
       sn_logicalByteLength =
         (if sfi_logicalByteLength input = Some 0 then None else sfi_logicalByteLength input),
       sn_storedByteLength = Some (nullish (hdo_contentLength sourceHead)
         (nullish (hdo_contentLength stagedHead) 0)),
       sn_dedupeMetrics = None,
       sn_reconstructionHandles = Some [\<lparr>rh_kind = handle_opaque, rh_value = canonicalUri\<rparr>],
       sn_substrateHints = Some
         [(''ingestTarget'', sr_targetKey ingestTarget),
          (''repositoryTool'', ''s3-compatible-object-store''),
          (''sourceTarget'', sr_targetKey sourceTarget)]\<rparr>)"

definition snapshotFromPath ::
  "'w s3_client \<Rightarrow> role_target \<Rightarrow> role_target \<Rightarrow> snapshot_input \<Rightarrow> 'w \<Rightarrow> ('w, store_error, snapshot_result) outcome" where
  "snapshotFromPath c ingestTarget sourceTarget input w =
     (case parseStagingReference (sfi_localPath input) of
        Inl e \<Rightarrow> throw w e
      | Inr (bucket, key) \<Rightarrow>
          if bucket \<noteq> sr_bucket ingestTarget
          then throw w (StoreError (''Object-store source repository expected staged bucket '' @
            quoted (sr_bucket ingestTarget) @ '' but received '' @ quoted bucket @ ''.''))
          else if \<not> prefix (sr_prefix ingestTarget @ ''/'') key
          then throw w (StoreError (''Object-store source repository expected staged key under '' @
            quoted (sr_prefix ingestTarget @ ''/'') @ '' but received '' @ quoted key @ ''.''))
          else
            (case then_do (headRequiredObject c bucket key w) (\<lambda>stagedHead.
                then_do (buildQualifiedObjectKey sourceTarget
                    (sfi_assetVersionId input @ ''/'' @ sfi_sourceFilename input))
                  (\<lambda>sourceKey. Inr (stagedHead, sourceKey))) of
               Inl e \<Rightarrow> throw w e
             | Inr (stagedHead, sourceKey) \<Rightarrow>
                 and_then (map_prod id (map_sum ClientError id)
                     (s3c_copy c (sr_bucket sourceTarget) (encodeCopySource bucket key) sourceKey w))
                   (\<lambda>w _.
                     (w, then_do (headRequiredObject c (sr_bucket sourceTarget) sourceKey w) (\<lambda>sourceHead.
                        Inr (objectStoreSnapshot ingestTarget sourceTarget input sourceKey sourceHead
                              stagedHead))))))"

text \<open>
  The loop over the pages of a listing. It ends when a page has no continuation token; the first
  argument bounds the number of pages, and \<open>None\<close> says that the bound was not enough.
\<close>

definition pageSummaries :: "role_target \<Rightarrow> list_page \<Rightarrow> snapshot_summary list" where
  "pageSummaries sourceTarget result =
     List.map_filter (\<lambda>(key, lastModified).
       if truthy_str key
       then (let canonicalUri = buildS3Uri (sr_bucket sourceTarget) (the key) in
             Some \<lparr>ssm_canonicalSourceId = canonicalUri, ssm_snapshotId = canonicalUri,
                   ssm_createdAt = nullish lastModified 0\<rparr>)
       else None) (lpg_contents result)"

fun listPages ::
  "nat \<Rightarrow> 'w s3_client \<Rightarrow> role_target \<Rightarrow> string \<Rightarrow> string option \<Rightarrow> 'w
     \<Rightarrow> (store_error + snapshot_summary list) option" where
  "listPages 0 c sourceTarget p continuationToken w = None"
| "listPages (Suc n) c sourceTarget p continuationToken w =
     (case s3c_list c (sr_bucket sourceTarget) p (keep_str continuationToken) w of
        Inl e \<Rightarrow> Some (Inl (ClientError e))
      | Inr result \<Rightarrow>
          (let found = pageSummaries sourceTarget result;
               next = (if lpg_isTruncated result then lpg_nextContinuationToken result else None) in
           if truthy_str next
           then map_option (map_sum id (\<lambda>rest. found @ rest)) (listPages n c sourceTarget p next w)
           else Some (Inr found)))"

definition listSnapshots ::
  "nat \<Rightarrow> 'w s3_client \<Rightarrow> role_target \<Rightarrow> string \<Rightarrow> 'w \<Rightarrow> (store_error + snapshot_summary list) option" where
  "listSnapshots pages c sourceTarget assetVersionId w =
     (case buildQualifiedObjectKey sourceTarget (assetVersionId @ ''/'') of
        Inl e \<Rightarrow> Some (Inl e)
      | Inr p \<Rightarrow> listPages pages c sourceTarget p None w)"

definition resolveSnapshotObject :: "restore_input \<Rightarrow> store_error + (string \<times> string)" where
  "resolveSnapshotObject input =
     (let handle = Option.bind (Option.bind (rti_snapshot input) sn_reconstructionHandles)
            (List.find (\<lambda>candidate. rh_kind candidate = handle_opaque \<and> prefix ''s3://'' (rh_value candidate))) in
      parseS3Uri (nullish (map_option rh_value handle)
        (nullish (map_option sn_snapshotId (rti_snapshot input)) (rti_canonicalSourceId input))))"

text \<open>\<open>mkdir\<close> and \<open>writeFile\<close> are the file system's.\<close>

definition restoreToPath ::
  "'w s3_client \<Rightarrow> (string \<Rightarrow> 'w \<Rightarrow> ('w, string, unit) outcome)
     \<Rightarrow> (string \<Rightarrow> string \<Rightarrow> 'w \<Rightarrow> ('w, string, unit) outcome) \<Rightarrow> restore_input
     \<Rightarrow> 'w \<Rightarrow> ('w, store_error, string) outcome" where
  "restoreToPath c mkdir writeFile input w =
     (case then_do (resolveSnapshotObject input) (\<lambda>(bucket, key).
         map_sum ClientError id (s3c_get c bucket key w)) of
        Inl e \<Rightarrow> throw w e
      | Inr body \<Rightarrow>
          and_then (map_prod id (map_sum FileError id) (mkdir (pathDirname (rti_destinationPath input)) w)) (\<lambda>w _.
          and_then (map_prod id (map_sum FileError id) (writeFile (rti_destinationPath input) body w)) (\<lambda>w _.
            ok w (rti_destinationPath input))))"

lemma mapped_ok [simp]: "map_prod id (map_sum f id) x = (w, Inr v) \<longleftrightarrow> x = (w, Inr v)"
  by (cases x; cases "snd x") auto

lemma mapped_sum_ok [simp]: "map_sum f id x = Inr v \<longleftrightarrow> x = Inr v"
  by (cases x) auto

section \<open>Keys that survive their references\<close>

definition plain_end :: "char \<Rightarrow> bool" where
  "plain_end c \<longleftrightarrow> \<not> js_space c \<and> c \<noteq> CHR 0x2F"

definition plain_key :: "string \<Rightarrow> bool" where
  "plain_key s \<longleftrightarrow> s \<noteq> [] \<and> plain_end (hd s) \<and> plain_end (last s) \<and> \<not> list_ex line_terminator s"

lemma normalize_key_plain:
  assumes "s \<noteq> []" "plain_end (hd s)" "plain_end (last s)"
  shows "normalizeRelativeObjectKey s = Inr s"
proof -
  have "js_trim s = s" using assms by (intro js_trim_id) (auto simp: trimmed_def plain_end_def)
  moreover have "stripSlashes s = s"
    using assms by (simp add: stripSlashes_def dropWhile_hd plain_end_def hd_rev)
  ultimately show ?thesis using assms by (simp add: normalizeRelativeObjectKey_def)
qed

lemma match_built_uri:
  assumes "bucket \<noteq> []" "CHR 0x2F \<notin> set bucket" "key \<noteq> []" "\<not> list_ex line_terminator key"
  shows "matchUri scheme (scheme @ ''://'' @ bucket @ ''/'' @ key) = Some (bucket, key)"
proof -
  have rest: "takeWhile (\<lambda>c. c \<noteq> CHR 0x2F) (bucket @ CHR 0x2F # key) = bucket"
    "drop (Suc (size bucket)) (bucket @ CHR 0x2F # key) = key"
    using assms(2) by (subst takeWhile_append2, auto)
  have "matchUri scheme (start @ bucket @ CHR 0x2F # key) = Some (bucket, key)" if "start = scheme @ ''://''" for start
    unfolding matchUri_def Let_def that [symmetric] append_eq_conv_conj using rest assms by simp
  then show ?thesis by simp
qed

lemma parse_built_uri:
  assumes "bucket \<noteq> []" "CHR 0x2F \<notin> set bucket" "plain_key key"
  shows "parseS3Uri (buildS3Uri bucket key) = Inr (bucket, key)"
  using match_built_uri [OF assms(1,2), of key "''s3''"] normalize_key_plain [of key] assms(3)
  by (simp add: parseS3Uri_def buildS3Uri_def plain_key_def)

lemma qualified_plain:
  assumes "plain_key (sr_prefix target)" "plain_key key"
  shows "buildQualifiedObjectKey target key = Inr (sr_prefix target @ ''/'' @ key)"
    "plain_key (sr_prefix target @ ''/'' @ key)"
  using assms normalize_key_plain [of key]
  by (auto simp: buildQualifiedObjectKey_def plain_key_def line_terminator_def)

section \<open>What the service documents\<close>

record s3_object =
  sob_body :: string
  sob_metadata :: "(string, string) jsmap option"

text \<open>\<open>objects\<close> is what the service holds. A copy source must be encoded as a URL, so the law speaks of
  keys whose encoding is the key itself. Any request may fail.\<close>

definition url_plain :: "string \<Rightarrow> bool" where
  "url_plain s \<longleftrightarrow> list_all (\<lambda>c. let n = of_char c :: nat in
     48 \<le> n \<and> n \<le> 57 \<or> 65 \<le> n \<and> n \<le> 90 \<or> 97 \<le> n \<and> n \<le> 122 \<or> c \<in> set ''-_.~/'') s"

definition s3_laws :: "'w s3_client \<Rightarrow> ('w \<Rightarrow> string \<times> string \<Rightarrow> s3_object option) \<Rightarrow> bool" where
  "s3_laws c objects \<longleftrightarrow>
     (\<forall>b k w body. s3c_get c b k w = Inr body \<longrightarrow> map_option sob_body (objects w (b, k)) = Some body) \<and>
     (\<forall>b0 k0 b k w w'. CHR 0x2F \<notin> set b0 \<and> url_plain b0 \<and> url_plain k0 \<and>
        s3c_copy c b (b0 @ ''/'' @ k0) k w = (w', Inr ()) \<longrightarrow>
        (\<exists>obj obj'. objects w (b0, k0) = Some obj \<and> sob_body obj' = sob_body obj \<and>
           objects w' = (objects w)((b, k) \<mapsto> obj')))"

text \<open>A snapshot of the object store restores the staged bytes, where the staged bucket and key need no URL
  encoding (the copy source is sent unencoded), and the version identifier, the file name and the prefix
  of the source role normalise to themselves. When a snapshot of a staged object has been taken and the
  objects are still what they then were, a restore with the snapshot, or with the canonical source
  identifier alone, that succeeds writes the bytes the staged object had to the destination and nothing
  else: the identifier, the handle and the snapshot identifier all lead back to the bucket and key the
  copy was made to.\<close>

theorem object_store_snapshot_restores:
  assumes "s3_laws c objects" "plain_key (sr_prefix source)" "sr_bucket source \<noteq> []"
    and "CHR 0x2F \<notin> set (sr_bucket source)"
    and "plain_key (sfi_assetVersionId input)" "plain_key (sfi_sourceFilename input)"
    and "parseStagingReference (sfi_localPath input) = Inr (bucket, key)"
    and "CHR 0x2F \<notin> set bucket" "url_plain bucket" "url_plain key"
    and "snapshotFromPath c ingest source input w = (w1, Inr snapshot)"
    and "rti_canonicalSourceId request = sn_canonicalSourceId snapshot"
    and "rti_snapshot request = None \<or> rti_snapshot request = Some snapshot"
    and "objects w2 = objects w1" "restoreToPath c mkdir writeFile request w2 = (w3, Inr path)"
  shows "bucket = sr_bucket ingest \<and> path = rti_destinationPath request \<and>
    (\<exists>staged w4. objects w (bucket, key) = Some staged \<and>
       mkdir (pathDirname path) w2 = (w4, Inr ()) \<and> writeFile path (sob_body staged) w4 = (w3, Inr ()))"
proof -
  let ?id = "sfi_assetVersionId input @ ''/'' @ sfi_sourceFilename input"
  let ?k = "sr_prefix source @ ''/'' @ ?id"
  have id: "plain_key ?id" using assms(5,6) by (auto simp: plain_key_def line_terminator_def)
  note q = qualified_plain [OF assms(2) id]
  obtain stagedHead sourceHead where b: "bucket = sr_bucket ingest"
    and cp: "s3c_copy c (sr_bucket source) (bucket @ ''/'' @ key) ?k w = (w1, Inr ())"
    and snap: "snapshot = objectStoreSnapshot ingest source input ?k sourceHead stagedHead"
    using assms(11) q(1) unfolding snapshotFromPath_def assms(7) encodeCopySource_def
    by (auto simp: and_then_ok_iff then_do_def split: if_splits sum.splits)
  obtain obj obj' where o: "objects w (bucket, key) = Some obj" "sob_body obj' = sob_body obj"
    "objects w1 = (objects w)((sr_bucket source, ?k) \<mapsto> obj')"
    using assms(1,8-10) cp unfolding s3_laws_def by blast
  have uri: "sn_canonicalSourceId snapshot = buildS3Uri (sr_bucket source) ?k"
    "sn_snapshotId snapshot = buildS3Uri (sr_bucket source) ?k"
    "sn_reconstructionHandles snapshot =
       Some [\<lparr>rh_kind = handle_opaque, rh_value = buildS3Uri (sr_bucket source) ?k\<rparr>]"
    by (simp_all add: snap objectStoreSnapshot_def Let_def)
  have start: "prefix ''s3://'' (buildS3Uri (sr_bucket source) ?k)" by (simp add: buildS3Uri_def)
  have r: "resolveSnapshotObject request = Inr (sr_bucket source, ?k)"
    using assms(12,13) start parse_built_uri [OF assms(3,4) q(2)]
    by (auto simp: resolveSnapshotObject_def uri)
  obtain body w4 where "s3c_get c (sr_bucket source) ?k w2 = Inr body"
    "mkdir (pathDirname (rti_destinationPath request)) w2 = (w4, Inr ())"
    "writeFile (rti_destinationPath request) body w4 = (w3, Inr ())" "path = rti_destinationPath request"
    using assms(15) unfolding restoreToPath_def r
    by (auto simp: and_then_ok_iff then_do_def split: sum.splits)
  moreover from this(1) have "body = sob_body obj"
    using assms(1,14) o(2,3) unfolding s3_laws_def by fastforce
  ultimately show ?thesis using b o(1) by blast
qed

section \<open>Listings\<close>

text \<open>A listing comes in pages; each page but the last one is truncated and names the token of the next.\<close>

definition list_law :: "'w s3_client \<Rightarrow> ('w \<Rightarrow> string \<Rightarrow> (string \<times> int) list) \<Rightarrow> bool" where
  "list_law c contents \<longleftrightarrow>
     (\<forall>bucket p w. \<exists>pages token. pages \<noteq> [] \<and>
        concat (map lpg_contents pages) =
          map (\<lambda>(k, t). (Some k, Some t)) (filter (\<lambda>(k, t). prefix p k) (contents w bucket)) \<and>
        (\<forall>i < length pages.
           s3c_list c bucket p (if i = 0 then None else Some (token i)) w = Inr (pages ! i) \<and>
           token i \<noteq> [] \<and> lpg_isTruncated (pages ! i) = (Suc i < length pages) \<and>
           (Suc i < length pages \<longrightarrow> lpg_nextContinuationToken (pages ! i) = Some (token (Suc i)))))"

lemma list_pages_all:
  assumes "\<And>i. i < length pages \<Longrightarrow>
      s3c_list c (sr_bucket target) p (if i = 0 then None else Some (token i)) w = Inr (pages ! i) \<and>
      token i \<noteq> [] \<and> lpg_isTruncated (pages ! i) = (Suc i < length pages) \<and>
      (Suc i < length pages \<longrightarrow> lpg_nextContinuationToken (pages ! i) = Some (token (Suc i)))"
    and "i < length pages" "length pages - i \<le> n"
  shows "listPages n c target p (if i = 0 then None else Some (token i)) w =
    Some (Inr (concat (map (pageSummaries target) (drop i pages))))"
  using assms(2,3)
proof (induction n arbitrary: i)
  case (Suc n)
  note page = assms(1) [OF Suc.prems(1)]
  have keep: "keep_str (if i = 0 then None else Some (token i)) = (if i = 0 then None else Some (token i))"
    using page by (simp add: keep_str_def)
  have drop: "drop i pages = pages ! i # drop (Suc i) pages" using Suc.prems(1) by (simp add: Cons_nth_drop_Suc)
  show ?case
  proof (cases "Suc i < length pages")
    case True
    have "listPages n c target p (Some (token (Suc i))) w =
        Some (Inr (concat (map (pageSummaries target) (drop (Suc i) pages))))"
      using Suc.IH [OF True] Suc.prems by simp
    moreover have "token (Suc i) \<noteq> []" using assms(1) [OF True] by simp
    ultimately show ?thesis using page True keep drop by (simp add: Let_def)
  next
    case False
    then show ?thesis using page keep drop by (simp add: Let_def)
  qed
qed simp

lemma page_ids: "ssm_canonicalSourceId ` set (pageSummaries target result) =
    buildS3Uri (sr_bucket target) ` {k. k \<noteq> [] \<and> (\<exists>t. (Some k, t) \<in> set (lpg_contents result))}"
proof -
  have "ssm_canonicalSourceId ` set (pageSummaries target result) =
      {u. \<exists>(key, t) \<in> set (lpg_contents result). truthy_str key \<and> u = buildS3Uri (sr_bucket target) (the key)}"
    by (force simp: pageSummaries_def List.map_filter_def Let_def image_iff split: if_splits)
  also have "\<dots> = buildS3Uri (sr_bucket target) ` {k. k \<noteq> [] \<and> (\<exists>t. (Some k, t) \<in> set (lpg_contents result))}"
  proof (intro set_eqI iffI)
    fix u
    assume "u \<in> {u. \<exists>(key, t) \<in> set (lpg_contents result). truthy_str key \<and> u = buildS3Uri (sr_bucket target) (the key)}"
    then obtain key t where "(key, t) \<in> set (lpg_contents result)" "truthy_str key"
      "u = buildS3Uri (sr_bucket target) (the key)" by auto
    then show "u \<in> buildS3Uri (sr_bucket target) ` {k. k \<noteq> [] \<and> (\<exists>t. (Some k, t) \<in> set (lpg_contents result))}"
      by (cases key) auto
  next
    fix u
    assume "u \<in> buildS3Uri (sr_bucket target) ` {k. k \<noteq> [] \<and> (\<exists>t. (Some k, t) \<in> set (lpg_contents result))}"
    then obtain k t where "k \<noteq> []" "(Some k, t) \<in> set (lpg_contents result)" "u = buildS3Uri (sr_bucket target) k"
      by auto
    then show "u \<in> {u. \<exists>(key, t) \<in> set (lpg_contents result). truthy_str key \<and> u = buildS3Uri (sr_bucket target) (the key)}"
      by (intro CollectI bexI [of _ "(Some k, t)"]) simp_all
  qed
  finally show ?thesis .
qed

text \<open>The answer to a listing of a version, among the keys of the bucket.\<close>

definition listed_for :: "role_target \<Rightarrow> string \<Rightarrow> string set \<Rightarrow> snapshot_summary list \<Rightarrow> bool" where
  "listed_for target version keys found \<longleftrightarrow>
     ssm_canonicalSourceId ` set found =
       buildS3Uri (sr_bucket target) ` {k \<in> keys. prefix (sr_prefix target @ ''/'' @ version) k} \<and>
     (\<forall>suffix name. sr_prefix target @ ''/'' @ (version @ suffix) @ ''/'' @ name \<in> keys \<longrightarrow>
        buildS3Uri (sr_bucket target) (sr_prefix target @ ''/'' @ (version @ suffix) @ ''/'' @ name)
          \<in> ssm_canonicalSourceId ` set found)"

text \<open>C23. A listing crosses versions. The listing of a version asks for every key that starts with the
  version's identifier: the slash after it is stripped with the rest. It always ends, with a bound on
  the pages that is large enough, and it holds the objects of every version whose identifier continues
  this one, beside those of the version itself.\<close>

theorem object_store_listing_crosses_versions:
  assumes "list_law c contents" "plain_key version"
  shows "\<exists>n. \<forall>m \<ge> n. \<exists>found. listSnapshots m c target version w = Some (Inr found) \<and>
    listed_for target version (fst ` set (contents w (sr_bucket target))) found"
proof -
  let ?p = "sr_prefix target @ ''/'' @ version" and ?b = "sr_bucket target"
  obtain pages token where p: "pages \<noteq> []" "concat (map lpg_contents pages) =
      map (\<lambda>(k, t). (Some k, Some t)) (filter (\<lambda>(k, t). prefix ?p k) (contents w ?b))"
    and pages: "\<And>i. i < length pages \<Longrightarrow>
      s3c_list c ?b ?p (if i = 0 then None else Some (token i)) w = Inr (pages ! i) \<and>
      token i \<noteq> [] \<and> lpg_isTruncated (pages ! i) = (Suc i < length pages) \<and>
      (Suc i < length pages \<longrightarrow> lpg_nextContinuationToken (pages ! i) = Some (token (Suc i)))"
    using assms(1) unfolding list_law_def by metis
  let ?found = "concat (map (pageSummaries target) pages)"
  have strip: "normalizeRelativeObjectKey (version @ ''/'') = Inr version"
  proof -
    have v: "version \<noteq> []" "plain_end (hd version)" "plain_end (last version)"
      using assms(2) by (auto simp: plain_key_def)
    have "js_trim (version @ ''/'') = version @ ''/''"
      using v by (intro js_trim_id) (simp add: trimmed_def plain_end_def js_space_def [of "CHR ''/''"])
    moreover have "stripSlashes (version @ ''/'') = version"
      using v by (simp add: stripSlashes_def dropWhile_hd plain_end_def hd_rev)
    ultimately show ?thesis using v(1) by (simp add: normalizeRelativeObjectKey_def)
  qed
  have all: "listSnapshots m c target version w = Some (Inr ?found)" if "m \<ge> length pages" for m
    using list_pages_all [where i = 0 and n = m, OF pages] p(1) that strip
    by (simp add: listSnapshots_def buildQualifiedObjectKey_def)
  have one: "ssm_canonicalSourceId ` set ?found = (\<Union>r \<in> set pages. buildS3Uri ?b `
      {k. k \<noteq> [] \<and> (\<exists>t. (Some k, t) \<in> set (lpg_contents r))})"
    using page_ids [of target] by (simp add: image_UN)
  also have "\<dots> = buildS3Uri ?b ` {k. k \<noteq> [] \<and> (\<exists>t. (Some k, t) \<in> set (concat (map lpg_contents pages)))}"
    by auto
  also have "\<dots> = buildS3Uri ?b ` {k. (\<exists>t. (k, t) \<in> set (contents w ?b)) \<and> prefix ?p k}"
    unfolding p(2) by (rule arg_cong [where f = "image _"]) auto
  finally have ids: "ssm_canonicalSourceId ` set ?found =
      buildS3Uri ?b ` {k. (\<exists>t. (k, t) \<in> set (contents w ?b)) \<and> prefix ?p k}" .
  have "prefix ?p (sr_prefix target @ ''/'' @ (version @ suffix) @ ''/'' @ name)" for suffix name by simp
  then have "listed_for target version (fst ` set (contents w ?b)) ?found"
    unfolding listed_for_def ids by force
  then show ?thesis using all by (intro exI [of _ "length pages"]) blast
qed

section \<open>A store on lists\<close>

type_synonym list_bucket = "(string \<times> string, s3_object) jsmap \<times> (string, string) jsmap"

definition listS3 :: "list_bucket s3_client" where
  "listS3 =
     \<lparr>s3c_head = (\<lambda>b k w. case js_get (fst w) (b, k) of
        None \<Rightarrow> Inl \<lparr>s3e_name = ''NotFound'', s3e_message = []\<rparr>
      | Some x \<Rightarrow> Inr \<lparr>hdo_contentLength = Some (int (length (sob_body x))), hdo_etag = None,
                        hdo_lastModified = None, hdo_metadata = sob_metadata x\<rparr>),
      s3c_get = (\<lambda>b k w. case js_get (fst w) (b, k) of
        None \<Rightarrow> Inl \<lparr>s3e_name = ''NoSuchKey'', s3e_message = []\<rparr> | Some x \<Rightarrow> Inr (sob_body x)),
      s3c_list = (\<lambda>b p token w. Inr \<lparr>lpg_contents = map (\<lambda>(k, t). (Some k, Some t))
        (filter (\<lambda>(k, t). prefix p k) (map (\<lambda>(k, _). (snd k, 0)) (filter (\<lambda>(k, _). fst k = b) (fst w)))),
        lpg_isTruncated = False, lpg_nextContinuationToken = None\<rparr>),
      s3c_copy = (\<lambda>b source k w.
        let b0 = takeWhile (\<lambda>c. c \<noteq> CHR 0x2F) source in
        case js_get (fst w) (b0, drop (Suc (size b0)) source) of
          None \<Rightarrow> (w, Inl \<lparr>s3e_name = ''NoSuchKey'', s3e_message = []\<rparr>)
        | Some x \<Rightarrow> ((js_set (b, k) x (fst w), snd w), Inr ())),
      s3c_put = (\<lambda>r w. ((js_set (ptr_bucket r, ptr_key r)
        \<lparr>sob_body = ptr_body r, sob_metadata = ptr_metadata r\<rparr> (fst w), snd w), Inr None)),
      s3c_delete = (\<lambda>b k w. ((js_delete (b, k) (fst w), snd w), Inr ()))\<rparr>"

lemma listS3_laws: "s3_laws listS3 (\<lambda>w. js_get (fst w))"
proof -
  have "\<exists>obj obj'. js_get (fst w) (b0, k0) = Some obj \<and> sob_body obj' = sob_body obj \<and>
      js_get (fst w') = (js_get (fst w))((b, k) \<mapsto> obj')"
    if "CHR 0x2F \<notin> set b0" "s3c_copy listS3 b (b0 @ ''/'' @ k0) k w = (w', Inr ())" for b0 k0 b k w w'
  proof -
    have "takeWhile (\<lambda>c. c \<noteq> CHR 0x2F) (b0 @ CHR 0x2F # k0) = b0"
      using that(1) by (subst takeWhile_append2, auto)
    then show ?thesis using that(2)
      by (auto simp: listS3_def Let_def fun_eq_iff js_get_set split: option.splits)
  qed
  then show ?thesis unfolding s3_laws_def by (auto simp: listS3_def split: option.splits)
qed

lemma listS3_list: "list_law listS3
    (\<lambda>w bucket. map (\<lambda>(k, _). (snd k, 0)) (filter (\<lambda>(k, _). fst k = bucket) (fst w)))"
  unfolding list_law_def
proof (intro allI)
  fix bucket p and w :: list_bucket
  let ?page = "\<lparr>lpg_contents = map (\<lambda>(k, t). (Some k, Some t))
    (filter (\<lambda>(k, t). prefix p k) (map (\<lambda>(k, _). (snd k, 0)) (filter (\<lambda>(k, _). fst k = bucket) (fst w)))),
    lpg_isTruncated = False, lpg_nextContinuationToken = None\<rparr>"
  show "\<exists>pages token. pages \<noteq> [] \<and> concat (map lpg_contents pages) =
      map (\<lambda>(k, t). (Some k, Some t)) (filter (\<lambda>(k, t). prefix p k)
        (map (\<lambda>(k, _). (snd k, 0)) (filter (\<lambda>(k, _). fst k = bucket) (fst w)))) \<and>
      (\<forall>i < length pages.
         s3c_list listS3 bucket p (if i = 0 then None else Some (token i)) w = Inr (pages ! i) \<and>
         token i \<noteq> [] \<and> lpg_isTruncated (pages ! i) = (Suc i < length pages) \<and>
         (Suc i < length pages \<longrightarrow> lpg_nextContinuationToken (pages ! i) = Some (token (Suc i))))"
    by (intro exI [of _ "[?page]"] exI [of _ "\<lambda>_. ''t''"]) (simp add: listS3_def)
qed

definition example_ingest :: role_target where
  "example_ingest = \<lparr>sr_role = role_ingest, sr_bucket = ''cdn'', sr_prefix = ''ingest'',
     sr_targetKey = ''cdn/ingest''\<rparr>"

definition example_source :: role_target where
  "example_source = \<lparr>sr_role = role_source, sr_bucket = ''cdn'', sr_prefix = ''source'',
     sr_targetKey = ''cdn/source''\<rparr>"

definition example_bucket :: list_bucket where
  "example_bucket = ([((''cdn'', ''ingest/a''), \<lparr>sob_body = ''bytes'', sob_metadata = None\<rparr>),
     ((''cdn'', ''source/ver10/b.png''), \<lparr>sob_body = ''other'', sob_metadata = None\<rparr>)], [])"

definition example_snapshot_input :: snapshot_input where
  "example_snapshot_input = \<lparr>sfi_assetVersionId = ''ver1'', sfi_logicalByteLength = Some 5,
     sfi_localPath = ''staging://cdn/ingest/a'', sfi_sourceFilename = ''a.png'',
     sfi_sourceDigests = None, sfi_metadata = None\<rparr>"

definition makeDirectory :: "string \<Rightarrow> list_bucket \<Rightarrow> (list_bucket, string, unit) outcome" where
  "makeDirectory p w = ok w ()"

definition putFile :: "string \<Rightarrow> string \<Rightarrow> list_bucket \<Rightarrow> (list_bucket, string, unit) outcome" where
  "putFile p body w = ok (fst w, js_set p body (snd w)) ()"

abbreviation "example_taken \<equiv> snapshotFromPath listS3 example_ingest example_source example_snapshot_input example_bucket"

lemma large_enough: "\<exists>n::nat. \<forall>m \<ge> n. \<exists>x. P m x \<Longrightarrow> \<exists>n x. P n x"
  by (metis order_refl)

theorem object_store_snapshot_restores_witness:
  "\<exists>snapshot w1. example_taken = (w1, Inr snapshot) \<and>
    js_get (snd (fst (restoreToPath listS3 makeDirectory putFile
      \<lparr>rti_canonicalSourceId = sn_canonicalSourceId snapshot, rti_destinationPath = ''/work/a.png'',
       rti_snapshot = None\<rparr> w1))) ''/work/a.png'' = Some ''bytes''"
proof -
  let ?snap = "projr (snd example_taken)" and ?w1 = "fst example_taken"
  let ?r = "\<lparr>rti_canonicalSourceId = sn_canonicalSourceId ?snap, rti_destinationPath = ''/work/a.png'',
    rti_snapshot = None\<rparr> :: restore_input"
  let ?res = "restoreToPath listS3 makeDirectory putFile ?r ?w1"
  have t: "example_taken = (?w1, Inr ?snap)" by code_simp
  have r: "?res = (fst ?res, Inr ''/work/a.png'')" by code_simp
  have s: "parseStagingReference (sfi_localPath example_snapshot_input) = Inr (''cdn'', ''ingest/a'')" by code_simp
  have "\<exists>staged w4. js_get (fst example_bucket) (''cdn'', ''ingest/a'') = Some staged \<and>
      makeDirectory (pathDirname ''/work/a.png'') ?w1 = (w4, Inr ()) \<and>
      putFile ''/work/a.png'' (sob_body staged) w4 = (fst ?res, Inr ())"
    by (rule object_store_snapshot_restores [where request = ?r and ?w2.0 = ?w1, OF listS3_laws _ _ _ _ _ s _ _ _ t,
        THEN conjunct2, THEN conjunct2])
      (rule r | rule refl | (simp; fail) | code_simp)+
  then obtain staged w4 where w: "js_get (fst example_bucket) (''cdn'', ''ingest/a'') = Some staged"
    "putFile ''/work/a.png'' (sob_body staged) w4 = (fst ?res, Inr ())" by blast
  have "map_option sob_body (js_get (fst example_bucket) (''cdn'', ''ingest/a'')) = Some ''bytes''" by code_simp
  then have "fst ?res = (fst w4, js_set ''/work/a.png'' ''bytes'' (snd w4))" using w by (auto simp: putFile_def)
  then have "js_get (snd (fst ?res)) ''/work/a.png'' = Some ''bytes''" by simp
  then show ?thesis using t by blast
qed

theorem object_store_listing_crosses_versions_witness:
  "\<exists>n found. listSnapshots n listS3 example_source ''ver1'' example_bucket = Some (Inr found) \<and>
    ''s3://cdn/source/ver10/b.png'' \<in> ssm_canonicalSourceId ` set found"
proof -
  have "plain_key ''ver1''" by code_simp
  note all = object_store_listing_crosses_versions [OF listS3_list this, of example_source example_bucket]
  obtain n found where f: "listSnapshots n listS3 example_source ''ver1'' example_bucket = Some (Inr found)"
    and l: "listed_for example_source ''ver1'' (fst ` set (map (\<lambda>(k, _). (snd k, 0 :: int))
      (filter (\<lambda>(k, _). fst k = sr_bucket example_source) (fst example_bucket)))) found"
    using large_enough [OF all] by blast
  have m: "''source/ver10/b.png'' \<in> {''ingest/a'', ''source/ver10/b.png''} \<longrightarrow>
      buildS3Uri ''cdn'' ''source/ver10/b.png'' \<in> ssm_canonicalSourceId ` set found"
    using l [unfolded listed_for_def, THEN conjunct2, THEN spec [of _ "''0''"], THEN spec [of _ "''b.png''"]]
    by (simp add: example_source_def example_bucket_def)
  have "''s3://cdn/source/ver10/b.png'' \<in> ssm_canonicalSourceId ` set found"
    using m by (simp add: buildS3Uri_def)
  then show ?thesis using f by blast
qed

end
