(* ===== verification/Upload_Routes.thy ===== *)
theory Upload_Routes
  imports Delivery_Routes Object_Stores Upload_Guarantees Capabilities
begin

text \<open>
  The upload API: the routes of \<open>apps/api/src/public/upload-session-routes.ts\<close> behind the authentication
  of \<open>Api_Access\<close>. The routes take their store by its interface (\<open>upload_service\<close>), which both the
  in-memory store of \<open>Upload_Session\<close> and the store over the registry of \<open>Durable_Upload\<close> provide; the
  staging store and the source repository are those of \<open>Object_Stores\<close> or any other. A completion is
  cut where it awaits: the lookup of the session, the staged object, the first part of the store's
  completion, and the rest after the snapshot. The bodies are those the schemas accept.
\<close>

section \<open>The store as the routes see it\<close>

text \<open>The first part of a completion ends with a result or with a request for the canonicalizer. An
  error is recognised when it is an instance of one of the classes of \<open>upload-session-service.ts\<close>.\<close>

datatype 'se service_step =
  StepFinished "'se + idempotent_result flagged"
| StepAwait canonicalization_request

record ('s, 'se) upload_service =
  usv_issue :: "issue_input \<Rightarrow> 's \<Rightarrow> ('s, 'se, idempotent_result flagged) outcome"
  usv_get :: "string \<Rightarrow> 's \<Rightarrow> 'se + session_summary option"
  usv_begin :: "complete_input \<Rightarrow> 's \<Rightarrow> 's \<times> 'se service_step"
  usv_finish :: "complete_input \<Rightarrow> canonicalization_request \<Rightarrow> (string + snapshot_result) \<Rightarrow> 's
     \<Rightarrow> ('s, 'se, idempotent_result flagged) outcome"
  usv_recognise :: "'se \<Rightarrow> upload_error option"

fun stepOf :: "complete_step \<Rightarrow> upload_error service_step" where
  "stepOf (Finished r) = StepFinished r"
| "stepOf (AwaitCanonicalization request) = StepAwait request"

definition inMemoryUploads ::
  "(id_prefix \<Rightarrow> nat \<Rightarrow> string) \<Rightarrow> int \<Rightarrow> (upload_store, upload_error) upload_service" where
  "inMemoryUploads gen now =
     \<lparr>usv_issue = issueUploadSession gen, usv_get = getUploadSession,
      usv_begin = (\<lambda>input s. map_prod id stepOf (beginComplete now input s)),
      usv_finish = (\<lambda>input _ answer s. finishComplete gen input answer s), usv_recognise = Some\<rparr>"

fun durableStepOf :: "durable_complete_step \<Rightarrow> durable_upload_error service_step" where
  "durableStepOf (DurableFinished r) =
     StepFinished (map_sum id (map_prod (\<lambda>c. CompletedResult (completed_session.truncate c)) id) r)"
| "durableStepOf (DurableAwait request) = StepAwait request"

text \<open>The errors of the registry are classes of its own, none of which the routes test for.\<close>

definition durableUploads ::
  "issued_session flagged upload_tx \<Rightarrow> phase_one upload_tx \<Rightarrow> durable_completed flagged upload_tx
     \<Rightarrow> upload_engine \<Rightarrow> int \<Rightarrow> string \<Rightarrow> (upload_db, durable_upload_error) upload_service" where
  "durableUploads tx tx1 tx2 e now uuid =
     \<lparr>usv_issue = (\<lambda>input db. map_prod id (map_sum id (map_prod IssuedResult id))
        (durableIssue tx e input now uuid db)),
      usv_get = (\<lambda>sid db. Inr (durableGetUploadSession sid db)),
      usv_begin = (\<lambda>input db. map_prod id durableStepOf (beginDurableComplete tx1 e now input db)),
      usv_finish = (\<lambda>input request answer db.
        map_prod id (map_sum id (map_prod (\<lambda>c. CompletedResult (completed_session.truncate c)) id))
          (finishDurableComplete tx2 e now input request answer db)),
      usv_recognise = (\<lambda>_. None)\<rparr>"

section \<open>Errors of the routes\<close>

datatype ('se, 'e) upload_thrown = FromStore 'se | FromOutside 'e | ForeignReplay

fun version_state_name :: "version_state \<Rightarrow> string" where
  "version_state_name ver_session_created = ''session_created''"
| "version_state_name ver_uploaded = ''uploaded''"
| "version_state_name ver_canonicalizing = ''canonicalizing''"
| "version_state_name ver_canonical = ''canonical''"
| "version_state_name ver_processing = ''processing''"
| "version_state_name ver_failed_validation = ''failed_validation''"
| "version_state_name ver_failed_retryable = ''failed_retryable''"
| "version_state_name ver_quarantined = ''quarantined''"

fun session_state_name :: "session_state \<Rightarrow> string" where
  "session_state_name sess_session_created = ''session_created''"
| "session_state_name sess_uploaded = ''uploaded''"
| "session_state_name sess_expired = ''expired''"
| "session_state_name sess_terminated = ''terminated''"
| "session_state_name sess_failed_validation = ''failed_validation''"

fun blocking_state_name :: "blocking_state \<Rightarrow> string" where
  "blocking_state_name (VersionState st) = version_state_name st"
| "blocking_state_name (SessionState st) = session_state_name st"

text \<open>The messages the error classes give themselves; the cause of a failed canonicalization is an error.
  The class \<open>UploadSessionNotReadyError\<close> is thrown nowhere and has no constructor in the model.\<close>

fun uploadErrorMessage :: "upload_error \<Rightarrow> string" where
  "uploadErrorMessage (UploadSessionIdempotencyConflictError k) =
     ''Idempotency key '' @ quoted k @ '' was reused for a different upload-session request.''"
| "uploadErrorMessage (UploadSessionAssetNotFoundError a) = ''Asset '' @ quoted a @ '' does not exist.''"
| "uploadErrorMessage (UploadSessionNotFoundError u) =
     ''Upload session '' @ quoted u @ '' does not exist.''"
| "uploadErrorMessage (UploadSessionExpiredError u) =
     ''Upload session '' @ quoted u @ '' expired before valid completion.''"
| "uploadErrorMessage (UploadSessionInvalidStateTransitionError u st) =
     ''Upload session '' @ quoted u @ '' cannot complete from state '' @
     quoted (blocking_state_name st) @ ''.''"
| "uploadErrorMessage (UploadSessionValidationFailedError u t message) = message"
| "uploadErrorMessage (UploadSessionCanonicalizationFailedError u cause) = cause"
| "uploadErrorMessage (MissingVersionError u) = ''Upload session '' @ quoted u @ '' references a missing version.''"

fun issueProblem :: "upload_error \<Rightarrow> problem option" where
  "issueProblem (UploadSessionIdempotencyConflictError k) =
     Some (problem_of ''idempotency-key-conflict'' ''Idempotency key conflict'' 409
       (uploadErrorMessage (UploadSessionIdempotencyConflictError k)) False)"
| "issueProblem (UploadSessionAssetNotFoundError a) =
     Some (problem_of ''not-found'' ''Not found'' 404
       (uploadErrorMessage (UploadSessionAssetNotFoundError a)) False)"
| "issueProblem _ = None"

fun completionProblem :: "upload_error \<Rightarrow> problem option" where
  "completionProblem (UploadSessionIdempotencyConflictError k) =
     Some (problem_of ''idempotency-key-conflict'' ''Idempotency key conflict'' 409
       (uploadErrorMessage (UploadSessionIdempotencyConflictError k)) False)"
| "completionProblem (UploadSessionNotFoundError u) =
     Some (problem_of ''not-found'' ''Not found'' 404
       (uploadErrorMessage (UploadSessionNotFoundError u)) False)"
| "completionProblem (UploadSessionExpiredError u) =
     Some (problem_of ''upload-session-expired'' ''Upload session expired'' 410
       (uploadErrorMessage (UploadSessionExpiredError u)) False)"
| "completionProblem (UploadSessionInvalidStateTransitionError u st) =
     Some (problem_of ''invalid-state-transition'' ''Invalid state transition'' 409
       (uploadErrorMessage (UploadSessionInvalidStateTransitionError u st)) False)"
| "completionProblem (UploadSessionValidationFailedError u t message) =
     Some (case t of
        problem_checksum_mismatch \<Rightarrow> problem_of ''checksum-mismatch'' ''Checksum mismatch'' 422 message False
      | problem_validation_failed \<Rightarrow> problem_of ''validation-failed'' ''Validation failed'' 422 message False)"
| "completionProblem (UploadSessionCanonicalizationFailedError u cause) =
     Some (problem_of ''upstream-dependency-failed'' ''Upstream dependency failed'' 503 cause True)"
| "completionProblem _ = None"

definition mapStoreError ::
  "(upload_error \<Rightarrow> problem option) \<Rightarrow> ('se \<Rightarrow> upload_error option) \<Rightarrow> ('se, 'e) upload_thrown
     \<Rightarrow> ('se, 'e) upload_thrown api_error" where
  "mapStoreError problemFor recognise x =
     (case x of
        FromStore err \<Rightarrow>
          (case Option.bind (recognise err) problemFor of
             Some p \<Rightarrow> ProblemDetailError p
           | None \<Rightarrow> ThrownError x)
      | _ \<Rightarrow> ThrownError x)"

section \<open>Bodies and dependencies\<close>

record upload_body =
  ubd_serviceNamespaceId :: string
  ubd_tenantId :: "string option"
  ubd_assetId :: "string option"
  ubd_assetOwner :: string
  ubd_filename :: string
  ubd_contentType :: string
  ubd_objectKey :: string
  ubd_byteLength :: int
  ubd_checksum :: object_checksum

record completion_body =
  cbd_objectKey :: string
  cbd_byteLength :: int
  cbd_checksum :: object_checksum

text \<open>What \<open>uploadSessionRequestSchema\<close> accepts; the file name arrives trimmed.\<close>

definition uploadBodyAccepted :: "upload_body \<Rightarrow> bool" where
  "uploadBodyAccepted b \<longleftrightarrow>
     ubd_serviceNamespaceId b \<noteq> [] \<and> ubd_tenantId b \<noteq> Some [] \<and> ubd_assetId b \<noteq> Some [] \<and>
     ubd_assetOwner b \<noteq> [] \<and> ubd_filename b \<noteq> [] \<and> js_trim (ubd_filename b) = ubd_filename b \<and>
     isSafeSourceFilename (ubd_filename b) \<and> ubd_contentType b \<noteq> [] \<and> ubd_objectKey b \<noteq> [] \<and>
     0 \<le> ubd_byteLength b \<and> oc_value (ubd_checksum b) \<noteq> []"

record upload_target_input =
  uti_objectKey :: string
  uti_contentType :: string
  uti_byteLength :: int
  uti_expiresAt :: int

record upload_target =
  utg_url :: string
  utg_expiresAt :: int

record template_request =
  tpr_assetId :: string
  tpr_assetOwner :: string
  tpr_contentType :: string
  tpr_filename :: string
  tpr_serviceNamespaceId :: string
  tpr_tenantId :: "string option"
  tpr_uploadSessionId :: string
  tpr_versionId :: string

text \<open>\<open>udp_digest\<close> is the hexadecimal SHA-256 of the text that \<open>JSON.stringify\<close> gives for a value.\<close>

record ('w, 's, 'se, 'e) upload_deps =
  udp_now :: int
  udp_store :: "('s, 'se) upload_service"
  udp_uploadTargetTtlMs :: "int option"
  udp_createUploadTarget :: "upload_target_input \<Rightarrow> 'w \<Rightarrow> ('w, 'e, upload_target) outcome"
  udp_headObject :: "string \<Rightarrow> 'w \<Rightarrow> 'e + staged_descriptor option"
  udp_sourceRepository :: "(snapshot_input \<Rightarrow> 'w \<Rightarrow> ('w, string, snapshot_result) outcome) option"
  udp_workflowTemplate :: "string option"
  udp_workflowTemplateResolver :: "(template_request \<Rightarrow> string option) option"
  udp_digest :: "json \<Rightarrow> string"

definition uploadIdempotencyKey :: "headers \<Rightarrow> 'e api_error + string" where
  "uploadIdempotencyKey h =
     (let idempotencyKey = map_option js_trim (headers_get h ''idempotency-key'') in
      if \<not> truthy_str idempotencyKey
      then Inl (ProblemDetailError (problem_of ''invalid-request'' ''Invalid request'' 400
        ''The Idempotency-Key header is required for upload-session issuance.'' False))
      else Inr (the idempotencyKey))"

definition uploadCallerScopeKey :: "api_context \<Rightarrow> 'e api_error + string" where
  "uploadCallerScopeKey ctx =
     (case (ctx_actor ctx, ctx_surface ctx) of
        (Some actor, Some surface) \<Rightarrow> Inr (surface_name surface @ '':'' @ act_subject actor)
      | _ \<Rightarrow> Inl (ProblemDetailError (problem_of ''unauthorized'' ''Unauthorized'' 401
          ''Authenticated actor context is required before issuing upload sessions.'' False)))"

definition checksumJson :: "object_checksum \<Rightarrow> json" where
  "checksumJson d = JObj [(''algorithm'', JStr ''sha256''), (''value'', JStr (oc_value d))]"

definition optJson :: "string option \<Rightarrow> json" where
  "optJson v = (case v of None \<Rightarrow> JNull | Some s \<Rightarrow> JStr s)"

definition normalizeRequestHash :: "(json \<Rightarrow> string) \<Rightarrow> upload_body \<Rightarrow> string" where
  "normalizeRequestHash digest b = digest (JObj
     [(''serviceNamespaceId'', JStr (ubd_serviceNamespaceId b)), (''tenantId'', optJson (ubd_tenantId b)),
      (''assetId'', optJson (ubd_assetId b)), (''assetOwner'', JStr (ubd_assetOwner b)),
      (''source'', JObj [(''filename'', JStr (ubd_filename b)), (''contentType'', JStr (ubd_contentType b))]),
      (''upload'', JObj [(''objectKey'', JStr (ubd_objectKey b)), (''byteLength'', JNum (ubd_byteLength b)),
         (''checksum'', checksumJson (ubd_checksum b))])])"

definition normalizeCompletionRequestHash :: "(json \<Rightarrow> string) \<Rightarrow> completion_body \<Rightarrow> string" where
  "normalizeCompletionRequestHash digest b = digest (JObj
     [(''stagedObject'', JObj [(''objectKey'', JStr (cbd_objectKey b)),
        (''byteLength'', JNum (cbd_byteLength b)), (''checksum'', checksumJson (cbd_checksum b))])])"

section \<open>Issuing a session\<close>

text \<open>A record of the other operation, which the in-memory store could find under the same key, has no
  object key, so the staging store fails on it (\<open>ForeignReplay\<close>).\<close>

record created_answer =
  cra_issued :: issued_session
  cra_isDuplicate :: bool
  cra_uploadTarget :: upload_target
  cra_completeLink :: string
  cra_versionLink :: string

definition issueInputOf ::
  "('w, 's, 'se, 'e) upload_deps \<Rightarrow> upload_body \<Rightarrow> string \<Rightarrow> string \<Rightarrow> issue_input" where
  "issueInputOf deps b callerScopeKey idempotencyKey =
     \<lparr>ii_assetId = keep_str (ubd_assetId b), ii_assetOwner = ubd_assetOwner b,
      ii_callerScopeKey = callerScopeKey, ii_checksum = ubd_checksum b,
      ii_contentType = ubd_contentType b,
      ii_expiresAt = udp_now deps + nullish (udp_uploadTargetTtlMs deps) (15 * 60000),
      ii_filename = ubd_filename b, ii_idempotencyKey = idempotencyKey,
      ii_normalizedRequestHash = normalizeRequestHash (udp_digest deps) b,
      ii_objectKey = ubd_objectKey b, ii_serviceNamespaceId = ubd_serviceNamespaceId b,
      ii_tenantId = keep_str (ubd_tenantId b), ii_byteLength = ubd_byteLength b\<rparr>"

definition versionLink :: "string \<Rightarrow> string \<Rightarrow> string" where
  "versionLink assetId versionId = ''/v1/assets/'' @ assetId @ ''/versions/'' @ versionId"

definition createdAnswer :: "issued_session \<Rightarrow> bool \<Rightarrow> upload_target \<Rightarrow> created_answer" where
  "createdAnswer reply isDuplicate uploadTarget =
     \<lparr>cra_issued = reply, cra_isDuplicate = isDuplicate, cra_uploadTarget = uploadTarget,
      cra_completeLink = ''/v1/upload-sessions/'' @ is_uploadSessionId reply @ ''/complete'',
      cra_versionLink = versionLink (is_assetId reply) (is_versionId reply)\<rparr>"

definition scopedContext :: "string \<Rightarrow> string option \<Rightarrow> api_context \<Rightarrow> api_context" where
  "scopedContext serviceNamespaceId tenantId ctx =
     ctx\<lparr>ctx_requestedScope := \<lparr>rsc_serviceNamespaceId = Some serviceNamespaceId,
                               rsc_tenantId = keep_str tenantId\<rparr>\<rparr>"

definition admitIssue :: "headers \<Rightarrow> api_context \<Rightarrow> upload_body \<Rightarrow> 'x api_error + (string \<times> string)" where
  "admitIssue h ctx b =
     then_do (uploadIdempotencyKey h) (\<lambda>idempotencyKey.
     then_do (requireRequestedScope (scopedContext (ubd_serviceNamespaceId b) (ubd_tenantId b) ctx)) (\<lambda>_.
     then_do (uploadCallerScopeKey ctx) (\<lambda>callerScopeKey. Inr (callerScopeKey, idempotencyKey))))"

definition createUploadRoute ::
  "('w, 's, 'se, 'e) upload_deps \<Rightarrow> headers \<Rightarrow> api_context \<Rightarrow> upload_body \<Rightarrow> 's \<times> 'w
     \<Rightarrow> ('s \<times> 'w, ('se, 'e) upload_thrown api_error, created_answer) outcome" where
  "createUploadRoute deps h ctx b st =
     (case admitIssue h ctx b of
        Inl e \<Rightarrow> throw st e
      | Inr (callerScopeKey, idempotencyKey) \<Rightarrow>
          (case usv_issue (udp_store deps) (issueInputOf deps b callerScopeKey idempotencyKey) (fst st) of
             (s, Inl x) \<Rightarrow>
               throw (s, snd st)
                 (mapStoreError issueProblem (usv_recognise (udp_store deps)) (FromStore x))
           | (s, Inr (CompletedResult _, _)) \<Rightarrow> throw (s, snd st) (ThrownError ForeignReplay)
           | (s, Inr (IssuedResult reply, isDuplicate)) \<Rightarrow>
               (case udp_createUploadTarget deps
                       \<lparr>uti_objectKey = is_objectKey reply, uti_contentType = is_contentType reply,
                        uti_byteLength = is_byteLength reply, uti_expiresAt = is_expiresAt reply\<rparr>
                       (snd st) of
                  (w, Inl x) \<Rightarrow> throw (s, w) (ThrownError (FromOutside x))
                | (w, Inr uploadTarget) \<Rightarrow> ok (s, w) (createdAnswer reply isDuplicate uploadTarget))))"

section \<open>Completing a session\<close>

definition buildStagingSnapshotSourcePath :: "staged_descriptor \<Rightarrow> string" where
  "buildStagingSnapshotSourcePath d = ''staging://'' @ so_bucket d @ ''/'' @ so_key d"

definition snapshotInputOf :: "canonicalization_request \<Rightarrow> snapshot_input" where
  "snapshotInputOf r =
     \<lparr>sfi_assetVersionId = cr_versionId r,
      sfi_logicalByteLength = Some (so_byteLength (cr_stagedObject r)),
      sfi_localPath = buildStagingSnapshotSourcePath (so_descriptor (cr_stagedObject r)),
      sfi_sourceFilename = cr_filename r, sfi_sourceDigests = Some [so_checksum (cr_stagedObject r)],
      sfi_metadata = Some
        ([(''assetId'', cr_assetId r), (''assetOwner'', cr_assetOwner r),
          (''serviceNamespaceId'', cr_serviceNamespaceId r),
          (''uploadSessionId'', cr_uploadSessionId r),
          (''versionNumber'', int_text (cr_versionNumber r))] @
         (case keep_str (cr_tenantId r) of None \<Rightarrow> [] | Some t \<Rightarrow> [(''tenantId'', t)]))\<rparr>"

text \<open>The lookup of the session, up to the first await of the staging store.\<close>

definition findCompletion ::
  "('w, 's, 'se, 'e) upload_deps \<Rightarrow> headers \<Rightarrow> api_context \<Rightarrow> string \<Rightarrow> 's
     \<Rightarrow> ('se, 'e) upload_thrown api_error + (string \<times> session_summary)" where
  "findCompletion deps h ctx uploadSessionId s =
     then_do (uploadIdempotencyKey h) (\<lambda>idempotencyKey.
     then_do (map_sum (\<lambda>x. ThrownError (FromStore x)) id (usv_get (udp_store deps) uploadSessionId s)) (\<lambda>found.
       case found of
         None \<Rightarrow> Inl (ProblemDetailError (problem_of ''not-found'' ''Not found'' 404
           (''Upload session '' @ quoted uploadSessionId @ '' does not exist.'') False))
       | Some uploadSession \<Rightarrow>
           then_do (requireRequestedScope (scopedContext (sm_serviceNamespaceId uploadSession)
               (sm_tenantId uploadSession) ctx)) (\<lambda>_. Inr (idempotencyKey, uploadSession))))"

definition findStagedObject ::
  "('w, 's, 'se, 'e) upload_deps \<Rightarrow> string \<Rightarrow> session_summary \<Rightarrow> 'w
     \<Rightarrow> ('se, 'e) upload_thrown api_error + staged_descriptor" where
  "findStagedObject deps uploadSessionId uploadSession w =
     then_do (map_sum (\<lambda>x. ThrownError (FromOutside x)) id
         (udp_headObject deps (sm_objectKey uploadSession) w)) (\<lambda>found.
       case found of
         None \<Rightarrow> Inl (ProblemDetailError (problem_of ''upload-not-finished'' ''Upload not finished'' 409
           (''Upload session '' @ quoted uploadSessionId @ '' does not have durable staged bytes yet.'') True))
       | Some d \<Rightarrow> Inr d)"

definition requireSourceRepository ::
  "('w, 's, 'se, 'e) upload_deps
     \<Rightarrow> 'x api_error + (snapshot_input \<Rightarrow> 'w \<Rightarrow> ('w, string, snapshot_result) outcome)" where
  "requireSourceRepository deps =
     (case udp_sourceRepository deps of
        None \<Rightarrow> Inl (ProblemDetailError (problem_of ''upstream-dependency-failed''
          ''Upstream dependency failed'' 503
          ''Canonical source repository dependency is not configured for upload completion.'' True))
      | Some repository \<Rightarrow> Inr repository)"

definition resolvedWorkflowTemplate ::
  "('w, 's, 'se, 'e) upload_deps \<Rightarrow> session_summary \<Rightarrow> string" where
  "resolvedWorkflowTemplate deps u =
     nullish
       (or_else (udp_workflowTemplate deps)
         (or_else
           (Option.bind (udp_workflowTemplateResolver deps) (\<lambda>resolve. resolve
              \<lparr>tpr_assetId = sm_assetId u, tpr_assetOwner = sm_assetOwner u,
               tpr_contentType = sm_contentType u, tpr_filename = sm_filename u,
               tpr_serviceNamespaceId = sm_serviceNamespaceId u, tpr_tenantId = keep_str (sm_tenantId u),
               tpr_uploadSessionId = sm_uploadSessionId u, tpr_versionId = sm_versionId u\<rparr>))
           (map_option rw_workflowTemplateId (resolveDefaultWorkflowTemplateForSource (sm_contentType u)))))
       ''asset-derivation-v1''"

definition completeInputOf ::
  "('w, 's, 'se, 'e) upload_deps \<Rightarrow> completion_body \<Rightarrow> string \<Rightarrow> string \<Rightarrow> string \<Rightarrow> session_summary
     \<Rightarrow> staged_descriptor \<Rightarrow> complete_input" where
  "completeInputOf deps b uploadSessionId callerScopeKey idempotencyKey uploadSession staged =
     \<lparr>co_callerScopeKey = callerScopeKey, co_idempotencyKey = idempotencyKey,
      co_normalizedRequestHash = normalizeCompletionRequestHash (udp_digest deps) b,
      co_stagedObject = \<lparr>so_byteLength = cbd_byteLength b, so_checksum = cbd_checksum b,
                         so_descriptor = staged, so_objectKey = cbd_objectKey b\<rparr>,
      co_uploadSessionId = uploadSessionId,
      co_workflowTemplate = Some (resolvedWorkflowTemplate deps uploadSession)\<rparr>"

text \<open>The call of the store: its first part, the snapshot, its second part.\<close>

definition runCompletion ::
  "('s, 'se) upload_service \<Rightarrow> (snapshot_input \<Rightarrow> 'w \<Rightarrow> ('w, string, snapshot_result) outcome)
     \<Rightarrow> complete_input \<Rightarrow> 's \<times> 'w \<Rightarrow> ('s \<times> 'w, ('se, 'e) upload_thrown, idempotent_result flagged) outcome" where
  "runCompletion store snapshot input st =
     (case usv_begin store input (fst st) of
        (s, StepFinished r) \<Rightarrow> ((s, snd st), map_sum FromStore id r)
      | (s, StepAwait request) \<Rightarrow>
          (case snapshot (snapshotInputOf request) (snd st) of
             (w, answer) \<Rightarrow>
               (case usv_finish store input request answer s of
                  (s, r) \<Rightarrow> ((s, w), map_sum FromStore id r))))"

text \<open>The answer carries the stored result; its flag is not sent.\<close>

definition admitCompletion ::
  "('w, 's, 'se, 'e) upload_deps \<Rightarrow> headers \<Rightarrow> api_context \<Rightarrow> string \<Rightarrow> completion_body \<Rightarrow> 's \<times> 'w
     \<Rightarrow> ('se, 'e) upload_thrown api_error +
        ((snapshot_input \<Rightarrow> 'w \<Rightarrow> ('w, string, snapshot_result) outcome) \<times> complete_input)" where
  "admitCompletion deps h ctx uploadSessionId b st =
     then_do (findCompletion deps h ctx uploadSessionId (fst st)) (\<lambda>(idempotencyKey, uploadSession).
     then_do (findStagedObject deps uploadSessionId uploadSession (snd st)) (\<lambda>staged.
     then_do (requireSourceRepository deps) (\<lambda>repository.
     then_do (uploadCallerScopeKey ctx) (\<lambda>callerScopeKey.
       Inr (repository, completeInputOf deps b uploadSessionId callerScopeKey idempotencyKey
              uploadSession staged)))))"

definition completeUploadRoute ::
  "('w, 's, 'se, 'e) upload_deps \<Rightarrow> headers \<Rightarrow> api_context \<Rightarrow> string \<Rightarrow> completion_body \<Rightarrow> 's \<times> 'w
     \<Rightarrow> ('s \<times> 'w, ('se, 'e) upload_thrown api_error, idempotent_result flagged) outcome" where
  "completeUploadRoute deps h ctx uploadSessionId b st =
     (case admitCompletion deps h ctx uploadSessionId b st of
        Inl e \<Rightarrow> throw st e
      | Inr (repository, input) \<Rightarrow>
          map_prod id (map_sum (mapStoreError completionProblem (usv_recognise (udp_store deps))) id)
            (runCompletion (udp_store deps) repository input st))"

section \<open>A request\<close>

datatype upload_call = CallCreate upload_body | CallComplete string completion_body

datatype upload_answer = AnswerCreated created_answer | AnswerCompleted idempotent_result bool

fun handleUpload ::
  "('w, 's, 'se, 'e) upload_deps \<Rightarrow> headers \<Rightarrow> api_context \<Rightarrow> upload_call \<Rightarrow> 's \<times> 'w
     \<Rightarrow> ('s \<times> 'w, ('se, 'e) upload_thrown api_error, upload_answer) outcome" where
  "handleUpload deps h ctx (CallCreate b) st =
     map_prod id (map_sum id AnswerCreated) (createUploadRoute deps h ctx b st)"
| "handleUpload deps h ctx (CallComplete sid b) st =
     map_prod id (map_sum id (\<lambda>(r, dup). AnswerCompleted r dup)) (completeUploadRoute deps h ctx sid b st)"

definition uploadRequest ::
  "('w, 's, 'se, 'e) upload_deps \<Rightarrow> (('se, 'e) upload_thrown) authenticator option \<Rightarrow> headers
     \<Rightarrow> api_context \<Rightarrow> upload_call \<Rightarrow> 's \<times> 'w
     \<Rightarrow> ('s \<times> 'w, ('se, 'e) upload_thrown api_error, upload_answer) outcome" where
  "uploadRequest deps auth h ctx call st =
     (case enterSurface auth h srf_public ctx of
        Inl e \<Rightarrow> throw st e
      | Inr ctx \<Rightarrow> handleUpload deps h ctx call st)"

section \<open>Requests stay in scope\<close>

fun call_in_scope ::
  "('w, 's, 'se, 'e) upload_deps \<Rightarrow> authenticated_actor \<Rightarrow> upload_call \<Rightarrow> 's \<Rightarrow> bool" where
  "call_in_scope deps actor (CallCreate b) s \<longleftrightarrow>
     scope_allows actor (Some (ubd_serviceNamespaceId b)) (keep_str (ubd_tenantId b))"
| "call_in_scope deps actor (CallComplete sid b) s \<longleftrightarrow>
     (\<exists>u. usv_get (udp_store deps) sid s = Inr (Some u) \<and>
        scope_allows actor (Some (sm_serviceNamespaceId u)) (keep_str (sm_tenantId u)))"

definition upload_permitted ::
  "('w, 's, 'se, 'e) upload_deps \<Rightarrow> 'x authenticator option \<Rightarrow> headers \<Rightarrow> upload_call \<Rightarrow> 's \<Rightarrow> bool" where
  "upload_permitted deps auth h call s \<longleftrightarrow>
     (\<exists>f actor. auth = Some f \<and> f h = Inr (Some actor) \<and> call_in_scope deps actor call s)"

lemma scoped_context [simp]:
  "ctx_actor (scopedContext ns t ctx) = ctx_actor ctx"
  "ctx_requestedScope (scopedContext ns t ctx) =
     \<lparr>rsc_serviceNamespaceId = Some ns, rsc_tenantId = keep_str t\<rparr>"
  by (simp_all add: scopedContext_def)

lemma required_scope:
  "requireRequestedScope (scopedContext ns t ctx) =
     (case assertAuthorizedScope (scopedContext ns t ctx)
        \<lparr>rsc_serviceNamespaceId = Some ns, rsc_tenantId = keep_str t\<rparr> of
        Inl e \<Rightarrow> Inl e | Inr _ \<Rightarrow> Inr \<lparr>rsc_serviceNamespaceId = Some ns, rsc_tenantId = keep_str t\<rparr>)"
  by (simp add: requireRequestedScope_def then_do_def split: sum.splits)

lemma scope_passed:
  fixes r :: requested_scope
  assumes "requireRequestedScope (scopedContext ns t ctx) = (Inr r :: 'e api_error + requested_scope)"
  shows "\<exists>actor. ctx_actor ctx = Some actor \<and> scope_allows actor (Some ns) (keep_str t)"
proof -
  have "assertAuthorizedScope (scopedContext ns t ctx)
      \<lparr>rsc_serviceNamespaceId = Some ns, rsc_tenantId = keep_str t\<rparr> = (Inr () :: 'e api_error + unit)"
    using assms by (auto simp: required_scope split: sum.splits)
  then show ?thesis by (simp add: authorized_scope_iff)
qed

lemma scope_allowed:
  assumes "ctx_actor ctx = Some actor" "scope_allows actor (Some ns) (keep_str t)"
  shows "requireRequestedScope (scopedContext ns t ctx) =
    (Inr \<lparr>rsc_serviceNamespaceId = Some ns, rsc_tenantId = keep_str t\<rparr> :: 'e api_error + requested_scope)"
proof -
  have "assertAuthorizedScope (scopedContext ns t ctx)
      \<lparr>rsc_serviceNamespaceId = Some ns, rsc_tenantId = keep_str t\<rparr> = (Inr () :: 'e api_error + unit)"
    using assms by (simp add: authorized_scope_iff)
  then show ?thesis by (simp add: required_scope)
qed

lemma scope_refused:
  assumes "ctx_actor ctx = Some actor" "\<not> scope_allows actor (Some ns) (keep_str t)"
  obtains p where "requireRequestedScope (scopedContext ns t ctx) = Inl (ProblemDetailError p)"
    "prb_status p = 403"
proof -
  let ?a = "assertAuthorizedScope (scopedContext ns t ctx)
      \<lparr>rsc_serviceNamespaceId = Some ns, rsc_tenantId = keep_str t\<rparr> :: 'a api_error + unit"
  have "?a \<noteq> Inr ()" using assms by (simp add: authorized_scope_iff)
  then obtain e where e: "?a = Inl e" by (cases ?a) auto
  with refused_scope_status [OF e] assms(1) that show thesis by (auto simp: required_scope)
qed

lemma upload_key_refused:
  "uploadIdempotencyKey h = Inl e \<Longrightarrow> \<exists>p. e = ProblemDetailError p \<and> prb_status p = 400"
  by (auto simp: uploadIdempotencyKey_def Let_def problem_of_def split: if_splits)

lemma entered_context:
  assumes "enterSurface auth h srf_public ctx = Inr c"
  obtains f actor where "auth = Some f" "f h = Inr (Some actor)" "ctx_actor c = Some actor"
    "ctx_surface c = Some srf_public" "c = ctx\<lparr>ctx_actor := Some actor, ctx_surface := Some srf_public\<rparr>"
  using assms by (auto simp: entered_surface)

lemma unauthenticated:
  assumes "enterSurface auth h srf_public ctx = Inl e"
  shows "(\<exists>x. e = ThrownError x) \<or> (\<exists>p. e = ProblemDetailError p \<and> prb_status p = 401)"
  using assms
  by (auto simp: enterSurface_def authenticationMiddleware_def then_do_def ensureSurfaceRole_def
      problem_of_def map_sum_def split: option.splits sum.splits if_splits)

lemma issue_refused:
  assumes "ctx_actor ctx = Some actor"
    and "\<not> scope_allows actor (Some (ubd_serviceNamespaceId b)) (keep_str (ubd_tenantId b))"
  shows "\<exists>p. admitIssue h ctx b = Inl (ProblemDetailError p) \<and> prb_status p \<in> {400, 403}"
proof (cases "uploadIdempotencyKey h :: 'a api_error + string")
  case (Inl e)
  then show ?thesis using upload_key_refused [OF Inl] by (auto simp: admitIssue_def)
next
  case (Inr key)
  obtain p where "requireRequestedScope (scopedContext (ubd_serviceNamespaceId b) (ubd_tenantId b) ctx) =
      (Inl (ProblemDetailError p) :: 'a api_error + requested_scope)" "prb_status p = 403"
    using assms by (rule scope_refused)
  then show ?thesis by (simp add: admitIssue_def Inr)
qed

lemma completion_refused:
  assumes "ctx_actor ctx = Some actor" "\<not> call_in_scope deps actor (CallComplete sid b) s"
  shows "\<exists>e. findCompletion deps h ctx sid s = Inl e \<and>
    ((\<exists>x. e = ThrownError x) \<or> (\<exists>p. e = ProblemDetailError p \<and> prb_status p \<in> {400, 403, 404}))"
proof -
  consider e where "uploadIdempotencyKey h = (Inl e :: ('c, 'd) upload_thrown api_error + string)"
    | key x where "uploadIdempotencyKey h = (Inr key :: ('c, 'd) upload_thrown api_error + string)"
        "usv_get (udp_store deps) sid s = Inl x"
    | key where "uploadIdempotencyKey h = (Inr key :: ('c, 'd) upload_thrown api_error + string)"
        "usv_get (udp_store deps) sid s = Inr None"
    | key u where "uploadIdempotencyKey h = (Inr key :: ('c, 'd) upload_thrown api_error + string)"
        "usv_get (udp_store deps) sid s = Inr (Some u)"
    by (cases "uploadIdempotencyKey h :: ('c, 'd) upload_thrown api_error + string";
        cases "usv_get (udp_store deps) sid s"; cases "projr (usv_get (udp_store deps) sid s)") auto
  then show ?thesis
  proof cases
    case 1
    then show ?thesis using upload_key_refused [OF 1] by (auto simp: findCompletion_def)
  next
    case (4 key u)
    with assms(2) have "\<not> scope_allows actor (Some (sm_serviceNamespaceId u)) (keep_str (sm_tenantId u))"
      by auto
    with assms(1) obtain p where
      "requireRequestedScope (scopedContext (sm_serviceNamespaceId u) (sm_tenantId u) ctx) =
        (Inl (ProblemDetailError p) :: ('c, 'd) upload_thrown api_error + requested_scope)" "prb_status p = 403"
      by (rule scope_refused)
    then show ?thesis by (simp add: findCompletion_def 4)
  qed (simp_all add: findCompletion_def problem_of_def)
qed


section \<open>How refusals are answered\<close>

lemma found_session:
  assumes "getUploadSession sid s = Inr (Some u)"
  obtains x v where "js_get (up_uploadSessions s) sid = Some x"
    "js_get (up_versionsById s) (us_versionId x) = Some v"
  using assms by (auto simp: getUploadSession_def buildUploadSessionSummary_def split: option.splits)

definition completion_status :: "problem \<Rightarrow> bool" where
  "completion_status p \<longleftrightarrow> prb_status p \<in> {409, 410, 422, 503} \<and> prb_retryable p = (prb_status p = 503)"

lemma begin_refusal:
  assumes "beginComplete now input s = (s', Finished (Inl x))"
    and "getUploadSession (co_uploadSessionId input) s = Inr (Some u)"
  shows "\<exists>p. completionProblem x = Some p \<and> completion_status p"
  using assms(2)
proof (rule found_session)
  fix y v
  assume "js_get (up_uploadSessions s) (co_uploadSessionId input) = Some y"
    "js_get (up_versionsById s) (us_versionId y) = Some v"
  then show ?thesis using assms(1)
    by (auto simp: beginComplete_def admitStagedObject_def Let_def problem_of_def completion_status_def
        split: option.splits if_splits)
qed

lemma begin_await:
  assumes "beginComplete now input s = (s', AwaitCanonicalization r)"
  obtains x v where "js_get (up_uploadSessions s) (co_uploadSessionId input) = Some x"
    "js_get (up_versionsById s) (us_versionId x) = Some v" "r = canonicalizationRequest input v"
    "s' = setVersion (v\<lparr>vr_lifecycleState := ver_canonicalizing\<rparr>)
       (setSession (x\<lparr>us_uploadSessionState := sess_uploaded\<rparr>) s)"
    "so_objectKey (co_stagedObject input) = us_objectKey x"
    "so_byteLength (co_stagedObject input) = vr_byteLength v"
    "\<not> checksumMismatch (co_stagedObject input) (vr_checksum v)"
  using assms by (auto simp: beginComplete_def admitStagedObject_def Let_def
      split: option.splits if_splits)

lemma finish_refusal:
  assumes "beginComplete now input s = (s1, AwaitCanonicalization r)"
    and "finishComplete gen input answer s1 = (s2, Inl x)"
  shows "\<exists>cause. answer = Inl cause \<and> x = UploadSessionCanonicalizationFailedError (co_uploadSessionId input) cause"
  using assms(1)
proof (rule begin_await)
  fix y v
  assume f: "js_get (up_uploadSessions s) (co_uploadSessionId input) = Some y"
    "js_get (up_versionsById s) (us_versionId y) = Some v"
    "s1 = setVersion (v\<lparr>vr_lifecycleState := ver_canonicalizing\<rparr>)
       (setSession (y\<lparr>us_uploadSessionState := sess_uploaded\<rparr>) s)"
  have "\<exists>y' v'. js_get (up_uploadSessions s1) (co_uploadSessionId input) = Some y' \<and>
      us_versionId y' = us_versionId y"
    using f by (auto simp: setVersion_def setSession_def js_get_set)
  moreover have "\<exists>v'. js_get (up_versionsById s1) (us_versionId y) = Some v'"
    using f by (auto simp: setVersion_def setSession_def js_get_set)
  ultimately show ?thesis using assms(2)
    by (auto simp: finishComplete_def Let_def split: sum.splits)
qed

lemma in_memory_run_refused:
  assumes "runCompletion (inMemoryUploads gen now) repository input (s, w) = (st', Inl t)"
    and "getUploadSession (co_uploadSessionId input) s = Inr (Some u)"
  shows "\<exists>p. (mapStoreError completionProblem Some t :: (upload_error, 'e) upload_thrown api_error) =
    ProblemDetailError p \<and> completion_status p"
proof -
  obtain s1 step where b: "beginComplete now input s = (s1, step)" by (cases "beginComplete now input s")
  show ?thesis
  proof (cases step)
    case (Finished r)
    then obtain x where r: "r = Inl x" "t = FromStore x"
      using assms(1) b by (cases r) (auto simp: runCompletion_def inMemoryUploads_def)
    show ?thesis using begin_refusal [OF b [unfolded Finished r] assms(2)] by (auto simp: r mapStoreError_def)
  next
    case (AwaitCanonicalization req)
    obtain w1 answer where sn: "repository (snapshotInputOf req) w = (w1, answer)"
      by (cases "repository (snapshotInputOf req) w")
    obtain s2 r where f: "finishComplete gen input answer s1 = (s2, r)"
      by (cases "finishComplete gen input answer s1")
    then obtain x where r: "r = Inl x" "t = FromStore x"
      using assms(1) b AwaitCanonicalization sn
      by (cases r) (auto simp: runCompletion_def inMemoryUploads_def)
    show ?thesis using finish_refusal [OF b [unfolded AwaitCanonicalization] f [unfolded r]]
      by (auto simp: r mapStoreError_def completion_status_def problem_of_def)
  qed
qed

lemma admitted_completion:
  fixes deps :: "('w, 's, 'se, 'e) upload_deps"
  assumes "admitCompletion deps h c sid b st = Inr (repository, input)"
  obtains u key staged callerScopeKey where "usv_get (udp_store deps) sid (fst st) = Inr (Some u)"
    "uploadIdempotencyKey h = (Inr key :: ('se, 'e) upload_thrown api_error + string)"
    "udp_headObject deps (sm_objectKey u) (snd st) = Inr (Some staged)"
    "udp_sourceRepository deps = Some repository"
    "input = completeInputOf deps b sid callerScopeKey key u staged"
  using assms
  by (auto simp: admitCompletion_def findCompletion_def findStagedObject_def requireSourceRepository_def
      then_do_ok split: option.splits)

lemma complete_input_session [simp]:
  "co_uploadSessionId (completeInputOf deps b sid callerScopeKey key u staged) = sid"
  by (simp add: completeInputOf_def)

text \<open>Over the in-memory store every refusal of a completion is a problem of its own. Once a request has
  been admitted, a failure of the completion is answered with status 409, 410, 422 or 503, never as an
  internal error, and exactly the failure of the source repository, 503, is marked as retryable.\<close>

theorem completion_refusals_are_problems:
  fixes deps :: "('w, upload_store, upload_error, 'e) upload_deps"
  assumes "udp_store deps = inMemoryUploads gen now" "enterSurface auth h srf_public ctx = Inr c"
    and "admitCompletion deps h c sid b st = Inr (repository, input)"
    and "uploadRequest deps auth h ctx (CallComplete sid b) st = (st', Inl err)"
  shows "\<exists>p. err = ProblemDetailError p \<and> prb_status p \<in> {409, 410, 422, 503} \<and>
    prb_retryable p = (prb_status p = 503)"
proof -
  obtain u where u: "getUploadSession sid (fst st) = Inr (Some u)" "co_uploadSessionId input = sid"
    using assms(3) by (rule admitted_completion) (auto simp: assms(1) inMemoryUploads_def)
  obtain t where "runCompletion (inMemoryUploads gen now) repository input (fst st, snd st) = (st', Inl t)"
    "err = mapStoreError completionProblem Some t"
    using assms(1-4) by (auto simp: uploadRequest_def completeUploadRoute_def inMemoryUploads_def
        map_prod_def map_sum_def split: prod.splits sum.splits)
  with in_memory_run_refused [OF this(1)] u show ?thesis by (auto simp: completion_status_def)
qed

text \<open>Over the registry every refusal of the store is answered as an internal error. Once a request has
  been admitted, whatever its failure is, an unknown asset, a conflicting key, an expired session, a failed
  checksum or a source repository that is down, the answer has status 500 and is marked as not
  retryable.\<close>

theorem durable_refusals_are_internal_errors:
  fixes deps :: "('w, upload_db, durable_upload_error, 'e) upload_deps"
  assumes "udp_store deps = durableUploads tx tx1 tx2 e now uuid" "enterSurface auth h srf_public ctx = Inr c"
    and "case call of CallCreate b \<Rightarrow> \<exists>r. admitIssue h c b = (Inr r :: (durable_upload_error, 'e) upload_thrown api_error + (string \<times> string))
      | CallComplete sid b \<Rightarrow> \<exists>r. admitCompletion deps h c sid b st = Inr r"
    and "uploadRequest deps auth h ctx call st = (st', Inl err)"
  shows "snd (createProblemResponse path (mapUnknownErrorToProblem message err)) = 500 \<and>
    \<not> prb_retryable (mapUnknownErrorToProblem message err)"
proof -
  have store: "mapStoreError f (usv_recognise (udp_store deps)) t = ThrownError t" for f t
    by (simp add: assms(1) durableUploads_def mapStoreError_def split: upload_thrown.splits)
  have "\<exists>t. err = ThrownError t"
  proof (cases call)
    case (CallCreate b)
    then show ?thesis using assms(2-4)
      by (auto simp: uploadRequest_def createUploadRoute_def store
          split: prod.splits sum.splits idempotent_result.splits)
  next
    case (CallComplete sid b)
    then obtain repository input where "admitCompletion deps h c sid b st = Inr (repository, input)"
      using assms(3) by auto
    then show ?thesis using assms(2,4) CallComplete
      by (cases "runCompletion (udp_store deps) repository input st :: (_, (durable_upload_error, 'e) upload_thrown, _) outcome";
          cases "snd (runCompletion (udp_store deps) repository input st :: (_, (durable_upload_error, 'e) upload_thrown, _) outcome)")
        (auto simp: uploadRequest_def completeUploadRoute_def store)
  qed
  then show ?thesis by (auto simp: createProblemResponse_def mapUnknownErrorToProblem_def problem_of_def)
qed

section \<open>The length of the staged object\<close>

definition relabelObject :: "int \<Rightarrow> staged_object \<Rightarrow> staged_object" where
  "relabelObject n o' = o'\<lparr>so_descriptor := (so_descriptor o')\<lparr>so_descriptorLength := n\<rparr>\<rparr>"

definition relabelInput :: "int \<Rightarrow> complete_input \<Rightarrow> complete_input" where
  "relabelInput n input = input\<lparr>co_stagedObject := relabelObject n (co_stagedObject input)\<rparr>"

definition relabelRequest :: "int \<Rightarrow> canonicalization_request \<Rightarrow> canonicalization_request" where
  "relabelRequest n r = r\<lparr>cr_stagedObject := relabelObject n (cr_stagedObject r)\<rparr>"

fun relabelStep :: "int \<Rightarrow> complete_step \<Rightarrow> complete_step" where
  "relabelStep n (Finished r) = Finished r"
| "relabelStep n (AwaitCanonicalization r) = AwaitCanonicalization (relabelRequest n r)"

lemma relabel_fields [simp]:
  "so_byteLength (relabelObject n s) = so_byteLength s" "so_checksum (relabelObject n s) = so_checksum s"
  "so_objectKey (relabelObject n s) = so_objectKey s"
  "so_declaredChecksum (so_descriptor (relabelObject n s)) = so_declaredChecksum (so_descriptor s)"
  "co_callerScopeKey (relabelInput n i) = co_callerScopeKey i"
  "co_idempotencyKey (relabelInput n i) = co_idempotencyKey i"
  "co_normalizedRequestHash (relabelInput n i) = co_normalizedRequestHash i"
  "co_uploadSessionId (relabelInput n i) = co_uploadSessionId i"
  "co_workflowTemplate (relabelInput n i) = co_workflowTemplate i"
  "co_stagedObject (relabelInput n i) = relabelObject n (co_stagedObject i)"
  "checksumMismatch (relabelObject n s) d = checksumMismatch s d"
  "rememberCompletion (relabelInput n i) c = rememberCompletion i c"
  "canonicalizationRequest (relabelInput n i) v = relabelRequest n (canonicalizationRequest i v)"
  "snapshotInputOf (relabelRequest n r) = snapshotInputOf r"
  by (simp_all add: relabelObject_def relabelInput_def relabelRequest_def checksumMismatch_def
      rememberCompletion_def canonicalizationRequest_def snapshotInputOf_def
      buildStagingSnapshotSourcePath_def fun_eq_iff)

lemma admit_relabelled:
  "admitStagedObject (relabelInput n input) x v replay s =
     map_prod id (relabelStep n) (admitStagedObject input x v replay s)"
  by (cases replay) (simp_all add: admitStagedObject_def Let_def)

lemma begin_relabelled:
  "beginComplete now (relabelInput n input) s = map_prod id (relabelStep n) (beginComplete now input s)"
proof (cases "js_get (up_uploadSessions s) (co_uploadSessionId input)")
  case (Some x)
  show ?thesis
  proof (cases "js_get (up_versionsById s) (us_versionId x)")
    case (Some v)
    show ?thesis using \<open>js_get (up_uploadSessions s) _ = Some x\<close> Some
      by (cases "us_completionResult x"; cases "js_get (up_idempotencyRecords s)
            (buildOperationIdempotencyKey (co_callerScopeKey input) op_complete (co_idempotencyKey input))")
        (auto simp: beginComplete_def Let_def admit_relabelled)
  qed (simp add: beginComplete_def Some)
qed (simp add: beginComplete_def)

lemma finish_relabelled: "finishComplete gen (relabelInput n input) answer s = finishComplete gen input answer s"
  unfolding finishComplete_def Let_def relabel_fields by (rule refl)

lemma run_relabelled:
  "runCompletion (inMemoryUploads gen now) repository (relabelInput n input) st =
     runCompletion (inMemoryUploads gen now) repository input st"
proof -
  obtain s1 step where b: "beginComplete now input (fst st) = (s1, step)"
    by (cases "beginComplete now input (fst st)")
  then show ?thesis
    by (cases step) (simp_all add: runCompletion_def inMemoryUploads_def begin_relabelled finish_relabelled)
qed

definition reportingLength :: "int \<Rightarrow> ('w, 's, 'se, 'e) upload_deps \<Rightarrow> ('w, 's, 'se, 'e) upload_deps" where
  "reportingLength n deps = deps\<lparr>udp_headObject :=
     (\<lambda>k w. map_sum id (map_option (\<lambda>d. d\<lparr>so_descriptorLength := n\<rparr>)) (udp_headObject deps k w))\<rparr>"

lemma reporting_fields [simp]:
  "udp_store (reportingLength n deps) = udp_store deps"
  "udp_now (reportingLength n deps) = udp_now deps"
  "udp_digest (reportingLength n deps) = udp_digest deps"
  "udp_uploadTargetTtlMs (reportingLength n deps) = udp_uploadTargetTtlMs deps"
  "udp_createUploadTarget (reportingLength n deps) = udp_createUploadTarget deps"
  "udp_sourceRepository (reportingLength n deps) = udp_sourceRepository deps"
  "udp_workflowTemplate (reportingLength n deps) = udp_workflowTemplate deps"
  "udp_workflowTemplateResolver (reportingLength n deps) = udp_workflowTemplateResolver deps"
  by (simp_all add: reportingLength_def)

lemma reported_routes:
  "findCompletion (reportingLength n deps) h c sid s = findCompletion deps h c sid s"
  "requireSourceRepository (reportingLength n deps) = requireSourceRepository deps"
  "createUploadRoute (reportingLength n deps) h c b st = createUploadRoute deps h c b st"
  unfolding findCompletion_def requireSourceRepository_def createUploadRoute_def issueInputOf_def
    reporting_fields by (rule refl)+

lemma reported_input:
  "completeInputOf (reportingLength n deps) b sid caller key u (d\<lparr>so_descriptorLength := n\<rparr>) =
     relabelInput n (completeInputOf deps b sid caller key u d)"
  by (simp add: completeInputOf_def relabelInput_def relabelObject_def resolvedWorkflowTemplate_def)

lemma reported_admission:
  "admitCompletion (reportingLength n deps) h c sid b st =
     map_sum id (map_prod id (relabelInput n)) (admitCompletion deps h c sid b st)"
proof -
  have "findStagedObject (reportingLength n deps) sid u w =
      map_sum id (\<lambda>d. d\<lparr>so_descriptorLength := n\<rparr>) (findStagedObject deps sid u w)" for u w
  proof (cases "udp_headObject deps (sm_objectKey u) w")
    case (Inr found)
    then show ?thesis by (cases found) (simp_all add: findStagedObject_def reportingLength_def)
  qed (simp add: findStagedObject_def reportingLength_def)
  then show ?thesis
    by (simp add: admitCompletion_def then_do_def reported_input reported_routes split: sum.splits)
qed

text \<open>The length of the staged object is never checked. Whatever length the staging store reports for the
  uploaded object, the answer of every request and what it leaves in the stores are the same: the length
  that is compared with the announced one is the one in the body of the completion request.\<close>

theorem staged_length_never_checked:
  fixes deps :: "('w, upload_store, upload_error, 'e) upload_deps"
  assumes "udp_store deps = inMemoryUploads gen now"
  shows "uploadRequest (reportingLength n deps) auth h ctx call st = uploadRequest deps auth h ctx call st"
proof (cases call)
  case (CallComplete sid b)
  have "completeUploadRoute (reportingLength n deps) h c sid b st = completeUploadRoute deps h c sid b st" for c
    by (simp add: completeUploadRoute_def reported_admission assms run_relabelled
        map_sum_def map_prod_def split: sum.splits prod.splits)
  then show ?thesis by (simp add: uploadRequest_def CallComplete split: sum.splits)
qed (simp add: uploadRequest_def reported_routes split: sum.splits)

section \<open>Sessions for assets of other namespaces\<close>

lemma upload_key_found:
  "headers_get h ''idempotency-key'' = Some key \<Longrightarrow> js_trim key \<noteq> [] \<Longrightarrow> uploadIdempotencyKey h = Inr (js_trim key)"
  by (cases "js_trim key") (simp_all add: uploadIdempotencyKey_def)

text \<open>A request may add a version to an asset it has no right to. The route checks the namespace and tenant
  that the body claims and then passes the identifier of any asset to the in-memory store: an actor who may
  act in the claimed scope but not in that of the asset gets a session, and the asset gets a new version in
  its own namespace. The same actor is refused, with status 403, when it completes that session.\<close>

theorem foreign_asset_gets_version:
  fixes deps :: "('w, upload_store, upload_error, 'e) upload_deps"
  assumes "udp_store deps = inMemoryUploads gen now" "auth = Some f" "f h = Inr (Some actor)"
    and "scope_allows actor (Some (ubd_serviceNamespaceId b)) (keep_str (ubd_tenantId b))"
    and "headers_get h ''idempotency-key'' = Some key" "js_trim key \<noteq> []"
    and "ubd_assetId b = Some assetId" "assetId \<noteq> []" "js_get (up_assets s) assetId = Some asset"
    and "\<not> scope_allows actor (Some (as_serviceNamespaceId asset)) (keep_str (as_tenantId asset))"
    and "js_get (up_idempotencyRecords s) (buildOperationIdempotencyKey
           (''public:'' @ act_subject actor) op_create (js_trim key)) = None"
    and "\<And>target. udp_createUploadTarget deps target w = (w', Inr reply)"
  shows "\<exists>s' answer v. uploadRequest deps auth h ctx (CallCreate b) (s, w) = ((s', w'), Inr (AnswerCreated answer)) \<and>
    js_get (up_versionsByAssetId s') (as_assetId asset) =
      Some (nullish (js_get (up_versionsByAssetId s) (as_assetId asset)) [] @ [is_versionId (cra_issued answer)]) \<and>
    js_get (up_versionsById s') (is_versionId (cra_issued answer)) = Some v \<and>
    vr_serviceNamespaceId v = as_serviceNamespaceId asset \<and>
    (\<forall>body w. \<exists>p. uploadRequest deps auth h ctx
        (CallComplete (is_uploadSessionId (cra_issued answer)) body) (s', w) = ((s', w), Inl (ProblemDetailError p)) \<and>
      prb_status p = 403)"
proof -
  let ?c = "ctx\<lparr>ctx_actor := Some actor, ctx_surface := Some srf_public\<rparr>"
  define caller where "caller = ''public:'' @ act_subject actor"
  let ?in = "issueInputOf deps b caller (js_trim key)"
  let ?n = "int (length (nullish (js_get (up_versionsByAssetId s) (as_assetId asset)) [])) + 1"
  let ?r = "issuedResult ?in asset (gen prefix_ver (up_idsDrawn s)) (gen prefix_upl (Suc (up_idsDrawn s))) ?n"
  have e: "enterSurface auth h srf_public ctx = Inr ?c"
    using assms(2,3) by (simp add: entered_surface surface_allows_def)
  have k: "uploadIdempotencyKey h = (Inr (js_trim key) :: (upload_error, 'e) upload_thrown api_error + string)"
    by (rule upload_key_found [OF assms(5,6)])
  have sc: "requireRequestedScope (scopedContext (ubd_serviceNamespaceId b) (ubd_tenantId b) ?c) =
      (Inr \<lparr>rsc_serviceNamespaceId = Some (ubd_serviceNamespaceId b), rsc_tenantId = keep_str (ubd_tenantId b)\<rparr> ::
        (upload_error, 'e) upload_thrown api_error + requested_scope)"
    by (rule scope_allowed [OF _ assms(4)]) simp
  have a: "admitIssue h ?c b = (Inr (caller, js_trim key) ::
      (upload_error, 'e) upload_thrown api_error + string \<times> string)"
    by (simp add: admitIssue_def uploadCallerScopeKey_def k sc caller_def)
  obtain s' where i: "issueUploadSession gen ?in s = (s', Inr (IssuedResult ?r, False))"
    and s': "js_get (up_versionsByAssetId s') (as_assetId asset) =
        Some (nullish (js_get (up_versionsByAssetId s) (as_assetId asset)) [] @ [is_versionId ?r])"
      "js_get (up_versionsById s') (is_versionId ?r) = Some (newVersionRecord ?in asset (is_versionId ?r) ?n)"
      "js_get (up_uploadSessions s') (is_uploadSessionId ?r) =
        Some (newSessionRecord ?in asset (is_versionId ?r) (is_uploadSessionId ?r))"
    using assms(7-9) assms(11) [folded caller_def]
    by (auto simp: issueUploadSession_def resolveOrCreateAsset_def Let_def issueInputOf_def
        issuedResult_def js_get_set keep_str_def)
  let ?answer = "createdAnswer ?r False reply"
  have r: "uploadRequest deps auth h ctx (CallCreate b) (s, w) = ((s', w'), Inr (AnswerCreated ?answer))"
    by (simp add: uploadRequest_def e createUploadRoute_def a assms(1,12) inMemoryUploads_def i)
  have ns: "vr_serviceNamespaceId (newVersionRecord ?in asset (is_versionId ?r) ?n) = as_serviceNamespaceId asset"
    by (simp add: newVersionRecord_def)
  obtain u where u: "getUploadSession (is_uploadSessionId ?r) s' = Inr (Some u)"
    "sm_serviceNamespaceId u = as_serviceNamespaceId asset" "keep_str (sm_tenantId u) = keep_str (as_tenantId asset)"
    using s' by (auto simp: getUploadSession_def buildUploadSessionSummary_def newSessionRecord_def)
  have p: "\<exists>p. uploadRequest deps auth h ctx (CallComplete (is_uploadSessionId ?r) body) (s', x) =
      ((s', x), Inl (ProblemDetailError p)) \<and> prb_status p = 403" for body x
  proof -
    have ac: "ctx_actor ?c = Some actor" by simp
    have n: "\<not> scope_allows actor (Some (sm_serviceNamespaceId u)) (keep_str (sm_tenantId u))"
      using assms(10) u by simp
    obtain p where q: "requireRequestedScope (scopedContext (sm_serviceNamespaceId u) (sm_tenantId u) ?c) =
        (Inl (ProblemDetailError p) :: (upload_error, 'e) upload_thrown api_error + requested_scope)"
      "prb_status p = 403"
      by (rule scope_refused [OF ac n])
    show ?thesis
      using k u(1) q
      by (simp add: uploadRequest_def e completeUploadRoute_def admitCompletion_def findCompletion_def
          assms(1) inMemoryUploads_def)
  qed
  have cra: "cra_issued ?answer = ?r" by (simp add: createdAnswer_def)
  show ?thesis
    by (rule exI [of _ s'], rule exI [of _ ?answer], rule exI [of _ "newVersionRecord ?in asset (is_versionId ?r) ?n"],
        unfold cra, intro conjI allI r s'(1,2) ns p)
qed

section \<open>From the upload to the restored bytes\<close>

lemma accepted_name_plain:
  assumes "isSafeSourceFilename name" "js_trim name = name"
  shows "plain_key name"
proof -
  have s: "safe_filename name" "name \<noteq> []"
    using assms sanitize_safe [of name] by (auto simp: isSafeSourceFilename_def Let_def split: if_splits)
  have e: "\<not> js_space (hd name)" "\<not> js_space (last name)"
    using trimmed_js_trim [of name] assms(2) s(2) by (auto simp: trimmed_def)
  have tm: "line_terminator c \<Longrightarrow> invalidMaterializedFilenameCharacter c" for c
    by (elim line_terminator_def [THEN iffD1, THEN disjE]) (simp_all add: invalidMaterializedFilenameCharacter_def)
  have m: "x \<noteq> CHR 0x2F" "\<not> line_terminator x" if "x \<in> set name" for x
    using s(1) that tm [of x] unfolding safe_filename_def plain_segment_def list_all_iff by blast+
  have "\<not> list_ex line_terminator name" using m(2) by (simp add: list_ex_iff)
  then show ?thesis
    using s(2) e m(1) [OF hd_in_set [OF s(2)]] m(1) [OF last_in_set [OF s(2)]]
    by (simp add: plain_key_def plain_end_def)
qed

lemma staging_reference:
  assumes "bucket \<noteq> []" "CHR 0x2F \<notin> set bucket" "plain_key key"
  shows "parseStagingReference (''staging://'' @ bucket @ ''/'' @ key) = Inr (bucket, key)"
  using match_built_uri [OF assms(1,2), of key "''staging''"] normalize_key_plain [of key] assms(3)
  by (simp add: parseStagingReference_def plain_key_def)

text \<open>A new completion: the store is asked for a snapshot, and what it answers is stored.\<close>

lemma new_completion:
  assumes "runCompletion (inMemoryUploads gen now) repository input (s, w) = ((s', w'), Inr (result, False))"
  obtains x v snapshot v' where "js_get (up_uploadSessions s) (co_uploadSessionId input) = Some x"
    "js_get (up_versionsById s) (us_versionId x) = Some v"
    "so_objectKey (co_stagedObject input) = us_objectKey x"
    "repository (snapshotInputOf (canonicalizationRequest input v)) w = (w', Inr snapshot)"
    "js_get (up_versionsById s') (vr_versionId v) = Some v'" "vr_lifecycleState v' = ver_canonical"
    "vr_canonicalSourceEvidence v' = Some (snapshotResultToCanonicalSourceEvidence snapshot)"
proof -
  obtain s1 step where b: "beginComplete now input s = (s1, step)" by (cases "beginComplete now input s")
  show thesis
  proof (cases step)
    case (Finished r)
    with b assms have "beginComplete now input s = (s', Finished (Inr (result, False)))"
      by (cases r) (auto simp: runCompletion_def inMemoryUploads_def)
    then have False
      by (auto simp: beginComplete_def admitStagedObject_def Let_def split: option.splits if_splits)
    then show thesis ..
  next
    case (AwaitCanonicalization req)
    obtain x v where x: "js_get (up_uploadSessions s) (co_uploadSessionId input) = Some x"
      "js_get (up_versionsById s) (us_versionId x) = Some v" "req = canonicalizationRequest input v"
      "s1 = setVersion (v\<lparr>vr_lifecycleState := ver_canonicalizing\<rparr>)
         (setSession (x\<lparr>us_uploadSessionState := sess_uploaded\<rparr>) s)"
      "so_objectKey (co_stagedObject input) = us_objectKey x"
      using b [unfolded AwaitCanonicalization] by (rule begin_await)
    obtain answer where a: "repository (snapshotInputOf req) w = (w', answer)"
      "finishComplete gen input answer s1 = (s', Inr (result, False))"
      using assms b AwaitCanonicalization
      by (auto simp: runCompletion_def inMemoryUploads_def map_sum_def split: prod.splits sum.splits)
    then obtain snapshot where sn: "answer = Inr snapshot"
      by (auto simp: finishComplete_def Let_def split: option.splits sum.splits)
    have "\<exists>v'. js_get (up_versionsById s') (vr_versionId v) = Some v' \<and> vr_lifecycleState v' = ver_canonical \<and>
        vr_canonicalSourceEvidence v' = Some (snapshotResultToCanonicalSourceEvidence snapshot)"
    proof -
      have "\<exists>y. js_get (up_uploadSessions s1) (co_uploadSessionId input) = Some y \<and> us_versionId y = us_versionId x"
        using x(1,4) by (auto simp: setVersion_def setSession_def js_get_set)
      moreover have "\<exists>u. js_get (up_versionsById s1) (us_versionId x) = Some u \<and> vr_versionId u = vr_versionId v"
        using x(2,4) by (auto simp: setVersion_def setSession_def js_get_set)
      ultimately obtain y u where y: "js_get (up_uploadSessions s1) (co_uploadSessionId input) = Some y"
          "us_versionId y = us_versionId x"
        and u: "js_get (up_versionsById s1) (us_versionId x) = Some u" "vr_versionId u = vr_versionId v"
        by blast
      show ?thesis using a(2) y u
        by (auto simp: sn finishComplete_def Let_def rememberCompletion_def setSession_def setVersion_def js_get_set)
    qed
    then show thesis using that x a(1) sn by blast
  qed
qed

lemma request_completed:
  fixes deps :: "('w, 's, 'se, 'e) upload_deps"
  assumes "uploadRequest deps auth h ctx (CallComplete sid b) st = (st', Inr (AnswerCompleted result dup))"
  obtains c repository input where "enterSurface auth h srf_public ctx = Inr c"
    "admitCompletion deps h c sid b st = Inr (repository, input)"
    "runCompletion (udp_store deps) repository input st =
       (st', Inr (result, dup) :: ('se, 'e) upload_thrown + idempotent_result flagged)"
proof -
  obtain c where c: "enterSurface auth h srf_public ctx = Inr c"
    using assms by (auto simp: uploadRequest_def split: sum.splits)
  obtain st1 r where r: "completeUploadRoute deps h c sid b st = (st1, r)"
    by (cases "completeUploadRoute deps h c sid b st")
  have run: "completeUploadRoute deps h c sid b st = (st', Inr (result, dup))"
    using assms c r by (cases r) (auto simp: uploadRequest_def)
  then obtain repository input where a: "admitCompletion deps h c sid b st = Inr (repository, input)"
    by (auto simp: completeUploadRoute_def split: sum.splits)
  with run have "runCompletion (udp_store deps) repository input st =
      (st', Inr (result, dup) :: ('se, 'e) upload_thrown + idempotent_result flagged)"
    by (simp add: completeUploadRoute_def)
  with that c a show thesis by blast
qed

text \<open>C22. The bytes a client uploads are the bytes a restore gives. This is over the in-memory session store and
  the object stores, with an S3 service whose get and copy behave as documented (\<open>s3_laws\<close>), and for
  names that pass through unchanged: the ingest bucket and prefix and the object key of the session need
  no URL encoding, the prefixes, the object key and the version identifier normalise to themselves, the
  buckets have no slash, and the file name is one the request schema accepts. When a completion request
  is then answered by a new completion, the version of the session is canonical, and a restore of its
  stored evidence that succeeds, at any later time while the service holds what it then held, writes to
  the destination the bytes that were staged under the object key of the session, and nothing else.\<close>

theorem uploaded_bytes_are_restored:
  fixes deps :: "('w, upload_store, upload_error, store_error) upload_deps"
  assumes "udp_store deps = inMemoryUploads gen now"
    and "\<And>k w. udp_headObject deps k w =
           map_sum id (map_option staged_descriptor.truncate) (stagingHeadObject c ingest k w)"
    and "udp_sourceRepository deps =
           Some (\<lambda>i w. map_prod id (map_sum message id) (snapshotFromPath c ingest source i w))"
    and "s3_laws c objects" "plain_key (sr_prefix source)" "sr_bucket source \<noteq> []"
    and "CHR 0x2F \<notin> set (sr_bucket source)" "plain_key (sr_prefix ingest)" "sr_bucket ingest \<noteq> []"
    and "CHR 0x2F \<notin> set (sr_bucket ingest)" "url_plain (sr_bucket ingest)" "url_plain (sr_prefix ingest)"
    and "getUploadSession sid s = Inr (Some u)" "plain_key (sm_objectKey u)" "url_plain (sm_objectKey u)"
    and "js_get (up_versionsById s) (sm_versionId u) = Some v" "plain_key (vr_versionId v)"
    and "isSafeSourceFilename (vr_filename v)" "js_trim (vr_filename v) = vr_filename v"
    and "uploadRequest deps auth h ctx (CallComplete sid b) (s, w) =
           ((s', w'), Inr (AnswerCompleted result False))"
  shows "\<exists>v' e. js_get (up_versionsById s') (vr_versionId v) = Some v' \<and>
    vr_lifecycleState v' = ver_canonical \<and> vr_canonicalSourceEvidence v' = Some e \<and>
    (\<forall>w2 w3 destination path. objects w2 = objects w' \<and>
       restoreToPath c mkdir writeFile \<lparr>rti_canonicalSourceId = ev_canonicalSourceId e,
         rti_destinationPath = destination,
         rti_snapshot = Some (canonicalSourceEvidenceToSnapshotResult e)\<rparr> w2 = (w3, Inr path) \<longrightarrow>
       path = destination \<and>
       (\<exists>staged w4. objects w (sr_bucket ingest, sr_prefix ingest @ ''/'' @ sm_objectKey u) = Some staged \<and>
         mkdir (pathDirname path) w2 = (w4, Inr ()) \<and> writeFile path (sob_body staged) w4 = (w3, Inr ())))"
proof -
  let ?key = "sr_prefix ingest @ ''/'' @ sm_objectKey u"
  let ?repo = "\<lambda>i w. map_prod id (map_sum message id) (snapshotFromPath c ingest source i w)"
  obtain ctx' repository input where
    a: "admitCompletion deps h ctx' sid b (s, w) = Inr (repository, input)"
    and run: "runCompletion (inMemoryUploads gen now) repository input (s, w) =
      ((s', w'), Inr (result, False) :: (upload_error, store_error) upload_thrown + idempotent_result flagged)"
    using assms(20) by (rule request_completed) (use assms(1) in simp)
  note q = qualified_plain [OF assms(8,14)]
  obtain d caller k where input: "input = completeInputOf deps b sid caller k u d"
    and d: "so_bucket d = sr_bucket ingest" "so_key d = ?key" and repo: "repository = ?repo"
    using a assms(1-3,13) q(1)
    by (auto elim!: admitted_completion simp: inMemoryUploads_def stagingHeadObject_def headResolvedObject_def
        toStagedObjectDescriptor_def staged_descriptor.truncate_def split: sum.splits if_splits)
  obtain x y snapshot v' where x: "js_get (up_uploadSessions s) (co_uploadSessionId input) = Some x"
    "js_get (up_versionsById s) (us_versionId x) = Some y"
    "so_objectKey (co_stagedObject input) = us_objectKey x"
    "repository (snapshotInputOf (canonicalizationRequest input y)) w = (w', Inr snapshot)"
    and v': "js_get (up_versionsById s') (vr_versionId y) = Some v'" "vr_lifecycleState v' = ver_canonical"
      "vr_canonicalSourceEvidence v' = Some (snapshotResultToCanonicalSourceEvidence snapshot)"
    by (rule new_completion [OF run])
  have y: "y = v" using x(1,2) assms(13,16)
    by (auto simp: input getUploadSession_def buildUploadSessionSummary_def)
  let ?i = "snapshotInputOf (canonicalizationRequest input v)"
  have sn: "snapshotFromPath c ingest source ?i w = (w', Inr snapshot)" using x(4) y by (simp add: repo)
  have i: "sfi_assetVersionId ?i = vr_versionId v" "sfi_sourceFilename ?i = vr_filename v"
    "sfi_localPath ?i = ''staging://'' @ sr_bucket ingest @ ''/'' @ ?key"
    by (simp_all add: snapshotInputOf_def canonicalizationRequest_def input completeInputOf_def
        buildStagingSnapshotSourcePath_def d)
  have key: "plain_key ?key" "url_plain ?key" using q(2) assms(12,15) by (simp_all add: url_plain_def)
  note name = accepted_name_plain [OF assms(18,19)]
  note restores = object_store_snapshot_restores [OF assms(4-7), where input = ?i,
      unfolded i, OF assms(17) name staging_reference [OF assms(9,10) key(1)] assms(10,11) key(2) sn]
  have id: "ev_canonicalSourceId (snapshotResultToCanonicalSourceEvidence snapshot) = sn_canonicalSourceId snapshot"
    by (simp add: snapshotResultToCanonicalSourceEvidence_def)
  have kept: "path = destination \<and>
      (\<exists>staged w4. objects w (sr_bucket ingest, ?key) = Some staged \<and>
         mkdir (pathDirname path) w2 = (w4, Inr ()) \<and> writeFile path (sob_body staged) w4 = (w3, Inr ()))"
    if "objects w2 = objects w' \<and> restoreToPath c mkdir writeFile
      \<lparr>rti_canonicalSourceId = sn_canonicalSourceId snapshot, rti_destinationPath = destination,
       rti_snapshot = Some snapshot\<rparr> w2 = (w3, Inr path)" for w2 w3 destination path
    using restores [OF _ _ that [THEN conjunct1] that [THEN conjunct2]] by auto
  show ?thesis
    by (intro exI conjI, rule v'(1) [unfolded y], rule v'(2), rule v'(3))
      (unfold id evidence_roundtrip, intro allI impI, rule kept)
qed

section \<open>Worked examples\<close>

definition uploadActor :: "string list \<Rightarrow> authenticated_actor" where
  "uploadActor namespaces = \<lparr>act_subject = ''svc'', act_roles = [],
     act_allowedServiceNamespaces = namespaces, act_allowedTenantIds = []\<rparr>"

definition uploadAuth :: "string list \<Rightarrow> 'x authenticator" where
  "uploadAuth namespaces h = Inr (Some (uploadActor namespaces))"

definition uploadHeaders :: headers where
  "uploadHeaders = [(''idempotency-key'', ''k9'')]"

definition uploadContext :: api_context where
  "uploadContext = requestContext ''req'' 0 5000 uploadHeaders"

definition uploadBucket :: list_bucket where
  "uploadBucket = ([((''cdn'', ''ingest/staging/a''),
     \<lparr>sob_body = ''content'', sob_metadata = Some [(''cdngine-checksum-sha256'', ''abc'')]\<rparr>)], [])"

definition depsOver :: "('s, 'se) upload_service \<Rightarrow> (list_bucket, 's, 'se, store_error) upload_deps" where
  "depsOver store =
     \<lparr>udp_now = 0, udp_store = store, udp_uploadTargetTtlMs = None,
      udp_createUploadTarget = (\<lambda>i w. (w, Inr \<lparr>utg_url = ''/files'', utg_expiresAt = 9\<rparr>)),
      udp_headObject = (\<lambda>k w. map_sum id (map_option staged_descriptor.truncate)
        (stagingHeadObject listS3 example_ingest k w)),
      udp_sourceRepository = Some (\<lambda>i w. map_prod id (map_sum (\<lambda>_. ''failed'') id)
        (snapshotFromPath listS3 example_ingest example_source i w)),
      udp_workflowTemplate = None, udp_workflowTemplateResolver = None, udp_digest = (\<lambda>_. ''digest'')\<rparr>"

lemma deps_over [simp]:
  "udp_store (depsOver store) = store"
  "udp_createUploadTarget (depsOver store) i w = (w, Inr \<lparr>utg_url = ''/files'', utg_expiresAt = 9\<rparr>)"
  "udp_headObject (depsOver store) k w = map_sum id (map_option staged_descriptor.truncate)
     (stagingHeadObject listS3 example_ingest k w)"
  "udp_sourceRepository (depsOver store) = Some (\<lambda>i w. map_prod id (map_sum (\<lambda>_. ''failed'') id)
     (snapshotFromPath listS3 example_ingest example_source i w))"
  by (simp_all add: depsOver_def)

definition completionBody :: completion_body where
  "completionBody = \<lparr>cbd_objectKey = ''staging/a'', cbd_byteLength = 7, cbd_checksum = exampleChecksum\<rparr>"

definition foreignBody :: upload_body where
  "foreignBody = \<lparr>ubd_serviceNamespaceId = ''other'', ubd_tenantId = None, ubd_assetId = Some ''ast'',
     ubd_assetOwner = ''eve'', ubd_filename = ''b.png'', ubd_contentType = ''image/png'',
     ubd_objectKey = ''staging/b'', ubd_byteLength = 3, ubd_checksum = exampleChecksum\<rparr>"

abbreviation (input) "memoryDeps now \<equiv> depsOver (inMemoryUploads exampleIds now)"

abbreviation (input) "completeAs namespaces now \<equiv>
  uploadRequest (memoryDeps now) (Some (uploadAuth namespaces)) uploadHeaders uploadContext
    (CallComplete ''upl00'' completionBody)"

lemma example_completion: "is_ok (snd (completeAs [''media''] 50 (issuedExample, uploadBucket)))"
  by code_simp


theorem completion_refusals_are_problems_witness:
  "\<exists>p. snd (completeAs [''media''] 500 (issuedExample, uploadBucket)) = Inl (ProblemDetailError p) \<and>
     \<not> prb_retryable p \<and> prb_status p \<in> {409, 410, 422}"
proof -
  let ?r = "completeAs [''media''] 500 (issuedExample, uploadBucket)"
  let ?c = "uploadContext\<lparr>ctx_actor := Some (uploadActor [''media'']), ctx_surface := Some srf_public\<rparr>"
  let ?a = "admitCompletion (memoryDeps 500) uploadHeaders ?c ''upl00'' completionBody (issuedExample, uploadBucket)"
  have c: "enterSurface (Some (uploadAuth [''media''])) uploadHeaders srf_public uploadContext =
      (Inr ?c :: (upload_error, store_error) upload_thrown api_error + api_context)"
    by (simp add: entered_surface uploadAuth_def surface_allows_def)
  have "is_ok ?a" by code_simp
  then obtain repository input where a: "?a = Inr (repository, input)" by (cases ?a) auto
  have "\<not> is_ok (snd ?r)" by code_simp
  then obtain err where r: "?r = (fst ?r, Inl err)" by (cases ?r; cases "snd ?r") auto
  have "case snd ?r of Inl (ProblemDetailError p) \<Rightarrow> \<not> prb_retryable p | _ \<Rightarrow> True" by code_simp
  moreover have "snd ?r = Inl err" by (subst r) simp
  ultimately show ?thesis using completion_refusals_are_problems [OF deps_over(1) c a r] by auto
qed

abbreviation (input) "registryDeps now \<equiv> depsOver (durableUploads listTransaction listTransaction listTransaction
  listUploadEngine now ''uuid'')"

abbreviation (input) "createDurably \<equiv>
  uploadRequest (registryDeps 0) (Some (uploadAuth [''other''])) uploadHeaders uploadContext
    (CallCreate foreignBody) (emptyUploads, uploadBucket)"

theorem durable_refusals_are_internal_errors_witness:
  "\<exists>err. snd createDurably = Inl err \<and>
     snd (createProblemResponse ''/v1/upload-sessions'' (mapUnknownErrorToProblem (\<lambda>_. None) err)) = 500"
proof -
  let ?c = "uploadContext\<lparr>ctx_actor := Some (uploadActor [''other'']), ctx_surface := Some srf_public\<rparr>"
  let ?a = "admitIssue uploadHeaders ?c foreignBody ::
    (durable_upload_error, store_error) upload_thrown api_error + (string \<times> string)"
  have c: "enterSurface (Some (uploadAuth [''other''])) uploadHeaders srf_public uploadContext =
      (Inr ?c :: (durable_upload_error, store_error) upload_thrown api_error + api_context)"
    by (simp add: entered_surface uploadAuth_def surface_allows_def)
  have "is_ok ?a" by code_simp
  then have a: "case CallCreate foreignBody of
      CallCreate b \<Rightarrow> \<exists>r. admitIssue uploadHeaders ?c b =
        (Inr r :: (durable_upload_error, store_error) upload_thrown api_error + (string \<times> string))
    | CallComplete sid b \<Rightarrow> \<exists>r. admitCompletion (registryDeps 0) uploadHeaders ?c sid b
        (emptyUploads, uploadBucket) = Inr r"
    by (cases ?a) auto
  have "\<not> is_ok (snd createDurably)" by code_simp
  then obtain err where r: "createDurably = (fst createDurably, Inl err)"
    by (cases createDurably; cases "snd createDurably") auto
  have "snd createDurably = Inl err" by (subst r) simp
  then show ?thesis using durable_refusals_are_internal_errors [OF deps_over(1) c a r] by blast
qed

theorem staged_length_never_checked_witness:
  "uploadRequest (reportingLength 0 (memoryDeps 50)) (Some (uploadAuth [''media''])) uploadHeaders uploadContext
     (CallComplete ''upl00'' completionBody) (issuedExample, uploadBucket) =
   completeAs [''media''] 50 (issuedExample, uploadBucket) \<and>
   is_ok (snd (completeAs [''media''] 50 (issuedExample, uploadBucket)))"
  using staged_length_never_checked [of "memoryDeps 50" exampleIds 50] example_completion by simp

theorem foreign_asset_gets_version_witness:
  "\<exists>s' answer v. uploadRequest (memoryDeps 50) (Some (uploadAuth [''other''])) uploadHeaders uploadContext
      (CallCreate foreignBody) (issuedExample, uploadBucket) = ((s', uploadBucket), Inr (AnswerCreated answer)) \<and>
    js_get (up_versionsById s') (is_versionId (cra_issued answer)) = Some v \<and>
    vr_serviceNamespaceId v = ''media''"
proof -
  let ?asset = "the (js_get (up_assets issuedExample) ''ast'')"
  have a: "js_get (up_assets issuedExample) ''ast'' = Some ?asset" "as_serviceNamespaceId ?asset = ''media''"
    by code_simp+
  have n: "\<not> scope_allows (uploadActor [''other'']) (Some (as_serviceNamespaceId ?asset)) (keep_str (as_tenantId ?asset))"
    by code_simp
  have k: "js_get (up_idempotencyRecords issuedExample) (buildOperationIdempotencyKey
      (''public:'' @ act_subject (uploadActor [''other''])) op_create (js_trim ''k9'')) = None" by code_simp
  have h: "headers_get uploadHeaders ''idempotency-key'' = Some ''k9''" by code_simp
  have f: "scope_allows (uploadActor [''other'']) (Some (ubd_serviceNamespaceId foreignBody))
      (keep_str (ubd_tenantId foreignBody))" by code_simp
  have t: "js_trim ''k9'' \<noteq> []" by code_simp
  have i: "ubd_assetId foreignBody = Some ''ast''" "''ast'' \<noteq> []" by (simp_all add: foreignBody_def)
  have "uploadAuth [''other''] uploadHeaders =
      (Inr (Some (uploadActor [''other''])) :: (upload_error, store_error) upload_thrown + _)"
    by (simp add: uploadAuth_def)
  then have au: "uploadAuth [''other''] uploadHeaders =
      (Inr (Some (uploadActor [''other''])) :: (upload_error, store_error) upload_thrown + _)" .
  have c: "udp_createUploadTarget (memoryDeps 50) target uploadBucket =
      (uploadBucket, Inr \<lparr>utg_url = ''/files'', utg_expiresAt = 9\<rparr>)" for target by simp
  have d: "udp_store (memoryDeps 50) = inMemoryUploads exampleIds 50" by simp
  note g = foreign_asset_gets_version [where ctx = uploadContext and f = "uploadAuth [''other'']" and h = uploadHeaders, OF d refl au f h t i a(1) n k]
  from g [OF c] show ?thesis unfolding a(2) by blast
qed

abbreviation (input) "flowRun \<equiv> completeAs [''media''] 50 (issuedExample, uploadBucket)"

definition flowEvidence :: source_evidence where
  "flowEvidence = the (vr_canonicalSourceEvidence (the (js_get (up_versionsById (fst (fst flowRun))) ''ver0'')))"

abbreviation (input) "flowRestore \<equiv> restoreToPath listS3 makeDirectory putFile
  \<lparr>rti_canonicalSourceId = ev_canonicalSourceId flowEvidence, rti_destinationPath = ''/work/a.png'',
   rti_snapshot = Some (canonicalSourceEvidenceToSnapshotResult flowEvidence)\<rparr> (snd (fst flowRun))"

theorem uploaded_bytes_are_restored_witness:
  "js_get (snd (fst flowRestore)) ''/work/a.png'' = Some ''content''"
proof -
  let ?u = "the (projr (getUploadSession ''upl00'' issuedExample))"
  let ?v = "the (js_get (up_versionsById issuedExample) (sm_versionId ?u))"
  have u: "getUploadSession ''upl00'' issuedExample = Inr (Some ?u)" by code_simp
  have v: "js_get (up_versionsById issuedExample) (sm_versionId ?u) = Some ?v" by code_simp
  have id: "vr_versionId ?v = ''ver0''" "sm_objectKey ?u = ''staging/a''" by code_simp+
  have "case snd flowRun of Inr (AnswerCompleted r d) \<Rightarrow> \<not> d | _ \<Rightarrow> False" by code_simp
  then obtain r where run: "flowRun = ((fst (fst flowRun), snd (fst flowRun)), Inr (AnswerCompleted r False))"
    by (cases flowRun) (auto split: sum.splits upload_answer.splits)
  have pl: "plain_key (sr_prefix example_source)" "sr_bucket example_source \<noteq> []"
    "CHR 0x2F \<notin> set (sr_bucket example_source)" "plain_key (sr_prefix example_ingest)"
    "sr_bucket example_ingest \<noteq> []" "CHR 0x2F \<notin> set (sr_bucket example_ingest)"
    "url_plain (sr_bucket example_ingest)" "url_plain (sr_prefix example_ingest)"
    by (code_simp | simp add: example_source_def example_ingest_def)+
  have pu: "plain_key (sm_objectKey ?u)" "url_plain (sm_objectKey ?u)" by code_simp+
  have pv: "plain_key (vr_versionId ?v)" "isSafeSourceFilename (vr_filename ?v)"
    "js_trim (vr_filename ?v) = vr_filename ?v" by code_simp+
  have "is_ok (snd flowRestore)" by code_simp
  then obtain path where res: "flowRestore = (fst flowRestore, Inr path)"
    by (cases flowRestore; cases "snd flowRestore") auto
  note all = uploaded_bytes_are_restored [where mkdir = makeDirectory and writeFile = putFile,
      OF deps_over(1) deps_over(3) deps_over(4) listS3_laws pl u pu v pv run, unfolded id]
  then obtain v' e where e: "js_get (up_versionsById (fst (fst flowRun))) ''ver0'' = Some v'"
    "vr_canonicalSourceEvidence v' = Some e"
    and kept: "\<forall>w2 w3 destination path. js_get (fst w2) = js_get (fst (snd (fst flowRun))) \<and>
      restoreToPath listS3 makeDirectory putFile \<lparr>rti_canonicalSourceId = ev_canonicalSourceId e,
         rti_destinationPath = destination,
         rti_snapshot = Some (canonicalSourceEvidenceToSnapshotResult e)\<rparr> w2 = (w3, Inr path) \<longrightarrow>
      path = destination \<and> (\<exists>staged w4. js_get (fst uploadBucket)
          (sr_bucket example_ingest, sr_prefix example_ingest @ ''/'' @ ''staging/a'') = Some staged \<and>
        makeDirectory (pathDirname path) w2 = (w4, Inr ()) \<and> putFile path (sob_body staged) w4 = (w3, Inr ()))"
    by (elim exE conjE) (rule that)
  have ef: "e = flowEvidence" using e by (simp add: flowEvidence_def)
  from kept [unfolded ef, rule_format, OF conjI, OF refl res] obtain staged w4 where
    p: "path = ''/work/a.png''" and st: "js_get (fst uploadBucket)
      (sr_bucket example_ingest, sr_prefix example_ingest @ ''/'' @ ''staging/a'') = Some staged"
    and w: "putFile path (sob_body staged) w4 = (fst flowRestore, Inr ())" by blast
  have "map_option sob_body (Some staged) = Some ''content''" unfolding st [symmetric] by code_simp
  then have "fst flowRestore = (fst w4, js_set ''/work/a.png'' ''content'' (snd w4))"
    using w by (simp add: p putFile_def)
  then show ?thesis by (metis snd_conv js_get_set)
qed

end
