(* ===== verification/Spec2Isabelle.thy ===== *)
theory Spec2Isabelle
  imports Dispatch_Runtime Upload_Session Worker_Runtime Durable_Dispatch Split_Artifacts
    Source_Paths Storage_Config Operator_Control Public_Delivery Durable_Links
    Delivery_Routes Upload_Guarantees Object_Stores Upload_Routes
begin

text \<open>
  A verification development of CDNgine, the asset ingest, processing and delivery platform of this
  repository (TypeScript, under \<open>src/\<close>).

  \<^bold>\<open>The program.\<close> A client asks the API (\<open>apps/api\<close>) for an upload session, uploads bytes to a
  staging store and completes the session. Completion snapshots the staged object into the canonical
  source repository (\<open>packages/storage\<close>), makes the asset version canonical in the registry
  (\<open>packages/registry\<close>) and leaves a workflow dispatch there. The dispatcher (\<open>packages/workflows\<close>)
  claims dispatches and starts a Temporal workflow for each. A worker (\<open>apps/workers\<close>) runs the
  publication workflow of the template, which writes derivatives and a manifest to the derived store
  under deterministic keys and publishes the version. The API serves reads, one-time links and output
  workflows from the registry, and operators reprocess, quarantine, release and purge versions. The
  registry exists twice, as in-memory classes and as classes over Prisma; both are modelled, and where
  they promise the same the development says so, or shows where they differ.

  \<^bold>\<open>Conventions.\<close> A definition has the name of the function, method or type it models; the fields of
  a record have a prefix. A class is the record of its fields, a method takes and returns it. A call
  that may throw returns an \<open>outcome\<close>, the state and an error or a result, so that what was written
  before a throw is kept. A method that awaits something outside is cut at its awaits where other
  calls can run, and a step relation interleaves the parts. Dates are milliseconds, \<open>bigint\<close> and the
  numbers of the program are \<open>int\<close>; bytes and words of the archive code keep their width.

  \<^bold>\<open>The shared theories.\<close>
  \<^item> \<open>Base_Prelude\<close>: outcomes, insertion-ordered maps (locale \<open>keyed_map\<close>), strings and
    their trimming, the stable sort over a comparator (locale \<open>comparator\<close>), and the collections
    \<open>store_simps\<close> and \<open>map_laws\<close>.
  \<^item> \<open>Text_Bytes\<close>, \<open>Calendar\<close>, \<open>Json_Text\<close>: buffers, UTF-16 and UTF-8, dates, and JSON with its
    printer and parser. The parser has fuel, the length of the text, and the round trip shows that it
    is enough for a text that was printed.
  \<^item> \<open>Registry_Tables\<close>: the rows and unique constraints of \<open>packages/registry/prisma/schema.prisma\<close>
    that the stores use, and the writing calls of the database engine as a parameter with the laws
    \<open>table_laws\<close> and \<open>transactional\<close>.

  \<^bold>\<open>Ingest.\<close>
  \<^item> \<open>Upload_Session\<close> models \<open>apps/api/src/upload-session-service.ts\<close>: \<open>issueUploadSession\<close>, and
    \<open>completeUploadSession\<close> in its two parts. Over the step relation \<open>upload_step\<close> an invariant gives one
    canonicalization at a time for a version and one version for a session; a canonical version stays
    as it is; issuing and completing again with the same key and request gives the same answer.
  \<^item> \<open>Durable_Upload\<close> and \<open>Upload_Guarantees\<close> model
    \<open>packages/registry/src/prisma-upload-session-store.ts\<close>: the two transactions of a completion
    (\<open>readPhaseOne\<close>, \<open>writePhaseOne\<close>, \<open>phaseTwoBody\<close>), what they record, how a completion is
    replayed, and five places where the store does not do what its documents say.
  \<^item> \<open>Canonical_Evidence\<close>, \<open>Source_Paths\<close>, \<open>Storage_Config\<close> and \<open>Object_Stores\<close> model
    \<open>packages/storage/src\<close>: evidence of a snapshot, file names and destinations that stay below their
    root, storage roles and the configuration from the environment, and the stores over an
    S3-compatible service. A snapshot restores to the bytes that were staged, for names that need no
    URL encoding; a configuration that loads gives every role a bucket and a prefix.
  \<^item> \<open>Split_Archive\<close>, \<open>Zip_Archive\<close>, \<open>Split_Artifacts\<close> model
    \<open>packages/storage/src/split-artifact-adapters.ts\<close>: tar and zip archives are read back as they were
    written, entries have safe paths and stay within the limits, and reading always returns. The loop
    over a tar is a \<open>partial_function\<close>; \<open>tarLoop_returns\<close> shows that its value is never the one of a
    loop without end.

  \<^bold>\<open>Dispatch.\<close>
  \<^item> \<open>Dispatch_Store\<close> models \<open>packages/registry/src/workflow-dispatch-store.ts\<close>, with an invariant over all
    runs of the store and the life cycle a dispatch may take.
  \<^item> \<open>Dispatch_Runtime\<close> models \<open>packages/workflows/src/dispatch-runtime.ts\<close>, the template registry and
    the Temporal client of \<open>packages/workflows/src\<close>. The locale \<open>dispatch_store_contract\<close> states what the
    dispatcher needs of a store; the in-memory store keeps it. A run of the dispatcher refines a plan
    computed from the due dispatches, and settles each of them.
  \<^item> \<open>Durable_Dispatch\<close> models \<open>prisma-workflow-dispatch-store.ts\<close> and simulates it with the in-memory store.

  \<^bold>\<open>Processing and publication.\<close>
  \<^item> \<open>Capabilities\<close> and \<open>Manifests\<close> model \<open>packages/capabilities/src\<close> and \<open>packages/manifests/src\<close>.
  \<^item> \<open>Publication_Store\<close> models the three in-memory publication stores by one definition and three
    instances; the locale \<open>publication_contract\<close> is what a workflow needs of them, and the three
    interpretations discharge it. \<open>history_step\<close> says what the next call does after any history. \<open>Publication_Workflows\<close> models the three workflows of
    \<open>packages/workflows/src\<close> over that contract.
  \<^item> \<open>Durable_Publication\<close> models the Prisma publication stores, and \<open>Worker_Runtime\<close> the projection of
    workflow runs and \<open>apps/workers/src/publication-worker-runtime.ts\<close>, with the effect of a whole worker run on
    the registry.

  \<^bold>\<open>The API.\<close>
  \<^item> \<open>Api_Access\<close> models \<open>packages/auth/src/index.ts\<close> and the shell of \<open>apps/api/src\<close>: bearer tokens,
    service accounts, roles and scopes.
  \<^item> \<open>Public_Delivery\<close> models \<open>apps/api/src/public/delivery-service.ts\<close>, \<open>Durable_Delivery\<close> and \<open>Durable_Links\<close>
    \<open>packages/registry/src/prisma-public-version-read-store.ts\<close>. In memory a one-time link is used once;
    over the registry two uses succeed, which \<open>Durable_Links\<close> proves on runs of the code.
  \<^item> \<open>Delivery_Routes\<close> models \<open>delivery-routes.ts\<close> and \<open>output-workflow-service.ts\<close>: an answered request is
    one whose actor may see the namespace and tenant of the version.
  \<^item> \<open>Upload_Routes\<close> models \<open>upload-session-routes.ts\<close> over the interface \<open>upload_service\<close>, which both upload
    stores provide. It puts the parts of the ingest together: requests stay in scope, refusals are
    problems of their own over the in-memory store and internal errors over the registry, and the bytes
    that a client staged are those that the evidence of the canonical version restores.
  \<^item> \<open>Operator_Control\<close> models \<open>apps/api/src/operator\<close>: the audit trail explains the state of every version,
    one without a trail being as it was seeded, and what a purge leaves when other actions wait.

  \<^bold>\<open>Parameters.\<close> Code that is not in the repository is an argument of the definitions that use it, with
  the documented behaviour a property needs as a named hypothesis: the database engine
  (\<open>table_laws\<close>, \<open>transactional\<close>), the S3 service (\<open>s3_laws\<close>, \<open>list_law\<close>), gzip and deflate
  (\<open>codec_laws\<close>), SHA-256, the Temporal client, Better Auth, the processors of a workflow, the file
  system, the clock, \<open>randomUUID\<close> and \<open>localeCompare\<close>. Each witness instantiates them with concrete functions.

  \<^bold>\<open>Fuel.\<close> \<open>listPages\<close> of \<open>Object_Stores\<close> follows continuation tokens for at most a given number of pages, and
  is \<open>None\<close> beyond it; the lemma on complete listings shows that one unit for each page of the listing is
  enough. The JSON parser is described above. All other loops are structural or have a termination proof.

  \<^bold>\<open>Not modelled.\<close> The SDK, the operator and demo applications (clients of the API), observability (it
  decides nothing), the generated Prisma client, process bridges, and the schemas of request
  bodies, which the zod library runs: the routes start from bodies the schemas accept. Strings are
  restricted to code units below 256 outside of the archive code, as \<open>Base_Prelude\<close> says. Isolation
  of the database is read committed, the one the stores ask for.
\<close>

end
